(* ===== verification/Base.thy ===== *)
theory Base
  imports Main
begin

text \<open>
  The prelude of the development: Python text as lists of code points, the
  Python operations on it that the code uses, results of operations that may
  raise, and tables as lists of rows with the SQL statements the store runs on
  them.  The lemmas here carry the component proofs; the ones every component
  wants are simp rules, the rest is collected in \<open>sql\<close>.
\<close>

named_theorems sql \<open>how the SQL statements act on a table\<close>
named_theorems frame \<open>what an operation leaves unchanged\<close>

section \<open>Python text\<close>

text \<open>
  A Python \<open>str\<close> is a sequence of code points, so \<open>len\<close> is the number of code
  points and indexing is per code point.  \<open>lit\<close> writes an ASCII literal.
\<close>

type_synonym ustr = "nat list"

definition lit :: "string \<Rightarrow> ustr" where
  "lit s = map of_char s"

lemma lit_eq_iff [simp]: "lit s = lit t \<longleftrightarrow> s = t"
proof -
  have "inj (of_char :: char \<Rightarrow> nat)" by (rule inj_of_char)
  then show ?thesis by (simp add: lit_def inj_map_eq_map)
qed

lemma lit_eq_Nil_iff [simp]: "lit s = [] \<longleftrightarrow> s = []" "[] = lit s \<longleftrightarrow> s = []"
  by (auto simp: lit_def)

lemma length_lit [simp]: "length (lit s) = length s"
  by (simp add: lit_def)

lemma lit_append: "lit (s @ t) = lit s @ lit t"
  by (simp add: lit_def)

text \<open>
  \<open>str.isspace\<close> per code point (the characters \<open>str.strip()\<close> and
  \<open>str.split()\<close> remove).
\<close>

definition py_isspace :: "nat \<Rightarrow> bool" where
  "py_isspace c \<longleftrightarrow>
     (9 \<le> c \<and> c \<le> 13) \<or> (28 \<le> c \<and> c \<le> 32) \<or> c = 0x85 \<or> c = 0xA0 \<or> c = 0x1680
     \<or> (0x2000 \<le> c \<and> c \<le> 0x200A) \<or> c = 0x2028 \<or> c = 0x2029 \<or> c = 0x202F
     \<or> c = 0x205F \<or> c = 0x3000"

definition py_strip :: "ustr \<Rightarrow> ustr" where
  "py_strip s = rev (dropWhile py_isspace (rev (dropWhile py_isspace s)))"

lemma py_strip_Nil [simp]: "py_strip [] = []"
  by (simp add: py_strip_def)

lemma py_strip_id:
  assumes "s \<noteq> []" "\<not> py_isspace (hd s)" "\<not> py_isspace (last s)"
  shows "py_strip s = s"
proof -
  have 1: "dropWhile py_isspace s = s"
    using assms(1,2) by (cases s) auto
  have "rev s \<noteq> []" "\<not> py_isspace (hd (rev s))"
    using assms(1,3) by (auto simp: hd_rev)
  then have "dropWhile py_isspace (rev s) = rev s"
    by (cases "rev s") auto
  then show ?thesis by (simp add: py_strip_def 1)
qed

definition starts_with :: "ustr \<Rightarrow> ustr \<Rightarrow> bool" where
  "starts_with p s \<longleftrightarrow> take (length p) s = p"

section \<open>Raising\<close>

text \<open>
  An operation that may raise returns \<open>Inl\<close> of the exception or \<open>Inr\<close> of
  its value.  A store operation that raises has rolled its transaction back, so
  the caller keeps the store it had.
\<close>

datatype py_error =
    ValueError
  | TypeError
  | RuntimeError
  | IntegrityError
  | StoreSchemaError ustr

type_synonym 'a result = "py_error + 'a"

definition bind_result :: "'a result \<Rightarrow> ('a \<Rightarrow> 'b result) \<Rightarrow> 'b result" where
  "bind_result m f = (case m of Inl e \<Rightarrow> Inl e | Inr x \<Rightarrow> f x)"

lemma bind_result_simps [simp]:
  "bind_result (Inl e) f = Inl e"
  "bind_result (Inr x) f = f x"
  by (simp_all add: bind_result_def)

lemma bind_result_eq_Inr:
  "bind_result m f = Inr y \<longleftrightarrow> (\<exists>x. m = Inr x \<and> f x = Inr y)"
  by (cases m) auto

lemma bind_result_eq_Inl:
  "bind_result m f = Inl e \<longleftrightarrow> m = Inl e \<or> (\<exists>x. m = Inr x \<and> f x = Inl e)"
  by (cases m) auto

section \<open>Tables\<close>

text \<open>
  A table is the list of its rows in insertion order.  An \<open>UPDATE \<dots> SET f
  WHERE p\<close> rewrites every row that satisfies \<open>p\<close>; its \<open>rowcount\<close> is
  the number of those rows.  A table with \<open>CHECK\<close> constraints refuses a
  statement that would leave a row violating them: sqlite3 raises
  \<open>IntegrityError\<close>.
\<close>

definition sql_update :: "('r \<Rightarrow> bool) \<Rightarrow> ('r \<Rightarrow> 'r) \<Rightarrow> 'r list \<Rightarrow> 'r list" where
  "sql_update p f t = map (\<lambda>r. if p r then f r else r) t"

definition sql_rowcount :: "('r \<Rightarrow> bool) \<Rightarrow> 'r list \<Rightarrow> nat" where
  "sql_rowcount p t = length (filter p t)"

definition sql_delete :: "('r \<Rightarrow> bool) \<Rightarrow> 'r list \<Rightarrow> 'r list" where
  "sql_delete p t = filter (\<lambda>r. \<not> p r) t"

definition sql_fetchone :: "('r \<Rightarrow> bool) \<Rightarrow> 'r list \<Rightarrow> 'r option" where
  "sql_fetchone p t = List.find p t"

definition checked_update ::
  "('r \<Rightarrow> bool) \<Rightarrow> ('r \<Rightarrow> bool) \<Rightarrow> ('r \<Rightarrow> 'r) \<Rightarrow> 'r list \<Rightarrow> 'r list result" where
  "checked_update ok p f t =
     (if list_all (\<lambda>r. p r \<longrightarrow> ok (f r)) t then Inr (sql_update p f t) else Inl IntegrityError)"

definition checked_insert ::
  "('r \<Rightarrow> bool) \<Rightarrow> ('r \<Rightarrow> 'k) \<Rightarrow> 'r \<Rightarrow> 'r list \<Rightarrow> 'r list result" where
  "checked_insert ok key r t =
     (if ok r \<and> key r \<notin> key ` set t then Inr (t @ [r]) else Inl IntegrityError)"

definition sql_upsert :: "('r \<Rightarrow> bool) \<Rightarrow> ('r \<Rightarrow> 'r) \<Rightarrow> 'r \<Rightarrow> 'r list \<Rightarrow> 'r list" where
  "sql_upsert p f r t = (if list_ex p t then sql_update p f t else t @ [r])"

lemma sql_update_Nil [simp]: "sql_update p f [] = []"
  by (simp add: sql_update_def)

lemma sql_update_Cons [simp]:
  "sql_update p f (r # t) = (if p r then f r else r) # sql_update p f t"
  by (simp add: sql_update_def)

lemma sql_update_append [simp]:
  "sql_update p f (t @ u) = sql_update p f t @ sql_update p f u"
  by (simp add: sql_update_def)

lemma length_sql_update [simp]: "length (sql_update p f t) = length t"
  by (simp add: sql_update_def)

lemma set_sql_update [sql]:
  "set (sql_update p f t) = {r \<in> set t. \<not> p r} \<union> f ` {r \<in> set t. p r}"
  by (auto simp: sql_update_def)

lemma in_sql_updateE:
  assumes "r \<in> set (sql_update p f t)"
  obtains "r \<in> set t" "\<not> p r" | r0 where "r0 \<in> set t" "p r0" "r = f r0"
  using assms by (auto simp: set_sql_update)

lemma sql_update_id [sql]: "(\<And>r. r \<in> set t \<Longrightarrow> \<not> p r) \<Longrightarrow> sql_update p f t = t"
  by (induction t) auto

lemma map_sql_update [sql]:
  "(\<And>r. p r \<Longrightarrow> g (f r) = g r) \<Longrightarrow> map g (sql_update p f t) = map g t"
  by (simp add: sql_update_def)

lemma fetchone_SomeD: "sql_fetchone p t = Some r \<Longrightarrow> r \<in> set t \<and> p r"
  by (auto simp: sql_fetchone_def find_Some_iff)

lemma fetchone_None_iff: "sql_fetchone p t = None \<longleftrightarrow> (\<forall>r \<in> set t. \<not> p r)"
  by (auto simp: sql_fetchone_def find_None_iff)

lemma fetchone_append [sql]:
  "sql_fetchone p (t @ u) =
     (case sql_fetchone p t of None \<Rightarrow> sql_fetchone p u | Some r \<Rightarrow> Some r)"
  by (induction t) (auto simp: sql_fetchone_def)

lemma fetchone_Nil [simp]: "sql_fetchone p [] = None"
  by (simp add: sql_fetchone_def)

lemma fetchone_Cons [simp]:
  "sql_fetchone p (r # t) = (if p r then Some r else sql_fetchone p t)"
  by (simp add: sql_fetchone_def)

lemma fetchone_sql_update [sql]:
  assumes "\<And>r. q r \<Longrightarrow> p (f r) = p r"
  shows "sql_fetchone p (sql_update q f t) =
    map_option (\<lambda>r. if q r then f r else r) (sql_fetchone p t)"
  by (induction t) (auto simp: assms)

text \<open>A key no two rows share: the row it finds is the only one.\<close>

definition unique_key :: "('r \<Rightarrow> 'k) \<Rightarrow> 'r list \<Rightarrow> bool" where
  "unique_key key t \<longleftrightarrow> distinct (map key t)"

lemma unique_key_Nil [simp]: "unique_key key []"
  by (simp add: unique_key_def)

lemma unique_keyD:
  "unique_key key t \<Longrightarrow> r \<in> set t \<Longrightarrow> s \<in> set t \<Longrightarrow> key r = key s \<Longrightarrow> r = s"
  by (auto simp: unique_key_def distinct_map inj_on_def)

lemma unique_key_update [sql]:
  "(\<And>r. p r \<Longrightarrow> key (f r) = key r) \<Longrightarrow> unique_key key (sql_update p f t) = unique_key key t"
  by (simp add: unique_key_def map_sql_update)

lemma unique_key_snoc [sql]:
  "unique_key key (t @ [r]) \<longleftrightarrow> unique_key key t \<and> key r \<notin> key ` set t"
  by (auto simp: unique_key_def)

lemma unique_key_delete [sql]: "unique_key key t \<Longrightarrow> unique_key key (sql_delete p t)"
  by (auto simp: unique_key_def sql_delete_def distinct_map inj_on_def)

lemma fetchone_unique:
  assumes "unique_key key t" "r \<in> set t"
  shows "sql_fetchone (\<lambda>s. key s = key r) t = Some r"
  using assms by (induction t) (auto simp: unique_key_def)

lemma rowcount_unique:
  assumes "unique_key key t" "r \<in> set t" "p r" "\<And>s. p s \<Longrightarrow> key s = key r"
  shows "sql_rowcount p t = 1"
proof -
  have "filter p t = [r]"
    using assms(1,2)
  proof (induction t)
    case (Cons x t)
    show ?case
    proof (cases "r = x")
      case True
      have "\<forall>s \<in> set t. key s \<noteq> key r"
        using Cons.prems(1) True by (simp add: unique_key_def) (metis imageI)
      then have "filter p t = []"
        by (auto simp: filter_empty_conv dest: assms(4))
      with True assms(3) show ?thesis by simp
    next
      case False
      with Cons.prems have "\<not> p x"
        using assms(4)[of x] by (auto simp: unique_key_def)
      with Cons False show ?thesis by (auto simp: unique_key_def)
    qed
  qed simp
  then show ?thesis by (simp add: sql_rowcount_def)
qed

lemma rowcount_zero_iff: "sql_rowcount p t = 0 \<longleftrightarrow> (\<forall>r \<in> set t. \<not> p r)"
  by (auto simp: sql_rowcount_def filter_empty_conv)

lemma checked_update_InrD:
  "checked_update ok p f t = Inr u \<Longrightarrow> u = sql_update p f t \<and> (\<forall>r \<in> set t. p r \<longrightarrow> ok (f r))"
  by (auto simp: checked_update_def list_all_iff split: if_splits)

lemma checked_update_total:
  "(\<And>r. r \<in> set t \<Longrightarrow> p r \<Longrightarrow> ok (f r)) \<Longrightarrow> checked_update ok p f t = Inr (sql_update p f t)"
  by (auto simp: checked_update_def list_all_iff)

lemma checked_insert_InrD:
  "checked_insert ok key r t = Inr u \<Longrightarrow> u = t @ [r] \<and> ok r \<and> key r \<notin> key ` set t"
  by (auto simp: checked_insert_def split: if_splits)

end
