(* ===== verification/InstructionText.thy ===== *)
theory InstructionText
  imports Sha256
begin

text \<open>
  The instruction text a command carries (\<open>core/commands.py\<close>): its validation,
  the whitespace normal form on which submissions and observed turns are matched,
  and the opaque digests built on it.
\<close>

section \<open>Splitting text the way Python does\<close>

text \<open>\<open>str.splitlines()\<close>: the line boundaries of Python, a CR LF pair counting once.\<close>

definition line_boundary :: "nat \<Rightarrow> bool" where
  "line_boundary c \<longleftrightarrow> (10 \<le> c \<and> c \<le> 13) \<or> (28 \<le> c \<and> c \<le> 30) \<or> c = 0x85 \<or> c = 0x2028 \<or> c = 0x2029"

fun splitlines_from :: "ustr \<Rightarrow> ustr \<Rightarrow> ustr list" where
  "splitlines_from l [] = (if l = [] then [] else [rev l])"
| "splitlines_from l (c # s) =
     (if line_boundary c
      then rev l # splitlines_from [] (if c = 13 \<and> take 1 s = [10] then drop 1 s else s)
      else splitlines_from (c # l) s)"

definition splitlines :: "ustr \<Rightarrow> ustr list" where
  "splitlines s = splitlines_from [] s"

text \<open>\<open>str.split()\<close>: the maximal runs of characters that are not white space.\<close>

function py_split :: "ustr \<Rightarrow> ustr list" where
  "py_split s =
     (case dropWhile py_isspace s of [] \<Rightarrow> []
      | c # r \<Rightarrow> (c # takeWhile (\<lambda>d. \<not> py_isspace d) r)
          # py_split (dropWhile (\<lambda>d. \<not> py_isspace d) r))"
  by pat_completeness auto
termination
proof (relation "measure length")
  fix s c and r :: ustr
  assume "dropWhile py_isspace s = c # r"
  then have "length r < length s"
    using length_dropWhile_le[of py_isspace s] by simp
  then show "(dropWhile (\<lambda>d. \<not> py_isspace d) r, s) \<in> measure length"
    using length_dropWhile_le[of "\<lambda>d. \<not> py_isspace d" r] by simp
qed simp

declare py_split.simps [simp del]

fun join_with :: "ustr \<Rightarrow> ustr list \<Rightarrow> ustr" where
  "join_with sep [] = []"
| "join_with sep [x] = x"
| "join_with sep (x # y # zs) = x @ sep @ join_with sep (y # zs)"

section \<open>Validation\<close>

definition is_raw_instruction_control :: "nat \<Rightarrow> bool" where
  "is_raw_instruction_control c \<longleftrightarrow> (c < 32 \<and> c \<noteq> 9 \<and> c \<noteq> 10) \<or> c = 127"

definition max_instruction_length :: nat where
  "max_instruction_length = 4096"

fun contains_text :: "ustr \<Rightarrow> ustr \<Rightarrow> bool" where
  "contains_text p [] = (p = [])"
| "contains_text p (c # s) = (starts_with p (c # s) \<or> contains_text p s)"

definition contains_bracketed_paste :: "ustr \<Rightarrow> bool" where
  "contains_bracketed_paste s \<longleftrightarrow>
     contains_text (27 # lit ''[200~'') s \<or> contains_text (27 # lit ''[201~'') s"

definition contains_c1_control :: "ustr \<Rightarrow> bool" where
  "contains_c1_control s \<longleftrightarrow> list_ex (\<lambda>c. 0x80 \<le> c \<and> c \<le> 0x9F) s"

text \<open>
  The text errors, one per branch of \<open>validate_instruction_text\<close>; all of them
  carry the status \<open>invalid_request\<close>.
\<close>

datatype text_error =
    TextRequired
  | TextNotString
  | TextEmpty
  | TextTooLong
  | TextNul
  | TextBracketedPaste
  | TextEscape
  | TextC1
  | TextRawControl

text \<open>The argument is \<open>instruction.get("text")\<close>: absent and null are the same.\<close>

definition validate_instruction_text :: "ustr option option \<Rightarrow> text_error option" where
  "validate_instruction_text v =
     (case v of None \<Rightarrow> Some TextRequired
      | Some None \<Rightarrow> Some TextNotString
      | Some (Some s) \<Rightarrow>
          if s = [] then Some TextEmpty
          else if max_instruction_length < length s then Some TextTooLong
          else if 0 \<in> set s then Some TextNul
          else if contains_bracketed_paste s then Some TextBracketedPaste
          else if 27 \<in> set s then Some TextEscape
          else if contains_c1_control s then Some TextC1
          else if list_ex is_raw_instruction_control s then Some TextRawControl
          else None)"

abbreviation valid_instruction :: "ustr \<Rightarrow> bool" where
  "valid_instruction s \<equiv> validate_instruction_text (Some (Some s)) = None"

section \<open>Normal form and digests\<close>

definition is_edge_control :: "nat \<Rightarrow> bool" where
  "is_edge_control c \<longleftrightarrow> is_raw_instruction_control c \<or> (0x80 \<le> c \<and> c \<le> 0x9F)"

definition strip_edge_controls :: "ustr \<Rightarrow> ustr" where
  "strip_edge_controls s =
     rev (dropWhile is_edge_control (rev (dropWhile is_edge_control s)))"

definition normalize_instruction_text :: "ustr \<Rightarrow> ustr" where
  "normalize_instruction_text s =
     py_strip (join_with [10]
       (map (\<lambda>line. join_with [32] (py_split line)) (splitlines (strip_edge_controls s))))"

definition instruction_fingerprint :: "ustr \<Rightarrow> ustr" where
  "instruction_fingerprint s =
     (let n = normalize_instruction_text s;
          fingerprint_text = (if n = [] then s else n) in
      lit ''twins1.'' @ sha256_hex (utf8_encode (lit ''tendwire.instruction-fingerprint.v1'')
        @ 0 # utf8_encode fingerprint_text))"

definition turn_submission_id :: "ustr \<Rightarrow> ustr \<Rightarrow> ustr result" where
  "turn_submission_id host_id request_id =
     (let h = py_strip host_id; r = py_strip request_id in
      if h = [] \<or> r = [] then Inl ValueError
      else Inr (lit ''twsub1.'' @ sha256_hex (utf8_encode (lit ''tendwire.turn-submission-id.v1'')
        @ 0 # utf8_encode h @ 0 # utf8_encode r)))"

definition is_turn_submission_id :: "ustr \<Rightarrow> bool" where
  "is_turn_submission_id v \<longleftrightarrow>
     length v = 71 \<and> take 7 v = lit ''twsub1.'' \<and> list_all hex_char (drop 7 v)"

definition is_selector_proof :: "ustr \<Rightarrow> bool" where
  "is_selector_proof v \<longleftrightarrow>
     length v = 67 \<and> take 3 v = lit ''v1:'' \<and> list_all hex_char (drop 3 v)"

definition is_valid_request_id :: "ustr \<Rightarrow> bool" where
  "is_valid_request_id v \<longleftrightarrow>
     1 \<le> length v \<and> length v \<le> 128 \<and>
     list_all (\<lambda>c. (65 \<le> c \<and> c \<le> 90) \<or> (97 \<le> c \<and> c \<le> 122) \<or> (48 \<le> c \<and> c \<le> 57)
       \<or> c = 46 \<or> c = 95 \<or> c = 45) v"

section \<open>Lemmas on the normal form\<close>

text \<open>A run of characters \<open>str.split()\<close> returns, and a line of such words.\<close>

definition py_word :: "ustr \<Rightarrow> bool" where
  "py_word w \<longleftrightarrow> w \<noteq> [] \<and> (\<forall>c \<in> set w. \<not> py_isspace c)"

definition clean_line :: "ustr \<Rightarrow> bool" where
  "clean_line l \<longleftrightarrow> (\<exists>ws. (\<forall>w \<in> set ws. py_word w) \<and> l = join_with [32] ws)"

lemma py_split_blank:
  assumes "dropWhile py_isspace s = []"
  shows "py_split s = []"
  by (subst py_split.simps) (simp only: assms list.case)

lemma py_split_run:
  "dropWhile py_isspace s = c # r \<Longrightarrow> py_split s =
    (c # takeWhile (\<lambda>d. \<not> py_isspace d) r) # py_split (dropWhile (\<lambda>d. \<not> py_isspace d) r)"
  by (subst py_split.simps) simp

lemma py_split_words: "w \<in> set (py_split s) \<Longrightarrow> py_word w"
proof (induction s rule: py_split.induct)
  case (1 s)
  show ?case
  proof (cases "dropWhile py_isspace s")
    case (Cons c r)
    have "\<not> py_isspace c" using hd_dropWhile[of py_isspace s] Cons by simp
    then have "py_word (c # takeWhile (\<lambda>d. \<not> py_isspace d) r)"
      by (auto simp: py_word_def dest: set_takeWhileD)
    with 1 Cons show ?thesis by (auto simp: py_split_run)
  qed (use 1 in \<open>simp add: py_split_blank\<close>)
qed

lemma py_split_Nil [simp]: "py_split [] = []"
  by (simp add: py_split.simps)

lemma py_split_word:
  assumes "py_word w" "rest = [] \<or> py_isspace (hd rest)"
  shows "py_split (w @ rest) = w # py_split rest"
proof -
  obtain c r where w: "w = c # r" "\<not> py_isspace c" "\<forall>d \<in> set r. \<not> py_isspace d"
    using assms(1) by (cases w) (auto simp: py_word_def)
  have "takeWhile (\<lambda>d. \<not> py_isspace d) (r @ rest) = r"
    using w(3) assms(2) by (cases rest) (simp_all add: takeWhile_append2)
  moreover have "dropWhile (\<lambda>d. \<not> py_isspace d) (r @ rest) = rest"
    using w(3) assms(2) by (cases rest) (simp_all add: dropWhile_append2)
  ultimately show ?thesis using w by (subst py_split.simps) simp
qed

lemma py_split_space: "py_isspace c \<Longrightarrow> py_split (c # s) = py_split s"
  by (subst (1 2) py_split.simps) simp

lemma py_isspace_32 [simp]: "py_isspace 32" "py_isspace 10"
  by (simp_all add: py_isspace_def)

lemma py_split_join: "\<forall>w \<in> set ws. py_word w \<Longrightarrow> py_split (join_with [32] ws) = ws"
proof (induction "[32 :: nat]" ws rule: join_with.induct)
  case (2 x)
  then show ?case using py_split_word[of x "[]"] by simp
next
  case (3 x y zs)
  then show ?case
    using py_split_word[of x "32 # join_with [32] (y # zs)"] by (simp add: py_split_space)
qed simp

lemma clean_line_split: "clean_line (join_with [32] (py_split s))"
  unfolding clean_line_def using py_split_words by blast

lemma clean_line_id: "clean_line l \<Longrightarrow> join_with [32] (py_split l) = l"
  by (auto simp: clean_line_def py_split_join)

lemma set_join_with: "set (join_with sep ls) \<subseteq> set sep \<union> \<Union> (set ` set ls)"
  by (induction sep ls rule: join_with.induct) auto

lemma line_boundary_isspace: "line_boundary c \<Longrightarrow> py_isspace c"
  unfolding line_boundary_def py_isspace_def by (elim disjE) simp_all

lemma clean_line_no_boundary: "clean_line l \<Longrightarrow> c \<in> set l \<Longrightarrow> \<not> line_boundary c"
proof -
  assume "clean_line l" "c \<in> set l"
  then obtain ws where ws: "\<forall>w \<in> set ws. py_word w" "c \<in> set (join_with [32] ws)"
    by (auto simp: clean_line_def)
  then have "c = 32 \<or> \<not> py_isspace c"
    using set_join_with[of "[32]" ws] by (auto simp: py_word_def)
  moreover have "\<not> line_boundary 32" by (simp add: line_boundary_def)
  ultimately show ?thesis using line_boundary_isspace by metis
qed

lemma hd_join_with: "x \<noteq> [] \<Longrightarrow> hd (join_with sep (x # zs)) = hd x"
  by (cases zs) auto

lemma join_with_Nil_iff: "sep \<noteq> [] \<Longrightarrow> join_with sep ls = [] \<longleftrightarrow> ls = [] \<or> ls = [[]]"
  by (induction sep ls rule: join_with.induct) auto

lemma last_join_with:
  assumes "sep \<noteq> []"
  shows "ls \<noteq> [] \<Longrightarrow> last ls \<noteq> [] \<Longrightarrow> last (join_with sep ls) = last (last ls)"
proof (induction ls rule: induct_list012)
  case (3 x y zs)
  then have "join_with sep (y # zs) \<noteq> []"
    using assms by (auto simp: join_with_Nil_iff)
  then show ?case using 3 by auto
qed auto

lemma clean_line_ends:
  assumes "clean_line l" "l \<noteq> []"
  shows "\<not> py_isspace (hd l)" "\<not> py_isspace (last l)"
proof -
  obtain ws where ws: "\<forall>w \<in> set ws. py_word w" "l = join_with [32] ws"
    using assms(1) by (auto simp: clean_line_def)
  with assms(2) have "ws \<noteq> []" by auto
  with ws(1) have w: "py_word (hd ws)" "py_word (last ws)" by auto
  then have "hd l = hd (hd ws)" "last l = last (last ws)"
    using ws \<open>ws \<noteq> []\<close> hd_join_with[of "hd ws" "[32]" "tl ws"] last_join_with[of "[32]" ws]
    by (simp_all add: py_word_def)
  with w show "\<not> py_isspace (hd l)" "\<not> py_isspace (last l)"
    by (auto simp: py_word_def)
qed

lemma dropWhile_none: "\<forall>c \<in> set s. \<not> P c \<Longrightarrow> dropWhile P s = s"
  by (cases s) auto

lemma splitlines_from_line:
  "\<forall>c \<in> set l. \<not> line_boundary c \<Longrightarrow> splitlines_from a (l @ s) = splitlines_from (rev l @ a) s"
  by (induction l arbitrary: a) auto

lemma splitlines_join:
  assumes "\<forall>l \<in> set ls. \<forall>c \<in> set l. \<not> line_boundary c" "ls = [] \<or> last ls \<noteq> []"
  shows "splitlines (join_with [10] ls) = ls"
  using assms
proof (induction "[10 :: nat]" ls rule: join_with.induct)
  case (2 x)
  then show ?case using splitlines_from_line[of x "[]" "[]"] by (simp add: splitlines_def)
next
  case (3 x y zs)
  then show ?case
    using splitlines_from_line[of x "[]" "10 # join_with [10] (y # zs)"]
    by (simp add: splitlines_def line_boundary_def)
qed (simp add: splitlines_def)

text \<open>Stripping a text of clean lines drops the empty lines at its ends.\<close>

lemma dropWhile_join:
  assumes "\<forall>l \<in> set ls. l = [] \<or> \<not> py_isspace (hd l)"
  shows "dropWhile py_isspace (join_with [10] ls) = join_with [10] (dropWhile (\<lambda>l. l = []) ls)"
  using assms
proof (induction "[10 :: nat]" ls rule: join_with.induct)
  case (2 x)
  then show ?case by (cases x) auto
next
  case (3 x y zs)
  then show ?case by (cases x) auto
qed simp

lemma join_with_snoc:
  "join_with sep (xs @ [x]) = (if xs = [] then x else join_with sep xs @ sep @ x)"
  by (induction xs rule: induct_list012) auto

lemma join_with_Cons: "ls \<noteq> [] \<Longrightarrow> join_with sep (x # ls) = x @ sep @ join_with sep ls"
  by (cases ls) auto

lemma rev_join: "rev (join_with [c] ls) = join_with [c] (map rev (rev ls))"
proof (induction ls)
  case (Cons x ls)
  then show ?case
    by (cases "ls = []") (simp_all add: join_with_Cons join_with_snoc)
qed simp

definition trim_lines :: "ustr list \<Rightarrow> ustr list" where
  "trim_lines ls = rev (dropWhile (\<lambda>l. l = []) (rev (dropWhile (\<lambda>l. l = []) ls)))"

lemma py_strip_join:
  assumes "\<forall>l \<in> set ls. clean_line l"
  shows "py_strip (join_with [10] ls) = join_with [10] (trim_lines ls)"
proof -
  let ?d = "dropWhile (\<lambda>l. l = []) ls"
  have ends: "l = [] \<or> \<not> py_isspace (hd l)" "rev l = [] \<or> \<not> py_isspace (hd (rev l))"
    if "l \<in> set ls" for l
    using clean_line_ends assms that by (auto simp: hd_rev)
  then have "dropWhile py_isspace (join_with [10] ls) = join_with [10] ?d"
    by (intro dropWhile_join) auto
  moreover have "dropWhile py_isspace (join_with [10] (map rev (rev ?d)))
      = join_with [10] (dropWhile (\<lambda>l. l = []) (map rev (rev ?d)))"
    using ends by (intro dropWhile_join) (auto dest!: set_dropWhileD)
  ultimately show ?thesis
    by (simp add: py_strip_def rev_join trim_lines_def dropWhile_map comp_def rev_map)
qed

lemma hd_dropWhile_Nil: "dropWhile (\<lambda>l. l = []) ls = [] \<or> hd (dropWhile (\<lambda>l. l = []) ls) \<noteq> []"
  using hd_dropWhile[of "\<lambda>l. l = []" ls] by blast

lemma set_trim_lines: "set (trim_lines ls) \<subseteq> set ls"
  by (auto simp: trim_lines_def dest!: set_dropWhileD)

lemma last_trim_lines: "trim_lines ls = [] \<or> last (trim_lines ls) \<noteq> []"
  using hd_dropWhile_Nil[of "rev (dropWhile (\<lambda>l. l = []) ls)"]
  by (simp add: trim_lines_def last_rev)

lemma hd_trim_lines: "trim_lines ls = [] \<or> hd (trim_lines ls) \<noteq> []"
proof -
  let ?a = "dropWhile (\<lambda>l. l = []) ls" and ?b = "dropWhile (\<lambda>l. l = []) (rev (dropWhile (\<lambda>l. l = []) ls))"
  have "rev ?a = takeWhile (\<lambda>l. l = []) (rev ?a) @ ?b" by (rule takeWhile_dropWhile_id[symmetric])
  then have "?a = rev ?b @ rev (takeWhile (\<lambda>l. l = []) (rev ?a))"
    by (metis rev_append rev_rev_ident)
  then have "rev ?b = [] \<or> hd ?a = hd (rev ?b)" by (metis hd_append2)
  moreover have "rev ?b = [] \<or> ?a \<noteq> []" by (metis dropWhile.simps(1) rev.simps(1))
  ultimately show ?thesis using hd_dropWhile_Nil[of ls] by (auto simp: trim_lines_def)
qed

lemma trim_lines_id:
  assumes "ls = [] \<or> (hd ls \<noteq> [] \<and> last ls \<noteq> [])"
  shows "trim_lines ls = ls"
proof -
  have "dropWhile (\<lambda>l. l = []) ls = ls" using assms by (cases ls) auto
  moreover have "dropWhile (\<lambda>l. l = []) (rev ls) = rev ls"
    using assms by (cases ls rule: rev_cases) auto
  ultimately show ?thesis by (simp add: trim_lines_def)
qed

text \<open>Text in normal form: the lines of clean words, with no empty line at either end.\<close>

lemma normalize_normal:
  "normalize_instruction_text s = join_with [10] (trim_lines
     (map (\<lambda>line. join_with [32] (py_split line)) (splitlines (strip_edge_controls s))))"
  unfolding normalize_instruction_text_def
  by (rule py_strip_join) (simp add: clean_line_split)

lemma normal_form_fixed:
  assumes "\<forall>l \<in> set ls. clean_line l" "ls = [] \<or> (hd ls \<noteq> [] \<and> last ls \<noteq> [])"
    and "\<forall>c \<in> set (join_with [10] ls). \<not> is_edge_control c"
  shows "normalize_instruction_text (join_with [10] ls) = join_with [10] ls"
proof -
  have "strip_edge_controls (join_with [10] ls) = join_with [10] ls"
    using assms(3) by (simp add: strip_edge_controls_def dropWhile_none)
  moreover have "splitlines (join_with [10] ls) = ls"
    using assms(1,2) clean_line_no_boundary by (intro splitlines_join) auto
  moreover have "map (\<lambda>line. join_with [32] (py_split line)) ls = ls"
    using assms(1) by (simp add: clean_line_id map_idI)
  ultimately show ?thesis
    using trim_lines_id[OF assms(2)] by (simp add: normalize_normal)
qed

lemma set_py_split: "w \<in> set (py_split s) \<Longrightarrow> set w \<subseteq> set s"
proof (induction s rule: py_split.induct)
  case (1 s)
  show ?case
  proof (cases "dropWhile py_isspace s")
    case (Cons c r)
    then have sub: "set (c # r) \<subseteq> set s" using set_dropWhileD[of _ py_isspace s] by auto
    have "w = c # takeWhile (\<lambda>d. \<not> py_isspace d) r
        \<or> w \<in> set (py_split (dropWhile (\<lambda>d. \<not> py_isspace d) r))"
      using 1(2) Cons by (simp add: py_split_run)
    then show ?thesis
    proof
      assume "w = c # takeWhile (\<lambda>d. \<not> py_isspace d) r"
      then have "set w \<subseteq> set (c # r)" by (auto dest: set_takeWhileD)
      with sub show ?thesis by blast
    next
      assume "w \<in> set (py_split (dropWhile (\<lambda>d. \<not> py_isspace d) r))"
      then have "set w \<subseteq> set (dropWhile (\<lambda>d. \<not> py_isspace d) r)" by (rule 1(1)[OF Cons])
      then have "set w \<subseteq> set r" by (auto dest: set_dropWhileD)
      with sub show ?thesis by auto
    qed
  qed (use 1 in \<open>simp add: py_split_blank\<close>)
qed

lemma set_splitlines_from: "l \<in> set (splitlines_from a s) \<Longrightarrow> set l \<subseteq> set a \<union> set s"
proof (induction a s rule: splitlines_from.induct)
  case (2 a c s)
  have "set (if c = 13 \<and> take 1 s = [10] then drop 1 s else s) \<subseteq> set s"
    by (auto dest: in_set_dropD)
  with 2 show ?case by (auto split: if_splits; blast)
qed (auto split: if_splits)

lemma set_strip_edge: "set (strip_edge_controls s) \<subseteq> set s"
  by (auto simp: strip_edge_controls_def dest!: set_dropWhileD)

lemma set_normalize: "set (normalize_instruction_text s) \<subseteq> insert 10 (insert 32 (set s))"
proof -
  have line: "set (join_with [32] (py_split l)) \<subseteq> insert 32 (set s)"
    if "l \<in> set (splitlines (strip_edge_controls s))" for l
  proof -
    have "set l \<subseteq> set s"
      using set_splitlines_from[of l "[]" "strip_edge_controls s"] that set_strip_edge[of s]
      by (auto simp: splitlines_def)
    then have "\<Union> (set ` set (py_split l)) \<subseteq> set s" using set_py_split[of _ l] by blast
    then show ?thesis
      using set_join_with[of "[32]" "py_split l"] by (simp, blast)
  qed
  let ?ls = "map (\<lambda>line. join_with [32] (py_split line)) (splitlines (strip_edge_controls s))"
  have "\<Union> (set ` set (trim_lines ?ls)) \<subseteq> \<Union> (set ` set ?ls)"
    using set_trim_lines by blast
  moreover have "\<Union> (set ` set ?ls) \<subseteq> insert 32 (set s)" using line by auto
  ultimately show ?thesis
    unfolding normalize_normal
    by (intro subset_trans[OF set_join_with] Un_least) (simp_all only: list.set(2) list.set(1), blast+)
qed

lemma valid_no_control: "valid_instruction s \<Longrightarrow> c \<in> set s \<Longrightarrow> \<not> is_edge_control c"
  by (auto simp: validate_instruction_text_def is_edge_control_def contains_c1_control_def
      list_ex_iff split: if_splits)

lemma valid_not_Nil: "valid_instruction s \<Longrightarrow> s \<noteq> []"
  by (auto simp: validate_instruction_text_def)

lemma strip_edges_append:
  assumes "s \<noteq> []" "\<forall>c \<in> set s. \<not> is_edge_control c"
    "\<forall>c \<in> set p. is_edge_control c" "\<forall>c \<in> set q. is_edge_control c"
  shows "strip_edge_controls (p @ s @ q) = s"
proof -
  have "dropWhile is_edge_control (p @ s @ q) = s @ q"
    using assms by (cases s) (simp_all add: dropWhile_append2)
  moreover have "dropWhile is_edge_control (rev q @ rev s) = dropWhile is_edge_control (rev s)"
    using assms(4) by (intro dropWhile_append2) simp
  moreover have "dropWhile is_edge_control (rev s) = rev s"
    using assms(2) by (simp add: dropWhile_none)
  ultimately show ?thesis by (simp add: strip_edge_controls_def)
qed


lemma normalize_idem:
  assumes "valid_instruction s"
  shows "normalize_instruction_text (normalize_instruction_text s) = normalize_instruction_text s"
proof -
  let ?ls = "trim_lines
     (map (\<lambda>line. join_with [32] (py_split line)) (splitlines (strip_edge_controls s)))"
  have "\<forall>l \<in> set ?ls. clean_line l"
    using set_trim_lines clean_line_split by fastforce
  moreover have "\<forall>c \<in> set (join_with [10] ?ls). \<not> is_edge_control c"
  proof
    fix c assume "c \<in> set (join_with [10] ?ls)"
    then have "c = 10 \<or> c = 32 \<or> c \<in> set s"
      using set_normalize[of s] by (auto simp: normalize_normal)
    then show "\<not> is_edge_control c"
      using valid_no_control[OF assms] by (auto simp: is_edge_control_def is_raw_instruction_control_def)
  qed
  ultimately show ?thesis
    unfolding normalize_normal[of s] using hd_trim_lines last_trim_lines
    by (intro normal_form_fixed) blast+
qed

text \<open>
  \<open>normalize_instruction_text\<close> maps a valid instruction to a normal form (a
  second pass changes nothing), and terminal framing bytes around an observed copy
  of it never change that form, so a ledger match on the normal form cannot
  confuse the submitted text with its framed observation.
\<close>

theorem normalize_instruction_text_matching:
  assumes "valid_instruction s"
    and "\<forall>c \<in> set p. is_edge_control c" "\<forall>c \<in> set q. is_edge_control c"
  shows "normalize_instruction_text (p @ s @ q) = normalize_instruction_text s
    \<and> normalize_instruction_text (normalize_instruction_text s) = normalize_instruction_text s
    \<and> (normalize_instruction_text s \<noteq> [] \<longrightarrow>
         instruction_fingerprint (p @ s @ q) = instruction_fingerprint s)"
proof -
  have "strip_edge_controls (p @ s @ q) = s"
    using strip_edges_append valid_not_Nil valid_no_control assms by metis
  moreover have "strip_edge_controls s = s"
    using strip_edges_append[of s "[]" "[]"] valid_not_Nil valid_no_control assms(1)
    by (metis append_Nil append_Nil2 empty_iff list.set(1))
  ultimately have "normalize_instruction_text (p @ s @ q) = normalize_instruction_text s"
    by (simp add: normalize_instruction_text_def)
  then show ?thesis
    using normalize_idem[OF assms(1)] by (auto simp: instruction_fingerprint_def Let_def)
qed

theorem normalize_instruction_text_matching_witness:
  "normalize_instruction_text ([1] @ lit ''go  on'' @ [7, 0x85]) = normalize_instruction_text (lit ''go  on'')
   \<and> valid_instruction (lit ''go  on'')"
proof -
  have v: "valid_instruction (lit ''go  on'')" by code_simp
  have "\<forall>c \<in> set [1]. is_edge_control c" "\<forall>c \<in> set [7, 0x85]. is_edge_control c" by code_simp+
  from normalize_instruction_text_matching[OF v this] v show ?thesis by blast
qed

text \<open>A submission id is well formed.\<close>

lemma turn_submission_id_wellformed:
  "case turn_submission_id host_id request_id of
     Inl e \<Rightarrow> e = ValueError \<and> (py_strip host_id = [] \<or> py_strip request_id = [])
   | Inr v \<Rightarrow> is_turn_submission_id v \<and> py_strip host_id \<noteq> [] \<and> py_strip request_id \<noteq> []"
  by (simp add: turn_submission_id_def is_turn_submission_id_def Let_def sha256_hex_chars
      lit_def split: sum.splits)

end
