(* ===== verification/Json.thy ===== *)
theory Json
  imports Base "HOL-Library.List_Lexorder"
begin

text \<open>
  What the code uses of Python's \<open>json\<close> module: \<open>json.loads\<close> as a recursive
  descent parser, and \<open>json.dumps(sort_keys=True, separators=(",", ":"),
  ensure_ascii=False)\<close> as a printer, with the round trip between them.  A float
  literal is kept as its exact decimal (mantissa and exponent); the code only
  ever asks of a float that it is not an \<open>int\<close> or whether it equals a small
  integer, and never dumps one.  The interpreter limits (recursion depth, digits
  of an integer) are not modelled.
\<close>

section \<open>Values\<close>

datatype json =
    JNull
  | JBool bool
  | JInt int
  | JFloat int int
  | JNaN
  | JInf bool
  | JStr ustr
  | JList "json list"
  | JDict "(ustr \<times> json) list"

text \<open>
  \<open>isinstance(value, int) and not isinstance(value, bool)\<close>: in Python a bool is
  an int, so the code excludes it; \<open>==\<close> does not: \<open>True == 1\<close> and
  \<open>1.0 == 1\<close>.
\<close>

fun json_int :: "json \<Rightarrow> int option" where
  "json_int (JInt i) = Some i"
| "json_int _ = None"

fun json_str :: "json \<Rightarrow> ustr option" where
  "json_str (JStr s) = Some s"
| "json_str _ = None"

fun json_eq_int :: "json \<Rightarrow> int \<Rightarrow> bool" where
  "json_eq_int (JBool b) n \<longleftrightarrow> n = (if b then 1 else 0)"
| "json_eq_int (JInt i) n \<longleftrightarrow> i = n"
| "json_eq_int (JFloat m e) n \<longleftrightarrow>
     (if 0 \<le> e then m * 10 ^ nat e = n else m = n * 10 ^ nat (- e))"
| "json_eq_int _ n \<longleftrightarrow> False"

text \<open>A dict keeps its keys in insertion order; storing under a present key replaces.\<close>

definition dict_get :: "(ustr \<times> json) list \<Rightarrow> ustr \<Rightarrow> json" where
  "dict_get d k = (case map_of d k of None \<Rightarrow> JNull | Some v \<Rightarrow> v)"

fun dict_put :: "(ustr \<times> json) list \<Rightarrow> ustr \<times> json \<Rightarrow> (ustr \<times> json) list" where
  "dict_put [] kv = [kv]"
| "dict_put ((k, v) # d) kv = (if k = fst kv then kv # d else (k, v) # dict_put d kv)"

definition dict_of :: "(ustr \<times> json) list \<Rightarrow> (ustr \<times> json) list" where
  "dict_of ps = foldl dict_put [] ps"

lemma dict_put_fresh: "fst kv \<notin> fst ` set d \<Longrightarrow> dict_put d kv = d @ [kv]"
  by (induction d kv rule: dict_put.induct) auto

lemma dict_of_aux:
  "distinct (map fst (d @ ps)) \<Longrightarrow> foldl dict_put d ps = d @ ps"
proof (induction ps arbitrary: d)
  case (Cons p ps)
  then have "dict_put d p = d @ [p]"
    by (intro dict_put_fresh) auto
  with Cons show ?case by simp
qed simp

lemma dict_of_distinct: "distinct (map fst ps) \<Longrightarrow> dict_of ps = ps"
  by (simp add: dict_of_def dict_of_aux)

section \<open>Printing\<close>

fun show_nat :: "nat \<Rightarrow> ustr" where
  "show_nat n = (if n < 10 then [48 + n] else show_nat (n div 10) @ [48 + n mod 10])"

declare show_nat.simps [simp del]

definition show_int :: "int \<Rightarrow> ustr" where
  "show_int i = (if i < 0 then 45 # show_nat (nat (- i)) else show_nat (nat i))"

definition hex_digit :: "nat \<Rightarrow> nat" where
  "hex_digit d = (if d < 10 then 48 + d else 87 + d)"

definition escape_char :: "nat \<Rightarrow> ustr" where
  "escape_char c =
     (if c = 34 then [92, 34] else if c = 92 then [92, 92]
      else if c = 10 then [92, 110] else if c = 13 then [92, 114]
      else if c = 9 then [92, 116] else if c = 12 then [92, 102]
      else if c = 8 then [92, 98]
      else if c < 32 then [92, 117, 48, 48, hex_digit (c div 16), hex_digit (c mod 16)]
      else [c])"

definition dumps_str :: "ustr \<Rightarrow> ustr" where
  "dumps_str s = 34 # concat (map escape_char s) @ [34]"

fun comma_join :: "ustr list \<Rightarrow> ustr" where
  "comma_join [] = []"
| "comma_join [x] = x"
| "comma_join (x # y # zs) = x @ 44 # comma_join (y # zs)"

text \<open>The printer in the order of the dict; \<open>sort_keys\<close> orders every dict by key first.\<close>

fun json_print :: "json \<Rightarrow> ustr" where
  "json_print JNull = lit ''null''"
| "json_print (JBool b) = (if b then lit ''true'' else lit ''false'')"
| "json_print (JInt i) = show_int i"
| "json_print (JFloat m e) = show_int m @ 101 # show_int e"
| "json_print JNaN = lit ''NaN''"
| "json_print (JInf p) = (if p then lit ''Infinity'' else lit ''-Infinity'')"
| "json_print (JStr s) = dumps_str s"
| "json_print (JList xs) = 91 # comma_join (map json_print xs) @ [93]"
| "json_print (JDict ps) =
     123 # comma_join (map (\<lambda>kv. dumps_str (fst kv) @ 58 # json_print (snd kv)) ps) @ [125]"

fun sort_keys :: "json \<Rightarrow> json" where
  "sort_keys (JList xs) = JList (map sort_keys xs)"
| "sort_keys (JDict ps) = JDict (sort_key fst (map (\<lambda>kv. (fst kv, sort_keys (snd kv))) ps))"
| "sort_keys v = v"

definition json_dumps :: "json \<Rightarrow> ustr" where
  "json_dumps v = json_print (sort_keys v)"

section \<open>Parsing\<close>

definition json_ws :: "nat \<Rightarrow> bool" where
  "json_ws c \<longleftrightarrow> c = 32 \<or> c = 9 \<or> c = 10 \<or> c = 13"

definition skip_ws :: "ustr \<Rightarrow> ustr" where
  "skip_ws s = dropWhile json_ws s"

definition is_digit :: "nat \<Rightarrow> bool" where
  "is_digit c \<longleftrightarrow> 48 \<le> c \<and> c \<le> 57"

definition digits_value :: "ustr \<Rightarrow> nat" where
  "digits_value ds = foldl (\<lambda>a d. 10 * a + (d - 48)) 0 ds"

definition hex_value :: "nat \<Rightarrow> nat option" where
  "hex_value c =
     (if is_digit c then Some (c - 48)
      else if 97 \<le> c \<and> c \<le> 102 then Some (c - 87)
      else if 65 \<le> c \<and> c \<le> 70 then Some (c - 55) else None)"

definition parse_hex4 :: "ustr \<Rightarrow> (nat \<times> ustr) option" where
  "parse_hex4 s =
     (case s of a # b # c # d # r \<Rightarrow>
        (case (hex_value a, hex_value b, hex_value c, hex_value d) of
           (Some w, Some x, Some y, Some z) \<Rightarrow> Some (((w * 16 + x) * 16 + y) * 16 + z, r)
         | _ \<Rightarrow> None)
      | _ \<Rightarrow> None)"

text \<open>The escape after a backslash; a high surrogate takes the low one escaped after it.\<close>

definition parse_escape :: "ustr \<Rightarrow> (nat \<times> ustr) option" where
  "parse_escape s =
     (case s of [] \<Rightarrow> None | e # r \<Rightarrow>
        if e = 34 \<or> e = 92 \<or> e = 47 then Some (e, r)
        else if e = 98 then Some (8, r)
        else if e = 102 then Some (12, r)
        else if e = 110 then Some (10, r)
        else if e = 114 then Some (13, r)
        else if e = 116 then Some (9, r)
        else if e = 117 then
          (case parse_hex4 r of None \<Rightarrow> None
           | Some (u, r2) \<Rightarrow>
               if 0xD800 \<le> u \<and> u \<le> 0xDBFF \<and> take 2 r2 = [92, 117] then
                 (case parse_hex4 (drop 2 r2) of None \<Rightarrow> None
                  | Some (v, r3) \<Rightarrow>
                      if 0xDC00 \<le> v \<and> v \<le> 0xDFFF
                      then Some (0x10000 + (u - 0xD800) * 1024 + (v - 0xDC00), r3)
                      else Some (u, r2))
               else Some (u, r2))
        else None)"

lemma parse_hex4_shorter: "parse_hex4 s = Some (u, r) \<Longrightarrow> length r < length s"
  by (auto simp: parse_hex4_def split: list.splits option.splits)

lemma parse_escape_shorter:
  assumes "parse_escape s = Some (u, r)"
  shows "length r < length s"
proof (cases s)
  case (Cons e t)
  have hex: "parse_hex4 t = Some (v, r2) \<Longrightarrow> length r2 < length t" for v r2
    by (rule parse_hex4_shorter)
  have hex2: "parse_hex4 (drop 2 r2) = Some (w, r3) \<Longrightarrow> length r3 < length r2" for w r2 r3
    using parse_hex4_shorter[of "drop 2 r2" w r3] by simp
  show ?thesis
    using assms unfolding parse_escape_def Cons
    by (auto split: if_splits option.splits dest!: hex hex2)
qed (use assms in \<open>simp add: parse_escape_def\<close>)

function (sequential) parse_str :: "ustr \<Rightarrow> (ustr \<times> ustr) option" where
  "parse_str [] = None"
| "parse_str (c # r) =
     (if c = 34 then Some ([], r)
      else if c = 92 then
        (case parse_escape r of None \<Rightarrow> None
         | Some (u, r2) \<Rightarrow> map_option (\<lambda>(t, q). (u # t, q)) (parse_str r2))
      else if c < 32 then None
      else map_option (\<lambda>(t, q). (c # t, q)) (parse_str r))"
  by pat_completeness auto
termination
  by (relation "measure length") (auto dest: parse_escape_shorter)

lemma parse_str_shorter: "parse_str s = Some (t, r) \<Longrightarrow> length r < length s"
  by (induction s arbitrary: t r rule: parse_str.induct)
     (auto split: if_splits option.splits dest!: parse_escape_shorter, fastforce+)

definition parse_fraction :: "ustr \<Rightarrow> ustr \<times> ustr" where
  "parse_fraction s =
     (case s of c # r \<Rightarrow>
        if c = 46 \<and> takeWhile is_digit r \<noteq> []
        then (takeWhile is_digit r, dropWhile is_digit r) else ([], s)
      | [] \<Rightarrow> ([], s))"

definition parse_exponent :: "ustr \<Rightarrow> int option \<times> ustr" where
  "parse_exponent s =
     (case s of c # r \<Rightarrow>
        let neg = (take 1 r = [45]);
            r1 = (if neg \<or> take 1 r = [43] then drop 1 r else r) in
        if (c = 101 \<or> c = 69) \<and> takeWhile is_digit r1 \<noteq> []
        then (Some ((if neg then -1 else 1) * int (digits_value (takeWhile is_digit r1))),
              dropWhile is_digit r1)
        else (None, s)
      | [] \<Rightarrow> (None, s))"

definition int_digits :: "ustr \<Rightarrow> ustr" where
  "int_digits s = (if take 1 s = [48] then [48] else takeWhile is_digit s)"

definition parse_number :: "ustr \<Rightarrow> (json \<times> ustr) option" where
  "parse_number s =
     (let neg = (take 1 s = [45]);
          s1 = (if neg then drop 1 s else s);
          ds = int_digits s1;
          r1 = drop (length ds) s1;
          (fs, r2) = parse_fraction r1;
          (ex, r3) = parse_exponent r2;
          sg = (if neg then -1 else (1::int)) in
      if ds = [] then None
      else if fs = [] \<and> ex = None then Some (JInt (sg * int (digits_value ds)), r1)
      else Some (JFloat (sg * int (digits_value (ds @ fs)))
                        ((case ex of None \<Rightarrow> 0 | Some e \<Rightarrow> e) - int (length fs)), r3))"

definition parse_word :: "string \<Rightarrow> json \<Rightarrow> ustr \<Rightarrow> (json \<times> ustr) option" where
  "parse_word w v s = (if starts_with (lit w) s then Some (v, drop (length w) s) else None)"

definition parse_atom :: "ustr \<Rightarrow> (json \<times> ustr) option" where
  "parse_atom s =
     (case parse_word ''null'' JNull s of Some x \<Rightarrow> Some x | None \<Rightarrow>
      (case parse_word ''true'' (JBool True) s of Some x \<Rightarrow> Some x | None \<Rightarrow>
       (case parse_word ''false'' (JBool False) s of Some x \<Rightarrow> Some x | None \<Rightarrow>
        (case parse_number s of Some x \<Rightarrow> Some x | None \<Rightarrow>
         (case parse_word ''NaN'' JNaN s of Some x \<Rightarrow> Some x | None \<Rightarrow>
          (case parse_word ''Infinity'' (JInf True) s of Some x \<Rightarrow> Some x | None \<Rightarrow>
            parse_word ''-Infinity'' (JInf False) s))))))"

text \<open>The fuel bounds the calls; every call reads at least one character before the next.\<close>

fun parse_value :: "nat \<Rightarrow> ustr \<Rightarrow> (json \<times> ustr) option"
  and parse_elems :: "nat \<Rightarrow> ustr \<Rightarrow> (json list \<times> ustr) option"
  and parse_members :: "nat \<Rightarrow> ustr \<Rightarrow> ((ustr \<times> json) list \<times> ustr) option" where
  "parse_value 0 s = None"
| "parse_value (Suc n) s =
     (case s of [] \<Rightarrow> None | c # r \<Rightarrow>
        if c = 34 then map_option (\<lambda>(t, q). (JStr t, q)) (parse_str r)
        else if c = 123 then
          (if take 1 (skip_ws r) = [125] then Some (JDict [], drop 1 (skip_ws r))
           else map_option (\<lambda>(ps, q). (JDict (dict_of ps), q)) (parse_members n (skip_ws r)))
        else if c = 91 then
          (if take 1 (skip_ws r) = [93] then Some (JList [], drop 1 (skip_ws r))
           else map_option (\<lambda>(xs, q). (JList xs, q)) (parse_elems n (skip_ws r)))
        else parse_atom s)"
| "parse_elems 0 s = None"
| "parse_elems (Suc n) s =
     (case parse_value n s of None \<Rightarrow> None
      | Some (v, r) \<Rightarrow>
          (case skip_ws r of [] \<Rightarrow> None
           | c # q \<Rightarrow>
               if c = 93 then Some ([v], q)
               else if c = 44 then map_option (\<lambda>(vs, q2). (v # vs, q2)) (parse_elems n (skip_ws q))
               else None))"
| "parse_members 0 s = None"
| "parse_members (Suc n) s =
     (case s of [] \<Rightarrow> None | c # r \<Rightarrow>
        if c \<noteq> 34 then None else
        (case parse_str r of None \<Rightarrow> None
         | Some (k, r1) \<Rightarrow>
             (case skip_ws r1 of [] \<Rightarrow> None
              | c2 # r2 \<Rightarrow>
                  if c2 \<noteq> 58 then None else
                  (case parse_value n (skip_ws r2) of None \<Rightarrow> None
                   | Some (v, r3) \<Rightarrow>
                       (case skip_ws r3 of [] \<Rightarrow> None
                        | c3 # q \<Rightarrow>
                            if c3 = 125 then Some ([(k, v)], q)
                            else if c3 = 44 then
                              map_option (\<lambda>(ps, q2). ((k, v) # ps, q2)) (parse_members n (skip_ws q))
                            else None)))))"

definition json_loads :: "ustr \<Rightarrow> json option" where
  "json_loads s =
     (if take 1 s = [0xFEFF] then None
      else case parse_value (Suc (length s)) (skip_ws s) of
             Some (v, r) \<Rightarrow> (if skip_ws r = [] then Some v else None)
           | None \<Rightarrow> None)"

section \<open>The round trip\<close>

text \<open>What a printed value may be followed by without a number running on.\<close>

definition num_end :: "ustr \<Rightarrow> bool" where
  "num_end s \<longleftrightarrow> (case s of [] \<Rightarrow> True | c # _ \<Rightarrow> \<not> is_digit c \<and> c \<noteq> 46 \<and> c \<noteq> 101 \<and> c \<noteq> 69)"

lemma num_end_simps [simp]:
  "num_end []" "num_end (44 # s)" "num_end (93 # s)" "num_end (125 # s)"
  by (simp_all add: num_end_def is_digit_def)

lemma show_nat_digits: "\<forall>c \<in> set (show_nat n). is_digit c"
proof (induction n rule: show_nat.induct)
  case (1 n)
  then show ?case
    by (cases "n < 10") (auto simp: show_nat.simps[of n] is_digit_def)
qed

lemma show_nat_not_Nil [simp]: "show_nat n \<noteq> []"
  by (subst show_nat.simps) simp

lemma digits_value_snoc: "digits_value (ds @ [d]) = 10 * digits_value ds + (d - 48)"
  by (simp add: digits_value_def)

lemma digits_value_show_nat [simp]: "digits_value (show_nat n) = n"
proof (induction n rule: show_nat.induct)
  case (1 n)
  show ?case
  proof (cases "n < 10")
    case True
    then show ?thesis by (simp add: show_nat.simps[of n] digits_value_def)
  next
    case False
    with 1 have "digits_value (show_nat (n div 10)) = n div 10" by simp
    with False show ?thesis
      by (simp add: show_nat.simps[of n] digits_value_snoc)
  qed
qed

lemma hd_show_nat: "hd (show_nat n) = 48 \<longleftrightarrow> n = 0"
proof (induction n rule: show_nat.induct)
  case (1 n)
  show ?case
  proof (cases "n < 10")
    case True
    then show ?thesis by (simp add: show_nat.simps[of n])
  next
    case False
    with 1 have "hd (show_nat (n div 10)) = 48 \<longleftrightarrow> n div 10 = 0" by simp
    with False show ?thesis
      by (auto simp: show_nat.simps[of n])
  qed
qed

lemma show_nat_0: "show_nat 0 = [48]"
  by (simp add: show_nat.simps)

lemma takeWhile_digits_append:
  assumes "\<forall>c \<in> set ds. is_digit c" "num_end rest"
  shows "takeWhile is_digit (ds @ rest) = ds"
proof -
  have "takeWhile is_digit rest = []"
    using assms(2) by (cases rest) (auto simp: num_end_def)
  with assms(1) show ?thesis by (simp add: takeWhile_append2)
qed

lemma parse_fraction_end: "num_end s \<Longrightarrow> parse_fraction s = ([], s)"
  by (cases s) (auto simp: parse_fraction_def num_end_def)

lemma parse_exponent_end: "num_end s \<Longrightarrow> parse_exponent s = (None, s)"
  by (cases s) (auto simp: parse_exponent_def num_end_def Let_def)

lemma hd_show_nat_digit: "is_digit (hd (show_nat n))"
  using show_nat_digits[of n] hd_in_set[OF show_nat_not_Nil] by blast

lemma take1_show_nat: "take (Suc 0) (show_nat n @ rest) = [hd (show_nat n)]"
  by (cases "show_nat n") auto

lemma int_digits_show_nat:
  assumes "num_end rest"
  shows "int_digits (show_nat n @ rest) = show_nat n"
proof (cases "n = 0")
  case True
  then show ?thesis by (simp add: int_digits_def show_nat_0)
next
  case False
  then have "hd (show_nat n) \<noteq> 48" by (simp add: hd_show_nat)
  moreover have "takeWhile is_digit (show_nat n @ rest) = show_nat n"
    by (rule takeWhile_digits_append[OF show_nat_digits assms])
  ultimately show ?thesis
    by (simp add: int_digits_def take1_show_nat del: take_append)
qed

lemma parse_number_show_int:
  assumes "num_end rest"
  shows "parse_number (show_int i @ rest) = Some (JInt i, rest)"
proof (cases "i < 0")
  case True
  have p: "parse_number (45 # show_nat n @ rest) = Some (JInt (- int n), rest)" for n
    by (simp add: parse_number_def Let_def int_digits_show_nat[OF assms]
        parse_fraction_end[OF assms] parse_exponent_end[OF assms])
  from True show ?thesis by (simp add: show_int_def p)
next
  case False
  have h: "hd (show_nat n) \<noteq> 45" for n
    using hd_show_nat_digit[of n] by (auto simp: is_digit_def)
  have p: "parse_number (show_nat n @ rest) = Some (JInt (int n), rest)" for n
    by (simp add: parse_number_def Let_def int_digits_show_nat[OF assms] take1_show_nat h
        parse_fraction_end[OF assms] parse_exponent_end[OF assms] del: take_append)
  from False show ?thesis by (simp add: show_int_def p)
qed

lemma hex_value_hex_digit: "d < 16 \<Longrightarrow> hex_value (hex_digit d) = Some d"
  by (simp add: hex_value_def hex_digit_def is_digit_def)

lemma parse_escape_control:
  assumes "c < 32"
  shows "parse_escape (117 # 48 # 48 # hex_digit (c div 16) # hex_digit (c mod 16) # r) = Some (c, r)"
proof -
  have z: "hex_value 48 = Some 0" by (simp add: hex_value_def is_digit_def)
  have "c div 16 < 16" "c mod 16 < 16" using assms by auto
  then have "parse_hex4 (48 # 48 # hex_digit (c div 16) # hex_digit (c mod 16) # r) = Some (c, r)"
    by (simp add: parse_hex4_def hex_value_hex_digit z)
  with assms show ?thesis by (simp add: parse_escape_def)
qed

lemma parse_str_escape:
  "parse_str (escape_char c @ r) = map_option (\<lambda>(t, q). (c # t, q)) (parse_str r)"
proof -
  have esc: "parse_str (92 # e # r2) =
      (case parse_escape (e # r2) of None \<Rightarrow> None
       | Some (u, r3) \<Rightarrow> map_option (\<lambda>(t, q). (u # t, q)) (parse_str r3))" for e r2
    by simp
  show ?thesis
    by (simp add: escape_char_def parse_escape_control del: parse_str.simps(2))
       (auto simp: esc parse_escape_control, simp_all add: parse_escape_def)
qed

lemma parse_str_dumps:
  "parse_str (concat (map escape_char s) @ 34 # r) = Some (s, r)"
  by (induction s) (simp_all add: parse_str_escape del: parse_str.simps(2), simp)

text \<open>Values the printer is used on: no float, and no dict with a key twice.\<close>

fun json_plain :: "json \<Rightarrow> bool" where
  "json_plain (JFloat m e) \<longleftrightarrow> False"
| "json_plain JNaN \<longleftrightarrow> False"
| "json_plain (JInf p) \<longleftrightarrow> False"
| "json_plain (JList xs) \<longleftrightarrow> list_all json_plain xs"
| "json_plain (JDict ps) \<longleftrightarrow> distinct (map fst ps) \<and> list_all (\<lambda>kv. json_plain (snd kv)) ps"
| "json_plain _ \<longleftrightarrow> True"

lemma show_int_start: "\<exists>c t. show_int i = c # t \<and> (is_digit c \<or> c = 45)"
proof (cases "i < 0")
  case False
  then show ?thesis
    using hd_show_nat_digit[of "nat i"] by (cases "show_nat (nat i)") (auto simp: show_int_def)
qed (simp add: show_int_def)

lemma json_print_start:
  assumes "json_plain v"
  shows "\<exists>c t. json_print v = c # t \<and> \<not> json_ws c \<and> c \<noteq> 93 \<and> c \<noteq> 125"
proof (cases v)
  case (JInt i)
  then show ?thesis
    using show_int_start[of i] by (auto simp: json_ws_def is_digit_def)
qed (use assms in \<open>auto simp: lit_def json_ws_def dumps_str_def\<close>)

lemma parse_word_lit: "parse_word w v (lit w @ r) = Some (v, r)"
  by (simp add: parse_word_def starts_with_def)

lemma parse_atom_null: "parse_atom (lit ''null'' @ r) = Some (JNull, r)"
  by (simp add: parse_atom_def parse_word_lit)

lemma parse_atom_true: "parse_atom (lit ''true'' @ r) = Some (JBool True, r)"
  using parse_word_lit[of "''true''" "JBool True" r]
  by (simp add: parse_atom_def) (simp add: parse_word_def starts_with_def lit_def)

lemma parse_atom_false: "parse_atom (lit ''false'' @ r) = Some (JBool False, r)"
  using parse_word_lit[of "''false''" "JBool False" r]
  by (simp add: parse_atom_def) (simp add: parse_word_def starts_with_def lit_def)

lemma parse_atom_int:
  assumes "num_end r"
  shows "parse_atom (show_int i @ r) = Some (JInt i, r)"
proof -
  obtain c t where c: "show_int i = c # t" "is_digit c \<or> c = 45"
    using show_int_start by blast
  have "parse_word w v (show_int i @ r) = None" if "w \<in> {''null'', ''true'', ''false''}" for w v
    using that c by (auto simp: parse_word_def starts_with_def lit_def is_digit_def)
  then show ?thesis
    by (simp add: parse_atom_def parse_number_show_int[OF assms])
qed

lemma parse_value_atom:
  assumes "s = c # t" "c \<noteq> 34" "c \<noteq> 123" "c \<noteq> 91"
  shows "parse_value (Suc n) s = parse_atom s"
  by (simp add: assms)

lemma parse_elems_print:
  assumes "\<And>v n rest. v \<in> set vs \<Longrightarrow> num_end rest \<Longrightarrow> length (json_print v) \<le> n \<Longrightarrow>
      parse_value n (json_print v @ rest) = Some (v, rest)"
    and "\<forall>v \<in> set vs. json_plain v" "vs \<noteq> []"
    and "length (comma_join (map json_print vs)) < n"
  shows "parse_elems n (comma_join (map json_print vs) @ 93 # rest) = Some (vs, rest)"
  using assms
proof (induction vs arbitrary: n)
  case (Cons v vs)
  obtain m where n: "n = Suc m" using Cons.prems(4) by (cases n) auto
  show ?case
  proof (cases vs)
    case Nil
    have "parse_value m (json_print v @ 93 # rest) = Some (v, 93 # rest)"
      using Cons.prems(1)[of v "93 # rest" m] Cons.prems(4) n Nil by simp
    then show ?thesis by (simp add: n Nil skip_ws_def json_ws_def)
  next
    case (Cons w ws)
    let ?tail = "comma_join (map json_print vs) @ 93 # rest"
    have len: "length (json_print v) \<le> m" "length (comma_join (map json_print vs)) < m"
      using Cons.prems(4) n Cons by auto
    have hd: "parse_value m (json_print v @ 44 # ?tail) = Some (v, 44 # ?tail)"
      using Cons.prems(1)[of v "44 # ?tail" m] len by simp
    have tl: "parse_elems m ?tail = Some (vs, rest)"
      using Cons.IH[of m] Cons.prems(1,2) len(2) Cons by simp
    obtain c t where "json_print w = c # t" "\<not> json_ws c"
      using json_print_start[of w] Cons.prems(2) Cons by auto
    then have "skip_ws ?tail = ?tail"
      by (cases ws) (simp_all add: Cons skip_ws_def)
    with hd tl show ?thesis
      by (simp add: n Cons) (simp add: skip_ws_def json_ws_def)
  qed
qed simp

definition print_member :: "ustr \<times> json \<Rightarrow> ustr" where
  "print_member kv = dumps_str (fst kv) @ 58 # json_print (snd kv)"

lemma parse_members_step:
  assumes "parse_value m (json_print (snd kv) @ r) = Some (snd kv, r)" "json_plain (snd kv)"
  shows "parse_members (Suc m) (print_member kv @ r) =
    (case skip_ws r of [] \<Rightarrow> None
     | c # q \<Rightarrow> if c = 125 then Some ([kv], q)
         else if c = 44 then map_option (\<lambda>(ps, q2). (kv # ps, q2)) (parse_members m (skip_ws q))
         else None)"
proof -
  obtain c t where "json_print (snd kv) = c # t" "\<not> json_ws c"
    using json_print_start[OF assms(2)] by auto
  then have ws: "skip_ws (json_print (snd kv) @ r) = json_print (snd kv) @ r"
    by (simp add: skip_ws_def)
  have str: "parse_str (concat (map escape_char (fst kv)) @ 34 # 58 # q) = Some (fst kv, 58 # q)" for q
    by (rule parse_str_dumps)
  have colon: "skip_ws (58 # q) = 58 # q" for q
    by (simp add: skip_ws_def json_ws_def)
  show ?thesis
    by (cases kv, cases "skip_ws r")
       (use assms(1) str ws in \<open>simp_all add: print_member_def dumps_str_def colon\<close>)
qed

lemma print_member_longer: "length (json_print (snd kv)) < length (print_member kv)"
  by (simp add: print_member_def)

lemma parse_members_print:
  assumes "\<And>kv n rest. kv \<in> set ps \<Longrightarrow> num_end rest \<Longrightarrow> length (json_print (snd kv)) \<le> n \<Longrightarrow>
      parse_value n (json_print (snd kv) @ rest) = Some (snd kv, rest)"
    and "\<forall>kv \<in> set ps. json_plain (snd kv)" "ps \<noteq> []"
    and "length (comma_join (map print_member ps)) < n"
  shows "parse_members n (comma_join (map print_member ps) @ 125 # rest) = Some (ps, rest)"
  using assms
proof (induction ps arbitrary: n)
  case (Cons kv ps)
  obtain m where n: "n = Suc m" using Cons.prems(4) by (cases n) auto
  have plain: "json_plain (snd kv)" using Cons.prems(2) by simp
  show ?case
  proof (cases ps)
    case Nil
    have "parse_value m (json_print (snd kv) @ 125 # rest) = Some (snd kv, 125 # rest)"
      using Cons.prems(1)[of kv "125 # rest" m] Cons.prems(4) n Nil by (simp add: print_member_def)
    from parse_members_step[OF this plain] show ?thesis
      by (simp add: n Nil skip_ws_def json_ws_def del: parse_members.simps)
  next
    case (Cons kw ws)
    let ?tail = "comma_join (map print_member ps) @ 125 # rest"
    have len: "length (json_print (snd kv)) \<le> m" "length (comma_join (map print_member ps)) < m"
      using Cons.prems(4) n Cons print_member_longer[of kv] by auto
    have hd: "parse_value m (json_print (snd kv) @ 44 # ?tail) = Some (snd kv, 44 # ?tail)"
      using Cons.prems(1)[of kv "44 # ?tail" m] len by simp
    have tl: "parse_members m ?tail = Some (ps, rest)"
      using Cons.IH[of m] Cons.prems(1,2) len(2) Cons by simp
    have "skip_ws ?tail = ?tail"
      by (cases ws) (simp_all add: Cons skip_ws_def print_member_def dumps_str_def json_ws_def)
    with parse_members_step[OF hd plain] tl show ?thesis
      by (simp add: n Cons del: parse_members.simps) (simp add: skip_ws_def json_ws_def)
  qed
qed simp

lemma json_print_dict:
  "json_print (JDict ps) = 123 # comma_join (map print_member ps) @ [125]"
proof -
  have "print_member = (\<lambda>kv. dumps_str (fst kv) @ 58 # json_print (snd kv))"
    by (simp add: print_member_def fun_eq_iff)
  then show ?thesis by simp
qed

theorem parse_value_print:
  "json_plain v \<Longrightarrow> num_end rest \<Longrightarrow> length (json_print v) \<le> n \<Longrightarrow>
     parse_value n (json_print v @ rest) = Some (v, rest)"
proof (induction v arbitrary: n rest)
  case (JInt i)
  obtain c t where c: "show_int i = c # t" "is_digit c \<or> c = 45"
    using show_int_start by blast
  then obtain m where "n = Suc m" using JInt by (cases n) auto
  with c JInt parse_atom_int[of rest i] show ?case
    by (auto simp: is_digit_def)
next
  case (JStr s)
  then obtain m where "n = Suc m" by (cases n) (auto simp: dumps_str_def)
  then show ?case
    using parse_str_dumps[of s rest] by (simp add: dumps_str_def)
next
  case (JList xs)
  then obtain m where n: "n = Suc m" by (cases n) auto
  show ?case
  proof (cases "xs = []")
    case True
    then show ?thesis by (simp add: n skip_ws_def json_ws_def)
  next
    case False
    have plain: "\<forall>v \<in> set xs. json_plain v" using JList.prems(1) by (simp add: list_all_iff)
    have "parse_elems m (comma_join (map json_print xs) @ 93 # rest) = Some (xs, rest)"
      using JList by (intro parse_elems_print plain False) (auto simp: n list_all_iff)
    moreover obtain c t where "comma_join (map json_print xs) @ 93 # rest = c # t" "\<not> json_ws c" "c \<noteq> 93"
    proof -
      obtain y ys where xs: "xs = y # ys" using False by (cases xs) auto
      with plain obtain c t where "json_print y = c # t" "\<not> json_ws c" "c \<noteq> 93"
        using json_print_start[of y] by auto
      with xs that show ?thesis by (cases ys) auto
    qed
    ultimately show ?thesis by (simp add: n skip_ws_def)
  qed
next
  case (JDict ps)
  then obtain m where n: "n = Suc m" by (cases n) auto
  show ?case
  proof (cases "ps = []")
    case True
    then show ?thesis by (simp add: n skip_ws_def json_ws_def)
  next
    case False
    have plain: "\<forall>kv \<in> set ps. json_plain (snd kv)" "distinct (map fst ps)"
      using JDict.prems(1) by (auto simp: list_all_iff)
    have "parse_members m (comma_join (map print_member ps) @ 125 # rest) = Some (ps, rest)"
      using JDict plain unfolding json_print_dict
      by (intro parse_members_print plain(1) False) (force simp: n list_all_iff)+
    moreover obtain c t where "comma_join (map print_member ps) @ 125 # rest = c # t" "c = 34"
      using False by (cases ps rule: list.exhaust; cases "tl ps")
        (auto simp: print_member_def dumps_str_def)
    ultimately show ?thesis unfolding json_print_dict
      by (simp add: n skip_ws_def json_ws_def dict_of_distinct plain(2))
  qed
next
  case JNull
  then obtain m where "n = Suc m" by (cases n) (auto simp: lit_def)
  then show ?case using parse_atom_null[of rest] by (simp add: lit_def)
next
  case (JBool b)
  then obtain m where "n = Suc m" by (cases n) (auto simp: lit_def split: if_splits)
  then show ?case using parse_atom_true[of rest] parse_atom_false[of rest] by (simp add: lit_def)
qed auto

theorem json_loads_print:
  assumes "json_plain v"
  shows "json_loads (json_print v) = Some v"
proof -
  obtain c t where c: "json_print v = c # t" "\<not> json_ws c"
    using json_print_start[OF assms] by auto
  have "c \<noteq> 0xFEFF"
    using c assms show_int_start[of "case v of JInt i \<Rightarrow> i"]
    by (cases v) (auto simp: lit_def dumps_str_def is_digit_def split: if_splits)
  moreover have "skip_ws (json_print v) = json_print v"
    using c by (simp add: skip_ws_def)
  moreover have "parse_value (Suc (length (json_print v))) (json_print v) = Some (v, [])"
    using parse_value_print[OF assms, of "[]" "Suc (length (json_print v))"] by simp
  ultimately show ?thesis
    using c by (simp add: json_loads_def skip_ws_def del: parse_value.simps)
qed

lemma sort_keys_plain: "json_plain v \<Longrightarrow> json_plain (sort_keys v)"
proof (induction v)
  case (JDict ps)
  have "distinct (map fst (sort_key fst (map (\<lambda>kv. (fst kv, sort_keys (snd kv))) ps)))"
    using JDict.prems by (simp add: distinct_map inj_on_def) fastforce
  then show ?case using JDict by (auto simp: list_all_iff)
qed (auto simp: list_all_iff)

text \<open>\<open>json.loads(json.dumps(v, sort_keys=True))\<close> is \<open>v\<close> with sorted keys.\<close>

corollary json_loads_dumps: "json_plain v \<Longrightarrow> json_loads (json_dumps v) = Some (sort_keys v)"
  by (simp add: json_dumps_def json_loads_print sort_keys_plain)

section \<open>Stored JSON\<close>

text \<open>
  A JSON value without floats and without duplicate keys, written as the
  store writes it (sorted keys, compact separators, no escapes outside ASCII), reads back as the
  value with its keys sorted; so two values are written alike exactly when they differ
  at most in the order of keys.
\<close>

theorem stored_json_round_trip:
  assumes "json_plain v" "json_plain w"
  shows "json_loads (json_dumps v) = Some (sort_keys v) \<and> (json_dumps v = json_dumps w \<longleftrightarrow> sort_keys v = sort_keys w)"
proof -
  note rt = json_loads_dumps[OF assms(1)] json_loads_dumps[OF assms(2)]
  have "sort_keys v = sort_keys w" if "json_dumps v = json_dumps w" using rt that by simp
  moreover have "json_dumps v = json_dumps w" if "sort_keys v = sort_keys w" using that by (simp add: json_dumps_def)
  ultimately show ?thesis using rt(1) by blast
qed

theorem stored_json_round_trip_witness:
  "json_loads (json_dumps (JDict [(lit ''b'', JInt 1), (lit ''a'', JStr [34, 955])]))
     = Some (JDict [(lit ''a'', JStr [34, 955]), (lit ''b'', JInt 1)])"
proof -
  let ?v = "JDict [(lit ''b'', JInt 1), (lit ''a'', JStr [34, 955])]"
  have p: "json_plain ?v" by (simp add: lit_def)
  have s: "sort_keys ?v = JDict [(lit ''a'', JStr [34, 955]), (lit ''b'', JInt 1)]" by (simp add: lit_def)
  have q: "json_loads (json_dumps ?v) = Some (sort_keys ?v)" by (rule conjunct1[OF stored_json_round_trip[OF p p]])
  show ?thesis by (rule trans[OF q]) (rule arg_cong[OF s])
qed

end
