(* ===== verification/StoreState.thy ===== *)
theory StoreState
  imports InstructionText Json
begin

text \<open>
  The tables of \<open>store/sqlite.py\<close> that the command-request protocol reads and
  writes, with their \<open>CHECK\<close> constraints, and the three statements every
  transition ends with: read the receipt back, project it into the audit table
  \<open>commands\<close>, append its event.

  A timestamp is the number of microseconds since the epoch.  The protocol writes
  all of its own in UTC at one-second precision, so the order of the strings in
  the database, of \<open>julianday\<close> and of \<open>datetime\<close> is the order of these numbers.
\<close>

section \<open>Clock\<close>

type_synonym time = int

definition second :: time where
  "second = 1000000"

definition whole_seconds :: "time \<Rightarrow> time" where
  "whole_seconds t = t div second * second"

text \<open>
  What the operations take from outside the store: the sanitizer of public
  mappings, the clock and the source of owner tokens.
\<close>

record store_env =
  sanitize_public_mapping :: "(ustr \<times> json) list \<Rightarrow> (ustr \<times> json) list"
  utc_timestamp :: time
  token_urlsafe :: ustr

definition command_request_now :: "store_env \<Rightarrow> time option \<Rightarrow> time" where
  "command_request_now E now =
     whole_seconds (case now of None \<Rightarrow> utc_timestamp E | Some t \<Rightarrow> t)"

definition command_request_add_seconds :: "time \<Rightarrow> int \<Rightarrow> time" where
  "command_request_add_seconds now delta = whole_seconds (now + delta)"

section \<open>Command receipts\<close>

datatype receipt_state = Reserved | SendStarted | Accepted | Rejected | Uncertain

fun state_text :: "receipt_state \<Rightarrow> ustr" where
  "state_text Reserved = lit ''reserved''"
| "state_text SendStarted = lit ''send_started''"
| "state_text Accepted = lit ''accepted''"
| "state_text Rejected = lit ''rejected''"
| "state_text Uncertain = lit ''uncertain''"

definition active_state :: "receipt_state \<Rightarrow> bool" where
  "active_state s \<longleftrightarrow> s = Reserved \<or> s = SendStarted"

definition terminal_state :: "receipt_state \<Rightarrow> bool" where
  "terminal_state s \<longleftrightarrow> s = Accepted \<or> s = Rejected \<or> s = Uncertain"

lemma state_simps [simp]:
  "active_state Reserved" "active_state SendStarted" "\<not> active_state Accepted"
  "\<not> active_state Rejected" "\<not> active_state Uncertain"
  "\<not> terminal_state Reserved" "\<not> terminal_state SendStarted" "terminal_state Accepted"
  "terminal_state Rejected" "terminal_state Uncertain"
  by (simp_all add: active_state_def terminal_state_def)

lemma active_iff: "active_state s \<longleftrightarrow> \<not> terminal_state s"
  by (cases s) auto

abbreviation status_pending :: ustr where "status_pending \<equiv> lit ''pending''"
abbreviation status_accepted :: ustr where "status_accepted \<equiv> lit ''accepted''"
abbreviation status_uncertain :: ustr where "status_uncertain \<equiv> lit ''request_state_uncertain''"
abbreviation status_answer_in_progress :: ustr where
  "status_answer_in_progress \<equiv> lit ''answer_in_progress''"

record receipt =
  rc_id :: nat
  rc_host_id :: ustr
  rc_request_id :: ustr
  rc_action :: ustr
  rc_canonical_version :: int
  rc_canonical_fingerprint :: ustr
  rc_canonical_request_json :: ustr
  rc_public_worker_id :: ustr
  rc_state :: receipt_state
  rc_status :: ustr
  rc_result_json :: ustr
  rc_owner_token_hash :: ustr
  rc_owner_expires_at :: "time option"
  rc_binding_fingerprint :: "ustr option"
  rc_created_at :: time
  rc_reserved_at :: time
  rc_send_started_at :: "time option"
  rc_terminal_at :: "time option"
  rc_updated_at :: time
  rc_legacy_collision :: bool
  rc_legacy_collision_count :: int
  rc_selector_proof :: ustr

text \<open>The \<open>CHECK\<close> constraints of \<open>CREATE_COMMAND_RECEIPTS_TABLE\<close>.\<close>

definition receipt_check :: "receipt \<Rightarrow> bool" where
  "receipt_check r \<longleftrightarrow>
     0 \<le> rc_canonical_version r \<and> 0 \<le> rc_legacy_collision_count r
     \<and> ((active_state (rc_state r) \<and> rc_terminal_at r = None \<and> rc_owner_token_hash r \<noteq> [])
        \<or> (terminal_state (rc_state r) \<and> rc_terminal_at r \<noteq> None
           \<and> rc_owner_token_hash r = [] \<and> rc_owner_expires_at r = None))
     \<and> (active_state (rc_state r) \<longrightarrow> rc_status r = status_pending)
     \<and> (rc_state r = Accepted \<longrightarrow> rc_status r = status_accepted \<and> rc_send_started_at r \<noteq> None)
     \<and> (rc_state r = Uncertain \<longrightarrow> rc_status r = status_uncertain)
     \<and> (rc_state r = Rejected \<longrightarrow>
          rc_status r \<notin> {status_pending, status_accepted, status_uncertain})
     \<and> (rc_legacy_collision r \<longrightarrow> rc_state r = Uncertain \<and> 2 \<le> rc_legacy_collision_count r)"

section \<open>The audit table\<close>

record command_row =
  cm_host_id :: ustr
  cm_request_id :: ustr
  cm_action :: ustr
  cm_canonical_version :: int
  cm_canonical_fingerprint :: ustr
  cm_public_worker_id :: ustr
  cm_state :: receipt_state
  cm_status :: ustr
  cm_request_json :: ustr
  cm_result_json :: ustr
  cm_created_at :: time
  cm_reserved_at :: time
  cm_send_started_at :: "time option"
  cm_terminal_at :: "time option"
  cm_updated_at :: time
  cm_legacy_collision :: bool
  cm_legacy_collision_count :: int

text \<open>The \<open>CHECK\<close> constraints of \<open>CREATE_COMMANDS_TABLE\<close>.\<close>

definition command_check :: "command_row \<Rightarrow> bool" where
  "command_check c \<longleftrightarrow>
     0 \<le> cm_canonical_version c \<and> 0 \<le> cm_legacy_collision_count c
     \<and> (active_state (cm_state c) \<longleftrightarrow> cm_terminal_at c = None)
     \<and> (active_state (cm_state c) \<longrightarrow> cm_status c = status_pending)
     \<and> (cm_state c = Accepted \<longrightarrow> cm_status c = status_accepted \<and> cm_send_started_at c \<noteq> None)
     \<and> (cm_state c = Uncertain \<longrightarrow> cm_status c = status_uncertain)
     \<and> (cm_state c = Rejected \<longrightarrow>
          cm_status c \<notin> {status_pending, status_accepted, status_uncertain})
     \<and> (cm_legacy_collision c \<longrightarrow> cm_state c = Uncertain \<and> 2 \<le> cm_legacy_collision_count c)"

definition audit_row :: "receipt \<Rightarrow> command_row" where
  "audit_row r =
     \<lparr>cm_host_id = rc_host_id r, cm_request_id = rc_request_id r, cm_action = rc_action r,
      cm_canonical_version = rc_canonical_version r,
      cm_canonical_fingerprint = rc_canonical_fingerprint r,
      cm_public_worker_id = rc_public_worker_id r, cm_state = rc_state r,
      cm_status = rc_status r, cm_request_json = rc_canonical_request_json r,
      cm_result_json = rc_result_json r, cm_created_at = rc_created_at r,
      cm_reserved_at = rc_reserved_at r, cm_send_started_at = rc_send_started_at r,
      cm_terminal_at = rc_terminal_at r, cm_updated_at = rc_updated_at r,
      cm_legacy_collision = rc_legacy_collision r,
      cm_legacy_collision_count = rc_legacy_collision_count r\<rparr>"

section \<open>The submission ledger, turns and events\<close>

datatype submission_state =
  LSendStarted | LSubmitted | LUncertain | LLinked | LAmbiguous | LExpired | LCancelled

record submission =
  ts_host_id :: ustr
  ts_submission_id :: ustr
  ts_request_id :: ustr
  ts_owner_key :: ustr
  ts_owner_key_version :: int
  ts_instruction_fingerprint :: ustr
  ts_state :: submission_state
  ts_linked_turn_id :: "ustr option"
  ts_link_not_before :: time
  ts_link_expires_at :: time
  ts_hard_expires_at :: time
  ts_linked_at :: "time option"
  ts_terminal_at :: "time option"
  ts_submitted_at :: "time option"
  ts_send_started_at :: "time option"
  ts_updated_at :: time

text \<open>
  Of the turn tables the link settlement reads these columns; a payload that is
  not valid JSON is \<open>None\<close>.
\<close>

record turn_row =
  tr_host_id :: ustr
  tr_turn_id :: ustr
  tr_worker_id :: ustr
  tr_payload :: "json option"

record revision_row =
  rv_host_id :: ustr
  rv_turn_id :: ustr
  rv_is_current :: bool
  rv_user_text :: "ustr option"
  rv_created_at :: "time option"

record event =
  ev_host_id :: ustr
  ev_type :: ustr
  ev_aggregate_type :: ustr
  ev_aggregate_id :: ustr
  ev_observed_at :: time
  ev_content_fingerprint :: ustr
  ev_payload_json :: ustr

section \<open>The store\<close>

text \<open>
  \<open>receipt_seq\<close> is the AUTOINCREMENT counter of the receipts; \<open>link_backoff\<close> is
  the process-wide map \<open>_SUBMISSION_LINK_BACKOFF\<close> for this database; \<open>other_tables\<close>
  stands for the tables only a caller's effect touches.
\<close>

record 'p store =
  db_exists :: bool
  receipts :: "receipt list"
  receipt_seq :: nat
  commands :: "command_row list"
  submissions :: "submission list"
  turns :: "turn_row list"
  revisions :: "revision_row list"
  events :: "event list"
  link_backoff :: "ustr \<times> ustr \<times> ustr \<Rightarrow> time option"
  other_tables :: 'p

definition receipt_key :: "receipt \<Rightarrow> ustr \<times> ustr" where
  "receipt_key r = (rc_host_id r, rc_request_id r)"

definition command_key :: "command_row \<Rightarrow> ustr \<times> ustr" where
  "command_key c = (cm_host_id c, cm_request_id c)"

definition submission_key :: "submission \<Rightarrow> ustr \<times> ustr" where
  "submission_key s = (ts_host_id s, ts_request_id s)"

definition submission_id_key :: "submission \<Rightarrow> ustr \<times> ustr" where
  "submission_id_key s = (ts_host_id s, ts_submission_id s)"

text \<open>The partial unique index \<open>ux_turn_submissions_linked_turn\<close>.\<close>

definition linked_turns :: "submission list \<Rightarrow> (ustr \<times> ustr option) list" where
  "linked_turns t = map (\<lambda>s. (ts_host_id s, ts_linked_turn_id s))
     (filter (\<lambda>s. ts_linked_turn_id s \<noteq> None) t)"

definition submissions_unique :: "submission list \<Rightarrow> bool" where
  "submissions_unique t \<longleftrightarrow> unique_key submission_key t \<and> unique_key submission_id_key t
     \<and> distinct (linked_turns t)"

text \<open>\<open>_connect(\<dots>, prepare=True)\<close> creates the database file when it is missing.\<close>

definition connect_prepare :: "'p store \<Rightarrow> 'p store" where
  "connect_prepare db = db\<lparr>db_exists := True\<rparr>"

definition command_request_row :: "'p store \<Rightarrow> ustr \<Rightarrow> ustr \<Rightarrow> receipt option" where
  "command_request_row db host_id request_id =
     sql_fetchone (\<lambda>r. rc_host_id r = host_id \<and> rc_request_id r = request_id) (receipts db)"

definition project_command_request :: "receipt \<Rightarrow> 'p store \<Rightarrow> 'p store result" where
  "project_command_request row db =
     (let c = audit_row row in
      if command_check c
      then Inr (db\<lparr>commands := sql_upsert (\<lambda>d. command_key d = command_key c) (\<lambda>_. c) c (commands db)\<rparr>)
      else Inl IntegrityError)"

definition append_event :: "ustr \<Rightarrow> ustr \<Rightarrow> ustr \<Rightarrow> ustr \<Rightarrow> time \<Rightarrow> ustr \<Rightarrow> json \<Rightarrow> 'p store \<Rightarrow> 'p store" where
  "append_event host_id event_type aggregate_type aggregate_id observed_at fingerprint payload db =
     db\<lparr>events := events db @
       [\<lparr>ev_host_id = host_id, ev_type = event_type, ev_aggregate_type = aggregate_type,
         ev_aggregate_id = aggregate_id, ev_observed_at = observed_at,
         ev_content_fingerprint = fingerprint, ev_payload_json = json_dumps payload\<rparr>]\<rparr>"

definition command_transition_event ::
  "store_env \<Rightarrow> receipt \<Rightarrow> time \<Rightarrow> (ustr \<times> json) list option \<Rightarrow> 'p store \<Rightarrow> 'p store" where
  "command_transition_event E row observed_at event_payload db =
     (let payload =
        [(lit ''schema_version'', JInt 1),
         (lit ''request_id'', JStr (rc_request_id row)),
         (lit ''action'', JStr (rc_action row)),
         (lit ''state'', JStr (state_text (rc_state row))),
         (lit ''status'', JStr (rc_status row)),
         (lit ''canonical_fingerprint'', JStr (rc_canonical_fingerprint row)),
         (lit ''public_worker_id'', JStr (rc_public_worker_id row))]
        @ (case event_payload of None \<Rightarrow> []
           | Some d \<Rightarrow> [(lit ''detail'', JDict (sanitize_public_mapping E d))])
      in append_event (rc_host_id row) (lit ''command.request.'' @ state_text (rc_state row))
           (lit ''command_request'') (rc_request_id row) observed_at
           (rc_canonical_fingerprint row) (JDict payload) db)"

text \<open>
  The end of every transition: read the row back, project it, append its event,
  commit.  A row that is gone raises.
\<close>

definition commit_transition ::
  "store_env \<Rightarrow> ustr \<Rightarrow> ustr \<Rightarrow> time \<Rightarrow> (ustr \<times> json) list option \<Rightarrow> 'p store
     \<Rightarrow> (receipt \<times> 'p store) result" where
  "commit_transition E host_id request_id current event_payload db =
     (case command_request_row db host_id request_id of
        None \<Rightarrow> Inl RuntimeError
      | Some row \<Rightarrow>
          bind_result (project_command_request row db) (\<lambda>db1.
            Inr (row, command_transition_event E row current event_payload db1)))"

section \<open>Invariant\<close>

text \<open>
  A receipt that satisfies the table's constraints and has the deadlines its state
  needs; a store whose receipts are such, with at most one per host and request,
  each mirrored in the audit table up to \<open>updated_at\<close>, and whose ledger satisfies
  its unique indexes and names a turn exactly when it is linked.
\<close>

definition receipt_ok :: "receipt \<Rightarrow> bool" where
  "receipt_ok r \<longleftrightarrow> receipt_check r
     \<and> (rc_state r = SendStarted \<longrightarrow> rc_send_started_at r \<noteq> None)
     \<and> (active_state (rc_state r) \<longrightarrow> rc_owner_expires_at r \<noteq> None)"

definition mirrors :: "command_row \<Rightarrow> receipt \<Rightarrow> bool" where
  "mirrors c r \<longleftrightarrow> c\<lparr>cm_updated_at := rc_updated_at r\<rparr> = audit_row r"

definition submission_ok :: "submission \<Rightarrow> bool" where
  "submission_ok s \<longleftrightarrow> (ts_state s = LLinked \<longleftrightarrow> ts_linked_turn_id s \<noteq> None)"

definition store_ok :: "'p store \<Rightarrow> bool" where
  "store_ok db \<longleftrightarrow>
     unique_key receipt_key (receipts db) \<and> unique_key rc_id (receipts db)
     \<and> list_all (\<lambda>r. rc_id r < receipt_seq db) (receipts db)
     \<and> list_all receipt_ok (receipts db)
     \<and> unique_key command_key (commands db)
     \<and> list_all (\<lambda>r. list_ex (\<lambda>c. mirrors c r) (commands db)) (receipts db)
     \<and> submissions_unique (submissions db)
     \<and> list_all submission_ok (submissions db)"

end
