(* ===== verification/Submissions.thy ===== *)
theory Submissions
  imports StoreState
begin

text \<open>
  The submission ledger (\<open>turn_submissions\<close> in \<open>store/sqlite.py\<close>): the transition
  contract of its states, the row a send-start inserts, and the updates that move
  a row with its command receipt, on cancellation and on expiry.
\<close>

section \<open>The transition contract\<close>

definition turn_submission_states :: "submission_state list" where
  "turn_submission_states =
     [LSendStarted, LSubmitted, LUncertain, LLinked, LAmbiguous, LExpired, LCancelled]"

fun turn_submission_state_transitions :: "submission_state \<Rightarrow> submission_state list" where
  "turn_submission_state_transitions LSendStarted =
     [LSubmitted, LUncertain, LLinked, LAmbiguous, LExpired, LCancelled]"
| "turn_submission_state_transitions LSubmitted = [LLinked, LAmbiguous, LExpired, LCancelled]"
| "turn_submission_state_transitions LUncertain = [LLinked, LAmbiguous, LExpired, LCancelled]"
| "turn_submission_state_transitions _ = []"

definition is_valid_turn_submission_state_transition ::
  "submission_state \<Rightarrow> submission_state \<Rightarrow> bool" where
  "is_valid_turn_submission_state_transition current_state next_state \<longleftrightarrow>
     next_state \<in> set (turn_submission_state_transitions current_state)"

definition turn_submission_transition_sources :: "submission_state \<Rightarrow> submission_state list" where
  "turn_submission_transition_sources next_state =
     filter (\<lambda>s. is_valid_turn_submission_state_transition s next_state) turn_submission_states"

section \<open>Owner identity and policy\<close>

text \<open>
  The worker a command is sent to, as the ledger reads it: its id and its \<open>meta\<close>
  mapping, \<open>None\<close> when that is not a mapping.
\<close>

record ledger_worker =
  lw_id :: ustr
  lw_meta :: "(ustr \<times> json) list option"

definition valid_final_stable_key :: "json \<Rightarrow> bool" where
  "valid_final_stable_key v =
     (case v of JStr s \<Rightarrow>
        starts_with (lit ''wsk1_'') s \<and> length s = 69 \<and> list_all hex_char (drop 5 s)
      | _ \<Rightarrow> False)"

definition turn_continuity_identity :: "(ustr \<times> json) list option \<Rightarrow> (ustr \<times> int) option" where
  "turn_continuity_identity meta =
     (case meta of None \<Rightarrow> None
      | Some m \<Rightarrow>
          (case dict_get m (lit ''stable_key'') of
             JStr s \<Rightarrow>
               if valid_final_stable_key (JStr s) \<and> dict_get m (lit ''stable_key_version'') = JInt 1
               then Some (s, 1) else None
           | _ \<Rightarrow> None))"

definition turn_submission_owner_identity :: "ledger_worker \<Rightarrow> (ustr \<times> int) result" where
  "turn_submission_owner_identity worker =
     (case turn_continuity_identity (lw_meta worker) of
        Some identity \<Rightarrow> Inr identity
      | None \<Rightarrow>
          (let worker_id = py_strip (lw_id worker) in
           if worker_id = [] then Inl (StoreSchemaError (lit ''turn_submission_owner_missing''))
           else Inr (lit ''legacy-worker:'' @ worker_id, 0)))"

definition turn_link_candidate_owner_identity :: "ledger_worker \<Rightarrow> (ustr \<times> int) result" where
  "turn_link_candidate_owner_identity worker =
     (case lw_meta worker of
        Some m \<Rightarrow>
          (case dict_get m (lit ''stable_key'') of
             JStr s \<Rightarrow>
               if valid_final_stable_key (JStr s) \<and> dict_get m (lit ''stable_key_version'') = JNull
               then Inr (s, 1) else turn_submission_owner_identity worker
           | _ \<Rightarrow> turn_submission_owner_identity worker)
      | None \<Rightarrow> turn_submission_owner_identity worker)"

definition turn_submission_policy :: "int \<Rightarrow> int \<Rightarrow> (int \<times> int) result" where
  "turn_submission_policy link_window hard_ttl =
     (if link_window \<le> 0 \<or> hard_ttl \<le> 0 then Inl ValueError
      else if hard_ttl < link_window then Inl ValueError
      else Inr (link_window, hard_ttl))"

section \<open>The rows a transition writes\<close>

definition rearm_submission_link_component ::
  "ustr \<Rightarrow> ustr \<Rightarrow> ustr \<Rightarrow> 'p store \<Rightarrow> 'p store" where
  "rearm_submission_link_component host_id owner_key fp db =
     db\<lparr>link_backoff := (link_backoff db)((host_id, owner_key, fp) := None)\<rparr>"

text \<open>\<open>INSERT \<dots> ON CONFLICT DO NOTHING\<close>: a row that would break a unique index is dropped.\<close>

definition insert_turn_submission ::
  "ustr \<Rightarrow> ustr \<Rightarrow> ledger_worker \<Rightarrow> ustr \<Rightarrow> time \<Rightarrow> int \<Rightarrow> int \<Rightarrow> 'p store
     \<Rightarrow> (ustr \<times> 'p store) result" where
  "insert_turn_submission host_id request_id worker instruction_text current link_seconds hard_seconds db =
     bind_result (turn_submission_policy link_seconds hard_seconds) (\<lambda>(link_window, hard_ttl).
     bind_result (turn_submission_owner_identity worker) (\<lambda>(owner_key, owner_key_version).
     bind_result (turn_submission_id host_id request_id) (\<lambda>submission_id.
       let fp = instruction_fingerprint instruction_text;
           row = \<lparr>ts_host_id = host_id, ts_submission_id = submission_id, ts_request_id = request_id,
                  ts_owner_key = owner_key, ts_owner_key_version = owner_key_version,
                  ts_instruction_fingerprint = fp, ts_state = LSendStarted,
                  ts_linked_turn_id = None,
                  ts_link_not_before = whole_seconds (current - link_window * second),
                  ts_link_expires_at = whole_seconds (current + link_window * second),
                  ts_hard_expires_at = whole_seconds (current + hard_ttl * second),
                  ts_linked_at = None, ts_terminal_at = None, ts_submitted_at = None,
                  ts_send_started_at = Some current, ts_updated_at = current\<rparr>;
           db1 = (if submission_key row \<in> submission_key ` set (submissions db)
                     \<or> submission_id_key row \<in> submission_id_key ` set (submissions db)
                  then db else db\<lparr>submissions := submissions db @ [row]\<rparr>)
       in Inr (submission_id, rearm_submission_link_component host_id owner_key fp db1))))"

fun terminal_next_state :: "receipt_state \<Rightarrow> submission_state option" where
  "terminal_next_state Accepted = Some LSubmitted"
| "terminal_next_state Rejected = Some LCancelled"
| "terminal_next_state Uncertain = Some LUncertain"
| "terminal_next_state _ = None"

definition submission_row :: "'p store \<Rightarrow> ustr \<Rightarrow> ustr \<Rightarrow> submission option" where
  "submission_row db host_id request_id =
     sql_fetchone (\<lambda>s. ts_host_id s = host_id \<and> ts_request_id s = request_id) (submissions db)"

definition terminalize_turn_submission ::
  "ustr \<Rightarrow> ustr \<Rightarrow> receipt_state \<Rightarrow> time \<Rightarrow> 'p store \<Rightarrow> (bool \<times> 'p store) result" where
  "terminalize_turn_submission host_id request_id terminal current db =
     (case terminal_next_state terminal of None \<Rightarrow> Inr (False, db)
      | Some next_state \<Rightarrow>
          (case submission_row db host_id request_id of None \<Rightarrow> Inr (False, db)
           | Some row \<Rightarrow>
               let current_state = ts_state row;
                   sel = (\<lambda>s. ts_host_id s = host_id \<and> ts_request_id s = request_id
                             \<and> ts_state s = current_state) in
               if \<not> is_valid_turn_submission_state_transition current_state next_state
               then Inr (False, db)
               else if sql_rowcount sel (submissions db) \<noteq> 1
               then Inl (StoreSchemaError (lit ''turn_submission_terminal_transition_failed''))
               else Inr (True, db\<lparr>submissions := sql_update sel
                      (\<lambda>s. s\<lparr>ts_state := next_state, ts_terminal_at := Some current,
                             ts_submitted_at := (if next_state = LSubmitted then Some current
                                                 else ts_submitted_at s),
                             ts_updated_at := current\<rparr>) (submissions db)\<rparr>)))"

definition expirable :: "time \<Rightarrow> ustr option \<Rightarrow> submission \<Rightarrow> bool" where
  "expirable current host_id s \<longleftrightarrow>
     ts_linked_turn_id s = None
     \<and> ts_state s \<in> set (turn_submission_transition_sources LExpired)
     \<and> ts_hard_expires_at s \<le> current
     \<and> (case host_id of None \<Rightarrow> True | Some h \<Rightarrow> ts_host_id s = h)"

definition expire_turn_submissions ::
  "time \<Rightarrow> ustr option \<Rightarrow> 'p store \<Rightarrow> nat \<times> 'p store" where
  "expire_turn_submissions current host_id db =
     (sql_rowcount (expirable current host_id) (submissions db),
      db\<lparr>submissions := sql_update (expirable current host_id)
        (\<lambda>s. s\<lparr>ts_state := LExpired, ts_terminal_at := Some current, ts_updated_at := current\<rparr>)
        (submissions db)\<rparr>)"

section \<open>The store operations\<close>

definition sweep_expired_turn_submissions ::
  "store_env \<Rightarrow> ustr option \<Rightarrow> time option \<Rightarrow> 'p store \<Rightarrow> nat \<times> 'p store" where
  "sweep_expired_turn_submissions E host_id now db =
     (if \<not> db_exists db then (0, db)
      else expire_turn_submissions (command_request_now E now) host_id db)"

definition cancel_turn_submission ::
  "store_env \<Rightarrow> ustr \<Rightarrow> ustr \<Rightarrow> time option \<Rightarrow> 'p store \<Rightarrow> bool \<times> 'p store" where
  "cancel_turn_submission E host_id request_id now db =
     (if \<not> db_exists db then (False, db)
      else
        let current = command_request_now E now;
            sel = (\<lambda>s. ts_host_id s = host_id \<and> ts_request_id s = request_id
                     \<and> ts_linked_turn_id s = None
                     \<and> ts_state s \<in> set (turn_submission_transition_sources LCancelled))
        in (sql_rowcount sel (submissions db) = 1,
            db\<lparr>submissions := sql_update sel
              (\<lambda>s. s\<lparr>ts_state := LCancelled, ts_terminal_at := Some current, ts_updated_at := current\<rparr>)
              (submissions db)\<rparr>))"

end
