(* ===== verification/Receipts.thy ===== *)
theory Receipts
  imports Submissions
begin

text \<open>
  The command-request protocol of \<open>store/sqlite.py\<close>: one authoritative receipt per
  host and request id, moved by compare-and-set transitions that each run in one
  \<open>BEGIN IMMEDIATE\<close> transaction.  Every operation returns the response of the code
  with the store it leaves, or \<open>Inl\<close> of the exception, in which case the
  transaction was rolled back and the caller keeps the store it had.
\<close>

section \<open>Responses\<close>

text \<open>
  The receipt as callers see it (\<open>_command_receipt_from_row\<close>): neither the row id,
  nor the owner-token hash, nor the binding.
\<close>

record receipt_view =
  vw_host_id :: ustr
  vw_request_id :: ustr
  vw_action :: ustr
  vw_canonical_version :: int
  vw_canonical_fingerprint :: ustr
  vw_canonical_request_json :: ustr
  vw_public_worker_id :: ustr
  vw_state :: receipt_state
  vw_status :: ustr
  vw_result_json :: ustr
  vw_owner_expires_at :: "time option"
  vw_created_at :: time
  vw_reserved_at :: time
  vw_send_started_at :: "time option"
  vw_terminal_at :: "time option"
  vw_updated_at :: time
  vw_legacy_collision :: bool
  vw_legacy_collision_count :: int
  vw_selector_proof :: ustr

definition command_receipt_from_row :: "receipt \<Rightarrow> receipt_view" where
  "command_receipt_from_row row =
     \<lparr>vw_host_id = rc_host_id row, vw_request_id = rc_request_id row, vw_action = rc_action row,
      vw_canonical_version = rc_canonical_version row,
      vw_canonical_fingerprint = rc_canonical_fingerprint row,
      vw_canonical_request_json = rc_canonical_request_json row,
      vw_public_worker_id = rc_public_worker_id row, vw_state = rc_state row,
      vw_status = rc_status row, vw_result_json = rc_result_json row,
      vw_owner_expires_at = rc_owner_expires_at row, vw_created_at = rc_created_at row,
      vw_reserved_at = rc_reserved_at row, vw_send_started_at = rc_send_started_at row,
      vw_terminal_at = rc_terminal_at row, vw_updated_at = rc_updated_at row,
      vw_legacy_collision = rc_legacy_collision row,
      vw_legacy_collision_count = rc_legacy_collision_count row,
      vw_selector_proof = rc_selector_proof row\<rparr>"

text \<open>The response statuses; \<open>Done s\<close> is the name of the state \<open>s\<close> reached.\<close>

datatype verdict =
    NotFound
  | RequestIdConflict
  | Terminal
  | InvalidState
  | NotOwner
  | InProgress
  | Queued
  | Done receipt_state

record 'e response =
  rs_status :: verdict
  rs_owner_token :: "ustr option"
  rs_receipt :: "receipt_view option"
  rs_effect_result :: "'e option"
  rs_submission_id :: "ustr option"

definition command_request_response :: "verdict \<Rightarrow> receipt option \<Rightarrow> ustr option \<Rightarrow> 'e response" where
  "command_request_response status row owner_token =
     \<lparr>rs_status = status, rs_owner_token = owner_token,
      rs_receipt = map_option command_receipt_from_row row,
      rs_effect_result = None, rs_submission_id = None\<rparr>"

lemma response_simps [simp]:
  "rs_status (command_request_response v row t) = v"
  "rs_owner_token (command_request_response v row t) = t"
  "rs_receipt (command_request_response v row t) = map_option command_receipt_from_row row"
  by (simp_all add: command_request_response_def)

section \<open>Ownership and deadlines\<close>

definition owner_token_hash :: "ustr \<Rightarrow> ustr" where
  "owner_token_hash token =
     (if token = [] then []
      else sha256_hex (utf8_encode (lit ''tendwire.command-owner.v1'') @ 0 # utf8_encode token))"

definition owns :: "receipt \<Rightarrow> ustr \<Rightarrow> bool" where
  "owns row owner_hash \<longleftrightarrow> owner_hash \<noteq> [] \<and> rc_owner_token_hash row = owner_hash"

definition command_reservation_is_live :: "store_env \<Rightarrow> receipt_view \<Rightarrow> time option \<Rightarrow> bool" where
  "command_reservation_is_live E receipt now =
     (if \<not> active_state (vw_state receipt) then False
      else case vw_owner_expires_at receipt of
             None \<Rightarrow> True
           | Some deadline \<Rightarrow> command_request_now E now < whole_seconds deadline)"

definition canonical_request_matches ::
  "receipt \<Rightarrow> ustr \<Rightarrow> int \<Rightarrow> ustr \<Rightarrow> ustr \<Rightarrow> ustr \<Rightarrow> ustr option \<Rightarrow> bool" where
  "canonical_request_matches row action version fp request_json worker legacy_fp =
     (if rc_action row \<noteq> action then False
      else if rc_canonical_version row = 0
      then (case legacy_fp of None \<Rightarrow> False | Some l \<Rightarrow> rc_canonical_fingerprint row = l)
      else rc_canonical_version row = version \<and> rc_canonical_fingerprint row = fp
        \<and> rc_canonical_request_json row = request_json \<and> rc_public_worker_id row = worker)"

definition get_command_request :: "'p store \<Rightarrow> ustr \<Rightarrow> ustr \<Rightarrow> receipt_view option" where
  "get_command_request db host_id request_id =
     (if \<not> db_exists db then None
      else map_option command_receipt_from_row (command_request_row db host_id request_id))"

section \<open>Reserving\<close>

definition command_retry_horizon_seconds :: int where
  "command_retry_horizon_seconds = 604800"

text \<open>
  The canonical identity a caller presents.  \<open>cr_lease\<close> is the requested lease in
  microseconds, \<open>None\<close> when the argument is no finite number.
\<close>

record command_args =
  cr_host_id :: ustr
  cr_request_id :: ustr
  cr_action :: ustr
  cr_canonical_version :: int
  cr_canonical_fingerprint :: ustr
  cr_canonical_request_json :: ustr
  cr_public_worker_id :: ustr
  cr_selector_proof :: ustr
  cr_legacy_fingerprint :: "ustr option"

text \<open>The argument checks both reserving operations start with.\<close>

definition reserve_values :: "command_args \<Rightarrow> (ustr \<times> ustr \<times> ustr \<times> ustr) result" where
  "reserve_values a =
     (let h = py_strip (cr_host_id a); r = py_strip (cr_request_id a);
          act = py_strip (cr_action a); fp = py_strip (cr_canonical_fingerprint a) in
      if h = [] \<or> r = [] \<or> act = [] \<or> fp = [] then Inl ValueError
      else if cr_canonical_version a < 1 then Inl ValueError
      else if cr_selector_proof a \<noteq> [] \<and> \<not> is_selector_proof (cr_selector_proof a)
      then Inl ValueError
      else case json_loads (cr_canonical_request_json a) of
             Some (JDict d) \<Rightarrow> Inr (h, r, act, fp)
           | _ \<Rightarrow> Inl ValueError)"

text \<open>The rows the statements of the protocol write.\<close>

definition new_receipt ::
  "command_args \<Rightarrow> ustr \<times> ustr \<times> ustr \<times> ustr \<Rightarrow> receipt_state \<Rightarrow> ustr \<Rightarrow> ustr \<Rightarrow> ustr
     \<Rightarrow> time option \<Rightarrow> time option \<Rightarrow> time \<Rightarrow> receipt" where
  "new_receipt a vals state status result_json owner_hash owner_expires_at terminal_at current =
     (case vals of (host_id, request_id, action, fp) \<Rightarrow>
       \<lparr>rc_id = 0, rc_host_id = host_id, rc_request_id = request_id, rc_action = action,
        rc_canonical_version = cr_canonical_version a, rc_canonical_fingerprint = fp,
        rc_canonical_request_json = cr_canonical_request_json a,
        rc_public_worker_id = cr_public_worker_id a, rc_state = state,
        rc_status = status, rc_result_json = result_json,
        rc_owner_token_hash = owner_hash, rc_owner_expires_at = owner_expires_at,
        rc_binding_fingerprint = None, rc_created_at = current, rc_reserved_at = current,
        rc_send_started_at = None, rc_terminal_at = terminal_at, rc_updated_at = current,
        rc_legacy_collision = False, rc_legacy_collision_count = 0,
        rc_selector_proof = cr_selector_proof a\<rparr>)"

definition take_over_row :: "ustr \<Rightarrow> time \<Rightarrow> ustr \<Rightarrow> time \<Rightarrow> receipt \<Rightarrow> receipt" where
  "take_over_row owner_hash owner_expires_at pending_result_json current r =
     r\<lparr>rc_owner_token_hash := owner_hash, rc_owner_expires_at := Some owner_expires_at,
       rc_binding_fingerprint := None, rc_status := status_pending,
       rc_result_json := pending_result_json, rc_reserved_at := current,
       rc_send_started_at := None, rc_updated_at := current\<rparr>"

definition send_started_row :: "ustr \<Rightarrow> time \<Rightarrow> receipt \<Rightarrow> receipt" where
  "send_started_row binding current r =
     r\<lparr>rc_state := SendStarted, rc_binding_fingerprint := Some binding,
       rc_send_started_at := Some current, rc_updated_at := current\<rparr>"

definition queued_row :: "ustr \<Rightarrow> time \<Rightarrow> receipt \<Rightarrow> receipt" where
  "queued_row result_json current r =
     r\<lparr>rc_status := status_pending, rc_result_json := result_json, rc_updated_at := current\<rparr>"

definition terminal_row :: "receipt_state \<Rightarrow> ustr \<Rightarrow> ustr \<Rightarrow> time \<Rightarrow> receipt \<Rightarrow> receipt" where
  "terminal_row terminal status result_json current r =
     r\<lparr>rc_state := terminal, rc_status := status, rc_result_json := result_json,
       rc_owner_token_hash := [], rc_owner_expires_at := None,
       rc_terminal_at := Some current, rc_updated_at := current\<rparr>"

definition queue_submission :: "time \<Rightarrow> submission \<Rightarrow> submission" where
  "queue_submission current s =
     s\<lparr>ts_state := LSendStarted, ts_linked_turn_id := None, ts_linked_at := None,
       ts_submitted_at := Some current, ts_link_expires_at := ts_hard_expires_at s,
       ts_updated_at := current\<rparr>"

definition insert_receipt :: "receipt \<Rightarrow> 'p store \<Rightarrow> 'p store result" where
  "insert_receipt row db =
     bind_result (checked_insert receipt_check receipt_key (row\<lparr>rc_id := receipt_seq db\<rparr>) (receipts db))
       (\<lambda>t. Inr (db\<lparr>receipts := t, receipt_seq := Suc (receipt_seq db)\<rparr>))"

definition update_receipts ::
  "(receipt \<Rightarrow> bool) \<Rightarrow> (receipt \<Rightarrow> receipt) \<Rightarrow> 'p store \<Rightarrow> 'p store result" where
  "update_receipts sel f db =
     bind_result (checked_update receipt_check sel f (receipts db)) (\<lambda>t. Inr (db\<lparr>receipts := t\<rparr>))"

definition reserve_command_request ::
  "store_env \<Rightarrow> command_args \<Rightarrow> ustr \<Rightarrow> int option \<Rightarrow> time option \<Rightarrow> 'p store
     \<Rightarrow> ('e response \<times> 'p store) result" where
  "reserve_command_request E a pending_result_json lease now db0 =
     bind_result (reserve_values a) (\<lambda>(host_id, request_id, action, fp).
     case lease of None \<Rightarrow> Inl ValueError | Some lease_us \<Rightarrow>
     if lease_us \<le> 0 \<or> command_retry_horizon_seconds * second < lease_us then Inl ValueError else
     let current = command_request_now E now;
         owner_token = token_urlsafe E;
         owner_hash = owner_token_hash owner_token;
         owner_expires_at = command_request_add_seconds current lease_us;
         db = connect_prepare db0;
         finish = (\<lambda>db1. bind_result (commit_transition E host_id request_id current None db1)
           (\<lambda>(row, db2). Inr (command_request_response (Done Reserved) (Some row) (Some owner_token), db2)))
     in case command_request_row db host_id request_id of
       Some row \<Rightarrow>
         if rc_legacy_collision row then Inr (command_request_response Terminal (Some row) None, db)
         else if \<not> canonical_request_matches row action (cr_canonical_version a) fp
             (cr_canonical_request_json a) (cr_public_worker_id a) (cr_legacy_fingerprint a)
         then Inr (command_request_response RequestIdConflict (Some row) None, db)
         else if terminal_state (rc_state row)
         then Inr (command_request_response Terminal (Some row) None, db)
         else if rc_state row = SendStarted
         then Inr (command_request_response InProgress (Some row) None, db)
         else if (case rc_owner_expires_at row of None \<Rightarrow> False | Some e \<Rightarrow> current < e)
         then Inr (command_request_response InProgress (Some row) None, db)
         else
           let sel = (\<lambda>r. rc_id r = rc_id row \<and> rc_state r = Reserved) in
           if sql_rowcount sel (receipts db) \<noteq> 1
           then Inr (command_request_response InProgress
                  (command_request_row db host_id request_id) None, db)
           else bind_result (update_receipts sel
             (take_over_row owner_hash owner_expires_at pending_result_json current) db) finish
     | None \<Rightarrow>
         bind_result (insert_receipt (new_receipt a (host_id, request_id, action, fp) Reserved
           status_pending pending_result_json owner_hash (Some owner_expires_at) None current) db) finish)"

definition abandon_command_request_reservation ::
  "store_env \<Rightarrow> ustr \<Rightarrow> ustr \<Rightarrow> ustr \<Rightarrow> ustr \<Rightarrow> time option \<Rightarrow> 'p store
     \<Rightarrow> (bool \<times> 'p store) result" where
  "abandon_command_request_reservation E host_id request_id fp owner_token now db =
     (if \<not> db_exists db then Inr (False, db)
      else
        let current = command_request_now E now; owner_hash = owner_token_hash owner_token;
            sel = (\<lambda>r. rc_host_id r = host_id \<and> rc_request_id r = request_id
                     \<and> rc_canonical_fingerprint r = fp \<and> rc_state r = Reserved
                     \<and> rc_owner_token_hash r = owner_hash) in
        if owner_hash = [] then Inr (False, db)
        else bind_result (update_receipts sel
               (\<lambda>r. r\<lparr>rc_owner_expires_at := Some current, rc_updated_at := current\<rparr>) db)
             (\<lambda>db1. Inr (sql_rowcount sel (receipts db) = 1, db1)))"

definition reserve_terminal_command_replay ::
  "store_env \<Rightarrow> command_args \<Rightarrow> receipt_state \<Rightarrow> ustr \<Rightarrow> ustr \<Rightarrow> (ustr \<times> json) list option
     \<Rightarrow> time option \<Rightarrow> 'p store \<Rightarrow> ('e response \<times> 'p store) result" where
  "reserve_terminal_command_replay E a terminal terminal_status result_json event_payload now db0 =
     bind_result (reserve_values a) (\<lambda>(host_id, request_id, action, fp).
     if terminal \<notin> {Rejected, Uncertain} then Inl ValueError
     else if terminal = Uncertain \<and> terminal_status \<noteq> status_uncertain then Inl ValueError
     else if terminal = Rejected
          \<and> terminal_status \<in> {status_pending, status_accepted, status_uncertain}
     then Inl ValueError else
     let current = command_request_now E now;
         db = connect_prepare db0
     in case command_request_row db host_id request_id of
       Some row \<Rightarrow>
         if rc_legacy_collision row then Inr (command_request_response Terminal (Some row) None, db)
         else if \<not> canonical_request_matches row action (cr_canonical_version a) fp
             (cr_canonical_request_json a) (cr_public_worker_id a) (cr_legacy_fingerprint a)
         then Inr (command_request_response RequestIdConflict (Some row) None, db)
         else if terminal_state (rc_state row)
         then Inr (command_request_response Terminal (Some row) None, db)
         else Inr (command_request_response InProgress (Some row) None, db)
     | None \<Rightarrow>
         bind_result (insert_receipt (new_receipt a (host_id, request_id, action, fp) terminal
           terminal_status result_json [] None (Some current) current) db) (\<lambda>db1.
         bind_result (commit_transition E host_id request_id current event_payload db1)
           (\<lambda>(row, db2). Inr (command_request_response (Done terminal) (Some row) None, db2))))"

section \<open>Starting the send\<close>

text \<open>
  \<open>send_started_effect\<close> and \<open>terminal_effect\<close> run inside the transaction on the
  other tables; they may raise.
\<close>

definition run_effect ::
  "('p \<Rightarrow> ('e \<times> 'p) result) option \<Rightarrow> 'p store \<Rightarrow> ('e option \<times> 'p store) result" where
  "run_effect effect db =
     (case effect of None \<Rightarrow> Inr (None, db)
      | Some f \<Rightarrow> bind_result (f (other_tables db))
          (\<lambda>(e, p). Inr (Some e, db\<lparr>other_tables := p\<rparr>)))"

definition mark_command_send_started ::
  "store_env \<Rightarrow> ustr \<Rightarrow> ustr \<Rightarrow> ustr \<Rightarrow> ustr \<Rightarrow> ustr \<Rightarrow> (ustr \<times> json) list option
     \<Rightarrow> ('p \<Rightarrow> ('e \<times> 'p) result) option \<Rightarrow> ledger_worker option \<Rightarrow> ustr option \<Rightarrow> int \<Rightarrow> int
     \<Rightarrow> time option \<Rightarrow> 'p store \<Rightarrow> ('e response \<times> 'p store) result" where
  "mark_command_send_started E host_id request_id fp owner_token binding event_payload effect
      worker instruction_text link_seconds hard_seconds now db0 =
     (if py_strip binding = [] then Inl ValueError
      else if (worker = None) \<noteq> (instruction_text = None) then Inl ValueError
      else
      let current = command_request_now E now; owner_hash = owner_token_hash owner_token;
          db = connect_prepare db0
      in case command_request_row db host_id request_id of
        None \<Rightarrow> Inr (command_request_response NotFound None None, db)
      | Some row \<Rightarrow>
          if rc_canonical_fingerprint row \<noteq> fp
          then Inr (command_request_response RequestIdConflict (Some row) None, db)
          else if terminal_state (rc_state row)
          then Inr (command_request_response Terminal (Some row) None, db)
          else if rc_state row \<noteq> Reserved
          then Inr (command_request_response InvalidState (Some row) None, db)
          else if \<not> owns row owner_hash
          then Inr (command_request_response NotOwner (Some row) None, db)
          else
            let sel = (\<lambda>r. rc_id r = rc_id row \<and> rc_state r = Reserved
                         \<and> rc_canonical_fingerprint r = fp \<and> rc_owner_token_hash r = owner_hash) in
            if sql_rowcount sel (receipts db) \<noteq> 1
            then Inr (command_request_response NotOwner
                   (command_request_row db host_id request_id) None, db)
            else bind_result (update_receipts sel
              (send_started_row binding current) db) (\<lambda>db1.
            bind_result
              (case (worker, instruction_text) of
                 (Some w, Some txt) \<Rightarrow>
                   bind_result (insert_turn_submission host_id request_id w txt current
                       link_seconds hard_seconds db1) (\<lambda>(sid, db2). Inr (Some sid, db2))
               | _ \<Rightarrow> Inr (None, db1)) (\<lambda>(submission_id, db2).
            bind_result (run_effect effect db2) (\<lambda>(effect_result, db3).
            bind_result (commit_transition E host_id request_id current event_payload db3) (\<lambda>(row2, db4).
              Inr ((command_request_response (Done SendStarted) (Some row2) (Some owner_token))
                     \<lparr>rs_effect_result := effect_result, rs_submission_id := submission_id\<rparr>, db4))))))"

section \<open>Queued sends\<close>

definition record_command_send_queued ::
  "store_env \<Rightarrow> ustr \<Rightarrow> ustr \<Rightarrow> ustr \<Rightarrow> ustr \<Rightarrow> ustr \<Rightarrow> (ustr \<times> json) list option
     \<Rightarrow> time option \<Rightarrow> 'p store \<Rightarrow> ('e response \<times> 'p store) result" where
  "record_command_send_queued E host_id request_id fp owner_token result_json event_payload now db0 =
     (let current = command_request_now E now; owner_hash = owner_token_hash owner_token;
          db = connect_prepare db0
      in case command_request_row db host_id request_id of
        None \<Rightarrow> Inr (command_request_response NotFound None None, db)
      | Some row \<Rightarrow>
          if rc_canonical_fingerprint row \<noteq> fp
          then Inr (command_request_response RequestIdConflict (Some row) None, db)
          else if terminal_state (rc_state row)
          then Inr (command_request_response Terminal (Some row) None, db)
          else if rc_state row \<noteq> SendStarted
          then Inr (command_request_response InvalidState (Some row) None, db)
          else if \<not> owns row owner_hash
          then Inr (command_request_response NotOwner (Some row) None, db)
          else
            let sel = (\<lambda>r. rc_id r = rc_id row \<and> rc_state r = SendStarted
                         \<and> rc_canonical_fingerprint r = fp \<and> rc_owner_token_hash r = owner_hash);
                lsel = (\<lambda>s. ts_host_id s = host_id \<and> ts_request_id s = request_id
                         \<and> (ts_state s = LSendStarted \<or> ts_state s = LLinked)) in
            if sql_rowcount sel (receipts db) \<noteq> 1
            then Inr (command_request_response NotOwner
                   (command_request_row db host_id request_id) None, db)
            else bind_result (update_receipts sel
              (queued_row result_json current) db) (\<lambda>db1.
            if sql_rowcount lsel (submissions db1) \<noteq> 1
            then Inl (StoreSchemaError (lit ''queued turn submission transition failed''))
            else
              let db2 = db1\<lparr>submissions := sql_update lsel (queue_submission current) (submissions db1)\<rparr>
              in bind_result (commit_transition E host_id request_id current event_payload db2) (\<lambda>(row2, db3).
                Inr (command_request_response Queued (Some row2) None, db3))))"

text \<open>
  The three ways a send-started receipt is resolved without its owner share their
  guards and their compare-and-set on the stored result.
\<close>

definition resolve_pending_send ::
  "receipt \<Rightarrow> ustr \<Rightarrow> receipt_state \<Rightarrow> ustr \<Rightarrow> ustr \<Rightarrow> ustr \<Rightarrow> time \<Rightarrow> 'p store
     \<Rightarrow> 'p store option result" where
  "resolve_pending_send row fp terminal status expected_json result_json current db =
     (let sel = (\<lambda>r. rc_id r = rc_id row \<and> rc_state r = SendStarted
                   \<and> rc_canonical_fingerprint r = fp \<and> rc_status r = status_pending
                   \<and> rc_result_json r = expected_json) in
      if sql_rowcount sel (receipts db) \<noteq> 1 then Inr None
      else bind_result (update_receipts sel
        (terminal_row terminal status result_json current) db) (\<lambda>db1. Inr (Some db1)))"

definition finish_queued_command_request ::
  "store_env \<Rightarrow> ustr \<Rightarrow> ustr \<Rightarrow> ustr \<Rightarrow> ustr \<Rightarrow> ustr \<Rightarrow> (ustr \<times> json) list option
     \<Rightarrow> time option \<Rightarrow> 'p store \<Rightarrow> ('e response \<times> 'p store) result" where
  "finish_queued_command_request E host_id request_id fp queued_result_json accepted_result_json
      event_payload now db0 =
     (let current = command_request_now E now; db = connect_prepare db0
      in case command_request_row db host_id request_id of
        None \<Rightarrow> Inr (command_request_response NotFound None None, db)
      | Some row \<Rightarrow>
          if rc_canonical_fingerprint row \<noteq> fp
          then Inr (command_request_response RequestIdConflict (Some row) None, db)
          else if terminal_state (rc_state row)
          then Inr (command_request_response Terminal (Some row) None, db)
          else if rc_state row \<noteq> SendStarted \<or> rc_status row \<noteq> status_pending
               \<or> rc_result_json row \<noteq> queued_result_json
          then Inr (command_request_response InvalidState (Some row) None, db)
          else if sql_fetchone (\<lambda>s. ts_host_id s = host_id \<and> ts_request_id s = request_id
                    \<and> ts_state s = LLinked \<and> ts_linked_turn_id s \<noteq> None) (submissions db) = None
          then Inr (command_request_response InProgress (Some row) None, db)
          else bind_result (resolve_pending_send row fp Accepted status_accepted
                 queued_result_json accepted_result_json current db) (\<lambda>updated.
            case updated of
              None \<Rightarrow> Inr (command_request_response InProgress
                        (command_request_row db host_id request_id) None, db)
            | Some db1 \<Rightarrow>
                bind_result (commit_transition E host_id request_id current event_payload db1) (\<lambda>(row2, db2).
                  Inr (command_request_response (Done Accepted) (Some row2) None, db2))))"

definition finish_unverified_queued_command_request ::
  "store_env \<Rightarrow> ustr \<Rightarrow> ustr \<Rightarrow> ustr \<Rightarrow> ustr \<Rightarrow> ustr \<Rightarrow> (ustr \<times> json) list option
     \<Rightarrow> time option \<Rightarrow> 'p store \<Rightarrow> ('e response \<times> 'p store) result" where
  "finish_unverified_queued_command_request E host_id request_id fp queued_result_json
      uncertain_result_json event_payload now db0 =
     (let current = command_request_now E now; db = connect_prepare db0
      in case command_request_row db host_id request_id of
        None \<Rightarrow> Inr (command_request_response NotFound None None, db)
      | Some row \<Rightarrow>
          if rc_canonical_fingerprint row \<noteq> fp
          then Inr (command_request_response RequestIdConflict (Some row) None, db)
          else if terminal_state (rc_state row)
          then Inr (command_request_response Terminal (Some row) None, db)
          else if rc_state row \<noteq> SendStarted \<or> rc_status row \<noteq> status_pending
               \<or> rc_result_json row \<noteq> queued_result_json
          then Inr (command_request_response InProgress (Some row) None, db)
          else if (case submission_row db host_id request_id of
                     None \<Rightarrow> True
                   | Some s \<Rightarrow> ts_state s \<notin> {LAmbiguous, LExpired} \<or> ts_linked_turn_id s \<noteq> None)
          then Inr (command_request_response InProgress (Some row) None, db)
          else bind_result (resolve_pending_send row fp Uncertain status_uncertain
                 queued_result_json uncertain_result_json current db) (\<lambda>updated.
            case updated of
              None \<Rightarrow> Inr (command_request_response InProgress
                        (command_request_row db host_id request_id) None, db)
            | Some db1 \<Rightarrow>
                bind_result (commit_transition E host_id request_id current event_payload db1) (\<lambda>(row2, db2).
                  Inr (command_request_response (Done Uncertain) (Some row2) None, db2))))"

definition recover_unresolved_command_send ::
  "store_env \<Rightarrow> ustr \<Rightarrow> ustr \<Rightarrow> ustr \<Rightarrow> ustr \<Rightarrow> ustr \<Rightarrow> (ustr \<times> json) list option
     \<Rightarrow> time option \<Rightarrow> 'p store \<Rightarrow> ('e response \<times> 'p store) result" where
  "recover_unresolved_command_send E host_id request_id fp unresolved_result_json
      uncertain_result_json event_payload now db0 =
     (let current = command_request_now E now; db = connect_prepare db0
      in case command_request_row db host_id request_id of
        None \<Rightarrow> Inr (command_request_response NotFound None None, db)
      | Some row \<Rightarrow>
          if rc_canonical_fingerprint row \<noteq> fp
          then Inr (command_request_response RequestIdConflict (Some row) None, db)
          else if terminal_state (rc_state row)
          then Inr (command_request_response Terminal (Some row) None, db)
          else if rc_state row \<noteq> SendStarted \<or> rc_status row \<noteq> status_pending
               \<or> rc_result_json row \<noteq> unresolved_result_json
          then Inr (command_request_response InProgress (Some row) None, db)
          else if (case rc_owner_expires_at row of None \<Rightarrow> True | Some e \<Rightarrow> current < e)
          then Inr (command_request_response InProgress (Some row) None, db)
          else bind_result (resolve_pending_send row fp Uncertain status_uncertain
                 unresolved_result_json uncertain_result_json current db) (\<lambda>updated.
            case updated of
              None \<Rightarrow> Inr (command_request_response InProgress
                        (command_request_row db host_id request_id) None, db)
            | Some db1 \<Rightarrow>
                bind_result (terminalize_turn_submission host_id request_id Uncertain current db1) (\<lambda>(_, db2).
                bind_result (commit_transition E host_id request_id current event_payload db2) (\<lambda>(row2, db3).
                  Inr (command_request_response (Done Uncertain) (Some row2) None, db3)))))"

section \<open>The owner's verdict\<close>

definition finish_command_request ::
  "store_env \<Rightarrow> ustr \<Rightarrow> ustr \<Rightarrow> ustr \<Rightarrow> ustr \<Rightarrow> receipt_state \<Rightarrow> receipt_state \<Rightarrow> ustr \<Rightarrow> ustr
     \<Rightarrow> (ustr \<times> json) list option \<Rightarrow> ('p \<Rightarrow> ('e \<times> 'p) result) option \<Rightarrow> time option \<Rightarrow> 'p store
     \<Rightarrow> ('e response \<times> 'p store) result" where
  "finish_command_request E host_id request_id fp owner_token expected terminal status result_json
      event_payload effect now db0 =
     (if \<not> ((expected = Reserved \<and> terminal \<in> {Rejected, Uncertain})
           \<or> (expected = SendStarted \<and> terminal \<in> {Accepted, Rejected, Uncertain}))
      then Inl ValueError
      else if terminal = Accepted \<and> status \<noteq> status_accepted then Inl ValueError
      else if terminal = Uncertain \<and> status \<noteq> status_uncertain then Inl ValueError
      else if terminal = Rejected \<and> status \<in>
          {status_pending, status_answer_in_progress, status_accepted, status_uncertain}
      then Inl ValueError
      else
      let current = command_request_now E now; owner_hash = owner_token_hash owner_token;
          db = connect_prepare db0
      in case command_request_row db host_id request_id of
        None \<Rightarrow> Inr (command_request_response NotFound None None, db)
      | Some row \<Rightarrow>
          if rc_canonical_fingerprint row \<noteq> fp
          then Inr (command_request_response RequestIdConflict (Some row) None, db)
          else if terminal_state (rc_state row)
          then Inr (command_request_response Terminal (Some row) None, db)
          else if rc_state row \<noteq> expected
          then Inr (command_request_response InvalidState (Some row) None, db)
          else if \<not> owns row owner_hash
          then Inr (command_request_response NotOwner (Some row) None, db)
          else
            let sel = (\<lambda>r. rc_id r = rc_id row \<and> rc_state r = expected
                         \<and> rc_canonical_fingerprint r = fp \<and> rc_owner_token_hash r = owner_hash) in
            if sql_rowcount sel (receipts db) \<noteq> 1
            then Inr (command_request_response NotOwner
                   (command_request_row db host_id request_id) None, db)
            else bind_result (update_receipts sel
              (terminal_row terminal status result_json current) db) (\<lambda>db1.
            bind_result (run_effect effect db1) (\<lambda>(_, db2).
            bind_result (terminalize_turn_submission host_id request_id terminal current db2) (\<lambda>(_, db3).
            bind_result (commit_transition E host_id request_id current event_payload db3) (\<lambda>(row2, db4).
              Inr (command_request_response (Done terminal) (Some row2) None, db4))))))"

end
