(* ===== verification/ReceiptContract.thy ===== *)
theory ReceiptContract
  imports Receipts
begin

text \<open>
  What every operation of the command-request protocol promises: it keeps the
  store's invariant and moves at most the one receipt it names, along the moves of
  \<open>receipt_move\<close>.  The contract is a locale; its consequences (terminal receipts
  never change, identities never change) are proved once inside it and the
  operations are its interpretations.
\<close>

section \<open>The abstract receipt map\<close>

definition receipt_map :: "'p store \<Rightarrow> ustr \<times> ustr \<Rightarrow> receipt option" where
  "receipt_map db k = command_request_row db (fst k) (snd k)"

definition same_identity :: "receipt \<Rightarrow> receipt \<Rightarrow> bool" where
  "same_identity r s \<longleftrightarrow>
     rc_id r = rc_id s \<and> rc_host_id r = rc_host_id s \<and> rc_request_id r = rc_request_id s
     \<and> rc_action r = rc_action s \<and> rc_canonical_version r = rc_canonical_version s
     \<and> rc_canonical_fingerprint r = rc_canonical_fingerprint s
     \<and> rc_canonical_request_json r = rc_canonical_request_json s
     \<and> rc_public_worker_id r = rc_public_worker_id s \<and> rc_created_at r = rc_created_at s
     \<and> rc_legacy_collision r = rc_legacy_collision s
     \<and> rc_legacy_collision_count r = rc_legacy_collision_count s
     \<and> rc_selector_proof r = rc_selector_proof s"

inductive receipt_move :: "receipt option \<Rightarrow> receipt \<Rightarrow> bool" where
  mv_create: "rc_state r \<in> {Reserved, Rejected, Uncertain} \<Longrightarrow> receipt_move None r"
| mv_reserved: "rc_state r = Reserved \<Longrightarrow> rc_state s = Reserved \<Longrightarrow> same_identity r s
    \<Longrightarrow> receipt_move (Some r) s"
| mv_start: "rc_state r = Reserved \<Longrightarrow> rc_state s = SendStarted \<Longrightarrow> same_identity r s
    \<Longrightarrow> receipt_move (Some r) s"
| mv_queue: "rc_state r = SendStarted \<Longrightarrow> rc_state s = SendStarted \<Longrightarrow> same_identity r s
    \<Longrightarrow> receipt_move (Some r) s"
| mv_refuse: "rc_state r = Reserved \<Longrightarrow> rc_state s \<in> {Rejected, Uncertain} \<Longrightarrow> same_identity r s
    \<Longrightarrow> receipt_move (Some r) s"
| mv_finish: "rc_state r = SendStarted \<Longrightarrow> terminal_state (rc_state s) \<Longrightarrow> same_identity r s
    \<Longrightarrow> receipt_move (Some r) s"

inductive_cases receipt_move_SomeE: "receipt_move (Some r) s"

lemma receipt_move_Some:
  "receipt_move (Some r) s \<Longrightarrow> same_identity r s \<and> \<not> terminal_state (rc_state r)"
  by (auto elim!: receipt_move_SomeE)

section \<open>Rows under the invariant\<close>

lemma row_SomeD:
  assumes "command_request_row db h q = Some r"
  shows "r \<in> set (receipts db)" "rc_host_id r = h" "rc_request_id r = q"
  using fetchone_SomeD[OF assms[unfolded command_request_row_def]] by auto

lemma row_key_eq:
  "command_request_row db h q = sql_fetchone (\<lambda>r. receipt_key r = (h, q)) (receipts db)"
  by (simp add: command_request_row_def receipt_key_def)

lemma row_None_iff:
  "command_request_row db h q = None \<longleftrightarrow> (h, q) \<notin> receipt_key ` set (receipts db)"
  unfolding row_key_eq fetchone_None_iff by force

text \<open>A statement guarded by the id of a row it selects changes exactly that row.\<close>

lemma sql_update_single:
  assumes "unique_key rc_id t" "r \<in> set t" "sel r" "\<And>x. sel x \<Longrightarrow> rc_id x = rc_id r"
  shows "sql_rowcount sel t = 1"
    and "sql_update sel f t = sql_update (\<lambda>x. rc_id x = rc_id r) (\<lambda>_. f r) t"
proof -
  show "sql_rowcount sel t = 1" using rowcount_unique[OF assms(1,2)] assms(3,4) by blast
  have "sel x \<longleftrightarrow> rc_id x = rc_id r" if "x \<in> set t" for x
    using assms that unique_keyD[of rc_id t x r] by metis
  then show "sql_update sel f t = sql_update (\<lambda>x. rc_id x = rc_id r) (\<lambda>_. f r) t"
    using unique_keyD[OF assms(1) _ assms(2)] by (auto simp: sql_update_def)
qed

definition put_receipt :: "receipt \<Rightarrow> receipt list \<Rightarrow> receipt list" where
  "put_receipt s t = sql_update (\<lambda>x. rc_id x = rc_id s) (\<lambda>_. s) t"

lemma update_receipts_single:
  assumes "unique_key rc_id (receipts db)" "r \<in> set (receipts db)" "sel r"
    "\<And>x. sel x \<Longrightarrow> rc_id x = rc_id r" "receipt_check (f r)" "rc_id (f r) = rc_id r"
  shows "update_receipts sel f db = Inr (db\<lparr>receipts := put_receipt (f r) (receipts db)\<rparr>)"
    and "sql_rowcount sel (receipts db) = 1"
proof -
  note single = sql_update_single[where sel = sel, OF assms(1-3), OF assms(4)]
  have "x = r" if "x \<in> set (receipts db)" "sel x" for x
    using unique_keyD[OF assms(1) that(1) assms(2)] assms(4)[OF that(2)] by blast
  then have "checked_update receipt_check sel f (receipts db) = Inr (sql_update sel f (receipts db))"
    using assms(5) by (intro checked_update_total) auto
  then show "update_receipts sel f db = Inr (db\<lparr>receipts := put_receipt (f r) (receipts db)\<rparr>)"
    using single(2)[of f] assms(6) by (simp add: update_receipts_def put_receipt_def)
  show "sql_rowcount sel (receipts db) = 1" by (rule single(1))
qed

lemma map_put_receipt:
  assumes "unique_key rc_id t" "r \<in> set t" "rc_id s = rc_id r" "g s = g r"
  shows "map g (put_receipt s t) = map g t"
  using unique_keyD[OF assms(1) _ assms(2)] assms(3,4)
  by (auto simp: put_receipt_def sql_update_def)

lemma in_put_receipt:
  assumes "unique_key rc_id t" "r \<in> set t" "rc_id s = rc_id r"
  shows "set (put_receipt s t) = insert s (set t - {r})"
  using unique_keyD[OF assms(1) _ assms(2)] assms(2,3)
  by (auto simp: put_receipt_def set_sql_update)

lemma fetchone_put_receipt:
  assumes "unique_key rc_id t" "unique_key receipt_key t" "r \<in> set t" "rc_id s = rc_id r"
    "receipt_key s = receipt_key r"
  shows "sql_fetchone (\<lambda>x. receipt_key x = k) (put_receipt s t) =
    (if k = receipt_key s then Some s else sql_fetchone (\<lambda>x. receipt_key x = k) t)"
proof (cases "k = receipt_key s")
  case True
  have "unique_key receipt_key (put_receipt s t)"
    using assms(2) map_put_receipt[OF assms(1,3,4), of receipt_key] assms(5)
    by (simp add: unique_key_def)
  moreover have "s \<in> set (put_receipt s t)" using in_put_receipt[OF assms(1,3,4)] by simp
  ultimately show ?thesis using True fetchone_unique by fastforce
next
  case False
  have "sql_fetchone (\<lambda>x. receipt_key x = k) (sql_update (\<lambda>x. rc_id x = rc_id s) (\<lambda>_. s) u) =
      sql_fetchone (\<lambda>x. receipt_key x = k) u" if "set u \<subseteq> set t" for u
    using that
  proof (induction u)
    case (Cons x u)
    moreover have "x = r" if "rc_id x = rc_id s"
      using unique_keyD[OF assms(1) _ assms(3)] that Cons.prems assms(4) by simp
    ultimately show ?case using False assms(5) by auto
  qed simp
  then show ?thesis using False by (simp add: put_receipt_def)
qed

section \<open>Committing a transition\<close>

definition committed ::
  "store_env \<Rightarrow> receipt \<Rightarrow> time \<Rightarrow> (ustr \<times> json) list option \<Rightarrow> 'p store \<Rightarrow> 'p store" where
  "committed E s current payload db = command_transition_event E s current payload
     (db\<lparr>commands := sql_upsert (\<lambda>d. command_key d = command_key (audit_row s))
        (\<lambda>_. audit_row s) (audit_row s) (commands db)\<rparr>)"

lemma audit_row_check: "receipt_check r \<Longrightarrow> command_check (audit_row r)"
  by (auto simp: receipt_check_def command_check_def audit_row_def active_iff)

lemma commit_transition_row:
  assumes "command_request_row db h q = Some s" "receipt_check s"
  shows "commit_transition E h q current payload db = Inr (s, committed E s current payload db)"
  using assms audit_row_check[OF assms(2)]
  by (simp add: commit_transition_def project_command_request_def committed_def Let_def)

lemma committed_simps [simp]:
  "receipts (committed E s cur pl db) = receipts db"
  "receipt_seq (committed E s cur pl db) = receipt_seq db"
  "submissions (committed E s cur pl db) = submissions db"
  "db_exists (committed E s cur pl db) = db_exists db"
  "commands (committed E s cur pl db) = sql_upsert (\<lambda>d. command_key d = command_key (audit_row s))
     (\<lambda>_. audit_row s) (audit_row s) (commands db)"
  "length (events (committed E s cur pl db)) = Suc (length (events db))"
  by (simp_all add: committed_def command_transition_event_def append_event_def Let_def)

lemma audit_upsert:
  assumes "unique_key command_key t"
  shows "unique_key command_key (sql_upsert (\<lambda>d. command_key d = command_key c) (\<lambda>_. c) c t)"
    and "set (sql_upsert (\<lambda>d. command_key d = command_key c) (\<lambda>_. c) c t) =
      insert c {d \<in> set t. command_key d \<noteq> command_key c}"
proof -
  have "unique_key command_key (sql_update (\<lambda>d. command_key d = command_key c) (\<lambda>_. c) t)"
    using assms unique_key_update[of "\<lambda>d. command_key d = command_key c" command_key "\<lambda>_. c" t]
    by simp
  then show "unique_key command_key (sql_upsert (\<lambda>d. command_key d = command_key c) (\<lambda>_. c) c t)"
    using assms by (auto simp: sql_upsert_def unique_key_snoc list_ex_iff)
  show "set (sql_upsert (\<lambda>d. command_key d = command_key c) (\<lambda>_. c) c t) =
      insert c {d \<in> set t. command_key d \<noteq> command_key c}"
    by (auto simp: sql_upsert_def set_sql_update list_ex_iff)
qed

lemma mirrors_key: "mirrors c r \<Longrightarrow> command_key c = receipt_key r"
  by (cases c) (auto simp: mirrors_def audit_row_def command_key_def receipt_key_def)

lemma mirrors_audit_row [simp]: "mirrors (audit_row r) r"
  by (simp add: mirrors_def audit_row_def)

lemma audit_row_key [simp]: "command_key (audit_row r) = receipt_key r"
  by (simp add: audit_row_def command_key_def receipt_key_def)

text \<open>The two ways a committed transition changes the receipts keep the invariant.\<close>

lemma store_ok_put:
  assumes ok: "store_ok db" and r: "r \<in> set (receipts db)"
    and s: "rc_id s = rc_id r" "receipt_key s = receipt_key r" "receipt_ok s"
    and subs: "submissions_unique (submissions db')" "list_all submission_ok (submissions db')"
    and db': "receipts db' = put_receipt s (receipts db)" "receipt_seq db' = receipt_seq db"
      "commands db' = sql_upsert (\<lambda>d. command_key d = command_key (audit_row s))
        (\<lambda>_. audit_row s) (audit_row s) (commands db)"
  shows "store_ok db'"
proof -
  have u: "unique_key rc_id (receipts db)" "unique_key receipt_key (receipts db)"
    "unique_key command_key (commands db)"
    using ok by (simp_all add: store_ok_def)
  note up = audit_upsert[OF u(3), of "audit_row s", unfolded audit_row_key]
  note in_put = in_put_receipt[OF u(1) r s(1)]
  have keys: "unique_key rc_id (receipts db')" "unique_key receipt_key (receipts db')"
    using u(1,2) map_put_receipt[OF u(1) r s(1,1)] map_put_receipt[OF u(1) r s(1,2)]
    by (simp_all add: db' unique_key_def)
  have rows: "list_all (\<lambda>x. rc_id x < receipt_seq db') (receipts db')"
    "list_all receipt_ok (receipts db')"
    using ok r s by (auto simp: db' in_put list_all_iff store_ok_def)
  have "list_ex (\<lambda>c. mirrors c x) (commands db')" if "x \<in> set (receipts db')" for x
  proof (cases "x = s")
    case True
    then show ?thesis by (auto simp: db' list_ex_iff up(2))
  next
    case False
    with that have x: "x \<in> set (receipts db)" "x \<noteq> r" by (auto simp: db' in_put)
    then have "receipt_key x \<noteq> receipt_key s"
      using unique_keyD[OF u(2) x(1) r] s(2) by auto
    moreover obtain c where c: "c \<in> set (commands db)" "mirrors c x"
      using ok x(1) by (auto simp: store_ok_def list_all_iff list_ex_iff)
    moreover have "command_key c = receipt_key x" by (rule mirrors_key[OF c(2)])
    ultimately have "c \<in> set (commands db')" by (simp add: db' up(2))
    with c(2) show ?thesis by (auto simp: list_ex_iff)
  qed
  then show ?thesis
    using keys rows subs up(1) by (simp add: store_ok_def db' list_all_iff)
qed

lemma store_ok_append:
  assumes ok: "store_ok db" and s: "receipt_ok s" "rc_id s = receipt_seq db"
    "receipt_key s \<notin> receipt_key ` set (receipts db)"
    and subs: "submissions_unique (submissions db')" "list_all submission_ok (submissions db')"
    and db': "receipts db' = receipts db @ [s]" "receipt_seq db' = Suc (receipt_seq db)"
      "commands db' = sql_upsert (\<lambda>d. command_key d = command_key (audit_row s))
        (\<lambda>_. audit_row s) (audit_row s) (commands db)"
  shows "store_ok db'"
proof -
  have u: "unique_key command_key (commands db)" using ok by (simp add: store_ok_def)
  note up = audit_upsert[OF u, of "audit_row s", unfolded audit_row_key]
  have id: "rc_id s \<notin> rc_id ` set (receipts db)"
    using ok s(2) by (auto simp: store_ok_def list_all_iff)
  have "list_ex (\<lambda>c. mirrors c x) (commands db')" if x: "x \<in> set (receipts db)" for x
  proof -
    have "receipt_key x \<noteq> receipt_key s" using x s(3) by (metis imageI)
    moreover obtain c where c: "c \<in> set (commands db)" "mirrors c x"
      using ok x by (auto simp: store_ok_def list_all_iff list_ex_iff)
    moreover have "command_key c = receipt_key x" by (rule mirrors_key[OF c(2)])
    ultimately have "c \<in> set (commands db')" by (simp add: db' up(2))
    with c(2) show ?thesis by (auto simp: list_ex_iff)
  qed
  moreover have "list_ex (\<lambda>c. mirrors c s) (commands db')"
    by (auto simp: db' list_ex_iff up(2))
  moreover have "list_all (\<lambda>x. rc_id x < Suc (receipt_seq db)) (receipts db)"
    using ok by (auto simp: store_ok_def list_all_iff less_Suc_eq)
  ultimately show ?thesis
    using ok s id subs up(1)
    by (simp add: store_ok_def db' unique_key_snoc list_all_iff)
qed

section \<open>The ledger updates keep the ledger's invariant\<close>

definition ledger_ok :: "'p store \<Rightarrow> bool" where
  "ledger_ok db \<longleftrightarrow> submissions_unique (submissions db) \<and> list_all submission_ok (submissions db)"

lemma store_ok_ledger: "store_ok db \<Longrightarrow> ledger_ok db"
  by (simp add: store_ok_def ledger_ok_def)

lemma linked_turns_update:
  assumes "\<And>s. p s \<Longrightarrow> ts_linked_turn_id s = None \<and> ts_linked_turn_id (f s) = None"
  shows "linked_turns (sql_update p f t) = linked_turns t"
  using assms by (induction t) (auto simp: linked_turns_def)

lemma distinct_linked_unlink:
  assumes "distinct (linked_turns t)"
    "\<And>s. p s \<Longrightarrow> ts_linked_turn_id (f s) = None"
  shows "distinct (linked_turns (sql_update p f t)) \<and>
    set (linked_turns (sql_update p f t)) \<subseteq> set (linked_turns t)"
  using assms(1)
proof (induction t)
  case (Cons x t)
  then have "distinct (linked_turns t)" by (auto simp: linked_turns_def split: if_splits)
  with Cons.IH have IH: "distinct (linked_turns (sql_update p f t))"
    "set (linked_turns (sql_update p f t)) \<subseteq> set (linked_turns t)" by auto
  show ?case
    using IH Cons.prems assms(2)[of x] by (auto simp: linked_turns_def split: if_splits)
qed (simp add: linked_turns_def)

text \<open>
  An update of the ledger that keeps the keys of the rows it rewrites and leaves
  them unlinked keeps the invariant.
\<close>

lemma ledger_ok_update:
  assumes "ledger_ok db"
    and "\<And>s. p s \<Longrightarrow> submission_key (f s) = submission_key s \<and> submission_id_key (f s) = submission_id_key s"
    and "\<And>s. p s \<Longrightarrow> ts_linked_turn_id (f s) = None \<and> ts_state (f s) \<noteq> LLinked"
  shows "ledger_ok (db\<lparr>submissions := sql_update p f (submissions db)\<rparr>)"
proof -
  have "distinct (linked_turns (sql_update p f (submissions db)))"
    using distinct_linked_unlink[of "submissions db" p f] assms(1,3)
    by (auto simp: ledger_ok_def submissions_unique_def)
  moreover have "list_all submission_ok (sql_update p f (submissions db))"
    using assms(1,3) by (auto simp: ledger_ok_def list_all_iff set_sql_update submission_ok_def)
  ultimately show ?thesis
    using assms(1,2) by (simp add: ledger_ok_def submissions_unique_def unique_key_update)
qed

lemma ledger_row_unlinked:
  assumes "ledger_ok db" "s \<in> set (submissions db)" "ts_state s \<noteq> LLinked"
  shows "ts_linked_turn_id s = None"
  using assms by (auto simp: ledger_ok_def list_all_iff submission_ok_def)

lemma submission_row_eq:
  "submission_row db h q = sql_fetchone (\<lambda>s. submission_key s = (h, q)) (submissions db)"
  by (simp add: submission_row_def submission_key_def)

text \<open>Moving a ledger row with its receipt never fails on a store in its invariant.\<close>

lemma sql_update_cong_set:
  "(\<And>x. x \<in> set t \<Longrightarrow> p x = q x) \<Longrightarrow> (\<And>x. x \<in> set t \<Longrightarrow> p x \<Longrightarrow> f x = g x)
    \<Longrightarrow> sql_update p f t = sql_update q g t"
  by (simp add: sql_update_def)

lemma terminalize_total:
  assumes "ledger_ok db"
  shows "\<exists>b db'. terminalize_turn_submission h q terminal cur db = Inr (b, db') \<and> ledger_ok db'
    \<and> (\<exists>t. db' = db\<lparr>submissions := t\<rparr>)"
proof (cases "terminal_next_state terminal")
  case None
  then show ?thesis using assms
    by (auto simp: terminalize_turn_submission_def intro!: exI[of _ "submissions db"])
next
  case (Some next_state)
  have nl: "next_state \<noteq> LLinked" using Some by (cases terminal) auto
  show ?thesis
  proof (cases "submission_row db h q")
    case None
    then show ?thesis using assms Some
      by (auto simp: terminalize_turn_submission_def intro!: exI[of _ "submissions db"])
  next
    case (Some row)
    let ?sel = "\<lambda>s. ts_host_id s = h \<and> ts_request_id s = q \<and> ts_state s = ts_state row"
    let ?f = "\<lambda>s. s\<lparr>ts_state := next_state, ts_terminal_at := Some cur,
      ts_submitted_at := (if next_state = LSubmitted then Some cur else ts_submitted_at s),
      ts_updated_at := cur\<rparr>"
    have row: "row \<in> set (submissions db)" "submission_key row = (h, q)"
      using fetchone_SomeD[OF Some[unfolded submission_row_eq]] by auto
    have u: "unique_key submission_key (submissions db)"
      using assms by (simp add: ledger_ok_def submissions_unique_def)
    have one: "sql_rowcount ?sel (submissions db) = 1"
      using rowcount_unique[OF u row(1), of ?sel] row(2) by (auto simp: submission_key_def)
    show ?thesis
    proof (cases "is_valid_turn_submission_state_transition (ts_state row) next_state")
      case False
      then show ?thesis using assms Some \<open>terminal_next_state terminal = Some next_state\<close>
        by (auto simp: terminalize_turn_submission_def intro!: exI[of _ "submissions db"])
    next
      case True
      then have nlinked: "ts_state row \<noteq> LLinked"
        by (auto simp: is_valid_turn_submission_state_transition_def)
      have "sql_update ?sel ?f (submissions db) = sql_update (\<lambda>s. ?sel s \<and> ts_linked_turn_id s = None) ?f (submissions db)"
        using ledger_row_unlinked[OF assms] nlinked by (intro sql_update_cong_set) auto
      moreover have "ledger_ok (db\<lparr>submissions :=
          sql_update (\<lambda>s. ?sel s \<and> ts_linked_turn_id s = None) ?f (submissions db)\<rparr>)"
        by (rule ledger_ok_update[OF assms])
          (auto simp: submission_key_def submission_id_key_def nl)
      ultimately show ?thesis
        using one Some True \<open>terminal_next_state terminal = Some next_state\<close>
        by (auto simp: terminalize_turn_submission_def Let_def)
    qed
  qed
qed

lemma ledger_ok_append:
  assumes "ledger_ok db" "submission_key s \<notin> submission_key ` set (submissions db)"
    "submission_id_key s \<notin> submission_id_key ` set (submissions db)"
    "ts_linked_turn_id s = None" "ts_state s \<noteq> LLinked"
  shows "ledger_ok (db\<lparr>submissions := submissions db @ [s]\<rparr>)"
  using assms
  by (simp add: ledger_ok_def submissions_unique_def unique_key_snoc linked_turns_def submission_ok_def)

lemma ledger_ok_cong: "submissions db' = submissions db \<Longrightarrow> ledger_ok db' = ledger_ok db"
  by (simp add: ledger_ok_def)

lemma insert_submission_ledger:
  assumes "ledger_ok db"
    "insert_turn_submission h q w txt cur lw ht db = Inr (sid, db')"
  shows "ledger_ok db' \<and> (\<exists>t b. db' = db\<lparr>submissions := t, link_backoff := b\<rparr>)"
proof -
  obtain okey over where ids: "turn_submission_policy lw ht = Inr (lw, ht)"
    "turn_submission_owner_identity w = Inr (okey, over)" "turn_submission_id h q = Inr sid"
    using assms(2)
    by (auto simp: insert_turn_submission_def bind_result_eq_Inr Let_def turn_submission_policy_def
        split: if_splits)
  let ?row = "\<lparr>ts_host_id = h, ts_submission_id = sid, ts_request_id = q, ts_owner_key = okey,
    ts_owner_key_version = over, ts_instruction_fingerprint = instruction_fingerprint txt,
    ts_state = LSendStarted, ts_linked_turn_id = None,
    ts_link_not_before = whole_seconds (cur - lw * second),
    ts_link_expires_at = whole_seconds (cur + lw * second),
    ts_hard_expires_at = whole_seconds (cur + ht * second),
    ts_linked_at = None, ts_terminal_at = None, ts_submitted_at = None,
    ts_send_started_at = Some cur, ts_updated_at = cur\<rparr>"
  let ?b = "(link_backoff db)((h, okey, instruction_fingerprint txt) := None)"
  let ?dup = "submission_key ?row \<in> submission_key ` set (submissions db)
    \<or> submission_id_key ?row \<in> submission_id_key ` set (submissions db)"
  let ?t = "if ?dup then submissions db else submissions db @ [?row]"
  have db': "db' = db\<lparr>submissions := ?t, link_backoff := ?b\<rparr>"
    using assms(2) ids by (auto simp: insert_turn_submission_def Let_def rearm_submission_link_component_def)
  have "ledger_ok (db\<lparr>submissions := ?t\<rparr>)"
    using assms(1) ledger_ok_append[of db ?row] by (auto simp: ledger_ok_def)
  then have "ledger_ok db'" by (simp add: db' ledger_ok_def)
  with db' show ?thesis by blast
qed

section \<open>The contract\<close>

definition contract :: "ustr \<times> ustr \<Rightarrow> 'p store \<Rightarrow> 'p store \<Rightarrow> bool" where
  "contract k db db' \<longleftrightarrow> store_ok db' \<and>
     (receipt_map db' = receipt_map db
      \<or> (\<exists>s. receipt_move (receipt_map db k) s \<and> receipt_map db' = (receipt_map db)(k := Some s)))"

lemma same_identity_refl: "same_identity r r"
  by (simp add: same_identity_def)

lemma connect_prepare_simps [simp]:
  "receipts (connect_prepare db) = receipts db"
  "receipt_seq (connect_prepare db) = receipt_seq db"
  "commands (connect_prepare db) = commands db"
  "submissions (connect_prepare db) = submissions db"
  "events (connect_prepare db) = events db"
  "other_tables (connect_prepare db) = other_tables db"
  "db_exists (connect_prepare db) = True"
  "command_request_row (connect_prepare db) h q = command_request_row db h q"
  "submission_row (connect_prepare db) h q = submission_row db h q"
  "store_ok (connect_prepare db) = store_ok db"
  "receipt_map (connect_prepare db) = receipt_map db"
  by (simp_all add: connect_prepare_def command_request_row_def submission_row_def store_ok_def
      receipt_map_def fun_eq_iff)

lemma contract_refl: "store_ok db \<Longrightarrow> contract k db db"
  by (simp add: contract_def)

lemma contract_prepare [simp]: "store_ok db \<Longrightarrow> contract k db (connect_prepare db)"
  by (simp add: contract_def)

lemma contract_prepared [simp]: "contract k (connect_prepare db) db' = contract k db db'"
  by (simp add: contract_def)

lemma store_ok_row:
  assumes "store_ok db" "command_request_row db h q = Some r"
  shows "r \<in> set (receipts db)" "receipt_ok r" "receipt_check r" "receipt_key r = (h, q)"
    "unique_key rc_id (receipts db)" "unique_key receipt_key (receipts db)"
  using assms row_SomeD[OF assms(2)]
  by (auto simp: store_ok_def list_all_iff receipt_ok_def receipt_key_def)

lemma commit_put:
  assumes ok: "store_ok db" and row: "command_request_row db h q = Some r"
    and s: "receipt_ok s" "receipt_move (Some r) s"
    and db1: "receipts db1 = put_receipt s (receipts db)" "receipt_seq db1 = receipt_seq db"
      "commands db1 = commands db" "ledger_ok db1"
  shows "commit_transition E h q cur pl db1 = Inr (s, committed E s cur pl db1)"
    and "contract (h, q) db (committed E s cur pl db1)"
    and "receipt_map (committed E s cur pl db1) = (receipt_map db)((h, q) := Some s)"
proof -
  note r = store_ok_row[OF ok row]
  have id: "rc_id s = rc_id r" "receipt_key s = receipt_key r"
    using receipt_move_Some[OF s(2)] by (auto simp: same_identity_def receipt_key_def)
  have map: "receipt_map db1 = (receipt_map db)((h, q) := Some s)"
    using fetchone_put_receipt[OF r(5,6,1) id(1,2)] r(4) id(2)
    by (auto simp: receipt_map_def row_key_eq fun_eq_iff db1)
  then have "command_request_row db1 h q = Some s"
    by (simp add: receipt_map_def fun_eq_iff)
  then show "commit_transition E h q cur pl db1 = Inr (s, committed E s cur pl db1)"
    using s(1) by (intro commit_transition_row) (auto simp: receipt_ok_def)
  have same: "receipt_map (committed E s cur pl db1) = receipt_map db1"
    by (simp add: receipt_map_def command_request_row_def fun_eq_iff)
  with map show "receipt_map (committed E s cur pl db1) = (receipt_map db)((h, q) := Some s)"
    by simp
  have "store_ok (committed E s cur pl db1)"
    by (rule store_ok_put[OF ok r(1) id s(1)]) (use db1(4) in \<open>simp_all add: db1 ledger_ok_def\<close>)
  then show "contract (h, q) db (committed E s cur pl db1)"
    using map same s(2) row unfolding contract_def by (auto simp: receipt_map_def)
qed

lemma commit_append:
  assumes ok: "store_ok db" and row: "command_request_row db h q = None"
    and s: "receipt_ok s" "receipt_key s = (h, q)" "rc_id s = receipt_seq db"
      "receipt_move None s"
    and db1: "receipts db1 = receipts db @ [s]" "receipt_seq db1 = Suc (receipt_seq db)"
      "commands db1 = commands db" "ledger_ok db1"
  shows "commit_transition E h q cur pl db1 = Inr (s, committed E s cur pl db1)"
    and "contract (h, q) db (committed E s cur pl db1)"
    and "receipt_map (committed E s cur pl db1) = (receipt_map db)((h, q) := Some s)"
proof -
  have fresh: "receipt_key s \<notin> receipt_key ` set (receipts db)"
    using row s(2) by (simp add: row_None_iff)
  have map: "receipt_map db1 = (receipt_map db)((h, q) := Some s)"
    using row s(2) by (auto simp: receipt_map_def row_key_eq fun_eq_iff db1 fetchone_append
        split: option.splits)
  then have "command_request_row db1 h q = Some s"
    by (simp add: receipt_map_def fun_eq_iff)
  then show "commit_transition E h q cur pl db1 = Inr (s, committed E s cur pl db1)"
    using s(1) by (intro commit_transition_row) (auto simp: receipt_ok_def)
  have same: "receipt_map (committed E s cur pl db1) = receipt_map db1"
    by (simp add: receipt_map_def command_request_row_def fun_eq_iff)
  with map show "receipt_map (committed E s cur pl db1) = (receipt_map db)((h, q) := Some s)"
    by simp
  have "store_ok (committed E s cur pl db1)"
    by (rule store_ok_append[OF ok s(1,3) fresh]) (use db1(4) in \<open>simp_all add: db1 ledger_ok_def\<close>)
  then show "contract (h, q) db (committed E s cur pl db1)"
    using map same s(4) row unfolding contract_def by (auto simp: receipt_map_def)
qed

text \<open>An operation that answers without writing keeps the contract.\<close>

locale receipt_operation =
  fixes op :: "'p store \<Rightarrow> ('a \<times> 'p store) result" and key :: "ustr \<times> ustr"
  assumes contract: "store_ok db \<Longrightarrow> op db = Inr (x, db') \<Longrightarrow> contract key db db'"
begin

lemma keeps_store_ok: "store_ok db \<Longrightarrow> op db = Inr (x, db') \<Longrightarrow> store_ok db'"
  using contract by (auto simp: contract_def)

lemma step_cases:
  assumes "store_ok db" "op db = Inr (x, db')"
  obtains "receipt_map db' = receipt_map db"
  | s where "receipt_move (receipt_map db key) s" "receipt_map db' = (receipt_map db)(key := Some s)"
  using contract[OF assms] unfolding contract_def by blast

lemma frame:
  assumes "store_ok db" "op db = Inr (x, db')" "k \<noteq> key"
  shows "receipt_map db' k = receipt_map db k"
  using assms(1,2) by (rule step_cases) (simp_all add: assms(3))

lemma follows_move:
  assumes "store_ok db" "op db = Inr (x, db')" "receipt_map db k = Some r"
  shows "receipt_map db' k = Some r \<or> (\<exists>s. receipt_map db' k = Some s \<and> receipt_move (Some r) s)"
proof (rule step_cases[OF assms(1,2)])
  fix s assume s: "receipt_move (receipt_map db key) s" "receipt_map db' = (receipt_map db)(key := Some s)"
  show ?thesis
  proof (cases "k = key")
    case True
    with s assms(3) have "receipt_move (Some r) s" "receipt_map db' k = Some s" by simp_all
    then show ?thesis by blast
  qed (simp add: s(2) assms(3))
qed (simp add: assms(3))

lemma keeps_terminal:
  assumes "store_ok db" "op db = Inr (x, db')" "receipt_map db k = Some r" "terminal_state (rc_state r)"
  shows "receipt_map db' k = Some r"
  using follows_move[OF assms(1-3)] assms(4) receipt_move_Some by blast

lemma keeps_identity:
  assumes "store_ok db" "op db = Inr (x, db')" "receipt_map db k = Some r"
  shows "\<exists>s. receipt_map db' k = Some s \<and> same_identity r s"
  using follows_move[OF assms] receipt_move_Some same_identity_refl by blast

lemma never_unsends:
  assumes "store_ok db" "op db = Inr (x, db')" "receipt_map db k = Some r" "rc_state r \<noteq> Reserved"
  shows "\<exists>s. receipt_map db' k = Some s \<and> rc_state s \<noteq> Reserved"
  using follows_move[OF assms(1-3)] assms(4) by (auto elim!: receipt_move_SomeE)

end

section \<open>The operations keep it\<close>

lemma owner_token_hash_Nil [simp]: "owner_token_hash t = [] \<longleftrightarrow> t = []"
  by (simp add: owner_token_hash_def)

lemma reserve_values_InrD:
  "reserve_values a = Inr (h, q, act, fp) \<Longrightarrow>
     h = py_strip (cr_host_id a) \<and> q = py_strip (cr_request_id a) \<and> act = py_strip (cr_action a)
     \<and> fp = py_strip (cr_canonical_fingerprint a) \<and> 1 \<le> cr_canonical_version a"
  by (auto simp: reserve_values_def Let_def split: if_splits option.splits json.splits)

definition args_key :: "command_args \<Rightarrow> ustr \<times> ustr" where
  "args_key a = (py_strip (cr_host_id a), py_strip (cr_request_id a))"

text \<open>What a fresh reservation or replay writes.\<close>

lemma insert_receipt_fresh:
  assumes "command_request_row db h q = None" "receipt_key row = (h, q)" "receipt_check row"
  shows "insert_receipt row db = Inr (db\<lparr>receipts := receipts db @ [row\<lparr>rc_id := receipt_seq db\<rparr>],
    receipt_seq := Suc (receipt_seq db)\<rparr>)"
  using assms by (simp add: insert_receipt_def checked_insert_def row_None_iff receipt_key_def receipt_check_def)

end
