(* ===== verification/ReceiptOps.thy ===== *)
theory ReceiptOps
  imports ReceiptContract
begin

text \<open>
  The operations of the protocol satisfy the contract: each lemma computes the
  state its operation leaves on a store in its invariant, and the interpretations
  at the end give every operation the locale's consequences.
\<close>

section \<open>The rows the transitions write\<close>

lemma row_updates [simp]:
  "rc_id (take_over_row oh oe pj cur r) = rc_id r"
  "rc_id (send_started_row b cur r) = rc_id r"
  "rc_id (queued_row j cur r) = rc_id r"
  "rc_id (terminal_row ts st j cur r) = rc_id r"
  "rc_state (take_over_row oh oe pj cur r) = rc_state r"
  "rc_state (send_started_row b cur r) = SendStarted"
  "rc_state (queued_row j cur r) = rc_state r"
  "rc_state (terminal_row ts st j cur r) = ts"
  "same_identity r (take_over_row oh oe pj cur r)"
  "same_identity r (send_started_row b cur r)"
  "same_identity r (queued_row j cur r)"
  "same_identity r (terminal_row ts st j cur r)"
  by (simp_all add: take_over_row_def send_started_row_def queued_row_def terminal_row_def
      same_identity_def)

lemma take_over_row_ok:
  "receipt_ok r \<Longrightarrow> rc_state r = Reserved \<Longrightarrow> oh \<noteq> [] \<Longrightarrow> receipt_ok (take_over_row oh oe pj cur r)"
  by (auto simp: receipt_ok_def receipt_check_def take_over_row_def)

lemma send_started_row_ok:
  "receipt_ok r \<Longrightarrow> rc_state r = Reserved \<Longrightarrow> receipt_ok (send_started_row b cur r)"
  by (auto simp: receipt_ok_def receipt_check_def send_started_row_def)

lemma queued_row_ok:
  "receipt_ok r \<Longrightarrow> rc_state r = SendStarted \<Longrightarrow> receipt_ok (queued_row j cur r)"
  by (auto simp: receipt_ok_def receipt_check_def queued_row_def)

text \<open>The status each terminal state requires.\<close>

definition terminal_status_ok :: "receipt_state \<Rightarrow> ustr \<Rightarrow> bool" where
  "terminal_status_ok ts st \<longleftrightarrow>
     (ts = Accepted \<and> st = status_accepted) \<or> (ts = Uncertain \<and> st = status_uncertain)
     \<or> (ts = Rejected \<and> st \<notin> {status_pending, status_accepted, status_uncertain})"

lemma terminal_row_ok:
  assumes "receipt_ok r" "active_state (rc_state r)" "terminal_status_ok ts st"
    and "ts = Accepted \<longrightarrow> rc_state r = SendStarted"
  shows "receipt_ok (terminal_row ts st j cur r)"
proof -
  have "0 \<le> rc_canonical_version r" "0 \<le> rc_legacy_collision_count r" "\<not> rc_legacy_collision r"
    "rc_state r = SendStarted \<longrightarrow> rc_send_started_at r \<noteq> None"
    using assms(1,2) by (simp_all add: receipt_ok_def receipt_check_def active_state_def) auto
  with assms(3,4) show ?thesis
    unfolding terminal_status_ok_def
    by (elim disjE conjE) (simp_all add: receipt_ok_def receipt_check_def terminal_row_def)
qed

lemma terminal_status_state: "terminal_status_ok ts st \<Longrightarrow> terminal_state ts"
  by (auto simp: terminal_status_ok_def)

lemma terminal_row_move:
  "active_state (rc_state r) \<Longrightarrow> terminal_status_ok ts st
    \<Longrightarrow> ts = Accepted \<longrightarrow> rc_state r = SendStarted \<Longrightarrow> receipt_move (Some r) (terminal_row ts st j cur r)"
  by (auto simp: active_state_def terminal_status_ok_def
      intro: receipt_move.mv_refuse receipt_move.mv_finish)

lemma ledger_ok_prepare [simp]: "ledger_ok (connect_prepare db) = ledger_ok db"
  by (simp add: ledger_ok_def)

text \<open>A guarded update of the row just read succeeds and changes that row only.\<close>

lemma guarded_update:
  assumes ok: "store_ok db" and row: "command_request_row db h q = Some r"
    and sel: "sel r" "\<And>x. sel x \<Longrightarrow> rc_id x = rc_id r"
    and f: "receipt_ok (f r)" "rc_id (f r) = rc_id r"
  shows "update_receipts sel f (connect_prepare db) =
      Inr (connect_prepare db\<lparr>receipts := put_receipt (f r) (receipts db)\<rparr>)"
    and "sql_rowcount sel (receipts db) = 1"
proof -
  note r = store_ok_row[OF ok row]
  have chk: "receipt_check (f r)" using f(1) by (simp add: receipt_ok_def)
  show "update_receipts sel f (connect_prepare db) =
      Inr (connect_prepare db\<lparr>receipts := put_receipt (f r) (receipts db)\<rparr>)"
    using update_receipts_single(1)[where sel = sel and f = f and db = "connect_prepare db" and r = r,
        unfolded connect_prepare_simps, OF r(5,1) sel chk f(2)] .
  show "sql_rowcount sel (receipts db) = 1"
    using sql_update_single(1)[where sel = sel, OF r(5,1) sel] .
qed

lemma new_receipt_simps [simp]:
  "receipt_key (new_receipt a (h, q, act, fp) ts st j oh oe ta cur) = (h, q)"
  "rc_state (new_receipt a (h, q, act, fp) ts st j oh oe ta cur) = ts"
  by (simp_all add: new_receipt_def receipt_key_def)

lemma with_id_simps [simp]:
  "receipt_key (s\<lparr>rc_id := n\<rparr>) = receipt_key s"
  "receipt_ok (s\<lparr>rc_id := n\<rparr>) = receipt_ok s"
  by (simp_all add: receipt_key_def receipt_ok_def receipt_check_def)

lemma new_receipt_ok:
  assumes "reserve_values a = Inr (h, q, act, fp)"
    and "(ts = Reserved \<and> st = status_pending \<and> oh \<noteq> [] \<and> oe \<noteq> None \<and> ta = None)
      \<or> (ts \<noteq> Accepted \<and> terminal_status_ok ts st \<and> oh = [] \<and> oe = None \<and> ta \<noteq> None)"
  shows "receipt_ok (new_receipt a (h, q, act, fp) ts st j oh oe ta cur)"
  using assms(2) reserve_values_InrD[OF assms(1)]
  by (auto simp: receipt_ok_def receipt_check_def new_receipt_def terminal_status_ok_def)

lemma insert_new_receipt:
  assumes ok: "store_ok db" and row: "command_request_row db h q = None"
    and s: "receipt_ok s" "receipt_key s = (h, q)"
  shows "insert_receipt s (connect_prepare db) = Inr (connect_prepare db\<lparr>receipts :=
    receipts db @ [s\<lparr>rc_id := receipt_seq db\<rparr>], receipt_seq := Suc (receipt_seq db)\<rparr>)"
  using insert_receipt_fresh[of "connect_prepare db" h q s] row s by (simp add: receipt_ok_def)

section \<open>Reserving\<close>

text \<open>Inserting a receipt and committing it.\<close>

lemma create_receipt:
  assumes ok: "store_ok db" and row: "command_request_row db h q = None"
    and s0: "receipt_ok s0" "receipt_key s0 = (h, q)" "rc_state s0 \<in> {Reserved, Rejected, Uncertain}"
    and s: "s = s0\<lparr>rc_id := receipt_seq db\<rparr>"
  obtains db1 db2 where "insert_receipt s0 (connect_prepare db) = Inr db1"
    "commit_transition E h q cur pl db1 = Inr (s, db2)" "contract (h, q) db db2"
    "receipt_map db2 = (receipt_map db)((h, q) := Some s)"
proof -
  let ?db1 = "connect_prepare db\<lparr>receipts := receipts db @ [s], receipt_seq := Suc (receipt_seq db)\<rparr>"
  have "insert_receipt s0 (connect_prepare db) = Inr ?db1"
    unfolding s by (rule insert_new_receipt[OF ok row s0(1,2)])
  moreover have "receipt_ok s" "receipt_key s = (h, q)" "rc_id s = receipt_seq (connect_prepare db)"
    "receipt_move None s"
    using s0 by (simp_all add: s receipt_move.mv_create)
  note app = commit_append[OF _ _ this, of ?db1, unfolded connect_prepare_simps contract_prepared,
      OF ok row]
  have "ledger_ok ?db1" using store_ok_ledger[OF ok] by (simp add: ledger_ok_def)
  ultimately show thesis using that app by simp
qed

lemma reserve_fresh:
  assumes ok: "store_ok db" and vals: "reserve_values a = Inr (h, q, act, fp)"
    and us: "0 < us" "us \<le> command_retry_horizon_seconds * second"
    and tok: "token_urlsafe E \<noteq> []"
    and row: "command_request_row db h q = None"
    and defs: "cur = command_request_now E now"
      "s0 = new_receipt a (h, q, act, fp) Reserved status_pending pending
         (owner_token_hash (token_urlsafe E)) (Some (command_request_add_seconds cur us)) None cur"
      "s = s0\<lparr>rc_id := receipt_seq db\<rparr>"
  shows "\<exists>db'. reserve_command_request E a pending (Some us) now db =
      Inr (command_request_response (Done Reserved) (Some s) (Some (token_urlsafe E)), db')
    \<and> contract (h, q) db db' \<and> receipt_map db' = (receipt_map db)((h, q) := Some s)"
proof -
  have s0: "receipt_ok s0" "receipt_key s0 = (h, q)" "rc_state s0 \<in> {Reserved, Rejected, Uncertain}"
    using tok by (simp_all add: defs(2) new_receipt_ok[OF vals])
  obtain db1 db2 where db: "insert_receipt s0 (connect_prepare db) = Inr db1"
    "commit_transition E h q cur None db1 = Inr (s, db2)" "contract (h, q) db db2"
    "receipt_map db2 = (receipt_map db)((h, q) := Some s)"
    by (rule create_receipt[OF ok row s0 defs(3)])
  have "reserve_command_request E a pending (Some us) now db =
      Inr (command_request_response (Done Reserved) (Some s) (Some (token_urlsafe E)), db2)"
    using us db(1,2) unfolding defs(2)
    by (simp add: reserve_command_request_def vals row Let_def defs(1)[symmetric])
  with db(3,4) show ?thesis by blast
qed

text \<open>Rewriting the receipt just read and committing it.\<close>

lemma rewrite_receipt:
  assumes ok: "store_ok db" and row: "command_request_row db h q = Some r"
    and s: "receipt_ok s" "receipt_move (Some r) s"
    and dbw: "receipts dbw = put_receipt s (receipts db)" "receipt_seq dbw = receipt_seq db"
      "commands dbw = commands db" "ledger_ok dbw"
  obtains db2 where "commit_transition E h q cur pl dbw = Inr (s, db2)" "contract (h, q) db db2"
    "receipt_map db2 = (receipt_map db)((h, q) := Some s)" "submissions db2 = submissions dbw"
  using that commit_put[OF assms, of E cur pl] by simp

definition may_take_over ::
  "receipt \<Rightarrow> command_args \<Rightarrow> ustr \<Rightarrow> ustr \<Rightarrow> time \<Rightarrow> bool" where
  "may_take_over r a act fp cur \<longleftrightarrow>
     \<not> rc_legacy_collision r
     \<and> canonical_request_matches r act (cr_canonical_version a) fp
         (cr_canonical_request_json a) (cr_public_worker_id a) (cr_legacy_fingerprint a)
     \<and> rc_state r = Reserved
     \<and> \<not> (case rc_owner_expires_at r of None \<Rightarrow> False | Some e \<Rightarrow> cur < e)"

lemma reserve_takeover:
  assumes ok: "store_ok db" and vals: "reserve_values a = Inr (h, q, act, fp)"
    and us: "0 < us" "us \<le> command_retry_horizon_seconds * second"
    and tok: "token_urlsafe E \<noteq> []"
    and row: "command_request_row db h q = Some r"
    and cur: "cur = command_request_now E now"
    and may: "may_take_over r a act fp cur"
    and s: "s = take_over_row (owner_token_hash (token_urlsafe E))
       (command_request_add_seconds cur us) pending cur r"
  shows "\<exists>db'. reserve_command_request E a pending (Some us) now db =
      Inr (command_request_response (Done Reserved) (Some s) (Some (token_urlsafe E)), db')
    \<and> contract (h, q) db db' \<and> receipt_map db' = (receipt_map db)((h, q) := Some s)"
proof -
  note r = store_ok_row[OF ok row]
  have res: "rc_state r = Reserved" using may by (simp add: may_take_over_def)
  let ?sel = "\<lambda>x. rc_id x = rc_id r \<and> rc_state x = Reserved"
  have s_ok: "receipt_ok s" "receipt_move (Some r) s"
    using tok take_over_row_ok[OF r(2) res] res by (simp_all add: s receipt_move.mv_reserved)
  have upd: "update_receipts ?sel (take_over_row (owner_token_hash (token_urlsafe E))
        (command_request_add_seconds cur us) pending cur) (connect_prepare db)
      = Inr (connect_prepare db\<lparr>receipts := put_receipt s (receipts db)\<rparr>)"
    "sql_rowcount ?sel (receipts db) = 1"
    using guarded_update[OF ok row, of ?sel "take_over_row (owner_token_hash (token_urlsafe E))
        (command_request_add_seconds cur us) pending cur"] res s_ok by (simp_all add: s)
  obtain db2 where db: "commit_transition E h q cur None
      (connect_prepare db\<lparr>receipts := put_receipt s (receipts db)\<rparr>) = Inr (s, db2)"
    "contract (h, q) db db2" "receipt_map db2 = (receipt_map db)((h, q) := Some s)"
    by (rule rewrite_receipt[OF ok row s_ok,
          of "connect_prepare db\<lparr>receipts := put_receipt s (receipts db)\<rparr>" E cur None])
       (use store_ok_ledger[OF ok] in \<open>simp_all add: ledger_ok_def\<close>)
  have "reserve_command_request E a pending (Some us) now db =
      Inr (command_request_response (Done Reserved) (Some s) (Some (token_urlsafe E)), db2)"
    using us may upd db(1) unfolding may_take_over_def
    by (simp add: reserve_command_request_def vals row Let_def cur[symmetric])
  with db(2,3) show ?thesis by blast
qed

text \<open>Every other reservation answers from the row it finds and writes nothing.\<close>

definition reserve_refusal :: "receipt \<Rightarrow> command_args \<Rightarrow> ustr \<Rightarrow> ustr \<Rightarrow> verdict" where
  "reserve_refusal r a act fp =
     (if rc_legacy_collision r then Terminal
      else if \<not> canonical_request_matches r act (cr_canonical_version a) fp
         (cr_canonical_request_json a) (cr_public_worker_id a) (cr_legacy_fingerprint a)
      then RequestIdConflict
      else if terminal_state (rc_state r) then Terminal else InProgress)"

lemma reserve_refused:
  assumes vals: "reserve_values a = Inr (h, q, act, fp)"
    and us: "0 < us" "us \<le> command_retry_horizon_seconds * second"
    and row: "command_request_row db h q = Some r"
    and no: "\<not> may_take_over r a act fp (command_request_now E now)"
  shows "reserve_command_request E a pending (Some us) now db =
    Inr (command_request_response (reserve_refusal r a act fp) (Some r) None, connect_prepare db)"
proof (cases "rc_state r = Reserved")
  case True
  with us no show ?thesis
    by (auto simp: reserve_command_request_def vals row Let_def may_take_over_def reserve_refusal_def)
next
  case False
  with us show ?thesis
    by (simp add: reserve_command_request_def vals row Let_def reserve_refusal_def active_iff[symmetric]
        active_state_def)
qed

lemma reserve_raises:
  assumes "reserve_command_request E a pending lease now db = Inr x"
  obtains h q act fp us where "reserve_values a = Inr (h, q, act, fp)" "lease = Some us"
    "0 < us" "us \<le> command_retry_horizon_seconds * second"
  using assms
  by (auto simp: reserve_command_request_def bind_result_eq_Inr split: option.splits if_splits)


text \<open>An empty token could never own a row: the table refuses its empty hash.\<close>

lemma reserve_empty_token:
  assumes "store_ok db" "reserve_values a = Inr (h, q, act, fp)" "token_urlsafe E = []"
    and "reserve_command_request E a pending (Some us) now db = Inr (resp, db')"
  shows "db' = connect_prepare db"
proof (cases "command_request_row db h q")
  case None
  have "insert_receipt (new_receipt a (h, q, act, fp) Reserved status_pending pending
      [] oe None cur) (connect_prepare db) = Inl IntegrityError" for oe cur
    by (simp add: insert_receipt_def checked_insert_def receipt_check_def new_receipt_def)
  with assms None show ?thesis
    by (auto simp: reserve_command_request_def Let_def owner_token_hash_def split: if_splits)
next
  case (Some r)
  note r = store_ok_row[OF assms(1) Some]
  let ?f = "\<lambda>oe cur. take_over_row [] oe pending cur"
  have "update_receipts (\<lambda>x. rc_id x = rc_id r \<and> rc_state x = Reserved) (?f oe cur) (connect_prepare db)
      = Inl IntegrityError" if "rc_state r = Reserved" for oe cur
    using r(1) that
    by (auto simp: update_receipts_def checked_update_def list_all_iff receipt_check_def take_over_row_def
        intro!: bexI[of _ r])
  with assms Some show ?thesis
    by (cases "rc_state r") (auto simp: reserve_command_request_def Let_def owner_token_hash_def split: if_splits)
qed

lemma reserve_contract:
  assumes ok: "store_ok db"
    and res: "reserve_command_request E a pending lease now db = Inr (resp :: 'b response, db')"
  shows "contract (args_key a) db db'"
proof -
  obtain h q act fp us where v: "reserve_values a = Inr (h, q, act, fp)" and l: "lease = Some us"
    and us: "0 < us" "us \<le> command_retry_horizon_seconds * second"
    by (rule reserve_raises[OF res])
  have key: "args_key a = (h, q)" using reserve_values_InrD[OF v] by (simp add: args_key_def)
  show ?thesis
  proof (cases "token_urlsafe E = []")
    case True
    then have "db' = connect_prepare db" using reserve_empty_token[OF ok v True] res l by blast
    then show ?thesis using ok by simp
  next
    case tok: False
    show ?thesis
    proof (cases "command_request_row db h q")
      case None
      obtain resp0 d where "reserve_command_request E a pending (Some us) now db = Inr (resp0 :: 'b response, d)"
        "contract (h, q) db d"
        using reserve_fresh[OF ok v us tok None refl refl refl] by blast
      then show ?thesis using res l key by simp
    next
      case (Some r)
      show ?thesis
      proof (cases "may_take_over r a act fp (command_request_now E now)")
        case True
        obtain resp0 d where "reserve_command_request E a pending (Some us) now db = Inr (resp0 :: 'b response, d)"
          "contract (h, q) db d"
          using reserve_takeover[OF ok v us tok Some refl True refl] by blast
        then show ?thesis using res l key by simp
      next
        case False
        then have "db' = connect_prepare db" using res l by (simp add: reserve_refused[OF v us Some False])
        then show ?thesis using ok by simp
      qed
    qed
  qed
qed

section \<open>Abandoning and replaying\<close>

text \<open>
  Abandoning moves the deadline of the row without projecting it, so the audit row
  keeps the \<open>updated_at\<close> of the last transition.
\<close>

definition abandoned_row :: "time \<Rightarrow> receipt \<Rightarrow> receipt" where
  "abandoned_row current r = r\<lparr>rc_owner_expires_at := Some current, rc_updated_at := current\<rparr>"

lemma abandoned_row_simps [simp]:
  "rc_id (abandoned_row cur r) = rc_id r" "receipt_key (abandoned_row cur r) = receipt_key r"
  "rc_state (abandoned_row cur r) = rc_state r" "same_identity r (abandoned_row cur r)"
  by (simp_all add: abandoned_row_def receipt_key_def same_identity_def)

lemma mirrors_abandoned: "mirrors c r \<Longrightarrow> mirrors c (abandoned_row cur r)"
proof -
  assume "mirrors c r"
  then have "c\<lparr>cm_updated_at := rc_updated_at r\<rparr>\<lparr>cm_updated_at := cur\<rparr> = (audit_row r)\<lparr>cm_updated_at := cur\<rparr>"
    by (simp add: mirrors_def)
  then show ?thesis by (simp add: mirrors_def abandoned_row_def audit_row_def)
qed

lemma store_ok_abandoned:
  assumes ok: "store_ok db" and r: "r \<in> set (receipts db)" "rc_state r = Reserved"
  shows "store_ok (db\<lparr>receipts := put_receipt (abandoned_row cur r) (receipts db)\<rparr>)"
proof -
  let ?s = "abandoned_row cur r"
  have u: "unique_key rc_id (receipts db)" using ok by (simp add: store_ok_def)
  note in_put = in_put_receipt[OF u r(1), of ?s, simplified]
  note map_put = map_put_receipt[OF u r(1), of ?s, simplified]
  have "receipt_ok ?s"
    using ok r by (auto simp: store_ok_def list_all_iff receipt_ok_def receipt_check_def abandoned_row_def)
  moreover have "list_ex (\<lambda>c. mirrors c ?s) (commands db)"
    using ok r(1) mirrors_abandoned by (auto simp: store_ok_def list_all_iff list_ex_iff) blast
  ultimately show ?thesis
    using ok r(1) map_put[of rc_id] map_put[of receipt_key]
    by (auto simp: store_ok_def unique_key_def in_put list_all_iff)
qed

lemma abandon_contract:
  assumes ok: "store_ok db"
    and res: "abandon_command_request_reservation E h q fp tok now db = Inr (b, db')"
  shows "contract (h, q) db db'"
proof -
  let ?cur = "command_request_now E now"
  let ?sel = "\<lambda>r. rc_host_id r = h \<and> rc_request_id r = q \<and> rc_canonical_fingerprint r = fp
    \<and> rc_state r = Reserved \<and> rc_owner_token_hash r = owner_token_hash tok"
  have db': "db' = db \<or> db' = db\<lparr>receipts := sql_update ?sel (abandoned_row ?cur) (receipts db)\<rparr>"
    using res unfolding abandoned_row_def
    by (auto simp: abandon_command_request_reservation_def update_receipts_def
          checked_update_def bind_result_eq_Inr Let_def split: if_splits)
  show ?thesis
  proof (cases "\<exists>r \<in> set (receipts db). ?sel r")
    case False
    then have "sql_update ?sel (abandoned_row ?cur) (receipts db) = receipts db"
      by (intro sql_update_id) auto
    with db' show ?thesis using contract_refl[OF ok] by auto
  next
    case True
    then obtain r where r: "r \<in> set (receipts db)" "?sel r" by blast
    have u: "unique_key rc_id (receipts db)" "unique_key receipt_key (receipts db)"
      using ok by (simp_all add: store_ok_def)
    have "?sel x \<longleftrightarrow> rc_id x = rc_id r" if "x \<in> set (receipts db)" for x
      using unique_keyD[OF u(2) that r(1)] unique_keyD[OF u(1) that r(1)] r(2)
      by (auto simp: receipt_key_def)
    then have upd: "sql_update ?sel (abandoned_row ?cur) (receipts db) = put_receipt (abandoned_row ?cur r) (receipts db)"
      using unique_keyD[OF u(1) _ r(1)] unfolding put_receipt_def abandoned_row_simps
      by (intro sql_update_cong_set) auto
    let ?d = "db\<lparr>receipts := put_receipt (abandoned_row ?cur r) (receipts db)\<rparr>"
    have key: "receipt_key r = (h, q)" using r(2) by (simp add: receipt_key_def)
    have map: "receipt_map ?d = (receipt_map db)((h, q) := Some (abandoned_row ?cur r))"
      using fetchone_put_receipt[OF u r(1), of "abandoned_row ?cur r"] key
      by (auto simp: receipt_map_def row_key_eq fun_eq_iff)
    have "receipt_map db (h, q) = Some r"
      using fetchone_unique[OF u(2) r(1)] key by (simp add: receipt_map_def row_key_eq)
    moreover have "receipt_move (Some r) (abandoned_row ?cur r)"
      using r(2) by (intro receipt_move.mv_reserved) simp_all
    ultimately have "contract (h, q) db ?d"
      using map store_ok_abandoned[OF ok r(1)] r(2) unfolding contract_def by auto
    with db' upd show ?thesis using contract_refl[OF ok] by auto
  qed
qed

lemma replay_contract:
  assumes ok: "store_ok db"
    and res: "reserve_terminal_command_replay E a ts st j pl now db = Inr (resp, db')"
  shows "contract (args_key a) db db'"
proof -
  obtain h q act fp where v: "reserve_values a = Inr (h, q, act, fp)"
    using res by (auto simp: reserve_terminal_command_replay_def bind_result_eq_Inr)
  have key: "args_key a = (h, q)" using reserve_values_InrD[OF v] by (simp add: args_key_def)
  have st: "terminal_status_ok ts st" "ts \<in> {Rejected, Uncertain}"
    using res v by (auto simp: reserve_terminal_command_replay_def terminal_status_ok_def split: if_splits)
  show ?thesis
  proof (cases "command_request_row db h q")
    case (Some r)
    then have "db' = connect_prepare db"
      using res v by (auto simp: reserve_terminal_command_replay_def Let_def split: if_splits)
    then show ?thesis using ok by simp
  next
    case None
    let ?cur = "command_request_now E now"
    let ?s = "new_receipt a (h, q, act, fp) ts st j [] None (Some ?cur) ?cur"
    have s: "receipt_ok ?s" "receipt_key ?s = (h, q)" "rc_state ?s \<in> {Reserved, Rejected, Uncertain}"
      using st new_receipt_ok[OF v, of ts st] by auto
    obtain db1 db2 where "insert_receipt ?s (connect_prepare db) = Inr db1"
      "commit_transition E h q ?cur pl db1 = Inr (?s\<lparr>rc_id := receipt_seq db\<rparr>, db2)"
      "contract (h, q) db db2"
      by (rule create_receipt[OF ok None s refl])
    moreover from this have "db' = db2"
      using res v None by (auto simp: reserve_terminal_command_replay_def Let_def split: if_splits)
    ultimately show ?thesis using key by simp
  qed
qed

section \<open>Starting the send\<close>

lemma run_effect_InrD:
  "run_effect effect db = Inr (e, db') \<Longrightarrow> \<exists>p. db' = db\<lparr>other_tables := p\<rparr>"
proof (cases effect)
  case None
  assume "run_effect effect db = Inr (e, db')"
  with None have "db' = db\<lparr>other_tables := other_tables db\<rparr>" by (simp add: run_effect_def)
  then show ?thesis by blast
qed (auto simp: run_effect_def bind_result_eq_Inr)

definition may_start :: "receipt \<Rightarrow> ustr \<Rightarrow> ustr \<Rightarrow> bool" where
  "may_start r fp tok \<longleftrightarrow> rc_canonical_fingerprint r = fp \<and> rc_state r = Reserved
     \<and> owns r (owner_token_hash tok)"

text \<open>What a successful send-start leaves, and that nothing else writes.\<close>

lemma mark_refused:
  assumes res: "mark_command_send_started E h q fp tok binding pl effect w txt lw ht now db = Inr (resp, db')"
    and no: "\<not> (\<exists>r. command_request_row db h q = Some r \<and> may_start r fp tok)"
  shows "db' = connect_prepare db \<and> rs_status resp \<noteq> Done SendStarted"
proof (cases "command_request_row db h q")
  case None
  with res show ?thesis by (auto simp: mark_command_send_started_def Let_def split: if_splits)
next
  case (Some r)
  with no have "\<not> may_start r fp tok" by blast
  with res Some show ?thesis
    by (auto simp: mark_command_send_started_def Let_def may_start_def split: if_splits)
qed

lemma mark_started:
  assumes ok: "store_ok db" and row: "command_request_row db h q = Some r" and may: "may_start r fp tok"
    and cur: "cur = command_request_now E now" and s: "s = send_started_row binding cur r"
    and res: "mark_command_send_started E h q fp tok binding pl effect w txt lw ht now db = Inr (resp, db')"
  shows "contract (h, q) db db' \<and> receipt_map db' = (receipt_map db)((h, q) := Some s)
    \<and> rs_status resp = Done SendStarted \<and> rs_owner_token resp = Some tok"
proof -
  note r = store_ok_row[OF ok row]
  have res': "rc_state r = Reserved" "rc_canonical_fingerprint r = fp" "owns r (owner_token_hash tok)"
    using may by (simp_all add: may_start_def)
  let ?sel = "\<lambda>x. rc_id x = rc_id r \<and> rc_state x = Reserved \<and> rc_canonical_fingerprint x = fp
    \<and> rc_owner_token_hash x = owner_token_hash tok"
  have s_ok: "receipt_ok s" "receipt_move (Some r) s"
    using send_started_row_ok[OF r(2) res'(1)] res'(1) by (simp_all add: s receipt_move.mv_start)
  let ?db1 = "connect_prepare db\<lparr>receipts := put_receipt s (receipts db)\<rparr>"
  have upd: "update_receipts ?sel (send_started_row binding cur) (connect_prepare db) = Inr ?db1"
    "sql_rowcount ?sel (receipts db) = 1"
    using guarded_update[OF ok row, of ?sel "send_started_row binding cur"] res' s_ok
    by (simp_all add: s owns_def)
  obtain sid db2 e db3 r2 db4 where
    sub: "(case (w, txt) of (Some w, Some txt) \<Rightarrow>
        bind_result (insert_turn_submission h q w txt cur lw ht ?db1) (\<lambda>(sid, db2). Inr (Some sid, db2))
      | _ \<Rightarrow> Inr (None, ?db1)) = Inr (sid, db2)"
    and eff: "run_effect effect db2 = Inr (e, db3)"
    and com: "commit_transition E h q cur pl db3 = Inr (r2, db4)"
    and out: "db' = db4" "rs_status resp = Done SendStarted" "rs_owner_token resp = Some tok"
    using res upd row res'
    by (auto simp: mark_command_send_started_def Let_def cur[symmetric] bind_result_eq_Inr
        split: if_splits)
  have led1: "ledger_ok ?db1" using store_ok_ledger[OF ok] by (simp add: ledger_ok_def)
  have "ledger_ok db2 \<and> receipts db2 = receipts ?db1 \<and> receipt_seq db2 = receipt_seq ?db1
    \<and> commands db2 = commands ?db1"
  proof (cases "w \<noteq> None \<and> txt \<noteq> None")
    case True
    then obtain w1 t1 sid1 where "insert_turn_submission h q w1 t1 cur lw ht ?db1 = Inr (sid1, db2)"
      using sub by (auto simp: bind_result_eq_Inr)
    from insert_submission_ledger[OF led1 this] show ?thesis by auto
  next
    case False
    then have "db2 = ?db1" using sub by (auto split: option.splits)
    then show ?thesis using led1 by simp
  qed
  then have db3: "receipts db3 = put_receipt s (receipts db)" "receipt_seq db3 = receipt_seq db"
    "commands db3 = commands db" "ledger_ok db3"
    using run_effect_InrD[OF eff] by (auto simp: ledger_ok_def)
  obtain dbc where "commit_transition E h q cur pl db3 = Inr (s, dbc)" "contract (h, q) db dbc"
    "receipt_map dbc = (receipt_map db)((h, q) := Some s)"
    by (rule rewrite_receipt[OF ok row s_ok db3])
  with com out show ?thesis by auto
qed

lemma mark_contract:
  assumes ok: "store_ok db"
    and res: "mark_command_send_started E h q fp tok binding pl effect w txt lw ht now db = Inr (resp, db')"
  shows "contract (h, q) db db'"
  using mark_started[OF ok _ _ refl refl res] mark_refused[OF res] ok by fastforce

section \<open>Queued sends\<close>

definition may_queue :: "receipt \<Rightarrow> ustr \<Rightarrow> ustr \<Rightarrow> bool" where
  "may_queue r fp tok \<longleftrightarrow> rc_canonical_fingerprint r = fp \<and> rc_state r = SendStarted
     \<and> owns r (owner_token_hash tok)"

lemma queue_refused:
  assumes res: "record_command_send_queued E h q fp tok j pl now db = Inr (resp, db')"
    and no: "\<not> (\<exists>r. command_request_row db h q = Some r \<and> may_queue r fp tok)"
  shows "db' = connect_prepare db \<and> rs_status resp \<noteq> Queued"
proof (cases "command_request_row db h q")
  case None
  with res show ?thesis by (auto simp: record_command_send_queued_def Let_def split: if_splits)
next
  case (Some r)
  with no have "\<not> may_queue r fp tok" by blast
  with res Some show ?thesis
    by (auto simp: record_command_send_queued_def Let_def may_queue_def split: if_splits)
qed

lemma queue_recorded:
  assumes ok: "store_ok db" and row: "command_request_row db h q = Some r" and may: "may_queue r fp tok"
    and cur: "cur = command_request_now E now" and s: "s = queued_row j cur r"
    and res: "record_command_send_queued E h q fp tok j pl now db = Inr (resp, db')"
  shows "contract (h, q) db db' \<and> receipt_map db' = (receipt_map db)((h, q) := Some s)
    \<and> rs_status resp = Queued"
proof -
  note r = store_ok_row[OF ok row]
  have res': "rc_state r = SendStarted" "rc_canonical_fingerprint r = fp" "owns r (owner_token_hash tok)"
    using may by (simp_all add: may_queue_def)
  let ?sel = "\<lambda>x. rc_id x = rc_id r \<and> rc_state x = SendStarted \<and> rc_canonical_fingerprint x = fp
    \<and> rc_owner_token_hash x = owner_token_hash tok"
  let ?lsel = "\<lambda>x. ts_host_id x = h \<and> ts_request_id x = q \<and> (ts_state x = LSendStarted \<or> ts_state x = LLinked)"
  have s_ok: "receipt_ok s" "receipt_move (Some r) s"
    using queued_row_ok[OF r(2) res'(1)] res'(1) by (simp_all add: s receipt_move.mv_queue)
  let ?db1 = "connect_prepare db\<lparr>receipts := put_receipt s (receipts db)\<rparr>"
  let ?db2 = "?db1\<lparr>submissions := sql_update ?lsel (queue_submission cur) (submissions ?db1)\<rparr>"
  have upd: "update_receipts ?sel (queued_row j cur) (connect_prepare db) = Inr ?db1"
    "sql_rowcount ?sel (receipts db) = 1"
    using guarded_update[OF ok row, of ?sel "queued_row j cur"] res' s_ok
    by (simp_all add: s owns_def)
  have "ledger_ok ?db1" using store_ok_ledger[OF ok] by (simp add: ledger_ok_def)
  then have "ledger_ok ?db2"
    by (rule ledger_ok_update) (simp_all add: queue_submission_def submission_key_def submission_id_key_def)
  then obtain dbc where c: "commit_transition E h q cur pl ?db2 = Inr (s, dbc)" "contract (h, q) db dbc"
    "receipt_map dbc = (receipt_map db)((h, q) := Some s)"
    by (rule rewrite_receipt[OF ok row s_ok, rotated 3]) simp_all
  then have "db' = dbc \<and> rs_status resp = Queued"
    using res upd row res'
    by (auto simp: record_command_send_queued_def Let_def cur[symmetric] split: if_splits)
  with c show ?thesis by simp
qed

lemma queue_contract:
  assumes ok: "store_ok db"
    and res: "record_command_send_queued E h q fp tok j pl now db = Inr (resp, db')"
  shows "contract (h, q) db db'"
  using queue_recorded[OF ok _ _ refl refl res] queue_refused[OF res] ok by fastforce

section \<open>Resolving a send without its owner\<close>

definition pending_send :: "receipt \<Rightarrow> ustr \<Rightarrow> ustr \<Rightarrow> bool" where
  "pending_send r fp expected_json \<longleftrightarrow> rc_canonical_fingerprint r = fp \<and> rc_state r = SendStarted
     \<and> rc_status r = status_pending \<and> rc_result_json r = expected_json"

lemma resolve_pending:
  assumes ok: "store_ok db" and row: "command_request_row db h q = Some r"
    and p: "pending_send r fp ej" and st: "terminal_status_ok ts st"
    and s: "s = terminal_row ts st j cur r"
  shows "resolve_pending_send r fp ts st ej j cur (connect_prepare db) =
      Inr (Some (connect_prepare db\<lparr>receipts := put_receipt s (receipts db)\<rparr>))"
    and "receipt_ok s" "receipt_move (Some r) s"
proof -
  note r = store_ok_row[OF ok row]
  have ss: "rc_state r = SendStarted" using p by (simp add: pending_send_def)
  show s_ok: "receipt_ok s" "receipt_move (Some r) s"
    unfolding s using r(2) ss st by (auto intro: terminal_row_ok terminal_row_move)
  let ?sel = "\<lambda>x. rc_id x = rc_id r \<and> rc_state x = SendStarted \<and> rc_canonical_fingerprint x = fp
    \<and> rc_status x = status_pending \<and> rc_result_json x = ej"
  have "update_receipts ?sel (terminal_row ts st j cur) (connect_prepare db) =
      Inr (connect_prepare db\<lparr>receipts := put_receipt s (receipts db)\<rparr>)"
    "sql_rowcount ?sel (receipts db) = 1"
    using guarded_update[OF ok row, of ?sel "terminal_row ts st j cur"] p s_ok
    by (simp_all add: s pending_send_def)
  then show "resolve_pending_send r fp ts st ej j cur (connect_prepare db) =
      Inr (Some (connect_prepare db\<lparr>receipts := put_receipt s (receipts db)\<rparr>))"
    by (simp add: resolve_pending_send_def)
qed

text \<open>The turn a queued request was proven to have become.\<close>

definition linked_submission :: "'p store \<Rightarrow> ustr \<Rightarrow> ustr \<Rightarrow> bool" where
  "linked_submission db h q \<longleftrightarrow> (\<exists>s \<in> set (submissions db). ts_host_id s = h \<and> ts_request_id s = q
     \<and> ts_state s = LLinked \<and> ts_linked_turn_id s \<noteq> None)"

lemma finish_queued_cases:
  assumes ok: "store_ok db"
    and res: "finish_queued_command_request E h q fp qj aj pl now db = Inr (resp, db')"
  shows "(\<exists>r. command_request_row db h q = Some r \<and> pending_send r fp qj \<and> linked_submission db h q
      \<and> contract (h, q) db db'
      \<and> receipt_map db' = (receipt_map db)((h, q) := Some (terminal_row Accepted status_accepted aj
           (command_request_now E now) r))
      \<and> submissions db' = submissions db \<and> rs_status resp = Done Accepted)
    \<or> (\<not> (\<exists>r. command_request_row db h q = Some r \<and> pending_send r fp qj \<and> linked_submission db h q)
      \<and> db' = connect_prepare db \<and> rs_status resp \<noteq> Done Accepted)"
proof (cases "\<exists>r. command_request_row db h q = Some r \<and> pending_send r fp qj \<and> linked_submission db h q")
  case False
  then show ?thesis using res
    by (cases "command_request_row db h q")
      (auto simp: finish_queued_command_request_def Let_def pending_send_def linked_submission_def
        fetchone_None_iff split: if_splits)
next
  case True
  then obtain r where row: "command_request_row db h q = Some r" and p: "pending_send r fp qj"
    and l: "linked_submission db h q" by blast
  let ?cur = "command_request_now E now"
  let ?s = "terminal_row Accepted status_accepted aj ?cur r"
  have st: "terminal_status_ok Accepted status_accepted" by (simp add: terminal_status_ok_def)
  note rp = resolve_pending[OF ok row p st refl, of aj ?cur]
  obtain dbc where c: "commit_transition E h q ?cur pl (connect_prepare db\<lparr>receipts := put_receipt ?s (receipts db)\<rparr>)
      = Inr (?s, dbc)" "contract (h, q) db dbc" "receipt_map dbc = (receipt_map db)((h, q) := Some ?s)"
    "submissions dbc = submissions (connect_prepare db\<lparr>receipts := put_receipt ?s (receipts db)\<rparr>)"
    by (rule rewrite_receipt[OF ok row rp(2,3), of "connect_prepare db\<lparr>receipts := put_receipt ?s (receipts db)\<rparr>"])
      (use store_ok_ledger[OF ok] in \<open>simp_all add: ledger_ok_def\<close>)
  have "\<not> sql_fetchone (\<lambda>s. ts_host_id s = h \<and> ts_request_id s = q
                    \<and> ts_state s = LLinked \<and> ts_linked_turn_id s \<noteq> None) (submissions db) = None"
    using l unfolding fetchone_None_iff linked_submission_def by blast
  then have "db' = dbc \<and> rs_status resp = Done Accepted"
    using res row p rp(1) c(1) by (auto simp: finish_queued_command_request_def Let_def pending_send_def)
  with c row p l show ?thesis by auto
qed

text \<open>The ledger no longer lets a queued request be verified.\<close>

definition unverifiable_submission :: "'p store \<Rightarrow> ustr \<Rightarrow> ustr \<Rightarrow> bool" where
  "unverifiable_submission db h q \<longleftrightarrow> (\<exists>s. submission_row db h q = Some s
     \<and> ts_state s \<in> {LAmbiguous, LExpired} \<and> ts_linked_turn_id s = None)"

lemma finish_unverified_cases:
  assumes ok: "store_ok db"
    and res: "finish_unverified_queued_command_request E h q fp qj uj pl now db = Inr (resp, db')"
  shows "(\<exists>r. command_request_row db h q = Some r \<and> pending_send r fp qj \<and> unverifiable_submission db h q
      \<and> contract (h, q) db db'
      \<and> receipt_map db' = (receipt_map db)((h, q) := Some (terminal_row Uncertain status_uncertain uj
           (command_request_now E now) r))
      \<and> rs_status resp = Done Uncertain)
    \<or> (\<not> (\<exists>r. command_request_row db h q = Some r \<and> pending_send r fp qj \<and> unverifiable_submission db h q)
      \<and> db' = connect_prepare db \<and> rs_status resp \<noteq> Done Uncertain)"
proof (cases "\<exists>r. command_request_row db h q = Some r \<and> pending_send r fp qj \<and> unverifiable_submission db h q")
  case False
  then show ?thesis using res
    by (cases "command_request_row db h q"; cases "submission_row db h q")
      (auto simp: finish_unverified_queued_command_request_def Let_def pending_send_def
        unverifiable_submission_def split: if_splits)
next
  case True
  then obtain r where row: "command_request_row db h q = Some r" and p: "pending_send r fp qj"
    and l: "unverifiable_submission db h q" by blast
  let ?cur = "command_request_now E now"
  let ?s = "terminal_row Uncertain status_uncertain uj ?cur r"
  have st: "terminal_status_ok Uncertain status_uncertain" by (simp add: terminal_status_ok_def)
  note rp = resolve_pending[OF ok row p st refl, of uj ?cur]
  obtain dbc where c: "commit_transition E h q ?cur pl (connect_prepare db\<lparr>receipts := put_receipt ?s (receipts db)\<rparr>)
      = Inr (?s, dbc)" "contract (h, q) db dbc" "receipt_map dbc = (receipt_map db)((h, q) := Some ?s)"
    by (rule rewrite_receipt[OF ok row rp(2,3), of "connect_prepare db\<lparr>receipts := put_receipt ?s (receipts db)\<rparr>"])
      (use store_ok_ledger[OF ok] in \<open>simp_all add: ledger_ok_def\<close>)
  have "db' = dbc \<and> rs_status resp = Done Uncertain"
    using res row p l rp(1) c(1)
    by (auto simp: finish_unverified_queued_command_request_def Let_def pending_send_def
        unverifiable_submission_def)
  with c row p l show ?thesis by auto
qed

lemma finish_queued_contract:
  assumes "store_ok db" "finish_queued_command_request E h q fp qj aj pl now db = Inr (resp, db')"
  shows "contract (h, q) db db'"
  using finish_queued_cases[OF assms] assms(1) by auto

lemma finish_unverified_contract:
  assumes "store_ok db" "finish_unverified_queued_command_request E h q fp qj uj pl now db = Inr (resp, db')"
  shows "contract (h, q) db db'"
  using finish_unverified_cases[OF assms] assms(1) by auto

text \<open>A send-start whose owner's lease has passed may be recovered.\<close>

definition lease_expired :: "receipt \<Rightarrow> time \<Rightarrow> bool" where
  "lease_expired r cur \<longleftrightarrow> (\<exists>e. rc_owner_expires_at r = Some e \<and> e \<le> cur)"

lemma recover_cases:
  assumes ok: "store_ok db"
    and res: "recover_unresolved_command_send E h q fp qj uj pl now db = Inr (resp, db')"
  shows "(\<exists>r. command_request_row db h q = Some r \<and> pending_send r fp qj
      \<and> lease_expired r (command_request_now E now) \<and> contract (h, q) db db'
      \<and> receipt_map db' = (receipt_map db)((h, q) := Some (terminal_row Uncertain status_uncertain uj
           (command_request_now E now) r))
      \<and> rs_status resp = Done Uncertain)
    \<or> (\<not> (\<exists>r. command_request_row db h q = Some r \<and> pending_send r fp qj
           \<and> lease_expired r (command_request_now E now))
      \<and> db' = connect_prepare db \<and> rs_status resp \<noteq> Done Uncertain)"
proof (cases "\<exists>r. command_request_row db h q = Some r \<and> pending_send r fp qj
    \<and> lease_expired r (command_request_now E now)")
  case False
  then show ?thesis using res
    by (cases "command_request_row db h q")
      (auto simp: recover_unresolved_command_send_def Let_def pending_send_def
        lease_expired_def not_le split: if_splits option.splits)
next
  case True
  let ?cur = "command_request_now E now"
  from True obtain r where row: "command_request_row db h q = Some r" and p: "pending_send r fp qj"
    and l: "lease_expired r ?cur" by blast
  let ?s = "terminal_row Uncertain status_uncertain uj ?cur r"
  let ?db1 = "connect_prepare db\<lparr>receipts := put_receipt ?s (receipts db)\<rparr>"
  have st: "terminal_status_ok Uncertain status_uncertain" by (simp add: terminal_status_ok_def)
  note rp = resolve_pending[OF ok row p st refl, of uj ?cur]
  have "ledger_ok ?db1" using store_ok_ledger[OF ok] by (simp add: ledger_ok_def)
  then obtain b db2 where t: "terminalize_turn_submission h q Uncertain ?cur ?db1 = Inr (b, db2)"
    "ledger_ok db2" "receipts db2 = put_receipt ?s (receipts db)" "receipt_seq db2 = receipt_seq db"
    "commands db2 = commands db"
    using terminalize_total[of ?db1 h q Uncertain ?cur] by auto
  obtain dbc where c: "commit_transition E h q ?cur pl db2 = Inr (?s, dbc)" "contract (h, q) db dbc"
    "receipt_map dbc = (receipt_map db)((h, q) := Some ?s)"
    by (rule rewrite_receipt[OF ok row rp(2,3) t(3-5,2)])
  have "db' = dbc \<and> rs_status resp = Done Uncertain"
    using res row p l rp(1) t(1) c(1)
    by (auto simp: recover_unresolved_command_send_def Let_def pending_send_def lease_expired_def)
  with c row p l show ?thesis by auto
qed

lemma recover_contract:
  assumes "store_ok db" "recover_unresolved_command_send E h q fp qj uj pl now db = Inr (resp, db')"
  shows "contract (h, q) db db'"
  using recover_cases[OF assms] assms(1) by auto

section \<open>The owner's verdict\<close>

definition may_finish :: "receipt \<Rightarrow> ustr \<Rightarrow> ustr \<Rightarrow> receipt_state \<Rightarrow> bool" where
  "may_finish r fp tok expected \<longleftrightarrow> rc_canonical_fingerprint r = fp \<and> rc_state r = expected
     \<and> owns r (owner_token_hash tok)"

lemma finish_checks:
  assumes "finish_command_request E h q fp tok ex ts st j pl effect now db = Inr x"
  shows "active_state ex \<and> terminal_status_ok ts st \<and> (ts = Accepted \<longrightarrow> ex = SendStarted)"
  using assms by (auto simp: finish_command_request_def terminal_status_ok_def split: if_splits)

lemma finish_cases:
  assumes ok: "store_ok db"
    and res: "finish_command_request E h q fp tok ex ts st j pl effect now db = Inr (resp, db')"
  shows "(\<exists>r. command_request_row db h q = Some r \<and> may_finish r fp tok ex \<and> contract (h, q) db db'
      \<and> receipt_map db' = (receipt_map db)((h, q) := Some (terminal_row ts st j (command_request_now E now) r))
      \<and> rs_status resp = Done ts)
    \<or> (\<not> (\<exists>r. command_request_row db h q = Some r \<and> may_finish r fp tok ex)
      \<and> db' = connect_prepare db \<and> (\<forall>s. rs_status resp \<noteq> Done s))"
proof (cases "\<exists>r. command_request_row db h q = Some r \<and> may_finish r fp tok ex")
  case False
  then show ?thesis using res
    by (cases "command_request_row db h q")
      (auto simp: finish_command_request_def Let_def may_finish_def split: if_splits)
next
  case True
  then obtain r where row: "command_request_row db h q = Some r" and m: "may_finish r fp tok ex" by blast
  note chk = finish_checks[OF res]
  note r = store_ok_row[OF ok row]
  let ?cur = "command_request_now E now"
  let ?s = "terminal_row ts st j ?cur r"
  let ?db1 = "connect_prepare db\<lparr>receipts := put_receipt ?s (receipts db)\<rparr>"
  let ?sel = "\<lambda>x. rc_id x = rc_id r \<and> rc_state x = ex \<and> rc_canonical_fingerprint x = fp
    \<and> rc_owner_token_hash x = owner_token_hash tok"
  have s_ok: "receipt_ok ?s" "receipt_move (Some r) ?s"
    using chk m r(2) by (auto simp: may_finish_def intro: terminal_row_ok terminal_row_move)
  have upd: "update_receipts ?sel (terminal_row ts st j ?cur) (connect_prepare db) = Inr ?db1"
    "sql_rowcount ?sel (receipts db) = 1"
    using guarded_update[OF ok row, of ?sel "terminal_row ts st j ?cur"] m s_ok
    by (simp_all add: may_finish_def owns_def)
  obtain e db2 b db3 r2 db4 where
    eff: "run_effect effect ?db1 = Inr (e, db2)"
    and t: "terminalize_turn_submission h q ts ?cur db2 = Inr (b, db3)"
    and com: "commit_transition E h q ?cur pl db3 = Inr (r2, db4)"
    and out: "db' = db4" "rs_status resp = Done ts"
    using res upd row m chk
    by (auto simp: finish_command_request_def Let_def bind_result_eq_Inr may_finish_def active_iff
        split: if_splits)
  have "ledger_ok db2"
    using run_effect_InrD[OF eff] store_ok_ledger[OF ok] by (auto simp: ledger_ok_def)
  then have db3: "receipts db3 = put_receipt ?s (receipts db)" "receipt_seq db3 = receipt_seq db"
    "commands db3 = commands db" "ledger_ok db3"
    using terminalize_total[of db2 h q ts ?cur] t run_effect_InrD[OF eff] by auto
  obtain dbc where c: "commit_transition E h q ?cur pl db3 = Inr (?s, dbc)" "contract (h, q) db dbc"
    "receipt_map dbc = (receipt_map db)((h, q) := Some ?s)"
    by (rule rewrite_receipt[OF ok row s_ok db3])
  with com out row m show ?thesis by auto
qed

lemma finish_contract:
  assumes "store_ok db" "finish_command_request E h q fp tok ex ts st j pl effect now db = Inr (resp, db')"
  shows "contract (h, q) db db'"
  using finish_cases[OF assms] assms(1) by auto

end
