(* ===== verification/ExampleStore.thy ===== *)
theory ExampleStore
  imports ReceiptContract
begin

text \<open>The concrete receipts, ledger rows and stores the witnesses are stated on.\<close>

section \<open>A concrete store\<close>

text \<open>One receipt in a given state, its audit row, and one ledger row.\<close>

definition ex_env :: store_env where
  "ex_env = \<lparr>sanitize_public_mapping = (\<lambda>d. []), utc_timestamp = 100 * second,
    token_urlsafe = lit ''tok2''\<rparr>"

definition ex_receipt :: "receipt_state \<Rightarrow> receipt" where
  "ex_receipt st =
     \<lparr>rc_id = 0, rc_host_id = lit ''h'', rc_request_id = lit ''r'', rc_action = lit ''send_instruction'',
      rc_canonical_version = 1, rc_canonical_fingerprint = lit ''fp'',
      rc_canonical_request_json = lit ''{}'', rc_public_worker_id = lit ''w'', rc_state = st,
      rc_status = (if st = Accepted then status_accepted else status_pending), rc_result_json = lit ''q'',
      rc_owner_token_hash = (if active_state st then owner_token_hash (lit ''tok'') else []),
      rc_owner_expires_at = (if active_state st then Some (130 * second) else None),
      rc_binding_fingerprint = None, rc_created_at = 100 * second, rc_reserved_at = 100 * second,
      rc_send_started_at = (if st = Reserved then None else Some (101 * second)),
      rc_terminal_at = (if active_state st then None else Some (102 * second)),
      rc_updated_at = 100 * second,
      rc_legacy_collision = False, rc_legacy_collision_count = 0, rc_selector_proof = []\<rparr>"

definition ex_submission :: "submission_state \<Rightarrow> submission" where
  "ex_submission st =
     \<lparr>ts_host_id = lit ''h'', ts_submission_id = lit ''s'', ts_request_id = lit ''r'',
      ts_owner_key = lit ''k'', ts_owner_key_version = 1, ts_instruction_fingerprint = lit ''i'',
      ts_state = st, ts_linked_turn_id = (if st = LLinked then Some (lit ''t'') else None),
      ts_link_not_before = 40 * second, ts_link_expires_at = 160 * second,
      ts_hard_expires_at = 900 * second, ts_linked_at = None, ts_terminal_at = None,
      ts_submitted_at = None, ts_send_started_at = Some (101 * second), ts_updated_at = 101 * second\<rparr>"

definition ex_store :: "receipt list \<Rightarrow> submission list \<Rightarrow> unit store" where
  "ex_store rs ss =
     \<lparr>db_exists = True, receipts = rs, receipt_seq = length rs, commands = map audit_row rs,
      submissions = ss, turns = [], revisions = [], events = [], link_backoff = (\<lambda>_. None),
      other_tables = ()\<rparr>"

lemma ex_store_ok:
  assumes "st \<in> {Reserved, SendStarted, Accepted}"
  shows "store_ok (ex_store [ex_receipt st] [ex_submission l])"
    and "store_ok (ex_store [ex_receipt st] [])" and "store_ok (ex_store [] [])"
  using assms
  by (auto simp: store_ok_def ex_store_def ex_receipt_def ex_submission_def receipt_ok_def
      receipt_check_def submissions_unique_def linked_turns_def submission_ok_def unique_key_def)

lemma ex_row:
  "command_request_row (ex_store [ex_receipt st] ss) (lit ''h'') (lit ''r'') = Some (ex_receipt st)"
  "command_request_row (ex_store [] ss) (lit ''h'') (lit ''r'') = None"
  by (simp_all add: command_request_row_def ex_store_def ex_receipt_def)

end
