(* ===== verification/ReceiptProps.thy ===== *)
theory ReceiptProps
  imports ReceiptOps ExampleStore
begin

text \<open>
  What callers of the command-request protocol rely on: who may move a receipt and
  when, what each answer means, which exceptions are possible, and that a retry
  never repeats a send.
\<close>

section \<open>The operations are interpretations of the contract\<close>

interpretation reserve: receipt_operation "reserve_command_request E a pending lease now" "args_key a"
  for E a pending lease now
  by unfold_locales (rule reserve_contract)

interpretation replay: receipt_operation
  "reserve_terminal_command_replay E a ts st j pl now" "args_key a" for E a ts st j pl now
  by unfold_locales (rule replay_contract)

interpretation abandon: receipt_operation
  "abandon_command_request_reservation E h q fp tok now" "(h, q)" for E h q fp tok now
  by unfold_locales (rule abandon_contract)

interpretation mark: receipt_operation
  "mark_command_send_started E h q fp tok binding pl effect w itx lw ht now" "(h, q)"
  for E h q fp tok binding pl effect w itx lw ht now
  by unfold_locales (rule mark_contract)

interpretation queued: receipt_operation
  "record_command_send_queued E h q fp tok j pl now" "(h, q)" for E h q fp tok j pl now
  by unfold_locales (rule queue_contract)

interpretation finish_queued: receipt_operation
  "finish_queued_command_request E h q fp qj aj pl now" "(h, q)" for E h q fp qj aj pl now
  by unfold_locales (rule finish_queued_contract)

interpretation unverified: receipt_operation
  "finish_unverified_queued_command_request E h q fp qj uj pl now" "(h, q)" for E h q fp qj uj pl now
  by unfold_locales (rule finish_unverified_contract)

interpretation recover: receipt_operation
  "recover_unresolved_command_send E h q fp qj uj pl now" "(h, q)" for E h q fp qj uj pl now
  by unfold_locales (rule recover_contract)

interpretation finish: receipt_operation
  "finish_command_request E h q fp tok ex ts st j pl effect now" "(h, q)"
  for E h q fp tok ex ts st j pl effect now
  by unfold_locales (rule finish_contract)

section \<open>Starting a send\<close>

lemma ex_mark:
  "\<exists>resp db'. mark_command_send_started ex_env (lit ''h'') (lit ''r'') (lit ''fp'') (lit ''tok'') (lit ''b'')
      None (None :: (unit \<Rightarrow> (unit \<times> unit) result) option) None None 1 1 None
      (ex_store [ex_receipt Reserved] []) = Inr (resp :: unit response, db')
      \<and> rs_status resp = Done SendStarted"
proof -
  let ?db = "ex_store [ex_receipt Reserved] []"
  have ok: "store_ok ?db" by (rule ex_store_ok(2)) simp
  have "py_strip (lit ''b'') \<noteq> []" by (simp add: py_strip_id lit_def py_isspace_def)
  then obtain resp :: "unit response" and db' where m: "mark_command_send_started ex_env (lit ''h'') (lit ''r'') (lit ''fp'') (lit ''tok'')
      (lit ''b'') None (None :: (unit \<Rightarrow> (unit \<times> unit) result) option) None None 1 1 None ?db = Inr (resp, db')"
    by (simp add: mark_command_send_started_def ex_store_def ex_receipt_def Let_def
        command_request_row_def owns_def update_receipts_def checked_update_def receipt_check_def
        send_started_row_def run_effect_def sql_rowcount_def commit_transition_def
        project_command_request_def command_check_def audit_row_def connect_prepare_def)
  moreover have "may_start (ex_receipt Reserved) (lit ''fp'') (lit ''tok'')"
    by (simp add: may_start_def owns_def ex_receipt_def)
  note mark_started[OF ok ex_row(1) this refl refl m]
  ultimately show ?thesis by blast
qed

text \<open>
  C13: \<open>mark_command_send_started\<close> moves a receipt to \<open>send_started\<close> exactly when the
  receipt exists, is still reserved, carries the caller's canonical fingerprint and
  is owned by the caller's token; it then hands that token back and records the
  binding and the start.  In every other case no receipt, ledger or audit row
  changes.
\<close>

theorem send_start_only_by_owner:
  assumes "store_ok db"
    and "mark_command_send_started E h q fp tok binding pl effect w itx lw ht now db = Inr (resp, db')"
  shows "(rs_status resp = Done SendStarted \<longleftrightarrow>
           (\<exists>r. command_request_row db h q = Some r \<and> rc_canonical_fingerprint r = fp
              \<and> rc_state r = Reserved \<and> tok \<noteq> [] \<and> rc_owner_token_hash r = owner_token_hash tok))
    \<and> (rs_status resp = Done SendStarted \<longrightarrow>
         rs_owner_token resp = Some tok \<and> receipt_map db' = (receipt_map db)((h, q) :=
           map_option (send_started_row binding (command_request_now E now)) (receipt_map db (h, q))))
    \<and> (rs_status resp \<noteq> Done SendStarted \<longrightarrow> db' = connect_prepare db)"
proof (cases "\<exists>r. command_request_row db h q = Some r \<and> may_start r fp tok")
  case True
  then obtain r where r: "command_request_row db h q = Some r" "may_start r fp tok" by blast
  then show ?thesis
    using mark_started[OF assms(1) r refl refl assms(2)]
    by (auto simp: may_start_def owns_def receipt_map_def)
next
  case False
  then show ?thesis
    using mark_refused[OF assms(2) False] by (auto simp: may_start_def owns_def)
qed

theorem send_start_only_by_owner_witness:
  "\<exists>resp db'. mark_command_send_started ex_env (lit ''h'') (lit ''r'') (lit ''fp'') (lit ''tok'') (lit ''b'')
      None (None :: (unit \<Rightarrow> (unit \<times> unit) result) option) None None 1 1 None
      (ex_store [ex_receipt Reserved] []) = Inr (resp, db') \<and> rs_status resp = Done SendStarted"
proof -
  let ?db = "ex_store [ex_receipt Reserved] []"
  have ok: "store_ok ?db" by (rule ex_store_ok(2)) simp
  obtain resp db' where m: "mark_command_send_started ex_env (lit ''h'') (lit ''r'') (lit ''fp'') (lit ''tok'')
      (lit ''b'') None (None :: (unit \<Rightarrow> (unit \<times> unit) result) option) None None 1 1 None ?db = Inr (resp, db')"
    using ex_mark by blast
  have "\<exists>r. command_request_row ?db (lit ''h'') (lit ''r'') = Some r \<and> rc_canonical_fingerprint r = lit ''fp''
      \<and> rc_state r = Reserved \<and> lit ''tok'' \<noteq> [] \<and> rc_owner_token_hash r = owner_token_hash (lit ''tok'')"
    by (simp add: ex_row) (simp add: ex_receipt_def)
  with send_start_only_by_owner[OF ok m] m show ?thesis by blast
qed

section \<open>Reserving\<close>

lemma reserve_cases:
  assumes "store_ok db" "reserve_values a = Inr (h, q, act, fp)"
    and "0 < us" "us \<le> command_retry_horizon_seconds * second" "token_urlsafe E \<noteq> []"
    and "cur = command_request_now E now"
  shows "\<exists>(resp :: 'e response) db'. reserve_command_request E a pending (Some us) now db = Inr (resp, db') \<and>
    (case command_request_row db h q of
       None \<Rightarrow> rs_status resp = Done Reserved \<and> rs_owner_token resp = Some (token_urlsafe E)
         \<and> (\<exists>s. receipt_map db' = (receipt_map db)((h, q) := Some s) \<and> rc_state s = Reserved
              \<and> rc_canonical_fingerprint s = fp
              \<and> rc_owner_token_hash s = owner_token_hash (token_urlsafe E)
              \<and> rc_owner_expires_at s = Some (command_request_add_seconds cur us))
     | Some r \<Rightarrow>
         if may_take_over r a act fp cur
         then rs_status resp = Done Reserved \<and> rs_owner_token resp = Some (token_urlsafe E)
           \<and> receipt_map db' = (receipt_map db)((h, q) := Some (take_over_row
               (owner_token_hash (token_urlsafe E)) (command_request_add_seconds cur us) pending cur r))
         else rs_status resp = reserve_refusal r a act fp \<and> rs_owner_token resp = None
           \<and> db' = connect_prepare db)"
proof (cases "command_request_row db h q")
  case None
  obtain db' s where d: "reserve_command_request E a pending (Some us) now db =
      Inr (command_request_response (Done Reserved) (Some s) (Some (token_urlsafe E)) :: 'e response, db')"
    "receipt_map db' = (receipt_map db)((h, q) := Some s)"
    and s: "s = (new_receipt a (h, q, act, fp) Reserved status_pending pending
         (owner_token_hash (token_urlsafe E)) (Some (command_request_add_seconds cur us)) None cur)
         \<lparr>rc_id := receipt_seq db\<rparr>"
    using reserve_fresh[OF assms(1-5) None assms(6) refl refl, of pending] by blast
  have "rc_state s = Reserved \<and> rc_canonical_fingerprint s = fp
      \<and> rc_owner_token_hash s = owner_token_hash (token_urlsafe E)
      \<and> rc_owner_expires_at s = Some (command_request_add_seconds cur us)"
    by (simp add: s new_receipt_def)
  note s_facts = this d(2)
  show ?thesis
    unfolding None option.case
    by (rule exI, rule exI, rule conjI, rule d(1)) (use s_facts in auto)
next
  case (Some r)
  show ?thesis
  proof (cases "may_take_over r a act fp cur")
    case True
    obtain db' where d: "reserve_command_request E a pending (Some us) now db =
        Inr (command_request_response (Done Reserved) (Some (take_over_row (owner_token_hash (token_urlsafe E))
          (command_request_add_seconds cur us) pending cur r)) (Some (token_urlsafe E)) :: 'e response, db')"
      "receipt_map db' = (receipt_map db)((h, q) := Some (take_over_row
         (owner_token_hash (token_urlsafe E)) (command_request_add_seconds cur us) pending cur r))"
      using reserve_takeover[OF assms(1-5) Some assms(6) True refl, of pending] by blast
    show ?thesis
      unfolding Some option.case by (intro exI conjI, rule d(1)) (simp add: True d(2))
  next
    case False
    then have "\<not> may_take_over r a act fp (command_request_now E now)" by (simp add: assms(6))
    note d = reserve_refused[OF assms(2-4) Some this]
    show ?thesis
      unfolding Some option.case by (intro exI conjI, rule d) (simp add: False)
  qed
qed

text \<open>
  \<open>reserve_command_request\<close> with valid arguments never raises: a first request
  gets a fresh reservation, an abandoned or expired reservation of the same
  canonical mutation is taken over under a new owner, and everything else is
  answered from the stored receipt without any change: \<open>terminal\<close>,
  \<open>request_id_conflict\<close> or \<open>in_progress\<close>.
\<close>

theorem reserve_outcomes:
  assumes "store_ok db" "reserve_values a = Inr (h, q, act, fp)"
    and "0 < us" "us \<le> command_retry_horizon_seconds * second" "token_urlsafe E \<noteq> []"
    and "cur = command_request_now E now"
  shows "\<exists>(resp :: 'e response) db'. reserve_command_request E a pending (Some us) now db = Inr (resp, db') \<and>
    (case command_request_row db h q of
       None \<Rightarrow> rs_status resp = Done Reserved \<and> rs_owner_token resp = Some (token_urlsafe E)
         \<and> (\<exists>s. receipt_map db' = (receipt_map db)((h, q) := Some s) \<and> rc_state s = Reserved
              \<and> rc_canonical_fingerprint s = fp
              \<and> rc_owner_token_hash s = owner_token_hash (token_urlsafe E)
              \<and> rc_owner_expires_at s = Some (command_request_add_seconds cur us))
     | Some r \<Rightarrow>
         if may_take_over r a act fp cur
         then rs_status resp = Done Reserved \<and> rs_owner_token resp = Some (token_urlsafe E)
           \<and> receipt_map db' = (receipt_map db)((h, q) := Some (take_over_row
               (owner_token_hash (token_urlsafe E)) (command_request_add_seconds cur us) pending cur r))
         else rs_status resp = reserve_refusal r a act fp \<and> rs_owner_token resp = None
           \<and> db' = connect_prepare db)"
  using assms by (rule reserve_cases)

definition ex_args :: command_args where
  "ex_args = \<lparr>cr_host_id = lit '' h'', cr_request_id = lit ''r'', cr_action = lit ''send_instruction'',
     cr_canonical_version = 1, cr_canonical_fingerprint = lit ''fp'',
     cr_canonical_request_json = lit ''{}'', cr_public_worker_id = lit ''w'',
     cr_selector_proof = [], cr_legacy_fingerprint = None\<rparr>"

lemma ex_args_values:
  "reserve_values ex_args = Inr (lit ''h'', lit ''r'', lit ''send_instruction'', lit ''fp'')"
  by (simp add: reserve_values_def ex_args_def lit_def py_strip_def py_isspace_def json_loads_def
      skip_ws_def json_ws_def)

theorem reserve_outcomes_witness:
  "\<exists>resp :: unit response. \<exists>db'. reserve_command_request ex_env ex_args (lit ''p'') (Some (30 * second))
      (Some (200 * second)) (ex_store [ex_receipt Reserved] []) = Inr (resp, db')
    \<and> rs_status resp = Done Reserved \<and> rs_owner_token resp = Some (lit ''tok2'')"
proof -
  let ?db = "ex_store [ex_receipt Reserved] []"
  have ok: "store_ok ?db" by (rule ex_store_ok(2)) simp
  have us: "(0 :: int) < 30 * second" "30 * second \<le> command_retry_horizon_seconds * second"
    by (simp_all add: second_def command_retry_horizon_seconds_def)
  have tok: "token_urlsafe ex_env \<noteq> []" "token_urlsafe ex_env = lit ''tok2''"
    by (simp_all add: ex_env_def)
  have "may_take_over (ex_receipt Reserved) ex_args (lit ''send_instruction'') (lit ''fp'')
      (command_request_now ex_env (Some (200 * second)))"
    by (simp add: may_take_over_def canonical_request_matches_def ex_receipt_def ex_args_def
        command_request_now_def whole_seconds_def second_def)
  with reserve_outcomes[OF ok ex_args_values us tok(1) refl, where pending = "lit ''p''" and now = "Some (200 * second)"] tok(2)
  show ?thesis by (auto simp: ex_row)
qed

text \<open>
  C14: while a reservation is live its owner is the only one: any other reservation
  under the same host and request id, before the deadline, gets no token and changes
  nothing; it is told \<open>in_progress\<close> for the same canonical mutation and
  \<open>request_id_conflict\<close> for a different one.
\<close>

theorem live_reservation_excludes:
  assumes "store_ok db" "reserve_values a = Inr (h, q, act, fp)" "token_urlsafe E \<noteq> []"
    and "reserve_command_request E a pending (Some us) now db = Inr (resp :: 'e response, db1)"
    and "rs_status resp = Done Reserved"
    and "reserve_values b = Inr (h, q, act', fp')"
    and "0 < us'" "us' \<le> command_retry_horizon_seconds * second"
    and "command_request_now E' now' < command_request_add_seconds (command_request_now E now) us"
  shows "\<exists>s. command_request_row db1 h q = Some s \<and> rc_state s = Reserved
    \<and> reserve_command_request E' b pending' (Some us') now' db1 =
        Inr (command_request_response
          (if canonical_request_matches s act' (cr_canonical_version b) fp'
              (cr_canonical_request_json b) (cr_public_worker_id b) (cr_legacy_fingerprint b)
           then InProgress else RequestIdConflict) (Some s) None, connect_prepare db1)"
proof -
  have us: "0 < us" "us \<le> command_retry_horizon_seconds * second"
    using reserve_raises[OF assms(4)] by auto
  obtain s where s: "command_request_row db1 h q = Some s" "rc_state s = Reserved"
    "rc_owner_expires_at s = Some (command_request_add_seconds (command_request_now E now) us)"
  proof (cases "command_request_row db h q")
    case None
    with reserve_cases[OF assms(1,2) us assms(3) refl, where ?'e = 'e and now = now and pending = pending] assms(4) that show thesis
      by (auto simp: receipt_map_def fun_eq_iff split: if_splits)
  next
    case (Some r)
    have "rs_status resp \<noteq> reserve_refusal r a act fp" using assms(5) by (auto simp: reserve_refusal_def)
    with Some reserve_cases[OF assms(1,2) us assms(3) refl, where ?'e = 'e and now = now and pending = pending] assms(4)
    have "may_take_over r a act fp (command_request_now E now)"
      "receipt_map db1 = (receipt_map db)((h, q) := Some (take_over_row
          (owner_token_hash (token_urlsafe E))
          (command_request_add_seconds (command_request_now E now) us) pending (command_request_now E now) r))"
      by (auto split: if_splits)
    with that show thesis
      by (auto simp: receipt_map_def fun_eq_iff may_take_over_def take_over_row_def split: if_splits)
  qed
  have "store_ok db1" using reserve.keeps_store_ok[OF assms(1,4)] .
  from store_ok_row(2)[OF this s(1)] s(2) have "\<not> rc_legacy_collision s"
    by (auto simp: receipt_ok_def receipt_check_def)
  moreover have "\<not> may_take_over s b act' fp' (command_request_now E' now')"
    using s(3) assms(9) by (simp add: may_take_over_def)
  note reserve_refused[OF assms(6-8) s(1) this]
  ultimately show ?thesis using s by (auto simp: reserve_refusal_def)
qed

theorem live_reservation_excludes_witness:
  "\<exists>db1 s. command_request_row db1 (lit ''h'') (lit ''r'') = Some s \<and> rc_state s = Reserved
    \<and> (\<exists>v. reserve_command_request ex_env ex_args (lit ''p'') (Some (30 * second)) (Some (210 * second)) db1
        = Inr (command_request_response v (Some s) None :: unit response, connect_prepare (db1 :: unit store)))"
proof -
  let ?db = "ex_store [ex_receipt Reserved] []"
  have ok: "store_ok ?db" by (rule ex_store_ok(2)) simp
  have us: "(0 :: int) < 30 * second" "30 * second \<le> command_retry_horizon_seconds * second"
    by (simp_all add: second_def command_retry_horizon_seconds_def)
  have tok: "token_urlsafe ex_env \<noteq> []" by (simp add: ex_env_def)
  have "may_take_over (ex_receipt Reserved) ex_args (lit ''send_instruction'') (lit ''fp'')
      (command_request_now ex_env (Some (200 * second)))"
    by (simp add: may_take_over_def canonical_request_matches_def ex_receipt_def ex_args_def
        command_request_now_def whole_seconds_def second_def)
  with reserve_cases[OF ok ex_args_values us tok refl, where ?'e = unit and pending = "lit ''p''"
      and now = "Some (200 * second)"]
  obtain resp :: "unit response" and db1 where r: "reserve_command_request ex_env ex_args (lit ''p'')
      (Some (30 * second)) (Some (200 * second)) ?db = Inr (resp, db1)" "rs_status resp = Done Reserved"
    by (auto simp: ex_row)
  have "command_request_now ex_env (Some (210 * second))
      < command_request_add_seconds (command_request_now ex_env (Some (200 * second))) (30 * second)"
    by (simp add: command_request_now_def command_request_add_seconds_def whole_seconds_def second_def)
  from live_reservation_excludes[OF ok ex_args_values tok r ex_args_values us this] show ?thesis by blast
qed

section \<open>Finishing\<close>

text \<open>
  C21: \<open>finish_command_request\<close> writes a verdict exactly when the caller owns the
  receipt in the state it expects; the receipt then is terminal with the caller's
  status and result and no owner, and its audit row says the same.  Any other call
  leaves the store alone.
\<close>

theorem finish_only_by_owner:
  assumes "store_ok db"
    and "finish_command_request E h q fp tok ex ts st j pl effect now db = Inr (resp, db')"
  shows "(if \<exists>r. command_request_row db h q = Some r \<and> rc_canonical_fingerprint r = fp
            \<and> rc_state r = ex \<and> tok \<noteq> [] \<and> rc_owner_token_hash r = owner_token_hash tok
          then rs_status resp = Done ts
            \<and> (\<exists>s. command_request_row db' h q = Some s \<and> rc_state s = ts \<and> rc_status s = st
                 \<and> rc_result_json s = j \<and> rc_owner_token_hash s = []
                 \<and> rc_terminal_at s = Some (command_request_now E now)
                 \<and> (\<exists>c \<in> set (commands db'). mirrors c s))
          else (\<forall>s. rs_status resp \<noteq> Done s) \<and> db' = connect_prepare db)"
proof -
  have owner: "(\<exists>r. command_request_row db h q = Some r \<and> rc_canonical_fingerprint r = fp
      \<and> rc_state r = ex \<and> tok \<noteq> [] \<and> rc_owner_token_hash r = owner_token_hash tok)
    \<longleftrightarrow> (\<exists>r. command_request_row db h q = Some r \<and> may_finish r fp tok ex)"
    by (auto simp: may_finish_def owns_def)
  show ?thesis
  proof (cases "\<exists>r. command_request_row db h q = Some r \<and> may_finish r fp tok ex")
    case False
    then show ?thesis unfolding owner using finish_cases[OF assms] by auto
  next
    case True
    then obtain r where r: "contract (h, q) db db'" "rs_status resp = Done ts"
      "receipt_map db' = (receipt_map db)((h, q) := Some (terminal_row ts st j (command_request_now E now) r))"
      using finish_cases[OF assms] by blast
    let ?s = "terminal_row ts st j (command_request_now E now) r"
    have s: "command_request_row db' h q = Some ?s" using r(3) by (simp add: receipt_map_def fun_eq_iff)
    have "store_ok db'" using r(1) by (simp add: contract_def)
    then have "\<exists>c \<in> set (commands db'). mirrors c ?s"
      using store_ok_row(1)[OF _ s] by (auto simp: store_ok_def list_all_iff list_ex_iff)
    then show ?thesis unfolding owner using r(2) s True by (simp add: terminal_row_def)
  qed
qed

text \<open>An operation without an effect of its own either commits or refuses.\<close>

lemma commit_after:
  fixes db dbw :: "'p store"
  assumes "store_ok db" "command_request_row db h q = Some r" "receipt_ok s" "receipt_move (Some r) s"
    "receipts dbw = put_receipt s (receipts db)" "receipt_seq dbw = receipt_seq db"
    "commands dbw = commands db" "ledger_ok dbw"
  shows "\<exists>x. commit_transition E h q cur pl dbw = Inr x"
  using commit_put(1)[OF assms] by blast

lemma finish_total:
  fixes db :: "'p store"
  assumes ok: "store_ok db"
    and args: "active_state ex" "terminal_status_ok ts st" "ts = Accepted \<longrightarrow> ex = SendStarted"
      "ts = Rejected \<longrightarrow> st \<noteq> status_answer_in_progress"
  shows "\<exists>x. finish_command_request E h q fp tok ex ts st j pl None now db = Inr (x :: 'e response \<times> 'p store)"
proof -
  have go: "\<not> (ts = Accepted \<and> st \<noteq> status_accepted)" "\<not> (ts = Uncertain \<and> st \<noteq> status_uncertain)"
    "\<not> (ts = Rejected \<and> st \<in> {status_pending, status_answer_in_progress, status_accepted, status_uncertain})"
    "(ex = Reserved \<and> ts \<in> {Rejected, Uncertain}) \<or> (ex = SendStarted \<and> ts \<in> {Accepted, Rejected, Uncertain})"
    using args by (auto simp: terminal_status_ok_def active_state_def)
  show ?thesis
  proof (cases "\<exists>r. command_request_row db h q = Some r \<and> may_finish r fp tok ex")
    case False
    with go show ?thesis
      by (cases "command_request_row db h q")
        (auto simp: finish_command_request_def Let_def may_finish_def)
  next
    case True
    then obtain r where row: "command_request_row db h q = Some r" and m: "may_finish r fp tok ex" by blast
    note r = store_ok_row[OF ok row]
    let ?cur = "command_request_now E now"
    let ?s = "terminal_row ts st j ?cur r"
    let ?db1 = "connect_prepare db\<lparr>receipts := put_receipt ?s (receipts db)\<rparr>"
    let ?sel = "\<lambda>x. rc_id x = rc_id r \<and> rc_state x = ex \<and> rc_canonical_fingerprint x = fp
      \<and> rc_owner_token_hash x = owner_token_hash tok"
    have s_ok: "receipt_ok ?s" "receipt_move (Some r) ?s"
      using args m r(2) by (auto simp: may_finish_def intro: terminal_row_ok terminal_row_move)
    have upd: "update_receipts ?sel (terminal_row ts st j ?cur) (connect_prepare db) = Inr ?db1"
      "sql_rowcount ?sel (receipts db) = 1"
      using guarded_update[OF ok row, of ?sel "terminal_row ts st j ?cur"] m s_ok
      by (simp_all add: may_finish_def owns_def)
    have "ledger_ok ?db1" using store_ok_ledger[OF ok] by (simp add: ledger_ok_def)
    then obtain b db2 where t: "terminalize_turn_submission h q ts ?cur ?db1 = Inr (b, db2)"
      "receipts db2 = put_receipt ?s (receipts db)" "receipt_seq db2 = receipt_seq db"
      "commands db2 = commands db" "ledger_ok db2"
      using terminalize_total[of ?db1 h q ts ?cur] by auto
    obtain x where "commit_transition E h q ?cur pl db2 = Inr x"
      using commit_after[OF ok row s_ok t(2-5)] by blast
    then show ?thesis
      using go row m upd t(1) args(1)
      by (auto simp: finish_command_request_def Let_def may_finish_def run_effect_def active_iff
          split: prod.splits)
  qed
qed

text \<open>
  without a caller's effect the only exception of \<open>finish_command_request\<close> is the
  \<open>ValueError\<close> for an illegal transition or a status that does not fit the terminal
  state: no constraint of the database and no internal check can fail.
\<close>

theorem finish_raises_only_on_arguments:
  assumes "store_ok (db :: 'p store)"
  shows "case (finish_command_request E h q fp tok ex ts st j pl None now db :: ('e response \<times> 'p store) result) of
      Inl e \<Rightarrow> e = ValueError
        \<and> \<not> (active_state ex \<and> terminal_status_ok ts st \<and> (ts = Accepted \<longrightarrow> ex = SendStarted)
             \<and> (ts = Rejected \<longrightarrow> st \<noteq> status_answer_in_progress))
    | Inr _ \<Rightarrow> active_state ex \<and> terminal_status_ok ts st \<and> (ts = Accepted \<longrightarrow> ex = SendStarted)
        \<and> (ts = Rejected \<longrightarrow> st \<noteq> status_answer_in_progress)"
proof -
  let ?good = "active_state ex \<and> terminal_status_ok ts st \<and> (ts = Accepted \<longrightarrow> ex = SendStarted)
    \<and> (ts = Rejected \<longrightarrow> st \<noteq> status_answer_in_progress)"
  show ?thesis
  proof (cases ?good)
    case True
    then show ?thesis
      using finish_total[where ?'e = 'e, OF assms, of ex ts st E h q fp tok j pl now] by (auto split: sum.splits)
  next
    case False
    then have "finish_command_request E h q fp tok ex ts st j pl None now db
        = (Inl ValueError :: ('e response \<times> 'p store) result)"
      by (cases ex; cases ts) (auto simp: finish_command_request_def terminal_status_ok_def)
    with False show ?thesis by simp
  qed
qed

theorem finish_raises_only_on_arguments_witness:
  "\<exists>x :: unit response \<times> unit store. finish_command_request ex_env (lit ''h'') (lit ''r'') (lit ''fp'')
     (lit ''tok'') SendStarted Accepted status_accepted (lit ''ok'') None None None
     (ex_store [ex_receipt SendStarted] [ex_submission LSendStarted]) = Inr x"
proof -
  let ?db = "ex_store [ex_receipt SendStarted] [ex_submission LSendStarted]"
  have ok: "store_ok ?db" by (rule ex_store_ok(1)) simp
  show ?thesis
    using finish_raises_only_on_arguments[where ?'e = unit, OF ok, where E = ex_env and h = "lit ''h''"
        and q = "lit ''r''" and fp = "lit ''fp''" and tok = "lit ''tok''" and ex = SendStarted
        and ts = Accepted and st = status_accepted and j = "lit ''ok''" and pl = None and now = None]
    by (simp add: terminal_status_ok_def split: sum.splits)
qed

theorem finish_only_by_owner_witness:
  "\<exists>(resp :: unit response) db' s. finish_command_request ex_env (lit ''h'') (lit ''r'') (lit ''fp'')
     (lit ''tok'') SendStarted Accepted status_accepted (lit ''ok'') None None None
     (ex_store [ex_receipt SendStarted] [ex_submission LSendStarted]) = Inr (resp, db')
   \<and> command_request_row db' (lit ''h'') (lit ''r'') = Some s \<and> rc_state s = Accepted"
proof -
  let ?db = "ex_store [ex_receipt SendStarted] [ex_submission LSendStarted]"
  have ok: "store_ok ?db" by (rule ex_store_ok(1)) simp
  obtain resp :: "unit response" and db' where f: "finish_command_request ex_env (lit ''h'') (lit ''r'') (lit ''fp'')
     (lit ''tok'') SendStarted Accepted status_accepted (lit ''ok'') None None None ?db = Inr (resp, db')"
    using finish_total[where ?'e = unit, OF ok, of SendStarted Accepted status_accepted ex_env "lit ''h''"
        "lit ''r''" "lit ''fp''" "lit ''tok''" "lit ''ok''" None None] by (auto simp: terminal_status_ok_def)
  have "\<exists>r. command_request_row ?db (lit ''h'') (lit ''r'') = Some r \<and> rc_canonical_fingerprint r = lit ''fp''
      \<and> rc_state r = SendStarted \<and> lit ''tok'' \<noteq> [] \<and> rc_owner_token_hash r = owner_token_hash (lit ''tok'')"
    by (simp add: ex_row) (simp add: ex_receipt_def)
  with finish_only_by_owner[OF ok f] f show ?thesis by auto
qed

section \<open>Queued sends\<close>

lemma resolver_total:
  fixes db :: "'p store"
  assumes ok: "store_ok db"
  shows "\<exists>x. finish_queued_command_request E h q fp qj aj pl now db = Inr (x :: 'e response \<times> 'p store)"
    and "\<exists>x. finish_unverified_queued_command_request E h q fp qj aj pl now db = Inr (x :: 'e response \<times> 'p store)"
    and "\<exists>x. recover_unresolved_command_send E h q fp qj aj pl now db = Inr (x :: 'e response \<times> 'p store)"
proof -
  let ?cur = "command_request_now E now"
  have "(\<exists>x. finish_queued_command_request E h q fp qj aj pl now db = Inr (x :: 'e response \<times> 'p store))
    \<and> (\<exists>x. finish_unverified_queued_command_request E h q fp qj aj pl now db = Inr (x :: 'e response \<times> 'p store))
    \<and> (\<exists>x. recover_unresolved_command_send E h q fp qj aj pl now db = Inr (x :: 'e response \<times> 'p store))"
  proof (cases "\<exists>r. command_request_row db h q = Some r \<and> pending_send r fp qj")
    case False
    then show ?thesis
      by (cases "command_request_row db h q")
        (auto simp: finish_queued_command_request_def finish_unverified_queued_command_request_def
          recover_unresolved_command_send_def Let_def pending_send_def)
  next
    case True
    then obtain r where row: "command_request_row db h q = Some r" and p: "pending_send r fp qj" by blast
    have led: "ledger_ok (connect_prepare db\<lparr>receipts := t\<rparr>)" for t
      using store_ok_ledger[OF ok] by (simp add: ledger_ok_def)
    have go: "\<exists>x. commit_transition E h q ?cur pl dbw = Inr x"
      if "terminal_status_ok ts st" "receipts dbw = put_receipt (terminal_row ts st aj ?cur r) (receipts db)"
        "receipt_seq dbw = receipt_seq db" "commands dbw = commands db" "ledger_ok dbw" for ts st and dbw :: "'p store"
      using commit_after[OF ok row resolve_pending(2,3)[OF ok row p that(1) refl] that(2-5)] .
    have st: "terminal_status_ok Accepted status_accepted" "terminal_status_ok Uncertain status_uncertain"
      by (simp_all add: terminal_status_ok_def)
    note res = resolve_pending(1)[OF ok row p st(1) refl, of aj ?cur]
      resolve_pending(1)[OF ok row p st(2) refl, of aj ?cur]
    let ?d = "\<lambda>ts st. connect_prepare db\<lparr>receipts := put_receipt (terminal_row ts st aj ?cur r) (receipts db)\<rparr>"
    obtain x1 x2 where c: "commit_transition E h q ?cur pl (?d Accepted status_accepted) = Inr x1"
      "commit_transition E h q ?cur pl (?d Uncertain status_uncertain) = Inr x2"
      using go[OF st(1), of "?d Accepted status_accepted"] go[OF st(2), of "?d Uncertain status_uncertain"] led
      by auto
    obtain b db2 where t: "terminalize_turn_submission h q Uncertain ?cur (?d Uncertain status_uncertain) = Inr (b, db2)"
      "ledger_ok db2" "receipts db2 = put_receipt (terminal_row Uncertain status_uncertain aj ?cur r) (receipts db)"
      "receipt_seq db2 = receipt_seq db" "commands db2 = commands db"
      using terminalize_total[OF led] by fastforce
    obtain x3 where c3: "commit_transition E h q ?cur pl db2 = Inr x3"
      using go[OF st(2) t(3-5,2)] by blast
    show ?thesis
      using row p res c c3 t(1)
      by (auto simp: finish_queued_command_request_def finish_unverified_queued_command_request_def
          recover_unresolved_command_send_def Let_def pending_send_def split: prod.splits)
  qed
  then show "\<exists>x. finish_queued_command_request E h q fp qj aj pl now db = Inr (x :: 'e response \<times> 'p store)"
    "\<exists>x. finish_unverified_queued_command_request E h q fp qj aj pl now db = Inr (x :: 'e response \<times> 'p store)"
    "\<exists>x. recover_unresolved_command_send E h q fp qj aj pl now db = Inr (x :: 'e response \<times> 'p store)"
    by auto
qed

text \<open>
  C22: a queued send is accepted exactly when its submission is linked to an observed
  turn while its receipt still carries the queued result; the ledger row that proves
  it is kept.
\<close>

theorem queued_accepted_iff_linked:
  assumes "store_ok (db :: 'p store)"
  shows "\<exists>(resp :: 'e response) db'.
    finish_queued_command_request E h q fp qj aj pl now db = Inr (resp, db')
    \<and> (rs_status resp = Done Accepted \<longleftrightarrow>
        (\<exists>r. command_request_row db h q = Some r \<and> rc_canonical_fingerprint r = fp
           \<and> rc_state r = SendStarted \<and> rc_status r = status_pending \<and> rc_result_json r = qj)
        \<and> (\<exists>s \<in> set (submissions db). ts_host_id s = h \<and> ts_request_id s = q
             \<and> ts_state s = LLinked \<and> ts_linked_turn_id s \<noteq> None))
    \<and> submissions db' = submissions db
    \<and> (rs_status resp \<noteq> Done Accepted \<longrightarrow> receipt_map db' = receipt_map db)"
proof -
  obtain resp :: "'e response" and db' where
    f: "finish_queued_command_request E h q fp qj aj pl now db = Inr (resp, db')"
    using resolver_total(1)[where ?'e = 'e, OF assms, of E h q fp qj aj pl now] by auto
  show ?thesis
    using f finish_queued_cases[OF assms f]
    by (auto simp: pending_send_def linked_submission_def)
qed

theorem queued_accepted_iff_linked_witness:
  "\<exists>(resp :: unit response) db'.
    finish_queued_command_request ex_env (lit ''h'') (lit ''r'') (lit ''fp'') (lit ''q'') (lit ''a'') None None
      (ex_store [ex_receipt SendStarted] [ex_submission LLinked]) = Inr (resp, db')
    \<and> rs_status resp = Done Accepted"
proof -
  let ?db = "ex_store [ex_receipt SendStarted] [ex_submission LLinked]"
  have ok: "store_ok ?db" by (rule ex_store_ok(1)) simp
  have "\<exists>r. command_request_row ?db (lit ''h'') (lit ''r'') = Some r \<and> rc_canonical_fingerprint r = lit ''fp''
      \<and> rc_state r = SendStarted \<and> rc_status r = status_pending \<and> rc_result_json r = lit ''q''"
    by (simp add: ex_row) (simp add: ex_receipt_def)
  moreover have "\<exists>s \<in> set (submissions ?db). ts_host_id s = lit ''h'' \<and> ts_request_id s = lit ''r''
      \<and> ts_state s = LLinked \<and> ts_linked_turn_id s \<noteq> None"
    by (simp add: ex_store_def ex_submission_def)
  ultimately show ?thesis
    using queued_accepted_iff_linked[where ?'e = unit, OF ok, of ex_env "lit ''h''" "lit ''r''" "lit ''fp''" "lit ''q''" "lit ''a''" None None]
    by blast
qed

section \<open>Recovery\<close>

text \<open>
  a send whose owner vanished does not stay open for ever: once the lease has
  passed, \<open>recover_unresolved_command_send\<close> with the stored result closes it as
  uncertain, clears its owner and never accepts or rejects it.
\<close>

theorem abandoned_send_is_resolved:
  assumes "store_ok (db :: 'p store)" "command_request_row db h q = Some r" "rc_state r = SendStarted"
    and "rc_canonical_fingerprint r = fp" "rc_result_json r = qj"
    and "rc_owner_expires_at r = Some e" "e \<le> command_request_now E now"
  shows "\<exists>(resp :: 'e response) db'.
    recover_unresolved_command_send E h q fp qj uj pl now db = Inr (resp, db')
    \<and> rs_status resp = Done Uncertain \<and> store_ok db'
    \<and> command_request_row db' h q =
        Some (terminal_row Uncertain status_uncertain uj (command_request_now E now) r)"
proof -
  have "rc_status r = status_pending"
    using store_ok_row(3)[OF assms(1,2)] assms(3) by (simp add: receipt_check_def)
  then have p: "pending_send r fp qj" using assms(3-5) by (simp add: pending_send_def)
  have l: "lease_expired r (command_request_now E now)" using assms(6,7) by (simp add: lease_expired_def)
  obtain resp :: "'e response" and db' where
    f: "recover_unresolved_command_send E h q fp qj uj pl now db = Inr (resp, db')"
    using resolver_total(3)[where ?'e = 'e, OF assms(1), of E h q fp qj uj pl now] by auto
  show ?thesis
    using f recover_cases[OF assms(1) f] assms(2) p l
    by (auto simp: receipt_map_def fun_eq_iff contract_def)
qed

theorem abandoned_send_is_resolved_witness:
  "\<exists>(resp :: unit response) db'.
    recover_unresolved_command_send ex_env (lit ''h'') (lit ''r'') (lit ''fp'') (lit ''q'') (lit ''u'') None
      (Some (500 * second)) (ex_store [ex_receipt SendStarted] []) = Inr (resp, db')
    \<and> rs_status resp = Done Uncertain \<and> store_ok db'"
proof -
  let ?db = "ex_store [ex_receipt SendStarted] []"
  have ok: "store_ok ?db" by (rule ex_store_ok(2)) simp
  have row: "command_request_row ?db (lit ''h'') (lit ''r'') = Some (ex_receipt SendStarted)" by (rule ex_row)
  have f: "rc_state (ex_receipt SendStarted) = SendStarted"
    "rc_canonical_fingerprint (ex_receipt SendStarted) = lit ''fp''"
    "rc_result_json (ex_receipt SendStarted) = lit ''q''"
    "rc_owner_expires_at (ex_receipt SendStarted) = Some (130 * second)"
    by (simp_all add: ex_receipt_def)
  have "130 * second \<le> command_request_now ex_env (Some (500 * second))"
    by (simp add: command_request_now_def whole_seconds_def second_def)
  from abandoned_send_is_resolved[where ?'e = unit, OF ok row f this] show ?thesis by blast
qed

end
