(* ===== verification/Settle.thy ===== *)
theory Settle
  imports Submissions
begin

text \<open>
  Linking submissions to observed turns (\<open>settle_submission_links_conn\<close> and its
  callers in \<open>store/sqlite.py\<close>): for one owner and instruction fingerprint the open
  submissions and the unlinked observations form a bipartite graph, an edge where an
  observation falls in a submission's window; each connected component is decided
  on its own.
\<close>

section \<open>Candidate observations\<close>

definition submission_send_ack_timeout :: time where
  "submission_send_ack_timeout = 5 * second"

definition empty_component_recheck :: time where
  "empty_component_recheck = 30 * second"

text \<open>\<open>json_extract\<close> on a member of an object: SQLite has no booleans.\<close>

definition json_extract :: "json \<Rightarrow> string \<Rightarrow> json" where
  "json_extract v k =
     (case v of JDict d \<Rightarrow>
        (case dict_get d (lit k) of JBool b \<Rightarrow> JInt (if b then 1 else 0) | x \<Rightarrow> x)
      | _ \<Rightarrow> JNull)"

definition turn_selectable :: "'p store \<Rightarrow> turn_row \<Rightarrow> json \<Rightarrow> bool" where
  "turn_selectable db t payload \<longleftrightarrow>
     json_extract payload ''id'' = JStr (tr_turn_id t)
     \<and> (case json_extract payload ''source_turn_id'' of JStr s \<Rightarrow> py_strip s \<noteq> [] | _ \<Rightarrow> False)
     \<and> json_extract payload ''superseded_at'' \<in> {JNull, JStr []}
     \<and> \<not> list_ex (\<lambda>s. ts_host_id s = tr_host_id t \<and> ts_linked_turn_id s = Some (tr_turn_id t))
         (submissions db)"

definition first_observed_at :: "'p store \<Rightarrow> turn_row \<Rightarrow> time option" where
  "first_observed_at db t =
     (case List.map_filter rv_created_at
        (filter (\<lambda>v. rv_host_id v = tr_host_id t \<and> rv_turn_id v = tr_turn_id t) (revisions db)) of
        [] \<Rightarrow> None
      | x # xs \<Rightarrow> Some (foldl min x xs))"

definition turn_link_candidate ::
  "'p store \<Rightarrow> ustr \<Rightarrow> ustr \<Rightarrow> turn_row \<Rightarrow> revision_row \<Rightarrow> (ustr \<times> int \<times> time) option" where
  "turn_link_candidate db owner_key fp t v =
     (case tr_payload t of None \<Rightarrow> None
      | Some payload \<Rightarrow>
          if \<not> turn_selectable db t payload then None
          else
            let meta = json_extract payload ''meta'';
                worker = \<lparr>lw_id = tr_worker_id t,
                          lw_meta = Some [(lit ''stable_key'', json_extract meta ''stable_key''),
                            (lit ''stable_key_version'', json_extract meta ''stable_key_version'')]\<rparr>
            in case turn_link_candidate_owner_identity worker of
                 Inl e \<Rightarrow> None
               | Inr (owner, version) \<Rightarrow>
                   if version \<noteq> 1 \<or> owner \<noteq> owner_key then None
                   else case rv_user_text v of None \<Rightarrow> None
                     | Some user_text \<Rightarrow>
                         if instruction_fingerprint user_text \<noteq> fp then None
                         else map_option (\<lambda>at. (tr_turn_id t, version, at)) (first_observed_at db t))"

definition submission_link_candidate_turns ::
  "'p store \<Rightarrow> ustr \<Rightarrow> ustr \<Rightarrow> ustr \<Rightarrow> (ustr \<times> int \<times> time) list" where
  "submission_link_candidate_turns db host_id owner_key fp =
     concat (map (\<lambda>t. List.map_filter (turn_link_candidate db owner_key fp t)
         (filter (\<lambda>v. rv_host_id v = tr_host_id t \<and> rv_turn_id v = tr_turn_id t \<and> rv_is_current v)
           (revisions db)))
       (sort_key tr_turn_id (filter (\<lambda>t. tr_host_id t = host_id) (turns db))))"

section \<open>The match graph\<close>

definition open_state :: "submission_state \<Rightarrow> bool" where
  "open_state st \<longleftrightarrow> st = LSendStarted \<or> st = LSubmitted \<or> st = LUncertain"

definition open_submission :: "submission \<Rightarrow> bool" where
  "open_submission s \<longleftrightarrow> ts_linked_turn_id s = None \<and> open_state (ts_state s)"

text \<open>
  A queued send (\<open>send_started\<close> with \<open>submitted_at\<close> set) cannot use observations as
  evidence.
\<close>

definition link_edge :: "submission \<Rightarrow> ustr \<times> int \<times> time \<Rightarrow> bool" where
  "link_edge s turn =
     (case turn of (turn_id, owner_version, observed_at) \<Rightarrow>
       \<not> (ts_state s = LSendStarted \<and> ts_submitted_at s \<noteq> None)
       \<and> ts_owner_key_version s = owner_version
       \<and> ts_link_not_before s \<le> observed_at \<and> observed_at \<le> ts_link_expires_at s)"

definition match_edges ::
  "submission list \<Rightarrow> (ustr \<times> int \<times> time) list \<Rightarrow> (ustr \<times> ustr) list" where
  "match_edges subs obs =
     concat (map (\<lambda>s. map (\<lambda>t. (ts_submission_id s, fst t)) (filter (link_edge s) obs)) subs)"

definition turns_of :: "(ustr \<times> ustr) list \<Rightarrow> ustr \<Rightarrow> ustr list" where
  "turns_of es s = map snd (filter (\<lambda>e. fst e = s) es)"

definition submissions_of :: "(ustr \<times> ustr) list \<Rightarrow> ustr \<Rightarrow> ustr list" where
  "submissions_of es t = map fst (filter (\<lambda>e. snd e = t) es)"

text \<open>
  The work-list search of a component.  The two lists of visited nodes have no
  duplicates, so their lengths are the sizes of the sets of the code.
\<close>

function explore ::
  "(ustr \<times> ustr) list \<Rightarrow> ustr list \<Rightarrow> ustr list \<Rightarrow> ustr list \<Rightarrow> ustr list \<Rightarrow> ustr list \<times> ustr list" where
  "explore es [] [] cs ct = (cs, ct)"
| "explore es (s # ps) pt cs ct =
     (if s \<in> set cs then explore es ps pt cs ct
      else explore es ps (turns_of es s @ pt) (s # cs) ct)"
| "explore es [] (t # pt) cs ct =
     (if t \<in> set ct then explore es [] pt cs ct
      else explore es (submissions_of es t) pt cs (t # ct))"
  by pat_completeness auto
termination
proof (relation "measures
    [\<lambda>(es, ps, pt, cs, ct). card (fst ` set es \<union> set ps - set cs) + card (snd ` set es \<union> set pt - set ct),
     \<lambda>(es, ps, pt, cs, ct). length ps + length pt]", goal_cases)
  case (2 es s ps pt cs ct)
  then show ?case by (simp add: insert_absorb Un_insert_right insert_Diff_if)
next
  case (3 es s ps pt cs ct)
  have "fst ` set es \<union> set ps - set (s # cs) \<subset> fst ` set es \<union> set (s # ps) - set cs" using 3 by auto
  then have "card (fst ` set es \<union> set ps - set (s # cs)) < card (fst ` set es \<union> set (s # ps) - set cs)"
    by (intro psubset_card_mono) auto
  moreover have "snd ` set es \<union> set (turns_of es s @ pt) = snd ` set es \<union> set pt"
    by (auto simp: turns_of_def)
  ultimately show ?case by simp
next
  case (4 es t pt cs ct)
  then show ?case by (simp add: insert_absorb Un_insert_right insert_Diff_if)
next
  case (5 es t pt cs ct)
  have "snd ` set es \<union> set pt - set (t # ct) \<subset> snd ` set es \<union> set (t # pt) - set ct" using 5 by auto
  then have "card (snd ` set es \<union> set pt - set (t # ct)) < card (snd ` set es \<union> set (t # pt) - set ct)"
    by (intro psubset_card_mono) auto
  moreover have "fst ` set es \<union> set (submissions_of es t) = fst ` set es \<union> set []"
    by (auto simp: submissions_of_def)
  ultimately show ?case by simp
qed simp

section \<open>Deciding a component\<close>

definition submission_by_id :: "submission list \<Rightarrow> ustr \<Rightarrow> submission option" where
  "submission_by_id subs sid = List.find (\<lambda>s. ts_submission_id s = sid) subs"

definition component_boundary :: "submission list \<Rightarrow> ustr list \<Rightarrow> time" where
  "component_boundary subs cs =
     (case map ts_link_expires_at (filter (\<lambda>s. ts_submission_id s \<in> set cs) subs) of
        [] \<Rightarrow> 0 | x # xs \<Rightarrow> foldl max x xs)"

definition instant_link_ok :: "time \<Rightarrow> submission \<Rightarrow> time \<Rightarrow> bool" where
  "instant_link_ok current s observed_at =
     (let stale_send_started = (ts_state s = LSendStarted \<and>
            (case ts_send_started_at s of None \<Rightarrow> True
             | Some a \<Rightarrow> a + submission_send_ack_timeout < current));
          anchor = (if ts_state s = LSendStarted then ts_send_started_at s else ts_submitted_at s)
      in ts_state s \<noteq> LUncertain \<and> \<not> stale_send_started
         \<and> (case anchor of None \<Rightarrow> False | Some a \<Rightarrow> a < observed_at)
         \<and> observed_at \<le> current)"

definition observed_at_of :: "(ustr \<times> int \<times> time) list \<Rightarrow> ustr \<Rightarrow> time" where
  "observed_at_of obs tid =
     (case List.find (\<lambda>t. fst t = tid) (rev obs) of None \<Rightarrow> 0 | Some (_, _, at) \<Rightarrow> at)"

definition submissions_with ::
  "ustr \<Rightarrow> ustr list \<Rightarrow> submission \<Rightarrow> bool" where
  "submissions_with host_id sids s \<longleftrightarrow>
     ts_host_id s = host_id \<and> ts_submission_id s \<in> set sids \<and> open_submission s"

definition close_submissions ::
  "ustr \<Rightarrow> ustr list \<Rightarrow> submission_state \<Rightarrow> time \<Rightarrow> 'p store \<Rightarrow> nat \<times> 'p store" where
  "close_submissions host_id sids st current db =
     (sql_rowcount (submissions_with host_id sids) (submissions db),
      db\<lparr>submissions := sql_update (submissions_with host_id sids)
        (\<lambda>s. s\<lparr>ts_state := st, ts_terminal_at := Some current, ts_updated_at := current\<rparr>)
        (submissions db)\<rparr>)"

text \<open>Linking is subject to the unique index on linked turns.\<close>

definition link_submission ::
  "ustr \<Rightarrow> ustr \<Rightarrow> ustr \<Rightarrow> time \<Rightarrow> 'p store \<Rightarrow> (nat \<times> 'p store) result" where
  "link_submission host_id sid turn_id current db =
     (let t = sql_update (submissions_with host_id [sid])
            (\<lambda>s. s\<lparr>ts_linked_turn_id := Some turn_id, ts_state := LLinked,
                   ts_linked_at := Some current, ts_updated_at := current\<rparr>) (submissions db)
      in if distinct (linked_turns t)
         then Inr (sql_rowcount (submissions_with host_id [sid]) (submissions db), db\<lparr>submissions := t\<rparr>)
         else Inl IntegrityError)"

fun settle_loop ::
  "time \<Rightarrow> ustr \<Rightarrow> submission list \<Rightarrow> (ustr \<times> int \<times> time) list \<Rightarrow> (ustr \<times> ustr) list
     \<Rightarrow> submission list \<Rightarrow> ustr list \<Rightarrow> nat \<Rightarrow> time list \<Rightarrow> 'p store
     \<Rightarrow> (nat \<times> time list \<times> 'p store) result" where
  "settle_loop current host_id subs obs es [] visited changed waiting db = Inr (changed, waiting, db)"
| "settle_loop current host_id subs obs es (s # rest) visited changed waiting db =
     (let sid = ts_submission_id s;
          continue = settle_loop current host_id subs obs es rest in
      if sid \<in> set visited then continue visited changed waiting db
      else if turns_of es sid = []
      then (if current < ts_link_expires_at s
            then continue visited changed (waiting @ [ts_link_expires_at s]) db
            else case close_submissions host_id [sid] LExpired current db of
              (n, db1) \<Rightarrow> continue visited (changed + n) waiting db1)
      else case explore es [sid] [] [] [] of (cs, ct) \<Rightarrow>
        let visited1 = cs @ visited; boundary = component_boundary subs cs in
        if current < boundary
        then (if length cs = 1 \<and> length ct = 1
                 \<and> (case submission_by_id subs (hd cs) of None \<Rightarrow> False
                    | Some d \<Rightarrow> instant_link_ok current d (observed_at_of obs (hd ct)))
              then bind_result (link_submission host_id (hd cs) (hd ct) current db) (\<lambda>(n, db1).
                     if n = 1 then continue visited1 (changed + n) waiting db1
                     else continue visited1 (changed + n) (waiting @ [boundary]) db1)
              else continue visited1 changed (waiting @ [boundary]) db)
        else if length cs = 1 \<and> length ct = 1
        then bind_result (link_submission host_id (hd cs) (hd ct) current db) (\<lambda>(n, db1).
               continue visited1 (if n = 1 then changed + 1 else changed) waiting db1)
        else case close_submissions host_id cs LAmbiguous current db of
               (n, db1) \<Rightarrow> continue visited1 (changed + n) waiting db1)"

definition component_submissions :: "ustr \<Rightarrow> ustr \<Rightarrow> ustr \<Rightarrow> 'p store \<Rightarrow> submission list" where
  "component_submissions host_id owner_key fp db =
     sort_key ts_submission_id (filter (\<lambda>s. ts_host_id s = host_id \<and> ts_owner_key s = owner_key
       \<and> ts_instruction_fingerprint s = fp \<and> open_submission s) (submissions db))"

definition earliest :: "time list \<Rightarrow> time option" where
  "earliest ts = (case ts of [] \<Rightarrow> None | x # xs \<Rightarrow> Some (foldl min x xs))"

text \<open>The result: rows changed, and when the component should be looked at again.\<close>

definition settle_submission_links ::
  "ustr \<Rightarrow> ustr \<Rightarrow> ustr \<Rightarrow> time \<Rightarrow> 'p store \<Rightarrow> (nat \<times> time option \<times> 'p store) result" where
  "settle_submission_links host_id owner_key fp current db =
     (let subs = component_submissions host_id owner_key fp db in
      if subs = [] then Inr (0, None, db)
      else
        let obs = submission_link_candidate_turns db host_id owner_key fp;
            es = match_edges subs obs in
        bind_result (settle_loop current host_id subs obs es subs [] 0 [] db)
          (\<lambda>(changed, waiting, db1). Inr (changed, earliest waiting, db1)))"

section \<open>Sweeping every due component\<close>

definition component_is_due :: "ustr \<times> ustr \<times> ustr \<Rightarrow> time \<Rightarrow> 'p store \<Rightarrow> bool \<times> 'p store" where
  "component_is_due key current db =
     (case link_backoff db key of None \<Rightarrow> (True, db)
      | Some next_eligible \<Rightarrow>
          if current < next_eligible then (False, db)
          else (True, db\<lparr>link_backoff := (link_backoff db)(key := None)\<rparr>))"

definition backoff_component ::
  "ustr \<times> ustr \<times> ustr \<Rightarrow> time option \<Rightarrow> time \<Rightarrow> 'p store \<Rightarrow> 'p store" where
  "backoff_component key next_eligible current db =
     db\<lparr>link_backoff := (link_backoff db)(key := Some
       (case next_eligible of None \<Rightarrow> current + empty_component_recheck | Some t \<Rightarrow> t))\<rparr>"

definition prune_backoff ::
  "ustr option \<Rightarrow> (ustr \<times> ustr \<times> ustr) list \<Rightarrow> 'p store \<Rightarrow> 'p store" where
  "prune_backoff host active db =
     db\<lparr>link_backoff := (\<lambda>key. if (case host of None \<Rightarrow> True | Some h \<Rightarrow> fst key = h) \<and> key \<notin> set active
       then None else link_backoff db key)\<rparr>"

definition due_components :: "ustr option \<Rightarrow> time \<Rightarrow> 'p store \<Rightarrow> (ustr \<times> ustr \<times> ustr) list" where
  "due_components host current db =
     remdups (map (\<lambda>s. (ts_host_id s, ts_owner_key s, ts_instruction_fingerprint s))
       (filter (\<lambda>s. open_submission s \<and> ts_link_not_before s \<le> current
           \<and> (case host of None \<Rightarrow> True | Some h \<Rightarrow> ts_host_id s = h))
         (sort_key (\<lambda>s. [ts_host_id s, ts_owner_key s, ts_instruction_fingerprint s]) (submissions db))))"

fun settle_components ::
  "time \<Rightarrow> (ustr \<times> ustr \<times> ustr) list \<Rightarrow> nat \<Rightarrow> 'p store \<Rightarrow> (nat \<times> 'p store) result" where
  "settle_components current [] changed db = Inr (changed, db)"
| "settle_components current (key # keys) changed db =
     (case component_is_due key current db of (due, db1) \<Rightarrow>
        if \<not> due then settle_components current keys changed db1
        else case key of (host, owner_key, fp) \<Rightarrow>
          bind_result (settle_submission_links host owner_key fp current db1) (\<lambda>(n, next_eligible, db2).
            let db3 = (if n \<noteq> 0 then rearm_submission_link_component host owner_key fp db2
                       else backoff_component key next_eligible current db2)
            in settle_components current keys (changed + n) db3))"

definition settle_due_submission_links ::
  "ustr option \<Rightarrow> time \<Rightarrow> 'p store \<Rightarrow> (nat \<times> 'p store) result" where
  "settle_due_submission_links host current db =
     (let rows = due_components host current db
      in settle_components current rows 0 (prune_backoff host rows db))"

definition sweep_submission_links ::
  "store_env \<Rightarrow> ustr option \<Rightarrow> time option \<Rightarrow> 'p store \<Rightarrow> (nat \<times> 'p store) result" where
  "sweep_submission_links E host now db =
     (if \<not> db_exists db then Inr (0, db)
      else
        let current = command_request_now E now in
        bind_result (settle_due_submission_links host current db) (\<lambda>(changed, db1).
          Inr (changed, snd (expire_turn_submissions current host db1))))"

definition settle_submission_link_for_request ::
  "store_env \<Rightarrow> ustr \<Rightarrow> ustr \<Rightarrow> time option \<Rightarrow> 'p store
     \<Rightarrow> ((submission_state \<times> ustr option \<times> nat) option \<times> 'p store) result" where
  "settle_submission_link_for_request E host_id request_id now db =
     (if \<not> db_exists db then Inr (None, db)
      else
        let current = command_request_now E now in
        case submission_row db host_id request_id of
          None \<Rightarrow> Inr (None, db)
        | Some component \<Rightarrow>
            bind_result (settle_submission_links host_id (ts_owner_key component)
                (ts_instruction_fingerprint component) current db) (\<lambda>(changed, _, db1).
              Inr (map_option (\<lambda>row. (ts_state row, ts_linked_turn_id row, changed))
                     (submission_row db1 host_id request_id), db1)))"

end
