(* ===== verification/SettleProps.thy ===== *)
theory SettleProps
  imports Settle ExampleStore
begin

text \<open>
  What the link settlement guarantees: it can never violate the unique index on
  linked turns, it links only an edge that is a component by itself, and once every
  window of a component has closed none of its submissions stays open.
\<close>

section \<open>The component search\<close>

lemma explore_closed:
  assumes "explore es ps pt cs ct = (cs', ct')"
    and "\<forall>s \<in> set cs. set (turns_of es s) \<subseteq> set ct \<union> set pt"
    and "\<forall>t \<in> set ct. set (submissions_of es t) \<subseteq> set cs \<union> set ps"
    and "distinct cs" "distinct ct"
  shows "set cs \<union> set ps \<subseteq> set cs' \<and> distinct cs' \<and> distinct ct'
    \<and> (\<forall>s \<in> set cs'. set (turns_of es s) \<subseteq> set ct') \<and> (\<forall>t \<in> set ct'. set (submissions_of es t) \<subseteq> set cs')"
  using assms
proof (induction es ps pt cs ct rule: explore.induct)
  case (2 es s ps pt cs ct)
  show ?case
  proof (cases "s \<in> set cs")
    case True
    with 2 show ?thesis by (auto simp: insert_absorb)
  next
    case False
    have "\<forall>x \<in> set (s # cs). set (turns_of es x) \<subseteq> set ct \<union> set (turns_of es s @ pt)"
      using 2(4) by auto
    moreover have "\<forall>t \<in> set ct. set (submissions_of es t) \<subseteq> set (s # cs) \<union> set ps"
      using 2(5) by auto
    ultimately show ?thesis using 2(2)[OF False] 2(3,6,7) False by auto
  qed
next
  case (3 es t pt cs ct)
  show ?case
  proof (cases "t \<in> set ct")
    case True
    with 3 show ?thesis by (auto simp: insert_absorb)
  next
    case False
    have "\<forall>s \<in> set cs. set (turns_of es s) \<subseteq> set (t # ct) \<union> set pt"
      using 3(4) by auto
    moreover have "\<forall>x \<in> set (t # ct). set (submissions_of es x) \<subseteq> set cs \<union> set (submissions_of es t)"
      using 3(5) by auto
    ultimately show ?thesis using 3(2)[OF False] 3(3,6,7) False by auto
  qed
qed auto

lemma explore_start:
  assumes "explore es [sid] [] [] [] = (cs, ct)"
  shows "sid \<in> set cs" "distinct cs" "distinct ct"
    "\<And>s. s \<in> set cs \<Longrightarrow> set (turns_of es s) \<subseteq> set ct"
    "\<And>t. t \<in> set ct \<Longrightarrow> set (submissions_of es t) \<subseteq> set cs"
  using explore_closed[OF assms] by auto

lemma explore_sub:
  assumes "explore es ps pt cs ct = (cs', ct')"
  shows "set cs' \<subseteq> set cs \<union> set ps \<union> fst ` set es"
  using assms
proof (induction es ps pt cs ct rule: explore.induct)
  case (2 es s ps pt cs ct)
  then show ?case by (cases "s \<in> set cs") auto
next
  case (3 es t pt cs ct)
  have "set (submissions_of es t) \<subseteq> fst ` set es" by (auto simp: submissions_of_def)
  with 3 show ?case by (cases "t \<in> set ct") auto
qed auto

text \<open>An edge that is a component by itself.\<close>

definition lone_edge :: "(ustr \<times> ustr) list \<Rightarrow> ustr \<Rightarrow> ustr \<Rightarrow> bool" where
  "lone_edge es s t \<longleftrightarrow> (s, t) \<in> set es \<and> (\<forall>t'. (s, t') \<in> set es \<longrightarrow> t' = t) \<and> (\<forall>s'. (s', t) \<in> set es \<longrightarrow> s' = s)"

lemma in_turns_of: "t \<in> set (turns_of es s) \<longleftrightarrow> (s, t) \<in> set es"
  by (force simp: turns_of_def)

lemma in_submissions_of: "s \<in> set (submissions_of es t) \<longleftrightarrow> (s, t) \<in> set es"
  by (force simp: submissions_of_def)

lemma explore_single:
  assumes "explore es [sid] [] [] [] = (cs, ct)" "length cs = 1" "length ct = 1" "turns_of es sid \<noteq> []"
  shows "cs = [sid]" "lone_edge es sid (hd ct)"
proof -
  note c = explore_start[OF assms(1)]
  obtain s t where st: "cs = [s]" "ct = [t]" using assms(2,3) by (metis length_0_conv length_Suc_conv One_nat_def)
  with c(1) show cs: "cs = [sid]" by simp
  have sub: "set (turns_of es sid) \<subseteq> {t}" using c(4)[of sid] st cs by simp
  with assms(4) have "t \<in> set (turns_of es sid)" by (cases "turns_of es sid") auto
  then have 1: "(sid, t) \<in> set es" by (simp add: in_turns_of)
  have 2: "t' = t" if "(sid, t') \<in> set es" for t' using sub that in_turns_of[of t' es sid] by blast
  have "set (submissions_of es t) \<subseteq> {sid}" using c(5)[of t] st cs by simp
  then have 3: "s' = sid" if "(s', t) \<in> set es" for s' using that in_submissions_of[of s' es t] by blast
  show "lone_edge es sid (hd ct)" unfolding lone_edge_def st(2) list.sel using 1 2 3 by blast
qed

section \<open>Linking keeps the unique index\<close>

lemma linked_turns_Cons:
  "linked_turns (x # t) = (if ts_linked_turn_id x = None then linked_turns t
     else (ts_host_id x, ts_linked_turn_id x) # linked_turns t)"
  by (simp add: linked_turns_def)

lemma in_linked_turns: "(h, Some t) \<in> set (linked_turns T) \<longleftrightarrow>
    (\<exists>x \<in> set T. ts_host_id x = h \<and> ts_linked_turn_id x = Some t)"
  by (force simp: linked_turns_def)

abbreviation linked_row :: "ustr \<Rightarrow> time \<Rightarrow> submission \<Rightarrow> submission" where
  "linked_row turn_id current s \<equiv> s\<lparr>ts_linked_turn_id := Some turn_id, ts_state := LLinked,
     ts_linked_at := Some current, ts_updated_at := current\<rparr>"

lemma distinct_linked_link:
  assumes "unique_key submission_id_key T" "distinct (linked_turns T)" "(h, Some t) \<notin> set (linked_turns T)"
  shows "distinct (linked_turns (sql_update (submissions_with h [sid]) (linked_row t cur) T))
    \<and> set (linked_turns (sql_update (submissions_with h [sid]) (linked_row t cur) T))
       \<subseteq> insert (h, Some t) (set (linked_turns T))"
  using assms
proof (induction T)
  case (Cons x T)
  have IH: "distinct (linked_turns (sql_update (submissions_with h [sid]) (linked_row t cur) T))"
    "set (linked_turns (sql_update (submissions_with h [sid]) (linked_row t cur) T))
       \<subseteq> insert (h, Some t) (set (linked_turns T))"
    using Cons by (auto simp: linked_turns_Cons unique_key_def split: if_splits)
  show ?case
  proof (cases "submissions_with h [sid] x")
    case True
    have "\<not> submissions_with h [sid] y" if "y \<in> set T" for y
      using Cons.prems(1) that True
      by (auto simp: unique_key_def submissions_with_def submission_id_key_def image_iff)
    then have "sql_update (submissions_with h [sid]) (linked_row t cur) T = T" by (intro sql_update_id)
    moreover from True have "ts_host_id x = h" "ts_linked_turn_id x = None"
      by (simp_all add: submissions_with_def open_submission_def)
    ultimately show ?thesis using True Cons.prems by (auto simp: linked_turns_Cons)
  next
    case False
    then have "ts_host_id x = h \<longrightarrow> ts_linked_turn_id x \<noteq> Some t" using Cons.prems(3)
      by (auto simp: linked_turns_Cons split: if_splits)
    with False Cons.prems IH show ?thesis
      by (cases "ts_linked_turn_id x") (auto simp: linked_turns_Cons)
  qed
qed (simp add: linked_turns_def)

lemma link_submission_ok:
  assumes "ledger_ok db" "(h, Some t) \<notin> set (linked_turns (submissions db))"
  shows "\<exists>n. link_submission h sid t cur db = Inr (n, db\<lparr>submissions :=
      sql_update (submissions_with h [sid]) (linked_row t cur) (submissions db)\<rparr>)"
    and "ledger_ok (db\<lparr>submissions := sql_update (submissions_with h [sid]) (linked_row t cur) (submissions db)\<rparr>)"
proof -
  have u: "unique_key submission_id_key (submissions db)" "unique_key submission_key (submissions db)"
    "distinct (linked_turns (submissions db))"
    using assms(1) by (auto simp: ledger_ok_def submissions_unique_def)
  note d = distinct_linked_link[OF u(1,3) assms(2), of sid cur]
  show "\<exists>n. link_submission h sid t cur db = Inr (n, db\<lparr>submissions :=
      sql_update (submissions_with h [sid]) (linked_row t cur) (submissions db)\<rparr>)"
    using d by (simp add: link_submission_def Let_def)
  have "list_all submission_ok (sql_update (submissions_with h [sid]) (linked_row t cur) (submissions db))"
    using assms(1) by (auto simp: ledger_ok_def list_all_iff set_sql_update submission_ok_def)
  then show "ledger_ok (db\<lparr>submissions :=
      sql_update (submissions_with h [sid]) (linked_row t cur) (submissions db)\<rparr>)"
    using d u unfolding ledger_ok_def submissions_unique_def
    by (auto simp: unique_key_update submission_key_def submission_id_key_def)
qed

section \<open>The loop invariant\<close>

text \<open>How a settled row differs from the open submission it was.\<close>

definition settled_from :: "(ustr \<times> ustr) list \<Rightarrow> submission \<Rightarrow> submission \<Rightarrow> bool" where
  "settled_from es s x \<longleftrightarrow>
     submission_key x = submission_key s \<and> submission_id_key x = submission_id_key s
     \<and> ((ts_state x = LLinked \<and> (\<exists>t. ts_linked_turn_id x = Some t \<and> lone_edge es (ts_submission_id s) t))
        \<or> (ts_state x \<in> {LExpired, LAmbiguous} \<and> ts_linked_turn_id x = None))"

lemma settled_not_open: "settled_from es s x \<Longrightarrow> \<not> open_submission x"
  by (auto simp: settled_from_def open_submission_def open_state_def)

definition settle_inv ::
  "ustr \<Rightarrow> submission list \<Rightarrow> (ustr \<times> ustr) list \<Rightarrow> submission list \<Rightarrow> ustr list \<Rightarrow> 'p store \<Rightarrow> bool" where
  "settle_inv h subs es T visited db \<longleftrightarrow> ledger_ok db
     \<and> (\<forall>x \<in> set (submissions db). \<forall>t. ts_host_id x = h \<and> ts_linked_turn_id x = Some t
          \<and> t \<in> snd ` set es \<longrightarrow> (\<exists>s \<in> set visited. (s, t) \<in> set es))
     \<and> (\<forall>x \<in> set (submissions db). x \<in> set T \<or> (\<exists>s \<in> set subs. settled_from es s x))"

lemma settle_invD:
  assumes "settle_inv h subs es T visited db" "x \<in> set (submissions db)"
  shows "ts_host_id x = h \<Longrightarrow> ts_linked_turn_id x = Some t \<Longrightarrow> t \<in> snd ` set es
      \<Longrightarrow> \<exists>s \<in> set visited. (s, t) \<in> set es"
    and "x \<in> set T \<or> (\<exists>s \<in> set subs. settled_from es s x)"
  using assms unfolding settle_inv_def by blast+

lemma settle_invI:
  assumes "ledger_ok db"
    and "\<And>x t. x \<in> set (submissions db) \<Longrightarrow> ts_host_id x = h \<Longrightarrow> ts_linked_turn_id x = Some t
      \<Longrightarrow> t \<in> snd ` set es \<Longrightarrow> \<exists>s \<in> set visited. (s, t) \<in> set es"
    and "\<And>x. x \<in> set (submissions db) \<Longrightarrow> x \<in> set T \<or> (\<exists>s \<in> set subs. settled_from es s x)"
  shows "settle_inv h subs es T visited db"
  using assms unfolding settle_inv_def by blast

definition settle_setup ::
  "ustr \<Rightarrow> submission list \<Rightarrow> (ustr \<times> ustr) list \<Rightarrow> submission list \<Rightarrow> bool" where
  "settle_setup h subs es T \<longleftrightarrow> submissions_unique T
     \<and> (\<forall>s \<in> set subs. s \<in> set T \<and> ts_host_id s = h \<and> open_submission s)
     \<and> fst ` set es \<subseteq> ts_submission_id ` set subs"

lemma selected_row:
  assumes "settle_setup h subs es T" "settle_inv h subs es T visited db"
    and "x \<in> set (submissions db)" "submissions_with h sids x" "set sids \<subseteq> ts_submission_id ` set subs"
  shows "x \<in> set subs"
proof -
  have op: "open_submission x" "ts_host_id x = h" "ts_submission_id x \<in> set sids"
    using assms(4) by (simp_all add: submissions_with_def)
  then have "x \<in> set T" using assms(2,3) settled_not_open by (auto simp: settle_inv_def)
  moreover obtain s where s: "s \<in> set subs" "ts_submission_id s = ts_submission_id x"
    using assms(5) op(3) by auto
  ultimately have "x = s"
    using assms(1) op(2) unique_keyD[of submission_id_key T x s]
    by (auto simp: settle_setup_def submissions_unique_def submission_id_key_def)
  with s(1) show ?thesis by simp
qed

lemma close_step:
  assumes set: "settle_setup h subs es T" and inv: "settle_inv h subs es T visited db"
    and sids: "set sids \<subseteq> ts_submission_id ` set subs" and st: "st \<in> {LExpired, LAmbiguous}"
    and v: "set visited \<subseteq> set v"
  shows "settle_inv h subs es T v (snd (close_submissions h sids st cur db))"
proof -
  let ?f = "\<lambda>s. s\<lparr>ts_state := st, ts_terminal_at := Some cur, ts_updated_at := cur\<rparr>"
  let ?db = "db\<lparr>submissions := sql_update (submissions_with h sids) ?f (submissions db)\<rparr>"
  have "ledger_ok ?db"
    by (rule ledger_ok_update) (use inv st in \<open>auto simp: settle_inv_def submission_key_def
        submission_id_key_def submissions_with_def open_submission_def\<close>)
  moreover have "\<exists>s \<in> set v. (s, t) \<in> set es"
    if "x \<in> set (submissions ?db)" "ts_host_id x = h" "ts_linked_turn_id x = Some t" "t \<in> snd ` set es" for x t
  proof -
    have "x \<in> set (submissions db)"
    proof (rule ccontr)
      assume "x \<notin> set (submissions db)"
      with that(1) obtain y where "submissions_with h sids y" "x = ?f y" by (auto simp: set_sql_update)
      with that(3) show False by (simp add: submissions_with_def open_submission_def)
    qed
    with that(2-4) inv v show ?thesis unfolding settle_inv_def by blast
  qed
  moreover have "x \<in> set T \<or> (\<exists>s \<in> set subs. settled_from es s x)" if "x \<in> set (submissions ?db)" for x
  proof (cases "x \<in> set (submissions db)")
    case True
    then show ?thesis using inv by (auto simp: settle_inv_def)
  next
    case False
    with that obtain y where y: "y \<in> set (submissions db)" "submissions_with h sids y" "x = ?f y"
      by (auto simp: set_sql_update)
    have "y \<in> set subs" by (rule selected_row[OF set inv y(1,2) sids])
    moreover have "settled_from es y x"
      using y st by (auto simp: settled_from_def submission_key_def submission_id_key_def
          submissions_with_def open_submission_def)
    ultimately show ?thesis by blast
  qed
  ultimately have "settle_inv h subs es T v ?db" unfolding settle_inv_def by blast
  then show ?thesis by (simp add: close_submissions_def)
qed

lemma link_step:
  assumes set: "settle_setup h subs es T" and inv: "settle_inv h subs es T visited db"
    and lone: "lone_edge es sid t" and fresh: "sid \<notin> set visited"
    and v: "set visited \<subseteq> set v" "sid \<in> set v"
  shows "\<exists>n db'. link_submission h sid t cur db = Inr (n, db') \<and> settle_inv h subs es T v db'"
proof -
  let ?t = "sql_update (submissions_with h [sid]) (linked_row t cur) (submissions db)"
  have mem: "(sid, t) \<in> set es" using lone by (simp add: lone_edge_def)
  then have tmem: "t \<in> snd ` set es" "sid \<in> fst ` set es" by force+
  have led: "ledger_ok db" using inv by (simp add: settle_inv_def)
  have new: "(h, Some t) \<notin> set (linked_turns (submissions db))"
  proof
    assume "(h, Some t) \<in> set (linked_turns (submissions db))"
    then obtain x where "x \<in> set (submissions db)" "ts_host_id x = h" "ts_linked_turn_id x = Some t"
      by (auto simp: in_linked_turns)
    then obtain s where "s \<in> set visited" "(s, t) \<in> set es"
      using settle_invD(1)[OF inv] tmem(1) by blast
    with lone fresh show False unfolding lone_edge_def by blast
  qed
  have sids: "set [sid] \<subseteq> ts_submission_id ` set subs" using set tmem(2) by (auto simp: settle_setup_def)
  have "settle_inv h subs es T v (db\<lparr>submissions := ?t\<rparr>)"
  proof (rule settle_invI)
    show "ledger_ok (db\<lparr>submissions := ?t\<rparr>)" by (rule link_submission_ok(2)[OF led new])
  next
    fix x u assume x: "x \<in> set (submissions (db\<lparr>submissions := ?t\<rparr>))"
      "ts_host_id x = h" "ts_linked_turn_id x = Some u" "u \<in> snd ` set es"
    from x(1) have "x \<in> set ?t" by simp
    then show "\<exists>s \<in> set v. (s, u) \<in> set es"
    proof (cases rule: in_sql_updateE)
      case 1
      then show ?thesis using settle_invD(1)[OF inv 1(1) x(2-4)] v(1) by blast
    next
      case (2 y)
      with x(3) have "u = t" by simp
      with mem v(2) show ?thesis by blast
    qed
  next
    fix x assume "x \<in> set (submissions (db\<lparr>submissions := ?t\<rparr>))"
    then have "x \<in> set ?t" by simp
    then show "x \<in> set T \<or> (\<exists>s \<in> set subs. settled_from es s x)"
    proof (cases rule: in_sql_updateE)
      case 1
      then show ?thesis using settle_invD(2)[OF inv] by blast
    next
      case (2 y)
      have "settled_from es y x"
        using 2 lone by (simp add: settled_from_def submission_key_def submission_id_key_def submissions_with_def)
      with selected_row[OF set inv 2(1,2) sids] show ?thesis by blast
    qed
  qed
  with link_submission_ok(1)[OF led new, of sid cur] show ?thesis by blast
qed

text \<open>The loop keeps the invariant and never raises.\<close>

lemma settle_inv_mono:
  "settle_inv h subs es T visited db \<Longrightarrow> set visited \<subseteq> set v \<Longrightarrow> settle_inv h subs es T v db"
  unfolding settle_inv_def by blast

lemma settle_loop_inv:
  assumes set: "settle_setup h subs es T"
  shows "set rest \<subseteq> set subs \<Longrightarrow> settle_inv h subs es T visited db \<Longrightarrow>
    \<exists>n w db' v. settle_loop cur h subs obs es rest visited changed waiting db = Inr (n, w, db')
      \<and> settle_inv h subs es T v db'"
proof (induction rest arbitrary: visited changed waiting db)
  case (Cons s rest)
  let ?sid = "ts_submission_id s"
  have rest: "set rest \<subseteq> set subs" and s: "s \<in> set subs" using Cons.prems(1) by auto
  note IH = Cons.IH[OF rest]
  consider "?sid \<in> set visited" | "?sid \<notin> set visited" "turns_of es ?sid = []"
    | cs ct where "?sid \<notin> set visited" "turns_of es ?sid \<noteq> []" "explore es [?sid] [] [] [] = (cs, ct)"
    by (cases "explore es [?sid] [] [] []") auto
  then show ?case
  proof cases
    case 1
    then show ?thesis using IH[OF Cons.prems(2)] by simp
  next
    case 2
    have "settle_inv h subs es T visited (snd (close_submissions h [?sid] LExpired cur db))"
      using close_step[OF set Cons.prems(2), of "[?sid]" LExpired visited] s by auto
    moreover obtain n db1 where "close_submissions h [?sid] LExpired cur db = (n, db1)" by fastforce
    ultimately show ?thesis using 2 IH[OF Cons.prems(2)] IH[of visited db1] by (simp add: Let_def)
  next
    case 3
    have cs: "set cs \<subseteq> ts_submission_id ` set subs"
    proof -
      have "fst ` set es \<subseteq> ts_submission_id ` set subs" using set by (simp add: settle_setup_def)
      moreover have "ts_submission_id s \<in> ts_submission_id ` set subs" using s by blast
      moreover have "set cs \<subseteq> insert ?sid (fst ` set es)" using explore_sub[OF 3(3)] by simp
      ultimately show ?thesis by blast
    qed
    have v: "set visited \<subseteq> set (cs @ visited)" by auto
    note inv_v = settle_inv_mono[OF Cons.prems(2) v]
    have amb: "settle_inv h subs es T (cs @ visited) (snd (close_submissions h cs LAmbiguous cur db))"
      using close_step[OF set Cons.prems(2) cs _ v] by simp
    show ?thesis
    proof (cases "length cs = 1 \<and> length ct = 1")
      case True
      note single = explore_single[OF 3(3) conjunct1[OF True] conjunct2[OF True] 3(2)]
      obtain n db' where l: "link_submission h ?sid (hd ct) cur db = Inr (n, db')"
        "settle_inv h subs es T (cs @ visited) db'"
        using link_step[OF set Cons.prems(2) single(2) 3(1) v, of cur] single(1) by auto
      show ?thesis using 3 True single(1) l IH[OF l(2)] IH[OF inv_v] by (simp add: Let_def)
    next
      case False
      moreover obtain n db1 where c: "close_submissions h cs LAmbiguous cur db = (n, db1)" by fastforce
      moreover have "settle_inv h subs es T (cs @ visited) db1" using amb c by simp
      ultimately show ?thesis using 3 IH[of "cs @ visited" db1] IH[OF inv_v] by (auto simp: Let_def)
    qed
  qed
qed auto

section \<open>Settling a component\<close>

lemma in_match_edges:
  "(sid, t) \<in> set (match_edges subs obs) \<longleftrightarrow>
     (\<exists>s \<in> set subs. ts_submission_id s = sid \<and> (\<exists>c \<in> set obs. fst c = t \<and> link_edge s c))"
  by (force simp: match_edges_def)

lemma candidate_not_linked:
  assumes "c \<in> set (submission_link_candidate_turns db h ok fp)"
    and "x \<in> set (submissions db)" "ts_host_id x = h"
  shows "ts_linked_turn_id x \<noteq> Some (fst c)"
proof -
  obtain t v where t: "tr_host_id t = h" "turn_link_candidate db ok fp t v = Some c"
    using assms(1) by (auto simp: submission_link_candidate_turns_def map_filter_def)
  then obtain payload where "turn_selectable db t payload" "fst c = tr_turn_id t"
    by (auto simp: turn_link_candidate_def Let_def split: option.splits sum.splits if_splits)
  then show ?thesis using assms(2,3) t(1) by (auto simp: turn_selectable_def list_ex_iff)
qed

lemma component_setup:
  assumes "ledger_ok db"
  shows "settle_setup h (component_submissions h ok fp db)
      (match_edges (component_submissions h ok fp db) obs) (submissions db)"
proof -
  have "fst ` set (match_edges (component_submissions h ok fp db) obs)
      \<subseteq> ts_submission_id ` set (component_submissions h ok fp db)"
    by (auto simp: in_match_edges)
  then show ?thesis
    using assms by (auto simp: settle_setup_def component_submissions_def ledger_ok_def)
qed

lemma component_inv:
  assumes "ledger_ok db"
  shows "settle_inv h subs (match_edges subs (submission_link_candidate_turns db h ok fp)) (submissions db) [] db"
proof (rule settle_invI)
  fix x t assume x: "x \<in> set (submissions db)" "ts_host_id x = h" "ts_linked_turn_id x = Some t"
    "t \<in> snd ` set (match_edges subs (submission_link_candidate_turns db h ok fp))"
  then obtain c where "c \<in> set (submission_link_candidate_turns db h ok fp)" "fst c = t"
    by (auto simp: in_match_edges)
  then have False using candidate_not_linked[of c db h ok fp x] x(1-3) by simp
  then show "\<exists>s \<in> set []. (s, t) \<in> set (match_edges subs
      (submission_link_candidate_turns db h ok fp))" by (rule FalseE)
qed (use assms in auto)

lemma settle_result:
  assumes "ledger_ok db"
  obtains n nx db' where "settle_submission_links h ok fp cur db = Inr (n, nx, db')" "ledger_ok db'"
    "\<And>x. x \<in> set (submissions db') \<Longrightarrow> x \<in> set (submissions db) \<or> (\<exists>s \<in> set (component_submissions h ok fp db).
       settled_from (match_edges (component_submissions h ok fp db)
         (submission_link_candidate_turns db h ok fp)) s x)"
proof (cases "component_submissions h ok fp db = []")
  case True
  then show ?thesis using that[of 0 None db] assms by (simp add: settle_submission_links_def)
next
  case False
  let ?subs = "component_submissions h ok fp db"
  let ?obs = "submission_link_candidate_turns db h ok fp"
  obtain n w db' v where l: "settle_loop cur h ?subs ?obs (match_edges ?subs ?obs) ?subs [] 0 [] db = Inr (n, w, db')"
    "settle_inv h ?subs (match_edges ?subs ?obs) (submissions db) v db'"
    using settle_loop_inv[OF component_setup[OF assms] order.refl component_inv[OF assms]] by blast
  then have "settle_submission_links h ok fp cur db = Inr (n, earliest w, db')"
    using False by (simp add: settle_submission_links_def)
  moreover have "ledger_ok db'" using l(2) by (simp add: settle_inv_def)
  ultimately show ?thesis using that settle_invD(2)[OF l(2)] by blast
qed

text \<open>
  C23: settling a component never raises: the unique index on linked turns cannot be
  violated.  It keeps the ledger's invariant and changes only open submissions of
  the component: to expired or ambiguous without a turn, or to linked, and then the
  turn is the only candidate in the window of that submission and no other open
  submission of the component could claim it.
\<close>

theorem settle_links_only_unambiguous:
  assumes "ledger_ok db"
  shows "\<exists>n nx db'. settle_submission_links h ok fp cur db = Inr (n, nx, db') \<and> ledger_ok db' \<and>
    (\<forall>x \<in> set (submissions db'). x \<in> set (submissions db) \<or>
      (\<exists>s \<in> set (component_submissions h ok fp db). submission_id_key x = submission_id_key s \<and>
        (case ts_linked_turn_id x of
           None \<Rightarrow> ts_state x = LExpired \<or> ts_state x = LAmbiguous
         | Some t \<Rightarrow> ts_state x = LLinked
             \<and> (\<exists>c \<in> set (submission_link_candidate_turns db h ok fp). fst c = t \<and> link_edge s c)
             \<and> (\<forall>c \<in> set (submission_link_candidate_turns db h ok fp). link_edge s c \<longrightarrow> fst c = t)
             \<and> (\<forall>s' \<in> set (component_submissions h ok fp db).
                  \<forall>c \<in> set (submission_link_candidate_turns db h ok fp).
                    fst c = t \<and> link_edge s' c \<longrightarrow> s' = s))))"
proof -
  let ?subs = "component_submissions h ok fp db"
  let ?obs = "submission_link_candidate_turns db h ok fp"
  obtain n nx db' where r: "settle_submission_links h ok fp cur db = Inr (n, nx, db')" "ledger_ok db'"
    and rows: "\<And>x. x \<in> set (submissions db') \<Longrightarrow> x \<in> set (submissions db) \<or> (\<exists>s \<in> set ?subs.
       settled_from (match_edges ?subs ?obs) s x)"
    by (rule settle_result[OF assms]) blast
  have same: "s' = s" if "s \<in> set ?subs" "s' \<in> set ?subs" "ts_submission_id s' = ts_submission_id s" for s s'
    using that assms unique_keyD[of submission_id_key "submissions db" s' s]
    by (auto simp: component_submissions_def ledger_ok_def submissions_unique_def submission_id_key_def)
  have lone: "(\<exists>c \<in> set ?obs. fst c = t \<and> link_edge s c) \<and> (\<forall>c \<in> set ?obs. link_edge s c \<longrightarrow> fst c = t)
      \<and> (\<forall>s' \<in> set ?subs. \<forall>c \<in> set ?obs. fst c = t \<and> link_edge s' c \<longrightarrow> s' = s)"
    if s: "s \<in> set ?subs" and l: "lone_edge (match_edges ?subs ?obs) (ts_submission_id s) t" for s t
    using s l same unfolding lone_edge_def in_match_edges by metis
  have fits: "submission_id_key x = submission_id_key s \<and>
      (case ts_linked_turn_id x of
         None \<Rightarrow> ts_state x = LExpired \<or> ts_state x = LAmbiguous
       | Some t \<Rightarrow> ts_state x = LLinked \<and> (\<exists>c \<in> set ?obs. fst c = t \<and> link_edge s c)
           \<and> (\<forall>c \<in> set ?obs. link_edge s c \<longrightarrow> fst c = t)
           \<and> (\<forall>s' \<in> set ?subs. \<forall>c \<in> set ?obs. fst c = t \<and> link_edge s' c \<longrightarrow> s' = s))"
    if "s \<in> set ?subs" "settled_from (match_edges ?subs ?obs) s x" for s x
    using that(2) lone[OF that(1)] by (auto simp: settled_from_def)
  show ?thesis
    by (rule exI[of _ n], rule exI[of _ nx], rule exI[of _ db']) (use r rows fits in blast)
qed

section \<open>Progress\<close>

definition none_open :: "ustr \<Rightarrow> ustr set \<Rightarrow> 'p store \<Rightarrow> bool" where
  "none_open h P db \<longleftrightarrow>
     (\<forall>x \<in> set (submissions db). ts_host_id x = h \<and> ts_submission_id x \<in> P \<longrightarrow> \<not> open_submission x)"

lemma none_open_update:
  assumes "none_open h P db" "\<And>y. submissions_with h sids y \<Longrightarrow> \<not> open_submission (f y)"
  shows "none_open h (P \<union> set sids)
    (db\<lparr>submissions := sql_update (submissions_with h sids) f (submissions db)\<rparr>)"
  unfolding none_open_def
proof (intro ballI impI)
  fix x assume x: "x \<in> set (submissions (db\<lparr>submissions :=
      sql_update (submissions_with h sids) f (submissions db)\<rparr>))"
    "ts_host_id x = h \<and> ts_submission_id x \<in> P \<union> set sids"
  from x(1) have "x \<in> set (sql_update (submissions_with h sids) f (submissions db))" by simp
  then show "\<not> open_submission x"
  proof (cases rule: in_sql_updateE)
    case 1
    then show ?thesis using x(2) assms(1) unfolding none_open_def submissions_with_def by blast
  next
    case (2 y)
    then show ?thesis using assms(2) by blast
  qed
qed

lemma none_open_close:
  assumes "none_open h P db" "st \<in> {LExpired, LAmbiguous}"
  shows "none_open h (P \<union> set sids) (snd (close_submissions h sids st cur db))"
  unfolding close_submissions_def snd_conv
  by (rule none_open_update[OF assms(1)]) (use assms(2) in \<open>auto simp: open_submission_def open_state_def\<close>)

lemma none_open_link:
  assumes "none_open h P db" "link_submission h sid t cur db = Inr (n, db')"
  shows "none_open h (insert sid P) db'"
proof -
  have "db' = db\<lparr>submissions := sql_update (submissions_with h [sid]) (linked_row t cur) (submissions db)\<rparr>"
    using assms(2) by (simp add: link_submission_def Let_def split: if_splits)
  moreover have "none_open h (P \<union> set [sid])
      (db\<lparr>submissions := sql_update (submissions_with h [sid]) (linked_row t cur) (submissions db)\<rparr>)"
    by (rule none_open_update[OF assms(1)]) (simp add: open_submission_def)
  ultimately show ?thesis by simp
qed

lemma foldl_max_le: "foldl max x xs \<le> c \<longleftrightarrow> x \<le> c \<and> (\<forall>y \<in> set xs. y \<le> (c :: int))"
  by (induction xs arbitrary: x) auto

lemma component_boundary_closed:
  assumes "\<forall>s \<in> set subs. ts_link_expires_at s \<le> cur" "set cs \<subseteq> ts_submission_id ` set subs" "cs \<noteq> []"
  shows "component_boundary subs cs \<le> cur"
proof -
  obtain c s where "c \<in> set cs" "s \<in> set subs" "ts_submission_id s = c"
    using assms(2,3) by (cases cs) auto
  then have "filter (\<lambda>s. ts_submission_id s \<in> set cs) subs \<noteq> []" by (auto simp: filter_empty_conv)
  then obtain x xs where m: "map ts_link_expires_at (filter (\<lambda>s. ts_submission_id s \<in> set cs) subs) = x # xs"
    by (cases "filter (\<lambda>s. ts_submission_id s \<in> set cs) subs") auto
  have "\<forall>y \<in> set (x # xs). y \<le> cur" unfolding m[symmetric] using assms(1) by auto
  then show ?thesis by (simp add: component_boundary_def m foldl_max_le)
qed

lemma component_ids:
  assumes "settle_setup h subs es T" "s \<in> set subs" "explore es [ts_submission_id s] [] [] [] = (cs, ct)"
  shows "set cs \<subseteq> ts_submission_id ` set subs"
proof -
  have "fst ` set es \<subseteq> ts_submission_id ` set subs" using assms(1) by (simp add: settle_setup_def)
  moreover have "ts_submission_id s \<in> ts_submission_id ` set subs" using assms(2) by blast
  moreover have "set cs \<subseteq> insert (ts_submission_id s) (fst ` set es)" using explore_sub[OF assms(3)] by simp
  ultimately show ?thesis by blast
qed

lemma settle_loop_progress:
  assumes set: "settle_setup h subs es T" and closed: "\<forall>s \<in> set subs. ts_link_expires_at s \<le> cur"
  shows "set rest \<subseteq> set subs \<Longrightarrow> set visited \<subseteq> P \<Longrightarrow> none_open h P db
    \<Longrightarrow> settle_loop cur h subs obs es rest visited changed waiting db = Inr (n, w, db')
    \<Longrightarrow> none_open h (P \<union> ts_submission_id ` set rest) db' \<and> w = waiting"
proof (induction rest arbitrary: visited P changed waiting db)
  case (Cons s rest)
  let ?sid = "ts_submission_id s"
  have rest: "set rest \<subseteq> set subs" and s: "s \<in> set subs" using Cons.prems(1) by auto
  note IH = Cons.IH[OF rest]
  have exp: "\<not> cur < ts_link_expires_at s" using closed s by auto
  consider "?sid \<in> set visited" | "?sid \<notin> set visited" "turns_of es ?sid = []"
    | cs ct where "?sid \<notin> set visited" "turns_of es ?sid \<noteq> []" "explore es [?sid] [] [] [] = (cs, ct)"
    by (cases "explore es [?sid] [] [] []") auto
  then show ?case
  proof cases
    case 1
    then have "P \<union> ts_submission_id ` set (s # rest) = P \<union> ts_submission_id ` set rest"
      using Cons.prems(2) by auto
    with 1 IH[OF Cons.prems(2,3)] Cons.prems(4) show ?thesis by simp
  next
    case 2
    obtain k db1 where c: "close_submissions h [?sid] LExpired cur db = (k, db1)" by fastforce
    have "none_open h (P \<union> set [?sid]) db1"
      using none_open_close[OF Cons.prems(3), of LExpired "[?sid]" cur] c by simp
    from IH[OF _ this, of visited "changed + k" waiting] Cons.prems(2,4) 2 exp c
    show ?thesis by (auto simp: Let_def)
  next
    case 3
    have cs: "set cs \<subseteq> ts_submission_id ` set subs" "?sid \<in> set cs"
      using component_ids[OF set s 3(3)] explore_start(1)[OF 3(3)] by auto
    then have "component_boundary subs cs \<le> cur"
      by (intro component_boundary_closed[OF closed]) auto
    then have b: "\<not> cur < component_boundary subs cs" by simp
    have sub: "set (cs @ visited) \<subseteq> P \<union> set cs" using Cons.prems(2) by auto
    show ?thesis
    proof (cases "length cs = 1 \<and> length ct = 1")
      case True
      note single = explore_single[OF 3(3) conjunct1[OF True] conjunct2[OF True] 3(2)]
      obtain k db1 where l: "link_submission h ?sid (hd ct) cur db = Inr (k, db1)"
        using Cons.prems(4) 3 b True single(1) by (auto simp: Let_def bind_result_eq_Inr)
      have "none_open h (P \<union> set cs) db1" using none_open_link[OF Cons.prems(3) l] single(1) by simp
      from IH[OF sub this, of "if k = 1 then changed + 1 else changed" waiting] Cons.prems(4) 3 b True single(1) l
      show ?thesis by (auto simp: Let_def)
    next
      case False
      obtain k db1 where c: "close_submissions h cs LAmbiguous cur db = (k, db1)" by fastforce
      have "none_open h (P \<union> set cs) db1"
        using none_open_close[OF Cons.prems(3), of LAmbiguous cs cur] c by simp
      from IH[OF sub this, of "changed + k" waiting] Cons.prems(4) 3 b False c
      have "none_open h (P \<union> set cs \<union> ts_submission_id ` set rest) db' \<and> w = waiting"
        by (auto simp: Let_def)
      then show ?thesis using cs(2) by (auto simp: none_open_def)
    qed
  qed
qed auto

theorem settle_links_only_unambiguous_witness:
  "\<exists>n nx db'. settle_submission_links (lit ''h'') (lit ''k'') (lit ''i'') (200 * second)
     (ex_store [ex_receipt SendStarted] [ex_submission LSendStarted]) = Inr (n, nx, db') \<and> ledger_ok db'"
proof -
  have "ledger_ok (ex_store [ex_receipt SendStarted] [ex_submission LSendStarted])"
    by (rule store_ok_ledger, rule ex_store_ok(1)) simp
  from settle_links_only_unambiguous[OF this] show ?thesis by blast
qed

text \<open>
  C24: no submission waits for ever: once the link windows of all open submissions of
  a component have closed, settling leaves none of them open, and asks for no
  further look.
\<close>

theorem settle_closes_component:
  assumes "ledger_ok db"
    and "\<forall>s \<in> set (component_submissions h ok fp db). ts_link_expires_at s \<le> cur"
  shows "\<exists>n db'. settle_submission_links h ok fp cur db = Inr (n, None, db')
    \<and> component_submissions h ok fp db' = []"
proof (cases "component_submissions h ok fp db = []")
  case True
  then show ?thesis by (simp add: settle_submission_links_def)
next
  case False
  let ?subs = "component_submissions h ok fp db"
  let ?obs = "submission_link_candidate_turns db h ok fp"
  let ?es = "match_edges ?subs ?obs"
  note set = component_setup[OF assms(1), of h ok fp ?obs]
  obtain n w db' v where l: "settle_loop cur h ?subs ?obs ?es ?subs [] 0 [] db = Inr (n, w, db')"
    "settle_inv h ?subs ?es (submissions db) v db'"
    using settle_loop_inv[OF set order.refl component_inv[OF assms(1)]] by blast
  have "none_open h {} db" by (simp add: none_open_def)
  from settle_loop_progress[OF set assms(2) order.refl _ this l(1)]
  have p: "none_open h (ts_submission_id ` set ?subs) db'" "w = []" by auto
  have "\<not> open_submission x" if x: "x \<in> set (submissions db')" "ts_host_id x = h" "ts_owner_key x = ok"
      "ts_instruction_fingerprint x = fp" for x
  proof
    assume op: "open_submission x"
    then have "x \<in> set (submissions db)" using settle_invD(2)[OF l(2) x(1)] settled_not_open by blast
    then have "x \<in> set ?subs" using x op by (simp add: component_submissions_def)
    then show False using p(1) x(1,2) op by (auto simp: none_open_def)
  qed
  then have "component_submissions h ok fp db' = []"
    by (auto simp: component_submissions_def filter_empty_conv)
  with l(1) p(2) False show ?thesis by (simp add: settle_submission_links_def earliest_def)
qed

theorem settle_closes_component_witness:
  "\<exists>n db'. settle_submission_links (lit ''h'') (lit ''k'') (lit ''i'') (200 * second)
     (ex_store [ex_receipt SendStarted] [ex_submission LSendStarted]) = Inr (n, None, db')
   \<and> component_submissions (lit ''h'') (lit ''k'') (lit ''i'') db' = []"
proof -
  let ?db = "ex_store [ex_receipt SendStarted] [ex_submission LSendStarted]"
  have "ledger_ok ?db" by (rule store_ok_ledger, rule ex_store_ok(1)) simp
  moreover have "\<forall>s \<in> set (component_submissions (lit ''h'') (lit ''k'') (lit ''i'') ?db).
      ts_link_expires_at s \<le> 200 * second"
    by (simp add: component_submissions_def ex_store_def ex_submission_def second_def)
  ultimately show ?thesis by (rule settle_closes_component)
qed

end
