(* ===== verification/Retention.thy ===== *)
theory Retention
  imports Receipts
begin

text \<open>
  Retention of command evidence (\<open>cleanup_command_request_retention\<close> in
  \<open>store/sqlite.py\<close>): stale sends become uncertain, and inactive evidence beyond
  both the age floor and the per-host count floor is deleted, in one transaction of
  bounded size.
\<close>

section \<open>Policy\<close>

definition command_receipt_retention_seconds :: int where
  "command_receipt_retention_seconds = 2592000"

definition command_receipt_retention_min_seconds :: int where
  "command_receipt_retention_min_seconds = 691200"

definition command_receipt_retention_count :: int where
  "command_receipt_retention_count = 4096"

definition command_receipt_retention_batch_size :: int where
  "command_receipt_retention_batch_size = 100"

definition command_receipt_retention_batch_max :: int where
  "command_receipt_retention_batch_max = 1000"

definition sqlite_max_integer :: int where
  "sqlite_max_integer = 2 ^ 63 - 1"

definition max_timedelta_seconds :: int where
  "max_timedelta_seconds = 365000 * 24 * 60 * 60"

definition retention_policy_valid :: "int \<Rightarrow> int \<Rightarrow> int \<Rightarrow> int \<Rightarrow> bool" where
  "retention_policy_valid retry_horizon retention count batch \<longleftrightarrow>
     0 < retry_horizon \<and> 0 < retention \<and> 0 < count \<and> 0 < batch
     \<and> retry_horizon \<le> command_retry_horizon_seconds
     \<and> command_receipt_retention_min_seconds \<le> retention
     \<and> retention \<le> max_timedelta_seconds
     \<and> retry_horizon < retention
     \<and> count \<le> sqlite_max_integer
     \<and> batch \<le> command_receipt_retention_batch_max"

datatype retention_status = RetentionOk | InvalidPolicy | StoreUnavailable

record retention_result =
  rr_ok :: bool
  rr_status :: retention_status
  rr_host_id :: "ustr option"
  rr_dry_run :: bool
  rr_retry_horizon_seconds :: int
  rr_retention_seconds :: int
  rr_retention_count :: int
  rr_batch_size :: int
  rr_cutoff_at :: time
  rr_retry_cutoff_at :: time
  rr_examined :: nat
  rr_stale_active :: nat
  rr_deleted :: nat
  rr_remaining_candidates :: bool

section \<open>Selecting\<close>

definition in_scope :: "ustr option \<Rightarrow> ustr \<Rightarrow> bool" where
  "in_scope scope h \<longleftrightarrow> (case scope of None \<Rightarrow> True | Some s \<Rightarrow> h = s)"

definition stale_send :: "ustr option \<Rightarrow> time \<Rightarrow> receipt \<Rightarrow> bool" where
  "stale_send scope retry_cutoff r \<longleftrightarrow>
     rc_state r = SendStarted
     \<and> (case rc_send_started_at r of None \<Rightarrow> rc_updated_at r | Some t \<Rightarrow> t) < retry_cutoff
     \<and> in_scope scope (rc_host_id r)"

definition stale_rows :: "ustr option \<Rightarrow> time \<Rightarrow> nat \<Rightarrow> receipt list \<Rightarrow> receipt list" where
  "stale_rows scope retry_cutoff limit t =
     take limit (sort_key rc_updated_at (sort_key rc_host_id (sort_key rc_id
       (filter (stale_send scope retry_cutoff) t))))"

definition retention_at :: "receipt \<Rightarrow> time" where
  "retention_at r = (case rc_terminal_at r of None \<Rightarrow> rc_updated_at r | Some t \<Rightarrow> t)"

definition inactive_evidence :: "time \<Rightarrow> receipt \<Rightarrow> bool" where
  "inactive_evidence current r \<longleftrightarrow>
     terminal_state (rc_state r)
     \<or> (rc_state r = Reserved
        \<and> (case rc_owner_expires_at r of None \<Rightarrow> False | Some e \<Rightarrow> e \<le> current))"

text \<open>\<open>ROW_NUMBER() OVER (PARTITION BY host_id ORDER BY retention_at DESC, id DESC)\<close>\<close>

definition newer_evidence :: "receipt \<Rightarrow> receipt \<Rightarrow> bool" where
  "newer_evidence r s \<longleftrightarrow> rc_host_id s = rc_host_id r
     \<and> (retention_at r < retention_at s \<or> (retention_at r = retention_at s \<and> rc_id r < rc_id s))"

definition retention_rank :: "ustr option \<Rightarrow> time \<Rightarrow> receipt list \<Rightarrow> receipt \<Rightarrow> nat" where
  "retention_rank scope current t r =
     Suc (length (filter (\<lambda>s. inactive_evidence current s \<and> in_scope scope (rc_host_id s)
       \<and> newer_evidence r s) t))"

definition deletable ::
  "ustr option \<Rightarrow> time \<Rightarrow> time \<Rightarrow> nat \<Rightarrow> receipt list \<Rightarrow> receipt \<Rightarrow> bool" where
  "deletable scope current cutoff count t r \<longleftrightarrow>
     inactive_evidence current r \<and> in_scope scope (rc_host_id r)
     \<and> retention_at r < cutoff \<and> count < retention_rank scope current t r"

definition deletion_rows ::
  "ustr option \<Rightarrow> time \<Rightarrow> time \<Rightarrow> nat \<Rightarrow> nat \<Rightarrow> receipt list \<Rightarrow> receipt list" where
  "deletion_rows scope current cutoff count limit t =
     take limit (sort_key retention_at (sort_key rc_host_id (sort_key rc_id
       (filter (deletable scope current cutoff count t) t))))"

section \<open>Writing\<close>

definition uncertain_result_json :: ustr where
  "uncertain_result_json = json_dumps (JDict
     [(lit ''ok'', JBool False), (lit ''status'', JStr status_uncertain)])"

definition retire_stale_send :: "store_env \<Rightarrow> time \<Rightarrow> nat \<Rightarrow> 'p store \<Rightarrow> 'p store result" where
  "retire_stale_send E current rid db =
     bind_result (update_receipts (\<lambda>r. rc_id r = rid \<and> rc_state r = SendStarted)
         (terminal_row Uncertain status_uncertain uncertain_result_json current) db) (\<lambda>db1.
       case sql_fetchone (\<lambda>r. rc_id r = rid) (receipts db1) of
         None \<Rightarrow> Inr db1
       | Some row \<Rightarrow>
           bind_result (terminalize_turn_submission (rc_host_id row) (rc_request_id row) Uncertain current db1)
             (\<lambda>(_, db2).
           bind_result (project_command_request row db2) (\<lambda>db3.
             Inr (command_transition_event E row current
                    (Some [(lit ''reason'', JStr (lit ''retention_stale_active''))]) db3))))"

fun retire_stale_sends :: "store_env \<Rightarrow> time \<Rightarrow> nat list \<Rightarrow> 'p store \<Rightarrow> 'p store result" where
  "retire_stale_sends E current [] db = Inr db"
| "retire_stale_sends E current (rid # rids) db =
     bind_result (retire_stale_send E current rid db) (retire_stale_sends E current rids)"

definition delete_evidence :: "time \<Rightarrow> receipt \<Rightarrow> 'p store \<Rightarrow> 'p store" where
  "delete_evidence current r db =
     db\<lparr>submissions := sql_delete (\<lambda>s. ts_host_id s = rc_host_id r \<and> ts_request_id s = rc_request_id r)
          (submissions db),
        commands := sql_delete (\<lambda>c. cm_host_id c = rc_host_id r \<and> cm_request_id c = rc_request_id r)
          (commands db),
        receipts := sql_delete (\<lambda>x. rc_id x = rc_id r \<and> inactive_evidence current x) (receipts db)\<rparr>"

definition cleanup_command_request_retention ::
  "store_env \<Rightarrow> int \<Rightarrow> int \<Rightarrow> int \<Rightarrow> ustr option \<Rightarrow> time option \<Rightarrow> bool \<Rightarrow> int \<Rightarrow> 'p store
     \<Rightarrow> (retention_result \<times> 'p store) result" where
  "cleanup_command_request_retention E retry_horizon retention count scope now dry_run batch db =
     (let valid = retention_policy_valid retry_horizon retention count batch;
          current = command_request_now E now;
          retention1 = (if valid then retention else command_receipt_retention_seconds);
          retry1 = (if valid then retry_horizon else command_retry_horizon_seconds);
          cutoff_at = whole_seconds (current - retention1 * second);
          retry_cutoff_at = whole_seconds (current - retry1 * second);
          base_result = \<lparr>rr_ok = False, rr_status = InvalidPolicy, rr_host_id = scope,
            rr_dry_run = dry_run, rr_retry_horizon_seconds = retry1, rr_retention_seconds = retention1,
            rr_retention_count = (if valid then count else command_receipt_retention_count),
            rr_batch_size = (if valid then batch else command_receipt_retention_batch_size),
            rr_cutoff_at = cutoff_at, rr_retry_cutoff_at = retry_cutoff_at, rr_examined = 0,
            rr_stale_active = 0, rr_deleted = 0, rr_remaining_candidates = False\<rparr>
      in
      if \<not> valid then Inr (base_result, db)
      else if \<not> db_exists db then Inr (base_result\<lparr>rr_status := StoreUnavailable\<rparr>, db)
      else
        let bound = nat batch; floor = nat count;
            db1 = (if dry_run then db else snd (expire_turn_submissions current scope db));
            candidates = stale_rows scope retry_cutoff_at (Suc bound) (receipts db1);
            stale_ids = map rc_id (take bound candidates);
            capacity = bound - length stale_ids;
            stale_overflow = (length stale_ids < length candidates)
        in bind_result (if dry_run then Inr db1 else retire_stale_sends E current stale_ids db1) (\<lambda>db2.
        let found = (if 0 < capacity \<and> \<not> stale_overflow
                     then deletion_rows scope current cutoff_at floor (Suc capacity) (receipts db2) else []);
            doomed = take capacity found;
            deletion_overflow =
              (if capacity = 0 \<and> \<not> stale_overflow
               then list_ex (deletable scope current cutoff_at floor (receipts db2)) (receipts db2)
               else capacity < length found);
            db3 = (if dry_run then db else fold (delete_evidence current) doomed db2)
        in Inr (base_result\<lparr>rr_ok := True, rr_status := RetentionOk,
                  rr_examined := length stale_ids + length doomed,
                  rr_stale_active := length stale_ids, rr_deleted := length doomed,
                  rr_remaining_candidates := (stale_overflow \<or> deletion_overflow)\<rparr>, db3)))"

end
