(* ===== verification/RetentionProps.thy ===== *)
theory RetentionProps
  imports Retention ReceiptOps ExampleStore
begin

text \<open>
  What retention guarantees: it keeps the store's invariant and never raises, it
  never touches live work, it deletes nothing younger than the retention age, and
  every host keeps the configured number of inactive receipts.
\<close>

section \<open>Retiring stale sends\<close>

definition retired :: "time \<Rightarrow> receipt \<Rightarrow> receipt" where
  "retired current r = (if rc_state r = SendStarted
     then terminal_row Uncertain status_uncertain uncertain_result_json current r else r)"

lemma retired_simps [simp]:
  "rc_id (retired cur r) = rc_id r" "receipt_key (retired cur r) = receipt_key r"
  by (simp_all add: retired_def terminal_row_def receipt_key_def)

lemma retired_ok: "receipt_ok r \<Longrightarrow> receipt_ok (retired cur r)"
  using terminal_row_ok[of r Uncertain status_uncertain uncertain_result_json cur]
  by (simp add: retired_def terminal_status_ok_def)

lemma fetchone_id:
  assumes "unique_key rc_id t" "r \<in> set t"
  shows "sql_fetchone (\<lambda>x. rc_id x = rc_id r) t = Some r"
  using fetchone_unique[OF assms] .

lemma retire_stale_send_put:
  assumes ok: "store_ok db" and r: "r \<in> set (receipts db)"
  shows "\<exists>db'. retire_stale_send E cur (rc_id r) db = Inr db' \<and> store_ok db'
    \<and> receipts db' = put_receipt (retired cur r) (receipts db) \<and> db_exists db' = db_exists db"
proof -
  have u: "unique_key rc_id (receipts db)" and rok: "receipt_ok r"
    using ok r by (auto simp: store_ok_def list_all_iff)
  let ?s = "retired cur r"
  let ?sel = "\<lambda>x. rc_id x = rc_id r \<and> rc_state x = SendStarted"
  let ?db1 = "db\<lparr>receipts := put_receipt ?s (receipts db)\<rparr>"
  have s_ok: "receipt_ok ?s" by (rule retired_ok[OF rok])
  have upd: "update_receipts ?sel (terminal_row Uncertain status_uncertain uncertain_result_json cur) db = Inr ?db1"
  proof (cases "rc_state r = SendStarted")
    case True
    then show ?thesis
      using update_receipts_single(1)[OF u r, of ?sel "terminal_row Uncertain status_uncertain uncertain_result_json cur"] s_ok
      by (simp add: retired_def receipt_ok_def)
  next
    case False
    have none: "\<not> ?sel x" if "x \<in> set (receipts db)" for x
      using unique_keyD[OF u that r] False by auto
    have "put_receipt r (receipts db) = receipts db"
      unfolding put_receipt_def sql_update_def using unique_keyD[OF u _ r] by (intro map_idI) auto
    then show ?thesis
      using none False by (auto simp: update_receipts_def checked_update_def list_all_iff sql_update_id retired_def)
  qed
  have s_in: "?s \<in> set (receipts ?db1)" "unique_key rc_id (receipts ?db1)"
    using in_put_receipt[OF u r, of ?s] map_put_receipt[OF u r, of ?s rc_id] u
    by (simp_all add: unique_key_def)
  have fetch: "sql_fetchone (\<lambda>x. rc_id x = rc_id r) (receipts ?db1) = Some ?s"
    using fetchone_id[OF s_in(2,1)] by simp
  have "ledger_ok ?db1" using store_ok_ledger[OF ok] by (simp add: ledger_ok_def)
  then obtain b t where tmn: "terminalize_turn_submission (rc_host_id ?s) (rc_request_id ?s) Uncertain cur ?db1
      = Inr (b, ?db1\<lparr>submissions := t\<rparr>)" "ledger_ok (?db1\<lparr>submissions := t\<rparr>)"
    using terminalize_total[of ?db1] by blast
  let ?db3 = "committed E ?s cur (Some [(lit ''reason'', JStr (lit ''retention_stale_active''))]) (?db1\<lparr>submissions := t\<rparr>)"
  have "command_check (audit_row ?s)" using s_ok by (simp add: audit_row_check receipt_ok_def)
  then have "retire_stale_send E cur (rc_id r) db = Inr ?db3"
    using upd fetch tmn(1)
    by (simp add: retire_stale_send_def project_command_request_def Let_def committed_def)
  moreover have "store_ok ?db3"
    by (rule store_ok_put[OF ok r _ _ s_ok]) (use tmn(2) in \<open>simp_all add: ledger_ok_def\<close>)
  ultimately show ?thesis by auto
qed

lemma map_retired_put:
  assumes "unique_key rc_id t" "r \<in> set t"
  shows "put_receipt (retired cur r) t = map (\<lambda>x. if x = r then retired cur x else x) t"
  using unique_keyD[OF assms(1) _ assms(2)] by (auto simp: put_receipt_def sql_update_def)

lemma retire_stale_sends_ok:
  assumes "store_ok db" "set rids \<subseteq> rc_id ` set (receipts db)" "distinct rids"
  shows "\<exists>db'. retire_stale_sends E cur rids db = Inr db' \<and> store_ok db' \<and> db_exists db' = db_exists db
    \<and> receipts db' = map (\<lambda>x. if rc_id x \<in> set rids then retired cur x else x) (receipts db)"
  using assms
proof (induction rids arbitrary: db)
  case (Cons rid rids)
  obtain r where r: "r \<in> set (receipts db)" "rid = rc_id r" using Cons.prems(2) by auto
  have u: "unique_key rc_id (receipts db)" using Cons.prems(1) by (simp add: store_ok_def)
  obtain db1 where d: "retire_stale_send E cur rid db = Inr db1" "store_ok db1"
    "receipts db1 = put_receipt (retired cur r) (receipts db)" "db_exists db1 = db_exists db"
    using retire_stale_send_put[OF Cons.prems(1) r(1)] r(2) by auto
  have m: "receipts db1 = map (\<lambda>x. if x = r then retired cur x else x) (receipts db)"
    using d(3) map_retired_put[OF u r(1)] by simp
  then have ids: "map rc_id (receipts db1) = map rc_id (receipts db)" by simp
  then have "set rids \<subseteq> rc_id ` set (receipts db1)"
    using Cons.prems(2) by (metis image_set insert_subset list.simps(15))
  then obtain db' where d': "retire_stale_sends E cur rids db1 = Inr db'" "store_ok db'"
    "db_exists db' = db_exists db1"
    "receipts db' = map (\<lambda>x. if rc_id x \<in> set rids then retired cur x else x) (receipts db1)"
    using Cons.IH[OF d(2)] Cons.prems(3) by auto
  have "receipts db' = map (\<lambda>x. if rc_id x \<in> set (rid # rids) then retired cur x else x) (receipts db)"
    unfolding d'(4) m map_map
    using Cons.prems(3) r(2) unique_keyD[OF u _ r(1)] by (auto simp: comp_def)
  with d(1,4) d' show ?case by simp
qed simp

section \<open>Deleting\<close>

lemma sql_delete_set [sql]: "set (sql_delete p t) = {x \<in> set t. \<not> p x}"
  by (auto simp: sql_delete_def)

lemma linked_turns_delete:
  assumes "distinct (linked_turns t)"
  shows "distinct (linked_turns (sql_delete p t))"
proof -
  have "filter (\<lambda>s. ts_linked_turn_id s \<noteq> None) (sql_delete p t) =
      filter (\<lambda>s. \<not> p s) (filter (\<lambda>s. ts_linked_turn_id s \<noteq> None) t)"
    by (simp add: sql_delete_def conj_commute)
  with assms show ?thesis by (simp only: linked_turns_def distinct_map_filter)
qed

lemma delete_evidence_ok:
  assumes ok: "store_ok db" and r: "r \<in> set (receipts db)" "inactive_evidence cur r"
  shows "store_ok (delete_evidence cur r db)"
    and "receipts (delete_evidence cur r db) = filter (\<lambda>x. x \<noteq> r) (receipts db)"
proof -
  have u: "unique_key rc_id (receipts db)" "unique_key receipt_key (receipts db)"
    using ok by (simp_all add: store_ok_def)
  show rec: "receipts (delete_evidence cur r db) = filter (\<lambda>x. x \<noteq> r) (receipts db)"
    using unique_keyD[OF u(1) _ r(1)] r(2)
    by (auto simp: delete_evidence_def sql_delete_def intro!: filter_cong)
  let ?db = "delete_evidence cur r db"
  have coms: "commands ?db = sql_delete (\<lambda>c. command_key c = receipt_key r) (commands db)"
    by (simp add: delete_evidence_def command_key_def receipt_key_def)
  have "list_ex (\<lambda>c. mirrors c x) (commands ?db)" if x: "x \<in> set (receipts db)" "x \<noteq> r" for x
  proof -
    have "receipt_key x \<noteq> receipt_key r" using unique_keyD[OF u(2) x(1) r(1)] x(2) by blast
    moreover obtain c where c: "c \<in> set (commands db)" "mirrors c x"
      using ok x(1) by (auto simp: store_ok_def list_all_iff list_ex_iff)
    ultimately have "c \<in> set (commands ?db)" using mirrors_key[OF c(2)] by (simp add: coms sql_delete_set)
    with c(2) show ?thesis by (auto simp: list_ex_iff)
  qed
  moreover have "unique_key command_key (commands ?db)"
    using ok by (simp add: coms unique_key_delete store_ok_def)
  moreover have "submissions_unique (submissions ?db)" "list_all submission_ok (submissions ?db)"
    using ok by (auto simp: delete_evidence_def submissions_unique_def unique_key_delete
        linked_turns_delete store_ok_def list_all_iff sql_delete_set)
  moreover have "unique_key rc_id (filter (\<lambda>x. x \<noteq> r) (receipts db))"
    "unique_key receipt_key (filter (\<lambda>x. x \<noteq> r) (receipts db))"
    using u unique_key_delete[of rc_id "receipts db" "\<lambda>x. x = r"] unique_key_delete[of receipt_key "receipts db" "\<lambda>x. x = r"]
    by (simp_all add: sql_delete_def)
  moreover have "receipt_seq ?db = receipt_seq db" by (simp add: delete_evidence_def)
  ultimately show "store_ok ?db" using ok by (auto simp: store_ok_def rec list_all_iff)
qed

lemma fold_delete_evidence:
  assumes "store_ok db" "set ds \<subseteq> set (receipts db)" "\<forall>r \<in> set ds. inactive_evidence cur r" "distinct ds"
  shows "store_ok (fold (delete_evidence cur) ds db)
    \<and> receipts (fold (delete_evidence cur) ds db) = filter (\<lambda>x. x \<notin> set ds) (receipts db)"
  using assms
proof (induction ds arbitrary: db)
  case (Cons r ds)
  note d = delete_evidence_ok[of db r cur]
  have "store_ok (delete_evidence cur r db)"
    "receipts (delete_evidence cur r db) = filter (\<lambda>x. x \<noteq> r) (receipts db)"
    using d Cons.prems by auto
  moreover from this(2) have "set ds \<subseteq> set (receipts (delete_evidence cur r db))"
    using Cons.prems by auto
  ultimately have "store_ok (fold (delete_evidence cur) ds (delete_evidence cur r db))
    \<and> receipts (fold (delete_evidence cur) ds (delete_evidence cur r db))
      = filter (\<lambda>x. x \<notin> set ds) (filter (\<lambda>x. x \<noteq> r) (receipts db))"
    using Cons by auto
  then show ?case by (auto intro: filter_cong)
qed simp

section \<open>Ranks\<close>

lemma rank_counts:
  assumes fin: "finite S"
    and irr: "\<And>s. \<not> N s s" and tr: "\<And>a b c. N a b \<Longrightarrow> N b c \<Longrightarrow> N a c"
    and tot: "\<And>a b. a \<in> S \<Longrightarrow> b \<in> S \<Longrightarrow> a \<noteq> b \<Longrightarrow> N a b \<or> N b a"
    and c: "c \<le> card S"
  shows "card {s \<in> S. card {x \<in> S. N s x} < c} = c"
proof -
  let ?g = "\<lambda>s. card {x \<in> S. N s x}"
  have less: "?g b < ?g a" if "a \<in> S" "b \<in> S" "N a b" for a b
  proof (rule psubset_card_mono)
    show "finite {x \<in> S. N a x}" using fin by simp
    show "{x \<in> S. N b x} \<subset> {x \<in> S. N a x}" using that tr irr by blast
  qed
  have inj: "inj_on ?g S"
  proof (rule inj_onI, rule ccontr)
    fix a b assume ab: "a \<in> S" "b \<in> S" "?g a = ?g b" "a \<noteq> b"
    from tot[OF ab(1,2,4)] show False
    proof
      assume "N a b" from less[OF ab(1,2) this] ab(3) show False by simp
    next
      assume "N b a" from less[OF ab(2,1) this] ab(3) show False by simp
    qed
  qed
  have range: "?g ` S \<subseteq> {0..<card S}"
  proof
    fix n assume "n \<in> ?g ` S"
    then obtain s where s: "s \<in> S" "n = ?g s" by blast
    have "{x \<in> S. N s x} \<subset> S" using s(1) irr by blast
    then show "n \<in> {0..<card S}" using s(2) psubset_card_mono[OF fin] by simp
  qed
  have "card (?g ` S) = card {0..<card S}" by (simp add: card_image[OF inj])
  then have onto: "?g ` S = {0..<card S}" using range by (intro card_subset_eq) simp_all
  have "?g ` {s \<in> S. ?g s < c} = {n \<in> ?g ` S. n < c}" by blast
  also have "\<dots> = {0..<c}" unfolding onto using c by auto
  finally have "card (?g ` {s \<in> S. ?g s < c}) = c" by simp
  moreover have "inj_on ?g {s \<in> S. ?g s < c}" by (rule inj_on_subset[OF inj]) blast
  ultimately show ?thesis using card_image by fastforce
qed

section \<open>The whole sweep\<close>

lemma store_ok_submissions:
  "store_ok db \<Longrightarrow> ledger_ok (db\<lparr>submissions := t\<rparr>) \<Longrightarrow> store_ok (db\<lparr>submissions := t\<rparr>)"
  by (simp add: store_ok_def ledger_ok_def)

lemma expire_store_ok:
  assumes "store_ok db"
  shows "store_ok (snd (expire_turn_submissions cur scope db))"
proof -
  have "ledger_ok (db\<lparr>submissions := sql_update (expirable cur scope)
      (\<lambda>s. s\<lparr>ts_state := LExpired, ts_terminal_at := Some cur, ts_updated_at := cur\<rparr>) (submissions db)\<rparr>)"
    by (rule ledger_ok_update[OF store_ok_ledger[OF assms]])
      (auto simp: expirable_def submission_key_def submission_id_key_def)
  with assms show ?thesis by (simp add: expire_turn_submissions_def store_ok_submissions)
qed

lemma whole_seconds_minus [simp]:
  "whole_seconds (whole_seconds t - n * second) = whole_seconds t - n * second"
proof -
  have "whole_seconds t - n * second = (t div second - n) * second"
    by (simp add: whole_seconds_def left_diff_distrib)
  then show ?thesis by (simp add: whole_seconds_def second_def)
qed

lemma set_stale_rows: "set (stale_rows scope rc n t) \<subseteq> {r \<in> set t. stale_send scope rc r}"
  by (auto simp: stale_rows_def dest: in_set_takeD)

lemma set_deletion_rows: "set (deletion_rows scope cur co c n t) \<subseteq> {r \<in> set t. deletable scope cur co c t r}"
  by (auto simp: deletion_rows_def dest: in_set_takeD)

lemma distinct_rows: "unique_key rc_id t \<Longrightarrow> distinct t"
  by (simp add: unique_key_def distinct_map)

lemma distinct_stale_ids:
  assumes "unique_key rc_id t"
  shows "distinct (map rc_id (take m (stale_rows scope rc n t)))"
proof -
  have "inj_on rc_id (set t)" using assms by (simp add: unique_key_def distinct_map)
  moreover have "distinct (stale_rows scope rc n t)"
    using distinct_rows[OF assms] by (simp add: stale_rows_def)
  ultimately show ?thesis
    using set_stale_rows[of scope rc n t]
    by (auto simp: distinct_map intro: inj_on_subset dest: in_set_takeD)
qed

lemma cleanup_shape:
  fixes db :: "'p store"
  assumes ok: "store_ok db" and valid: "retention_policy_valid rh ret cnt batch" and ex: "db_exists db"
    and cur: "cur = command_request_now E now"
  shows "\<exists>res db' ids (db2 :: 'p store) ds. cleanup_command_request_retention E rh ret cnt scope now False batch db = Inr (res, db')
    \<and> store_ok db' \<and> store_ok db2
    \<and> (\<forall>x \<in> set (receipts db). rc_id x \<in> set ids \<longrightarrow> rc_state x = SendStarted)
    \<and> receipts db2 = map (\<lambda>x. if rc_id x \<in> set ids then retired cur x else x) (receipts db)
    \<and> (\<forall>r \<in> set ds. r \<in> set (receipts db2)
         \<and> deletable scope cur (cur - ret * second) (nat cnt) (receipts db2) r)
    \<and> receipts db' = filter (\<lambda>x. x \<notin> set ds) (receipts db2)
    \<and> rr_examined res \<le> nat batch"
proof -
  let ?cut = "cur - ret * second" and ?rcut = "whole_seconds (cur - rh * second)"
  have cut: "whole_seconds (cur - ret * second) = ?cut" unfolding cur command_request_now_def by simp
  let ?db1 = "snd (expire_turn_submissions cur scope db)"
  have ok1: "store_ok ?db1" by (rule expire_store_ok[OF ok])
  have rec1: "receipts ?db1 = receipts db" by (simp add: expire_turn_submissions_def)
  let ?cand = "stale_rows scope ?rcut (Suc (nat batch)) (receipts db)"
  let ?ids = "map rc_id (take (nat batch) ?cand)"
  have u: "unique_key rc_id (receipts db)" using ok by (simp add: store_ok_def)
  have sub: "set ?ids \<subseteq> rc_id ` set (receipts ?db1)"
    using set_stale_rows[of scope ?rcut "Suc (nat batch)" "receipts db"] by (auto simp: rec1 dest: in_set_takeD)
  obtain db2 where d2: "retire_stale_sends E cur ?ids ?db1 = Inr db2" "store_ok db2"
    "receipts db2 = map (\<lambda>x. if rc_id x \<in> set ?ids then retired cur x else x) (receipts db)"
    using retire_stale_sends_ok[OF ok1 sub distinct_stale_ids[OF u]] unfolding rec1 by auto
  let ?cap = "nat batch - length ?ids"
  let ?found = "if 0 < ?cap \<and> \<not> length ?ids < length ?cand
      then deletion_rows scope cur ?cut (nat cnt) (Suc ?cap) (receipts db2) else []"
  let ?ds = "take ?cap ?found"
  have ds: "\<forall>r \<in> set ?ds. r \<in> set (receipts db2) \<and> deletable scope cur ?cut (nat cnt) (receipts db2) r"
    using set_deletion_rows[of scope cur ?cut "nat cnt" "Suc ?cap" "receipts db2"]
    by (auto dest!: in_set_takeD split: if_splits)
  have "distinct (receipts db2)" using d2(2) by (simp add: store_ok_def distinct_rows)
  then have dd: "distinct ?ds" by (simp add: deletion_rows_def)
  have fold: "store_ok (fold (delete_evidence cur) ?ds db2)
      \<and> receipts (fold (delete_evidence cur) ?ds db2) = filter (\<lambda>x. x \<notin> set ?ds) (receipts db2)"
    by (rule fold_delete_evidence[OF d2(2) _ _ dd]) (use ds in \<open>auto simp: deletable_def\<close>)
  have stale: "rc_state x = SendStarted" if x: "x \<in> set (receipts db)" "rc_id x \<in> set ?ids" for x
  proof -
    obtain y where "y \<in> set (receipts db)" "stale_send scope ?rcut y" "rc_id y = rc_id x"
      using x(2) set_stale_rows[of scope ?rcut "Suc (nat batch)" "receipts db"] by (auto dest!: in_set_takeD)
    then show ?thesis using unique_keyD[OF u _ x(1)] by (auto simp: stale_send_def)
  qed
  have "length ?ids \<le> nat batch" by simp
  moreover have "length ?ds \<le> ?cap" by (simp only: length_take min.cobounded2)
  ultimately have len: "length ?ids + length ?ds \<le> nat batch" by linarith
  have "\<exists>res. cleanup_command_request_retention E rh ret cnt scope now False batch db
      = Inr (res, fold (delete_evidence cur) ?ds db2) \<and> rr_examined res = length ?ids + length ?ds"
    unfolding cleanup_command_request_retention_def Let_def cur[symmetric] cut
    using valid ex by (simp only: cut rec1 d2(1) simp_thms if_True if_False bind_result_simps)
      (rule exI, rule conjI, rule refl, simp only: retention_result.simps)
  then obtain res where res: "cleanup_command_request_retention E rh ret cnt scope now False batch db
      = Inr (res, fold (delete_evidence cur) ?ds db2)" "rr_examined res = length ?ids + length ?ds" by blast
  have all: "\<forall>x \<in> set (receipts db). rc_id x \<in> set ?ids \<longrightarrow> rc_state x = SendStarted"
    using stale by blast
  have bound: "rr_examined res \<le> nat batch" using res(2) len by (rule ord_eq_le_trans)
  show ?thesis
    by (rule exI[of _ res], rule exI[of _ "fold (delete_evidence cur) ?ds db2"], rule exI[of _ ?ids],
        rule exI[of _ db2], rule exI[of _ ?ds])
      (intro conjI res(1) conjunct1[OF fold] conjunct2[OF fold] d2(2,3) ds all bound)
qed

section \<open>The floor\<close>

lemma retention_rank_card:
  assumes "distinct t"
  shows "retention_rank scope cur t r = Suc (card {x \<in> set t. inactive_evidence cur x
    \<and> in_scope scope (rc_host_id x) \<and> newer_evidence r x})"
proof -
  let ?p = "\<lambda>s. inactive_evidence cur s \<and> in_scope scope (rc_host_id s) \<and> newer_evidence r s"
  have "card (set (filter ?p t)) = length (filter ?p t)" by (intro distinct_card distinct_filter assms)
  then show ?thesis by (simp add: retention_rank_def)
qed

lemma floor_survives:
  assumes u: "unique_key rc_id t" and ds: "\<forall>r \<in> set ds. r \<in> set t \<and> deletable scope cur co c t r"
    and r: "r \<in> set ds"
  shows "c \<le> card {s \<in> set (filter (\<lambda>x. x \<notin> set ds) t). inactive_evidence cur s \<and> rc_host_id s = rc_host_id r}"
proof -
  let ?S = "{s \<in> set t. inactive_evidence cur s \<and> rc_host_id s = rc_host_id r}"
  let ?rank = "\<lambda>s. card {x \<in> ?S. newer_evidence s x}"
  have scope: "in_scope scope (rc_host_id r)" using r ds by (auto simp: deletable_def)
  have rank: "retention_rank scope cur t s = Suc (?rank s)" if "s \<in> ?S" for s
  proof -
    have "{x \<in> set t. inactive_evidence cur x \<and> in_scope scope (rc_host_id x) \<and> newer_evidence s x}
        = {x \<in> ?S. newer_evidence s x}"
      using that scope by (auto simp: newer_evidence_def)
    then show ?thesis by (simp add: retention_rank_card[OF distinct_rows[OF u]])
  qed
  have fin: "finite ?S" by simp
  have "r \<in> ?S" "c < retention_rank scope cur t r" using r ds by (auto simp: deletable_def)
  then have "c \<le> ?rank r" using rank by simp
  also have "\<dots> \<le> card ?S" by (rule card_mono[OF fin]) blast
  finally have c: "c \<le> card ?S" .
  have tot: "newer_evidence a b \<or> newer_evidence b a" if "a \<in> ?S" "b \<in> ?S" "a \<noteq> b" for a b
  proof -
    have "rc_id a \<noteq> rc_id b" using that unique_keyD[OF u, of a b] by blast
    with that show ?thesis by (auto simp: newer_evidence_def)
  qed
  have "card {s \<in> ?S. ?rank s < c} = c"
    by (rule rank_counts[OF fin _ _ tot c]) (auto simp: newer_evidence_def)
  moreover have "card {s \<in> ?S. ?rank s < c}
      \<le> card {s \<in> set (filter (\<lambda>x. x \<notin> set ds) t). inactive_evidence cur s \<and> rc_host_id s = rc_host_id r}"
  proof (rule card_mono)
    have "s \<notin> set ds" if "s \<in> ?S" "?rank s < c" for s
    proof
      assume "s \<in> set ds"
      then have "c < retention_rank scope cur t s" using ds by (auto simp: deletable_def)
      with rank[OF that(1)] that(2) show False by linarith
    qed
    then show "{s \<in> ?S. ?rank s < c}
        \<subseteq> {s \<in> set (filter (\<lambda>x. x \<notin> set ds) t). inactive_evidence cur s \<and> rc_host_id s = rc_host_id r}"
      by auto
  qed simp
  ultimately show ?thesis by simp
qed

lemma deletable_not_retired:
  assumes "deletable scope cur (cur - ret * second) c t (retired cur r)" "0 < ret"
  shows "retired cur r = r"
proof (rule ccontr)
  assume "retired cur r \<noteq> r"
  then have "retention_at (retired cur r) = cur"
    by (auto simp: retired_def terminal_row_def retention_at_def split: if_splits)
  with assms show False by (auto simp: deletable_def second_def)
qed

lemma cleanup_unchanged:
  assumes "dry \<or> \<not> retention_policy_valid rh ret cnt batch \<or> \<not> db_exists db"
  shows "\<exists>res. cleanup_command_request_retention E rh ret cnt scope now dry batch db = Inr (res, db)
    \<and> (\<not> dry \<longrightarrow> rr_examined res = 0)"
proof (cases "retention_policy_valid rh ret cnt batch \<and> db_exists db")
  case True
  then have "dry" using assms by simp
  with True show ?thesis
    unfolding cleanup_command_request_retention_def Let_def
    by (simp only: simp_thms if_True if_False bind_result_simps sum.inject prod.inject)
next
  case False
  then show ?thesis
    by (cases "retention_policy_valid rh ret cnt batch")
      (simp_all add: cleanup_command_request_retention_def Let_def)
qed

lemma cleanup_keeps_store_ok:
  assumes ok: "store_ok db"
    and res: "cleanup_command_request_retention E rh ret cnt scope now dry batch db = Inr (res, db')"
  shows "store_ok db'"
proof (cases "dry \<or> \<not> retention_policy_valid rh ret cnt batch \<or> \<not> db_exists db")
  case True
  from cleanup_unchanged[OF this, of E scope now] ok res show ?thesis by auto
next
  case False
  then have v: "retention_policy_valid rh ret cnt batch" "db_exists db" "dry = False" by simp_all
  have "\<exists>res' db2. cleanup_command_request_retention E rh ret cnt scope now False batch db = Inr (res', db2)
      \<and> store_ok db2"
    using cleanup_shape[OF ok v(1,2) refl, where E = E and now = now and scope = scope] by (elim exE conjE) blast
  with res v(3) show ?thesis by auto
qed

text \<open>C25: A retention sweep over a well-formed store never raises and leaves it
  well formed. An invalid policy, a missing database and a dry run change nothing;
  no sweep examines more rows than its batch size. A receipt that is gone afterwards
  was neither being sent nor reserved by a live owner, was strictly older than the
  retention age, and its host still holds at least the configured number of inactive
  receipts.\<close>

theorem retention_deletes_only_old_inactive:
  fixes db :: "'p store"
  assumes ok: "store_ok db"
  shows "\<exists>res db'. cleanup_command_request_retention E rh ret cnt scope now dry batch db = Inr (res, db')
    \<and> store_ok db'
    \<and> (dry \<or> \<not> retention_policy_valid rh ret cnt batch \<or> \<not> db_exists db \<longrightarrow> db' = db)
    \<and> (\<not> dry \<longrightarrow> rr_examined res \<le> nat batch)
    \<and> (\<forall>r \<in> set (receipts db). rc_id r \<notin> rc_id ` set (receipts db') \<longrightarrow>
         rc_state r \<noteq> SendStarted \<and> inactive_evidence (command_request_now E now) r
         \<and> in_scope scope (rc_host_id r)
         \<and> retention_at r < command_request_now E now - ret * second
         \<and> nat cnt \<le> card {s \<in> set (receipts db').
              inactive_evidence (command_request_now E now) s \<and> rc_host_id s = rc_host_id r})"
proof (cases "dry \<or> \<not> retention_policy_valid rh ret cnt batch \<or> \<not> db_exists db")
  case True
  from cleanup_unchanged[OF this, of E scope now] obtain res where
    "cleanup_command_request_retention E rh ret cnt scope now dry batch db = Inr (res, db)"
    "\<not> dry \<longrightarrow> rr_examined res = 0" by blast
  with ok True show ?thesis by auto
next
  case False
  let ?cur = "command_request_now E now"
  have v: "retention_policy_valid rh ret cnt batch" "db_exists db" using False by simp_all
  have pos: "0 < ret" using False by (simp add: retention_policy_valid_def)
  obtain res db' ids and db2 :: "'p store" and ds where c: "cleanup_command_request_retention E rh ret cnt scope now False batch db = Inr (res, db')"
    and ok': "store_ok db'" "store_ok db2"
    and ids: "\<forall>x \<in> set (receipts db). rc_id x \<in> set ids \<longrightarrow> rc_state x = SendStarted"
    and r2: "receipts db2 = map (\<lambda>x. if rc_id x \<in> set ids then retired ?cur x else x) (receipts db)"
    and ds: "\<forall>r \<in> set ds. r \<in> set (receipts db2)
         \<and> deletable scope ?cur (?cur - ret * second) (nat cnt) (receipts db2) r"
    and r': "receipts db' = filter (\<lambda>x. x \<notin> set ds) (receipts db2)"
    and ex: "rr_examined res \<le> nat batch"
    using cleanup_shape[OF ok v refl, where E = E and now = now and scope = scope] by (elim exE conjE) (rule that; assumption)
  have u: "unique_key rc_id (receipts db2)" using ok'(2) by (simp add: store_ok_def)
  have gone: "r \<in> set ds" if r: "r \<in> set (receipts db)" "rc_id r \<notin> rc_id ` set (receipts db')" for r
  proof -
    let ?r = "if rc_id r \<in> set ids then retired ?cur r else r"
    have "?r \<in> set (receipts db2)" using r(1) unfolding r2 set_map by (rule imageI)
    moreover have "rc_id ?r = rc_id r" by simp
    ultimately have d: "?r \<in> set ds" using r(2) unfolding r' by (auto simp: image_iff simp del: retired_simps)
    have "?r = r"
    proof (cases "rc_id r \<in> set ids")
      case True
      then have "deletable scope ?cur (?cur - ret * second) (nat cnt) (receipts db2) (retired ?cur r)"
        using ds d by simp
      from deletable_not_retired[OF this pos] True show ?thesis by simp
    qed simp
    with d show ?thesis by simp
  qed
  have "rc_state r \<noteq> SendStarted \<and> inactive_evidence ?cur r \<and> in_scope scope (rc_host_id r)
      \<and> retention_at r < ?cur - ret * second
      \<and> nat cnt \<le> card {s \<in> set (receipts db'). inactive_evidence ?cur s \<and> rc_host_id s = rc_host_id r}"
    if "r \<in> set (receipts db)" "rc_id r \<notin> rc_id ` set (receipts db')" for r
    using ds gone[OF that] floor_survives[OF u ds gone[OF that]] unfolding r'
    by (auto simp: deletable_def inactive_evidence_def)
  then have "\<forall>r \<in> set (receipts db). rc_id r \<notin> rc_id ` set (receipts db') \<longrightarrow>
      rc_state r \<noteq> SendStarted \<and> inactive_evidence ?cur r \<and> in_scope scope (rc_host_id r)
      \<and> retention_at r < ?cur - ret * second
      \<and> nat cnt \<le> card {s \<in> set (receipts db'). inactive_evidence ?cur s \<and> rc_host_id s = rc_host_id r}"
    by blast
  moreover have "dry = False" using False by simp
  ultimately show ?thesis
    by (intro exI[of _ res] exI[of _ db'] conjI) (use c ok'(1) ex False in \<open>simp_all only: simp_thms\<close>)
qed

theorem retention_deletes_only_old_inactive_witness:
  "\<exists>res db'. cleanup_command_request_retention ex_env 259200 2592000 4096 None None False 10
       (ex_store [ex_receipt Accepted] [ex_submission LLinked]) = Inr (res, db')
     \<and> store_ok db' \<and> rr_examined res \<le> 10"
  using retention_deletes_only_old_inactive[OF ex_store_ok(1)[of Accepted LLinked],
      where E = ex_env and rh = 259200 and ret = 2592000 and cnt = 4096 and scope = None and now = None
        and dry = False and batch = 10]
  by simp blast

end
