(* ===== verification/CommandRuns.thy ===== *)
theory CommandRuns
  imports ReceiptProps SettleProps RetentionProps
begin

text \<open>
  Runs of the whole protocol: any interleaving, by any number of callers, of the
  request operations with the ledger passes and the retention sweep.  Every
  operation is one \<open>BEGIN IMMEDIATE\<close> transaction, so a run is a sequence of steps;
  each step has its own clock and its own environment.
\<close>

section \<open>Passes over the ledger\<close>

definition only_ledger :: "'p store \<Rightarrow> 'p store \<Rightarrow> bool" where
  "only_ledger db db' \<longleftrightarrow> db' = db\<lparr>submissions := submissions db', link_backoff := link_backoff db'\<rparr>"

lemma only_ledgerI: "only_ledger db (db\<lparr>submissions := t, link_backoff := b\<rparr>)"
  by (simp add: only_ledger_def)

lemma only_ledger_fields:
  assumes "only_ledger db db'"
  shows "receipts db' = receipts db" "receipt_seq db' = receipt_seq db" "commands db' = commands db"
    "receipt_map db' = receipt_map db"
proof -
  obtain t b where "db' = db\<lparr>submissions := t, link_backoff := b\<rparr>" using assms by (auto simp: only_ledger_def)
  then show "receipts db' = receipts db" "receipt_seq db' = receipt_seq db" "commands db' = commands db"
    "receipt_map db' = receipt_map db"
    by (simp_all add: receipt_map_def command_request_row_def fun_eq_iff)
qed

lemma only_ledger_refl: "only_ledger db db"
  by (simp add: only_ledger_def)

lemma only_ledger_trans:
  assumes "only_ledger a b" "only_ledger b c"
  shows "only_ledger a c"
proof -
  obtain t u where b: "b = a\<lparr>submissions := t, link_backoff := u\<rparr>" using assms(1) by (auto simp: only_ledger_def)
  obtain t' u' where c: "c = b\<lparr>submissions := t', link_backoff := u'\<rparr>" using assms(2) by (auto simp: only_ledger_def)
  show ?thesis unfolding c b by (simp add: only_ledger_def)
qed

lemma only_ledger_submissions: "only_ledger db (db\<lparr>submissions := t\<rparr>)"
  by (simp add: only_ledger_def)

lemma only_ledger_backoff: "only_ledger db (db\<lparr>link_backoff := b\<rparr>)"
  by (simp add: only_ledger_def)

lemmas only_ledger_intros = only_ledger_refl only_ledger_submissions only_ledger_backoff

lemma store_ok_only_ledger:
  assumes "store_ok db" "only_ledger db db'" "ledger_ok db'"
  shows "store_ok db'"
  using assms(1,3) only_ledger_fields[OF assms(2)] by (simp add: store_ok_def ledger_ok_def)

lemma close_only_ledger: "only_ledger db (snd (close_submissions h sids st cur db))"
  by (simp add: close_submissions_def only_ledger_submissions)

lemma link_only_ledger: "link_submission h sid tid cur db = Inr (n, db') \<Longrightarrow> only_ledger db db'"
  by (auto simp: link_submission_def Let_def only_ledger_submissions split: if_splits)

lemma settle_loop_only_ledger:
  "settle_loop cur h subs obs es todo visited changed waiting db = Inr (n, w, db')
    \<Longrightarrow> only_ledger db db'"
proof (induction todo arbitrary: visited changed waiting db)
  case Nil
  then show ?case by (simp add: only_ledger_refl)
next
  case (Cons s rest)
  note via = Cons.IH[THEN only_ledger_trans[rotated]]
  show ?case
    using Cons.prems close_only_ledger[of db h] link_only_ledger[of h _ _ cur db]
    by (auto simp: Let_def bind_result_eq_Inr split: if_splits prod.splits option.splits
        intro: Cons.IH via) (metis via snd_conv)+
qed

lemma settle_only_ledger:
  "settle_submission_links h ok fp cur db = Inr (n, nx, db') \<Longrightarrow> only_ledger db db'"
  by (auto simp: settle_submission_links_def Let_def bind_result_eq_Inr only_ledger_refl
      split: if_splits intro: settle_loop_only_ledger)

text \<open>A pass keeps the ledger's invariant, and none of them can raise.\<close>

definition passes :: "'p store \<Rightarrow> 'p store \<Rightarrow> bool" where
  "passes db db' \<longleftrightarrow> only_ledger db db' \<and> (ledger_ok db \<longrightarrow> ledger_ok db')"

lemma passes_refl: "passes db db"
  by (simp add: passes_def only_ledger_refl)

lemma passes_trans: "passes a b \<Longrightarrow> passes b c \<Longrightarrow> passes a c"
  by (auto simp: passes_def intro: only_ledger_trans)

lemma passes_backoff: "passes db (db\<lparr>link_backoff := b\<rparr>)"
  by (simp add: passes_def only_ledger_backoff ledger_ok_def)

lemma passes_settle:
  assumes "settle_submission_links h ok fp cur db = Inr (n, nx, db')"
  shows "passes db db'"
proof -
  have "ledger_ok db'" if "ledger_ok db"
    by (rule settle_result[OF that, of h ok fp cur]) (use assms in auto)
  with settle_only_ledger[OF assms] show ?thesis by (simp add: passes_def)
qed

lemma passes_update:
  assumes "\<And>s. p s \<Longrightarrow> submission_key (f s) = submission_key s \<and> submission_id_key (f s) = submission_id_key s"
    and "\<And>s. p s \<Longrightarrow> ts_linked_turn_id (f s) = None \<and> ts_state (f s) \<noteq> LLinked"
  shows "passes db (db\<lparr>submissions := sql_update p f (submissions db)\<rparr>)"
  using ledger_ok_update[where p = p and f = f, OF _ assms] by (auto simp: passes_def only_ledger_submissions)

lemma passes_expire: "passes db (snd (expire_turn_submissions cur h db))"
  unfolding expire_turn_submissions_def snd_conv
  by (rule passes_update) (auto simp: expirable_def submission_key_def submission_id_key_def)

lemma passes_cancel: "passes db (snd (cancel_turn_submission E h q now db))"
  unfolding cancel_turn_submission_def Let_def
  using passes_update[of "\<lambda>s. ts_host_id s = h \<and> ts_request_id s = q \<and> ts_linked_turn_id s = None
      \<and> ts_state s \<in> set (turn_submission_transition_sources LCancelled)"
      "\<lambda>s. s\<lparr>ts_state := LCancelled, ts_terminal_at := Some (command_request_now E now),
        ts_updated_at := command_request_now E now\<rparr>" db]
  by (auto simp: passes_refl submission_key_def submission_id_key_def)

lemma passes_sweep_expired: "passes db (snd (sweep_expired_turn_submissions E h now db))"
  by (simp add: sweep_expired_turn_submissions_def passes_refl passes_expire)

lemma settle_components_total:
  assumes "ledger_ok db"
  shows "\<exists>n db'. settle_components cur keys m db = Inr (n, db') \<and> passes db db'"
  using assms
proof (induction keys arbitrary: m db)
  case (Cons key keys)
  obtain h ok fp where key: "key = (h, ok, fp)" by (metis prod_cases3)
  obtain due db1 where d: "component_is_due key cur db = (due, db1)" by fastforce
  then have p1: "passes db db1"
    by (auto simp: component_is_due_def passes_refl passes_backoff split: option.splits if_splits)
  then have l1: "ledger_ok db1" using Cons.prems by (simp add: passes_def)
  obtain n nx db2 where s: "settle_submission_links h ok fp cur db1 = Inr (n, nx, db2)"
    using settle_result[OF l1, of h ok fp cur] by metis
  let ?db3 = "if n \<noteq> 0 then rearm_submission_link_component h ok fp db2 else backoff_component key nx cur db2"
  have p3: "passes db ?db3"
    using passes_trans[OF p1 passes_trans[OF passes_settle[OF s] passes_backoff]]
    by (auto simp: rearm_submission_link_component_def backoff_component_def)
  then have l3: "ledger_ok ?db3" using Cons.prems by (simp add: passes_def)
  from Cons.IH[OF l1, of m] obtain a where a: "settle_components cur keys m db1 = Inr a" "passes db1 (snd a)"
    by force
  from Cons.IH[OF l3, of "m + n"] obtain b where b: "settle_components cur keys (m + n) ?db3 = Inr b" "passes ?db3 (snd b)"
    by force
  show ?case
  proof (cases due)
    case True
    then have "settle_components cur (key # keys) m db = Inr b" using b(1) d s by (auto simp: key Let_def split: if_splits)
    then show ?thesis using passes_trans[OF p3 b(2)] by (cases b) simp
  next
    case False
    then have "settle_components cur (key # keys) m db = Inr a" using a(1) d by simp
    then show ?thesis using passes_trans[OF p1 a(2)] by (cases a) simp
  qed
qed (simp add: passes_refl)

lemma sweep_links_total:
  assumes "ledger_ok db"
  shows "\<exists>n db'. sweep_submission_links E h now db = Inr (n, db') \<and> passes db db'"
proof (cases "db_exists db")
  case True
  let ?cur = "command_request_now E now"
  let ?rows = "due_components h ?cur db"
  have p: "passes db (prune_backoff h ?rows db)" by (simp add: prune_backoff_def passes_backoff)
  then have "ledger_ok (prune_backoff h ?rows db)" using assms by (simp add: passes_def)
  from settle_components_total[OF this] obtain n db1 where
    s: "settle_components ?cur ?rows 0 (prune_backoff h ?rows db) = Inr (n, db1)"
    "passes (prune_backoff h ?rows db) db1" by blast
  have "passes db (snd (expire_turn_submissions ?cur h db1))"
    by (rule passes_trans[OF p passes_trans[OF s(2) passes_expire]])
  with True s(1) show ?thesis
    by (simp add: sweep_submission_links_def settle_due_submission_links_def Let_def)
qed (simp add: sweep_submission_links_def passes_refl)

lemma passes_sweep_links:
  assumes "ledger_ok db" "sweep_submission_links E h now db = Inr (n, db')"
  shows "passes db db'"
  using sweep_links_total[OF assms(1), of E h now] assms(2) by auto

lemma passes_settle_for_request:
  "settle_submission_link_for_request E h q now db = Inr (x, db') \<Longrightarrow> passes db db'"
  by (auto simp: settle_submission_link_for_request_def Let_def bind_result_eq_Inr passes_refl
      split: if_splits option.splits intro: passes_settle)

section \<open>Steps\<close>

text \<open>
  What a step is observed to do: answer of the owner's send mark, answer of another
  request operation, a released reservation, a pass over the ledger, the retention
  sweep, an exception, which rolls its transaction back, or a write elsewhere: the turns
  and their revisions as the observers report them, and the tables of other components.
\<close>

datatype run_event =
    Marked "ustr \<times> ustr" verdict
  | Answered "ustr \<times> ustr" verdict
  | Abandoned "ustr \<times> ustr"
  | LedgerPass
  | RetentionPass
  | Raised
  | Elsewhere

text \<open>
  The caller's effects act on the tables this model does not describe and their own
  results are not observed by a run.
\<close>

inductive command_step :: "run_event \<Rightarrow> 'p store \<Rightarrow> 'p store \<Rightarrow> bool" where
  step_reserve: "reserve_command_request E a pending lease now db = Inr (resp :: unit response, db')
    \<Longrightarrow> command_step (Answered (args_key a) (rs_status resp)) db db'"
| step_replay: "reserve_terminal_command_replay E a ts st j pl now db = Inr (resp :: unit response, db')
    \<Longrightarrow> command_step (Answered (args_key a) (rs_status resp)) db db'"
| step_mark: "mark_command_send_started E h q fp tok binding pl effect w itx lw ht now db
      = Inr (resp :: unit response, db')
    \<Longrightarrow> command_step (Marked (h, q) (rs_status resp)) db db'"
| step_queue: "record_command_send_queued E h q fp tok j pl now db = Inr (resp :: unit response, db')
    \<Longrightarrow> command_step (Answered (h, q) (rs_status resp)) db db'"
| step_finish_queued: "finish_queued_command_request E h q fp qj aj pl now db = Inr (resp :: unit response, db')
    \<Longrightarrow> command_step (Answered (h, q) (rs_status resp)) db db'"
| step_unverified: "finish_unverified_queued_command_request E h q fp qj uj pl now db
      = Inr (resp :: unit response, db')
    \<Longrightarrow> command_step (Answered (h, q) (rs_status resp)) db db'"
| step_recover: "recover_unresolved_command_send E h q fp qj uj pl now db = Inr (resp :: unit response, db')
    \<Longrightarrow> command_step (Answered (h, q) (rs_status resp)) db db'"
| step_finish: "finish_command_request E h q fp tok ex ts st j pl effect now db
      = Inr (resp :: unit response, db')
    \<Longrightarrow> command_step (Answered (h, q) (rs_status resp)) db db'"
| step_abandon: "abandon_command_request_reservation E h q fp tok now db = Inr (b, db')
    \<Longrightarrow> command_step (Abandoned (h, q)) db db'"
| step_expire: "sweep_expired_turn_submissions E host now db = (n, db') \<Longrightarrow> command_step LedgerPass db db'"
| step_cancel: "cancel_turn_submission E h q now db = (b, db') \<Longrightarrow> command_step LedgerPass db db'"
| step_sweep: "sweep_submission_links E host now db = Inr (n, db') \<Longrightarrow> command_step LedgerPass db db'"
| step_settle: "settle_submission_link_for_request E h q now db = Inr (x, db')
    \<Longrightarrow> command_step LedgerPass db db'"
| step_retention: "cleanup_command_request_retention E rh ret cnt scope now dry batch db = Inr (res, db')
    \<Longrightarrow> command_step RetentionPass db db'"
| step_raised: "command_step Raised db db"
| step_elsewhere: "command_step Elsewhere db (db\<lparr>turns := ts, revisions := rs, other_tables := p\<rparr>)"

inductive_cases command_step_MarkedE: "command_step (Marked k v) db db'"
inductive_cases command_step_AnsweredE: "command_step (Answered k v) db db'"
inductive_cases command_step_AbandonedE: "command_step (Abandoned k) db db'"
inductive_cases command_step_LedgerE: "command_step LedgerPass db db'"
inductive_cases command_step_RetentionE: "command_step RetentionPass db db'"
inductive_cases command_step_ElsewhereE: "command_step Elsewhere db db'"
inductive_simps command_step_Raised_iff: "command_step Raised db db'"

inductive command_run :: "run_event list \<Rightarrow> 'p store \<Rightarrow> 'p store \<Rightarrow> bool" where
  run_nil: "command_run [] db db"
| run_step: "command_step e db db1 \<Longrightarrow> command_run es db1 db2 \<Longrightarrow> command_run (e # es) db db2"

inductive_simps command_run_Nil: "command_run [] db db'"
inductive_cases command_run_ConsE: "command_run (e # es) db db'"

fun event_key :: "run_event \<Rightarrow> (ustr \<times> ustr) option" where
  "event_key (Marked k v) = Some k"
| "event_key (Answered k v) = Some k"
| "event_key (Abandoned k) = Some k"
| "event_key _ = None"

text \<open>Every step but the retention sweep is within the contract of the key it names.\<close>

lemma step_contract:
  assumes step: "command_step e db db'" and ok: "store_ok db" and e: "event_key e = Some k"
  shows "contract k db db'"
proof (cases e)
  case (Marked k' v)
  then show ?thesis using step e mark.contract[OF ok] by (auto elim!: command_step_MarkedE)
next
  case (Answered k' v)
  then show ?thesis
    using step e reserve.contract[OF ok] replay.contract[OF ok] queued.contract[OF ok]
      finish_queued.contract[OF ok] unverified.contract[OF ok] recover.contract[OF ok] finish.contract[OF ok]
    by (auto elim!: command_step_AnsweredE)
next
  case (Abandoned k')
  then show ?thesis using step e abandon.contract[OF ok] by (auto elim!: command_step_AbandonedE)
qed (use e in simp_all)

lemma ledger_step_passes:
  assumes "command_step LedgerPass db db'" "ledger_ok db"
  shows "passes db db'"
  using assms(1)
proof (rule command_step_LedgerE)
  fix E host now n assume "sweep_expired_turn_submissions E host now db = (n, db')"
  then show ?thesis using passes_sweep_expired[of db E host now] by simp
next
  fix E h q now b assume "cancel_turn_submission E h q now db = (b, db')"
  then show ?thesis using passes_cancel[of db E h q now] by simp
qed (use passes_sweep_links[OF assms(2)] passes_settle_for_request in auto)

lemma silent_step_map:
  assumes "command_step e db db'" "store_ok db" "event_key e = None" "e \<noteq> RetentionPass"
  shows "store_ok db' \<and> receipt_map db' = receipt_map db"
proof (cases e)
  case LedgerPass
  then have "passes db db'" using ledger_step_passes store_ok_ledger assms(1,2) by blast
  then show ?thesis
    using assms(2) store_ok_only_ledger only_ledger_fields(4) store_ok_ledger unfolding passes_def by blast
next
  case Elsewhere
  then show ?thesis using assms(1,2)
    by (auto simp: store_ok_def receipt_map_def command_request_row_def fun_eq_iff elim!: command_step_ElsewhereE)
qed (use assms in \<open>auto simp: command_step_Raised_iff\<close>)

lemma step_keeps_store_ok:
  assumes "command_step e db db'" "store_ok db"
  shows "store_ok db'"
proof (cases "event_key e")
  case None
  show ?thesis
  proof (cases "e = RetentionPass")
    case True
    with assms(1) obtain E rh ret cnt scope now dry batch res where
      "cleanup_command_request_retention E rh ret cnt scope now dry batch db = Inr (res, db')"
      by (auto elim!: command_step_RetentionE)
    then show ?thesis
      using cleanup_keeps_store_ok[OF assms(2)] by blast
  qed (use silent_step_map[OF assms None] in blast)
next
  case (Some k)
  from step_contract[OF assms Some] show ?thesis by (simp add: contract_def)
qed

section \<open>Runs\<close>

lemma linked_turns_inj:
  assumes "distinct (linked_turns t)" "s \<in> set t" "u \<in> set t" "ts_host_id s = ts_host_id u"
    "ts_linked_turn_id s = ts_linked_turn_id u" "ts_linked_turn_id s \<noteq> None"
  shows "s = u"
proof -
  have "inj_on (\<lambda>s. (ts_host_id s, ts_linked_turn_id s)) (set (filter (\<lambda>s. ts_linked_turn_id s \<noteq> None) t))"
    using assms(1) by (simp add: linked_turns_def distinct_map)
  then show ?thesis using assms(2-6) by (auto simp: inj_on_def)
qed

lemma run_keeps_store_ok:
  "command_run es db db' \<Longrightarrow> store_ok db \<Longrightarrow> store_ok db'"
  by (induction rule: command_run.induct) (simp_all add: step_keeps_store_ok)

text \<open>Without a retention sweep a receipt only ever follows the moves of the contract.\<close>

definition receipt_kept :: "receipt \<Rightarrow> receipt \<Rightarrow> bool" where
  "receipt_kept r s \<longleftrightarrow> same_identity r s
     \<and> (terminal_state (rc_state r) \<longrightarrow> s = r)
     \<and> (rc_state r \<noteq> Reserved \<longrightarrow> rc_state s \<noteq> Reserved)"

lemma receipt_kept_refl: "receipt_kept r r"
  by (simp add: receipt_kept_def same_identity_refl)

lemma receipt_kept_trans: "receipt_kept r s \<Longrightarrow> receipt_kept s u \<Longrightarrow> receipt_kept r u"
  by (auto simp: receipt_kept_def same_identity_def)

lemma receipt_kept_move: "receipt_move (Some r) s \<Longrightarrow> receipt_kept r s"
  using receipt_move_Some by (fastforce simp: receipt_kept_def elim!: receipt_move_SomeE)

lemma step_keeps_receipt:
  assumes step: "command_step e db db'" and ok: "store_ok db" and e: "e \<noteq> RetentionPass"
    and r: "receipt_map db k = Some r"
  shows "\<exists>s. receipt_map db' k = Some s \<and> receipt_kept r s"
proof (cases "event_key e")
  case None
  with silent_step_map[OF step ok None e] r show ?thesis by (simp add: receipt_kept_refl)
next
  case (Some key)
  from step_contract[OF step ok Some] r show ?thesis
    unfolding contract_def using receipt_kept_refl receipt_kept_move by (cases "k = key") fastforce+
qed

lemma run_keeps_receipt:
  assumes "command_run es db db'" "store_ok db" "RetentionPass \<notin> set es" "receipt_map db k = Some r"
  shows "\<exists>s. receipt_map db' k = Some s \<and> receipt_kept r s"
  using assms
proof (induction arbitrary: r rule: command_run.induct)
  case (run_nil db)
  then show ?case by (auto simp: receipt_kept_refl)
next
  case (run_step e db db1 es db2)
  have e: "e \<noteq> RetentionPass" using run_step(5) by auto
  from step_keeps_receipt[OF run_step(1,4) e run_step(6)] obtain s where
    s: "receipt_map db1 k = Some s" "receipt_kept r s" by blast
  from run_step.IH[OF step_keeps_store_ok[OF run_step(1,4)] _ s(1)] run_step(5) obtain u where
    "receipt_map db2 k = Some u" "receipt_kept s u" by auto
  with receipt_kept_trans[OF s(2)] show ?case by blast
qed

text \<open>A mark that starts a send leaves its receipt past \<open>reserved\<close>.\<close>

lemma marked_started_step:
  assumes "command_step (Marked k (Done SendStarted)) db db'" "store_ok db"
  shows "(\<exists>r. receipt_map db k = Some r \<and> rc_state r = Reserved)
    \<and> (\<exists>s. receipt_map db' k = Some s \<and> rc_state s = SendStarted \<and> rc_send_started_at s \<noteq> None)"
  using assms(1)
proof (rule command_step_MarkedE)
  fix E h q fp tok binding pl effect w itx lw ht now and resp :: "unit response"
  assume k: "k = (h, q)" and v: "Done SendStarted = rs_status resp"
    and m: "mark_command_send_started E h q fp tok binding pl effect w itx lw ht now db = Inr (resp, db')"
  have "\<exists>r. command_request_row db h q = Some r \<and> may_start r fp tok"
    using mark_refused[OF m] v by metis
  then obtain r where r: "command_request_row db h q = Some r" "may_start r fp tok" by blast
  with mark_started[OF assms(2) r refl refl m] show ?thesis
    by (simp add: k receipt_map_def may_start_def send_started_row_def)
qed

definition sends_started :: "ustr \<times> ustr \<Rightarrow> run_event list \<Rightarrow> nat" where
  "sends_started k es = length (filter (\<lambda>e. e = Marked k (Done SendStarted)) es)"

lemma sends_started_simps [simp]:
  "sends_started k [] = 0"
  "sends_started k (e # es) = (if e = Marked k (Done SendStarted) then Suc (sends_started k es) else sends_started k es)"
  by (simp_all add: sends_started_def)

lemma no_send_after_start:
  assumes "command_run es db db'" "store_ok db" "RetentionPass \<notin> set es"
    and "receipt_map db k = Some r" "rc_state r \<noteq> Reserved"
  shows "sends_started k es = 0"
  using assms
proof (induction arbitrary: r rule: command_run.induct)
  case (run_step e db db1 es db2)
  have "e \<noteq> Marked k (Done SendStarted)"
    using marked_started_step[of k db db1] run_step(1,4,6,7) by auto
  moreover obtain s where "receipt_map db1 k = Some s" "rc_state s \<noteq> Reserved"
    using step_keeps_receipt[OF run_step(1,4) _ run_step(6)] run_step(5,7) by (auto simp: receipt_kept_def)
  moreover note run_step.IH[OF step_keeps_store_ok[OF run_step(1,4)] _ this] run_step(5)
  ultimately show ?case by simp
qed simp

lemma run_sends_bound:
  assumes "command_run es db db'" "store_ok db" "RetentionPass \<notin> set es"
  shows "sends_started k es \<le> 1 \<and> (sends_started k es = 1 \<longrightarrow>
    (\<exists>s. receipt_map db' k = Some s \<and> rc_state s \<noteq> Reserved))"
  using assms
proof (induction rule: command_run.induct)
  case (run_step e db db1 es db2)
  have ok1: "store_ok db1" by (rule step_keeps_store_ok[OF run_step(1,4)])
  show ?case
  proof (cases "e = Marked k (Done SendStarted)")
    case True
    then obtain s where s: "receipt_map db1 k = Some s" "rc_state s = SendStarted"
      using marked_started_step[of k db db1] run_step(1,4) by auto
    have "sends_started k es = 0"
      using no_send_after_start[OF run_step(2) ok1 _ s(1)] s(2) run_step(5) by simp
    moreover obtain u where "receipt_map db2 k = Some u" "rc_state u \<noteq> Reserved"
      using run_keeps_receipt[OF run_step(2) ok1 _ s(1)] s(2) run_step(5) by (auto simp: receipt_kept_def)
    ultimately show ?thesis using True by simp
  qed (use run_step.IH[OF ok1] run_step(5) in simp)
qed simp

text \<open>C1: At most one send per request: in any interleaving of the request operations
  and ledger passes, however many callers reserve, retry, recover or finish the same
  host and request id, at most one call of \<open>mark_command_send_started\<close> is told that
  the send is its to make, and once one is, the receipt never is reserved again.\<close>

theorem at_most_one_send:
  assumes "command_run es db db'" "store_ok db" "RetentionPass \<notin> set es"
  shows "sends_started k es \<le> 1 \<and> (Marked k (Done SendStarted) \<in> set es \<longrightarrow>
    (\<exists>s. receipt_map db' k = Some s \<and> rc_state s \<noteq> Reserved))"
proof -
  have "sends_started k es \<noteq> 0" if "Marked k (Done SendStarted) \<in> set es"
    using that by (auto simp: sends_started_def filter_empty_conv)
  then have "sends_started k es = 1" if "Marked k (Done SendStarted) \<in> set es"
    using that run_sends_bound[OF assms, of k] by (simp add: le_Suc_eq)
  with run_sends_bound[OF assms, of k] show ?thesis by blast
qed

text \<open>C12: Retries are answered from immutable evidence: without a retention sweep a
  receipt never disappears and never changes its identity (the canonical mutation,
  worker, creation and selector proof), and once terminal it never changes at all,
  whatever operations run.\<close>

theorem terminal_receipts_are_final:
  assumes "command_run es db db'" "store_ok db" "RetentionPass \<notin> set es"
    and "command_request_row db h q = Some r"
  shows "\<exists>s. command_request_row db' h q = Some s \<and> same_identity r s
    \<and> (terminal_state (rc_state r) \<longrightarrow> s = r)"
  using run_keeps_receipt[OF assms(1-3), of "(h, q)" r] assms(4)
  by (auto simp: receipt_map_def receipt_kept_def)

text \<open>C11: The store's promises hold in every reachable state, retention sweeps
  included: one receipt per host and request id, an audit row that says what the
  receipt says, an owner and a deadline exactly while a receipt is active, and no
  turn claimed by two submissions.\<close>

theorem runs_keep_the_store:
  assumes "command_run es db db'" "store_ok db"
  shows "store_ok db'
    \<and> (\<forall>r \<in> set (receipts db'). \<forall>s \<in> set (receipts db'). receipt_key r = receipt_key s \<longrightarrow> r = s)
    \<and> (\<forall>r \<in> set (receipts db'). \<exists>c \<in> set (commands db'). mirrors c r)
    \<and> (\<forall>r \<in> set (receipts db'). active_state (rc_state r) \<longleftrightarrow> rc_owner_token_hash r \<noteq> [])
    \<and> (\<forall>s \<in> set (submissions db'). \<forall>u \<in> set (submissions db'). ts_host_id s = ts_host_id u
         \<and> ts_linked_turn_id s = ts_linked_turn_id u \<and> ts_linked_turn_id s \<noteq> None \<longrightarrow> s = u)"
proof -
  have ok: "store_ok db'" by (rule run_keeps_store_ok[OF assms])
  then have u: "unique_key receipt_key (receipts db')" "distinct (linked_turns (submissions db'))"
    by (simp_all add: store_ok_def submissions_unique_def)
  have "s = u" if "s \<in> set (submissions db')" "u \<in> set (submissions db')" "ts_host_id s = ts_host_id u"
    "ts_linked_turn_id s = ts_linked_turn_id u" "ts_linked_turn_id s \<noteq> None" for s u
    using linked_turns_inj[OF u(2) that(1,2)] that(3-5) by blast
  moreover have "active_state (rc_state r) \<longleftrightarrow> rc_owner_token_hash r \<noteq> []" if "r \<in> set (receipts db')" for r
    using ok that by (auto simp: store_ok_def list_all_iff receipt_ok_def receipt_check_def active_iff active_state_def)
  moreover have "\<forall>r \<in> set (receipts db'). \<exists>c \<in> set (commands db'). mirrors c r"
    using ok by (simp add: store_ok_def list_all_iff list_ex_iff)
  ultimately show ?thesis using ok unique_keyD[OF u(1)] by blast
qed

section \<open>A run\<close>

lemma ex_run:
  "\<exists>db'. command_run [Marked (lit ''h'', lit ''r'') (Done SendStarted), Raised]
     (ex_store [ex_receipt Reserved] []) db'"
proof -
  obtain resp :: "unit response" and db' where m: "mark_command_send_started ex_env (lit ''h'') (lit ''r'')
      (lit ''fp'') (lit ''tok'') (lit ''b'') None (None :: (unit \<Rightarrow> (unit \<times> unit) result) option) None None 1 1 None
      (ex_store [ex_receipt Reserved] []) = Inr (resp, db')" "rs_status resp = Done SendStarted"
    using ex_mark by blast
  from step_mark[OF m(1)] m(2) have "command_step (Marked (lit ''h'', lit ''r'') (Done SendStarted))
      (ex_store [ex_receipt Reserved] []) db'" by simp
  then show ?thesis by (blast intro: command_run.intros step_raised)
qed

theorem at_most_one_send_witness:
  "\<exists>db'. command_run [Marked (lit ''h'', lit ''r'') (Done SendStarted), Raised]
     (ex_store [ex_receipt Reserved] []) db'
   \<and> (\<exists>s. receipt_map db' (lit ''h'', lit ''r'') = Some s \<and> rc_state s \<noteq> Reserved)"
proof -
  obtain db' where r: "command_run [Marked (lit ''h'', lit ''r'') (Done SendStarted), Raised]
     (ex_store [ex_receipt Reserved] []) db'" using ex_run by blast
  have ok: "store_ok (ex_store [ex_receipt Reserved] [])" by (rule ex_store_ok(2)) simp
  from at_most_one_send[OF r ok, of "(lit ''h'', lit ''r'')"] r show ?thesis by auto
qed

theorem terminal_receipts_are_final_witness:
  "\<exists>n db'. sweep_submission_links ex_env None None (ex_store [ex_receipt Accepted] [ex_submission LSubmitted])
      = Inr (n, db') \<and> command_request_row db' (lit ''h'') (lit ''r'') = Some (ex_receipt Accepted)"
proof -
  let ?db = "ex_store [ex_receipt Accepted] [ex_submission LSubmitted]"
  have ok: "store_ok ?db" by (rule ex_store_ok(1)) simp
  obtain n db' where s: "sweep_submission_links ex_env None None ?db = Inr (n, db')"
    using sweep_links_total[OF store_ok_ledger[OF ok]] by blast
  have run: "command_run [LedgerPass] ?db db'"
    by (rule run_step[OF step_sweep[OF s] run_nil])
  have "terminal_state (rc_state (ex_receipt Accepted))" by (simp add: ex_receipt_def)
  with terminal_receipts_are_final[OF run ok _ ex_row(1)] s show ?thesis by auto
qed

theorem runs_keep_the_store_witness:
  "\<exists>db'. command_run [Marked (lit ''h'', lit ''r'') (Done SendStarted), Raised]
     (ex_store [ex_receipt Reserved] []) db' \<and> store_ok db'"
proof -
  obtain db' where r: "command_run [Marked (lit ''h'', lit ''r'') (Done SendStarted), Raised]
     (ex_store [ex_receipt Reserved] []) db'" using ex_run by blast
  have ok: "store_ok (ex_store [ex_receipt Reserved] [])" by (rule ex_store_ok(2)) simp
  from runs_keep_the_store[OF r ok] r show ?thesis by blast
qed

end
