(* ===== verification/Components.thy ===== *)
theory Components
  imports SettleProps
begin

text \<open>
  The work-list search of the settlement against its specification: the connected
  component of a submission.
\<close>

section \<open>The component search\<close>

text \<open>Two submissions compete when one turn could be either's.\<close>

definition competes :: "(ustr \<times> ustr) list \<Rightarrow> (ustr \<times> ustr) set" where
  "competes es = {(s, s'). \<exists>t. (s, t) \<in> set es \<and> (s', t) \<in> set es}"

definition component :: "(ustr \<times> ustr) list \<Rightarrow> ustr \<Rightarrow> ustr set" where
  "component es s = {s'. (s, s') \<in> (competes es)\<^sup>*}"

definition component_turns :: "(ustr \<times> ustr) list \<Rightarrow> ustr \<Rightarrow> ustr set" where
  "component_turns es s = {t. \<exists>s' \<in> component es s. (s', t) \<in> set es}"

lemma component_step: "s' \<in> component es s \<Longrightarrow> (s', t) \<in> set es \<Longrightarrow> (s'', t) \<in> set es \<Longrightarrow> s'' \<in> component es s"
  unfolding component_def competes_def by (auto intro: rtrancl_into_rtrancl)

lemma explore_sound:
  assumes "explore es ps pt cs ct = (cs', ct')"
    and "set cs \<union> set ps \<subseteq> component es s" "set ct \<union> set pt \<subseteq> component_turns es s"
  shows "set cs' \<subseteq> component es s \<and> set ct' \<subseteq> component_turns es s"
  using assms
proof (induction es ps pt cs ct rule: explore.induct)
  case (2 es x ps pt cs ct)
  have "set (turns_of es x) \<subseteq> component_turns es s"
    using 2(4) by (auto simp: component_turns_def in_turns_of)
  with 2 show ?case by (cases "x \<in> set cs") auto
next
  case (3 es t pt cs ct)
  have "set (submissions_of es t) \<subseteq> component es s"
    using 3(5) component_step by (auto simp: component_turns_def in_submissions_of)
  with 3 show ?case by (cases "t \<in> set ct") auto
qed auto

lemma explore_complete:
  assumes "explore es [s] [] [] [] = (cs, ct)"
  shows "component es s \<subseteq> set cs" "component_turns es s \<subseteq> set ct"
proof -
  note c = explore_start[OF assms]
  have "s' \<in> set cs" if "(s, s') \<in> (competes es)\<^sup>*" for s'
    using that
  proof (induction rule: rtrancl_induct)
    case (step y z)
    then obtain t where "(y, t) \<in> set es" "(z, t) \<in> set es" by (auto simp: competes_def)
    then have "t \<in> set ct" "z \<in> set (submissions_of es t)"
      using c(4)[OF step.IH] by (auto simp: in_turns_of in_submissions_of)
    with c(5) show ?case by blast
  qed (rule c(1))
  then show sub: "component es s \<subseteq> set cs" by (auto simp: component_def)
  show "component_turns es s \<subseteq> set ct"
    using sub c(4) by (force simp: component_turns_def in_turns_of)
qed

text \<open>
  The work-list search from a submission ends with exactly the submissions that are
  connected to it through turns they could share, and exactly the turns those could
  take, each once; so the sizes the decision compares are the sizes of the component.
\<close>

theorem component_search_is_reachability:
  "case explore es [s] [] [] [] of (cs, ct) \<Rightarrow>
     set cs = component es s \<and> set ct = component_turns es s
     \<and> length cs = card (component es s) \<and> length ct = card (component_turns es s)"
proof -
  obtain cs ct where e: "explore es [s] [] [] [] = (cs, ct)" by fastforce
  have "set cs \<subseteq> component es s \<and> set ct \<subseteq> component_turns es s"
    by (rule explore_sound[OF e]) (auto simp: component_def)
  with explore_complete[OF e] have eq: "set cs = component es s" "set ct = component_turns es s" by auto
  from distinct_card[OF explore_start(2)[OF e]] distinct_card[OF explore_start(3)[OF e]]
  have "length cs = card (component es s)" "length ct = card (component_turns es s)" unfolding eq by simp_all
  with e eq show ?thesis by simp
qed

end
