(* ===== verification/Outbox.thy ===== *)
theory Outbox
  imports StoreState
begin

text \<open>
  The connector outbox of \<open>store/sqlite.py\<close>: rows that connectors lease, acknowledge,
  fail, defer, release or renew by an opaque reference, the delivery attempts behind
  them, and the presentation plans whose jobs are outbox rows.
\<close>

section \<open>Rows\<close>

datatype outbox_status =
    ObQueued | ObDeferred | ObRetry | ObLeased | ObAwaitingAck | ObDelivered | ObDeadLetter | ObSuperseded

datatype delivery_status =
    DvLeased | DvExpired | DvReleased | DvSuperseded | DvDelivered | DvFailed | DvDeferred | DvAwaitingAck

datatype delivery_kind = FinalReady | FinalPart | FinalMigrationHold | OtherKind ustr

datatype plan_state = PlPreparing | PlWaiting | PlActive | PlCompleted | PlSuperseded | PlFailed

text \<open>The diagnostic kept on a dead letter.\<close>

record diagnostic =
  dg_reason :: ustr
  dg_attempt_count :: int
  dg_classification :: ustr
  dg_terminalized_at :: time
  dg_reason_detail :: ustr

text \<open>
  The keys of the private-state JSON objects that these operations read or write.
  An instant is absent when its key is missing or does not parse: the code treats
  the two alike.
\<close>

record private_state =
  ps_current_delivery_id :: "nat option"
  ps_current_attempt :: "nat option"
  ps_lease_token :: "ustr option"
  ps_lease_expires_at :: "time option"
  ps_public_ref :: "ustr option"
  ps_ack_deadline_at :: "time option"
  ps_ack_timeout_count :: "int option"
  ps_presentation_generation :: "int option"
  ps_presentation_max_part_count :: "int option"
  ps_reactivated_after_plan_id :: "nat option"
  ps_terminal_after_lease :: bool
  ps_migration_group :: ustr
  ps_migration_canonical :: bool
  ps_prior_attempt_count :: "int option"
  ps_terminal_diagnostic :: "diagnostic option"

definition no_private :: private_state where
  "no_private = \<lparr>ps_current_delivery_id = None, ps_current_attempt = None, ps_lease_token = None,
     ps_lease_expires_at = None, ps_public_ref = None, ps_ack_deadline_at = None,
     ps_ack_timeout_count = None, ps_presentation_generation = None, ps_presentation_max_part_count = None,
     ps_reactivated_after_plan_id = None, ps_terminal_after_lease = False,
     ps_migration_group = [], ps_migration_canonical = False, ps_prior_attempt_count = None,
     ps_terminal_diagnostic = None\<rparr>"

text \<open>The response recorded with an attempt; absent texts are empty.\<close>

record delivery_response =
  dr_status :: ustr
  dr_reason :: "ustr option"
  dr_reason_detail :: ustr
  dr_available_at :: "time option"
  dr_body :: "(ustr \<times> json) list"

definition plain_response :: "ustr \<Rightarrow> delivery_response" where
  "plain_response s = \<lparr>dr_status = s, dr_reason = None, dr_reason_detail = [], dr_available_at = None,
     dr_body = []\<rparr>"

record outbox_row =
  ob_id :: nat
  ob_host :: ustr
  ob_connector :: ustr
  ob_key :: ustr
  ob_kind :: delivery_kind
  ob_turn_id :: "ustr option"
  ob_revision :: "ustr option"
  ob_ordering_key :: ustr
  ob_status :: outbox_status
  ob_payload :: "(ustr \<times> json) list"
  ob_private :: private_state
  ob_created_at :: time
  ob_updated_at :: time
  ob_next_attempt_at :: "time option"

record delivery =
  dl_id :: nat
  dl_outbox_id :: "nat option"
  dl_host :: ustr
  dl_connector :: ustr
  dl_key :: ustr
  dl_attempt :: nat
  dl_status :: delivery_status
  dl_response :: delivery_response
  dl_private :: private_state
  dl_created_at :: time
  dl_delivered_at :: "time option"

record plan =
  pl_id :: nat
  pl_host :: ustr
  pl_name :: ustr
  pl_turn_id :: ustr
  pl_revision :: ustr
  pl_source_outbox_id :: "nat option"
  pl_generation :: int
  pl_part_count :: int
  pl_state :: plan_state
  pl_activated_at :: "time option"
  pl_completed_at :: "time option"

record job =
  jb_plan_id :: nat
  jb_sequence_index :: nat
  jb_outbox_id :: "nat option"

text \<open>\<open>delivery_seq\<close> is the last id SQLite has given out.\<close>

record outbox_db =
  ob_exists :: bool
  outbox :: "outbox_row list"
  deliveries :: "delivery list"
  delivery_seq :: nat
  plans :: "plan list"
  jobs :: "job list"

text \<open>
  What comes from outside: the clock, the lease token and the public reference drawn
  for the delivery with a given id, the sanitizers (\<open>ce_label\<close> gives the normal form
  of a label, empty when the sanitizer would change it), and the digest behind the
  identity of a final delivery.
\<close>

record connector_env =
  ce_utc_timestamp :: time
  ce_lease_token :: "nat \<Rightarrow> ustr"
  ce_public_ref :: "nat \<Rightarrow> ustr"
  ce_public_payload :: "(ustr \<times> json) list \<Rightarrow> (ustr \<times> json) list"
  ce_public_response :: "(ustr \<times> json) list \<Rightarrow> (ustr \<times> json) list"
  ce_public_reason :: "ustr option \<Rightarrow> ustr"
  ce_label :: "ustr \<Rightarrow> ustr"
  ce_diagnostic_text :: "ustr option \<Rightarrow> ustr"
  ce_final_digest :: "ustr \<Rightarrow> ustr \<Rightarrow> ustr \<Rightarrow> ustr"

abbreviation turn_final_name :: ustr where "turn_final_name \<equiv> lit ''turn-final''"

section \<open>Time\<close>

definition max_delay_seconds :: int where
  "max_delay_seconds = 365000 * 24 * 60 * 60"

definition connector_now :: "connector_env \<Rightarrow> time option \<Rightarrow> time" where
  "connector_now E now = whole_seconds (case now of None \<Rightarrow> ce_utc_timestamp E | Some t \<Rightarrow> t)"

definition connector_add_seconds :: "time \<Rightarrow> int \<Rightarrow> time" where
  "connector_add_seconds now seconds =
     whole_seconds (now + max 0 (min seconds max_delay_seconds) * second)"

text \<open>The first valid deadline decides; with none the work is overdue.\<close>

fun connector_deadline_due :: "time option list \<Rightarrow> time \<Rightarrow> bool" where
  "connector_deadline_due [] now = True"
| "connector_deadline_due (None # ds) now = connector_deadline_due ds now"
| "connector_deadline_due (Some d # ds) now = (d \<le> now)"

section \<open>Labels\<close>

definition turn_final_public_reasons :: "string list" where
  "turn_final_public_reasons =
    [''backpressure'', ''content_fetch_failed'', ''content_known_incomplete'',
     ''content_revision_not_found'', ''delivery_rejected'', ''delivery_uncertain'',
     ''invalid_content_page'', ''invalid_content_schema'', ''invalid_pending_plan'',
     ''invalid_prepare_response'', ''invalid_presentation_plan'', ''invalid_recovery_predecessor_receipt'',
     ''invalid_turn_final_job'', ''missing_message_owner_token'', ''operation_budget_exhausted'',
     ''predecessor_pending'', ''prepare_failed'', ''rate_limited'',
     ''rejected'', ''revision_conflict'', ''stale_or_unavailable_content_revision'',
     ''stale_or_unroutable_turn_plan'', ''stale_ref'', ''stale_revision'',
     ''temporary'', ''timeout'', ''transient_delivery'',
     ''unavailable'', ''unroutable_final_ready'', ''upgrade_required'']"

definition store_public_label :: "connector_env \<Rightarrow> string list \<Rightarrow> ustr option \<Rightarrow> ustr" where
  "store_public_label E allowed v =
     (let label = ce_label E (case v of None \<Rightarrow> [] | Some s \<Rightarrow> s) in
      if label = [] \<or> label \<notin> set (map lit allowed) then lit ''unknown'' else label)"

definition stored_reason_label :: "connector_env \<Rightarrow> ustr \<Rightarrow> ustr" where
  "stored_reason_label E reason =
     store_public_label E (''missing'' # ''unknown'' # turn_final_public_reasons) (Some reason)"

section \<open>Private state\<close>

definition connector_private_with_lease ::
  "private_state \<Rightarrow> nat option \<Rightarrow> nat \<Rightarrow> ustr \<Rightarrow> time \<Rightarrow> ustr \<Rightarrow> private_state" where
  "connector_private_with_lease s delivery_id attempt lease_token expires ref =
     s\<lparr>ps_current_delivery_id := delivery_id, ps_current_attempt := Some attempt,
       ps_lease_token := Some lease_token, ps_lease_expires_at := Some expires,
       ps_public_ref := Some ref\<rparr>"

definition connector_private_clear_current :: "private_state \<Rightarrow> private_state" where
  "connector_private_clear_current s =
     s\<lparr>ps_current_delivery_id := None, ps_current_attempt := None, ps_lease_token := None,
       ps_lease_expires_at := None, ps_public_ref := None\<rparr>"

definition migration_private_state :: "private_state \<Rightarrow> ustr \<Rightarrow> bool \<Rightarrow> bool \<Rightarrow> private_state" where
  "migration_private_state s mgroup canonical terminal_after_lease =
     s\<lparr>ps_migration_group := mgroup, ps_migration_canonical := canonical,
       ps_terminal_after_lease := terminal_after_lease\<rparr>"

definition sqlite_max_int :: int where
  "sqlite_max_int = 2 ^ 63 - 1"

definition connector_private_with_terminal_diagnostic ::
  "connector_env \<Rightarrow> private_state \<Rightarrow> ustr \<Rightarrow> ustr \<Rightarrow> int \<Rightarrow> ustr \<Rightarrow> time \<Rightarrow> private_state" where
  "connector_private_with_terminal_diagnostic E s public_reason reason_detail attempt_count
      classification terminalized_at =
     (connector_private_clear_current s)\<lparr>ps_terminal_diagnostic := Some
        \<lparr>dg_reason = stored_reason_label E public_reason,
         dg_attempt_count = max 0 (min attempt_count sqlite_max_int),
         dg_classification = classification, dg_terminalized_at = terminalized_at,
         dg_reason_detail = (if reason_detail = [] then []
                             else ce_diagnostic_text E (Some reason_detail))\<rparr>\<rparr>"

definition ack_retry_backoff_max :: int where
  "ack_retry_backoff_max = 30"

definition ack_timeout_count :: "private_state \<Rightarrow> int" where
  "ack_timeout_count s =
     (case ps_ack_timeout_count s of None \<Rightarrow> 1 | Some n \<Rightarrow> if 0 \<le> n then n + 1 else 1)"

definition ack_retry_delay :: "int \<Rightarrow> int" where
  "ack_retry_delay timeouts = min (2 ^ nat (min (timeouts - 1) 30)) ack_retry_backoff_max"

definition connector_ack_retry_state :: "private_state \<Rightarrow> time \<Rightarrow> private_state \<times> time" where
  "connector_ack_retry_state s now =
     ((connector_private_clear_current s)
        \<lparr>ps_ack_timeout_count := Some (ack_timeout_count s), ps_ack_deadline_at := None\<rparr>,
      connector_add_seconds now (ack_retry_delay (ack_timeout_count s)))"

section \<open>Attempts and reasons\<close>

definition outbox_by_id :: "outbox_db \<Rightarrow> nat \<Rightarrow> outbox_row option" where
  "outbox_by_id db i = sql_fetchone (\<lambda>b. ob_id b = i) (outbox db)"

definition attempts_of :: "outbox_db \<Rightarrow> nat \<Rightarrow> delivery list" where
  "attempts_of db i = filter (\<lambda>d. dl_outbox_id d = Some i) (deliveries db)"

definition max_attempt :: "outbox_db \<Rightarrow> nat \<Rightarrow> nat" where
  "max_attempt db i = foldl max 0 (map dl_attempt (attempts_of db i))"

text \<open>Attempts that timed out waiting for an acknowledgement do not count.\<close>

definition timed_out :: "delivery \<Rightarrow> bool" where
  "timed_out d \<longleftrightarrow> dl_status d = DvFailed \<and> dr_status (dl_response d) = lit ''ack_deadline_expired''"

definition attempts_used :: "outbox_db \<Rightarrow> nat \<Rightarrow> int" where
  "attempts_used db i = int (max_attempt db i) - int (length (filter timed_out (attempts_of db i)))"

definition connector_attempt_count :: "outbox_db \<Rightarrow> nat \<Rightarrow> private_state \<Rightarrow> int" where
  "connector_attempt_count db i s =
     (let prior = (case ps_prior_attempt_count s of None \<Rightarrow> 0 | Some n \<Rightarrow> n) in
      min ((if 0 \<le> prior then prior else 0) + int (max_attempt db i)) sqlite_max_int)"

definition latest :: "delivery list \<Rightarrow> delivery option" where
  "latest ds = (case rev (sort_key dl_id ds) of [] \<Rightarrow> None | d # _ \<Rightarrow> Some d)"

definition turn_final_latest_reason :: "connector_env \<Rightarrow> outbox_db \<Rightarrow> nat \<Rightarrow> ustr \<times> ustr" where
  "turn_final_latest_reason E db i =
     (case latest (attempts_of db i) of None \<Rightarrow> (lit ''missing'', [])
      | Some d \<Rightarrow>
          (case dr_reason (dl_response d) of None \<Rightarrow> (lit ''missing'', [])
           | Some reason \<Rightarrow>
               let public = stored_reason_label E reason in
               (public, if public = lit ''unknown''
                        then ce_diagnostic_text E (Some (dr_reason_detail (dl_response d))) else [])))"

definition turn_final_reason_diagnostics :: "connector_env \<Rightarrow> ustr option \<Rightarrow> ustr \<times> ustr" where
  "turn_final_reason_diagnostics E reason =
     (let public = store_public_label E turn_final_public_reasons reason in
      if public \<noteq> lit ''unknown'' then (public, []) else (public, ce_diagnostic_text E reason))"

section \<open>Presentation plans\<close>

definition outbox_set :: "nat \<Rightarrow> outbox_status \<Rightarrow> (outbox_row \<Rightarrow> outbox_row) \<Rightarrow> outbox_db \<Rightarrow> outbox_db" where
  "outbox_set i st f db = db\<lparr>outbox := sql_update (\<lambda>b. ob_id b = i \<and> ob_status b = st) f (outbox db)\<rparr>"

definition plan_jobs :: "outbox_db \<Rightarrow> nat \<Rightarrow> job list" where
  "plan_jobs db p = filter (\<lambda>j. jb_plan_id j = p) (jobs db)"

definition job_row :: "outbox_db \<Rightarrow> job \<Rightarrow> outbox_row option" where
  "job_row db j = (case jb_outbox_id j of None \<Rightarrow> None | Some i \<Rightarrow> outbox_by_id db i)"

text \<open>The outbox rows of a plan's jobs (an inner join).\<close>

definition plan_rows :: "outbox_db \<Rightarrow> nat \<Rightarrow> outbox_row list" where
  "plan_rows db p = List.map_filter (job_row db) (plan_jobs db p)"

definition plan_of_row :: "outbox_db \<Rightarrow> nat \<Rightarrow> plan option" where
  "plan_of_row db i =
     (case List.map_filter (\<lambda>j. if jb_outbox_id j = Some i
         then sql_fetchone (\<lambda>p. pl_id p = jb_plan_id j) (plans db) else None) (jobs db) of
       [] \<Rightarrow> None | p # _ \<Rightarrow> Some p)"

definition activate_waiting_presentation_plans :: "ustr \<Rightarrow> ustr \<Rightarrow> time \<Rightarrow> outbox_db \<Rightarrow> outbox_db" where
  "activate_waiting_presentation_plans host name now db =
     db\<lparr>plans := sql_update
       (\<lambda>w. pl_host w = host \<and> pl_name w = name \<and> pl_state w = PlWaiting
          \<and> \<not> list_ex (\<lambda>older. pl_host older = pl_host w \<and> pl_name older = pl_name w
                 \<and> pl_turn_id older = pl_turn_id w \<and> pl_id older \<noteq> pl_id w
                 \<and> list_ex (\<lambda>b. ob_status b = ObLeased) (plan_rows db (pl_id older))) (plans db))
       (\<lambda>w. w\<lparr>pl_state := PlActive,
              pl_activated_at := (case pl_activated_at w of None \<Rightarrow> Some now | Some t \<Rightarrow> Some t)\<rparr>)
       (plans db)\<rparr>"

definition mark_exhausted_presentation_plans :: "ustr \<Rightarrow> ustr option \<Rightarrow> outbox_db \<Rightarrow> outbox_db" where
  "mark_exhausted_presentation_plans host name db =
     db\<lparr>plans := sql_update
       (\<lambda>p. pl_host p = host \<and> (case name of None \<Rightarrow> True | Some n \<Rightarrow> pl_name p = n)
          \<and> (pl_state p = PlActive \<or> pl_state p = PlWaiting)
          \<and> list_ex (\<lambda>b. ob_status b = ObDeadLetter) (plan_rows db (pl_id p)))
       (\<lambda>p. p\<lparr>pl_state := PlFailed\<rparr>) (plans db)\<rparr>"

definition final_identity :: "connector_env \<Rightarrow> ustr \<Rightarrow> ustr \<Rightarrow> ustr \<Rightarrow> ustr result" where
  "final_identity E host turn_id revision =
     (if host = [] \<or> turn_id = [] \<or> revision = [] then Inl ValueError
      else Inr (lit ''twfinal1.'' @ ce_final_digest E host turn_id revision))"

text \<open>A plan without a source row leaves a delivered record of its own.\<close>

definition record_sourceless_delivery ::
  "connector_env \<Rightarrow> plan \<Rightarrow> time \<Rightarrow> outbox_db \<Rightarrow> outbox_db result" where
  "record_sourceless_delivery E p now db =
     bind_result (final_identity E (pl_host p) (pl_turn_id p) (pl_revision p)) (\<lambda>fid.
       let key = turn_final_name @ lit '':revision:'' @ fid in
       if list_ex (\<lambda>d. dl_outbox_id d = None \<and> dl_host d = pl_host p \<and> dl_connector d = pl_name p
            \<and> dl_key d = key \<and> dl_status d = DvDelivered \<and> dl_delivered_at d \<noteq> None) (deliveries db)
       then Inr db
       else Inr (db\<lparr>deliveries := deliveries db @
              [\<lparr>dl_id = Suc (delivery_seq db), dl_outbox_id = None, dl_host = pl_host p,
                dl_connector = pl_name p, dl_key = key, dl_attempt = 0, dl_status = DvDelivered,
                dl_response = plain_response [], dl_private = no_private, dl_created_at = now,
                dl_delivered_at = Some now\<rparr>],
              delivery_seq := Suc (delivery_seq db)\<rparr>))"

text \<open>An acknowledged part moves the deadline of its source forward.\<close>

definition extend_ack_deadline :: "nat \<Rightarrow> time \<Rightarrow> time \<Rightarrow> outbox_db \<Rightarrow> outbox_db" where
  "extend_ack_deadline source deadline now db =
     (case sql_fetchone (\<lambda>b. ob_id b = source \<and> ob_status b = ObAwaitingAck) (outbox db) of
        None \<Rightarrow> db
      | Some row \<Rightarrow>
          let db1 = outbox_set source ObAwaitingAck
                (\<lambda>b. b\<lparr>ob_private := (ob_private row)\<lparr>ps_ack_deadline_at := Some deadline\<rparr>,
                       ob_next_attempt_at := Some deadline, ob_updated_at := now\<rparr>) db
          in case latest (filter (\<lambda>d. dl_outbox_id d = Some source \<and> dl_status d = DvAwaitingAck)
                (deliveries db1)) of
               None \<Rightarrow> db1
             | Some d \<Rightarrow> db1\<lparr>deliveries := sql_update
                   (\<lambda>x. dl_id x = dl_id d \<and> dl_status x = DvAwaitingAck)
                   (\<lambda>x. x\<lparr>dl_private := (dl_private d)\<lparr>ps_ack_deadline_at := Some deadline\<rparr>\<rparr>)
                   (deliveries db1)\<rparr>)"

definition deliver_source :: "nat \<Rightarrow> time \<Rightarrow> outbox_db \<Rightarrow> outbox_db" where
  "deliver_source source now db =
     (let db1 = db\<lparr>deliveries := sql_update
            (\<lambda>d. dl_outbox_id d = Some source \<and> dl_status d = DvAwaitingAck)
            (\<lambda>d. d\<lparr>dl_status := DvDelivered, dl_delivered_at := Some now\<rparr>) (deliveries db)\<rparr>
      in case outbox_by_id db1 source of None \<Rightarrow> db1
         | Some row \<Rightarrow> outbox_set source ObAwaitingAck
             (\<lambda>b. b\<lparr>ob_status := ObDelivered, ob_next_attempt_at := None, ob_updated_at := now,
                    ob_private := connector_private_clear_current (ob_private row)\<rparr>) db1)"

definition update_presentation_plan_after_outbox ::
  "connector_env \<Rightarrow> nat \<Rightarrow> outbox_status \<Rightarrow> time \<Rightarrow> int option \<Rightarrow> outbox_db \<Rightarrow> outbox_db result" where
  "update_presentation_plan_after_outbox E i status now ack_ttl db =
     (case plan_of_row db i of None \<Rightarrow> Inr db
      | Some p \<Rightarrow>
          bind_result
            (if status = ObDeadLetter \<and> (pl_state p = PlActive \<or> pl_state p = PlWaiting)
             then Inr (db\<lparr>plans := sql_update (\<lambda>x. pl_id x = pl_id p) (\<lambda>x. x\<lparr>pl_state := PlFailed\<rparr>) (plans db)\<rparr>)
             else if status = ObDelivered \<and> pl_state p = PlActive
             then
               let remaining = length (filter (\<lambda>b. ob_status b \<noteq> ObDelivered) (plan_rows db (pl_id p)));
                   db1 = (case (pl_source_outbox_id p, ack_ttl) of
                            (Some source, Some ttl) \<Rightarrow>
                              if 0 < remaining
                              then extend_ack_deadline source (connector_add_seconds now (max 1 ttl)) now db
                              else db
                          | _ \<Rightarrow> db)
               in if remaining \<noteq> 0 then Inr db1
                  else
                    let db2 = db1\<lparr>plans := sql_update (\<lambda>x. pl_id x = pl_id p \<and> pl_state x = PlActive)
                          (\<lambda>x. x\<lparr>pl_state := PlCompleted, pl_completed_at :=
                             (case pl_completed_at x of None \<Rightarrow> Some now | Some t \<Rightarrow> Some t)\<rparr>) (plans db1)\<rparr>
                    in (case pl_source_outbox_id p of
                          Some source \<Rightarrow> Inr (deliver_source source now db2)
                        | None \<Rightarrow> record_sourceless_delivery E p now db2)
             else Inr db)
            (\<lambda>db3. Inr (activate_waiting_presentation_plans (pl_host p) (pl_name p) now db3)))"

section \<open>Reclaiming expired leases\<close>

text \<open>One due lease: its attempt expires and its row goes back to the queue.\<close>

definition reclaim_lease ::
  "connector_env \<Rightarrow> time \<Rightarrow> delivery \<Rightarrow> outbox_row option \<Rightarrow> outbox_db \<Rightarrow> outbox_db result" where
  "reclaim_lease E now d row db =
     (let db1 = db\<lparr>deliveries := sql_update (\<lambda>x. dl_id x = dl_id d \<and> dl_status x = DvLeased)
            (\<lambda>x. x\<lparr>dl_status := DvExpired, dl_response := plain_response (lit ''expired''),
                   dl_delivered_at := Some now\<rparr>) (deliveries db)\<rparr>
      in case row of None \<Rightarrow> Inr db1
         | Some o1 \<Rightarrow>
             if (case ps_current_delivery_id (ob_private o1) of None \<Rightarrow> True | Some c \<Rightarrow> c = dl_id d)
                \<and> ob_status o1 = ObLeased
             then
               let terminal = ps_terminal_after_lease (ob_private o1);
                   next_status = (if terminal then ObSuperseded else ObQueued);
                   db2 = outbox_set (ob_id o1) ObLeased
                     (\<lambda>b. b\<lparr>ob_status := next_status, ob_next_attempt_at := None, ob_updated_at := now,
                            ob_private := connector_private_clear_current (ob_private o1)\<rparr>) db1
               in update_presentation_plan_after_outbox E (ob_id o1) next_status now None db2
             else Inr db1)"

definition delivery_row :: "outbox_db \<Rightarrow> delivery \<Rightarrow> outbox_row option" where
  "delivery_row db d = (case dl_outbox_id d of None \<Rightarrow> None | Some i \<Rightarrow> outbox_by_id db i)"

definition in_queue :: "ustr \<Rightarrow> ustr option \<Rightarrow> ustr \<Rightarrow> ustr \<Rightarrow> bool" where
  "in_queue host name h c \<longleftrightarrow> h = host \<and> (case name of None \<Rightarrow> True | Some n \<Rightarrow> c = n)"

definition leased_deliveries :: "ustr \<Rightarrow> ustr option \<Rightarrow> outbox_db \<Rightarrow> delivery list" where
  "leased_deliveries host name db =
     filter (\<lambda>d. dl_status d = DvLeased \<and> in_queue host name (dl_host d) (dl_connector d)) (deliveries db)"

fun reclaim_leases ::
  "connector_env \<Rightarrow> time \<Rightarrow> (delivery \<times> outbox_row option) list \<Rightarrow> nat \<Rightarrow> outbox_db
     \<Rightarrow> (nat \<times> outbox_db) result" where
  "reclaim_leases E now [] n db = Inr (n, db)"
| "reclaim_leases E now ((d, row) # rest) n db =
     (if \<not> connector_deadline_due [ps_lease_expires_at (dl_private d)] now
      then reclaim_leases E now rest n db
      else bind_result (reclaim_lease E now d row db) (\<lambda>db1. reclaim_leases E now rest (n + 1) db1))"

section \<open>Reclaiming rows that wait for an acknowledgement\<close>

definition latest_plan :: "plan list \<Rightarrow> plan option" where
  "latest_plan ps = (case rev (sort_key pl_id ps) of [] \<Rightarrow> None | p # _ \<Rightarrow> Some p)"

definition source_plan :: "outbox_db \<Rightarrow> nat \<Rightarrow> plan option" where
  "source_plan db i = latest_plan (filter (\<lambda>p. pl_source_outbox_id p = Some i) (plans db))"

definition awaiting_delivery :: "outbox_db \<Rightarrow> nat \<Rightarrow> delivery option" where
  "awaiting_delivery db i =
     latest (filter (\<lambda>d. dl_outbox_id d = Some i \<and> dl_status d = DvAwaitingAck) (deliveries db))"

definition recoverable_plan :: "plan option \<Rightarrow> bool" where
  "recoverable_plan p = (case p of None \<Rightarrow> False | Some q \<Rightarrow> pl_state q \<in> {PlActive, PlWaiting, PlFailed})"

definition plan_has_live_job_lease :: "outbox_db \<Rightarrow> nat \<Rightarrow> time \<Rightarrow> bool" where
  "plan_has_live_job_lease db p now =
     list_ex (\<lambda>b. ob_status b = ObLeased
        \<and> list_ex (\<lambda>d. dl_outbox_id d = Some (ob_id b) \<and> dl_status d = DvLeased
             \<and> \<not> connector_deadline_due [ps_lease_expires_at (dl_private d)] now) (deliveries db))
       (plan_rows db p)"

definition awaiting_due :: "outbox_db \<Rightarrow> outbox_row \<Rightarrow> time \<Rightarrow> bool" where
  "awaiting_due db b now =
     connector_deadline_due [ps_ack_deadline_at (ob_private b), ob_next_attempt_at b,
       (case awaiting_delivery db (ob_id b) of None \<Rightarrow> None | Some d \<Rightarrow> ps_ack_deadline_at (dl_private d))] now"

definition open_status :: "outbox_status \<Rightarrow> bool" where
  "open_status s \<longleftrightarrow> s \<noteq> ObDelivered \<and> s \<noteq> ObSuperseded \<and> s \<noteq> ObDeadLetter"

definition bury_job :: "connector_env \<Rightarrow> time \<Rightarrow> outbox_row \<Rightarrow> outbox_db \<Rightarrow> outbox_db" where
  "bury_job E now b db =
     (let (reason, detail) = turn_final_latest_reason E db (ob_id b);
          attempts = connector_attempt_count db (ob_id b) (ob_private b);
          db1 = db\<lparr>deliveries := sql_update (\<lambda>d. dl_outbox_id d = Some (ob_id b) \<and> dl_status d = DvLeased)
            (\<lambda>d. d\<lparr>dl_status := DvFailed, dl_response := plain_response (lit ''ack_deadline_expired''),
                   dl_delivered_at := Some now\<rparr>) (deliveries db)\<rparr>
      in db1\<lparr>outbox := sql_update (\<lambda>x. ob_id x = ob_id b)
           (\<lambda>x. x\<lparr>ob_status := ObDeadLetter, ob_next_attempt_at := None, ob_updated_at := now,
                  ob_private := connector_private_with_terminal_diagnostic E (ob_private b) reason detail
                    attempts (lit ''ack_deadline_expired'') now\<rparr>) (outbox db1)\<rparr>)"

text \<open>Closing the attempt that waits and moving its source row.\<close>

definition close_awaiting ::
  "outbox_row \<Rightarrow> delivery option \<Rightarrow> ustr \<Rightarrow> outbox_status \<Rightarrow> time option \<Rightarrow> private_state \<Rightarrow> time
     \<Rightarrow> outbox_db \<Rightarrow> outbox_db" where
  "close_awaiting b d label status retry_at private now db =
     (let db1 = (case d of None \<Rightarrow> db
        | Some x \<Rightarrow> db\<lparr>deliveries := sql_update (\<lambda>y. dl_id y = dl_id x \<and> dl_status y = DvAwaitingAck)
            (\<lambda>y. y\<lparr>dl_status := DvFailed, dl_response := plain_response label, dl_delivered_at := Some now\<rparr>)
            (deliveries db)\<rparr>)
      in outbox_set (ob_id b) ObAwaitingAck
           (\<lambda>y. y\<lparr>ob_status := status, ob_next_attempt_at := retry_at, ob_updated_at := now,
                  ob_private := private\<rparr>) db1)"

definition give_up_awaiting ::
  "connector_env \<Rightarrow> ustr \<Rightarrow> time \<Rightarrow> outbox_row \<Rightarrow> delivery option \<Rightarrow> outbox_db \<Rightarrow> outbox_db" where
  "give_up_awaiting E host now b d db =
     (let (reason, detail) = turn_final_latest_reason E db (ob_id b);
          state = connector_private_with_terminal_diagnostic E (ob_private b) reason detail
            (connector_attempt_count db (ob_id b) (ob_private b)) (lit ''plan_unrecoverable'') now
      in activate_waiting_presentation_plans host (ob_connector b) now
           (close_awaiting b d (lit ''plan_unrecoverable'') ObDeadLetter None state now db))"

definition reclaim_awaiting_row ::
  "connector_env \<Rightarrow> ustr \<Rightarrow> time \<Rightarrow> outbox_row \<Rightarrow> outbox_db \<Rightarrow> nat \<times> outbox_db" where
  "reclaim_awaiting_row E host now b db =
     (if \<not> awaiting_due db b now then (0, db)
      else
        let d = awaiting_delivery db (ob_id b); p = source_plan db (ob_id b) in
        case p of
          Some q \<Rightarrow>
            if pl_state q = PlCompleted then
              let db1 = (case d of None \<Rightarrow> db
                    | Some x \<Rightarrow> db\<lparr>deliveries := sql_update (\<lambda>y. dl_id y = dl_id x \<and> dl_status y = DvAwaitingAck)
                        (\<lambda>y. y\<lparr>dl_status := DvDelivered, dl_delivered_at :=
                           (case dl_delivered_at y of None \<Rightarrow> Some now | Some t \<Rightarrow> Some t)\<rparr>) (deliveries db)\<rparr>)
              in (1, outbox_set (ob_id b) ObAwaitingAck
                   (\<lambda>y. y\<lparr>ob_status := ObDelivered, ob_next_attempt_at := None, ob_updated_at := now,
                          ob_private := connector_private_clear_current (ob_private b)\<rparr>) db1)
            else if recoverable_plan p then
              (if plan_has_live_job_lease db (pl_id q) now then (0, db)
               else
                 let db1 = db\<lparr>plans := sql_update (\<lambda>x. pl_id x = pl_id q) (\<lambda>x. x\<lparr>pl_state := PlFailed\<rparr>) (plans db)\<rparr>;
                     db2 = fold (bury_job E now)
                       (filter (\<lambda>x. open_status (ob_status x)) (plan_rows db1 (pl_id q))) db1;
                     (state, retry_at) = connector_ack_retry_state (ob_private b) now;
                     generation = (case ps_presentation_generation state of None \<Rightarrow> 1
                                   | Some g \<Rightarrow> if g = 0 then 1 else g);
                     state1 = state\<lparr>ps_presentation_generation :=
                       Some (max generation ((if pl_generation q = 0 then 1 else pl_generation q) + 1))\<rparr>
                 in (1, activate_waiting_presentation_plans host (ob_connector b) now
                      (close_awaiting b d (lit ''ack_deadline_expired'') ObRetry (Some retry_at) state1 now db2)))
            else (1, give_up_awaiting E host now b d db)
        | None \<Rightarrow> (1, give_up_awaiting E host now b d db))"

fun reclaim_awaiting_rows ::
  "connector_env \<Rightarrow> ustr \<Rightarrow> time \<Rightarrow> outbox_row list \<Rightarrow> outbox_db \<Rightarrow> nat \<times> outbox_db" where
  "reclaim_awaiting_rows E host now [] db = (0, db)"
| "reclaim_awaiting_rows E host now (b # bs) db =
     (case reclaim_awaiting_row E host now b db of (n, db1) \<Rightarrow>
        case reclaim_awaiting_rows E host now bs db1 of (m, db2) \<Rightarrow> (n + m, db2))"

definition awaiting_rows :: "ustr \<Rightarrow> ustr option \<Rightarrow> outbox_db \<Rightarrow> outbox_row list" where
  "awaiting_rows host name db =
     sort_key ob_id (filter (\<lambda>b. ob_status b = ObAwaitingAck \<and> in_queue host name (ob_host b) (ob_connector b))
       (outbox db))"

definition reclaim_expired_awaiting_ack ::
  "connector_env \<Rightarrow> ustr \<Rightarrow> ustr option \<Rightarrow> time \<Rightarrow> outbox_db \<Rightarrow> nat \<times> outbox_db" where
  "reclaim_expired_awaiting_ack E host name now db =
     reclaim_awaiting_rows E host now (awaiting_rows host name db) db"

definition reclaim_expired_leases ::
  "connector_env \<Rightarrow> ustr \<Rightarrow> ustr option \<Rightarrow> time \<Rightarrow> outbox_db \<Rightarrow> (nat \<times> outbox_db) result" where
  "reclaim_expired_leases E host name now db =
     bind_result (reclaim_leases E now
         (map (\<lambda>d. (d, delivery_row db d)) (leased_deliveries host name db)) 0 db) (\<lambda>(n, db1).
       case reclaim_expired_awaiting_ack E host name now db1 of (m, db2) \<Rightarrow> Inr (n + m, db2))"

definition connector_reclaim_due ::
  "connector_env \<Rightarrow> ustr \<Rightarrow> ustr option \<Rightarrow> time option \<Rightarrow> outbox_db \<Rightarrow> bool" where
  "connector_reclaim_due E host name now db =
     (let t = connector_now E now in
      ob_exists db
      \<and> (list_ex (\<lambda>d. connector_deadline_due [ps_lease_expires_at (dl_private d)] t)
            (leased_deliveries host name db)
         \<or> list_ex (\<lambda>b. awaiting_due db b t
              \<and> \<not> (recoverable_plan (source_plan db (ob_id b))
                   \<and> (case source_plan db (ob_id b) of None \<Rightarrow> False
                      | Some q \<Rightarrow> plan_has_live_job_lease db (pl_id q) t)))
            (filter (\<lambda>b. ob_status b = ObAwaitingAck \<and> in_queue host name (ob_host b) (ob_connector b))
              (outbox db))))"

section \<open>Exhausting retries\<close>

definition pollable_status :: "outbox_status \<Rightarrow> bool" where
  "pollable_status s \<longleftrightarrow> s = ObQueued \<or> s = ObDeferred \<or> s = ObRetry"

definition retryable_exhausted :: "ustr \<Rightarrow> ustr option \<Rightarrow> int \<Rightarrow> outbox_db \<Rightarrow> outbox_row \<Rightarrow> bool" where
  "retryable_exhausted host name limit db b \<longleftrightarrow>
     in_queue host name (ob_host b) (ob_connector b) \<and> pollable_status (ob_status b)
     \<and> max 1 limit \<le> attempts_used db (ob_id b)"

definition exhaust_row :: "connector_env \<Rightarrow> time \<Rightarrow> outbox_row \<Rightarrow> outbox_db \<Rightarrow> outbox_db" where
  "exhaust_row E now b db =
     (let private =
        (if ob_connector b = turn_final_name
         then (case turn_final_latest_reason E db (ob_id b) of (reason, detail) \<Rightarrow>
           connector_private_with_terminal_diagnostic E (ob_private b) reason detail
             (connector_attempt_count db (ob_id b) (ob_private b)) (lit ''attempts_exhausted'') now)
         else no_private)
      in db\<lparr>outbox := sql_update (\<lambda>x. ob_id x = ob_id b)
           (\<lambda>x. x\<lparr>ob_status := ObDeadLetter, ob_next_attempt_at := None, ob_updated_at := now,
                  ob_private := private\<rparr>) (outbox db)\<rparr>)"

definition exhaust_retryable ::
  "connector_env \<Rightarrow> ustr \<Rightarrow> ustr option \<Rightarrow> int \<Rightarrow> time \<Rightarrow> outbox_db \<Rightarrow> nat \<times> outbox_db" where
  "exhaust_retryable E host name limit now db =
     (let rows = sort_key ob_id (filter (retryable_exhausted host name limit db) (outbox db)) in
      (length rows, mark_exhausted_presentation_plans host name (fold (exhaust_row E now) rows db)))"

end
