(* ===== verification/FinalAnchors.thy ===== *)
theory FinalAnchors
  imports Outbox
begin

text \<open>
  The anchor rows of final answers in the outbox (\<open>store/sqlite.py\<close>): enqueueing the anchor
  of a turn's current revision, which supersedes the work of its other revisions and may
  reactivate an anchor that was superseded or delivered before, and \<open>connector.retry\<close>, which
  requeues a dead letter.

  What these operations read of the turns, their content revisions and the plan recoveries
  is an argument: the answer of the reading function for a host, turn and revision.  The
  payload of a row and of a final are the members of their canonical JSON texts.
\<close>

section \<open>What is read of the turns\<close>

record final_anchor =
  fa_identity :: ustr
  fa_known_incomplete :: bool
  fa_routable :: bool
  fa_payload :: "(ustr \<times> json) list"

record anchor_env =
  ae_final_ready :: "ustr \<Rightarrow> ustr \<Rightarrow> ustr \<Rightarrow> final_anchor option"
  ae_internal_automation :: "ustr \<Rightarrow> ustr \<Rightarrow> ustr \<Rightarrow> bool"
  ae_ordering_key :: "ustr \<Rightarrow> ustr \<Rightarrow> ustr"
  ae_plan_token :: "nat \<Rightarrow> ustr"
  ae_recovered :: "nat \<Rightarrow> bool"

text \<open>Only a routable final is read, unless the caller allows the others.\<close>

definition final_ready_payload :: "anchor_env \<Rightarrow> ustr \<Rightarrow> ustr \<Rightarrow> ustr \<Rightarrow> bool \<Rightarrow> final_anchor option" where
  "final_ready_payload A host turn_id revision allow_unroutable =
     (case ae_final_ready A host turn_id revision of None \<Rightarrow> None
      | Some a \<Rightarrow> if fa_routable a \<or> allow_unroutable then Some a else None)"

section \<open>Keys\<close>

definition presentation_token_chars :: ustr where
  "presentation_token_chars = lit ''abcdefghijklmnopqrstuvwxyzABCDEFGHIJKLMNOPQRSTUVWXYZ0123456789-_''"

definition valid_presentation_opaque :: "ustr \<Rightarrow> ustr \<Rightarrow> bool" where
  "valid_presentation_opaque v prefix =
     (let body = drop (length prefix) v in
      take (length prefix) v = prefix \<and> body \<noteq> [] \<and> list_all (\<lambda>c. c \<in> set presentation_token_chars) body)"

definition final_ready_key :: "ustr \<Rightarrow> ustr" where
  "final_ready_key identity = turn_final_name @ lit '':revision:'' @ identity"

definition valid_final_ready_key :: "ustr \<Rightarrow> bool" where
  "valid_final_ready_key v =
     (take (length (final_ready_key (lit ''twfinal1.''))) v = final_ready_key (lit ''twfinal1.'')
      \<and> valid_presentation_opaque (drop (length (final_ready_key [])) v) (lit ''twfinal1.''))"

definition final_kind :: "delivery_kind \<Rightarrow> bool" where
  "final_kind k \<longleftrightarrow> k = FinalReady \<or> k = FinalMigrationHold"

definition anchor_row :: "outbox_db \<Rightarrow> ustr \<Rightarrow> ustr \<Rightarrow> outbox_row option" where
  "anchor_row db host key =
     sql_fetchone (\<lambda>b. ob_host b = host \<and> ob_connector b = turn_final_name \<and> ob_key b = key) (outbox db)"

definition turn_plan :: "ustr \<Rightarrow> ustr \<Rightarrow> plan \<Rightarrow> bool" where
  "turn_plan host turn_id p \<longleftrightarrow> pl_host p = host \<and> pl_name p = turn_final_name \<and> pl_turn_id p = turn_id"

definition connector_private_clear_terminal_diagnostic :: "private_state \<Rightarrow> private_state" where
  "connector_private_clear_terminal_diagnostic s = s\<lparr>ps_terminal_diagnostic := None\<rparr>"

section \<open>Superseding the work of other revisions\<close>

definition stale_final :: "ustr \<Rightarrow> ustr \<Rightarrow> ustr \<Rightarrow> outbox_row \<Rightarrow> bool" where
  "stale_final host turn_id revision b \<longleftrightarrow>
     ob_host b = host \<and> ob_connector b = turn_final_name \<and> ob_turn_id b = Some turn_id \<and> final_kind (ob_kind b)
     \<and> (case ob_revision b of None \<Rightarrow> False | Some r \<Rightarrow> r \<noteq> revision)
     \<and> ob_status b \<noteq> ObDelivered \<and> ob_status b \<noteq> ObSuperseded"

definition stale_plan :: "ustr \<Rightarrow> ustr \<Rightarrow> ustr \<Rightarrow> plan \<Rightarrow> bool" where
  "stale_plan host turn_id revision p \<longleftrightarrow>
     turn_plan host turn_id p \<and> pl_revision p \<noteq> revision \<and> pl_state p \<in> {PlPreparing, PlWaiting, PlActive, PlFailed}"

definition plan_job_ids :: "nat list \<Rightarrow> outbox_db \<Rightarrow> nat list" where
  "plan_job_ids ids db = List.map_filter jb_outbox_id (filter (\<lambda>j. jb_plan_id j \<in> set ids) (jobs db))"

definition attempt_among :: "nat list \<Rightarrow> delivery \<Rightarrow> bool" where
  "attempt_among ids d \<longleftrightarrow> (case dl_outbox_id d of None \<Rightarrow> False | Some i \<Rightarrow> i \<in> set ids)"

definition supersede_attempt :: "time \<Rightarrow> delivery \<Rightarrow> delivery" where
  "supersede_attempt now d = d\<lparr>dl_status := DvSuperseded,
     dl_delivered_at := (case dl_delivered_at d of None \<Rightarrow> Some now | Some t \<Rightarrow> Some t)\<rparr>"

definition supersede_row :: "time \<Rightarrow> outbox_row \<Rightarrow> outbox_row" where
  "supersede_row now b = b\<lparr>ob_status := ObSuperseded, ob_next_attempt_at := None, ob_updated_at := now,
     ob_private := connector_private_clear_current (ob_private b)\<rparr>"

definition supersede_stale_final_work :: "ustr \<Rightarrow> ustr \<Rightarrow> ustr \<Rightarrow> time \<Rightarrow> outbox_db \<Rightarrow> outbox_db" where
  "supersede_stale_final_work host turn_id revision now db =
     (let finals = map ob_id (filter (stale_final host turn_id revision) (outbox db));
          plan_ids = map pl_id (filter (stale_plan host turn_id revision) (plans db));
          ids = finals @ plan_job_ids plan_ids db in
      db\<lparr>plans := sql_update (\<lambda>p. pl_id p \<in> set plan_ids) (\<lambda>p. p\<lparr>pl_state := PlSuperseded\<rparr>) (plans db),
         deliveries := sql_update (\<lambda>d. attempt_among ids d \<and> dl_status d \<noteq> DvDelivered)
           (\<lambda>d. supersede_attempt now (d\<lparr>dl_response := plain_response (lit ''superseded'')\<rparr>)) (deliveries db),
         outbox := sql_update (\<lambda>b. ob_id b \<in> set ids \<and> ob_status b \<noteq> ObDelivered \<and> ob_status b \<noteq> ObSuperseded)
           (supersede_row now) (outbox db)\<rparr>)"

section \<open>Reactivating an anchor\<close>

text \<open>
  The revision's plans, their jobs and the outbox rows of these, with all attempts, are
  deleted, and the anchor starts over under the next presentation generation.
\<close>

definition int_or :: "int option \<Rightarrow> int \<Rightarrow> int" where
  "int_or v d = (case v of None \<Rightarrow> d | Some n \<Rightarrow> if n = 0 then d else n)"

definition reactivated_state :: "private_state \<Rightarrow> plan list \<Rightarrow> nat \<Rightarrow> nat option \<Rightarrow> private_state" where
  "reactivated_state s ps attempts latest_activated =
     (let s1 = (connector_private_clear_terminal_diagnostic (connector_private_clear_current s))
        \<lparr>ps_presentation_generation := Some (max (max 1 (int_or (ps_presentation_generation s) 1))
             (foldl max 0 (map pl_generation ps)) + 1),
         ps_presentation_max_part_count := Some (max (int_or (ps_presentation_max_part_count s) 0)
             (foldl max 0 (map pl_part_count ps))),
         ps_prior_attempt_count := Some (int_or (ps_prior_attempt_count s) 0 + int attempts)\<rparr>
      in case latest_activated of None \<Rightarrow> s1 | Some p \<Rightarrow> s1\<lparr>ps_reactivated_after_plan_id := Some p\<rparr>)"

definition reactivate_final_root ::
  "ustr \<Rightarrow> ustr \<Rightarrow> ustr \<Rightarrow> outbox_row \<Rightarrow> nat option \<Rightarrow> delivery_kind \<Rightarrow> outbox_status \<Rightarrow> (ustr \<times> json) list \<Rightarrow> time
     \<Rightarrow> outbox_db \<Rightarrow> outbox_db" where
  "reactivate_final_root host turn_id revision root latest_activated kind status payload now db =
     (let ps = filter (\<lambda>p. turn_plan host turn_id p \<and> pl_revision p = revision) (plans db);
          plan_ids = map pl_id ps;
          ids = plan_job_ids plan_ids db;
          state = reactivated_state (ob_private root) ps (length (attempts_of db (ob_id root))) latest_activated in
      db\<lparr>plans := sql_delete (\<lambda>p. pl_id p \<in> set plan_ids) (plans db),
         jobs := sql_delete (\<lambda>j. jb_plan_id j \<in> set plan_ids) (jobs db),
         deliveries := sql_delete (attempt_among (ob_id root # ids)) (deliveries db),
         outbox := sql_update (\<lambda>b. ob_id b = ob_id root)
           (\<lambda>b. b\<lparr>ob_kind := kind, ob_status := status, ob_payload := payload, ob_private := state,
                  ob_updated_at := now, ob_next_attempt_at := None\<rparr>)
           (sql_delete (\<lambda>b. ob_id b \<in> set ids) (outbox db))\<rparr>)"

section \<open>Enqueueing an anchor\<close>

text \<open>The turn's last activated plan one of whose jobs was attempted.\<close>

definition latest_activated_plan :: "ustr \<Rightarrow> ustr \<Rightarrow> outbox_db \<Rightarrow> plan option" where
  "latest_activated_plan host turn_id db =
     latest_plan (filter (\<lambda>p. turn_plan host turn_id p \<and> pl_activated_at p \<noteq> None
        \<and> list_ex (attempt_among (plan_job_ids [pl_id p] db)) (deliveries db)) (plans db))"

text \<open>A final that reached its reader without an anchor, or whose anchor is gone, is not enqueued again.\<close>

definition delivered_without_anchor :: "ustr \<Rightarrow> ustr \<Rightarrow> ustr \<Rightarrow> ustr \<Rightarrow> outbox_db \<Rightarrow> bool" where
  "delivered_without_anchor host turn_id revision key db \<longleftrightarrow>
     list_ex (\<lambda>p. turn_plan host turn_id p \<and> pl_revision p = revision \<and> pl_source_outbox_id p = None
        \<and> pl_state p \<in> {PlWaiting, PlActive, PlCompleted} \<and> plan_job_ids [pl_id p] db \<noteq> []) (plans db)
     \<or> list_ex (\<lambda>d. dl_outbox_id d = None \<and> dl_host d = host \<and> dl_connector d = turn_final_name \<and> dl_key d = key
        \<and> dl_status d = DvDelivered \<and> dl_delivered_at d \<noteq> None) (deliveries db)"

definition hold_reason :: "final_anchor \<Rightarrow> bool \<Rightarrow> ustr option" where
  "hold_reason a internal_automation =
     (if fa_known_incomplete a then Some (lit ''content_known_incomplete'')
      else if \<not> fa_routable a then Some (lit ''unroutable_final_ready'')
      else if internal_automation then Some (lit ''internal_automation'') else None)"

definition initial_private :: "connector_env \<Rightarrow> ustr option \<Rightarrow> time \<Rightarrow> private_state" where
  "initial_private E hold now =
     (case hold of None \<Rightarrow> no_private
      | Some h \<Rightarrow> (case turn_final_reason_diagnostics E (Some h) of (reason, detail) \<Rightarrow>
          connector_private_with_terminal_diagnostic E no_private reason detail 0 (lit ''migration_hold'') now))"

definition reactivates :: "ustr \<Rightarrow> plan option \<Rightarrow> (ustr \<times> json) list \<Rightarrow> outbox_row \<Rightarrow> bool" where
  "reactivates revision latest_activated payload b \<longleftrightarrow>
     (ob_status b = ObSuperseded
      \<or> ob_status b = ObDelivered \<and> (case latest_activated of None \<Rightarrow> False
          | Some p \<Rightarrow> pl_revision p \<noteq> revision
              \<and> (case ps_reactivated_after_plan_id (ob_private b) of None \<Rightarrow> 0 | Some i \<Rightarrow> i) \<noteq> pl_id p))
     \<and> ob_payload b = payload"

text \<open>
  The row is inserted under the next id of the table, unless its key is taken: \<open>seq\<close> is
  the last id that SQLite has given out.
\<close>

definition insert_anchor :: "outbox_row \<Rightarrow> nat \<times> outbox_db \<Rightarrow> nat \<times> outbox_db" where
  "insert_anchor b s =
     (case s of (seq, db) \<Rightarrow>
        if anchor_row db (ob_host b) (ob_key b) = None
        then (Suc seq, db\<lparr>outbox := outbox db @ [b\<lparr>ob_id := Suc seq\<rparr>]\<rparr>) else (seq, db))"

definition ensure_final_ready_anchor ::
  "connector_env \<Rightarrow> anchor_env \<Rightarrow> ustr \<Rightarrow> ustr \<Rightarrow> ustr \<Rightarrow> time \<Rightarrow> nat \<times> outbox_db
     \<Rightarrow> nat option \<times> nat \<times> outbox_db" where
  "ensure_final_ready_anchor E A host turn_id revision now s =
     (case s of (seq, db) \<Rightarrow>
      case final_ready_payload A host turn_id revision True of None \<Rightarrow> (None, seq, db)
      | Some a \<Rightarrow>
          let key = final_ready_key (fa_identity a);
              existing = anchor_row db host key in
          if existing = None \<and> delivered_without_anchor host turn_id revision key db then (None, seq, db)
          else
            let latest_activated = latest_activated_plan host turn_id db;
                hold = hold_reason a (ae_internal_automation A host turn_id revision);
                kind = (case hold of None \<Rightarrow> FinalReady | Some _ \<Rightarrow> FinalMigrationHold);
                status = (case hold of None \<Rightarrow> ObQueued | Some _ \<Rightarrow> ObDeadLetter);
                db1 = (case existing of None \<Rightarrow> db
                  | Some b \<Rightarrow>
                      if reactivates revision latest_activated (fa_payload a) b
                      then reactivate_final_root host turn_id revision b (map_option pl_id latest_activated) kind status
                        (fa_payload a) now db
                      else db);
                db2 = supersede_stale_final_work host turn_id revision now db1;
                (seq', db3) = insert_anchor
                  \<lparr>ob_id = 0, ob_host = host, ob_connector = turn_final_name, ob_key = key, ob_kind = kind,
                   ob_turn_id = Some turn_id, ob_revision = Some revision,
                   ob_ordering_key = ae_ordering_key A host turn_id, ob_status = status, ob_payload = fa_payload a,
                   ob_private = initial_private E hold now, ob_created_at = now, ob_updated_at = now,
                   ob_next_attempt_at = None\<rparr> (seq, db2)
            in (map_option ob_id (anchor_row db3 host key), seq', db3))"

section \<open>Requeueing a dead letter\<close>

datatype retry_reply =
    RetryInvalidParams
  | RetryStoreUnavailable
  | RetryNotFound
  | RetryNotRetryable
  | RetryStaleRevision
  | RetryRecovers ustr
  | Requeued ustr int

text \<open>The key comes alone or from the identity of the final.\<close>

definition retried_key :: "ustr option \<Rightarrow> ustr option \<Rightarrow> ustr option" where
  "retried_key key identity =
     (case (key, identity) of
        (Some k, None) \<Rightarrow> if valid_final_ready_key k then Some k else None
      | (None, Some i) \<Rightarrow>
          if valid_presentation_opaque i (lit ''twfinal1.'') \<and> valid_final_ready_key (final_ready_key i)
          then Some (final_ready_key i) else None
      | _ \<Rightarrow> None)"

text \<open>
  The failed plans of the revision that can be recovered.  Exactly one with a proper token
  is handed over to the recovery of plans, in a transaction of its own.
\<close>

definition failed_plan_tokens :: "anchor_env \<Rightarrow> ustr \<Rightarrow> ustr \<Rightarrow> ustr \<Rightarrow> outbox_row \<Rightarrow> outbox_db \<Rightarrow> ustr list" where
  "failed_plan_tokens A host turn_id revision b db =
     map (\<lambda>p. ae_plan_token A (pl_id p)) (filter (\<lambda>p. turn_plan host turn_id p \<and> pl_revision p = revision
        \<and> (case pl_source_outbox_id p of None \<Rightarrow> True | Some i \<Rightarrow> i = ob_id b \<and> ob_status b = ObAwaitingAck)
        \<and> pl_state p = PlFailed \<and> \<not> ae_recovered A (pl_id p)) (plans db))"

text \<open>The anchor's turn or revision is no longer the current one: its work is closed.\<close>

definition supersede_anchor :: "outbox_row \<Rightarrow> time \<Rightarrow> outbox_db \<Rightarrow> outbox_db" where
  "supersede_anchor b now db =
     db\<lparr>deliveries := sql_update (\<lambda>d. attempt_among [ob_id b] d \<and> dl_status d \<noteq> DvDelivered)
          (supersede_attempt now) (deliveries db),
        outbox := sql_update (\<lambda>x. ob_id x = ob_id b \<and> ob_status x \<noteq> ObDelivered)
          (\<lambda>x. x\<lparr>ob_status := ObSuperseded, ob_next_attempt_at := None, ob_updated_at := now,
                 ob_private := connector_private_clear_current (ob_private b)\<rparr>) (outbox db)\<rparr>"

definition requeued_state :: "private_state \<Rightarrow> nat \<Rightarrow> private_state" where
  "requeued_state s attempts =
     (connector_private_clear_terminal_diagnostic (connector_private_clear_current s))
       \<lparr>ps_prior_attempt_count := Some (int_or (ps_prior_attempt_count s) 0 + int attempts)\<rparr>"

definition requeue_anchor :: "final_anchor \<Rightarrow> outbox_row \<Rightarrow> time \<Rightarrow> outbox_db \<Rightarrow> outbox_db" where
  "requeue_anchor a b now db =
     db\<lparr>deliveries := sql_delete (attempt_among [ob_id b]) (deliveries db),
        outbox := sql_update (\<lambda>x. ob_id x = ob_id b \<and> ob_status x = ObDeadLetter)
          (\<lambda>x. x\<lparr>ob_kind := FinalReady, ob_status := ObQueued,
                 ob_payload := (if ob_kind x = FinalMigrationHold then fa_payload a else ob_payload x),
                 ob_next_attempt_at := None, ob_updated_at := now,
                 ob_private := requeued_state (ob_private b) (length (attempts_of db (ob_id b)))\<rparr>) (outbox db)\<rparr>"

definition requeue_final :: "final_anchor \<Rightarrow> outbox_row \<Rightarrow> time \<Rightarrow> outbox_db \<Rightarrow> (retry_reply \<times> outbox_db) result" where
  "requeue_final a b now db =
     (if ob_status b \<noteq> ObDeadLetter then Inr (RetryNotRetryable, db)
      else if ob_kind b = FinalMigrationHold \<and> attempts_of db (ob_id b) \<noteq> [] then Inr (RetryNotRetryable, db)
      else if sql_rowcount (\<lambda>x. ob_id x = ob_id b \<and> ob_status x = ObDeadLetter) (outbox db) = 0
      then Inl (StoreSchemaError (lit ''final_retry_conflict''))
      else Inr (Requeued (fa_identity a) (int_or (ps_prior_attempt_count (ob_private b)) 0
                  + int (length (attempts_of db (ob_id b)))), requeue_anchor a b now db))"

definition retry_final_ready_delivery ::
  "connector_env \<Rightarrow> anchor_env \<Rightarrow> ustr \<Rightarrow> ustr option \<Rightarrow> ustr option \<Rightarrow> time option \<Rightarrow> outbox_db
     \<Rightarrow> (retry_reply \<times> outbox_db) result" where
  "retry_final_ready_delivery E A host key0 identity now0 db =
     (case retried_key key0 identity of None \<Rightarrow> Inr (RetryInvalidParams, db)
      | Some key \<Rightarrow>
      if \<not> ob_exists db then Inr (RetryStoreUnavailable, db)
      else case anchor_row db host key of None \<Rightarrow> Inr (RetryNotFound, db)
      | Some b \<Rightarrow>
          if \<not> final_kind (ob_kind b) then Inr (RetryNotRetryable, db)
          else
            let turn_id = (case ob_turn_id b of None \<Rightarrow> [] | Some t \<Rightarrow> t);
                revision = (case ob_revision b of None \<Rightarrow> [] | Some r \<Rightarrow> r);
                authoritative = (if turn_id \<noteq> [] \<and> revision \<noteq> []
                                 then final_ready_payload A host turn_id revision False else None) in
            case authoritative of
              None \<Rightarrow> Inr (RetryStaleRevision, supersede_anchor b (connector_now E now0) db)
            | Some a \<Rightarrow>
                if final_ready_key (fa_identity a) \<noteq> key
                then Inr (RetryStaleRevision, supersede_anchor b (connector_now E now0) db)
                else if fa_known_incomplete a \<or> ae_internal_automation A host turn_id revision
                then Inr (RetryNotRetryable, db)
                else
                  case failed_plan_tokens A host turn_id revision b db of
                    [token] \<Rightarrow>
                      if valid_presentation_opaque token (lit ''twplan1.'') then Inr (RetryRecovers token, db)
                      else requeue_final a b (connector_now E now0) db
                  | _ \<Rightarrow> requeue_final a b (connector_now E now0) db)"

end
