(* ===== verification/Deliveries.thy ===== *)
theory Deliveries
  imports Outbox
begin

text \<open>
  The operations connectors call on the outbox: polling, acknowledging, failing,
  deferring, releasing and renewing a delivery, and the two maintenance passes.  Each
  is one \<open>BEGIN IMMEDIATE\<close> transaction.
\<close>

section \<open>Responses\<close>

datatype connector_status =
    CoStoreUnavailable | CoInvalidRef | CoStaleRef | CoExpiredRef | CoPrepareRequired
  | CoAcknowledged | CoRenewed | CoReleased | CoSuperseded | CoRetryScheduled | CoDeferred
  | CoAttemptsExhausted

record connector_reply =
  co_ok :: bool
  co_status :: connector_status
  co_key :: "ustr option"
  co_attempt :: "nat option"
  co_available_at :: "time option"
  co_leased_until :: "time option"

definition connector_error_response :: "connector_status \<Rightarrow> connector_reply" where
  "connector_error_response st = \<lparr>co_ok = False, co_status = st, co_key = None, co_attempt = None,
     co_available_at = None, co_leased_until = None\<rparr>"

definition connector_response ::
  "connector_status \<Rightarrow> delivery \<Rightarrow> time option \<Rightarrow> time option \<Rightarrow> connector_reply" where
  "connector_response st d available_at leased_until =
     \<lparr>co_ok = True, co_status = st, co_key = Some (dl_key d), co_attempt = Some (dl_attempt d),
      co_available_at = available_at, co_leased_until = leased_until\<rparr>"

record poll_item =
  pi_outbox_id :: nat
  pi_delivery_id :: nat
  pi_host :: ustr
  pi_name :: ustr
  pi_key :: ustr
  pi_attempt :: nat
  pi_lease_token :: ustr
  pi_leased_until :: time
  pi_ref :: ustr
  pi_available_at :: time
  pi_payload :: "(ustr \<times> json) list"

section \<open>Polling\<close>

definition before_in_order :: "outbox_row \<Rightarrow> outbox_row \<Rightarrow> bool" where
  "before_in_order e b \<longleftrightarrow> ob_host e = ob_host b \<and> ob_connector e = ob_connector b
     \<and> ob_kind e = ob_kind b \<and> ob_ordering_key e = ob_ordering_key b \<and> ob_id e < ob_id b"

definition plan_of_final :: "outbox_row \<Rightarrow> plan \<Rightarrow> bool" where
  "plan_of_final b p \<longleftrightarrow> pl_host p = ob_host b \<and> pl_name p = ob_connector b
     \<and> ob_turn_id b = Some (pl_turn_id p) \<and> ob_revision b = Some (pl_revision p)"

text \<open>An unfinished plan whose source, or one of whose jobs, comes earlier in the order.\<close>

definition earlier_plan :: "outbox_db \<Rightarrow> outbox_row \<Rightarrow> plan \<Rightarrow> bool" where
  "earlier_plan db b p \<longleftrightarrow> pl_host p = ob_host b \<and> pl_name p = ob_connector b
     \<and> (pl_state p = PlActive \<or> pl_state p = PlWaiting)
     \<and> (case pl_source_outbox_id p of
          Some s \<Rightarrow> (case outbox_by_id db s of None \<Rightarrow> False
                     | Some e \<Rightarrow> ob_ordering_key e = ob_ordering_key b \<and> ob_id e < ob_id b)
        | None \<Rightarrow> list_ex (\<lambda>e. ob_ordering_key e = ob_ordering_key b \<and> ob_id e < ob_id b)
                    (plan_rows db (pl_id p)))
     \<and> list_ex (\<lambda>j. case job_row db j of None \<Rightarrow> True | Some e \<Rightarrow> open_status (ob_status e))
         (plan_jobs db (pl_id p))"

definition final_ready_blocked :: "outbox_db \<Rightarrow> outbox_row \<Rightarrow> bool" where
  "final_ready_blocked db b \<longleftrightarrow>
     list_ex (\<lambda>e. before_in_order e b \<and> open_status (ob_status e) \<and> ob_status e \<noteq> ObAwaitingAck) (outbox db)
     \<or> list_ex (\<lambda>p. plan_of_final b p \<and> pl_state p = PlActive
          \<and> list_ex (\<lambda>j. case job_row db j of None \<Rightarrow> True | Some e \<Rightarrow> ob_status e \<noteq> ObDelivered)
              (plan_jobs db (pl_id p))) (plans db)
     \<or> list_ex (earlier_plan db b) (plans db)"

definition final_part_blocked :: "outbox_db \<Rightarrow> outbox_row \<Rightarrow> bool" where
  "final_part_blocked db b \<longleftrightarrow>
     list_ex (\<lambda>e. before_in_order e b \<and> open_status (ob_status e)) (outbox db)"

definition jobs_of_row :: "outbox_db \<Rightarrow> nat \<Rightarrow> job list" where
  "jobs_of_row db i = filter (\<lambda>j. jb_outbox_id j = Some i) (jobs db)"

text \<open>A job's row waits for its plan to be active and for its predecessors.\<close>

definition job_ready :: "outbox_db \<Rightarrow> job \<Rightarrow> bool" where
  "job_ready db j \<longleftrightarrow>
     list_ex (\<lambda>p. pl_id p = jb_plan_id j \<and> pl_state p = PlActive) (plans db)
     \<and> \<not> list_ex (\<lambda>q. jb_sequence_index q < jb_sequence_index j
            \<and> (case job_row db q of None \<Rightarrow> False | Some e \<Rightarrow> ob_status e \<noteq> ObDelivered))
          (plan_jobs db (jb_plan_id j))"

definition pollable :: "ustr \<Rightarrow> ustr \<Rightarrow> time \<Rightarrow> outbox_db \<Rightarrow> outbox_row \<Rightarrow> bool" where
  "pollable host name now db b \<longleftrightarrow>
     ob_host b = host \<and> ob_connector b = name \<and> pollable_status (ob_status b)
     \<and> ob_kind b \<noteq> FinalMigrationHold
     \<and> (case ob_next_attempt_at b of None \<Rightarrow> True | Some t \<Rightarrow> t \<le> now)
     \<and> (ob_kind b = FinalReady \<longrightarrow> \<not> final_ready_blocked db b)
     \<and> (ob_kind b = FinalPart \<longrightarrow> \<not> final_part_blocked db b)
     \<and> (jobs_of_row db (ob_id b) = [] \<or> list_ex (job_ready db) (jobs_of_row db (ob_id b)))"

definition poll_priority :: "outbox_db \<Rightarrow> outbox_row \<Rightarrow> nat" where
  "poll_priority db b =
     (if list_ex (\<lambda>j. list_ex (\<lambda>p. pl_id p = jb_plan_id j \<and> pl_state p = PlActive) (plans db))
           (jobs_of_row db (ob_id b)) then 0 else 1)"

definition poll_rows :: "ustr \<Rightarrow> ustr \<Rightarrow> time \<Rightarrow> nat \<Rightarrow> outbox_db \<Rightarrow> outbox_row list" where
  "poll_rows host name now limit db =
     take limit (sort_key (poll_priority db) (sort_key ob_id (filter (pollable host name now db) (outbox db))))"

definition lease_row ::
  "connector_env \<Rightarrow> ustr \<Rightarrow> ustr \<Rightarrow> time \<Rightarrow> time \<Rightarrow> outbox_row \<Rightarrow> outbox_db \<Rightarrow> poll_item \<times> outbox_db" where
  "lease_row E host name now expires b db =
     (let attempt = Suc (max_attempt db (ob_id b)); did = Suc (delivery_seq db);
          token = ce_lease_token E did; ref = ce_public_ref E did;
          d = \<lparr>dl_id = did, dl_outbox_id = Some (ob_id b), dl_host = host, dl_connector = name,
               dl_key = ob_key b, dl_attempt = attempt, dl_status = DvLeased,
               dl_response = plain_response [],
               dl_private = connector_private_with_lease no_private (Some did) attempt token expires ref,
               dl_created_at = now, dl_delivered_at = None\<rparr>
      in (\<lparr>pi_outbox_id = ob_id b, pi_delivery_id = did, pi_host = host, pi_name = name,
           pi_key = ob_key b, pi_attempt = attempt, pi_lease_token = token, pi_leased_until = expires,
           pi_ref = ref, pi_available_at = now, pi_payload = ce_public_payload E (ob_payload b)\<rparr>,
          db\<lparr>deliveries := deliveries db @ [d], delivery_seq := did,
             outbox := sql_update (\<lambda>x. ob_id x = ob_id b \<and> pollable_status (ob_status x))
               (\<lambda>x. x\<lparr>ob_status := ObLeased, ob_updated_at := now,
                      ob_private := connector_private_with_lease (ob_private b) (Some did) attempt token
                        expires ref\<rparr>) (outbox db)\<rparr>))"

fun lease_rows ::
  "connector_env \<Rightarrow> ustr \<Rightarrow> ustr \<Rightarrow> time \<Rightarrow> time \<Rightarrow> outbox_row list \<Rightarrow> outbox_db \<Rightarrow> poll_item list \<times> outbox_db" where
  "lease_rows E host name now expires [] db = ([], db)"
| "lease_rows E host name now expires (b # bs) db =
     (case lease_row E host name now expires b db of (item, db1) \<Rightarrow>
        case lease_rows E host name now expires bs db1 of (items, db2) \<Rightarrow> (item # items, db2))"

definition poll_prepare ::
  "connector_env \<Rightarrow> ustr \<Rightarrow> ustr \<Rightarrow> int option \<Rightarrow> time \<Rightarrow> outbox_db \<Rightarrow> outbox_db result" where
  "poll_prepare E host name max_attempts now db =
     bind_result (reclaim_expired_leases E host (Some name) now db) (\<lambda>(_, db1).
       Inr (case max_attempts of None \<Rightarrow> db1
            | Some m \<Rightarrow> mark_exhausted_presentation_plans host (Some name)
                (snd (exhaust_retryable E host (Some name) m now db1))))"

text \<open>\<open>None\<close> is the answer \<open>store_unavailable\<close>.\<close>

definition poll_connector_outbox ::
  "connector_env \<Rightarrow> ustr \<Rightarrow> ustr \<Rightarrow> int \<Rightarrow> int \<Rightarrow> int option \<Rightarrow> time option \<Rightarrow> outbox_db
     \<Rightarrow> (poll_item list option \<times> outbox_db) result" where
  "poll_connector_outbox E host name limit lease_seconds max_attempts now0 db =
     (if \<not> ob_exists db then Inr (None, db)
      else
        let now = connector_now E now0; expires = connector_add_seconds now (max 1 lease_seconds);
            row_limit = nat (max 1 (min limit 100)) in
        bind_result (poll_prepare E host name max_attempts now db) (\<lambda>db1.
          case lease_rows E host name now expires (poll_rows host name now row_limit db1) db1 of
            (items, db2) \<Rightarrow> Inr (Some items, db2)))"

section \<open>References\<close>

definition stored_ref :: "delivery \<Rightarrow> ustr" where
  "stored_ref d = (case ps_public_ref (dl_private d) of None \<Rightarrow> [] | Some r \<Rightarrow> r)"

text \<open>
  The live lease behind a reference: the delivery with its outbox row, or why the
  reference is refused.
\<close>

definition validate_live_ref ::
  "ustr \<Rightarrow> ustr \<Rightarrow> ustr \<Rightarrow> time \<Rightarrow> outbox_db \<Rightarrow> connector_status + (delivery \<times> outbox_row)" where
  "validate_live_ref host name ref now db =
     (case latest (filter (\<lambda>d. dl_status d = DvLeased \<and> dl_host d = host \<and> dl_connector d = name
           \<and> stored_ref d = ref) (deliveries db)) of
        None \<Rightarrow> Inl CoInvalidRef
      | Some d \<Rightarrow>
          (case delivery_row db d of None \<Rightarrow> Inl CoStaleRef
           | Some b \<Rightarrow>
               if ps_current_delivery_id (ob_private b) \<noteq> Some (dl_id d) then Inl CoStaleRef
               else if ob_status b \<noteq> ObLeased then Inl CoStaleRef
               else if connector_deadline_due [ps_lease_expires_at (dl_private d)] now then Inl CoExpiredRef
               else Inr (d, b)))"

text \<open>
  What every operation on a reference does around its own step: reclaim, validate,
  and, when the reference is refused, roll back.
\<close>

definition with_live_ref ::
  "connector_env \<Rightarrow> ustr \<Rightarrow> ustr \<Rightarrow> ustr \<Rightarrow> time option
     \<Rightarrow> (time \<Rightarrow> delivery \<Rightarrow> outbox_row \<Rightarrow> outbox_db \<Rightarrow> (connector_reply \<times> outbox_db) result)
     \<Rightarrow> outbox_db \<Rightarrow> (connector_reply \<times> outbox_db) result" where
  "with_live_ref E host name ref now0 f db =
     (if \<not> ob_exists db then Inr (connector_error_response CoStoreUnavailable, db)
      else
        let now = connector_now E now0 in
        bind_result (reclaim_expired_leases E host (Some name) now db) (\<lambda>(_, db1).
          case validate_live_ref host name ref now db1 of
            Inl st \<Rightarrow> Inr (connector_error_response st, db)
          | Inr (d, b) \<Rightarrow> f now d b db1))"

definition renew_delivery_step ::
  "int \<Rightarrow> time \<Rightarrow> delivery \<Rightarrow> outbox_row \<Rightarrow> outbox_db \<Rightarrow> (connector_reply \<times> outbox_db) result" where
  "renew_delivery_step lease_seconds now d b db =
     (let current = (case ps_lease_expires_at (dl_private d) of None \<Rightarrow> now | Some t \<Rightarrow> t);
          until = whole_seconds (max current (connector_add_seconds now (max 1 lease_seconds)))
      in Inr (connector_response CoRenewed d None (Some until),
           db\<lparr>deliveries := sql_update (\<lambda>x. dl_id x = dl_id d)
                (\<lambda>x. x\<lparr>dl_private := (dl_private d)\<lparr>ps_lease_expires_at := Some until\<rparr>\<rparr>) (deliveries db),
              outbox := sql_update (\<lambda>x. ob_id x = ob_id b \<and> ob_status x = ObLeased)
                (\<lambda>x. x\<lparr>ob_private := (ob_private b)\<lparr>ps_lease_expires_at := Some until\<rparr>,
                       ob_updated_at := now\<rparr>) (outbox db)\<rparr>))"

definition renew_connector_delivery ::
  "connector_env \<Rightarrow> ustr \<Rightarrow> ustr \<Rightarrow> ustr \<Rightarrow> int \<Rightarrow> time option \<Rightarrow> outbox_db
     \<Rightarrow> (connector_reply \<times> outbox_db) result" where
  "renew_connector_delivery E host name ref lease_seconds now0 =
     with_live_ref E host name ref now0 (renew_delivery_step lease_seconds)"

definition close_delivery ::
  "delivery \<Rightarrow> delivery_status \<Rightarrow> delivery_response \<Rightarrow> time \<Rightarrow> outbox_db \<Rightarrow> outbox_db" where
  "close_delivery d st response now db =
     db\<lparr>deliveries := sql_update (\<lambda>x. dl_id x = dl_id d)
       (\<lambda>x. x\<lparr>dl_status := st, dl_response := response, dl_delivered_at := Some now\<rparr>) (deliveries db)\<rparr>"

definition move_row ::
  "outbox_row \<Rightarrow> outbox_status \<Rightarrow> time option \<Rightarrow> time \<Rightarrow> private_state \<Rightarrow> outbox_db \<Rightarrow> outbox_db" where
  "move_row b st next_attempt now private db =
     db\<lparr>outbox := sql_update (\<lambda>x. ob_id x = ob_id b)
       (\<lambda>x. x\<lparr>ob_status := st, ob_next_attempt_at := next_attempt, ob_updated_at := now,
              ob_private := private\<rparr>) (outbox db)\<rparr>"

definition release_connector_delivery ::
  "connector_env \<Rightarrow> ustr \<Rightarrow> ustr \<Rightarrow> ustr \<Rightarrow> time option \<Rightarrow> outbox_db \<Rightarrow> (connector_reply \<times> outbox_db) result" where
  "release_connector_delivery E host name ref now0 =
     with_live_ref E host name ref now0 (\<lambda>now d b db.
       let terminal = ps_terminal_after_lease (ob_private b);
           next_status = (if terminal then ObSuperseded else ObQueued);
           available = (if terminal then None else Some now);
           db1 = db\<lparr>deliveries := sql_update (\<lambda>x. dl_id x = dl_id d \<and> dl_status x = DvLeased)
               (\<lambda>x. x\<lparr>dl_status := (if terminal then DvSuperseded else DvReleased),
                      dl_response := plain_response (if terminal then lit ''superseded'' else lit ''released''),
                      dl_delivered_at := Some now\<rparr>) (deliveries db)\<rparr>;
           db2 = outbox_set (ob_id b) ObLeased
               (\<lambda>x. x\<lparr>ob_status := next_status, ob_next_attempt_at := available, ob_updated_at := now,
                      ob_private := connector_private_clear_current (ob_private b)\<rparr>) db1
       in bind_result (update_presentation_plan_after_outbox E (ob_id b) next_status now None db2) (\<lambda>db3.
            Inr (connector_response (if terminal then CoSuperseded else CoReleased) d available None, db3)))"

section \<open>Acknowledging\<close>

text \<open>The rows of the same migration group give way to the acknowledged one.\<close>

definition supersede_siblings :: "outbox_row \<Rightarrow> time \<Rightarrow> outbox_db \<Rightarrow> outbox_db" where
  "supersede_siblings b now db =
     (let g = ps_migration_group (ob_private b) in
      if g = [] then db
      else
        let db1 = db\<lparr>outbox := sql_update (\<lambda>x. ob_id x \<noteq> ob_id b \<and> pollable_status (ob_status x)
                     \<and> ps_migration_group (ob_private x) = g)
               (\<lambda>x. x\<lparr>ob_status := ObSuperseded, ob_next_attempt_at := None, ob_updated_at := now\<rparr>) (outbox db)\<rparr>
        in db1\<lparr>outbox := sql_update (\<lambda>x. ob_id x \<noteq> ob_id b \<and> ob_status x = ObLeased
                     \<and> ps_migration_group (ob_private x) = g)
               (\<lambda>x. x\<lparr>ob_private := migration_private_state (ob_private x) g False True\<rparr>) (outbox db1)\<rparr>)"

definition ack_delivery_step ::
  "connector_env \<Rightarrow> (ustr \<times> json) list \<Rightarrow> int \<Rightarrow> outbox_db \<Rightarrow> time \<Rightarrow> delivery \<Rightarrow> outbox_row
     \<Rightarrow> outbox_db \<Rightarrow> (connector_reply \<times> outbox_db) result" where
  "ack_delivery_step E response ack_ttl db0 now d b db =
     (if ob_kind b = FinalReady then Inr (connector_error_response CoPrepareRequired, db0)
      else
        let db1 = close_delivery d DvDelivered
              ((plain_response (lit ''acknowledged''))\<lparr>dr_body := ce_public_response E response\<rparr>) now db;
            db2 = move_row b ObDelivered None now (connector_private_clear_current (ob_private b)) db1;
            db3 = supersede_siblings b now db2
        in bind_result (update_presentation_plan_after_outbox E (ob_id b) ObDelivered now
               (Some (max 1 ack_ttl)) db3) (\<lambda>db4.
             Inr (connector_response CoAcknowledged d None None, db4)))"

definition ack_connector_delivery ::
  "connector_env \<Rightarrow> ustr \<Rightarrow> ustr \<Rightarrow> ustr \<Rightarrow> (ustr \<times> json) list \<Rightarrow> int \<Rightarrow> time option \<Rightarrow> outbox_db
     \<Rightarrow> (connector_reply \<times> outbox_db) result" where
  "ack_connector_delivery E host name ref response ack_ttl now0 db0 =
     with_live_ref E host name ref now0 (ack_delivery_step E response ack_ttl db0) db0"

section \<open>Failing and deferring\<close>

definition retry_delivery_step ::
  "connector_env \<Rightarrow> bool \<Rightarrow> ustr \<Rightarrow> ustr option \<Rightarrow> (ustr \<times> json) list \<Rightarrow> time option \<Rightarrow> int option
     \<Rightarrow> int option \<Rightarrow> time \<Rightarrow> delivery \<Rightarrow> outbox_row \<Rightarrow> outbox_db \<Rightarrow> (connector_reply \<times> outbox_db) result" where
  "retry_delivery_step E failing name reason response available_at delay max_attempts now d b db =
     (let (public_reason, detail) =
           (if name = turn_final_name then turn_final_reason_diagnostics E reason
            else (ce_public_reason E reason, []));
         at = (case available_at of Some t \<Rightarrow> whole_seconds t
               | None \<Rightarrow> connector_add_seconds now (case delay of None \<Rightarrow> 60 | Some s \<Rightarrow> s));
         exhausted = (failing \<and> (case max_attempts of None \<Rightarrow> False
                        | Some m \<Rightarrow> max 1 m \<le> attempts_used db (ob_id b)));
         terminal = ps_terminal_after_lease (ob_private b);
         st = (if terminal then CoSuperseded else if exhausted then CoAttemptsExhausted
               else if failing then CoRetryScheduled else CoDeferred);
         next_status = (if terminal then ObSuperseded else if exhausted then ObDeadLetter
                        else if failing then ObRetry else ObDeferred);
         label = (if terminal then lit ''superseded'' else if exhausted then lit ''attempts_exhausted''
                  else if failing then lit ''retry_scheduled'' else lit ''deferred'');
         db1 = close_delivery d (if failing then DvFailed else DvDeferred)
             \<lparr>dr_status = label, dr_reason = Some public_reason, dr_reason_detail = detail,
              dr_available_at = (if terminal then None else Some at),
              dr_body = ce_public_response E response\<rparr> now db;
         private = (if name = turn_final_name \<and> next_status = ObDeadLetter
                    then connector_private_with_terminal_diagnostic E (ob_private b) public_reason detail
                      (connector_attempt_count db1 (ob_id b) (ob_private b)) label now
                    else connector_private_clear_current (ob_private b));
         db2 = move_row b next_status (if exhausted \<or> terminal then None else Some at) now private db1
     in bind_result (update_presentation_plan_after_outbox E (ob_id b) next_status now None db2) (\<lambda>db3.
          Inr (connector_response st d (if exhausted \<or> terminal then None else Some at) None, db3)))"

definition retry_connector_delivery ::
  "connector_env \<Rightarrow> bool \<Rightarrow> ustr \<Rightarrow> ustr \<Rightarrow> ustr \<Rightarrow> ustr option \<Rightarrow> (ustr \<times> json) list \<Rightarrow> time option
     \<Rightarrow> int option \<Rightarrow> int option \<Rightarrow> time option \<Rightarrow> outbox_db \<Rightarrow> (connector_reply \<times> outbox_db) result" where
  "retry_connector_delivery E failing host name ref reason response available_at delay max_attempts now0 =
     with_live_ref E host name ref now0
       (retry_delivery_step E failing name reason response available_at delay max_attempts)"

definition fail_connector_delivery ::
  "connector_env \<Rightarrow> ustr \<Rightarrow> ustr \<Rightarrow> ustr \<Rightarrow> ustr option \<Rightarrow> (ustr \<times> json) list \<Rightarrow> time option
     \<Rightarrow> int option \<Rightarrow> int option \<Rightarrow> time option \<Rightarrow> outbox_db \<Rightarrow> (connector_reply \<times> outbox_db) result" where
  "fail_connector_delivery E = retry_connector_delivery E True"

definition defer_connector_delivery ::
  "connector_env \<Rightarrow> ustr \<Rightarrow> ustr \<Rightarrow> ustr \<Rightarrow> ustr option \<Rightarrow> (ustr \<times> json) list \<Rightarrow> time option
     \<Rightarrow> int option \<Rightarrow> time option \<Rightarrow> outbox_db \<Rightarrow> (connector_reply \<times> outbox_db) result" where
  "defer_connector_delivery E host name ref reason response available_at delay =
     retry_connector_delivery E False host name ref reason response available_at delay None"

section \<open>Maintenance\<close>

definition reclaim_expired_connector_leases ::
  "connector_env \<Rightarrow> ustr \<Rightarrow> ustr option \<Rightarrow> time option \<Rightarrow> outbox_db \<Rightarrow> (nat option \<times> outbox_db) result" where
  "reclaim_expired_connector_leases E host name now0 db =
     (if \<not> ob_exists db then Inr (None, db)
      else bind_result (reclaim_expired_leases E host name (connector_now E now0) db) (\<lambda>(n, db1).
        Inr (Some n, db1)))"

definition exhaust_connector_retries ::
  "connector_env \<Rightarrow> ustr \<Rightarrow> int \<Rightarrow> time option \<Rightarrow> bool \<Rightarrow> outbox_db \<Rightarrow> (nat option \<times> outbox_db) result" where
  "exhaust_connector_retries E host max_attempts now0 dry_run db =
     (if \<not> ob_exists db then Inr (None, db)
      else
        let now = connector_now E now0 in
        bind_result (reclaim_expired_leases E host None now db) (\<lambda>(_, db1).
          case exhaust_retryable E host None (max 1 max_attempts) now db1 of
            (n, db2) \<Rightarrow> Inr (Some n, if dry_run then db else db2)))"

end
