(* ===== verification/OutboxContract.thy ===== *)
theory OutboxContract
  imports Deliveries
begin

text \<open>
  What every operation on the outbox promises.  A row keeps its identity and leaves
  a final status never; a closed attempt is never rewritten and attempts are only
  appended; and the leases held by attempts are exactly the leases of leased rows,
  so a row has one live lease or none.
\<close>

section \<open>How rows, attempts and plans evolve\<close>

definition row_follows :: "outbox_row \<Rightarrow> outbox_row \<Rightarrow> bool" where
  "row_follows b c \<longleftrightarrow> ob_id c = ob_id b \<and> ob_host c = ob_host b \<and> ob_connector c = ob_connector b
     \<and> ob_key c = ob_key b \<and> ob_kind c = ob_kind b \<and> ob_turn_id c = ob_turn_id b
     \<and> ob_revision c = ob_revision b \<and> ob_ordering_key c = ob_ordering_key b
     \<and> ob_payload c = ob_payload b
     \<and> (\<not> open_status (ob_status b) \<longrightarrow> ob_status c = ob_status b)"

definition closed_attempt :: "delivery \<Rightarrow> bool" where
  "closed_attempt d \<longleftrightarrow> dl_status d \<noteq> DvLeased \<and> dl_status d \<noteq> DvAwaitingAck"

definition attempt_follows :: "delivery \<Rightarrow> delivery \<Rightarrow> bool" where
  "attempt_follows d e \<longleftrightarrow> dl_id e = dl_id d \<and> dl_outbox_id e = dl_outbox_id d \<and> dl_host e = dl_host d
     \<and> dl_connector e = dl_connector d \<and> dl_key e = dl_key d \<and> dl_attempt e = dl_attempt d
     \<and> (closed_attempt d \<longrightarrow> e = d)"

definition plan_follows :: "plan \<Rightarrow> plan \<Rightarrow> bool" where
  "plan_follows p q \<longleftrightarrow> pl_id q = pl_id p \<and> pl_host q = pl_host p \<and> pl_name q = pl_name p
     \<and> pl_turn_id q = pl_turn_id p \<and> pl_revision q = pl_revision p
     \<and> pl_source_outbox_id q = pl_source_outbox_id p \<and> pl_generation q = pl_generation p"

lemma follows_refl [simp]: "row_follows b b" "attempt_follows d d" "plan_follows p p"
  by (simp_all add: row_follows_def attempt_follows_def plan_follows_def)

lemma row_follows_trans: "row_follows a b \<Longrightarrow> row_follows b c \<Longrightarrow> row_follows a c"
  by (auto simp: row_follows_def)

lemma attempt_follows_trans: "attempt_follows a b \<Longrightarrow> attempt_follows b c \<Longrightarrow> attempt_follows a c"
  by (auto simp: attempt_follows_def)

lemma plan_follows_trans: "plan_follows a b \<Longrightarrow> plan_follows b c \<Longrightarrow> plan_follows a c"
  by (simp add: plan_follows_def)

text \<open>Attempts are rewritten in place or appended under fresh ids.\<close>

definition attempts_grow :: "nat \<Rightarrow> delivery list \<Rightarrow> nat \<Rightarrow> delivery list \<Rightarrow> bool" where
  "attempts_grow n xs m ys \<longleftrightarrow> n \<le> m \<and> (\<exists>ds ext. ys = ds @ ext \<and> list_all2 attempt_follows xs ds
     \<and> distinct (map dl_id ext) \<and> (\<forall>d \<in> set ext. n < dl_id d \<and> dl_id d \<le> m))"

lemma list_all2_same: "(\<And>x. P x x) \<Longrightarrow> list_all2 P xs xs"
  by (simp add: list_all2_conv_all_nth)

lemma list_all2_chain:
  assumes "\<And>a b c. P a b \<Longrightarrow> P b c \<Longrightarrow> P a c" "list_all2 P xs ys" "list_all2 P ys zs"
  shows "list_all2 P xs zs"
  using assms(2,3) unfolding list_all2_conv_all_nth by (simp add: assms(1)[of _ "ys ! _"]) (metis assms(1))

lemma list_all2_source:
  assumes "list_all2 P xs ys" "y \<in> set ys"
  obtains x where "x \<in> set xs" "P x y"
  using assms by (induction rule: list_all2_induct) auto

lemma list_all2_ids: "list_all2 attempt_follows xs ys \<Longrightarrow> map dl_id ys = map dl_id xs"
  by (induction rule: list_all2_induct) (simp_all add: attempt_follows_def)

lemma attempts_grow_in_place:
  assumes "list_all2 attempt_follows xs ys"
  shows "attempts_grow n xs n ys"
  unfolding attempts_grow_def using assms by (intro conjI exI[of _ ys] exI[of _ "[]"]) simp_all

lemma attempts_grow_append:
  assumes "dl_id d = Suc n"
  shows "attempts_grow n xs (Suc n) (xs @ [d])"
  unfolding attempts_grow_def
  using assms by (intro conjI exI[of _ xs] exI[of _ "[d]"]) (simp_all add: list_all2_same)

lemma attempts_grow_trans:
  assumes "attempts_grow n xs m ys" "attempts_grow m ys k zs"
  shows "attempts_grow n xs k zs"
proof -
  obtain ds ext where b: "ys = ds @ ext" "list_all2 attempt_follows xs ds"
    "distinct (map dl_id ext)" "\<forall>d \<in> set ext. n < dl_id d \<and> dl_id d \<le> m" and le1: "n \<le> m"
    using assms(1) unfolding attempts_grow_def by (elim conjE exE) (rule that)
  obtain es ext' where c: "zs = es @ ext'" "list_all2 attempt_follows ys es"
    "distinct (map dl_id ext')" "\<forall>d \<in> set ext'. m < dl_id d \<and> dl_id d \<le> k" and le2: "m \<le> k"
    using assms(2) unfolding attempts_grow_def by (elim conjE exE) (rule that)
  obtain ds' ext1 where es: "es = ds' @ ext1" "list_all2 attempt_follows ds ds'" "list_all2 attempt_follows ext ext1"
    using c(2) by (auto simp: b(1) list_all2_append1)
  have ids: "map dl_id ext1 = map dl_id ext" by (rule list_all2_ids[OF es(3)])
  have mem: "dl_id ` set ext1 = dl_id ` set ext" using arg_cong[OF ids, of set] by simp
  have bound: "n < i \<and> i \<le> m" if i: "i \<in> dl_id ` set ext1" for i
  proof -
    obtain d where "d \<in> set ext" "i = dl_id d" using i unfolding mem by (elim imageE)
    with b(4) show ?thesis by simp
  qed
  have each: "n < dl_id d \<and> dl_id d \<le> k" if "d \<in> set (ext1 @ ext')" for d
  proof (cases "d \<in> set ext1")
    case True
    then have "n < dl_id d \<and> dl_id d \<le> m" by (intro bound imageI)
    with le2 show ?thesis by linarith
  next
    case False
    then have "m < dl_id d \<and> dl_id d \<le> k" using that c(4) by simp
    with le1 show ?thesis by linarith
  qed
  have "\<forall>d \<in> set (ext1 @ ext'). n < dl_id d \<and> dl_id d \<le> k" by (rule ballI) (rule each)
  moreover have "distinct (map dl_id (ext1 @ ext'))"
  proof -
    have "dl_id ` set ext1 \<inter> dl_id ` set ext' = {}"
    proof (rule Int_emptyI)
      fix i assume i: "i \<in> dl_id ` set ext1" "i \<in> dl_id ` set ext'"
      from i(2) have "m < i" using c(4) by auto
      with bound[OF i(1)] show False by simp
    qed
    moreover have "distinct (map dl_id ext1)" unfolding ids by (rule b(3))
    ultimately show ?thesis using c(3) unfolding map_append distinct_append list.set_map by blast
  qed
  moreover have "list_all2 attempt_follows xs ds'"
    by (rule list_all2_chain[where P = attempt_follows and ys = ds, OF attempt_follows_trans b(2) es(2)])
  moreover have "zs = ds' @ (ext1 @ ext')" "n \<le> k" using c(1) es(1) le1 le2 by simp_all
  ultimately have "n \<le> k \<and> zs = ds' @ (ext1 @ ext') \<and> list_all2 attempt_follows xs ds'
      \<and> distinct (map dl_id (ext1 @ ext')) \<and> (\<forall>d \<in> set (ext1 @ ext'). n < dl_id d \<and> dl_id d \<le> k)"
    by (intro conjI)
  then show ?thesis unfolding attempts_grow_def by (elim conjE) (rule conjI, assumption, rule exI, rule exI, intro conjI)
qed

lemma list_all2_sql_update:
  assumes "\<And>x. P x x" "\<And>x. x \<in> set t \<Longrightarrow> p x \<Longrightarrow> P x (f x)"
  shows "list_all2 P t (sql_update p f t)"
  using assms(2) by (induction t) (simp_all add: assms(1))

definition evolves :: "outbox_db \<Rightarrow> outbox_db \<Rightarrow> bool" where
  "evolves db db' \<longleftrightarrow> list_all2 row_follows (outbox db) (outbox db')
     \<and> attempts_grow (delivery_seq db) (deliveries db) (delivery_seq db') (deliveries db')
     \<and> list_all2 plan_follows (plans db) (plans db') \<and> jobs db' = jobs db
     \<and> ob_exists db' = ob_exists db"

lemma evolves_refl [simp]: "evolves db db"
  by (simp add: evolves_def list_all2_same attempts_grow_in_place)

lemma evolves_trans:
  assumes "evolves a b" "evolves b c"
  shows "evolves a c"
proof -
  have "list_all2 row_follows (outbox a) (outbox c)"
    by (rule list_all2_chain[where P = row_follows and ys = "outbox b", OF row_follows_trans]) (use assms in \<open>simp_all add: evolves_def\<close>)
  moreover have "list_all2 plan_follows (plans a) (plans c)"
    by (rule list_all2_chain[where P = plan_follows and ys = "plans b", OF plan_follows_trans]) (use assms in \<open>simp_all add: evolves_def\<close>)
  moreover have "attempts_grow (delivery_seq a) (deliveries a) (delivery_seq c) (deliveries c)"
    by (rule attempts_grow_trans[of _ _ "delivery_seq b" "deliveries b"]) (use assms in \<open>simp_all add: evolves_def\<close>)
  ultimately show ?thesis using assms by (simp add: evolves_def)
qed

lemma evolves_outbox:
  assumes "\<And>x. x \<in> set (outbox db) \<Longrightarrow> p x \<Longrightarrow> row_follows x (f x)"
  shows "evolves db (db\<lparr>outbox := sql_update p f (outbox db)\<rparr>)"
  using list_all2_sql_update[where P = row_follows, OF _ assms]
  by (simp add: evolves_def list_all2_same attempts_grow_in_place)

lemma evolves_deliveries:
  assumes "\<And>x. x \<in> set (deliveries db) \<Longrightarrow> p x \<Longrightarrow> attempt_follows x (f x)"
  shows "evolves db (db\<lparr>deliveries := sql_update p f (deliveries db)\<rparr>)"
  using list_all2_sql_update[where P = attempt_follows, OF _ assms]
  by (simp add: evolves_def list_all2_same attempts_grow_in_place)

lemma evolves_plans:
  assumes "\<And>x. x \<in> set (plans db) \<Longrightarrow> p x \<Longrightarrow> plan_follows x (f x)"
  shows "evolves db (db\<lparr>plans := sql_update p f (plans db)\<rparr>)"
  using list_all2_sql_update[where P = plan_follows, OF _ assms]
  by (simp add: evolves_def list_all2_same attempts_grow_in_place)

lemma evolves_append:
  assumes "dl_id d = Suc (delivery_seq db)"
  shows "evolves db (db\<lparr>deliveries := deliveries db @ [d], delivery_seq := Suc (delivery_seq db)\<rparr>)"
  using attempts_grow_append[OF assms] by (simp add: evolves_def list_all2_same)

section \<open>Leases\<close>

definition leased_rows :: "outbox_db \<Rightarrow> outbox_row set" where
  "leased_rows db = {b \<in> set (outbox db). ob_status b = ObLeased}"

definition leased_attempts :: "outbox_db \<Rightarrow> delivery set" where
  "leased_attempts db = {d \<in> set (deliveries db). dl_status d = DvLeased}"

type_synonym lease =
  "nat option \<times> ustr \<times> ustr \<times> nat option \<times> ustr option \<times> time option"

definition row_lease :: "outbox_row \<Rightarrow> lease" where
  "row_lease b = (Some (ob_id b), ob_host b, ob_connector b, ps_current_delivery_id (ob_private b),
     ps_public_ref (ob_private b), ps_lease_expires_at (ob_private b))"

definition attempt_lease :: "delivery \<Rightarrow> lease" where
  "attempt_lease d = (dl_outbox_id d, dl_host d, dl_connector d, Some (dl_id d),
     ps_public_ref (dl_private d), ps_lease_expires_at (dl_private d))"

definition base_ok :: "outbox_db \<Rightarrow> bool" where
  "base_ok db \<longleftrightarrow> unique_key ob_id (outbox db) \<and> unique_key dl_id (deliveries db)
     \<and> (\<forall>d \<in> set (deliveries db). dl_id d \<le> delivery_seq db)
     \<and> (\<forall>p \<in> set (plans db). pl_host p \<noteq> [] \<and> pl_turn_id p \<noteq> [] \<and> pl_revision p \<noteq> [])"

definition outbox_ok :: "outbox_db \<Rightarrow> bool" where
  "outbox_ok db \<longleftrightarrow> base_ok db \<and> row_lease ` leased_rows db = attempt_lease ` leased_attempts db"

lemma list_all2_row_ids: "list_all2 row_follows xs ys \<Longrightarrow> map ob_id ys = map ob_id xs"
  by (induction rule: list_all2_induct) (simp_all add: row_follows_def)

lemma attempts_grow_ids:
  assumes "attempts_grow n xs m ys" "distinct (map dl_id xs)" "\<forall>d \<in> set xs. dl_id d \<le> n"
  shows "distinct (map dl_id ys) \<and> (\<forall>d \<in> set ys. dl_id d \<le> m)"
proof -
  obtain ds ext where d: "ys = ds @ ext" "list_all2 attempt_follows xs ds"
    "distinct (map dl_id ext)" "\<forall>d \<in> set ext. n < dl_id d \<and> dl_id d \<le> m" and le: "n \<le> m"
    using assms(1) unfolding attempts_grow_def by (elim conjE exE) (rule that)
  have ids: "map dl_id ds = map dl_id xs" by (rule list_all2_ids[OF d(2)])
  have mem: "dl_id ` set ds = dl_id ` set xs" using arg_cong[OF ids, of set] by simp
  have old: "i \<le> n" if i: "i \<in> dl_id ` set ds" for i
  proof -
    obtain d where "d \<in> set xs" "i = dl_id d" using i unfolding mem by (elim imageE)
    with assms(3) show ?thesis by simp
  qed
  have "dl_id ` set ds \<inter> dl_id ` set ext = {}"
  proof (rule Int_emptyI)
    fix i assume i: "i \<in> dl_id ` set ds" "i \<in> dl_id ` set ext"
    from i(2) have "n < i" using d(4) by auto
    with old[OF i(1)] show False by simp
  qed
  moreover have "dl_id d \<le> m" if "d \<in> set ys" for d
  proof (cases "d \<in> set ds")
    case True
    then have "dl_id d \<le> n" by (intro old imageI)
    with le show ?thesis by linarith
  qed (use that d(1,4) in auto)
  moreover have "distinct (map dl_id ds)" unfolding ids by (rule assms(2))
  ultimately show ?thesis using d(3) unfolding d(1) map_append distinct_append list.set_map by blast
qed

lemma base_ok_evolves:
  assumes "base_ok db" "evolves db db'"
  shows "base_ok db'"
proof -
  have "distinct (map dl_id (deliveries db')) \<and> (\<forall>d \<in> set (deliveries db'). dl_id d \<le> delivery_seq db')"
    by (rule attempts_grow_ids[of "delivery_seq db" "deliveries db"])
      (use assms in \<open>simp_all add: base_ok_def unique_key_def evolves_def\<close>)
  moreover have "\<forall>p \<in> set (plans db'). pl_host p \<noteq> [] \<and> pl_turn_id p \<noteq> [] \<and> pl_revision p \<noteq> []"
  proof
    fix p assume "p \<in> set (plans db')"
    moreover have "list_all2 plan_follows (plans db) (plans db')" using assms(2) by (simp add: evolves_def)
    ultimately obtain q where "q \<in> set (plans db)" "plan_follows q p"
      using list_all2_source by metis
    with assms(1) show "pl_host p \<noteq> [] \<and> pl_turn_id p \<noteq> [] \<and> pl_revision p \<noteq> []"
      by (auto simp: base_ok_def plan_follows_def)
  qed
  moreover have "map ob_id (outbox db') = map ob_id (outbox db)"
    using list_all2_row_ids assms(2) by (simp add: evolves_def)
  ultimately show ?thesis using assms(1) by (simp add: base_ok_def unique_key_def)
qed

lemma evolves_closed:
  assumes "evolves db db'" "d \<in> set (deliveries db)" "closed_attempt d"
  shows "d \<in> set (deliveries db')"
proof -
  obtain ds ext where a: "deliveries db' = ds @ ext" "list_all2 attempt_follows (deliveries db) ds"
    using assms(1) unfolding evolves_def attempts_grow_def by (elim conjE exE) (rule that)
  then obtain e where "e \<in> set ds" "attempt_follows d e"
    using assms(2) by (auto simp: list_all2_conv_all_nth in_set_conv_nth) (metis nth_mem)
  with a(1) assms(3) show ?thesis by (simp add: attempt_follows_def)
qed

text \<open>A step that leaves every lease alone.\<close>

definition calm :: "outbox_db \<Rightarrow> outbox_db \<Rightarrow> bool" where
  "calm db db' \<longleftrightarrow> evolves db db' \<and> leased_rows db' = leased_rows db \<and> leased_attempts db' = leased_attempts db"

lemma calm_refl [simp]: "calm db db"
  by (simp add: calm_def)

lemma calm_trans: "calm a b \<Longrightarrow> calm b c \<Longrightarrow> calm a c"
  by (auto simp: calm_def intro: evolves_trans)

lemma outbox_ok_calm: "outbox_ok db \<Longrightarrow> calm db db' \<Longrightarrow> outbox_ok db'"
  by (auto simp: outbox_ok_def calm_def intro: base_ok_evolves)

lemma calm_outbox:
  assumes "\<And>x. x \<in> set (outbox db) \<Longrightarrow> p x \<Longrightarrow> row_follows x (f x) \<and> ob_status x \<noteq> ObLeased \<and> ob_status (f x) \<noteq> ObLeased"
  shows "calm db (db\<lparr>outbox := sql_update p f (outbox db)\<rparr>)"
  using assms evolves_outbox[of db p f]
  by (auto simp: calm_def leased_rows_def leased_attempts_def set_sql_update)

lemma calm_outbox_set:
  assumes "st \<noteq> ObLeased" "\<And>x. ob_status x = st \<Longrightarrow> row_follows x (f x) \<and> ob_status (f x) \<noteq> ObLeased"
  shows "calm db (outbox_set i st f db)"
  unfolding outbox_set_def using assms by (intro calm_outbox) auto

lemma calm_deliveries:
  assumes "\<And>x. x \<in> set (deliveries db) \<Longrightarrow> p x \<Longrightarrow> attempt_follows x (f x) \<and> dl_status x \<noteq> DvLeased \<and> dl_status (f x) \<noteq> DvLeased"
  shows "calm db (db\<lparr>deliveries := sql_update p f (deliveries db)\<rparr>)"
  using assms evolves_deliveries[of db p f]
  by (auto simp: calm_def leased_rows_def leased_attempts_def set_sql_update)

lemma calm_plans:
  assumes "\<And>x. x \<in> set (plans db) \<Longrightarrow> p x \<Longrightarrow> plan_follows x (f x)"
  shows "calm db (db\<lparr>plans := sql_update p f (plans db)\<rparr>)"
  using evolves_plans[OF assms] by (simp add: calm_def leased_rows_def leased_attempts_def)

lemma calm_append:
  assumes "dl_id d = Suc (delivery_seq db)" "dl_status d \<noteq> DvLeased"
  shows "calm db (db\<lparr>deliveries := deliveries db @ [d], delivery_seq := Suc (delivery_seq db)\<rparr>)"
  using evolves_append[OF assms(1)] assms(2) by (auto simp: calm_def leased_rows_def leased_attempts_def)

section \<open>Plan updates are calm\<close>

lemma calm_activate: "calm db (activate_waiting_presentation_plans host name now db)"
  unfolding activate_waiting_presentation_plans_def by (rule calm_plans) (simp add: plan_follows_def)

lemma calm_mark_exhausted: "calm db (mark_exhausted_presentation_plans host name db)"
  unfolding mark_exhausted_presentation_plans_def by (rule calm_plans) (simp add: plan_follows_def)

lemma latest_in: "latest ds = Some d \<Longrightarrow> d \<in> set ds"
proof -
  assume "latest ds = Some d"
  then obtain xs where "rev (sort_key dl_id ds) = d # xs" by (auto simp: latest_def split: list.splits)
  then have "d \<in> set (rev (sort_key dl_id ds))" by (simp only: list.set_intros)
  then show ?thesis by simp
qed

lemma calm_extend: "calm db (extend_ack_deadline source deadline now db)"
proof (cases "sql_fetchone (\<lambda>b. ob_id b = source \<and> ob_status b = ObAwaitingAck) (outbox db)")
  case (Some row)
  let ?db1 = "outbox_set source ObAwaitingAck
      (\<lambda>b. b\<lparr>ob_private := (ob_private row)\<lparr>ps_ack_deadline_at := Some deadline\<rparr>,
              ob_next_attempt_at := Some deadline, ob_updated_at := now\<rparr>) db"
  have 1: "calm db ?db1" by (rule calm_outbox_set) (simp_all add: row_follows_def)
  have "calm ?db1 (?db1\<lparr>deliveries := sql_update (\<lambda>x. dl_id x = dl_id d \<and> dl_status x = DvAwaitingAck)
      (\<lambda>x. x\<lparr>dl_private := (dl_private d)\<lparr>ps_ack_deadline_at := Some deadline\<rparr>\<rparr>) (deliveries ?db1)\<rparr>)" for d
    by (rule calm_deliveries) (auto simp: attempt_follows_def closed_attempt_def)
  from calm_trans[OF 1 this] 1 show ?thesis
    by (auto simp: extend_ack_deadline_def Some Let_def split: option.split)
qed (simp add: extend_ack_deadline_def)

lemma calm_deliver_source: "calm db (deliver_source source now db)"
proof -
  let ?db1 = "db\<lparr>deliveries := sql_update (\<lambda>d. dl_outbox_id d = Some source \<and> dl_status d = DvAwaitingAck)
      (\<lambda>d. d\<lparr>dl_status := DvDelivered, dl_delivered_at := Some now\<rparr>) (deliveries db)\<rparr>"
  have 1: "calm db ?db1" by (rule calm_deliveries) (auto simp: attempt_follows_def closed_attempt_def)
  have "calm ?db1 (outbox_set source ObAwaitingAck
      (\<lambda>b. b\<lparr>ob_status := ObDelivered, ob_next_attempt_at := None, ob_updated_at := now,
              ob_private := connector_private_clear_current (ob_private row)\<rparr>) ?db1)" for row
    by (rule calm_outbox_set) (auto simp: row_follows_def open_status_def)
  from calm_trans[OF 1 this] 1 show ?thesis
    by (auto simp: deliver_source_def Let_def split: option.split)
qed

lemma fetchone_in: "sql_fetchone p t = Some r \<Longrightarrow> r \<in> set t \<and> p r"
  by (auto simp: sql_fetchone_def find_Some_iff)

lemma plan_of_row_in:
  assumes "plan_of_row db i = Some p"
  shows "p \<in> set (plans db)"
proof -
  let ?f = "\<lambda>j. if jb_outbox_id j = Some i then sql_fetchone (\<lambda>p. pl_id p = jb_plan_id j) (plans db) else None"
  have "p \<in> set (List.map_filter ?f (jobs db))"
    using assms by (auto simp: plan_of_row_def split: list.splits)
  then show ?thesis by (auto simp: List.map_filter_def dest: fetchone_in split: if_splits)
qed

lemma record_sourceless_calm:
  assumes "pl_host p \<noteq> []" "pl_turn_id p \<noteq> []" "pl_revision p \<noteq> []"
  shows "\<exists>db'. record_sourceless_delivery E p now db = Inr db' \<and> calm db db'"
  using assms calm_append[where db = db]
  by (simp add: record_sourceless_delivery_def final_identity_def Let_def)

lemma update_plan_calm:
  assumes "base_ok db"
  shows "\<exists>db'. update_presentation_plan_after_outbox E i st now ttl db = Inr db' \<and> calm db db'"
proof (cases "plan_of_row db i")
  case None
  then show ?thesis by (simp add: update_presentation_plan_after_outbox_def)
next
  case (Some p)
  have p: "pl_host p \<noteq> []" "pl_turn_id p \<noteq> []" "pl_revision p \<noteq> []"
    using plan_of_row_in[OF Some] assms by (auto simp: base_ok_def)
  let ?act = "activate_waiting_presentation_plans (pl_host p) (pl_name p) now"
  have fin: "\<exists>db'. bind_result m (\<lambda>db3. Inr (?act db3)) = Inr db' \<and> calm db db'"
    if "\<exists>db1. m = Inr db1 \<and> calm db db1" for m
    using that calm_trans[OF _ calm_activate] by auto
  have failed: "calm db (db\<lparr>plans := sql_update (\<lambda>x. pl_id x = pl_id p) (\<lambda>x. x\<lparr>pl_state := PlFailed\<rparr>) (plans db)\<rparr>)"
    by (rule calm_plans) (simp add: plan_follows_def)
  define db1 where "db1 = (case (pl_source_outbox_id p, ttl) of
      (Some source, Some n) \<Rightarrow>
        if 0 < length (filter (\<lambda>b. ob_status b \<noteq> ObDelivered) (plan_rows db (pl_id p)))
        then extend_ack_deadline source (connector_add_seconds now (max 1 n)) now db else db
      | _ \<Rightarrow> db)"
  have 1: "calm db db1" by (auto simp: db1_def calm_extend split: option.split)
  define db2 where "db2 = db1\<lparr>plans := sql_update (\<lambda>x. pl_id x = pl_id p \<and> pl_state x = PlActive)
      (\<lambda>x. x\<lparr>pl_state := PlCompleted, pl_completed_at :=
        (case pl_completed_at x of None \<Rightarrow> Some now | Some t \<Rightarrow> Some t)\<rparr>) (plans db1)\<rparr>"
  have 2: "calm db db2" unfolding db2_def by (rule calm_trans[OF 1 calm_plans]) (simp add: plan_follows_def)
  have 3: "\<exists>db3. (case pl_source_outbox_id p of Some source \<Rightarrow> Inr (deliver_source source now db2)
      | None \<Rightarrow> record_sourceless_delivery E p now db2) = Inr db3 \<and> calm db db3"
    using record_sourceless_calm[OF p, of E now db2] calm_deliver_source[of db2] calm_trans[OF 2]
    by (auto split: option.split)
  show ?thesis
    unfolding update_presentation_plan_after_outbox_def Some option.case Let_def db1_def[symmetric] db2_def[symmetric]
    by (rule fin) (use failed 1 3 in \<open>auto split: if_splits\<close>)
qed

section \<open>Giving leases up\<close>

lemma leased_match:
  assumes "outbox_ok db"
  shows "d \<in> leased_attempts db \<Longrightarrow> \<exists>b \<in> leased_rows db. row_lease b = attempt_lease d"
    and "b \<in> leased_rows db \<Longrightarrow> \<exists>d \<in> leased_attempts db. row_lease b = attempt_lease d"
proof -
  have eq: "row_lease ` leased_rows db = attempt_lease ` leased_attempts db" using assms by (simp add: outbox_ok_def)
  show "\<exists>b \<in> leased_rows db. row_lease b = attempt_lease d" if d: "d \<in> leased_attempts db"
  proof -
    have "attempt_lease d \<in> row_lease ` leased_rows db" unfolding eq using d by (rule imageI)
    then show ?thesis by force
  qed
  show "\<exists>d \<in> leased_attempts db. row_lease b = attempt_lease d" if b: "b \<in> leased_rows db"
  proof -
    have "row_lease b \<in> attempt_lease ` leased_attempts db" unfolding eq[symmetric] using b by (rule imageI)
    then show ?thesis by force
  qed
qed

lemma leased_rowD: "b \<in> leased_rows db \<Longrightarrow> b \<in> set (outbox db) \<and> ob_status b = ObLeased"
  by (simp add: leased_rows_def)

lemma leased_attemptD: "d \<in> leased_attempts db \<Longrightarrow> d \<in> set (deliveries db) \<and> dl_status d = DvLeased"
  by (simp add: leased_attempts_def)

lemma row_by_id:
  assumes "outbox_ok db" "b \<in> set (outbox db)"
  shows "outbox_by_id db (ob_id b) = Some b"
  using fetchone_unique[of ob_id "outbox db" b] assms
  by (simp add: outbox_by_id_def outbox_ok_def base_ok_def)

lemma same_row:
  assumes "outbox_ok db" "b \<in> set (outbox db)" "c \<in> set (outbox db)" "ob_id b = ob_id c"
  shows "b = c"
  using assms unique_keyD[of ob_id "outbox db" b c] by (simp add: outbox_ok_def base_ok_def)

lemma same_attempt:
  assumes ok: "outbox_ok db" and d: "d \<in> leased_attempts db" "e \<in> leased_attempts db"
    and same: "dl_outbox_id d = dl_outbox_id e"
  shows "d = e"
proof -
  obtain b where b: "b \<in> leased_rows db" "row_lease b = attempt_lease d" using leased_match(1)[OF ok d(1)] by blast
  obtain c where c: "c \<in> leased_rows db" "row_lease c = attempt_lease e" using leased_match(1)[OF ok d(2)] by blast
  have "Some (ob_id b) = dl_outbox_id d" "Some (ob_id c) = dl_outbox_id e"
    using b(2) c(2) by (simp_all add: row_lease_def attempt_lease_def)
  then have "ob_id b = ob_id c" using same by (metis option.inject)
  then have "b = c" using same_row[OF ok] leased_rowD b(1) c(1) by blast
  then have "dl_id d = dl_id e" using b(2) c(2) by (simp add: attempt_lease_def)
  then show ?thesis
    using ok d unique_keyD[of dl_id "deliveries db" d e] by (simp add: outbox_ok_def base_ok_def leased_attempts_def)
qed

lemma attempt_row:
  assumes ok: "outbox_ok db" and d: "d \<in> leased_attempts db"
  obtains b where "b \<in> leased_rows db" "row_lease b = attempt_lease d" "dl_outbox_id d = Some (ob_id b)"
    "delivery_row db d = Some b" "ps_current_delivery_id (ob_private b) = Some (dl_id d)"
proof -
  obtain b where b: "b \<in> leased_rows db" "row_lease b = attempt_lease d" using leased_match(1)[OF ok d] by blast
  then have f: "dl_outbox_id d = Some (ob_id b)" "ps_current_delivery_id (ob_private b) = Some (dl_id d)"
    by (simp_all add: row_lease_def attempt_lease_def)
  moreover have "delivery_row db d = Some b"
    using row_by_id[OF ok] leased_rowD[OF b(1)] f(1) by (simp add: delivery_row_def)
  ultimately show thesis using that b by blast
qed

lemma image_filter_eq: "(\<And>x. Q (f x) = P x) \<Longrightarrow> f ` {x \<in> S. P x} = {l \<in> f ` S. Q l}"
  by auto

lemma leased_frame [simp]:
  "leased_rows (db\<lparr>deliveries := ds\<rparr>) = leased_rows db" "leased_rows (db\<lparr>plans := ps\<rparr>) = leased_rows db"
  "leased_attempts (db\<lparr>outbox := os\<rparr>) = leased_attempts db" "leased_attempts (db\<lparr>plans := ps\<rparr>) = leased_attempts db"
  by (simp_all add: leased_rows_def leased_attempts_def)

lemma leased_rows_gone:
  "(\<And>x. p x \<Longrightarrow> ob_status (f x) \<noteq> ObLeased)
    \<Longrightarrow> leased_rows (db\<lparr>outbox := sql_update p f (outbox db)\<rparr>) = {b \<in> leased_rows db. \<not> p b}"
  by (auto simp: leased_rows_def set_sql_update)

lemma leased_attempts_gone:
  "(\<And>x. p x \<Longrightarrow> dl_status (f x) \<noteq> DvLeased)
    \<Longrightarrow> leased_attempts (db\<lparr>deliveries := sql_update p f (deliveries db)\<rparr>) = {d \<in> leased_attempts db. \<not> p d}"
  by (auto simp: leased_attempts_def set_sql_update)

lemma drop_lease:
  assumes ok: "outbox_ok db" and ev: "evolves db db'"
    and rows: "leased_rows db' = {b \<in> leased_rows db. ob_id b \<noteq> i}"
    and atts: "leased_attempts db' = {d \<in> leased_attempts db. dl_outbox_id d \<noteq> Some i}"
  shows "outbox_ok db'"
proof -
  have "row_lease ` leased_rows db' = {l \<in> row_lease ` leased_rows db. fst l \<noteq> Some i}"
    unfolding rows by (rule image_filter_eq) (simp add: row_lease_def)
  moreover have "attempt_lease ` leased_attempts db' = {l \<in> attempt_lease ` leased_attempts db. fst l \<noteq> Some i}"
    unfolding atts by (rule image_filter_eq) (simp add: attempt_lease_def)
  ultimately show ?thesis using ok base_ok_evolves[OF _ ev] by (simp add: outbox_ok_def)
qed

text \<open>A step that only gives leases up, and none that is still live.\<close>

definition lease_due :: "delivery \<Rightarrow> time \<Rightarrow> bool" where
  "lease_due d now \<longleftrightarrow> connector_deadline_due [ps_lease_expires_at (dl_private d)] now"

definition recovers :: "time \<Rightarrow> outbox_db \<Rightarrow> outbox_db \<Rightarrow> bool" where
  "recovers now db db' \<longleftrightarrow> evolves db db' \<and> outbox_ok db'
     \<and> leased_rows db' \<subseteq> leased_rows db \<and> leased_attempts db' \<subseteq> leased_attempts db
     \<and> (\<forall>d \<in> leased_attempts db. \<not> lease_due d now \<longrightarrow> d \<in> leased_attempts db')"

lemma recovers_calm: "outbox_ok db \<Longrightarrow> calm db db' \<Longrightarrow> recovers now db db'"
  using outbox_ok_calm by (simp add: recovers_def calm_def)

lemma recovers_refl: "outbox_ok db \<Longrightarrow> recovers now db db"
  by (simp add: recovers_calm)

lemma recovers_trans:
  assumes "recovers now a b" "recovers now b c"
  shows "recovers now a c"
  using assms evolves_trans unfolding recovers_def by blast

lemma reclaim_lease_ok:
  assumes ok: "outbox_ok db" and d: "d \<in> leased_attempts db" and row: "row = delivery_row db d"
  shows "\<exists>db'. reclaim_lease E now d row db = Inr db' \<and> evolves db db' \<and> outbox_ok db'
    \<and> leased_attempts db' = leased_attempts db - {d}
    \<and> leased_rows db' = {b \<in> leased_rows db. dl_outbox_id d \<noteq> Some (ob_id b)}"
proof -
  obtain b where "b \<in> leased_rows db" "row_lease b = attempt_lease d" "dl_outbox_id d = Some (ob_id b)"
    "delivery_row db d = Some b" "ps_current_delivery_id (ob_private b) = Some (dl_id d)"
    by (rule attempt_row[OF ok d])
  note b = this(1,3,4,5)
  have uid: "x = d" if "x \<in> set (deliveries db)" "dl_id x = dl_id d" for x
    using ok d that unique_keyD[of dl_id "deliveries db" x d]
    by (simp add: outbox_ok_def base_ok_def leased_attempts_def)
  let ?f = "\<lambda>x. x\<lparr>dl_status := DvExpired, dl_response := plain_response (lit ''expired''), dl_delivered_at := Some now\<rparr>"
  define db1 where "db1 = db\<lparr>deliveries := sql_update (\<lambda>x. dl_id x = dl_id d \<and> dl_status x = DvLeased) ?f (deliveries db)\<rparr>"
  define st where "st = (if ps_terminal_after_lease (ob_private b) then ObSuperseded else ObQueued)"
  let ?g = "\<lambda>y. y\<lparr>ob_status := st, ob_next_attempt_at := None, ob_updated_at := now,
      ob_private := connector_private_clear_current (ob_private b)\<rparr>"
  define db2 where "db2 = outbox_set (ob_id b) ObLeased ?g db1"
  have e1: "evolves db db1"
    unfolding db1_def by (rule evolves_deliveries) (auto simp: attempt_follows_def closed_attempt_def)
  have e2: "evolves db1 db2"
    unfolding db2_def outbox_set_def by (rule evolves_outbox) (auto simp: row_follows_def open_status_def)
  have "leased_attempts db2 = {e \<in> leased_attempts db. \<not> (dl_id e = dl_id d \<and> dl_status e = DvLeased)}"
    unfolding db2_def outbox_set_def db1_def leased_frame by (rule leased_attempts_gone) simp
  also have "\<dots> = leased_attempts db - {d}"
  proof (rule set_eqI)
    fix e show "e \<in> {e \<in> leased_attempts db. \<not> (dl_id e = dl_id d \<and> dl_status e = DvLeased)}
      \<longleftrightarrow> e \<in> leased_attempts db - {d}"
      using uid[of e] leased_attemptD[of e] leased_attemptD[OF d] by auto
  qed
  finally have a: "leased_attempts db2 = leased_attempts db - {d}" .
  have "leased_rows db2 = {c \<in> leased_rows db1. \<not> (ob_id c = ob_id b \<and> ob_status c = ObLeased)}"
    unfolding db2_def outbox_set_def by (rule leased_rows_gone) (simp add: st_def)
  then have r: "leased_rows db2 = {c \<in> leased_rows db. ob_id c \<noteq> ob_id b}"
    unfolding db1_def leased_frame by (auto dest: leased_rowD)
  have "leased_attempts db - {d} = {e \<in> leased_attempts db. dl_outbox_id e \<noteq> Some (ob_id b)}"
    using same_attempt[OF ok _ d] b(2) by auto
  then have ok2: "outbox_ok db2" using drop_lease[OF ok evolves_trans[OF e1 e2] r] a by simp
  then obtain db3 where u: "update_presentation_plan_after_outbox E (ob_id b) st now None db2 = Inr db3" "calm db2 db3"
    using update_plan_calm[of db2 E "ob_id b" st now None] by (auto simp: outbox_ok_def)
  have "reclaim_lease E now d row db = Inr db3"
    using u(1) b(3,4) leased_rowD[OF b(1)] unfolding db2_def db1_def st_def row
    by (simp add: reclaim_lease_def Let_def)
  moreover have "outbox_ok db3" by (rule outbox_ok_calm[OF ok2 u(2)])
  moreover have "evolves db db3" using evolves_trans[OF evolves_trans[OF e1 e2]] u(2) by (simp add: calm_def)
  moreover have "leased_attempts db3 = leased_attempts db - {d}" "leased_rows db3 = {c \<in> leased_rows db. dl_outbox_id d \<noteq> Some (ob_id c)}"
    using u(2) a r b(2) by (auto simp: calm_def)
  ultimately show ?thesis by blast
qed

lemma reclaim_leases_ok:
  assumes "outbox_ok db" "distinct (map fst ps)"
    and "\<forall>p \<in> set ps. fst p \<in> leased_attempts db \<and> snd p = delivery_row db (fst p)"
  shows "\<exists>db'. reclaim_leases E now ps n db = Inr (n + length (filter (\<lambda>p. lease_due (fst p) now) ps), db')
    \<and> recovers now db db'
    \<and> leased_attempts db' = {d \<in> leased_attempts db. \<not> (d \<in> fst ` set ps \<and> lease_due d now)}"
  using assms
proof (induction ps arbitrary: n db)
  case Nil
  then show ?case by (auto simp: recovers_refl)
next
  case (Cons p ps)
  obtain d row where p: "p = (d, row)" by fastforce
  have d: "d \<in> leased_attempts db" "row = delivery_row db d" using Cons.prems(3) p by auto
  show ?case
  proof (cases "lease_due d now")
    case False
    have "\<exists>db'. reclaim_leases E now ps n db = Inr (n + length (filter (\<lambda>p. lease_due (fst p) now) ps), db')
      \<and> recovers now db db'
      \<and> leased_attempts db' = {d \<in> leased_attempts db. \<not> (d \<in> fst ` set ps \<and> lease_due d now)}"
      by (rule Cons.IH) (use Cons.prems in auto)
    with False show ?thesis by (auto simp: p lease_due_def)
  next
    case True
    obtain db1 where s: "reclaim_lease E now d row db = Inr db1" "evolves db db1" "outbox_ok db1"
      "leased_attempts db1 = leased_attempts db - {d}"
      "leased_rows db1 = {b \<in> leased_rows db. dl_outbox_id d \<noteq> Some (ob_id b)}"
      using reclaim_lease_ok[OF Cons.prems(1) d, of E now] by blast
    have rec: "recovers now db db1" using s(2-5) True by (auto simp: recovers_def)
    have still: "fst q \<in> leased_attempts db1 \<and> snd q = delivery_row db1 (fst q)" if q: "q \<in> set ps" for q
    proof -
      have fq: "fst q \<in> leased_attempts db" "snd q = delivery_row db (fst q)" "fst q \<noteq> d"
        using Cons.prems(2,3) q p by auto
      obtain b where "b \<in> leased_rows db" "row_lease b = attempt_lease (fst q)" "dl_outbox_id (fst q) = Some (ob_id b)"
        "delivery_row db (fst q) = Some b" "ps_current_delivery_id (ob_private b) = Some (dl_id (fst q))"
        by (rule attempt_row[OF Cons.prems(1) fq(1)])
      note b = this(1,3,4)
      have "dl_outbox_id d \<noteq> Some (ob_id b)" using same_attempt[OF Cons.prems(1) fq(1) d(1)] fq(3) b(2) by auto
      then have "b \<in> leased_rows db1" using s(5) b(1) by simp
      then have "delivery_row db1 (fst q) = Some b"
        using row_by_id[OF s(3)] b(2) leased_rowD by (simp add: delivery_row_def)
      with fq b(3) s(4) show ?thesis by simp
    qed
    obtain db2 where i: "reclaim_leases E now ps (n + 1) db1 = Inr (n + 1 + length (filter (\<lambda>p. lease_due (fst p) now) ps), db2)"
      "recovers now db1 db2"
      "leased_attempts db2 = {d \<in> leased_attempts db1. \<not> (d \<in> fst ` set ps \<and> lease_due d now)}"
      using Cons.IH[OF s(3), of "n + 1"] Cons.prems(2) still by auto
    have "leased_attempts db2 = {x \<in> leased_attempts db. \<not> (x \<in> fst ` set (p # ps) \<and> lease_due x now)}"
      using i(3) s(4) True p by auto
    with i(1) s(1) recovers_trans[OF rec i(2)] True show ?thesis by (simp add: p lease_due_def)
  qed
qed

section \<open>Rows that wait for an acknowledgement\<close>

definition buriable :: "outbox_db \<Rightarrow> nat \<Rightarrow> bool" where
  "buriable db i \<longleftrightarrow> (\<forall>x \<in> set (outbox db). ob_id x = i \<longrightarrow> open_status (ob_status x) \<or> ob_status x = ObDeadLetter)"

lemma bury_job_eq:
  "\<exists>private. bury_job E now b db = db
     \<lparr>deliveries := sql_update (\<lambda>d. dl_outbox_id d = Some (ob_id b) \<and> dl_status d = DvLeased)
        (\<lambda>d. d\<lparr>dl_status := DvFailed, dl_response := plain_response (lit ''ack_deadline_expired''),
               dl_delivered_at := Some now\<rparr>) (deliveries db)\<rparr>
     \<lparr>outbox := sql_update (\<lambda>x. ob_id x = ob_id b)
        (\<lambda>x. x\<lparr>ob_status := ObDeadLetter, ob_next_attempt_at := None, ob_updated_at := now,
               ob_private := private\<rparr>) (outbox db)\<rparr>"
  by (simp add: bury_job_def Let_def split: prod.split) blast

lemma bury_job_ok:
  assumes ok: "outbox_ok db" and bur: "buriable db (ob_id b)"
  shows "evolves db (bury_job E now b db)" "outbox_ok (bury_job E now b db)"
    "leased_rows (bury_job E now b db) = {c \<in> leased_rows db. ob_id c \<noteq> ob_id b}"
    "leased_attempts (bury_job E now b db) = {d \<in> leased_attempts db. dl_outbox_id d \<noteq> Some (ob_id b)}"
    "buriable db i \<Longrightarrow> buriable (bury_job E now b db) i"
proof -
  obtain pv where eq: "bury_job E now b db = db
     \<lparr>deliveries := sql_update (\<lambda>d. dl_outbox_id d = Some (ob_id b) \<and> dl_status d = DvLeased)
        (\<lambda>d. d\<lparr>dl_status := DvFailed, dl_response := plain_response (lit ''ack_deadline_expired''),
               dl_delivered_at := Some now\<rparr>) (deliveries db)\<rparr>
     \<lparr>outbox := sql_update (\<lambda>x. ob_id x = ob_id b)
        (\<lambda>x. x\<lparr>ob_status := ObDeadLetter, ob_next_attempt_at := None, ob_updated_at := now,
               ob_private := pv\<rparr>) (outbox db)\<rparr>" (is "_ = ?db1\<lparr>outbox := ?t\<rparr>")
    using bury_job_eq[of E now b db] by blast
  have e1: "evolves db ?db1" by (rule evolves_deliveries) (auto simp: attempt_follows_def closed_attempt_def)
  have "evolves ?db1 (?db1\<lparr>outbox := sql_update (\<lambda>x. ob_id x = ob_id b)
        (\<lambda>x. x\<lparr>ob_status := ObDeadLetter, ob_next_attempt_at := None, ob_updated_at := now,
               ob_private := pv\<rparr>) (outbox ?db1)\<rparr>)"
    by (rule evolves_outbox) (use bur in \<open>auto simp: row_follows_def buriable_def\<close>)
  then show ev: "evolves db (bury_job E now b db)" unfolding eq using evolves_trans[OF e1] by simp
  have "leased_rows (bury_job E now b db) = {c \<in> leased_rows ?db1. \<not> ob_id c = ob_id b}"
    unfolding eq using leased_rows_gone[of "\<lambda>x. ob_id x = ob_id b" "\<lambda>x. x\<lparr>ob_status := ObDeadLetter,
      ob_next_attempt_at := None, ob_updated_at := now, ob_private := pv\<rparr>" ?db1] by simp
  then show r: "leased_rows (bury_job E now b db) = {c \<in> leased_rows db. ob_id c \<noteq> ob_id b}" by simp
  have "leased_attempts (bury_job E now b db)
      = {d \<in> leased_attempts db. \<not> (dl_outbox_id d = Some (ob_id b) \<and> dl_status d = DvLeased)}"
    unfolding eq leased_frame by (rule leased_attempts_gone) simp
  then show a: "leased_attempts (bury_job E now b db) = {d \<in> leased_attempts db. dl_outbox_id d \<noteq> Some (ob_id b)}"
    by (auto dest: leased_attemptD)
  show "outbox_ok (bury_job E now b db)" by (rule drop_lease[OF ok ev r a])
  show "buriable db i \<Longrightarrow> buriable (bury_job E now b db) i"
    by (auto simp: eq buriable_def set_sql_update)
qed

lemma bury_jobs_ok:
  assumes "outbox_ok db" "\<forall>b \<in> set bs. buriable db (ob_id b)"
    "\<forall>b \<in> set bs. \<forall>d \<in> leased_attempts db. dl_outbox_id d = Some (ob_id b) \<longrightarrow> lease_due d now"
  shows "recovers now db (fold (bury_job E now) bs db)"
  using assms
proof (induction bs arbitrary: db)
  case (Cons b bs)
  have b: "buriable db (ob_id b)" using Cons.prems(2) by simp
  note s = bury_job_ok[OF Cons.prems(1) b, where E = E and now = now]
  have "recovers now db (bury_job E now b db)"
    using s(1-4) Cons.prems(3) by (auto simp: recovers_def)
  moreover have "recovers now (bury_job E now b db) (fold (bury_job E now) bs (bury_job E now b db))"
    by (rule Cons.IH) (use s Cons.prems in auto)
  ultimately show ?case using recovers_trans by simp
qed (simp add: recovers_refl)

lemma calm_close_awaiting:
  assumes "status \<noteq> ObLeased"
  shows "calm db (close_awaiting b d label status retry_at private now db)"
proof -
  define db1 where "db1 = (case d of None \<Rightarrow> db
    | Some x \<Rightarrow> db\<lparr>deliveries := sql_update (\<lambda>y. dl_id y = dl_id x \<and> dl_status y = DvAwaitingAck)
        (\<lambda>y. y\<lparr>dl_status := DvFailed, dl_response := plain_response label, dl_delivered_at := Some now\<rparr>)
        (deliveries db)\<rparr>)"
  have "calm db (db\<lparr>deliveries := sql_update (\<lambda>y. dl_id y = dl_id x \<and> dl_status y = DvAwaitingAck)
        (\<lambda>y. y\<lparr>dl_status := DvFailed, dl_response := plain_response label, dl_delivered_at := Some now\<rparr>)
        (deliveries db)\<rparr>)" for x
    by (rule calm_deliveries) (auto simp: attempt_follows_def closed_attempt_def)
  then have 1: "calm db db1" by (auto simp: db1_def split: option.split)
  show ?thesis
    unfolding close_awaiting_def Let_def db1_def[symmetric]
    by (rule calm_trans[OF 1 calm_outbox_set]) (use assms in \<open>auto simp: row_follows_def open_status_def\<close>)
qed

lemma calm_give_up: "calm db (give_up_awaiting E host now b d db)"
  unfolding give_up_awaiting_def Let_def
  by (auto split: prod.split intro: calm_trans[OF calm_close_awaiting calm_activate])

lemma plan_rows_in: "b \<in> set (plan_rows db p) \<Longrightarrow> b \<in> set (outbox db)"
  using fetchone_in[of _ "outbox db" b]
  by (auto simp: plan_rows_def List.map_filter_def job_row_def outbox_by_id_def split: option.splits)

lemma plan_rows_plans [simp]: "plan_rows (db\<lparr>plans := ps\<rparr>) p = plan_rows db p"
proof -
  have "job_row (db\<lparr>plans := ps\<rparr>) j = job_row db j" for j
    by (simp add: job_row_def outbox_by_id_def split: option.split)
  then have "job_row (db\<lparr>plans := ps\<rparr>) = job_row db" by (rule ext)
  then show ?thesis by (simp add: plan_rows_def plan_jobs_def)
qed

lemma no_live_job_due:
  assumes ok: "outbox_ok db" and no: "\<not> plan_has_live_job_lease db p now"
    and b: "b \<in> set (plan_rows db p)" and d: "d \<in> leased_attempts db" "dl_outbox_id d = Some (ob_id b)"
  shows "lease_due d now"
proof -
  obtain c where "c \<in> leased_rows db" "row_lease c = attempt_lease d" "dl_outbox_id d = Some (ob_id c)"
    "delivery_row db d = Some c" "ps_current_delivery_id (ob_private c) = Some (dl_id d)"
    by (rule attempt_row[OF ok d(1)])
  then have "c = b" using same_row[OF ok _ plan_rows_in[OF b]] d(2) leased_rowD by auto
  then have "ob_status b = ObLeased" using \<open>c \<in> leased_rows db\<close> leased_rowD by blast
  then show ?thesis
    using no b d leased_attemptD[OF d(1)] unfolding plan_has_live_job_lease_def list_ex_iff lease_due_def by blast
qed

lemma reclaim_awaiting_row_recovers:
  assumes ok: "outbox_ok db"
  shows "recovers now db (snd (reclaim_awaiting_row E host now b db))"
proof (cases "awaiting_due db b now")
  case False
  then show ?thesis using ok by (simp add: reclaim_awaiting_row_def recovers_refl)
next
  case due: True
  let ?d = "awaiting_delivery db (ob_id b)"
  note up = recovers_calm[OF ok calm_give_up]
  show ?thesis
  proof (cases "source_plan db (ob_id b)")
    case None
    then show ?thesis using due up by (simp add: reclaim_awaiting_row_def)
  next
    case (Some q)
    consider (completed) "pl_state q = PlCompleted" | (live) "pl_state q \<noteq> PlCompleted" "recoverable_plan (Some q)"
        "plan_has_live_job_lease db (pl_id q) now"
      | (dead) "pl_state q \<noteq> PlCompleted" "recoverable_plan (Some q)" "\<not> plan_has_live_job_lease db (pl_id q) now"
      | (lost) "pl_state q \<noteq> PlCompleted" "\<not> recoverable_plan (Some q)" by blast
    then show ?thesis
    proof cases
      case completed
      define db1 where "db1 = (case ?d of None \<Rightarrow> db
        | Some x \<Rightarrow> db\<lparr>deliveries := sql_update (\<lambda>y. dl_id y = dl_id x \<and> dl_status y = DvAwaitingAck)
            (\<lambda>y. y\<lparr>dl_status := DvDelivered, dl_delivered_at :=
               (case dl_delivered_at y of None \<Rightarrow> Some now | Some t \<Rightarrow> Some t)\<rparr>) (deliveries db)\<rparr>)"
      have "calm db (db\<lparr>deliveries := sql_update (\<lambda>y. dl_id y = dl_id x \<and> dl_status y = DvAwaitingAck)
            (\<lambda>y. y\<lparr>dl_status := DvDelivered, dl_delivered_at :=
               (case dl_delivered_at y of None \<Rightarrow> Some now | Some t \<Rightarrow> Some t)\<rparr>) (deliveries db)\<rparr>)" for x
        by (rule calm_deliveries) (auto simp: attempt_follows_def closed_attempt_def)
      then have 1: "calm db db1" by (auto simp: db1_def split: option.split)
      have "calm db1 (outbox_set (ob_id b) ObAwaitingAck
          (\<lambda>y. y\<lparr>ob_status := ObDelivered, ob_next_attempt_at := None, ob_updated_at := now,
            ob_private := connector_private_clear_current (ob_private b)\<rparr>) db1)"
        by (rule calm_outbox_set) (auto simp: row_follows_def open_status_def)
      from recovers_calm[OF ok calm_trans[OF 1 this]] show ?thesis
        using due completed unfolding reclaim_awaiting_row_def Let_def Some option.case db1_def[symmetric] by simp
    next
      case live
      then show ?thesis using due Some ok by (simp add: reclaim_awaiting_row_def recovers_refl)
    next
      case lost
      then show ?thesis using due Some up by (simp add: reclaim_awaiting_row_def)
    next
      case dead
      define db1 where "db1 = db\<lparr>plans := sql_update (\<lambda>x. pl_id x = pl_id q) (\<lambda>x. x\<lparr>pl_state := PlFailed\<rparr>) (plans db)\<rparr>"
      have c1: "calm db db1" unfolding db1_def by (rule calm_plans) (simp add: plan_follows_def)
      then have ok1: "outbox_ok db1" by (rule outbox_ok_calm[OF ok])
      define bs where "bs = filter (\<lambda>x. open_status (ob_status x)) (plan_rows db1 (pl_id q))"
      have in1: "x \<in> set (outbox db1)" "open_status (ob_status x)" "x \<in> set (plan_rows db (pl_id q))" if "x \<in> set bs" for x
        using that plan_rows_in[of x db1] by (auto simp: bs_def db1_def)
      have "recovers now db1 (fold (bury_job E now) bs db1)"
      proof (rule bury_jobs_ok[OF ok1])
        show "\<forall>x \<in> set bs. buriable db1 (ob_id x)"
          using in1 same_row[OF ok1] unfolding buriable_def by metis
        show "\<forall>x \<in> set bs. \<forall>d \<in> leased_attempts db1. dl_outbox_id d = Some (ob_id x) \<longrightarrow> lease_due d now"
          using no_live_job_due[OF ok dead(3) in1(3)] c1 by (auto simp: calm_def)
      qed
      then have r: "recovers now db (fold (bury_job E now) bs db1)"
        by (rule recovers_trans[OF recovers_calm[OF ok c1]])
      define db2 where "db2 = fold (bury_job E now) bs db1"
      have ok2: "outbox_ok db2" using r by (simp add: db2_def recovers_def)
      have "recovers now db (activate_waiting_presentation_plans host (ob_connector b) now
          (close_awaiting b ?d label ObRetry retry_at pv now db2))" for label retry_at pv
        by (rule recovers_trans[OF r[folded db2_def] recovers_calm[OF ok2]])
          (rule calm_trans[OF calm_close_awaiting calm_activate], simp)
      then show ?thesis
        using due dead unfolding reclaim_awaiting_row_def Let_def Some option.case db1_def[symmetric]
          bs_def[symmetric] db2_def[symmetric] by (simp split: prod.split)
    qed
  qed
qed

section \<open>The lease table\<close>

text \<open>
  What the outbox promises its connectors, with everything else left out: a table of the
  rows that are held and of the attempts that hold them, and a counter.  A row is granted
  to a fresh attempt only while nobody holds it; otherwise leases are only given up.
\<close>

type_synonym lease_table = "(nat option \<times> nat) set \<times> nat"

inductive lease_move :: "lease_table \<Rightarrow> lease_table \<Rightarrow> bool" where
  grant: "i \<notin> Domain H \<Longrightarrow> n < k \<Longrightarrow> lease_move (H, n) (insert (i, k) H, k)"
| give_up: "H' \<subseteq> H \<Longrightarrow> n \<le> m \<Longrightarrow> lease_move (H, n) (H', m)"

inductive_simps lease_move_simps: "lease_move T T'"

definition holders :: "outbox_db \<Rightarrow> (nat option \<times> nat) set" where
  "holders db = (\<lambda>d. (dl_outbox_id d, dl_id d)) ` leased_attempts db"

definition lease_table :: "outbox_db \<Rightarrow> lease_table" where
  "lease_table db = (holders db, delivery_seq db)"

definition lease_path :: "outbox_db \<Rightarrow> outbox_db \<Rightarrow> bool" where
  "lease_path db db' \<longleftrightarrow> lease_move\<^sup>*\<^sup>* (lease_table db) (lease_table db')"

lemma lease_path_refl [simp]: "lease_path db db"
  by (simp add: lease_path_def)

lemma lease_path_trans: "lease_path a b \<Longrightarrow> lease_path b c \<Longrightarrow> lease_path a c"
  by (simp add: lease_path_def)

lemma evolves_seq: "evolves db db' \<Longrightarrow> delivery_seq db \<le> delivery_seq db'"
  by (simp add: evolves_def attempts_grow_def)

lemma lease_path_drop: "evolves db db' \<Longrightarrow> holders db' \<subseteq> holders db \<Longrightarrow> lease_path db db'"
  unfolding lease_path_def lease_table_def by (intro r_into_rtranclp lease_move.give_up evolves_seq)

lemma lease_path_recovers: "recovers now db db' \<Longrightarrow> lease_path db db'"
  by (rule lease_path_drop) (auto simp: recovers_def holders_def)

lemma lease_path_calm: "calm db db' \<Longrightarrow> lease_path db db'"
  by (rule lease_path_drop) (auto simp: calm_def holders_def)

lemma held_row:
  assumes "outbox_ok db" "b \<in> set (outbox db)" "ob_status b \<noteq> ObLeased"
  shows "Some (ob_id b) \<notin> Domain (holders db)"
proof
  assume "Some (ob_id b) \<in> Domain (holders db)"
  then obtain d where d: "d \<in> leased_attempts db" "dl_outbox_id d = Some (ob_id b)" by (auto simp: holders_def)
  obtain c where "c \<in> leased_rows db" "row_lease c = attempt_lease d" "dl_outbox_id d = Some (ob_id c)"
    "delivery_row db d = Some c" "ps_current_delivery_id (ob_private c) = Some (dl_id d)"
    by (rule attempt_row[OF assms(1) d(1)])
  then have "c = b" "ob_status c = ObLeased" using same_row[OF assms(1) _ assms(2)] d(2) leased_rowD by auto
  with assms(3) show False by simp
qed

end
