(* ===== verification/OutboxOps.thy ===== *)
theory OutboxOps
  imports OutboxContract
begin

text \<open>
  The operations on the outbox keep its contract; the interpretations at the end
  give each of them the consequences proved inside the locale.
\<close>

section \<open>The two sweeps\<close>

lemma reclaim_awaiting_rows_recovers:
  "outbox_ok db \<Longrightarrow> recovers now db (snd (reclaim_awaiting_rows E host now bs db))"
proof (induction bs arbitrary: db)
  case (Cons b bs)
  have 1: "recovers now db (snd (reclaim_awaiting_row E host now b db))"
    by (rule reclaim_awaiting_row_recovers[OF Cons.prems])
  then have "outbox_ok (snd (reclaim_awaiting_row E host now b db))" by (simp add: recovers_def)
  from recovers_trans[OF 1 Cons.IH[OF this]] show ?case by (simp add: case_prod_beta)
qed (simp add: recovers_refl)

lemma leased_deliveries_pairs:
  assumes ok: "outbox_ok db"
  shows "distinct (map fst (map (\<lambda>d. (d, delivery_row db d)) (leased_deliveries host name db)))"
    and "p \<in> set (map (\<lambda>d. (d, delivery_row db d)) (leased_deliveries host name db))
      \<Longrightarrow> fst p \<in> leased_attempts db \<and> snd p = delivery_row db (fst p)"
proof -
  have "distinct (deliveries db)" using ok by (simp add: outbox_ok_def base_ok_def unique_key_def distinct_map)
  then show "distinct (map fst (map (\<lambda>d. (d, delivery_row db d)) (leased_deliveries host name db)))"
    by (simp add: comp_def leased_deliveries_def)
  show "p \<in> set (map (\<lambda>d. (d, delivery_row db d)) (leased_deliveries host name db))
      \<Longrightarrow> fst p \<in> leased_attempts db \<and> snd p = delivery_row db (fst p)"
    by (auto simp: leased_deliveries_def leased_attempts_def)
qed

lemma reclaim_expired_recovers:
  assumes ok: "outbox_ok db"
  shows "\<exists>n db1 m db2. reclaim_expired_leases E host name now db = Inr (n + m, db2)
    \<and> recovers now db db2
    \<and> n = length (filter (\<lambda>d. lease_due d now) (leased_deliveries host name db))
    \<and> reclaim_expired_awaiting_ack E host name now db1 = (m, db2) \<and> recovers now db db1
    \<and> (n = 0 \<longrightarrow> db1 = db)
    \<and> leased_attempts db1 = {d \<in> leased_attempts db. \<not> (d \<in> set (leased_deliveries host name db) \<and> lease_due d now)}"
proof -
  let ?ps = "map (\<lambda>d. (d, delivery_row db d)) (leased_deliveries host name db)"
  let ?n = "length (filter (\<lambda>d. lease_due d now) (leased_deliveries host name db))"
  have n: "length (filter (\<lambda>p. lease_due (fst p) now) ?ps) = ?n" by (simp add: filter_map comp_def)
  have fst_ps: "fst ` set ?ps = set (leased_deliveries host name db)" by force
  have pre: "\<forall>p \<in> set ?ps. fst p \<in> leased_attempts db \<and> snd p = delivery_row db (fst p)"
    by (rule ballI) (rule leased_deliveries_pairs(2)[OF ok])
  obtain db1 where r: "reclaim_leases E now ?ps 0 db = Inr (?n, db1)" "recovers now db db1"
    "leased_attempts db1 = {d \<in> leased_attempts db. \<not> (d \<in> set (leased_deliveries host name db) \<and> lease_due d now)}"
    using reclaim_leases_ok[OF ok leased_deliveries_pairs(1)[OF ok] pre, where E = E and now = now and n = 0]
    unfolding n fst_ps add_0 by (elim exE conjE) (rule that)
  obtain m db2 where a: "reclaim_expired_awaiting_ack E host name now db1 = (m, db2)" by fastforce
  have "recovers now db1 db2"
    using reclaim_awaiting_rows_recovers[of db1 now E host "awaiting_rows host name db1"] r(2) a
    by (simp add: reclaim_expired_awaiting_ack_def recovers_def)
  from recovers_trans[OF r(2) this] have rec: "recovers now db db2" .
  have e: "reclaim_expired_leases E host name now db = Inr (?n + m, db2)"
    using r(1) a by (simp add: reclaim_expired_leases_def)
  have none: "db1 = db" if "?n = 0"
  proof -
    have "\<forall>d \<in> set (leased_deliveries host name db). \<not> lease_due d now"
      using that by (simp add: filter_empty_conv)
    then have "reclaim_leases E now (map (\<lambda>d. (d, delivery_row db d)) ds) k db = Inr (k, db)"
      if "set ds \<subseteq> set (leased_deliveries host name db)" for k ds
      using that by (induction ds) (auto simp: lease_due_def)
    from this[of "leased_deliveries host name db" 0] r(1) show ?thesis by simp
  qed
  show ?thesis
    by (rule exI[of _ ?n], rule exI[of _ db1], rule exI[of _ m], rule exI[of _ db2])
      (intro conjI e rec refl a r(2,3) impI none)
qed

lemma calm_exhaust_row:
  assumes "\<forall>x \<in> set (outbox db). ob_id x = ob_id b \<longrightarrow> ob_status x \<noteq> ObLeased \<and> (open_status (ob_status x) \<or> ob_status x = ObDeadLetter)"
  shows "calm db (exhaust_row E now b db)"
  unfolding exhaust_row_def Let_def by (rule calm_outbox) (use assms in \<open>auto simp: row_follows_def\<close>)

lemma calm_exhaust_rows:
  assumes "\<forall>b \<in> set bs. \<forall>x \<in> set (outbox db). ob_id x = ob_id b \<longrightarrow>
    ob_status x \<noteq> ObLeased \<and> (open_status (ob_status x) \<or> ob_status x = ObDeadLetter)"
  shows "calm db (fold (exhaust_row E now) bs db)"
  using assms
proof (induction bs arbitrary: db)
  case (Cons b bs)
  have 1: "calm db (exhaust_row E now b db)" by (rule calm_exhaust_row) (use Cons.prems in simp)
  have "calm (exhaust_row E now b db) (fold (exhaust_row E now) bs (exhaust_row E now b db))"
    by (rule Cons.IH) (use Cons.prems in \<open>auto simp: exhaust_row_def Let_def set_sql_update\<close>)
  from calm_trans[OF 1 this] show ?case by simp
qed simp

lemma exhaust_calm:
  assumes "outbox_ok db"
  shows "calm db (snd (exhaust_retryable E host name limit now db))"
proof -
  have "calm db (fold (exhaust_row E now) (sort_key ob_id (filter (retryable_exhausted host name limit db) (outbox db))) db)"
  proof (rule calm_exhaust_rows, intro ballI impI)
    fix b x assume b: "b \<in> set (sort_key ob_id (filter (retryable_exhausted host name limit db) (outbox db)))"
      and x: "x \<in> set (outbox db)" "ob_id x = ob_id b"
    then have "x = b" using same_row[OF assms, of x b] by auto
    then show "ob_status x \<noteq> ObLeased \<and> (open_status (ob_status x) \<or> ob_status x = ObDeadLetter)"
      using b by (auto simp: retryable_exhausted_def pollable_status_def open_status_def)
  qed
  from calm_trans[OF this calm_mark_exhausted] show ?thesis by (simp add: exhaust_retryable_def Let_def)
qed

lemma poll_prepare_recovers:
  assumes ok: "outbox_ok db"
  shows "\<exists>db1. poll_prepare E host name m now db = Inr db1 \<and> recovers now db db1"
proof -
  obtain n db1 where r: "reclaim_expired_leases E host (Some name) now db = Inr (n, db1)" "recovers now db db1"
    using reclaim_expired_recovers[OF ok, of E host "Some name" now] by auto
  have ok1: "outbox_ok db1" using r(2) by (simp add: recovers_def)
  show ?thesis
  proof (cases m)
    case None
    then show ?thesis using r by (simp add: poll_prepare_def)
  next
    case (Some k)
    have "recovers now db (mark_exhausted_presentation_plans host (Some name)
        (snd (exhaust_retryable E host (Some name) k now db1)))"
      by (rule recovers_trans[OF r(2) recovers_calm[OF ok1 calm_trans[OF exhaust_calm[OF ok1] calm_mark_exhausted]]])
    with r(1) Some show ?thesis by (simp add: poll_prepare_def)
  qed
qed

section \<open>Leasing\<close>

lemma lease_row_ok:
  assumes ok: "outbox_ok db" and b: "b \<in> set (outbox db)" "pollable_status (ob_status b)"
    "ob_host b = host" "ob_connector b = name"
    and l: "lease_row E host name now expires b db = (item, db')"
  shows "evolves db db'" "outbox_ok db'"
    "\<exists>c d. leased_rows db' = insert c (leased_rows db) \<and> leased_attempts db' = insert d (leased_attempts db)
      \<and> ob_id c = ob_id b \<and> attempt_lease d = row_lease c
      \<and> dl_id d = pi_delivery_id item \<and> dl_attempt d = pi_attempt item
      \<and> ps_public_ref (dl_private d) = Some (pi_ref item)
      \<and> ps_lease_expires_at (dl_private d) = Some expires"
    "pi_outbox_id item = ob_id b" "pi_attempt item = Suc (max_attempt db (ob_id b))"
    "pi_leased_until item = expires" "pi_delivery_id item = delivery_seq db'" "delivery_seq db' = Suc (delivery_seq db)"
    "\<And>x. x \<in> set (outbox db) \<Longrightarrow> ob_id x \<noteq> ob_id b \<Longrightarrow> x \<in> set (outbox db')"
proof -
  let ?did = "Suc (delivery_seq db)"
  let ?att = "Suc (max_attempt db (ob_id b))"
  define d where "d = \<lparr>dl_id = ?did, dl_outbox_id = Some (ob_id b), dl_host = host, dl_connector = name,
      dl_key = ob_key b, dl_attempt = ?att, dl_status = DvLeased, dl_response = plain_response [],
      dl_private = connector_private_with_lease no_private (Some ?did) ?att (ce_lease_token E ?did) expires (ce_public_ref E ?did),
      dl_created_at = now, dl_delivered_at = None\<rparr>"
  define f where "f = (\<lambda>x :: outbox_row. x\<lparr>ob_status := ObLeased, ob_updated_at := now,
      ob_private := connector_private_with_lease (ob_private b) (Some ?did) ?att (ce_lease_token E ?did) expires (ce_public_ref E ?did)\<rparr>)"
  let ?p = "\<lambda>x. ob_id x = ob_id b \<and> pollable_status (ob_status x)"
  define db1 where "db1 = db\<lparr>deliveries := deliveries db @ [d], delivery_seq := ?did\<rparr>"
  have db': "db' = db1\<lparr>outbox := sql_update ?p f (outbox db1)\<rparr>"
    and item: "pi_outbox_id item = ob_id b" "pi_attempt item = ?att" "pi_leased_until item = expires"
      "pi_delivery_id item = ?did" "pi_ref item = ce_public_ref E ?did"
    using l by (auto simp: lease_row_def Let_def db1_def d_def f_def)
  have sel: "?p x \<longleftrightarrow> x = b" if "x \<in> set (outbox db)" for x
    using that b same_row[OF ok that b(1)] by blast
  have e1: "evolves db db1" unfolding db1_def by (rule evolves_append) (simp add: d_def)
  have "evolves db1 db'"
    unfolding db' by (rule evolves_outbox) (auto simp: f_def row_follows_def pollable_status_def open_status_def)
  with e1 show ev: "evolves db db'" by (rule evolves_trans)
  have set: "set (outbox db') = insert (f b) (set (outbox db) - {b})"
  proof -
    have "sql_update ?p f (outbox db) = map (\<lambda>x. if x = b then f b else x) (outbox db)"
      using sel by (simp add: sql_update_def)
    then show ?thesis using b(1) by (auto simp: db' db1_def)
  qed
  have nl: "ob_status b \<noteq> ObLeased" using b(2) by (auto simp: pollable_status_def)
  have r: "leased_rows db' = insert (f b) (leased_rows db)"
    using nl by (auto simp: leased_rows_def set f_def)
  have a: "leased_attempts db' = insert d (leased_attempts db)"
    by (auto simp: db' db1_def leased_attempts_def d_def)
  have eq: "attempt_lease d = row_lease (f b)"
    using b(3,4) by (simp add: attempt_lease_def row_lease_def d_def f_def connector_private_with_lease_def)
  show "outbox_ok db'"
    using ok base_ok_evolves[OF _ ev] eq by (simp add: outbox_ok_def r a)
  show "\<exists>c d. leased_rows db' = insert c (leased_rows db) \<and> leased_attempts db' = insert d (leased_attempts db)
      \<and> ob_id c = ob_id b \<and> attempt_lease d = row_lease c
      \<and> dl_id d = pi_delivery_id item \<and> dl_attempt d = pi_attempt item
      \<and> ps_public_ref (dl_private d) = Some (pi_ref item)
      \<and> ps_lease_expires_at (dl_private d) = Some expires"
    by (rule exI[of _ "f b"], rule exI[of _ d])
      (use r a eq item in \<open>simp add: f_def d_def connector_private_with_lease_def\<close>)
  show "pi_outbox_id item = ob_id b" "pi_attempt item = ?att" "pi_leased_until item = expires"
    by (rule item)+
  show "pi_delivery_id item = delivery_seq db'" "delivery_seq db' = ?did" by (simp_all add: item db' db1_def)
  show "\<And>x. x \<in> set (outbox db) \<Longrightarrow> ob_id x \<noteq> ob_id b \<Longrightarrow> x \<in> set (outbox db')" using set by auto
qed

lemma max_attempt_other:
  assumes "lease_row E host name now expires b db = (item, db')" "i \<noteq> ob_id b"
  shows "attempts_of db' i = attempts_of db i" "max_attempt db' i = max_attempt db i"
proof -
  show "attempts_of db' i = attempts_of db i"
    using assms by (auto simp: lease_row_def Let_def attempts_of_def)
  then show "max_attempt db' i = max_attempt db i" by (simp add: max_attempt_def)
qed

definition leased_item :: "outbox_db \<Rightarrow> outbox_db \<Rightarrow> time \<Rightarrow> poll_item \<Rightarrow> bool" where
  "leased_item db db' expires item \<longleftrightarrow>
     pi_attempt item = Suc (max_attempt db (pi_outbox_id item)) \<and> pi_leased_until item = expires
     \<and> delivery_seq db < pi_delivery_id item
     \<and> (\<exists>d \<in> leased_attempts db'. dl_outbox_id d = Some (pi_outbox_id item) \<and> dl_id d = pi_delivery_id item
          \<and> dl_attempt d = pi_attempt item \<and> ps_public_ref (dl_private d) = Some (pi_ref item)
          \<and> ps_lease_expires_at (dl_private d) = Some expires)"

lemma lease_rows_ok:
  assumes "outbox_ok db" "distinct (map ob_id bs)"
    and "\<forall>b \<in> set bs. b \<in> set (outbox db) \<and> pollable_status (ob_status b) \<and> ob_host b = host \<and> ob_connector b = name"
    and "lease_rows E host name now expires bs db = (items, db')"
  shows "evolves db db' \<and> outbox_ok db' \<and> leased_rows db \<subseteq> leased_rows db' \<and> leased_attempts db \<subseteq> leased_attempts db'
    \<and> map pi_outbox_id items = map ob_id bs \<and> (\<forall>i \<in> set items. leased_item db db' expires i)
    \<and> delivery_seq db \<le> delivery_seq db' \<and> lease_path db db'"
  using assms
proof (induction bs arbitrary: db items)
  case (Cons b bs)
  obtain item db1 where l: "lease_row E host name now expires b db = (item, db1)" by fastforce
  obtain rest where r: "lease_rows E host name now expires bs db1 = (rest, db')" "items = item # rest"
    using Cons.prems(4) l by (auto split: prod.splits)
  have b: "b \<in> set (outbox db)" "pollable_status (ob_status b)" "ob_host b = host" "ob_connector b = name"
    using Cons.prems(3) by simp_all
  note s = lease_row_ok[OF Cons.prems(1) b l]
  obtain c d where cd: "leased_rows db1 = insert c (leased_rows db)" "leased_attempts db1 = insert d (leased_attempts db)"
    "ob_id c = ob_id b" "attempt_lease d = row_lease c" "dl_id d = pi_delivery_id item"
    "dl_attempt d = pi_attempt item" "ps_public_ref (dl_private d) = Some (pi_ref item)"
    "ps_lease_expires_at (dl_private d) = Some expires" using s(3) by blast
  have ne: "x \<in> set bs \<Longrightarrow> ob_id x \<noteq> ob_id b" for x using Cons.prems(2) by (metis distinct.simps(2) image_eqI list.set_map list.simps(9))
  have bs: "\<forall>x \<in> set bs. x \<in> set (outbox db1) \<and> pollable_status (ob_status x) \<and> ob_host x = host \<and> ob_connector x = name"
    using Cons.prems(3) s(9) ne by auto
  have dist: "distinct (map ob_id bs)" using Cons.prems(2) by simp
  note ih = Cons.IH[OF s(2) dist bs r(1)]
  have "leased_item db db' expires item"
    using cd s(4-8) ih by (auto simp: leased_item_def attempt_lease_def row_lease_def)
  moreover have "leased_item db db' expires i" if i: "i \<in> set rest" for i
  proof -
    have "pi_outbox_id i \<in> set (map ob_id bs)" using ih i by (metis image_eqI list.set_map)
    then obtain x where x: "x \<in> set bs" "pi_outbox_id i = ob_id x" by (auto simp del: eq_commute)
    have "pi_outbox_id i \<noteq> ob_id b" using ne[OF x(1)] by (simp only: x(2) not_False_eq_True)
    then have "max_attempt db1 (pi_outbox_id i) = max_attempt db (pi_outbox_id i)" by (rule max_attempt_other(2)[OF l])
    moreover have "leased_item db1 db' expires i" using ih i by blast
    ultimately show ?thesis using s(8) by (simp add: leased_item_def) metis
  qed
  moreover have "lease_path db db1"
  proof -
    have "dl_outbox_id d = Some (ob_id b)" using cd(3,4) by (simp add: attempt_lease_def row_lease_def)
    then have "holders db1 = insert (Some (ob_id b), delivery_seq db1) (holders db)"
      using cd(2,5) s(7) by (simp add: holders_def)
    moreover have "Some (ob_id b) \<notin> Domain (holders db)"
      by (rule held_row[OF Cons.prems(1) b(1)]) (use b(2) in \<open>auto simp: pollable_status_def\<close>)
    ultimately show ?thesis
      using s(8) by (auto simp: lease_path_def lease_table_def intro!: r_into_rtranclp lease_move.grant)
  qed
  ultimately show ?case
    using ih s(1,4,8) cd(1,2) r(2) evolves_trans[OF s(1)] lease_path_trans by auto
qed simp

lemma poll_rows_in:
  assumes ok: "outbox_ok db"
  shows "distinct (map ob_id (poll_rows host name now n db))"
    and "b \<in> set (poll_rows host name now n db) \<Longrightarrow> b \<in> set (outbox db) \<and> pollable host name now db b"
proof -
  let ?t = "sort_key (poll_priority db) (sort_key ob_id (filter (pollable host name now db) (outbox db)))"
  have "inj_on ob_id (set (outbox db))" "distinct (outbox db)"
    using ok by (simp_all add: outbox_ok_def base_ok_def unique_key_def distinct_map)
  then have "distinct (map ob_id ?t)" by (auto simp: distinct_map intro: inj_on_subset)
  then show "distinct (map ob_id (poll_rows host name now n db))"
    unfolding poll_rows_def take_map[symmetric] by (rule distinct_take)
  show "b \<in> set (poll_rows host name now n db) \<Longrightarrow> b \<in> set (outbox db) \<and> pollable host name now db b"
    by (auto simp: poll_rows_def dest: in_set_takeD)
qed

lemma poll_ok:
  assumes ok: "outbox_ok db" and ex: "ob_exists db"
    and defs: "t = connector_now E now" "expires = connector_add_seconds t (max 1 ls)"
  shows "\<exists>db1 items db'. poll_connector_outbox E host name limit ls m now db = Inr (Some items, db')
    \<and> poll_prepare E host name m t db = Inr db1 \<and> recovers t db db1
    \<and> evolves db1 db' \<and> outbox_ok db' \<and> leased_rows db1 \<subseteq> leased_rows db' \<and> leased_attempts db1 \<subseteq> leased_attempts db'
    \<and> map pi_outbox_id items = map ob_id (poll_rows host name t (nat (max 1 (min limit 100))) db1)
    \<and> (\<forall>i \<in> set items. leased_item db1 db' expires i) \<and> lease_path db1 db'"
proof -
  obtain db1 where p: "poll_prepare E host name m t db = Inr db1" "recovers t db db1"
    using poll_prepare_recovers[OF ok] by blast
  let ?rows = "poll_rows host name t (nat (max 1 (min limit 100))) db1"
  have ok1: "outbox_ok db1" using p(2) by (simp add: recovers_def)
  obtain items db' where l: "lease_rows E host name t expires ?rows db1 = (items, db')" by fastforce
  have "\<forall>b \<in> set ?rows. b \<in> set (outbox db1) \<and> pollable_status (ob_status b) \<and> ob_host b = host \<and> ob_connector b = name"
    using poll_rows_in(2)[OF ok1] unfolding pollable_def by blast
  note r = lease_rows_ok[OF ok1 poll_rows_in(1)[OF ok1] this l]
  have "poll_connector_outbox E host name limit ls m now db = Inr (Some items, db')"
    using ex p(1) l by (simp add: poll_connector_outbox_def Let_def defs)
  with p r show ?thesis by blast
qed

section \<open>Acting on one live lease\<close>

definition live_lease :: "outbox_db \<Rightarrow> delivery \<Rightarrow> outbox_row \<Rightarrow> bool" where
  "live_lease db d b \<longleftrightarrow> outbox_ok db \<and> d \<in> leased_attempts db \<and> b \<in> leased_rows db
     \<and> delivery_row db d = Some b"

lemma live_leaseD:
  assumes "live_lease db d b"
  shows "outbox_ok db" "d \<in> leased_attempts db" "b \<in> leased_rows db" "delivery_row db d = Some b"
  using assms by (simp_all add: live_lease_def)

lemma lease_row_id:
  assumes "live_lease db d b"
  shows "dl_outbox_id d = Some (ob_id b)"
  using live_leaseD(4)[OF assms] fetchone_in[of _ "outbox db" b] by (auto simp: delivery_row_def outbox_by_id_def split: option.splits)

lemma lease_attempt_sel:
  assumes "live_lease db d b" "x \<in> set (deliveries db)"
  shows "dl_id x = dl_id d \<longleftrightarrow> x = d"
  using live_leaseD(1,2)[OF assms(1)] assms(2) unique_keyD[of dl_id "deliveries db" x d] by (auto simp: outbox_ok_def base_ok_def leased_attempts_def)

lemma lease_row_sel:
  assumes "live_lease db d b" "x \<in> set (outbox db)"
  shows "ob_id x = ob_id b \<longleftrightarrow> x = b"
  using same_row[OF live_leaseD(1)[OF assms(1)], of x b] leased_rowD[OF live_leaseD(3)[OF assms(1)]] assms(2) by auto

lemma update_both:
  assumes L: "live_lease db d b" and pd: "\<And>x. x \<in> set (deliveries db) \<Longrightarrow> pd x \<longleftrightarrow> x = d" and pb: "\<And>x. x \<in> set (outbox db) \<Longrightarrow> pb x \<longleftrightarrow> x = b"
    and f: "attempt_follows d (f d)" and g: "row_follows b (g b)"
    and db': "db' = db\<lparr>deliveries := sql_update pd f (deliveries db), outbox := sql_update pb g (outbox db)\<rparr>"
  shows "evolves db db'" "set (deliveries db') = insert (f d) (set (deliveries db) - {d})"
    "set (outbox db') = insert (g b) (set (outbox db) - {b})"
proof -
  have e1: "evolves db (db\<lparr>deliveries := sql_update pd f (deliveries db)\<rparr>)"
    by (rule evolves_deliveries) (use pd f in auto)
  have "evolves (db\<lparr>deliveries := sql_update pd f (deliveries db)\<rparr>) db'"
    using evolves_outbox[of "db\<lparr>deliveries := sql_update pd f (deliveries db)\<rparr>" pb g] pb g by (auto simp: db')
  with e1 show "evolves db db'" by (rule evolves_trans)
  have "sql_update pd f (deliveries db) = map (\<lambda>x. if x = d then f d else x) (deliveries db)"
    using pd by (simp add: sql_update_def)
  then show "set (deliveries db') = insert (f d) (set (deliveries db) - {d})"
    using leased_attemptD[OF live_leaseD(2)[OF L]] by (auto simp: db')
  have "sql_update pb g (outbox db) = map (\<lambda>x. if x = b then g b else x) (outbox db)"
    using pb by (simp add: sql_update_def)
  then show "set (outbox db') = insert (g b) (set (outbox db) - {b})"
    using leased_rowD[OF live_leaseD(3)[OF L]] by (auto simp: db')
qed

lemma other_leases:
  assumes L: "live_lease db d b"
  shows "{e \<in> leased_attempts db. dl_outbox_id e \<noteq> Some (ob_id b)} = leased_attempts db - {d}"
  "{c \<in> leased_rows db. ob_id c \<noteq> ob_id b} = leased_rows db - {b}"
proof -
  note ok = live_leaseD(1)[OF L]
  have "dl_outbox_id e \<noteq> Some (ob_id b) \<longleftrightarrow> e \<noteq> d" if "e \<in> leased_attempts db" for e
    using same_attempt[OF ok that live_leaseD(2)[OF L]] lease_row_id[OF L] by auto
  then show "{e \<in> leased_attempts db. dl_outbox_id e \<noteq> Some (ob_id b)} = leased_attempts db - {d}" by blast
  have "ob_id c \<noteq> ob_id b \<longleftrightarrow> c \<noteq> b" if "c \<in> leased_rows db" for c
    using lease_row_sel[OF L] leased_rowD[OF that] by blast
  then show "{c \<in> leased_rows db. ob_id c \<noteq> ob_id b} = leased_rows db - {b}" by blast
qed

text \<open>Closing the attempt and moving the row gives the lease up.\<close>

lemma finish_lease:
  assumes L: "live_lease db d b" and pd: "\<And>x. x \<in> set (deliveries db) \<Longrightarrow> pd x \<longleftrightarrow> x = d" and pb: "\<And>x. x \<in> set (outbox db) \<Longrightarrow> pb x \<longleftrightarrow> x = b"
    and f: "attempt_follows d (f d)" "dl_status (f d) \<noteq> DvLeased"
    and g: "row_follows b (g b)" "ob_status (g b) \<noteq> ObLeased"
    and db': "db' = db\<lparr>deliveries := sql_update pd f (deliveries db), outbox := sql_update pb g (outbox db)\<rparr>"
  shows "evolves db db'" "outbox_ok db'"
    "leased_rows db' = leased_rows db - {b}" "leased_attempts db' = leased_attempts db - {d}"
proof -
  note u = update_both[OF L pd pb f(1) g(1) db']
  show "evolves db db'" by (rule u(1))
  show r: "leased_rows db' = leased_rows db - {b}" using u(3) g(2) by (auto simp: leased_rows_def)
  show a: "leased_attempts db' = leased_attempts db - {d}" using u(2) f(2) by (auto simp: leased_attempts_def)
  show "outbox_ok db'" by (rule drop_lease[OF live_leaseD(1)[OF L] u(1), of "ob_id b"]) (simp_all only: other_leases[OF L] r a)
qed

text \<open>Changing the deadline on both sides keeps it.\<close>

lemma keep_lease:
  assumes L: "live_lease db d b" and pd: "\<And>x. x \<in> set (deliveries db) \<Longrightarrow> pd x \<longleftrightarrow> x = d" and pb: "\<And>x. x \<in> set (outbox db) \<Longrightarrow> pb x \<longleftrightarrow> x = b"
    and f: "attempt_follows d (f d)" "dl_status (f d) = DvLeased"
    and g: "row_follows b (g b)" "ob_status (g b) = ObLeased"
    and same: "attempt_lease (f d) = row_lease (g b)"
    and db': "db' = db\<lparr>deliveries := sql_update pd f (deliveries db), outbox := sql_update pb g (outbox db)\<rparr>"
  shows "evolves db db'" "outbox_ok db'"
    "leased_rows db' = insert (g b) (leased_rows db - {b})" "leased_attempts db' = insert (f d) (leased_attempts db - {d})"
proof -
  note u = update_both[OF L pd pb f(1) g(1) db']
  show ev: "evolves db db'" by (rule u(1))
  show r: "leased_rows db' = insert (g b) (leased_rows db - {b})" using u(3) g(2) by (auto simp: leased_rows_def)
  show a: "leased_attempts db' = insert (f d) (leased_attempts db - {d})" using u(2) f(2) by (auto simp: leased_attempts_def)
  have eq: "row_lease ` leased_rows db = attempt_lease ` leased_attempts db" using live_leaseD(1)[OF L] by (simp add: outbox_ok_def)
  have "row_lease ` (leased_rows db - {b}) = {l \<in> row_lease ` leased_rows db. fst l \<noteq> Some (ob_id b)}"
    unfolding other_leases(2)[OF L, symmetric] by (rule image_filter_eq) (simp add: row_lease_def)
  moreover have "attempt_lease ` (leased_attempts db - {d}) = {l \<in> attempt_lease ` leased_attempts db. fst l \<noteq> Some (ob_id b)}"
    unfolding other_leases(1)[OF L, symmetric] by (rule image_filter_eq) (simp add: attempt_lease_def)
  ultimately have "row_lease ` leased_rows db' = attempt_lease ` leased_attempts db'"
    unfolding r a image_insert same by (simp only: eq)
  then show "outbox_ok db'" using live_leaseD(1)[OF L] base_ok_evolves[OF _ ev] by (simp add: outbox_ok_def)
qed

text \<open>
  A step at \<open>now\<close> by the holder of a reference, or by nobody's, spares every other lease
  that is still live.
\<close>

definition spares :: "time \<Rightarrow> ustr option \<Rightarrow> outbox_db \<Rightarrow> outbox_db \<Rightarrow> bool" where
  "spares now ref db db' \<longleftrightarrow> (\<forall>d \<in> leased_attempts db.
     \<not> lease_due d now \<and> ref \<noteq> Some (stored_ref d) \<longrightarrow> d \<in> leased_attempts db')"

lemma spares_refl [simp]: "spares now ref db db"
  by (simp add: spares_def)

lemma recovers_spares: "recovers now db db1 \<Longrightarrow> leased_attempts db1 \<subseteq> leased_attempts db2 \<Longrightarrow> spares now ref db db2"
  by (auto simp: recovers_def spares_def)

section \<open>Operations on a reference\<close>

lemma validate_live_refD:
  assumes ok: "outbox_ok db" and v: "validate_live_ref host name ref now db = Inr (d, b)"
  shows "live_lease db d b" "dl_host d = host" "dl_connector d = name" "stored_ref d = ref" "\<not> lease_due d now"
proof -
  let ?q = "\<lambda>d. dl_status d = DvLeased \<and> dl_host d = host \<and> dl_connector d = name \<and> stored_ref d = ref"
  have l: "latest (filter ?q (deliveries db)) = Some d" "delivery_row db d = Some b" "ob_status b = ObLeased"
    "\<not> connector_deadline_due [ps_lease_expires_at (dl_private d)] now"
    using v by (simp_all add: validate_live_ref_def split: option.splits if_splits)
  have d: "d \<in> set (deliveries db)" "?q d" using latest_in[OF l(1)] by simp_all
  have "b \<in> set (outbox db)" using l(2) fetchone_in[of _ "outbox db" b]
    by (auto simp: delivery_row_def outbox_by_id_def split: option.splits)
  then show "live_lease db d b"
    using ok d l(2,3) by (simp add: live_lease_def leased_attempts_def leased_rows_def)
  show "dl_host d = host" "dl_connector d = name" "stored_ref d = ref" using d(2) by simp_all
  show "\<not> lease_due d now" using l(4) by (simp add: lease_due_def)
qed

text \<open>What the step of an operation does to the store: it touches no lease but its own.\<close>

definition gives_up :: "delivery \<Rightarrow> outbox_db \<Rightarrow> outbox_db \<Rightarrow> bool" where
  "gives_up d db db' \<longleftrightarrow> evolves db db' \<and> outbox_ok db' \<and> leased_attempts db - {d} \<subseteq> leased_attempts db'
     \<and> holders db' \<subseteq> holders db"

text \<open>
  An operation on a reference either refuses it and leaves the store alone, or runs
  its own step after the reclaim, on the lease behind the reference.
\<close>

lemma with_live_ref_ok:
  assumes ok: "outbox_ok db"
    and step: "\<And>d b db1. outbox_ok db1 \<Longrightarrow> recovers (connector_now E now0) db db1
        \<Longrightarrow> validate_live_ref host name ref (connector_now E now0) db1 = Inr (d, b)
        \<Longrightarrow> \<exists>r db2. f (connector_now E now0) d b db1 = Inr (r, db2) \<and> (db2 = db \<or> gives_up d db1 db2)"
  shows "\<exists>r db'. with_live_ref E host name ref now0 f db = Inr (r, db') \<and> evolves db db' \<and> outbox_ok db'
    \<and> spares (connector_now E now0) (Some ref) db db' \<and> lease_path db db'"
proof (cases "ob_exists db")
  case True
  let ?now = "connector_now E now0"
  obtain n db1 where r: "reclaim_expired_leases E host (Some name) ?now db = Inr (n, db1)" "recovers ?now db db1"
    using reclaim_expired_recovers[OF ok, of E host "Some name" ?now] by auto
  have ok1: "outbox_ok db1" "evolves db db1" using r(2) by (simp_all add: recovers_def)
  show ?thesis
  proof (cases "validate_live_ref host name ref ?now db1")
    case (Inl st)
    then show ?thesis using True r(1) ok by (simp add: with_live_ref_def Let_def)
  next
    case (Inr p)
    obtain d b where p: "p = (d, b)" by fastforce
    from step[OF ok1(1) r(2) Inr[unfolded p]] obtain reply db2
      where f: "f ?now d b db1 = Inr (reply, db2)" "db2 = db \<or> gives_up d db1 db2" by blast
    have "with_live_ref E host name ref now0 f db = Inr (reply, db2)"
      using True r(1) Inr p f(1) by (simp add: with_live_ref_def Let_def)
    moreover have "evolves db db2" "outbox_ok db2"
      using f(2) ok evolves_trans[OF ok1(2)] by (auto simp: gives_up_def)
    moreover have "spares ?now (Some ref) db db2"
      using f(2) validate_live_refD(4)[OF ok1(1) Inr[unfolded p]] r(2)
      by (auto simp: gives_up_def spares_def recovers_def)
    moreover have "lease_path db db2"
      using f(2) lease_path_trans[OF lease_path_recovers[OF r(2)]] lease_path_drop[of db1 db2]
      by (auto simp: gives_up_def)
    ultimately show ?thesis by blast
  qed
qed (simp add: with_live_ref_def ok)

lemma renew_lease_step:
  assumes L: "live_lease db d b"
    and db': "db' = db\<lparr>deliveries := sql_update (\<lambda>x. dl_id x = dl_id d)
          (\<lambda>x. x\<lparr>dl_private := (dl_private d)\<lparr>ps_lease_expires_at := Some until\<rparr>\<rparr>) (deliveries db),
        outbox := sql_update (\<lambda>x. ob_id x = ob_id b \<and> ob_status x = ObLeased)
          (\<lambda>x. x\<lparr>ob_private := (ob_private b)\<lparr>ps_lease_expires_at := Some until\<rparr>,
                 ob_updated_at := now\<rparr>) (outbox db)\<rparr>"
  shows "evolves db db'" "outbox_ok db'"
    "leased_attempts db' = insert (d\<lparr>dl_private := (dl_private d)\<lparr>ps_lease_expires_at := Some until\<rparr>\<rparr>)
       (leased_attempts db - {d})"
proof -
  have st: "dl_status d = DvLeased" "ob_status b = ObLeased"
    using leased_attemptD leased_rowD live_leaseD(2,3)[OF L] by blast+
  have same: "attempt_lease d = row_lease b"
  proof -
    obtain c where "c \<in> leased_rows db" "row_lease c = attempt_lease d" "dl_outbox_id d = Some (ob_id c)"
      "delivery_row db d = Some c" "ps_current_delivery_id (ob_private c) = Some (dl_id d)"
      by (rule attempt_row[OF live_leaseD(1,2)[OF L]])
    then show ?thesis using live_leaseD(4)[OF L] by simp
  qed
  let ?f = "\<lambda>x :: delivery. x\<lparr>dl_private := (dl_private d)\<lparr>ps_lease_expires_at := Some until\<rparr>\<rparr>"
  let ?g = "\<lambda>x :: outbox_row. x\<lparr>ob_private := (ob_private b)\<lparr>ps_lease_expires_at := Some until\<rparr>, ob_updated_at := now\<rparr>"
  have pb: "x \<in> set (outbox db) \<Longrightarrow> (ob_id x = ob_id b \<and> ob_status x = ObLeased) = (x = b)" for x
    using lease_row_sel[OF L] st by auto
  have f: "attempt_follows d (?f d)" "dl_status (?f d) = DvLeased"
    using st by (simp_all add: attempt_follows_def closed_attempt_def)
  have g: "row_follows b (?g b)" "ob_status (?g b) = ObLeased"
    using st by (simp_all add: row_follows_def)
  have eq: "attempt_lease (?f d) = row_lease (?g b)"
    using same by (simp add: attempt_lease_def row_lease_def)
  note k = keep_lease[where f = ?f and g = ?g, OF L lease_attempt_sel[OF L] pb f g eq db']
  show "evolves db db'" by (rule k(1))
  show "outbox_ok db'" by (rule k(2))
  show "leased_attempts db' = insert (d\<lparr>dl_private := (dl_private d)\<lparr>ps_lease_expires_at := Some until\<rparr>\<rparr>)
       (leased_attempts db - {d})" by (rule k(4))
qed

lemma supersede_siblings_ok:
  assumes ok: "outbox_ok db"
  shows "evolves db (supersede_siblings b now db)" "outbox_ok (supersede_siblings b now db)"
    "leased_attempts (supersede_siblings b now db) = leased_attempts db"
proof -
  let ?g = "ps_migration_group (ob_private b)"
  let ?p = "\<lambda>x. ob_id x \<noteq> ob_id b \<and> ob_status x = ObLeased \<and> ps_migration_group (ob_private x) = ?g"
  let ?h = "\<lambda>x :: outbox_row. x\<lparr>ob_private := migration_private_state (ob_private x) ?g False True\<rparr>"
  define db1 where "db1 = db\<lparr>outbox := sql_update (\<lambda>x. ob_id x \<noteq> ob_id b \<and> pollable_status (ob_status x)
        \<and> ps_migration_group (ob_private x) = ?g)
      (\<lambda>x. x\<lparr>ob_status := ObSuperseded, ob_next_attempt_at := None, ob_updated_at := now\<rparr>) (outbox db)\<rparr>"
  define db2 where "db2 = db1\<lparr>outbox := sql_update ?p ?h (outbox db1)\<rparr>"
  have c1: "calm db db1"
    unfolding db1_def by (rule calm_outbox) (auto simp: row_follows_def pollable_status_def open_status_def)
  have ok1: "outbox_ok db1" by (rule outbox_ok_calm[OF ok c1])
  have e2: "evolves db1 db2" unfolding db2_def by (rule evolves_outbox) (simp add: row_follows_def)
  have rows: "leased_rows db2 = (\<lambda>x. if ?p x then ?h x else x) ` leased_rows db1"
    by (auto simp: db2_def leased_rows_def set_sql_update image_iff)
  have same: "row_lease (if ?p x then ?h x else x) = row_lease x" for x
    by (simp add: row_lease_def migration_private_state_def)
  have "row_lease ` leased_rows db2 = row_lease ` leased_rows db1"
    unfolding rows image_image same by (rule refl)
  then have ok2: "outbox_ok db2" using ok1 base_ok_evolves[OF _ e2] by (simp add: outbox_ok_def db2_def)
  have "supersede_siblings b now db = (if ?g = [] then db else db2)"
    by (simp add: supersede_siblings_def Let_def db1_def db2_def)
  then show "evolves db (supersede_siblings b now db)" "outbox_ok (supersede_siblings b now db)"
    "leased_attempts (supersede_siblings b now db) = leased_attempts db"
    using ok ok2 c1 evolves_trans[OF _ e2] by (auto simp: calm_def db2_def)
qed

text \<open>Closing the attempt, moving the row, and telling the plan.\<close>

lemma release_lease_step:
  assumes L: "live_lease db d b" and st: "st \<noteq> ObLeased" "dst \<noteq> DvLeased"
    and db2: "db2 = outbox_set (ob_id b) ObLeased
        (\<lambda>x. x\<lparr>ob_status := st, ob_next_attempt_at := at, ob_updated_at := now, ob_private := private\<rparr>)
        (db\<lparr>deliveries := sql_update (\<lambda>x. dl_id x = dl_id d \<and> dl_status x = DvLeased)
          (\<lambda>x. x\<lparr>dl_status := dst, dl_response := rsp, dl_delivered_at := Some now\<rparr>) (deliveries db)\<rparr>)"
  shows "evolves db db2" "outbox_ok db2" "leased_rows db2 = leased_rows db - {b}"
    "leased_attempts db2 = leased_attempts db - {d}"
proof -
  have s: "dl_status d = DvLeased" "ob_status b = ObLeased"
    using leased_attemptD leased_rowD live_leaseD(2,3)[OF L] by blast+
  let ?f = "\<lambda>x :: delivery. x\<lparr>dl_status := dst, dl_response := rsp, dl_delivered_at := Some now\<rparr>"
  let ?g = "\<lambda>x :: outbox_row. x\<lparr>ob_status := st, ob_next_attempt_at := at, ob_updated_at := now, ob_private := private\<rparr>"
  have pd: "x \<in> set (deliveries db) \<Longrightarrow> (dl_id x = dl_id d \<and> dl_status x = DvLeased) = (x = d)" for x
    using lease_attempt_sel[OF L] s by auto
  have pb: "x \<in> set (outbox db) \<Longrightarrow> (ob_id x = ob_id b \<and> ob_status x = ObLeased) = (x = b)" for x
    using lease_row_sel[OF L] s by auto
  have f: "attempt_follows d (?f d)" "dl_status (?f d) \<noteq> DvLeased"
    using s st by (simp_all add: attempt_follows_def closed_attempt_def)
  have g: "row_follows b (?g b)" "ob_status (?g b) \<noteq> ObLeased"
    using s st by (simp_all add: row_follows_def open_status_def)
  have eq: "db2 = db\<lparr>deliveries := sql_update (\<lambda>x. dl_id x = dl_id d \<and> dl_status x = DvLeased) ?f (deliveries db),
      outbox := sql_update (\<lambda>x. ob_id x = ob_id b \<and> ob_status x = ObLeased) ?g (outbox db)\<rparr>"
    by (simp add: db2 outbox_set_def)
  note k = finish_lease[where f = ?f and g = ?g, OF L pd pb f g eq]
  show "evolves db db2" by (rule k(1))
  show "outbox_ok db2" by (rule k(2))
  show "leased_rows db2 = leased_rows db - {b}" by (rule k(3))
  show "leased_attempts db2 = leased_attempts db - {d}" by (rule k(4))
qed

lemma close_lease_step:
  assumes L: "live_lease db d b" and st: "st \<noteq> ObLeased" "dst \<noteq> DvLeased"
  shows "evolves db (move_row b st at now private (close_delivery d dst rsp now db))"
    "outbox_ok (move_row b st at now private (close_delivery d dst rsp now db))"
    "leased_rows (move_row b st at now private (close_delivery d dst rsp now db)) = leased_rows db - {b}"
    "leased_attempts (move_row b st at now private (close_delivery d dst rsp now db)) = leased_attempts db - {d}"
proof -
  let ?f = "\<lambda>x :: delivery. x\<lparr>dl_status := dst, dl_response := rsp, dl_delivered_at := Some now\<rparr>"
  let ?g = "\<lambda>x :: outbox_row. x\<lparr>ob_status := st, ob_next_attempt_at := at, ob_updated_at := now, ob_private := private\<rparr>"
  have s: "dl_status d = DvLeased" "ob_status b = ObLeased"
    using leased_attemptD leased_rowD live_leaseD(2,3)[OF L] by blast+
  have f: "attempt_follows d (?f d)" "dl_status (?f d) \<noteq> DvLeased"
    using s st by (simp_all add: attempt_follows_def closed_attempt_def)
  have g: "row_follows b (?g b)" "ob_status (?g b) \<noteq> ObLeased"
    using s st by (simp_all add: row_follows_def open_status_def)
  have eq: "move_row b st at now private (close_delivery d dst rsp now db)
      = db\<lparr>deliveries := sql_update (\<lambda>x. dl_id x = dl_id d) ?f (deliveries db),
          outbox := sql_update (\<lambda>x. ob_id x = ob_id b) ?g (outbox db)\<rparr>"
    by (simp add: move_row_def close_delivery_def)
  note k = finish_lease[where f = ?f and g = ?g, OF L lease_attempt_sel[OF L] lease_row_sel[OF L] f g eq]
  show "evolves db (move_row b st at now private (close_delivery d dst rsp now db))" by (rule k(1))
  show "outbox_ok (move_row b st at now private (close_delivery d dst rsp now db))" by (rule k(2))
  show "leased_rows (move_row b st at now private (close_delivery d dst rsp now db)) = leased_rows db - {b}" by (rule k(3))
  show "leased_attempts (move_row b st at now private (close_delivery d dst rsp now db)) = leased_attempts db - {d}" by (rule k(4))
qed

lemma or_gives_up:
  "\<exists>r db2. m = Inr (r, db2) \<and> gives_up d db1 db2
    \<Longrightarrow> \<exists>r db2. m = Inr (r, db2) \<and> (db2 = db \<or> gives_up d db1 db2)"
  by blast

lemma then_update_plan:
  assumes "gives_up d db db2"
  shows "\<exists>r db'. bind_result (update_presentation_plan_after_outbox E i st now ttl db2) (\<lambda>db3. Inr (reply, db3)) = Inr (r, db')
    \<and> gives_up d db db'"
proof -
  have ok: "outbox_ok db2" "evolves db db2" using assms by (simp_all add: gives_up_def)
  obtain db3 where "update_presentation_plan_after_outbox E i st now ttl db2 = Inr db3" "calm db2 db3"
    using update_plan_calm[of db2 E i st now ttl] ok(1) by (auto simp: outbox_ok_def)
  then show ?thesis using assms evolves_trans[OF ok(2)] outbox_ok_calm[OF ok(1)] by (auto simp: gives_up_def calm_def holders_def)
qed

section \<open>Every operation keeps the contract\<close>

text \<open>
  The interface: from a store that satisfies the invariant the operation returns,
  the store evolves, the invariant holds again, and the live leases of others are
  spared.
\<close>

locale outbox_operation =
  fixes step :: "outbox_db \<Rightarrow> ('r \<times> outbox_db) result"
    and now :: time
    and ref :: "ustr option"
  assumes step_ok: "outbox_ok db \<Longrightarrow>
    \<exists>r db'. step db = Inr (r, db') \<and> evolves db db' \<and> outbox_ok db' \<and> spares now ref db db' \<and> lease_path db db'"
begin

lemma never_raises: "outbox_ok db \<Longrightarrow> step db \<noteq> Inl e"
  using step_ok by fastforce

lemma keeps: "outbox_ok db \<Longrightarrow> step db = Inr (r, db') \<Longrightarrow> evolves db db' \<and> outbox_ok db' \<and> spares now ref db db' \<and> lease_path db db'"
  using step_ok by fastforce

end

lemma poll_total:
  assumes "outbox_ok db"
  shows "\<exists>r db'. poll_connector_outbox E host name limit ls m now db = Inr (r, db') \<and> evolves db db' \<and> outbox_ok db'
    \<and> spares (connector_now E now) None db db' \<and> lease_path db db'"
proof (cases "ob_exists db")
  case True
  obtain db1 items db' where p: "poll_connector_outbox E host name limit ls m now db = Inr (Some items, db')"
    "recovers (connector_now E now) db db1" "evolves db1 db'" "outbox_ok db'"
    "leased_attempts db1 \<subseteq> leased_attempts db'" "lease_path db1 db'"
    using poll_ok[OF assms True refl refl, of E host name limit ls m now] by blast
  have "evolves db db'" using p(2,3) evolves_trans by (auto simp: recovers_def)
  moreover have "spares (connector_now E now) None db db'" by (rule recovers_spares[OF p(2,5)])
  moreover have "lease_path db db'" by (rule lease_path_trans[OF lease_path_recovers[OF p(2)] p(6)])
  ultimately show ?thesis using p(1,4) by blast
qed (simp add: poll_connector_outbox_def assms)

lemma renew_total:
  assumes "outbox_ok db"
  shows "\<exists>r db'. renew_connector_delivery E host name ref ls now db = Inr (r, db') \<and> evolves db db' \<and> outbox_ok db'
    \<and> spares (connector_now E now) (Some ref) db db' \<and> lease_path db db'"
  unfolding renew_connector_delivery_def
proof (rule with_live_ref_ok[OF assms])
  fix d b db1
  assume "outbox_ok db1" "validate_live_ref host name ref (connector_now E now) db1 = Inr (d, b)"
  then have L: "live_lease db1 d b" by (rule validate_live_refD(1))
  note k = renew_lease_step[OF L refl]
  show "\<exists>r db2. renew_delivery_step ls (connector_now E now) d b db1 = Inr (r, db2) \<and> (db2 = db \<or> gives_up d db1 db2)"
    unfolding renew_delivery_step_def Let_def by (intro exI conjI, rule refl, rule disjI2) (use k live_leaseD(2)[OF L] in \<open>auto simp: gives_up_def holders_def\<close>)
qed

lemma release_total:
  assumes "outbox_ok db"
  shows "\<exists>r db'. release_connector_delivery E host name ref now db = Inr (r, db') \<and> evolves db db' \<and> outbox_ok db'
    \<and> spares (connector_now E now) (Some ref) db db' \<and> lease_path db db'"
  unfolding release_connector_delivery_def
proof (rule with_live_ref_ok[OF assms], goal_cases)
  case (1 d b db1)
  then have L: "live_lease db1 d b" by (intro validate_live_refD(1))
  note k = release_lease_step[OF L _ _ refl]
  show ?case
    unfolding Let_def by (rule or_gives_up, rule then_update_plan) (use k in \<open>auto simp: gives_up_def holders_def\<close>)
qed

lemma ack_total:
  assumes "outbox_ok db"
  shows "\<exists>r db'. ack_connector_delivery E host name ref response ttl now db = Inr (r, db') \<and> evolves db db' \<and> outbox_ok db'
    \<and> spares (connector_now E now) (Some ref) db db' \<and> lease_path db db'"
  unfolding ack_connector_delivery_def
proof (rule with_live_ref_ok[OF assms], goal_cases)
  case (1 d b db1)
  then have L: "live_lease db1 d b" by (intro validate_live_refD(1))
  note k = close_lease_step[OF L]
  show ?case
  proof (cases "ob_kind b = FinalReady")
    case False
    show ?thesis
      unfolding ack_delivery_step_def Let_def if_not_P[OF False]
    proof (rule or_gives_up, rule then_update_plan)
      let ?db2 = "move_row b ObDelivered None (connector_now E now) (connector_private_clear_current (ob_private b))
        (close_delivery d DvDelivered ((plain_response (lit ''acknowledged''))\<lparr>dr_body := ce_public_response E response\<rparr>)
          (connector_now E now) db1)"
      have ok: "outbox_ok ?db2" and ev: "evolves db1 ?db2"
        and left: "leased_attempts ?db2 = leased_attempts db1 - {d}" by (rule k; simp)+
      show "gives_up d db1 (supersede_siblings b (connector_now E now) ?db2)"
        using supersede_siblings_ok[OF ok] evolves_trans[OF ev] left by (auto simp: gives_up_def holders_def)
    qed
  qed (auto simp: ack_delivery_step_def)
qed

lemma retry_total:
  assumes "outbox_ok db"
  shows "\<exists>r db'. retry_connector_delivery E failing host name ref reason response at delay m now db = Inr (r, db')
    \<and> evolves db db' \<and> outbox_ok db'
    \<and> spares (connector_now E now) (Some ref) db db' \<and> lease_path db db'"
  unfolding retry_connector_delivery_def
proof (rule with_live_ref_ok[OF assms], goal_cases)
  case (1 d b db1)
  then have L: "live_lease db1 d b" by (intro validate_live_refD(1))
  note k = close_lease_step[OF L]
  show ?case
    unfolding retry_delivery_step_def Let_def case_prod_beta
    by (rule or_gives_up, rule then_update_plan) (use k in \<open>auto simp: gives_up_def holders_def\<close>)
qed

lemma reclaim_total:
  assumes "outbox_ok db"
  shows "\<exists>r db'. reclaim_expired_connector_leases E host name now db = Inr (r, db') \<and> evolves db db' \<and> outbox_ok db'
    \<and> spares (connector_now E now) None db db' \<and> lease_path db db'"
proof (cases "ob_exists db")
  case True
  obtain n db1 where "reclaim_expired_leases E host name (connector_now E now) db = Inr (n, db1)"
    "recovers (connector_now E now) db db1"
    using reclaim_expired_recovers[OF assms, of E host name "connector_now E now"] by auto
  then show ?thesis using True by (auto simp: reclaim_expired_connector_leases_def recovers_def spares_def intro: lease_path_recovers)
qed (simp add: reclaim_expired_connector_leases_def assms)

lemma exhaust_total:
  assumes "outbox_ok db"
  shows "\<exists>r db'. exhaust_connector_retries E host m now dry db = Inr (r, db') \<and> evolves db db' \<and> outbox_ok db'
    \<and> spares (connector_now E now) None db db' \<and> lease_path db db'"
proof (cases "ob_exists db")
  case True
  let ?t = "connector_now E now"
  obtain n db1 where r: "reclaim_expired_leases E host None ?t db = Inr (n, db1)" "recovers ?t db db1"
    using reclaim_expired_recovers[OF assms, of E host None ?t] by auto
  have ok1: "outbox_ok db1" "evolves db db1" using r(2) by (simp_all add: recovers_def)
  have c: "calm db1 (snd (exhaust_retryable E host None (max 1 m) ?t db1))" by (rule exhaust_calm[OF ok1(1)])
  have "evolves db (snd (exhaust_retryable E host None (max 1 m) ?t db1))"
    using evolves_trans[OF ok1(2)] c by (simp add: calm_def)
  moreover have "outbox_ok (snd (exhaust_retryable E host None (max 1 m) ?t db1))" by (rule outbox_ok_calm[OF ok1(1) c])
  moreover have "spares ?t None db (snd (exhaust_retryable E host None (max 1 m) ?t db1))"
    by (rule recovers_spares[OF r(2)]) (use c in \<open>simp add: calm_def\<close>)
  moreover have "lease_path db (snd (exhaust_retryable E host None (max 1 m) ?t db1))"
    by (rule lease_path_trans[OF lease_path_recovers[OF r(2)] lease_path_calm[OF c]])
  ultimately show ?thesis using True r(1) assms by (simp add: exhaust_connector_retries_def Let_def case_prod_beta)
qed (simp add: exhaust_connector_retries_def assms)

interpretation polling: outbox_operation "poll_connector_outbox E host name limit ls m now" "connector_now E now" None
  for E host name limit ls m now
  by unfold_locales (rule poll_total)

interpretation renewing: outbox_operation "renew_connector_delivery E host name ref ls now" "connector_now E now" "Some ref"
  for E host name ref ls now
  by unfold_locales (rule renew_total)

interpretation releasing: outbox_operation "release_connector_delivery E host name ref now" "connector_now E now" "Some ref"
  for E host name ref now
  by unfold_locales (rule release_total)

interpretation acking: outbox_operation "ack_connector_delivery E host name ref response ttl now" "connector_now E now" "Some ref"
  for E host name ref response ttl now
  by unfold_locales (rule ack_total)

interpretation retrying: outbox_operation "retry_connector_delivery E failing host name ref reason response at delay m now" "connector_now E now" "Some ref"
  for E failing host name ref reason response at delay m now
  by unfold_locales (rule retry_total)

interpretation reclaiming: outbox_operation "reclaim_expired_connector_leases E host name now" "connector_now E now" None
  for E host name now
  by unfold_locales (rule reclaim_total)

interpretation exhausting: outbox_operation "exhaust_connector_retries E host m now dry" "connector_now E now" None
  for E host m now dry
  by unfold_locales (rule exhaust_total)

end
