(* ===== verification/ExampleOutbox.thy ===== *)
theory ExampleOutbox
  imports OutboxOps
begin

text \<open>The concrete queue, leases and calls the outbox witnesses are stated on.\<close>

definition ex_connector :: connector_env where
  "ex_connector = \<lparr>ce_utc_timestamp = 100 * second, ce_lease_token = (\<lambda>i. lit ''tok''),
     ce_public_ref = (\<lambda>i. lit ''ref'' @ [48 + i]), ce_public_payload = (\<lambda>p. p), ce_public_response = (\<lambda>p. p),
     ce_public_reason = (\<lambda>_. lit ''unknown''), ce_label = (\<lambda>s. s), ce_diagnostic_text = (\<lambda>_. []),
     ce_final_digest = (\<lambda>_ _ _. lit ''d'')\<rparr>"

definition ex_row :: "nat \<Rightarrow> delivery_kind \<Rightarrow> outbox_status \<Rightarrow> private_state \<Rightarrow> outbox_row" where
  "ex_row i kind st private =
     \<lparr>ob_id = i, ob_host = lit ''h'', ob_connector = lit ''c'', ob_key = lit ''k'', ob_kind = kind,
      ob_turn_id = None, ob_revision = None, ob_ordering_key = lit ''o'', ob_status = st, ob_payload = [],
      ob_private = private, ob_created_at = 0, ob_updated_at = 100 * second, ob_next_attempt_at = None\<rparr>"

definition ex_lease :: "time \<Rightarrow> private_state" where
  "ex_lease until = connector_private_with_lease no_private (Some 1) 1 (lit ''tok'') until (lit ''ref1'')"

definition ex_attempt :: "nat \<Rightarrow> delivery_status \<Rightarrow> time \<Rightarrow> delivery" where
  "ex_attempt i st until =
     \<lparr>dl_id = 1, dl_outbox_id = Some i, dl_host = lit ''h'', dl_connector = lit ''c'', dl_key = lit ''k'',
      dl_attempt = 1, dl_status = st, dl_response = plain_response [], dl_private = ex_lease until,
      dl_created_at = 100 * second, dl_delivered_at = None\<rparr>"

definition ex_queue :: "outbox_row list \<Rightarrow> delivery list \<Rightarrow> outbox_db" where
  "ex_queue bs ds = \<lparr>ob_exists = True, outbox = bs, deliveries = ds, delivery_seq = length ds,
     plans = [], jobs = []\<rparr>"

text \<open>One row that waits, and the same row leased for a minute.\<close>

definition ex_waiting :: outbox_db where
  "ex_waiting = ex_queue [ex_row 7 FinalPart ObQueued no_private] []"

definition ex_leased :: outbox_db where
  "ex_leased = ex_queue [ex_row 7 FinalPart ObLeased (ex_lease (160 * second))]
     [ex_attempt 7 DvLeased (160 * second)]"

lemma ex_queues_ok: "outbox_ok ex_waiting" "outbox_ok ex_leased"
  by (simp_all add: outbox_ok_def base_ok_def ex_waiting_def ex_leased_def ex_queue_def ex_row_def ex_attempt_def
      leased_rows_def leased_attempts_def unique_key_def row_lease_def attempt_lease_def ex_lease_def
      connector_private_with_lease_def Collect_conv_if)

lemma ex_poll:
  "poll_connector_outbox ex_connector (lit ''h'') (lit ''c'') 1 60 None None ex_waiting =
     Inr (Some [\<lparr>pi_outbox_id = 7, pi_delivery_id = 1, pi_host = lit ''h'', pi_name = lit ''c'', pi_key = lit ''k'',
        pi_attempt = 1, pi_lease_token = lit ''tok'', pi_leased_until = 160 * second, pi_ref = lit ''ref1'',
        pi_available_at = 100 * second, pi_payload = []\<rparr>], ex_leased)"
  by code_simp

lemma ex_poll_again:
  "poll_connector_outbox ex_connector (lit ''h'') (lit ''c'') 1 60 None (Some (110 * second)) ex_leased = Inr (Some [], ex_leased)"
  by code_simp

end
