(* ===== verification/OutboxRuns.thy ===== *)
theory OutboxRuns
  imports ExampleOutbox
begin

text \<open>
  Runs of the outbox: any interleaving of the connectors' polls, renewals, releases,
  acknowledgements, failures and deferrals and of the two maintenance passes.  A step is
  labelled with its instant and with the reference it acts on, if any.  The theorems here
  hold of every store a run reaches.  \<open>connector.retry\<close> and the enqueueing of anchors come
  in the theory of histories, which builds on these runs.
\<close>

section \<open>Steps\<close>

inductive outbox_step :: "time \<Rightarrow> ustr option \<Rightarrow> outbox_db \<Rightarrow> outbox_db \<Rightarrow> bool" where
  step_poll: "poll_connector_outbox E host name limit ls m now db = Inr (items, db')
    \<Longrightarrow> outbox_step (connector_now E now) None db db'"
| step_renew: "renew_connector_delivery E host name ref ls now db = Inr (r, db')
    \<Longrightarrow> outbox_step (connector_now E now) (Some ref) db db'"
| step_release: "release_connector_delivery E host name ref now db = Inr (r, db')
    \<Longrightarrow> outbox_step (connector_now E now) (Some ref) db db'"
| step_ack: "ack_connector_delivery E host name ref response ttl now db = Inr (r, db')
    \<Longrightarrow> outbox_step (connector_now E now) (Some ref) db db'"
| step_fail: "fail_connector_delivery E host name ref reason response at delay m now db = Inr (r, db')
    \<Longrightarrow> outbox_step (connector_now E now) (Some ref) db db'"
| step_defer: "defer_connector_delivery E host name ref reason response at delay now db = Inr (r, db')
    \<Longrightarrow> outbox_step (connector_now E now) (Some ref) db db'"
| step_reclaim: "reclaim_expired_connector_leases E host nm now db = Inr (n, db')
    \<Longrightarrow> outbox_step (connector_now E now) None db db'"
| step_exhaust: "exhaust_connector_retries E host limit now dry db = Inr (n, db')
    \<Longrightarrow> outbox_step (connector_now E now) None db db'"

inductive_cases outbox_stepE [elim]: "outbox_step t ref db db'"

definition outbox_moves :: "outbox_db \<Rightarrow> outbox_db \<Rightarrow> bool" where
  "outbox_moves db db' \<longleftrightarrow> (\<exists>t ref. outbox_step t ref db db')"

lemmas outbox_operations_keep =
  polling.keeps renewing.keeps releasing.keeps acking.keeps retrying.keeps reclaiming.keeps exhausting.keeps

lemma outbox_step_keeps:
  assumes "outbox_step t ref db db'" "outbox_ok db"
  shows "evolves db db' \<and> outbox_ok db' \<and> spares t ref db db' \<and> lease_path db db'"
  using assms
proof (cases rule: outbox_step.cases)
  case (step_poll E host name limit ls m now items)
  show ?thesis unfolding step_poll(1,2) by (rule polling.keeps[OF assms(2) step_poll(3)])
next
  case (step_renew E host name ref ls now r)
  show ?thesis unfolding step_renew(1,2) by (rule renewing.keeps[OF assms(2) step_renew(3)])
next
  case (step_release E host name ref now r)
  show ?thesis unfolding step_release(1,2) by (rule releasing.keeps[OF assms(2) step_release(3)])
next
  case (step_ack E host name ref response ttl now r)
  show ?thesis unfolding step_ack(1,2) by (rule acking.keeps[OF assms(2) step_ack(3)])
next
  case (step_fail E host name ref reason response at delay m now r)
  show ?thesis unfolding step_fail(1,2) by (rule retrying.keeps[OF assms(2) step_fail(3)[unfolded fail_connector_delivery_def]])
next
  case (step_defer E host name ref reason response at delay now r)
  show ?thesis unfolding step_defer(1,2) by (rule retrying.keeps[OF assms(2) step_defer(3)[unfolded defer_connector_delivery_def]])
next
  case (step_reclaim E host nm now n)
  show ?thesis unfolding step_reclaim(1,2) by (rule reclaiming.keeps[OF assms(2) step_reclaim(3)])
next
  case (step_exhaust E host limit now dry n)
  show ?thesis unfolding step_exhaust(1,2) by (rule exhausting.keeps[OF assms(2) step_exhaust(3)])
qed

lemma outbox_run_keeps:
  assumes "outbox_moves\<^sup>*\<^sup>* db db'" "outbox_ok db"
  shows "evolves db db' \<and> outbox_ok db'"
  using assms
proof (induction rule: rtranclp_induct)
  case (step b c)
  then obtain t ref where "outbox_step t ref b c" by (auto simp: outbox_moves_def)
  with step outbox_step_keeps show ?case using evolves_trans by blast
qed simp

section \<open>What reachable stores satisfy\<close>

text \<open>
  C26: In every store that polls, renewals, releases, acknowledgements, failures, deferrals and
  maintenance passes reach from a sound one, in any order, a row is
  leased exactly when one attempt of it is, and there is only that one: the attempt
  names the row, the row names the attempt, and both carry the same reference and
  the same deadline, for the same host and connector.
\<close>

theorem leases_are_exclusive:
  assumes "outbox_ok db" "outbox_moves\<^sup>*\<^sup>* db db'"
  shows "(\<forall>b \<in> set (outbox db'). ob_status b = ObLeased \<longrightarrow>
      (\<exists>!d. d \<in> set (deliveries db') \<and> dl_status d = DvLeased \<and> dl_outbox_id d = Some (ob_id b)))
    \<and> (\<forall>d \<in> set (deliveries db'). dl_status d = DvLeased \<longrightarrow>
      (\<exists>b \<in> set (outbox db'). ob_status b = ObLeased \<and> dl_outbox_id d = Some (ob_id b)
         \<and> ps_current_delivery_id (ob_private b) = Some (dl_id d)
         \<and> ob_host b = dl_host d \<and> ob_connector b = dl_connector d
         \<and> ps_public_ref (ob_private b) = ps_public_ref (dl_private d)
         \<and> ps_lease_expires_at (ob_private b) = ps_lease_expires_at (dl_private d)))"
proof -
  have ok: "outbox_ok db'" using outbox_run_keeps[OF assms(2,1)] by blast
  have "\<exists>!d. d \<in> set (deliveries db') \<and> dl_status d = DvLeased \<and> dl_outbox_id d = Some (ob_id b)"
    if "b \<in> set (outbox db')" "ob_status b = ObLeased" for b
  proof -
    have "b \<in> leased_rows db'" using that by (simp add: leased_rows_def)
    from leased_match(2)[OF ok this] obtain d where d: "d \<in> leased_attempts db'" "row_lease b = attempt_lease d" by blast
    then have "dl_outbox_id d = Some (ob_id b)" by (simp add: row_lease_def attempt_lease_def)
    moreover have "e = d" if "e \<in> leased_attempts db'" "dl_outbox_id e = Some (ob_id b)" for e
      using same_attempt[OF ok that(1) d(1)] that(2) calculation by simp
    ultimately show ?thesis using d(1) by (auto simp: leased_attempts_def)
  qed
  moreover have "\<exists>b \<in> set (outbox db'). ob_status b = ObLeased \<and> dl_outbox_id d = Some (ob_id b)
         \<and> ps_current_delivery_id (ob_private b) = Some (dl_id d)
         \<and> ob_host b = dl_host d \<and> ob_connector b = dl_connector d
         \<and> ps_public_ref (ob_private b) = ps_public_ref (dl_private d)
         \<and> ps_lease_expires_at (ob_private b) = ps_lease_expires_at (dl_private d)"
    if "d \<in> set (deliveries db')" "dl_status d = DvLeased" for d
  proof -
    have "d \<in> leased_attempts db'" using that by (simp add: leased_attempts_def)
    from leased_match(1)[OF ok this] obtain b where "b \<in> leased_rows db'" "row_lease b = attempt_lease d" by blast
    then show ?thesis by (auto simp: leased_rows_def row_lease_def attempt_lease_def)
  qed
  ultimately show ?thesis by blast
qed

text \<open>
  C27: Leaving everything but leases out, every run is a run of the lease table: a row is
  granted to a fresh attempt only while no attempt holds it, attempts are numbered
  upwards, and otherwise leases are only given up.
\<close>

theorem runs_refine_lease_table:
  assumes "outbox_ok db" "outbox_moves\<^sup>*\<^sup>* db db'"
  shows "lease_move\<^sup>*\<^sup>* (lease_table db) (lease_table db')"
  using assms(2)
proof (induction rule: rtranclp_induct)
  case (step b c)
  have "outbox_ok b" using outbox_run_keeps[OF step(1) assms(1)] by blast
  with step(2) have "lease_path b c" using outbox_step_keeps by (auto simp: outbox_moves_def)
  with step.IH show ?case by (simp add: lease_path_def)
qed simp

section \<open>A concrete run\<close>

lemma ex_moves: "outbox_moves\<^sup>*\<^sup>* ex_waiting ex_leased"
  using step_poll[OF ex_poll] by (intro r_into_rtranclp) (auto simp: outbox_moves_def)

theorem leases_are_exclusive_witness:
  "\<exists>!d. d \<in> set (deliveries ex_leased) \<and> dl_status d = DvLeased \<and> dl_outbox_id d = Some 7"
  using leases_are_exclusive[OF ex_queues_ok(1) ex_moves]
  by (simp add: ex_leased_def ex_queue_def ex_row_def)

theorem runs_refine_lease_table_witness:
  "lease_move\<^sup>*\<^sup>* (lease_table ex_waiting) (lease_table ex_leased)
    \<and> lease_table ex_waiting = ({}, 0) \<and> lease_table ex_leased = ({(Some 7, 1)}, 1)"
proof -
  have "leased_attempts ex_waiting = {}" "leased_attempts ex_leased = {ex_attempt 7 DvLeased (160 * second)}"
    by (auto simp: leased_attempts_def ex_waiting_def ex_leased_def ex_queue_def ex_attempt_def)
  then have "lease_table ex_waiting = ({}, 0)" "lease_table ex_leased = ({(Some 7, 1)}, 1)"
    by (simp_all add: lease_table_def holders_def ex_attempt_def ex_waiting_def ex_leased_def ex_queue_def)
  with runs_refine_lease_table[OF ex_queues_ok(1) ex_moves] show ?thesis by blast
qed

end
