(* ===== verification/OutboxHistory.thy ===== *)
theory OutboxHistory
  imports FinalAnchors OutboxRuns
begin

text \<open>
  Histories of the outbox.  Beside the connectors' calls and the maintenance passes, a
  history holds \<open>connector.retry\<close> and the enqueueing of a final's anchor, which supersedes
  the work of the turn's other revisions and may start the same revision over.  The
  theorems say what each of them can do to leases, settled rows and closed attempts, and
  that nothing else does.
\<close>

section \<open>Events\<close>

datatype outbox_cause =
    Called "ustr option"
  | FinalRetried ustr "ustr option"
  | FinalEnqueued ustr ustr ustr "ustr option"

text \<open>
  The rows that an event is about: a retry is about the row of its key; enqueueing an anchor
  is about the anchor of its key, the rows of the turn's other revisions, and the jobs of
  all plans of the turn.  A call on a reference may move any open row of its queue, and
  is about none in this sense.
\<close>

fun touched :: "outbox_db \<Rightarrow> outbox_cause \<Rightarrow> nat list" where
  "touched db (Called ref) = []"
| "touched db (FinalRetried host key) =
     map ob_id (filter (\<lambda>b. ob_host b = host \<and> ob_connector b = turn_final_name \<and> key = Some (ob_key b)) (outbox db))"
| "touched db (FinalEnqueued host turn_id revision key) =
     map ob_id (filter (\<lambda>b. ob_host b = host \<and> ob_connector b = turn_final_name
       \<and> (key = Some (ob_key b) \<or> ob_turn_id b = Some turn_id \<and> ob_revision b \<noteq> Some revision)) (outbox db))
     @ plan_job_ids (map pl_id (filter (turn_plan host turn_id) (plans db))) db"

text \<open>A state pairs the outbox with the last row id that SQLite has given out.\<close>

inductive outbox_event :: "time \<Rightarrow> outbox_cause \<Rightarrow> nat \<times> outbox_db \<Rightarrow> nat \<times> outbox_db \<Rightarrow> bool" where
  event_called: "outbox_step t ref db db' \<Longrightarrow> outbox_event t (Called ref) (n, db) (n, db')"
| event_retried: "retry_final_ready_delivery E A host key identity now db = Inr (reply, db')
    \<Longrightarrow> outbox_event (connector_now E now) (FinalRetried host (retried_key key identity)) (n, db) (n, db')"
| event_enqueued: "ensure_final_ready_anchor E A host turn_id revision now (n, db) = (i, n', db')
    \<Longrightarrow> outbox_event now (FinalEnqueued host turn_id revision
          (map_option (\<lambda>a. final_ready_key (fa_identity a)) (final_ready_payload A host turn_id revision True)))
        (n, db) (n', db')"

inductive_cases outbox_eventE: "outbox_event t cause (n, db) (n', db')"


section \<open>What stays the same\<close>

definition same_work :: "outbox_row \<Rightarrow> outbox_row \<Rightarrow> bool" where
  "same_work b c \<longleftrightarrow> ob_id c = ob_id b \<and> ob_host c = ob_host b \<and> ob_connector c = ob_connector b
     \<and> ob_key c = ob_key b \<and> ob_turn_id c = ob_turn_id b \<and> ob_revision c = ob_revision b
     \<and> ob_ordering_key c = ob_ordering_key b"

definition rows_from :: "nat \<Rightarrow> outbox_db \<Rightarrow> outbox_db \<Rightarrow> bool" where
  "rows_from n db db' \<longleftrightarrow> (\<forall>c \<in> set (outbox db'). ob_id c \<le> n \<longrightarrow> (\<exists>b \<in> set (outbox db). same_work b c))
     \<and> (\<forall>p \<in> set (plans db'). \<exists>q \<in> set (plans db). plan_follows q p) \<and> set (jobs db') \<subseteq> set (jobs db)"


lemma same_work_refl [simp]: "same_work b b"
  by (simp add: same_work_def)

lemma same_work_trans: "same_work a b \<Longrightarrow> same_work b c \<Longrightarrow> same_work a c"
  by (simp add: same_work_def)


lemma rows_from_refl [simp]: "rows_from n db db"
  by (auto simp: rows_from_def intro: follows_refl same_work_refl)

lemma rows_from_trans:
  assumes "rows_from n a b" "rows_from m b c" "n \<le> m"
  shows "rows_from n a c"
proof -
  have "\<exists>x \<in> set (outbox a). same_work x z" if z: "z \<in> set (outbox c)" "ob_id z \<le> n" for z
  proof -
    obtain y where y: "y \<in> set (outbox b)" "same_work y z" using assms(2,3) z by (auto simp: rows_from_def)
    then obtain x where "x \<in> set (outbox a)" "same_work x y" using assms(1) z(2) by (auto simp: rows_from_def same_work_def)
    with y(2) same_work_trans show ?thesis by blast
  qed
  moreover have "\<exists>x \<in> set (plans a). plan_follows x z" if z: "z \<in> set (plans c)" for z
    using assms(1,2) z plan_follows_trans unfolding rows_from_def by metis
  ultimately show ?thesis using assms(1,2) by (auto simp: rows_from_def)
qed


lemma plan_job_ids_iff:
  "i \<in> set (plan_job_ids ids db) \<longleftrightarrow> (\<exists>j \<in> set (jobs db). jb_plan_id j \<in> set ids \<and> jb_outbox_id j = Some i)"
  by (force simp: plan_job_ids_def List.map_filter_def)

lemma attempt_among_iff: "attempt_among ids d \<longleftrightarrow> (\<exists>i \<in> set ids. dl_outbox_id d = Some i)"
  by (auto simp: attempt_among_def split: option.split)

lemma touched_from:
  assumes f: "rows_from n db db'" and i: "i \<in> set (touched db' cause)"
    and n: "i \<le> n \<or> (\<forall>c \<in> set (outbox db'). ob_id c \<le> n)"
  shows "i \<in> set (touched db cause)"
proof (cases cause)
  case (FinalRetried h k)
  then obtain c where c: "c \<in> set (outbox db')" "ob_id c = i" "ob_host c = h" "ob_connector c = turn_final_name" "k = Some (ob_key c)"
    using i by auto
  then obtain b where "b \<in> set (outbox db)" "same_work b c" using f n by (auto simp: rows_from_def)
  with c FinalRetried show ?thesis by (auto simp: same_work_def)
next
  case (FinalEnqueued h t r k)
  then consider (row) c where "c \<in> set (outbox db')" "ob_id c = i" "ob_host c = h" "ob_connector c = turn_final_name"
      "k = Some (ob_key c) \<or> ob_turn_id c = Some t \<and> ob_revision c \<noteq> Some r"
    | (job) j p where "j \<in> set (jobs db')" "jb_outbox_id j = Some i" "p \<in> set (plans db')" "turn_plan h t p" "jb_plan_id j = pl_id p"
    using i by (auto simp: plan_job_ids_iff)
  then show ?thesis
  proof cases
    case row
    then obtain b where "b \<in> set (outbox db)" "same_work b c" using f n by (auto simp: rows_from_def)
    with row FinalEnqueued show ?thesis by (force simp: same_work_def)
  next
    case job
    then obtain q where q: "q \<in> set (plans db)" "plan_follows q p" using f by (auto simp: rows_from_def)
    then have "turn_plan h t q" "pl_id q = pl_id p" using job(4) by (simp_all add: plan_follows_def turn_plan_def)
    moreover have "j \<in> set (jobs db)" using f job(1) by (auto simp: rows_from_def)
    moreover have "pl_id p \<in> pl_id ` {x \<in> set (plans db). turn_plan h t x}"
      using q(1) calculation(1,2) by (metis (mono_tags, lifting) imageI mem_Collect_eq)
    ultimately show ?thesis using job FinalEnqueued by (auto simp: plan_job_ids_iff intro!: bexI[of _ j])
  qed
qed (use i in simp)

section \<open>Giving up the leases of several rows\<close>

lemma base_ok_from:
  assumes "base_ok db" "unique_key ob_id (outbox db')" "unique_key dl_id (deliveries db')"
    "dl_id ` set (deliveries db') \<subseteq> dl_id ` set (deliveries db)" "delivery_seq db' = delivery_seq db"
    "\<forall>p \<in> set (plans db'). \<exists>q \<in> set (plans db). plan_follows q p"
  shows "base_ok db'"
proof -
  have "dl_id d \<le> delivery_seq db'" if "d \<in> set (deliveries db')" for d
  proof -
    have "dl_id d \<in> dl_id ` set (deliveries db)" using that assms(4) by blast
    then show ?thesis using assms(1,5) by (auto simp: base_ok_def)
  qed
  moreover have "pl_host p \<noteq> [] \<and> pl_turn_id p \<noteq> [] \<and> pl_revision p \<noteq> []" if "p \<in> set (plans db')" for p
    using assms(1,6) that by (metis base_ok_def plan_follows_def)
  ultimately show ?thesis using assms by (simp add: base_ok_def)
qed

lemma drop_leases:
  assumes ok: "outbox_ok db" and base: "base_ok db'"
    and rows: "leased_rows db' = {b \<in> leased_rows db. ob_id b \<notin> I}"
    and atts: "leased_attempts db' = {d \<in> leased_attempts db. dl_outbox_id d \<notin> Some ` I}"
  shows "outbox_ok db'"
proof -
  have "row_lease ` leased_rows db' = {l \<in> row_lease ` leased_rows db. fst l \<notin> Some ` I}"
    unfolding rows by (rule image_filter_eq) (auto simp: row_lease_def)
  moreover have "attempt_lease ` leased_attempts db' = {l \<in> attempt_lease ` leased_attempts db. fst l \<notin> Some ` I}"
    unfolding atts by (rule image_filter_eq) (simp add: attempt_lease_def)
  ultimately show ?thesis using ok base by (simp add: outbox_ok_def)
qed

lemma unique_sql_update: "(\<And>x. k (f x) = k x) \<Longrightarrow> unique_key k t \<Longrightarrow> unique_key k (sql_update p f t)"
  by (simp add: unique_key_def sql_update_def comp_def if_distrib[of k] cong: if_cong)

lemma unique_sql_delete: "unique_key k t \<Longrightarrow> unique_key k (sql_delete p t)"
  by (simp add: unique_key_def sql_delete_def distinct_map_filter)

lemma lease_holder:
  assumes ok: "outbox_ok db" and d: "d \<in> leased_attempts db"
  obtains b where "b \<in> leased_rows db" "dl_outbox_id d = Some (ob_id b)"
  by (rule attempt_row[OF ok d]) (rule that)

text \<open>A row that is not leased has no leased attempt.\<close>

lemma unleased:
  assumes ok: "outbox_ok db" and b: "b \<in> set (outbox db)" "ob_status b \<noteq> ObLeased" and d: "d \<in> leased_attempts db"
  shows "dl_outbox_id d \<noteq> Some (ob_id b)"
proof
  assume s: "dl_outbox_id d = Some (ob_id b)"
  obtain c where c: "c \<in> leased_rows db" "dl_outbox_id d = Some (ob_id c)" by (rule lease_holder[OF ok d])
  then have "c = b" using same_row[OF ok _ b(1)] s leased_rowD by auto
  then show False using c(1) b(2) leased_rowD by blast
qed


section \<open>Superseding and requeueing one anchor\<close>

text \<open>
  What an event does to the rows and attempts of the ids in \<open>I\<close>; everything else stays.
  \<open>n\<close> is the last row id before the event.
\<close>

definition works_on :: "nat set \<Rightarrow> nat \<Rightarrow> outbox_db \<Rightarrow> outbox_db \<Rightarrow> bool" where
  "works_on I n db db' \<longleftrightarrow> outbox_ok db' \<and> rows_from n db db'
     \<and> (\<forall>b \<in> set (outbox db). ob_id b \<notin> I \<longrightarrow> b \<in> set (outbox db'))
     \<and> (\<forall>d \<in> set (deliveries db). dl_outbox_id d \<notin> Some ` I \<longrightarrow> d \<in> set (deliveries db'))"

lemma works_on_refl: "outbox_ok db \<Longrightarrow> works_on I n db db"
  by (simp add: works_on_def)

lemma works_on_trans: "works_on I n a b \<Longrightarrow> works_on I n b c \<Longrightarrow> works_on I n a c"
  unfolding works_on_def using rows_from_trans[of n a b n c] by blast

lemma updated_from: "(\<And>x. R x x) \<Longrightarrow> (\<And>x. x \<in> set t \<Longrightarrow> p x \<Longrightarrow> R x (f x)) \<Longrightarrow> y \<in> set (sql_update p f t) \<Longrightarrow> \<exists>x \<in> set t. R x y"
  by (auto simp: sql_update_def split: if_splits)

text \<open>Superseding touches open rows and dead letters of \<open>I\<close> alone, and keeps what is delivered.\<close>

lemma supersede_works:
  assumes ok: "outbox_ok db"
    and db': "db' = db\<lparr>plans := sql_update pp pf (plans db), deliveries := sql_update dp df (deliveries db),
      outbox := sql_update bp bf (outbox db)\<rparr>"
    and p: "\<And>x. plan_follows x (pf x)"
    and d: "\<And>x. dp x \<longleftrightarrow> dl_outbox_id x \<in> Some ` I \<and> dl_status x \<noteq> DvDelivered"
      "\<And>x. dl_id (df x) = dl_id x \<and> dl_status (df x) = DvSuperseded"
    and b: "\<And>x. bp x \<longrightarrow> ob_id x \<in> I" "\<And>x. x \<in> set (outbox db) \<Longrightarrow> ob_id x \<in> I \<Longrightarrow> ob_status x = ObLeased \<Longrightarrow> bp x"
      "\<And>x. same_work x (bf x) \<and> ob_status (bf x) = ObSuperseded"
  shows "works_on I n db db'"
proof -
  have id: "ob_id (bf x) = ob_id x" for x using b(3)[of x] by (simp add: same_work_def)
  have u: "unique_key ob_id (outbox db')" "unique_key dl_id (deliveries db')"
    using ok d(2) id by (auto simp: db' outbox_ok_def base_ok_def intro!: unique_sql_update)
  have "dl_id ` set (deliveries db') \<subseteq> dl_id ` set (deliveries db)" using d(2) by (auto simp: db' set_sql_update)
  moreover have plan: "\<forall>x \<in> set (plans db'). \<exists>q \<in> set (plans db). plan_follows q x"
    using updated_from[of plan_follows "plans db" pp pf] p by (simp add: db')
  moreover have "base_ok db" "delivery_seq db' = delivery_seq db" using ok by (simp_all add: db' outbox_ok_def)
  ultimately have base: "base_ok db'" by (intro base_ok_from[of db db'] u)
  have "leased_rows db' = {x \<in> leased_rows db. ob_id x \<notin> I}"
    using b by (auto simp: db' leased_rows_def set_sql_update)
  moreover have "leased_attempts db' = {x \<in> leased_attempts db. dl_outbox_id x \<notin> Some ` I}"
    using d by (auto simp: db' leased_attempts_def set_sql_update)
  ultimately have "outbox_ok db'" by (rule drop_leases[OF ok base])
  moreover have "rows_from n db db'"
    using updated_from[of same_work "outbox db" bp bf] b(3) plan by (simp add: rows_from_def db')
  moreover have "x \<in> set (outbox db')" if "x \<in> set (outbox db)" "ob_id x \<notin> I" for x
    using that b(1) by (auto simp: db' set_sql_update)
  moreover have "x \<in> set (deliveries db')" if "x \<in> set (deliveries db)" "dl_outbox_id x \<notin> Some ` I" for x
    using that d(1) by (auto simp: db' set_sql_update)
  ultimately show ?thesis by (simp add: works_on_def)
qed

text \<open>Deleting rows and attempts of \<open>I\<close>, and starting a row of it over that was not leased.\<close>

lemma restart_works:
  assumes ok: "outbox_ok db"
    and db': "db' = db\<lparr>plans := ps, jobs := js, deliveries := sql_delete dp (deliveries db),
      outbox := sql_update bp bf (sql_delete gone (outbox db))\<rparr>"
    and p: "set ps \<subseteq> set (plans db)" "set js \<subseteq> set (jobs db)"
    and d: "\<And>x. dp x \<longleftrightarrow> dl_outbox_id x \<in> Some ` I"
    and b: "\<And>x. x \<in> set (outbox db) \<Longrightarrow> bp x \<Longrightarrow> ob_id x \<in> I \<and> same_work x (bf x) \<and> ob_status x \<noteq> ObLeased \<and> ob_status (bf x) \<noteq> ObLeased"
      "\<And>x. ob_id (bf x) = ob_id x" "\<And>x. gone x \<longrightarrow> ob_id x \<in> I"
      "\<And>x. x \<in> set (outbox db) \<Longrightarrow> ob_id x \<in> I \<Longrightarrow> ob_status x = ObLeased \<Longrightarrow> gone x"
  shows "works_on I n db db'"
proof -
  have u: "unique_key ob_id (outbox db')" "unique_key dl_id (deliveries db')"
    using ok b(2) by (auto simp: db' outbox_ok_def base_ok_def intro!: unique_sql_update unique_sql_delete)
  have sub: "set (deliveries db') \<subseteq> set (deliveries db)" by (auto simp: db' sql_delete_def)
  have plan: "\<forall>x \<in> set (plans db'). \<exists>q \<in> set (plans db). plan_follows q x" using p(1) by (auto simp: db' intro: follows_refl)
  moreover have "base_ok db" "delivery_seq db' = delivery_seq db" using ok by (simp_all add: db' outbox_ok_def)
  ultimately have base: "base_ok db'" using sub by (intro base_ok_from[of db db'] u image_mono)
  have row: "y \<in> set (outbox db') \<longleftrightarrow> (\<exists>x \<in> set (outbox db). \<not> gone x \<and> y = (if bp x then bf x else x))" for y
    by (auto simp: db' sql_update_def sql_delete_def)
  have "y \<in> leased_rows db' \<longleftrightarrow> y \<in> leased_rows db \<and> ob_id y \<notin> I" for y
  proof
    assume y: "y \<in> leased_rows db'"
    then obtain x where x: "x \<in> set (outbox db)" "\<not> gone x" "y = (if bp x then bf x else x)" using row by (auto simp: leased_rows_def)
    moreover have "\<not> bp x" using b(1)[OF x(1)] x(3) y by (auto simp: leased_rows_def)
    ultimately show "y \<in> leased_rows db \<and> ob_id y \<notin> I" using y b(4) by (auto simp: leased_rows_def)
  next
    assume y: "y \<in> leased_rows db \<and> ob_id y \<notin> I"
    then have "\<not> gone y" "\<not> bp y" using b(1,3) by (auto simp: leased_rows_def)
    then show "y \<in> leased_rows db'" using y row[of y] by (auto simp: leased_rows_def intro!: bexI[of _ y])
  qed
  then have "leased_rows db' = {x \<in> leased_rows db. ob_id x \<notin> I}" by blast
  moreover have "leased_attempts db' = {x \<in> leased_attempts db. dl_outbox_id x \<notin> Some ` I}"
    using d by (auto simp: db' leased_attempts_def sql_delete_def)
  ultimately have "outbox_ok db'" by (rule drop_leases[OF ok base])
  moreover have "rows_from n db db'"
  proof -
    have "\<exists>x \<in> set (outbox db). same_work x y" if y: "y \<in> set (outbox db')" for y
    proof -
      obtain x where x: "x \<in> set (outbox db)" "y = (if bp x then bf x else x)" using y row by blast
      then have "same_work x y" using b(1)[OF x(1)] by simp
      with x(1) show ?thesis by blast
    qed
    then show ?thesis using plan p(2) by (simp add: rows_from_def db')
  qed
  moreover have "x \<in> set (outbox db')" if "x \<in> set (outbox db)" "ob_id x \<notin> I" for x
  proof -
    have "\<not> gone x" "\<not> bp x" using that b(1,3) by auto
    then show ?thesis using row[of x] that(1) by (auto intro!: bexI[of _ x])
  qed
  moreover have "x \<in> set (deliveries db')" if "x \<in> set (deliveries db)" "dl_outbox_id x \<notin> Some ` I" for x
    using that d by (auto simp: db' sql_delete_def)
  ultimately show ?thesis by (simp add: works_on_def)
qed

lemma supersede_attempt_fields [simp]:
  "dl_id (supersede_attempt now d) = dl_id d" "dl_status (supersede_attempt now d) = DvSuperseded"
  by (simp_all add: supersede_attempt_def)

lemma supersede_row_fields [simp]:
  "ob_id (supersede_row now b) = ob_id b" "ob_status (supersede_row now b) = ObSuperseded" "ob_payload (supersede_row now b) = ob_payload b"
  "same_work b (supersede_row now b)"
  by (simp_all add: supersede_row_def same_work_def)

lemma supersede_anchor_works:
  assumes "outbox_ok db" "b \<in> set (outbox db)"
  shows "works_on {ob_id b} n db (supersede_anchor b now db)"
proof (rule supersede_works[OF assms(1)])
  show "supersede_anchor b now db = db\<lparr>plans := sql_update (\<lambda>_. False) (\<lambda>p. p) (plans db),
      deliveries := sql_update (\<lambda>d. attempt_among [ob_id b] d \<and> dl_status d \<noteq> DvDelivered) (supersede_attempt now) (deliveries db),
      outbox := sql_update (\<lambda>x. x \<in> set (outbox db) \<and> ob_id x = ob_id b \<and> ob_status x \<noteq> ObDelivered)
          (\<lambda>x. x\<lparr>ob_status := ObSuperseded, ob_next_attempt_at := None, ob_updated_at := now,
                 ob_private := connector_private_clear_current (ob_private b)\<rparr>) (outbox db)\<rparr>"
    by (simp add: supersede_anchor_def sql_update_def)
qed (auto simp: attempt_among_iff same_work_def)

lemma supersede_stale_works:
  assumes ok: "outbox_ok db"
    and I: "set (map ob_id (filter (stale_final host turn_id revision) (outbox db)))
       \<union> set (plan_job_ids (map pl_id (filter (stale_plan host turn_id revision) (plans db))) db) = I"
  shows "works_on I n db (supersede_stale_final_work host turn_id revision now db)"
  unfolding supersede_stale_final_work_def Let_def
  by (rule supersede_works[OF ok refl]) (use I in \<open>auto simp: plan_follows_def attempt_among_iff\<close>)


section \<open>Enqueueing an anchor\<close>

lemma works_on_mono: "works_on I n db db' \<Longrightarrow> I \<subseteq> J \<Longrightarrow> works_on J n db db'"
  unfolding works_on_def by blast

definition payloads_from :: "nat \<Rightarrow> outbox_db \<Rightarrow> outbox_db \<Rightarrow> bool" where
  "payloads_from n db db' \<longleftrightarrow>
     (\<forall>c \<in> set (outbox db'). ob_id c \<le> n \<longrightarrow> (\<exists>b \<in> set (outbox db). ob_id b = ob_id c \<and> ob_payload b = ob_payload c))"

lemma payloads_from_refl [simp]: "payloads_from n db db"
  by (auto simp: payloads_from_def)

lemma payloads_from_trans: "payloads_from n a b \<Longrightarrow> payloads_from m b c \<Longrightarrow> n \<le> m \<Longrightarrow> payloads_from n a c"
  unfolding payloads_from_def by (metis le_trans)


lemma anchor_row_Some:
  "anchor_row db host key = Some b \<Longrightarrow> b \<in> set (outbox db) \<and> ob_host b = host \<and> ob_connector b = turn_final_name \<and> ob_key b = key"
  by (auto simp: anchor_row_def dest: fetchone_in)

lemma reactivate_rows:
  assumes ok: "outbox_ok db" and root: "root \<in> set (outbox db)" "ob_payload root = payload"
    and y: "y \<in> set (outbox (reactivate_final_root host turn_id revision root la kind status payload now db))"
  shows "\<exists>x \<in> set (outbox db). ob_id x = ob_id y \<and> ob_payload x = ob_payload y
    \<and> ob_id x \<notin> set (plan_job_ids (map pl_id (filter (\<lambda>p. turn_plan host turn_id p \<and> pl_revision p = revision) (plans db))) db)"
  using y same_row[OF ok root(1)] root(2)
  by (fastforce simp: reactivate_final_root_def Let_def sql_update_def sql_delete_def split: if_splits)

lemma reactivate_works:
  assumes ok: "outbox_ok db" and root: "root \<in> set (outbox db)" "ob_status root \<noteq> ObLeased" and status: "status \<noteq> ObLeased"
  shows "works_on (insert (ob_id root)
      (set (plan_job_ids (map pl_id (filter (\<lambda>p. turn_plan host turn_id p \<and> pl_revision p = revision) (plans db))) db)))
    n db (reactivate_final_root host turn_id revision root la kind status payload now db)"
proof -
  have one: "x = root" if "x \<in> set (outbox db)" "ob_id x = ob_id root" for x using same_row[OF ok that(1) root(1) that(2)] .
  show ?thesis
    unfolding reactivate_final_root_def Let_def
  proof (rule restart_works[OF ok refl])
    fix x assume "x \<in> set (outbox db)" "ob_id x = ob_id root"
    then have "x = root" by (rule one)
    then show "ob_id x \<in> insert (ob_id root) (set (plan_job_ids (map pl_id (filter (\<lambda>p. turn_plan host turn_id p \<and> pl_revision p = revision) (plans db))) db))
        \<and> same_work x (x\<lparr>ob_kind := kind, ob_status := status, ob_payload := payload, ob_private := reactivated_state (ob_private root)
             (filter (\<lambda>p. turn_plan host turn_id p \<and> pl_revision p = revision) (plans db)) (length (attempts_of db (ob_id root))) la,
             ob_updated_at := now, ob_next_attempt_at := None\<rparr>)
        \<and> ob_status x \<noteq> ObLeased
        \<and> ob_status (x\<lparr>ob_kind := kind, ob_status := status, ob_payload := payload, ob_private := reactivated_state (ob_private root)
             (filter (\<lambda>p. turn_plan host turn_id p \<and> pl_revision p = revision) (plans db)) (length (attempts_of db (ob_id root))) la,
             ob_updated_at := now, ob_next_attempt_at := None\<rparr>) \<noteq> ObLeased"
      using root status by (simp add: same_work_def)
  next
    fix x assume "x \<in> set (outbox db)" "ob_status x = ObLeased"
      "ob_id x \<in> insert (ob_id root) (set (plan_job_ids (map pl_id (filter (\<lambda>p. turn_plan host turn_id p \<and> pl_revision p = revision) (plans db))) db))"
    then show "ob_id x \<in> set (plan_job_ids (map pl_id (filter (\<lambda>p. turn_plan host turn_id p \<and> pl_revision p = revision) (plans db))) db)"
      using one root(2) by auto
  qed (auto simp: sql_delete_def attempt_among_iff)
qed

lemma supersede_rows:
  assumes "y \<in> set (outbox (supersede_stale_final_work host turn_id revision now db))"
  shows "\<exists>x \<in> set (outbox db). ob_id x = ob_id y \<and> ob_payload x = ob_payload y
    \<and> (ob_status x = ObLeased \<and> ob_id x \<in> set (map ob_id (filter (stale_final host turn_id revision) (outbox db)))
        \<union> set (plan_job_ids (map pl_id (filter (stale_plan host turn_id revision) (plans db))) db) \<longrightarrow> ob_status y = ObSuperseded)"
  using assms by (auto simp: supersede_stale_final_work_def Let_def sql_update_def split: if_splits)

lemma insert_anchor_works:
  assumes ok: "outbox_ok db" and ids: "\<forall>c \<in> set (outbox db). ob_id c \<le> n" and b: "ob_status b \<noteq> ObLeased"
    and i: "insert_anchor b (n, db) = (n', db')"
  shows "works_on {} n db db'" "n \<le> n'" "\<forall>c \<in> set (outbox db'). ob_id c \<le> n'" "deliveries db' = deliveries db"
    "set (outbox db) \<subseteq> set (outbox db')" "\<forall>c \<in> set (outbox db'). c \<in> set (outbox db) \<or> n < ob_id c"
proof -
  consider (same) "n' = n" "db' = db" | (new) "n' = Suc n" "db' = db\<lparr>outbox := outbox db @ [b\<lparr>ob_id := Suc n\<rparr>]\<rparr>"
    using i by (auto simp: insert_anchor_def split: if_splits)
  then have "works_on {} n db db' \<and> n \<le> n' \<and> (\<forall>c \<in> set (outbox db'). ob_id c \<le> n') \<and> deliveries db' = deliveries db
      \<and> set (outbox db) \<subseteq> set (outbox db') \<and> (\<forall>c \<in> set (outbox db'). c \<in> set (outbox db) \<or> n < ob_id c)"
  proof cases
    case new
    have "Suc n \<notin> ob_id ` set (outbox db)" using ids by force
    then have "base_ok db'" using ok by (auto simp: new outbox_ok_def base_ok_def unique_key_def)
    moreover have "leased_rows db' = leased_rows db" "leased_attempts db' = leased_attempts db"
      using b by (auto simp: new leased_rows_def leased_attempts_def)
    ultimately have "outbox_ok db'" using ok by (simp add: outbox_ok_def)
    moreover have "rows_from n db db'"
      by (auto simp: rows_from_def new intro: follows_refl same_work_refl)
    ultimately show ?thesis using ids by (auto simp: works_on_def new)
  qed (use ok ids in \<open>simp_all add: works_on_refl\<close>)
  then show "works_on {} n db db'" "n \<le> n'" "\<forall>c \<in> set (outbox db'). ob_id c \<le> n'" "deliveries db' = deliveries db"
    "set (outbox db) \<subseteq> set (outbox db')" "\<forall>c \<in> set (outbox db'). c \<in> set (outbox db) \<or> n < ob_id c" by blast+
qed


lemma ensure_cases:
  assumes e: "ensure_final_ready_anchor E A host turn_id revision now (n, db) = (i, n', db')"
  obtains (nothing) "n' = n" "db' = db"
  | (enqueued) a db1 row where "final_ready_payload A host turn_id revision True = Some a"
      "db1 = db \<or> (\<exists>b la kind st. anchor_row db host (final_ready_key (fa_identity a)) = Some b
         \<and> ob_status b \<noteq> ObLeased \<and> st \<noteq> ObLeased \<and> ob_payload b = fa_payload a
         \<and> db1 = reactivate_final_root host turn_id revision b la kind st (fa_payload a) now db)"
      "ob_status row \<noteq> ObLeased" "insert_anchor row (n, supersede_stale_final_work host turn_id revision now db1) = (n', db')"
proof (cases "final_ready_payload A host turn_id revision True")
  case None
  show ?thesis by (rule nothing) (use e None in \<open>simp_all add: ensure_final_ready_anchor_def\<close>)
next
  case (Some a)
  let ?key = "final_ready_key (fa_identity a)"
  show ?thesis
  proof (cases "anchor_row db host ?key = None \<and> delivered_without_anchor host turn_id revision ?key db")
    case True
    show ?thesis by (rule nothing) (use e Some True in \<open>simp_all add: ensure_final_ready_anchor_def Let_def\<close>)
  next
    case False
    define lap where "lap = latest_activated_plan host turn_id db"
    define hold where "hold = hold_reason a (ae_internal_automation A host turn_id revision)"
    define kind where "kind = (case hold of None \<Rightarrow> FinalReady | Some _ \<Rightarrow> FinalMigrationHold)"
    define st where "st = (case hold of None \<Rightarrow> ObQueued | Some _ \<Rightarrow> ObDeadLetter)"
    define db1 where "db1 = (case anchor_row db host ?key of None \<Rightarrow> db
        | Some b \<Rightarrow> if reactivates revision lap (fa_payload a) b
            then reactivate_final_root host turn_id revision b (map_option pl_id lap) kind st (fa_payload a) now db else db)"
    define row where "row = \<lparr>ob_id = 0, ob_host = host, ob_connector = turn_final_name, ob_key = ?key, ob_kind = kind,
        ob_turn_id = Some turn_id, ob_revision = Some revision, ob_ordering_key = ae_ordering_key A host turn_id,
        ob_status = st, ob_payload = fa_payload a, ob_private = initial_private E hold now, ob_created_at = now,
        ob_updated_at = now, ob_next_attempt_at = None\<rparr>"
    have st: "st \<noteq> ObLeased" by (simp add: st_def split: option.split)
    have "(map_option ob_id (anchor_row (snd (insert_anchor row (n, supersede_stale_final_work host turn_id revision now db1))) host ?key),
        insert_anchor row (n, supersede_stale_final_work host turn_id revision now db1)) = (i, n', db')"
      using e False unfolding ensure_final_ready_anchor_def Let_def lap_def[symmetric] hold_def[symmetric] kind_def[symmetric]
        st_def[symmetric] prod.case Some option.case db1_def[symmetric] row_def[symmetric]
      by (auto simp: case_prod_beta)
    then have "insert_anchor row (n, supersede_stale_final_work host turn_id revision now db1) = (n', db')" by simp
    moreover have "db1 = db \<or> (\<exists>b la kind st. anchor_row db host ?key = Some b
         \<and> ob_status b \<noteq> ObLeased \<and> st \<noteq> ObLeased \<and> ob_payload b = fa_payload a
         \<and> db1 = reactivate_final_root host turn_id revision b la kind st (fa_payload a) now db)"
    proof (cases "anchor_row db host ?key")
      case (Some b)
      show ?thesis
      proof (cases "reactivates revision lap (fa_payload a) b")
        case True
        then have "ob_status b \<noteq> ObLeased" "ob_payload b = fa_payload a" by (auto simp: reactivates_def)
        moreover have "db1 = reactivate_final_root host turn_id revision b (map_option pl_id lap) kind st (fa_payload a) now db"
          using Some True by (simp add: db1_def)
        ultimately show ?thesis using Some st by blast
      qed (use Some in \<open>simp add: db1_def\<close>)
    qed (simp add: db1_def)
    moreover have "ob_status row \<noteq> ObLeased" using st by (simp add: row_def)
    ultimately show ?thesis using enqueued Some by blast
  qed
qed

text \<open>
  The ids of an anchored revision's jobs, which starting it over deletes, and of the work
  that an anchor supersedes.
\<close>

abbreviation revision_jobs :: "ustr \<Rightarrow> ustr \<Rightarrow> ustr \<Rightarrow> outbox_db \<Rightarrow> nat set" where
  "revision_jobs host turn_id revision db \<equiv>
     set (plan_job_ids (map pl_id (filter (\<lambda>p. turn_plan host turn_id p \<and> pl_revision p = revision) (plans db))) db)"

abbreviation stale_work :: "ustr \<Rightarrow> ustr \<Rightarrow> ustr \<Rightarrow> outbox_db \<Rightarrow> nat set" where
  "stale_work host turn_id revision db \<equiv>
     set (map ob_id (filter (stale_final host turn_id revision) (outbox db)))
     \<union> set (plan_job_ids (map pl_id (filter (stale_plan host turn_id revision) (plans db))) db)"

lemma restarted:
  assumes ok: "outbox_ok db" and a: "key = Some (final_ready_key (fa_identity a))"
    and db1: "db1 = db \<or> (\<exists>b la kind st. anchor_row db host (final_ready_key (fa_identity a)) = Some b
         \<and> ob_status b \<noteq> ObLeased \<and> st \<noteq> ObLeased \<and> ob_payload b = fa_payload a
         \<and> db1 = reactivate_final_root host turn_id revision b la kind st (fa_payload a) now db)"
  shows "works_on (set (touched db (FinalEnqueued host turn_id revision key))) n db db1
    \<and> (\<forall>y \<in> set (outbox db1). \<exists>x \<in> set (outbox db). ob_id x = ob_id y \<and> ob_payload x = ob_payload y)
    \<and> (\<forall>d \<in> leased_attempts db. d \<in> set (deliveries db1)
         \<or> (\<forall>y \<in> set (outbox db1). dl_outbox_id d \<noteq> Some (ob_id y)))"
proof (cases "db1 = db")
  case False
  let ?J = "revision_jobs host turn_id revision db" and ?T = "set (touched db (FinalEnqueued host turn_id revision key))"
  obtain b la kind st where b: "anchor_row db host (final_ready_key (fa_identity a)) = Some b"
      "ob_status b \<noteq> ObLeased" "st \<noteq> ObLeased" "ob_payload b = fa_payload a"
      "db1 = reactivate_final_root host turn_id revision b la kind st (fa_payload a) now db"
    using False db1 by blast
  note in_db = anchor_row_Some[OF b(1)]
  have w: "works_on (insert (ob_id b) ?J) n db db1"
    using reactivate_works[OF ok _ b(2,3)] in_db unfolding b(5) by blast
  have "?J \<subseteq> ?T" by (auto simp: plan_job_ids_iff)
  moreover have "ob_id b \<in> ?T" using in_db by (auto simp: a)
  ultimately have "insert (ob_id b) ?J \<subseteq> ?T" by simp
  then have "works_on ?T n db db1" by (rule works_on_mono[OF w])
  moreover have rows: "\<exists>x \<in> set (outbox db). ob_id x = ob_id y \<and> ob_payload x = ob_payload y \<and> ob_id y \<notin> ?J"
    if "y \<in> set (outbox db1)" for y
    using reactivate_rows[OF ok _ b(4) that[unfolded b(5)]] in_db by metis
  moreover have "d \<in> set (deliveries db1) \<or> (\<forall>y \<in> set (outbox db1). dl_outbox_id d \<noteq> Some (ob_id y))"
    if d: "d \<in> leased_attempts db" for d
  proof -
    have "d \<in> set (deliveries db1) \<or> dl_outbox_id d \<in> Some ` ?J"
      using w unleased[OF ok _ b(2) d] in_db leased_attemptD[OF d] by (auto simp: works_on_def)
    then show ?thesis using rows by force
  qed
  ultimately show ?thesis by blast
qed (use ok works_on_refl leased_attemptD in auto)

text \<open>A lease that superseding takes away leaves its row superseded.\<close>

lemma superseded:
  assumes ok: "outbox_ok db" and d: "d \<in> leased_attempts db" "d \<notin> set (deliveries (supersede_stale_final_work host turn_id revision now db))"
    and c: "c \<in> set (outbox (supersede_stale_final_work host turn_id revision now db))" "dl_outbox_id d = Some (ob_id c)"
  shows "ob_status c = ObSuperseded"
proof -
  obtain y where y: "y \<in> set (outbox db)" "ob_id y = ob_id c"
      "ob_status y = ObLeased \<and> ob_id y \<in> stale_work host turn_id revision db \<longrightarrow> ob_status c = ObSuperseded"
    using supersede_rows[OF c(1)] by blast
  obtain z where z: "z \<in> leased_rows db" "dl_outbox_id d = Some (ob_id z)" by (rule lease_holder[OF ok d(1)])
  then have "y = z" using same_row[OF ok y(1)] leased_rowD c(2) y(2) by auto
  then have "ob_status y = ObLeased" using leased_rowD[OF z(1)] by simp
  moreover have "dl_outbox_id d \<in> Some ` stale_work host turn_id revision db"
    using supersede_stale_works[OF ok refl] d(2) leased_attemptD[OF d(1)] unfolding works_on_def by blast
  ultimately show ?thesis using y c(2) by auto
qed

lemma ensure_keeps:
  assumes ok: "outbox_ok db" and ids: "\<forall>c \<in> set (outbox db). ob_id c \<le> n"
    and e: "ensure_final_ready_anchor E A host turn_id revision now (n, db) = (i, n', db')"
  shows "works_on (set (touched db (FinalEnqueued host turn_id revision
          (map_option (\<lambda>a. final_ready_key (fa_identity a)) (final_ready_payload A host turn_id revision True))))) n db db'
    \<and> n \<le> n' \<and> (\<forall>c \<in> set (outbox db'). ob_id c \<le> n') \<and> payloads_from n db db'
    \<and> (\<forall>d \<in> leased_attempts db. d \<in> set (deliveries db')
         \<or> (\<forall>c \<in> set (outbox db'). dl_outbox_id d = Some (ob_id c) \<longrightarrow> ob_status c = ObSuperseded))"
proof (rule ensure_cases[OF e])
  assume "n' = n" "db' = db"
  then show ?thesis using ok ids works_on_refl leased_attemptD by auto
next
  fix a db1 row
  assume a: "final_ready_payload A host turn_id revision True = Some a"
    and db1: "db1 = db \<or> (\<exists>b la kind st. anchor_row db host (final_ready_key (fa_identity a)) = Some b
         \<and> ob_status b \<noteq> ObLeased \<and> st \<noteq> ObLeased \<and> ob_payload b = fa_payload a
         \<and> db1 = reactivate_final_root host turn_id revision b la kind st (fa_payload a) now db)"
    and row: "ob_status row \<noteq> ObLeased" "insert_anchor row (n, supersede_stale_final_work host turn_id revision now db1) = (n', db')"
  define db2 where "db2 = supersede_stale_final_work host turn_id revision now db1"
  let ?cause = "FinalEnqueued host turn_id revision (Some (final_ready_key (fa_identity a)))"
  note one = restarted[OF ok refl db1, where n = n]
  have ok1: "outbox_ok db1" and from1: "rows_from n db db1" using one by (simp_all add: works_on_def)
  have ids1: "\<forall>c \<in> set (outbox db1). ob_id c \<le> n" using one ids by metis
  have "stale_work host turn_id revision db1 \<subseteq> set (touched db1 ?cause)"
    by (auto simp: stale_final_def stale_plan_def plan_job_ids_iff split: option.splits)
  then have "stale_work host turn_id revision db1 \<subseteq> set (touched db ?cause)"
    using touched_from[OF from1 _ disjI2[OF ids1]] by blast
  then have two: "works_on (set (touched db ?cause)) n db1 db2"
    unfolding db2_def by (rule works_on_mono[OF supersede_stale_works[OF ok1 refl]])
  have ok2: "outbox_ok db2" using two by (simp add: works_on_def)
  have rows2: "\<exists>x \<in> set (outbox db1). ob_id x = ob_id y \<and> ob_payload x = ob_payload y" if "y \<in> set (outbox db2)" for y
    using supersede_rows[OF that[unfolded db2_def]] by blast
  have ids2: "\<forall>c \<in> set (outbox db2). ob_id c \<le> n" using rows2 ids1 by metis
  note new = insert_anchor_works[OF ok2 ids2 row(1) row(2)[folded db2_def]]
  have works: "works_on (set (touched db ?cause)) n db db'"
    using works_on_trans[OF works_on_trans[OF conjunct1[OF one] two] works_on_mono[OF new(1)]] by blast
  have old: "c \<in> set (outbox db2)" if "c \<in> set (outbox db')" "ob_id c \<le> n" for c using new(6) that by auto
  have pay: "payloads_from n db db'"
    unfolding payloads_from_def using old rows2 one by metis
  have "ob_status c = ObSuperseded"
    if d: "d \<in> leased_attempts db" "d \<notin> set (deliveries db')" and c: "c \<in> set (outbox db')" "dl_outbox_id d = Some (ob_id c)" for d c
  proof -
    obtain b where "b \<in> leased_rows db" "dl_outbox_id d = Some (ob_id b)" by (rule lease_holder[OF ok d(1)])
    then have "ob_id c \<le> n" using c(2) ids leased_rowD by auto
    then have c2: "c \<in> set (outbox db2)" by (rule old[OF c(1)])
    then obtain y where "y \<in> set (outbox db1)" "ob_id y = ob_id c" using rows2 by blast
    then have "d \<in> set (deliveries db1)" using one d(1) c(2) by metis
    then have "d \<in> leased_attempts db1" using leased_attemptD[OF d(1)] by (simp add: leased_attempts_def)
    then show ?thesis using superseded[OF ok1 _ _ _ c(2)] c2 d(2) new(4) unfolding db2_def by simp
  qed
  then show ?thesis using works pay new(2,3) unfolding a option.map by blast
qed

section \<open>Retrying an anchor\<close>

lemma retry_cases:
  assumes r: "retry_final_ready_delivery E A host key identity now db = Inr (reply, db')"
  obtains (nothing) "db' = db"
  | (stale) b where "b \<in> set (outbox db)" "ob_id b \<in> set (touched db (FinalRetried host (retried_key key identity)))"
      "db' = supersede_anchor b (connector_now E now) db"
  | (requeued) a b where "b \<in> set (outbox db)" "ob_id b \<in> set (touched db (FinalRetried host (retried_key key identity)))"
      "ob_status b = ObDeadLetter" "db' = requeue_anchor a b (connector_now E now) db"
proof (cases "retried_key key identity")
  case None
  show ?thesis by (rule nothing) (use r None in \<open>auto simp: retry_final_ready_delivery_def\<close>)
next
  case (Some k)
  show ?thesis
  proof (cases "ob_exists db")
    case False
    show ?thesis by (rule nothing) (use r Some False in \<open>auto simp: retry_final_ready_delivery_def\<close>)
  next
    case ex: True
    show ?thesis
    proof (cases "anchor_row db host k")
      case None
      show ?thesis by (rule nothing) (use r Some ex None in \<open>auto simp: retry_final_ready_delivery_def\<close>)
    next
      case b: (Some b)
      have t: "b \<in> set (outbox db)" "ob_id b \<in> set (touched db (FinalRetried host (retried_key key identity)))"
        using anchor_row_Some[OF b] Some by auto
      have req: "requeue_final a b (connector_now E now) db = Inr (reply, db')
          \<Longrightarrow> db' = db \<or> ob_status b = ObDeadLetter \<and> db' = requeue_anchor a b (connector_now E now) db" for a
        by (auto simp: requeue_final_def split: if_splits)
      have "db' = db \<or> db' = supersede_anchor b (connector_now E now) db
          \<or> (\<exists>a. ob_status b = ObDeadLetter \<and> db' = requeue_anchor a b (connector_now E now) db)"
        using r b ex Some unfolding retry_final_ready_delivery_def Let_def
        by (auto split: if_splits option.splits list.splits dest: req)
      then consider "db' = db" | "db' = supersede_anchor b (connector_now E now) db"
        | a where "ob_status b = ObDeadLetter" "db' = requeue_anchor a b (connector_now E now) db" by blast
      then show ?thesis by cases (rule nothing, simp, rule stale[OF t], simp, rule requeued[OF t], simp_all)
    qed
  qed
qed

lemma requeue_works:
  assumes ok: "outbox_ok db" and b: "b \<in> set (outbox db)" "ob_status b = ObDeadLetter"
  shows "works_on {ob_id b} n db (requeue_anchor a b now db)"
proof (rule restart_works[OF ok])
  have "sql_delete (\<lambda>_. False) (outbox db) = outbox db" by (simp add: sql_delete_def)
  then show "requeue_anchor a b now db = db\<lparr>plans := plans db, jobs := jobs db,
      deliveries := sql_delete (attempt_among [ob_id b]) (deliveries db),
      outbox := sql_update (\<lambda>x. ob_id x = ob_id b \<and> ob_status x = ObDeadLetter)
          (\<lambda>x. x\<lparr>ob_kind := FinalReady, ob_status := ObQueued,
                 ob_payload := (if ob_kind x = FinalMigrationHold then fa_payload a else ob_payload x),
                 ob_next_attempt_at := None, ob_updated_at := now,
                 ob_private := requeued_state (ob_private b) (length (attempts_of db (ob_id b)))\<rparr>)
        (sql_delete (\<lambda>_. False) (outbox db))\<rparr>"
    by (simp add: requeue_anchor_def)
  fix x assume "x \<in> set (outbox db)" "ob_id x \<in> {ob_id b}" "ob_status x = ObLeased"
  moreover from this have "x = b" by (intro same_row[OF ok _ b(1)]) simp_all
  ultimately show False using b(2) by simp
qed (auto simp: attempt_among_iff same_work_def)

text \<open>A row that is delivered or superseded outlives a retry with its status and its payload.\<close>

lemma retry_keeps:
  assumes ok: "outbox_ok db" and r: "retry_final_ready_delivery E A host key identity now db = Inr (reply, db')"
  shows "works_on (set (touched db (FinalRetried host (retried_key key identity)))) n db db'
    \<and> ob_id ` set (outbox db') \<subseteq> ob_id ` set (outbox db)
    \<and> (\<forall>d \<in> leased_attempts db. d \<in> set (deliveries db')
         \<or> (\<forall>c \<in> set (outbox db'). dl_outbox_id d = Some (ob_id c) \<longrightarrow> ob_status c = ObSuperseded))
    \<and> (\<forall>b \<in> set (outbox db). ob_status b \<in> {ObDelivered, ObSuperseded}
         \<longrightarrow> (\<exists>c \<in> set (outbox db'). same_work b c \<and> ob_status c = ob_status b \<and> ob_payload c = ob_payload b))"
proof (rule retry_cases[OF r])
  assume "db' = db"
  then show ?thesis using ok works_on_refl leased_attemptD by (auto intro: same_work_refl)
next
  fix b assume b: "b \<in> set (outbox db)" "ob_id b \<in> set (touched db (FinalRetried host (retried_key key identity)))"
    and db': "db' = supersede_anchor b (connector_now E now) db"
  have w: "works_on {ob_id b} n db db'" unfolding db' by (rule supersede_anchor_works[OF ok b(1)])
  have "ob_status c = ObSuperseded"
    if d: "d \<in> leased_attempts db" "d \<notin> set (deliveries db')" and c: "c \<in> set (outbox db')" "dl_outbox_id d = Some (ob_id c)" for d c
  proof -
    have "dl_outbox_id d = Some (ob_id b)" using w d leased_attemptD[OF d(1)] by (auto simp: works_on_def)
    moreover have "ob_status b \<noteq> ObDelivered" using unleased[OF ok b(1) _ d(1)] calculation by auto
    ultimately show ?thesis
      using c same_row[OF ok _ b(1)] by (auto simp: db' supersede_anchor_def set_sql_update)
  qed
  moreover have "\<exists>c \<in> set (outbox db'). same_work x c \<and> ob_status c = ob_status x \<and> ob_payload c = ob_payload x"
    if x: "x \<in> set (outbox db)" "ob_status x \<in> {ObDelivered, ObSuperseded}" for x
  proof (cases "ob_id x = ob_id b \<and> ob_status x \<noteq> ObDelivered")
    case True
    let ?y = "x\<lparr>ob_status := ObSuperseded, ob_next_attempt_at := None, ob_updated_at := connector_now E now,
      ob_private := connector_private_clear_current (ob_private b)\<rparr>"
    have "?y \<in> set (outbox db')"
      unfolding db' supersede_anchor_def using True x(1) by (auto simp: set_sql_update)
    moreover have "same_work x ?y" "ob_status ?y = ob_status x" "ob_payload ?y = ob_payload x"
      using x(2) True by (auto simp: same_work_def)
    ultimately show ?thesis by blast
  next
    case False
    then have "x \<in> set (outbox db')" using x by (auto simp: db' supersede_anchor_def set_sql_update)
    then show ?thesis by (auto intro: same_work_refl)
  qed
  moreover have "ob_id ` set (outbox db') \<subseteq> ob_id ` set (outbox db)" using b(1) by (auto simp: db' supersede_anchor_def set_sql_update)
  ultimately show ?thesis using works_on_mono[OF w] b(2) by blast
next
  fix a b assume b: "b \<in> set (outbox db)" "ob_id b \<in> set (touched db (FinalRetried host (retried_key key identity)))"
    "ob_status b = ObDeadLetter" and db': "db' = requeue_anchor a b (connector_now E now) db"
  have w: "works_on {ob_id b} n db db'" unfolding db' by (rule requeue_works[OF ok b(1,3)])
  have "d \<in> set (deliveries db')" if d: "d \<in> leased_attempts db" for d
    using w unleased[OF ok b(1) _ d] b(3) leased_attemptD[OF d] by (auto simp: works_on_def)
  moreover have "\<exists>c \<in> set (outbox db'). same_work x c \<and> ob_status c = ob_status x \<and> ob_payload c = ob_payload x"
    if x: "x \<in> set (outbox db)" "ob_status x \<in> {ObDelivered, ObSuperseded}" for x
  proof -
    have "x \<in> set (outbox db')" using x by (auto simp: db' requeue_anchor_def set_sql_update)
    then show ?thesis by (auto intro: same_work_refl)
  qed
  moreover have "ob_id ` set (outbox db') \<subseteq> ob_id ` set (outbox db)" using b(1) by (auto simp: db' requeue_anchor_def set_sql_update)
  ultimately show ?thesis using works_on_mono[OF w] b(2) by blast
qed


section \<open>What an event keeps\<close>














section \<open>Leases and settled rows in a history\<close>

lemma lease_lost:
  assumes "works_on T n db db'" "d \<in> leased_attempts db"
    and "d \<in> set (deliveries db')
      \<or> (\<forall>c \<in> set (outbox db'). dl_outbox_id d = Some (ob_id c) \<longrightarrow> ob_status c = ObSuperseded)"
  shows "d \<in> set (deliveries db') \<or> (\<exists>i \<in> T. dl_outbox_id d = Some i
      \<and> (\<forall>c \<in> set (outbox db'). ob_id c = i \<longrightarrow> ob_status c = ObSuperseded))"
proof (cases "d \<in> set (deliveries db')")
  case False
  then obtain i where "i \<in> T" "dl_outbox_id d = Some i" using assms(1) leased_attemptD[OF assms(2)] by (auto simp: works_on_def)
  with False assms(3) show ?thesis by auto
qed simp

text \<open>
  C28: A live lease ends before its deadline only in one of these ways: by a call on its own
  reference; or because its row is the subject of a \<open>connector.retry\<close> or of the enqueueing
  of an anchor (an anchor of its key, a newer revision of its turn, or its turn's work being
  started over), and then the row is superseded or gone.  A poll, a maintenance pass, a call
  on another reference, and a retry or an anchor of something else leave the attempt as it
  is.  (Preparing, committing and recovering a presentation plan and the retention of
  settled turns are not events of a history.)
\<close>

theorem live_lease_ends_only_by_its_reference:
  assumes "outbox_ok db" "\<forall>c \<in> set (outbox db). ob_id c \<le> n" "outbox_event now cause (n, db) (n', db')"
    and "d \<in> set (deliveries db)" "dl_status d = DvLeased"
    and "ps_lease_expires_at (dl_private d) = Some until" "now < until"
  shows "d \<in> set (deliveries db') \<or> cause = Called (Some (stored_ref d))
    \<or> (\<exists>i \<in> set (touched db cause). dl_outbox_id d = Some i
         \<and> (\<forall>c \<in> set (outbox db'). ob_id c = i \<longrightarrow> ob_status c = ObSuperseded))"
proof -
  have d: "d \<in> leased_attempts db" using assms(4,5) by (simp add: leased_attempts_def)
  have live: "\<not> lease_due d now" using assms(6,7) by (simp add: lease_due_def)
  show ?thesis
    using assms(3)
  proof (cases rule: outbox_event.cases)
    case (event_called ref)
    then show ?thesis
      using outbox_step_keeps[OF event_called(3) assms(1)] d live by (auto simp: spares_def leased_attempts_def)
  next
    case (event_retried E A host key identity nw reply)
    note k = retry_keeps[OF assms(1) event_retried(4), where n = n, folded event_retried(2)]
    show ?thesis using lease_lost[OF conjunct1[OF k] d] k d by blast
  next
    case (event_enqueued E A host turn_id revision i)
    note k = ensure_keeps[OF assms(1,2) event_enqueued(2), folded event_enqueued(1)]
    show ?thesis using lease_lost[OF conjunct1[OF k] d] k d by blast
  qed
qed



section \<open>A concrete history\<close>










theorem live_lease_ends_only_by_its_reference_witness:
  "ex_attempt 7 DvLeased (160 * second) \<in> set (deliveries ex_leased)"
proof -
  have "outbox_event (110 * second) (Called None) (7, ex_leased) (7, ex_leased)"
    using event_called[OF step_poll[OF ex_poll_again]] by (simp add: connector_now_def whole_seconds_def second_def)
  moreover have "\<forall>c \<in> set (outbox ex_leased). ob_id c \<le> 7" by (simp add: ex_leased_def ex_queue_def ex_row_def)
  ultimately show ?thesis
    using live_lease_ends_only_by_its_reference[OF ex_queues_ok(2), where d = "ex_attempt 7 DvLeased (160 * second)" and until = "160 * second"]
    by (fastforce simp: ex_leased_def ex_queue_def ex_attempt_def ex_lease_def connector_private_with_lease_def second_def)
qed

end
