(* ===== verification/OutboxCalls.thy ===== *)
theory OutboxCalls
  imports OutboxRuns
begin

text \<open>
  What each call of a connector does, branch by branch.
\<close>

section \<open>Rows a plan update leaves alone\<close>

lemma keeps_other_rows:
  "x \<in> set (outbox db) \<Longrightarrow> ob_status x \<noteq> st \<Longrightarrow> x \<in> set (outbox (outbox_set i st f db))"
  by (auto simp: outbox_set_def set_sql_update)

lemma extend_keeps_row:
  "x \<in> set (outbox db) \<Longrightarrow> ob_status x \<noteq> ObAwaitingAck \<Longrightarrow> x \<in> set (outbox (extend_ack_deadline s dl now db))"
  by (auto simp: extend_ack_deadline_def Let_def keeps_other_rows split: option.split)

lemma deliver_source_keeps_row:
  "x \<in> set (outbox db) \<Longrightarrow> ob_status x \<noteq> ObAwaitingAck \<Longrightarrow> x \<in> set (outbox (deliver_source s now db))"
  by (auto simp: deliver_source_def Let_def keeps_other_rows split: option.split)

lemma update_plan_keeps_row:
  assumes "update_presentation_plan_after_outbox E i st now ttl db = Inr db'"
    and "x \<in> set (outbox db)" "ob_status x \<noteq> ObAwaitingAck"
  shows "x \<in> set (outbox db')"
  using assms
  by (auto simp: update_presentation_plan_after_outbox_def Let_def activate_waiting_presentation_plans_def
      record_sourceless_delivery_def bind_result_eq_Inr extend_keeps_row deliver_source_keeps_row
      split: option.splits if_splits)

lemma update_plan_result:
  assumes "outbox_ok db" "update_presentation_plan_after_outbox E i st now ttl db = Inr db'"
  shows "calm db db'"
proof -
  have "base_ok db" using assms(1) by (simp add: outbox_ok_def)
  from update_plan_calm[OF this, of E i st now ttl] assms(2) show ?thesis by simp
qed

text \<open>What a call that was not refused did: the lease behind the reference, and the step.\<close>

lemma with_live_refD:
  assumes ok: "outbox_ok db" and r: "with_live_ref E host name ref now0 f db = Inr (r, db')" and "co_ok r"
  obtains n db1 d b where "reclaim_expired_leases E host (Some name) (connector_now E now0) db = Inr (n, db1)"
    "recovers (connector_now E now0) db db1"
    "validate_live_ref host name ref (connector_now E now0) db1 = Inr (d, b)" "live_lease db1 d b"
    "f (connector_now E now0) d b db1 = Inr (r, db')"
proof -
  let ?now = "connector_now E now0"
  have ex: "ob_exists db"
    by (rule ccontr) (use r assms(3) in \<open>auto simp: with_live_ref_def connector_error_response_def\<close>)
  obtain n db1 where rec: "reclaim_expired_leases E host (Some name) ?now db = Inr (n, db1)" "recovers ?now db db1"
    using reclaim_expired_recovers[OF ok, of E host "Some name" ?now] by auto
  show thesis
  proof (cases "validate_live_ref host name ref ?now db1")
    case (Inl st)
    then show thesis using r rec(1) ex assms(3) by (auto simp: with_live_ref_def Let_def connector_error_response_def)
  next
    case (Inr p)
    obtain d b where p: "p = (d, b)" by fastforce
    have "live_lease db1 d b" by (rule validate_live_refD(1)[OF _ Inr[unfolded p]]) (use rec(2) in \<open>simp add: recovers_def\<close>)
    moreover have "f ?now d b db1 = Inr (r, db')" using r rec(1) Inr p ex by (simp add: with_live_ref_def Let_def)
    ultimately show thesis using that rec Inr p by blast
  qed
qed

lemma with_live_ref_refused:
  assumes r: "with_live_ref E host name ref now0 f db = Inr (r, db')" and "\<not> co_ok r"
    and f: "\<And>now d b db1 r db2. f now d b db1 = Inr (r, db2) \<Longrightarrow> \<not> co_ok r \<Longrightarrow>
      db2 = db \<and> r = connector_error_response CoPrepareRequired"
  shows "db' = db \<and> r = connector_error_response (co_status r)
    \<and> co_status r \<in> {CoStoreUnavailable, CoInvalidRef, CoStaleRef, CoExpiredRef, CoPrepareRequired}"
proof (cases "ob_exists db")
  case True
  let ?now = "connector_now E now0"
  obtain n db1 where rec: "reclaim_expired_leases E host (Some name) ?now db = Inr (n, db1)"
    using r True by (cases "reclaim_expired_leases E host (Some name) ?now db") (auto simp: with_live_ref_def Let_def)
  show ?thesis
  proof (cases "validate_live_ref host name ref ?now db1")
    case (Inl st)
    then have "st \<in> {CoInvalidRef, CoStaleRef, CoExpiredRef}"
      by (auto simp: validate_live_ref_def split: option.splits if_splits)
    then show ?thesis using Inl r rec True by (auto simp: with_live_ref_def Let_def connector_error_response_def)
  next
    case (Inr p)
    obtain d b where p: "p = (d, b)" by fastforce
    have "f ?now d b db1 = Inr (r, db')" using r rec Inr p True by (simp add: with_live_ref_def Let_def)
    from f[OF this assms(2)] show ?thesis by (simp add: connector_error_response_def)
  qed
qed (use r in \<open>auto simp: with_live_ref_def connector_error_response_def\<close>)

lemma connector_response_ok [simp]:
  "co_ok (connector_response st d at until)" "\<not> co_ok (connector_error_response st)"
  "co_available_at (connector_response st d at until) = at" "co_leased_until (connector_response st d at until) = until"
  "co_status (connector_response st d at until) = st" "co_status (connector_error_response st) = st"
  by (simp_all add: connector_response_def connector_error_response_def)

lemma step_always_ok:
  assumes "bind_result m (\<lambda>db3. Inr (connector_response st d at until, db3)) = Inr (r, db2)"
  shows "co_ok r"
  using assms by (auto simp: bind_result_eq_Inr)

section \<open>Refusals\<close>

text \<open>
  C31: A call whose reference is refused (no store, unknown, stale or expired reference,
  or a final that must be prepared first) changes nothing, not even through the reclaim
  it ran first, and its answer says which refusal it was; only an acknowledgement is
  refused for want of preparation.
\<close>

theorem refused_reference_changes_nothing:
  assumes "\<not> co_ok r"
    and "renew_connector_delivery E host name ref ls now db = Inr (r, db')
      \<or> release_connector_delivery E host name ref now db = Inr (r, db')
      \<or> ack_connector_delivery E host name ref response ttl now db = Inr (r, db')
      \<or> fail_connector_delivery E host name ref reason response at delay m now db = Inr (r, db')
      \<or> defer_connector_delivery E host name ref reason response at delay now db = Inr (r, db')"
  shows "db' = db \<and> r = connector_error_response (co_status r)
    \<and> co_status r \<in> {CoStoreUnavailable, CoInvalidRef, CoStaleRef, CoExpiredRef, CoPrepareRequired}"
  using assms(2)
proof (elim disjE)
  assume h: "renew_connector_delivery E host name ref ls now db = Inr (r, db')"
  show ?thesis
    by (rule with_live_ref_refused[OF h[unfolded renew_connector_delivery_def] assms(1)]) (auto simp: renew_delivery_step_def Let_def)
next
  assume h: "release_connector_delivery E host name ref now db = Inr (r, db')"
  show ?thesis
    by (rule with_live_ref_refused[OF h[unfolded release_connector_delivery_def] assms(1)])
      (auto simp: Let_def dest: step_always_ok)
next
  assume h: "ack_connector_delivery E host name ref response ttl now db = Inr (r, db')"
  show ?thesis
    by (rule with_live_ref_refused[OF h[unfolded ack_connector_delivery_def] assms(1)])
      (auto simp: ack_delivery_step_def Let_def dest: step_always_ok split: if_splits)
next
  assume h: "fail_connector_delivery E host name ref reason response at delay m now db = Inr (r, db')"
  show ?thesis
    by (rule with_live_ref_refused[OF h[unfolded fail_connector_delivery_def retry_connector_delivery_def] assms(1)])
      (auto simp: retry_delivery_step_def Let_def case_prod_beta dest: step_always_ok)
next
  assume h: "defer_connector_delivery E host name ref reason response at delay now db = Inr (r, db')"
  show ?thesis
    by (rule with_live_ref_refused[OF h[unfolded defer_connector_delivery_def retry_connector_delivery_def] assms(1)])
      (auto simp: retry_delivery_step_def Let_def case_prod_beta dest: step_always_ok)
qed

section \<open>What a call does to its row\<close>

lemma close_lease_row:
  assumes L: "live_lease db d b"
  shows "b\<lparr>ob_status := st, ob_next_attempt_at := at, ob_updated_at := now, ob_private := private\<rparr>
    \<in> set (outbox (move_row b st at now private (close_delivery d dst rsp now db)))"
    and "d\<lparr>dl_status := dst, dl_response := rsp, dl_delivered_at := Some now\<rparr>
    \<in> set (deliveries (move_row b st at now private (close_delivery d dst rsp now db)))"
  using leased_rowD[OF live_leaseD(3)[OF L]] leased_attemptD[OF live_leaseD(2)[OF L]]
  by (auto simp: move_row_def close_delivery_def set_sql_update)

lemma supersede_keeps_row:
  assumes "x \<in> set (outbox db)" "ob_id x = ob_id b"
  shows "x \<in> set (outbox (supersede_siblings b now db))"
  using assms by (auto simp: supersede_siblings_def Let_def set_sql_update)

text \<open>
  An accepted acknowledgement was made on a live lease with that reference, for that
  host and connector, of a row that is not an unprepared final; its attempt is recorded
  as delivered at this instant, with the acknowledgement's body, and its row is
  delivered and gives its lease up.
\<close>

theorem acknowledged_row_is_delivered:
  assumes ok: "outbox_ok db"
    and r: "ack_connector_delivery E host name ref response ttl now db = Inr (r, db')" "co_ok r"
  shows "\<exists>d b. stored_ref d = ref \<and> dl_host d = host \<and> dl_connector d = name \<and> ob_kind b \<noteq> FinalReady
    \<and> dl_outbox_id d = Some (ob_id b) \<and> \<not> lease_due d (connector_now E now)
    \<and> r = connector_response CoAcknowledged d None None
    \<and> d\<lparr>dl_status := DvDelivered, dl_response :=
         (plain_response (lit ''acknowledged''))\<lparr>dr_body := ce_public_response E response\<rparr>,
         dl_delivered_at := Some (connector_now E now)\<rparr> \<in> set (deliveries db')
    \<and> b\<lparr>ob_status := ObDelivered, ob_next_attempt_at := None, ob_updated_at := connector_now E now,
         ob_private := connector_private_clear_current (ob_private b)\<rparr> \<in> set (outbox db')"
proof -
  let ?now = "connector_now E now"
  let ?rsp = "(plain_response (lit ''acknowledged''))\<lparr>dr_body := ce_public_response E response\<rparr>"
  obtain n db1 d b where "reclaim_expired_leases E host (Some name) ?now db = Inr (n, db1)"
    "recovers ?now db db1" and v: "validate_live_ref host name ref ?now db1 = Inr (d, b)" and L: "live_lease db1 d b"
    and f: "ack_delivery_step E response ttl db ?now d b db1 = Inr (r, db')"
    by (rule with_live_refD[OF ok r(1)[unfolded ack_connector_delivery_def] r(2)])
  have nf: "ob_kind b \<noteq> FinalReady" using f r(2) by (auto simp: ack_delivery_step_def)
  define db2 where "db2 = move_row b ObDelivered None ?now (connector_private_clear_current (ob_private b))
    (close_delivery d DvDelivered ?rsp ?now db1)"
  define db3 where "db3 = supersede_siblings b ?now db2"
  have u: "update_presentation_plan_after_outbox E (ob_id b) ObDelivered ?now (Some (max 1 ttl)) db3 = Inr db'"
    "r = connector_response CoAcknowledged d None None"
    using f nf by (auto simp: ack_delivery_step_def Let_def bind_result_eq_Inr db3_def db2_def)
  have ok2: "outbox_ok db2" unfolding db2_def by (rule close_lease_step(2)[OF L]) simp_all
  note s = supersede_siblings_ok[OF ok2, of b ?now, folded db3_def]
  let ?c = "b\<lparr>ob_status := ObDelivered, ob_next_attempt_at := None, ob_updated_at := ?now,
    ob_private := connector_private_clear_current (ob_private b)\<rparr>"
  let ?e = "d\<lparr>dl_status := DvDelivered, dl_response := ?rsp, dl_delivered_at := Some ?now\<rparr>"
  have c: "?c \<in> set (outbox db2)" and e: "?e \<in> set (deliveries db2)"
    unfolding db2_def by (rule close_lease_row[OF L])+
  have "?c \<in> set (outbox db')"
    by (rule update_plan_keeps_row[OF u(1)]) (use supersede_keeps_row[OF c, of b] in \<open>simp_all add: db3_def\<close>)
  moreover have "?e \<in> set (deliveries db')"
  proof -
    have "evolves db2 db'" using update_plan_result[OF s(2) u(1)] evolves_trans[OF s(1)] by (simp add: calm_def)
    then show ?thesis by (rule evolves_closed[OF _ e]) (simp add: closed_attempt_def)
  qed
  moreover note validate_live_refD[OF live_leaseD(1)[OF L] v] nf lease_row_id[OF L] u(2)
  ultimately show ?thesis by (intro exI[of _ d] exI[of _ b]) simp
qed

lemma close_then_plan:
  assumes L: "live_lease db d b" and st: "st \<noteq> ObLeased" "st \<noteq> ObAwaitingAck" "dst \<noteq> DvLeased" "dst \<noteq> DvAwaitingAck"
    and u: "update_presentation_plan_after_outbox E i st' t ttl
      (move_row b st at now private (close_delivery d dst rsp now db)) = Inr db'"
  shows "b\<lparr>ob_status := st, ob_next_attempt_at := at, ob_updated_at := now, ob_private := private\<rparr> \<in> set (outbox db')"
    "d\<lparr>dl_status := dst, dl_response := rsp, dl_delivered_at := Some now\<rparr> \<in> set (deliveries db')"
proof -
  show "b\<lparr>ob_status := st, ob_next_attempt_at := at, ob_updated_at := now, ob_private := private\<rparr> \<in> set (outbox db')"
    by (rule update_plan_keeps_row[OF u close_lease_row(1)[OF L]]) (use st in simp)
  have "evolves (move_row b st at now private (close_delivery d dst rsp now db)) db'"
    using update_plan_result[OF close_lease_step(2)[OF L st(1,3)] u] by (simp add: calm_def)
  then show "d\<lparr>dl_status := dst, dl_response := rsp, dl_delivered_at := Some now\<rparr> \<in> set (deliveries db')"
    by (rule evolves_closed[OF _ close_lease_row(2)[OF L]]) (use st in \<open>simp add: closed_attempt_def\<close>)
qed

lemma retry_stepD:
  assumes L: "live_lease db d b"
    and s: "retry_delivery_step E failing name reason response at delay m t d b db = Inr (r, db')"
  defines "due \<equiv> (case at of Some a \<Rightarrow> whole_seconds a
      | None \<Rightarrow> connector_add_seconds t (case delay of None \<Rightarrow> 60 | Some s \<Rightarrow> s))"
    and "gone \<equiv> ps_terminal_after_lease (ob_private b)"
    and "spent \<equiv> failing \<and> (case m of None \<Rightarrow> False | Some k \<Rightarrow> max 1 k \<le> attempts_used db (ob_id b))"
  obtains c e where "c \<in> set (outbox db')" "ob_id c = ob_id b"
    "ob_status c = (if gone then ObSuperseded else if spent then ObDeadLetter else if failing then ObRetry else ObDeferred)"
    "ob_next_attempt_at c = (if gone \<or> spent then None else Some due)"
    "e \<in> set (deliveries db')" "dl_id e = dl_id d" "dl_status e = (if failing then DvFailed else DvDeferred)"
    "dl_delivered_at e = Some t"
    "r = connector_response (if gone then CoSuperseded else if spent then CoAttemptsExhausted
       else if failing then CoRetryScheduled else CoDeferred) d (if gone \<or> spent then None else Some due) None"
proof -
  let ?st = "if gone then ObSuperseded else if spent then ObDeadLetter else if failing then ObRetry else ObDeferred"
  obtain rsp pv where u: "update_presentation_plan_after_outbox E (ob_id b) ?st t None
      (move_row b ?st (if spent \<or> gone then None else Some due) t pv
        (close_delivery d (if failing then DvFailed else DvDeferred) rsp t db)) = Inr db'"
    and r: "r = connector_response (if gone then CoSuperseded else if spent then CoAttemptsExhausted
       else if failing then CoRetryScheduled else CoDeferred) d (if spent \<or> gone then None else Some due) None"
    using s unfolding retry_delivery_step_def Let_def case_prod_beta due_def[symmetric] gone_def[symmetric] spent_def[symmetric]
      bind_result_eq_Inr by blast
  show thesis
  proof (rule that)
    show "b\<lparr>ob_status := ?st, ob_next_attempt_at := (if spent \<or> gone then None else Some due),
        ob_updated_at := t, ob_private := pv\<rparr> \<in> set (outbox db')"
      by (rule close_then_plan(1)[OF L _ _ _ _ u]) simp_all
    show "d\<lparr>dl_status := if failing then DvFailed else DvDeferred, dl_response := rsp, dl_delivered_at := Some t\<rparr>
        \<in> set (deliveries db')"
      by (rule close_then_plan(2)[OF L _ _ _ _ u]) simp_all
  qed (use r in auto)
qed

text \<open>
  An accepted failure report closes the live attempt as failed and moves the row:
  to superseded when a migration had already replaced it, to the dead letters exactly
  when a limit was given and the attempts used, timeouts of acknowledgements not counted,
  have reached it (a limit below one counts as one), and otherwise back to retry at the
  requested instant, or after the requested delay, a minute by default.  The answer says
  which.
\<close>

theorem failure_outcome:
  assumes ok: "outbox_ok db"
    and r: "fail_connector_delivery E host name ref reason response at delay m now db = Inr (r, db')" "co_ok r"
  defines "t \<equiv> connector_now E now"
  shows "\<exists>n db1 d b c e. reclaim_expired_leases E host (Some name) t db = Inr (n, db1)
    \<and> validate_live_ref host name ref t db1 = Inr (d, b)
    \<and> c \<in> set (outbox db') \<and> ob_id c = ob_id b
    \<and> e \<in> set (deliveries db') \<and> dl_id e = dl_id d \<and> dl_status e = DvFailed \<and> dl_delivered_at e = Some t
    \<and> (if ps_terminal_after_lease (ob_private b)
       then ob_status c = ObSuperseded \<and> co_status r = CoSuperseded \<and> co_available_at r = None
       else if (case m of None \<Rightarrow> False | Some k \<Rightarrow> max 1 k \<le> attempts_used db1 (ob_id b))
       then ob_status c = ObDeadLetter \<and> co_status r = CoAttemptsExhausted \<and> co_available_at r = None
       else ob_status c = ObRetry \<and> co_status r = CoRetryScheduled
         \<and> co_available_at r = ob_next_attempt_at c
         \<and> ob_next_attempt_at c = Some (case at of Some a \<Rightarrow> whole_seconds a
             | None \<Rightarrow> connector_add_seconds t (case delay of None \<Rightarrow> 60 | Some s \<Rightarrow> s)))"
proof -
  obtain n db1 d b where rec: "reclaim_expired_leases E host (Some name) t db = Inr (n, db1)"
    and v: "validate_live_ref host name ref t db1 = Inr (d, b)" and L: "live_lease db1 d b"
    and f: "retry_delivery_step E True name reason response at delay m t d b db1 = Inr (r, db')"
    unfolding t_def
    by (rule with_live_refD[OF ok r(1)[unfolded fail_connector_delivery_def retry_connector_delivery_def] r(2)])
  show ?thesis
  proof (rule retry_stepD[OF L f], goal_cases)
    case (1 c e)
    show ?case
      by (rule exI[of _ n], rule exI[of _ db1], rule exI[of _ d], rule exI[of _ b], rule exI[of _ c], rule exI[of _ e])
        (use 1 rec v in \<open>simp split: if_split_asm\<close>)
  qed
qed

section \<open>Concrete calls\<close>

lemma ex_refused:
  "release_connector_delivery ex_connector (lit ''h'') (lit ''c'') (lit ''ref2'') None ex_leased
     = Inr (connector_error_response CoInvalidRef, ex_leased)"
  by code_simp

theorem refused_reference_changes_nothing_witness:
  "\<exists>r db'. release_connector_delivery ex_connector (lit ''h'') (lit ''c'') (lit ''ref2'') None ex_leased = Inr (r, db')
     \<and> db' = ex_leased \<and> co_status r = CoInvalidRef"
  using refused_reference_changes_nothing[OF _ disjI2[OF disjI1[OF ex_refused]]] ex_refused by simp

lemma ex_ack:
  "\<exists>r db'. ack_connector_delivery ex_connector (lit ''h'') (lit ''c'') (lit ''ref1'') [] 60 (Some (110 * second)) ex_leased = Inr (r, db')
     \<and> co_ok r \<and> map ob_status (outbox db') = [ObDelivered]"
  by (rule exI, rule exI, rule conjI, code_simp, code_simp)

theorem acknowledged_row_is_delivered_witness:
  "\<exists>r db'. ack_connector_delivery ex_connector (lit ''h'') (lit ''c'') (lit ''ref1'') [] 60 (Some (110 * second)) ex_leased = Inr (r, db')
     \<and> (\<exists>b \<in> set (outbox db'). ob_status b = ObDelivered) \<and> co_status r = CoAcknowledged"
proof -
  obtain r db' where a: "ack_connector_delivery ex_connector (lit ''h'') (lit ''c'') (lit ''ref1'') [] 60
      (Some (110 * second)) ex_leased = Inr (r, db')" "co_ok r" using ex_ack by blast
  obtain d b where d: "r = connector_response CoAcknowledged d None None"
    "b\<lparr>ob_status := ObDelivered, ob_next_attempt_at := None, ob_updated_at := connector_now ex_connector (Some (110 * second)),
         ob_private := connector_private_clear_current (ob_private b)\<rparr> \<in> set (outbox db')"
    using acknowledged_row_is_delivered[OF ex_queues_ok(2) a] by blast
  from d(2) have "\<exists>b \<in> set (outbox db'). ob_status b = ObDelivered" by (rule bexI[rotated]) simp
  with a(1) d(1) show ?thesis by simp
qed

lemma ex_fail:
  "\<exists>r db'. fail_connector_delivery ex_connector (lit ''h'') (lit ''c'') (lit ''ref1'') None [] None None (Some 1) (Some (110 * second)) ex_leased = Inr (r, db')
     \<and> co_ok r \<and> map ob_status (outbox db') = [ObDeadLetter]"
  by (rule exI, rule exI, rule conjI, code_simp, code_simp)

theorem failure_outcome_witness:
  "\<exists>r db'. fail_connector_delivery ex_connector (lit ''h'') (lit ''c'') (lit ''ref1'') None [] None None (Some 1) (Some (110 * second)) ex_leased = Inr (r, db')
     \<and> (\<exists>e \<in> set (deliveries db'). dl_status e = DvFailed) \<and> map ob_status (outbox db') = [ObDeadLetter]"
proof -
  obtain r db' where a: "fail_connector_delivery ex_connector (lit ''h'') (lit ''c'') (lit ''ref1'') None [] None None (Some 1)
      (Some (110 * second)) ex_leased = Inr (r, db')" "co_ok r" "map ob_status (outbox db') = [ObDeadLetter]"
    using ex_fail by (elim exE conjE) (rule that)
  have "\<exists>e \<in> set (deliveries db'). dl_status e = DvFailed"
    using failure_outcome[OF ex_queues_ok(2) a(1,2)] by blast
  with a(1,3) show ?thesis by (intro exI conjI)
qed

end
