(* ===== verification/OutboxPolls.thy ===== *)
theory OutboxPolls
  imports OutboxCalls
begin

text \<open>
  Bounds, polling, and the maintenance passes of the outbox.
\<close>

section \<open>Instants and delays\<close>

lemma second_pos [simp]: "0 < second"
  by (simp add: second_def)

lemma whole_seconds_le: "whole_seconds t \<le> t"
  unfolding whole_seconds_def using second_pos by (simp add: minus_mod_eq_div_mult[symmetric])

lemma whole_seconds_mono: "s \<le> t \<Longrightarrow> whole_seconds s \<le> whole_seconds t"
  unfolding whole_seconds_def by (simp add: zdiv_mono1)

lemma whole_seconds_add: "whole_seconds (t + k * second) = whole_seconds t + k * second"
  unfolding whole_seconds_def by (simp add: distrib_right second_def)

lemma whole_seconds_idem [simp]: "whole_seconds (whole_seconds t) = whole_seconds t"
  unfolding whole_seconds_def by simp

lemma connector_now_whole [simp]: "whole_seconds (connector_now E now) = connector_now E now"
  by (simp add: connector_now_def)

lemma add_seconds_now:
  "connector_add_seconds (connector_now E now) k = connector_now E now + max 0 (min k max_delay_seconds) * second"
  by (simp add: connector_add_seconds_def whole_seconds_add)

text \<open>
  C34: A renewal keeps the attempt and its reference and never shortens the lease: the new
  deadline is at least a second away, at least the old one to the second, and never
  later than both the old one and the largest delay the code grants.
\<close>

theorem renewal_bounds:
  assumes ok: "outbox_ok db"
    and r: "renew_connector_delivery E host name ref ls now db = Inr (r, db')" "co_ok r"
  defines "t \<equiv> connector_now E now"
  shows "\<exists>d \<in> set (deliveries db). \<exists>e \<in> set (deliveries db'). \<exists>until.
      dl_status d = DvLeased \<and> stored_ref d = ref \<and> dl_status e = DvLeased \<and> stored_ref e = ref
    \<and> dl_id e = dl_id d \<and> dl_attempt e = dl_attempt d
    \<and> r = connector_response CoRenewed d None (Some until) \<and> ps_lease_expires_at (dl_private e) = Some until
    \<and> t + second \<le> until
    \<and> (\<forall>old. ps_lease_expires_at (dl_private d) = Some old \<longrightarrow>
         whole_seconds old \<le> until \<and> until \<le> max old (t + max_delay_seconds * second))"
proof -
  obtain n db1 d b where rec: "recovers t db db1"
    and v: "validate_live_ref host name ref t db1 = Inr (d, b)" and L: "live_lease db1 d b"
    and f: "renew_delivery_step ls t d b db1 = Inr (r, db')"
    unfolding t_def by (rule with_live_refD[OF ok r(1)[unfolded renew_connector_delivery_def] r(2)])
  define until where "until = whole_seconds (max (case ps_lease_expires_at (dl_private d) of None \<Rightarrow> t | Some s \<Rightarrow> s)
    (connector_add_seconds t (max 1 ls)))"
  let ?e = "d\<lparr>dl_private := (dl_private d)\<lparr>ps_lease_expires_at := Some until\<rparr>\<rparr>"
  have d: "d \<in> set (deliveries db1)" "dl_status d = DvLeased" using live_leaseD(2)[OF L] leased_attemptD by blast+
  have "d \<in> leased_attempts db" using rec live_leaseD(2)[OF L] by (auto simp: recovers_def)
  then have d0: "d \<in> set (deliveries db)" using leased_attemptD by blast
  have ref: "stored_ref d = ref" by (rule validate_live_refD(4)[OF live_leaseD(1)[OF L] v])
  have res: "r = connector_response CoRenewed d None (Some until)" "?e \<in> set (deliveries db')"
    using f d(1) by (auto simp: renew_delivery_step_def Let_def until_def set_sql_update)
  have whole: "whole_seconds t = t" by (simp add: t_def)
  have lower: "t + second \<le> until"
  proof -
    have "t + second \<le> connector_add_seconds t (max 1 ls)"
      unfolding t_def add_seconds_now by (simp add: max_delay_seconds_def)
    then have "whole_seconds (t + 1 * second) \<le> until" unfolding until_def by (intro whole_seconds_mono) simp
    then show ?thesis unfolding whole_seconds_add whole by simp
  qed
  have bounds: "whole_seconds old \<le> until \<and> until \<le> max old (t + max_delay_seconds * second)"
    if "ps_lease_expires_at (dl_private d) = Some old" for old
  proof
    show "whole_seconds old \<le> until" unfolding until_def using that by (intro whole_seconds_mono) simp
    have "until \<le> max old (connector_add_seconds t (max 1 ls))"
      unfolding until_def using that whole_seconds_le by simp
    also have "\<dots> \<le> max old (t + max_delay_seconds * second)"
    proof -
      have "connector_add_seconds t (max 1 ls) \<le> t + max_delay_seconds * second"
        unfolding t_def add_seconds_now using second_pos by (simp add: max_delay_seconds_def)
      then show ?thesis by simp
    qed
    finally show "until \<le> max old (t + max_delay_seconds * second)" .
  qed
  show ?thesis
    by (rule bexI[OF _ d0], rule bexI[OF _ res(2)], rule exI[of _ until])
      (use d(2) ref res(1) lower bounds in \<open>simp add: stored_ref_def\<close>)
qed

text \<open>
  A row whose acknowledgement timed out is retried after between one and thirty
  seconds: the delay is the timeouts counted so far, doubled from one second and capped,
  the count grows by one (a malformed or missing count starts at one), and the lease and
  the acknowledgement deadline are cleared.
\<close>

theorem ack_retry_backoff:
  fixes s :: private_state
  defines "k \<equiv> ack_timeout_count s"
  shows "fst (connector_ack_retry_state s now) = (connector_private_clear_current s)
      \<lparr>ps_ack_timeout_count := Some k, ps_ack_deadline_at := None\<rparr>
    \<and> ack_timeout_count (fst (connector_ack_retry_state s now)) = k + 1 \<and> 1 \<le> k
    \<and> ack_retry_delay k = (if k < 6 then 2 ^ nat (k - 1) else 30)
    \<and> 1 \<le> ack_retry_delay k \<and> ack_retry_delay k \<le> 30
    \<and> snd (connector_ack_retry_state s now) = whole_seconds now + ack_retry_delay k * second"
proof -
  have k: "1 \<le> k" by (simp add: k_def ack_timeout_count_def split: option.split)
  have delay: "ack_retry_delay k = (if k < 6 then 2 ^ nat (k - 1) else 30)"
  proof (cases "k < 6")
    case True
    then have "k \<in> {1, 2, 3, 4, 5}" using k by auto
    then show ?thesis by (auto simp: ack_retry_delay_def ack_retry_backoff_max_def)
  next
    case False
    have "(2::int) ^ 5 \<le> 2 ^ nat (min (k - 1) 30)" using False by (intro power_increasing) auto
    then show ?thesis using False by (simp add: ack_retry_delay_def ack_retry_backoff_max_def)
  qed
  have low: "1 \<le> ack_retry_delay k" and high: "ack_retry_delay k \<le> 30"
    by (simp_all add: ack_retry_delay_def ack_retry_backoff_max_def)
  have eq: "connector_ack_retry_state s now = ((connector_private_clear_current s)
      \<lparr>ps_ack_timeout_count := Some k, ps_ack_deadline_at := None\<rparr>, connector_add_seconds now (ack_retry_delay k))"
    by (simp add: connector_ack_retry_state_def k_def)
  have "ack_timeout_count ((connector_private_clear_current s)\<lparr>ps_ack_timeout_count := Some k, ps_ack_deadline_at := None\<rparr>) = k + 1"
    using k by (simp add: ack_timeout_count_def)
  moreover have "connector_add_seconds now (ack_retry_delay k) = whole_seconds now + ack_retry_delay k * second"
    using low high by (simp add: connector_add_seconds_def whole_seconds_add max_delay_seconds_def)
  ultimately show ?thesis using k delay low high by (simp only: eq fst_conv snd_conv simp_thms)
qed

section \<open>Polling\<close>

text \<open>
  A poll never hands out a row whose lease is still live, whoever polls, and leaves
  the attempt that holds it in place.
\<close>

theorem live_lease_blocks_poll:
  assumes ok: "outbox_ok db"
    and p: "poll_connector_outbox E host name limit ls m now db = Inr (Some items, db')"
    and d: "d \<in> set (deliveries db)" "dl_status d = DvLeased" "dl_outbox_id d = Some i"
    and live: "ps_lease_expires_at (dl_private d) = Some until" "connector_now E now < until"
  shows "i \<notin> pi_outbox_id ` set items \<and> d \<in> set (deliveries db')"
proof -
  have ex: "ob_exists db" by (rule ccontr) (use p in \<open>auto simp: poll_connector_outbox_def\<close>)
  obtain db1 where r: "recovers (connector_now E now) db db1" "leased_attempts db1 \<subseteq> leased_attempts db'"
    "map pi_outbox_id items = map ob_id (poll_rows host name (connector_now E now) (nat (max 1 (min limit 100))) db1)"
    using poll_ok[OF ok ex refl refl, of E host name limit ls m now] p by auto
  have ok1: "outbox_ok db1" using r(1) by (simp add: recovers_def)
  have d1: "d \<in> leased_attempts db1"
    using r(1) d(1,2) live by (auto simp: recovers_def leased_attempts_def lease_due_def)
  obtain b where "b \<in> leased_rows db1" "row_lease b = attempt_lease d" "dl_outbox_id d = Some (ob_id b)"
    "delivery_row db1 d = Some b" "ps_current_delivery_id (ob_private b) = Some (dl_id d)"
    by (rule attempt_row[OF ok1 d1])
  then have b: "b \<in> set (outbox db1)" "ob_status b = ObLeased" "ob_id b = i"
    using d(3) leased_rowD by auto
  have "i \<notin> ob_id ` set (poll_rows host name (connector_now E now) (nat (max 1 (min limit 100))) db1)"
  proof
    assume "i \<in> ob_id ` set (poll_rows host name (connector_now E now) (nat (max 1 (min limit 100))) db1)"
    then obtain c where c: "c \<in> set (outbox db1)" "pollable host name (connector_now E now) db1 c" "ob_id c = i"
      using poll_rows_in(2)[OF ok1] by blast
    then have "c = b" using same_row[OF ok1] b by simp
    then show False using c(2) b(2) by (simp add: pollable_def pollable_status_def)
  qed
  moreover have "pi_outbox_id ` set items = ob_id ` set (poll_rows host name (connector_now E now) (nat (max 1 (min limit 100))) db1)"
    using arg_cong[OF r(3), of set] by simp
  ultimately show ?thesis using d1 r(2) by (auto simp: leased_attempts_def)
qed

lemma exhaust_rows_gone:
  "x \<in> set (outbox (fold (exhaust_row E now) bs db)) \<Longrightarrow>
    (x \<in> set (outbox db) \<and> ob_id x \<notin> ob_id ` set bs) \<or> ob_status x = ObDeadLetter"
proof (induction bs arbitrary: db)
  case (Cons b bs)
  then have "(x \<in> set (outbox (exhaust_row E now b db)) \<and> ob_id x \<notin> ob_id ` set bs) \<or> ob_status x = ObDeadLetter"
    by simp
  then show ?case by (auto simp: exhaust_row_def Let_def set_sql_update)
qed simp

lemma exhaust_rows_deliveries [simp]: "deliveries (fold (exhaust_row E now) bs db) = deliveries db"
  by (induction bs arbitrary: db) (simp_all add: exhaust_row_def Let_def)

lemma mark_exhausted_simps [simp]:
  "outbox (mark_exhausted_presentation_plans host name db) = outbox db"
  "deliveries (mark_exhausted_presentation_plans host name db) = deliveries db"
  by (simp_all add: mark_exhausted_presentation_plans_def)

lemma attempts_used_deliveries: "deliveries db' = deliveries db \<Longrightarrow> attempts_used db' i = attempts_used db i"
  by (simp add: attempts_used_def max_attempt_def attempts_of_def)

lemma exhaust_leaves:
  assumes "x \<in> set (outbox (snd (exhaust_retryable E host name limit now db)))"
    and "in_queue host name (ob_host x) (ob_connector x)" "pollable_status (ob_status x)"
  shows "attempts_used (snd (exhaust_retryable E host name limit now db)) (ob_id x) < max 1 limit"
proof -
  let ?bs = "sort_key ob_id (filter (retryable_exhausted host name limit db) (outbox db))"
  have db': "snd (exhaust_retryable E host name limit now db)
      = mark_exhausted_presentation_plans host name (fold (exhaust_row E now) ?bs db)"
    by (simp add: exhaust_retryable_def Let_def)
  have "x \<in> set (outbox (fold (exhaust_row E now) ?bs db))" using assms(1) by (simp add: db')
  from exhaust_rows_gone[OF this] have x: "x \<in> set (outbox db)" "ob_id x \<notin> ob_id ` set ?bs"
    using assms(3) by (auto simp: pollable_status_def)
  then have "\<not> retryable_exhausted host name limit db x" by auto
  then have "attempts_used db (ob_id x) < max 1 limit" using assms(2,3)
    by (simp add: retryable_exhausted_def not_le del: max.bounded_iff)
  moreover have "attempts_used (snd (exhaust_retryable E host name limit now db)) (ob_id x) = attempts_used db (ob_id x)"
    by (rule attempts_used_deliveries) (simp add: db')
  ultimately show ?thesis by simp
qed

lemma poll_prepare_limit:
  assumes p: "poll_prepare E host name (Some k) now db = Inr db1"
    and x: "x \<in> set (outbox db1)" "ob_host x = host" "ob_connector x = name" "pollable_status (ob_status x)"
  shows "attempts_used db1 (ob_id x) < max 1 k"
proof -
  obtain n db0 where db1: "db1 = mark_exhausted_presentation_plans host (Some name)
      (snd (exhaust_retryable E host (Some name) k now db0))"
    using p by (auto simp: poll_prepare_def bind_result_eq_Inr)
  have "attempts_used (snd (exhaust_retryable E host (Some name) k now db0)) (ob_id x) < max 1 k"
    by (rule exhaust_leaves) (use x in \<open>auto simp: db1 in_queue_def\<close>)
  moreover have "attempts_used db1 (ob_id x) = attempts_used (snd (exhaust_retryable E host (Some name) k now db0)) (ob_id x)"
    by (rule attempts_used_deliveries) (simp add: db1)
  ultimately show ?thesis by simp
qed

text \<open>
  C29: A poll hands out at most the limit (between one and a hundred), no row twice, and
  only rows of its queue that wait, are due, and have attempts left; each with a fresh
  leased attempt whose number is the next one and whose reference and deadline are the
  item's.  When it hands out fewer than the limit, it hands out every row that may be
  polled.
\<close>

theorem polled_rows_are_due:
  assumes ok: "outbox_ok db"
    and p: "poll_connector_outbox E host name limit ls m now db = Inr (Some items, db')"
  defines "t \<equiv> connector_now E now"
  shows "\<exists>db1. poll_prepare E host name m t db = Inr db1
    \<and> int (length items) \<le> max 1 (min limit 100) \<and> distinct (map pi_outbox_id items)
    \<and> (\<forall>i \<in> set items. \<exists>b \<in> set (outbox db1). ob_id b = pi_outbox_id i
         \<and> ob_host b = host \<and> ob_connector b = name
         \<and> ob_status b \<in> {ObQueued, ObDeferred, ObRetry} \<and> ob_kind b \<noteq> FinalMigrationHold
         \<and> (\<forall>at. ob_next_attempt_at b = Some at \<longrightarrow> at \<le> t)
         \<and> (\<forall>k. m = Some k \<longrightarrow> attempts_used db1 (ob_id b) < max 1 k)
         \<and> (\<exists>d \<in> set (deliveries db'). dl_status d = DvLeased \<and> dl_outbox_id d = Some (ob_id b)
              \<and> dl_id d = pi_delivery_id i \<and> dl_attempt d = pi_attempt i
              \<and> pi_attempt i = Suc (max_attempt db1 (ob_id b)) \<and> stored_ref d = pi_ref i
              \<and> ps_lease_expires_at (dl_private d) = Some (pi_leased_until i)
              \<and> pi_leased_until i = connector_add_seconds t (max 1 ls)))
    \<and> (int (length items) < max 1 (min limit 100) \<longrightarrow>
         (\<forall>b \<in> set (outbox db1). pollable host name t db1 b \<longrightarrow> ob_id b \<in> pi_outbox_id ` set items))"
proof -
  let ?n = "nat (max 1 (min limit 100))"
  have ex: "ob_exists db" by (rule ccontr) (use p in \<open>auto simp: poll_connector_outbox_def\<close>)
  obtain db1 where prep: "poll_prepare E host name m t db = Inr db1" and rec: "recovers t db db1"
    and ids: "map pi_outbox_id items = map ob_id (poll_rows host name t ?n db1)"
    and each: "\<forall>i \<in> set items. leased_item db1 db' (connector_add_seconds t (max 1 ls)) i"
    using poll_ok[OF ok ex refl refl, of E host name limit ls m now] p by (auto simp: t_def)
  have ok1: "outbox_ok db1" using rec by (simp add: recovers_def)
  have len: "length items = length (poll_rows host name t ?n db1)" using arg_cong[OF ids, of length] by simp
  have mem: "pi_outbox_id ` set items = ob_id ` set (poll_rows host name t ?n db1)" using arg_cong[OF ids, of set] by simp
  have "\<exists>b \<in> set (outbox db1). ob_id b = pi_outbox_id i \<and> ob_host b = host \<and> ob_connector b = name
         \<and> ob_status b \<in> {ObQueued, ObDeferred, ObRetry} \<and> ob_kind b \<noteq> FinalMigrationHold
         \<and> (\<forall>at. ob_next_attempt_at b = Some at \<longrightarrow> at \<le> t)
         \<and> (\<forall>k. m = Some k \<longrightarrow> attempts_used db1 (ob_id b) < max 1 k)
         \<and> (\<exists>d \<in> set (deliveries db'). dl_status d = DvLeased \<and> dl_outbox_id d = Some (ob_id b)
              \<and> dl_id d = pi_delivery_id i \<and> dl_attempt d = pi_attempt i
              \<and> pi_attempt i = Suc (max_attempt db1 (ob_id b)) \<and> stored_ref d = pi_ref i
              \<and> ps_lease_expires_at (dl_private d) = Some (pi_leased_until i)
              \<and> pi_leased_until i = connector_add_seconds t (max 1 ls))" if i: "i \<in> set items" for i
  proof -
    have "pi_outbox_id i \<in> ob_id ` set (poll_rows host name t ?n db1)" unfolding mem[symmetric] using i by (rule imageI)
    then obtain b where b: "ob_id b = pi_outbox_id i" "b \<in> set (outbox db1)" "pollable host name t db1 b"
      using poll_rows_in(2)[OF ok1] by force
    have lim: "attempts_used db1 (ob_id b) < max 1 k" if "m = Some k" for k
      by (rule poll_prepare_limit[OF prep[unfolded that] b(2)]) (use b(3) in \<open>simp_all add: pollable_def\<close>)
    obtain d where "d \<in> leased_attempts db'" "dl_outbox_id d = Some (pi_outbox_id i)" "dl_id d = pi_delivery_id i"
      "dl_attempt d = pi_attempt i" "ps_public_ref (dl_private d) = Some (pi_ref i)"
      "ps_lease_expires_at (dl_private d) = Some (connector_add_seconds t (max 1 ls))"
      using each i unfolding leased_item_def by blast
    moreover have "pi_attempt i = Suc (max_attempt db1 (pi_outbox_id i))" "pi_leased_until i = connector_add_seconds t (max 1 ls)"
      using each i by (simp_all add: leased_item_def)
    ultimately have "\<exists>d \<in> set (deliveries db'). dl_status d = DvLeased \<and> dl_outbox_id d = Some (ob_id b)
              \<and> dl_id d = pi_delivery_id i \<and> dl_attempt d = pi_attempt i
              \<and> pi_attempt i = Suc (max_attempt db1 (ob_id b)) \<and> stored_ref d = pi_ref i
              \<and> ps_lease_expires_at (dl_private d) = Some (pi_leased_until i)
              \<and> pi_leased_until i = connector_add_seconds t (max 1 ls)"
      by (intro bexI[of _ d]) (simp_all add: b(1) stored_ref_def leased_attempts_def)
    with b lim show ?thesis
      by (intro bexI[OF _ b(2)]) (auto simp: pollable_def pollable_status_def split: option.splits)
  qed
  moreover have "ob_id b \<in> pi_outbox_id ` set items"
    if "int (length items) < max 1 (min limit 100)" "b \<in> set (outbox db1)" "pollable host name t db1 b" for b
  proof -
    let ?all = "sort_key (poll_priority db1) (sort_key ob_id (filter (pollable host name t db1) (outbox db1)))"
    have "length (take ?n ?all) < ?n" using that(1) len by (simp add: poll_rows_def)
    then have "take ?n ?all = ?all" by (auto simp: min_def split: if_splits)
    then have "b \<in> set (poll_rows host name t ?n db1)" using that(2,3) by (simp add: poll_rows_def)
    then show ?thesis unfolding mem by (rule imageI)
  qed
  moreover have "int (length items) \<le> max 1 (min limit 100)"
  proof -
    have "length items \<le> ?n" using len by (simp add: poll_rows_def)
    then have "int (length items) \<le> int ?n" by (rule zle_int[THEN iffD2])
    moreover have "(0::int) \<le> max 1 (min limit 100)" by (simp add: le_max_iff_disj)
    ultimately show ?thesis by simp
  qed
  moreover have "distinct (map pi_outbox_id items)" unfolding ids by (rule poll_rows_in(1)[OF ok1])
  ultimately show ?thesis using prep by blast
qed

text \<open>
  C30: Parts of one final are handed out in order: once a part has been polled, every
  earlier part of the same ordering key, host and connector is delivered, superseded or
  a dead letter.
\<close>

theorem final_parts_in_order:
  assumes ok: "outbox_ok db"
    and p: "poll_connector_outbox E host name limit ls m now db = Inr (Some items, db')"
    and i: "i \<in> set items" and b: "b \<in> set (outbox db')" "ob_id b = pi_outbox_id i" "ob_kind b = FinalPart"
    and e: "e \<in> set (outbox db')" "ob_host e = ob_host b" "ob_connector e = ob_connector b" "ob_kind e = FinalPart"
      "ob_ordering_key e = ob_ordering_key b" "ob_id e < ob_id b"
  shows "ob_status e \<in> {ObDelivered, ObSuperseded, ObDeadLetter}"
proof -
  let ?t = "connector_now E now" and ?n = "nat (max 1 (min limit 100))"
  have ex: "ob_exists db" by (rule ccontr) (use p in \<open>auto simp: poll_connector_outbox_def\<close>)
  obtain db1 where rec: "recovers ?t db db1" and ev: "evolves db1 db'"
    and ids: "map pi_outbox_id items = map ob_id (poll_rows host name ?t ?n db1)"
    using poll_ok[OF ok ex refl refl, of E host name limit ls m now] p by auto
  have ok1: "outbox_ok db1" using rec by (simp add: recovers_def)
  have "pi_outbox_id i \<in> ob_id ` set (poll_rows host name ?t ?n db1)"
    using arg_cong[OF ids, of set] i by auto
  then obtain b1 where b1: "b1 \<in> set (outbox db1)" "pollable host name ?t db1 b1" "ob_id b1 = ob_id b"
    using poll_rows_in(2)[OF ok1] b(2) by force
  have rows: "list_all2 row_follows (outbox db1) (outbox db')" using ev by (simp add: evolves_def)
  obtain b0 where b0: "b0 \<in> set (outbox db1)" "row_follows b0 b" by (rule list_all2_source[OF rows b(1)])
  then have "b0 = b1" using same_row[OF ok1 _ b1(1)] b1(3) by (simp add: row_follows_def)
  then have fb: "row_follows b1 b" using b0(2) by simp
  obtain e1 where e1: "e1 \<in> set (outbox db1)" "row_follows e1 e" by (rule list_all2_source[OF rows e(1)])
  have "before_in_order e1 b1" using fb e1(2) b(3) e(2-6) by (simp add: before_in_order_def row_follows_def)
  moreover have "\<not> final_part_blocked db1 b1" using b1(2) fb b(3) by (simp add: pollable_def row_follows_def)
  ultimately have "\<not> open_status (ob_status e1)" using e1(1) by (auto simp: final_part_blocked_def list_ex_iff)
  then show ?thesis using e1(2) by (auto simp: row_follows_def open_status_def)
qed

section \<open>Maintenance\<close>

lemma reclaim_awaiting_row_zero:
  "fst (reclaim_awaiting_row E host now b db) = 0 \<longleftrightarrow>
    \<not> (awaiting_due db b now \<and> \<not> (recoverable_plan (source_plan db (ob_id b))
       \<and> (case source_plan db (ob_id b) of None \<Rightarrow> False | Some q \<Rightarrow> plan_has_live_job_lease db (pl_id q) now)))"
  and reclaim_awaiting_row_none:
  "fst (reclaim_awaiting_row E host now b db) = 0 \<Longrightarrow> snd (reclaim_awaiting_row E host now b db) = db"
proof -
  have "(fst (reclaim_awaiting_row E host now b db) = 0 \<longleftrightarrow>
    \<not> (awaiting_due db b now \<and> \<not> (recoverable_plan (source_plan db (ob_id b))
       \<and> (case source_plan db (ob_id b) of None \<Rightarrow> False | Some q \<Rightarrow> plan_has_live_job_lease db (pl_id q) now))))
    \<and> (fst (reclaim_awaiting_row E host now b db) = 0 \<longrightarrow> snd (reclaim_awaiting_row E host now b db) = db)"
  proof (cases "awaiting_due db b now")
    case True
    show ?thesis
    proof (cases "source_plan db (ob_id b)")
      case None
      then show ?thesis using True by (simp add: reclaim_awaiting_row_def recoverable_plan_def)
    next
      case (Some q)
      show ?thesis
        by (cases "pl_state q = PlCompleted"; cases "recoverable_plan (Some q)"; cases "plan_has_live_job_lease db (pl_id q) now")
          (use True Some in \<open>simp_all add: reclaim_awaiting_row_def recoverable_plan_def Let_def case_prod_beta\<close>)
    qed
  qed (simp add: reclaim_awaiting_row_def)
  then show "fst (reclaim_awaiting_row E host now b db) = 0 \<longleftrightarrow>
    \<not> (awaiting_due db b now \<and> \<not> (recoverable_plan (source_plan db (ob_id b))
       \<and> (case source_plan db (ob_id b) of None \<Rightarrow> False | Some q \<Rightarrow> plan_has_live_job_lease db (pl_id q) now)))"
    "fst (reclaim_awaiting_row E host now b db) = 0 \<Longrightarrow> snd (reclaim_awaiting_row E host now b db) = db"
    by blast+
qed

lemma reclaim_awaiting_rows_zero:
  "fst (reclaim_awaiting_rows E host now bs db) = 0 \<longleftrightarrow> (\<forall>b \<in> set bs. fst (reclaim_awaiting_row E host now b db) = 0)"
proof (induction bs arbitrary: db)
  case (Cons b bs)
  show ?case using Cons.IH reclaim_awaiting_row_none[of E host now b db] by (auto simp: case_prod_beta)
qed simp

text \<open>
  The read-only probe \<open>connector_reclaim_due\<close> and the pass agree: on an existing store
  the probe says yes exactly when the reclaim pass for the same queue and instant would
  count at least one reclaimed lease or row, and the pass never raises.
\<close>

theorem reclaim_due_iff_reclaims:
  assumes ok: "outbox_ok db" and ex: "ob_exists db"
  shows "\<exists>n db'. reclaim_expired_connector_leases E host name now db = Inr (Some n, db')
    \<and> (connector_reclaim_due E host name now db \<longleftrightarrow> 0 < n)"
proof -
  let ?t = "connector_now E now"
  obtain n db1 k db2 where r: "reclaim_expired_leases E host name ?t db = Inr (n + k, db2)"
    and n: "n = length (filter (\<lambda>d. lease_due d ?t) (leased_deliveries host name db))"
    and a: "reclaim_expired_awaiting_ack E host name ?t db1 = (k, db2)" and same: "n = 0 \<longrightarrow> db1 = db"
    using reclaim_expired_recovers[OF ok, of E host name ?t] by blast
  define waits where "waits b \<longleftrightarrow> awaiting_due db b ?t \<and> \<not> (recoverable_plan (source_plan db (ob_id b))
       \<and> (case source_plan db (ob_id b) of None \<Rightarrow> False | Some q \<Rightarrow> plan_has_live_job_lease db (pl_id q) ?t))" for b
  have k: "k = 0 \<longleftrightarrow> (\<forall>b \<in> set (awaiting_rows host name db). \<not> waits b)" if "n = 0"
    using a same that reclaim_awaiting_rows_zero[of E host ?t "awaiting_rows host name db" db]
    by (simp add: reclaim_expired_awaiting_ack_def reclaim_awaiting_row_zero waits_def)
  have due: "connector_reclaim_due E host name now db \<longleftrightarrow>
      (\<exists>d \<in> set (leased_deliveries host name db). lease_due d ?t) \<or> (\<exists>b \<in> set (awaiting_rows host name db). waits b)"
    using ex by (simp add: connector_reclaim_due_def Let_def list_ex_iff lease_due_def waits_def awaiting_rows_def)
  have n0: "n = 0 \<longleftrightarrow> (\<forall>d \<in> set (leased_deliveries host name db). \<not> lease_due d ?t)"
    by (simp add: n filter_empty_conv)
  have "connector_reclaim_due E host name now db \<longleftrightarrow> 0 < n + k"
    using due n0 k by auto
  moreover have "reclaim_expired_connector_leases E host name now db = Inr (Some (n + k), db2)"
    using r ex by (simp add: reclaim_expired_connector_leases_def)
  ultimately show ?thesis by blast
qed

lemma lease_ended:
  assumes ok: "outbox_ok db" "outbox_ok db'" and sub: "leased_attempts db' \<subseteq> leased_attempts db"
    and d: "d \<in> leased_attempts db" "d \<notin> leased_attempts db'"
  shows "e \<in> set (deliveries db') \<Longrightarrow> dl_id e = dl_id d \<Longrightarrow> dl_status e \<noteq> DvLeased"
    and "b \<in> set (outbox db') \<Longrightarrow> dl_outbox_id d = Some (ob_id b) \<Longrightarrow> ob_status b \<noteq> ObLeased"
proof -
  show "dl_status e \<noteq> DvLeased" if e: "e \<in> set (deliveries db')" "dl_id e = dl_id d"
  proof
    assume "dl_status e = DvLeased"
    then have l: "e \<in> leased_attempts db'" using e(1) by (simp add: leased_attempts_def)
    then have "e \<in> leased_attempts db" using sub by blast
    then have "e = d" using e(2) d(1) ok(1) unique_keyD[of dl_id "deliveries db" e d]
      by (simp add: leased_attempts_def outbox_ok_def base_ok_def)
    then show False using d(2) l by simp
  qed
  show "ob_status b \<noteq> ObLeased" if b: "b \<in> set (outbox db')" "dl_outbox_id d = Some (ob_id b)"
  proof
    assume "ob_status b = ObLeased"
    then have "b \<in> leased_rows db'" using b(1) by (simp add: leased_rows_def)
    from leased_match(2)[OF ok(2) this] obtain e where e: "e \<in> leased_attempts db'" "row_lease b = attempt_lease e" by blast
    then have "dl_outbox_id e = dl_outbox_id d" using b(2) by (simp add: row_lease_def attempt_lease_def)
    then have "e = d" using same_attempt[OF ok(1) _ d(1)] e(1) sub by blast
    then show False using e(1) d(2) by simp
  qed
qed

text \<open>
  C32: The reclaim pass ends every expired lease of its queue: an attempt that was leased
  and whose deadline has passed, or was never readable, is not leased afterwards and
  neither is its row; it is counted; no lease of the queue is left overdue; and no live
  lease is touched.
\<close>

theorem expired_leases_are_reclaimed:
  assumes ok: "outbox_ok db"
    and r: "reclaim_expired_connector_leases E host name now db = Inr (Some n, db')"
  defines "t \<equiv> connector_now E now"
  shows "(\<forall>d \<in> set (deliveries db). dl_status d = DvLeased \<and> in_queue host name (dl_host d) (dl_connector d) \<longrightarrow>
      (if case ps_lease_expires_at (dl_private d) of None \<Rightarrow> True | Some until \<Rightarrow> until \<le> t
       then 0 < n
         \<and> (\<forall>e \<in> set (deliveries db'). dl_id e = dl_id d \<longrightarrow> dl_status e \<noteq> DvLeased)
         \<and> (\<forall>b \<in> set (outbox db'). dl_outbox_id d = Some (ob_id b) \<longrightarrow> ob_status b \<noteq> ObLeased)
       else d \<in> set (deliveries db')))
    \<and> (\<forall>d \<in> set (deliveries db'). dl_status d = DvLeased \<and> in_queue host name (dl_host d) (dl_connector d) \<longrightarrow>
      (\<exists>until. ps_lease_expires_at (dl_private d) = Some until \<and> t < until))"
proof -
  have ex: "ob_exists db" by (rule ccontr) (use r in \<open>auto simp: reclaim_expired_connector_leases_def\<close>)
  obtain m db1 k db2 where re: "reclaim_expired_leases E host name t db = Inr (m + k, db2)" and rec: "recovers t db db2"
    and m: "m = length (filter (\<lambda>d. lease_due d t) (leased_deliveries host name db))"
    and a: "reclaim_expired_awaiting_ack E host name t db1 = (k, db2)" and rec1: "recovers t db db1"
    and left: "leased_attempts db1 = {d \<in> leased_attempts db. \<not> (d \<in> set (leased_deliveries host name db) \<and> lease_due d t)}"
    using reclaim_expired_recovers[OF ok, of E host name t] by blast
  have eq: "n = m + k" "db' = db2" using r re ex by (auto simp: reclaim_expired_connector_leases_def t_def)
  have "outbox_ok db1" using rec1 by (simp add: recovers_def)
  then have "recovers t db1 db2"
    using reclaim_awaiting_rows_recovers[of db1 t E host "awaiting_rows host name db1"] a
    by (simp add: reclaim_expired_awaiting_ack_def)
  then have sub: "leased_attempts db' \<subseteq> {d \<in> leased_attempts db. \<not> (d \<in> set (leased_deliveries host name db) \<and> lease_due d t)}"
    and ok': "outbox_ok db'" using left eq(2) by (auto simp: recovers_def)
  have due: "lease_due d t \<longleftrightarrow> (case ps_lease_expires_at (dl_private d) of None \<Rightarrow> True | Some until \<Rightarrow> until \<le> t)" for d
    by (simp add: lease_due_def split: option.split)
  have queue: "d \<in> set (leased_deliveries host name db) \<longleftrightarrow> d \<in> leased_attempts db \<and> in_queue host name (dl_host d) (dl_connector d)" for d
    by (auto simp: leased_deliveries_def leased_attempts_def)
  have gone: "0 < n \<and> (\<forall>e \<in> set (deliveries db'). dl_id e = dl_id d \<longrightarrow> dl_status e \<noteq> DvLeased)
      \<and> (\<forall>b \<in> set (outbox db'). dl_outbox_id d = Some (ob_id b) \<longrightarrow> ob_status b \<noteq> ObLeased)"
    if d: "d \<in> set (leased_deliveries host name db)" "lease_due d t" for d
  proof -
    have "d \<in> set (filter (\<lambda>d. lease_due d t) (leased_deliveries host name db))" using d by simp
    then have "0 < m" unfolding m by (simp only: length_pos_if_in_set)
    moreover have "leased_attempts db' \<subseteq> leased_attempts db" "d \<in> leased_attempts db" "d \<notin> leased_attempts db'"
      using d queue sub by auto
    ultimately show ?thesis using lease_ended[OF ok ok', of d] eq(1) by simp
  qed
  have live: "d \<in> set (deliveries db')" if "d \<in> leased_attempts db" "\<not> lease_due d t" for d
    using rec that by (auto simp: recovers_def leased_attempts_def eq(2))
  have after: "\<not> lease_due d t" if "d \<in> leased_attempts db'" "in_queue host name (dl_host d) (dl_connector d)" for d
    using that sub queue by auto
  show ?thesis
  proof (intro conjI ballI impI)
    fix d assume "d \<in> set (deliveries db)" "dl_status d = DvLeased \<and> in_queue host name (dl_host d) (dl_connector d)"
    then have q: "d \<in> leased_attempts db" "d \<in> set (leased_deliveries host name db)"
      by (simp_all add: queue leased_attempts_def)
    show "if case ps_lease_expires_at (dl_private d) of None \<Rightarrow> True | Some until \<Rightarrow> until \<le> t
       then 0 < n
         \<and> (\<forall>e \<in> set (deliveries db'). dl_id e = dl_id d \<longrightarrow> dl_status e \<noteq> DvLeased)
         \<and> (\<forall>b \<in> set (outbox db'). dl_outbox_id d = Some (ob_id b) \<longrightarrow> ob_status b \<noteq> ObLeased)
       else d \<in> set (deliveries db')"
      unfolding due[symmetric] using gone[OF q(2)] live[OF q(1)] by simp
  next
    fix d assume "d \<in> set (deliveries db')" "dl_status d = DvLeased \<and> in_queue host name (dl_host d) (dl_connector d)"
    then have "\<not> lease_due d t" by (intro after) (simp_all add: leased_attempts_def)
    then show "\<exists>until. ps_lease_expires_at (dl_private d) = Some until \<and> t < until"
      by (auto simp: due split: option.splits)
  qed
qed

text \<open>
  After \<open>exhaust_connector_retries\<close> no waiting row of the host has used up its attempts;
  a dry run counts the same rows and leaves the store as it was, reclaims included.
\<close>

theorem exhaustion_is_complete:
  assumes ok: "outbox_ok db" and ex: "ob_exists db"
  shows "\<exists>n db'. exhaust_connector_retries E host m now False db = Inr (Some n, db')
    \<and> exhaust_connector_retries E host m now True db = Inr (Some n, db)
    \<and> (\<forall>b \<in> set (outbox db'). ob_host b = host \<and> ob_status b \<in> {ObQueued, ObDeferred, ObRetry} \<longrightarrow>
         attempts_used db' (ob_id b) < max 1 m)"
proof -
  let ?t = "connector_now E now"
  obtain k db1 where r: "reclaim_expired_leases E host None ?t db = Inr (k, db1)"
    using reclaim_expired_recovers[OF ok, of E host None ?t] by auto
  let ?x = "exhaust_retryable E host None (max 1 m) ?t db1"
  have "exhaust_connector_retries E host m now False db = Inr (Some (fst ?x), snd ?x)"
    "exhaust_connector_retries E host m now True db = Inr (Some (fst ?x), db)"
    using ex r by (simp_all add: exhaust_connector_retries_def Let_def case_prod_beta)
  moreover have "attempts_used (snd ?x) (ob_id b) < max 1 m"
    if "b \<in> set (outbox (snd ?x))" "ob_host b = host" "ob_status b \<in> {ObQueued, ObDeferred, ObRetry}" for b
    using exhaust_leaves[of b E host None "max 1 m" ?t db1] that by (auto simp: in_queue_def pollable_status_def)
  ultimately show ?thesis by blast
qed

section \<open>Concrete polls and passes\<close>

lemma ex_renew:
  "\<exists>r db'. renew_connector_delivery ex_connector (lit ''h'') (lit ''c'') (lit ''ref1'') 90 (Some (110 * second)) ex_leased = Inr (r, db')
     \<and> co_ok r \<and> co_leased_until r = Some (200 * second)"
  by (rule exI, rule exI, rule conjI, code_simp, code_simp)

theorem renewal_bounds_witness:
  "\<exists>r db'. renew_connector_delivery ex_connector (lit ''h'') (lit ''c'') (lit ''ref1'') 90 (Some (110 * second)) ex_leased = Inr (r, db')
     \<and> (\<exists>e \<in> set (deliveries db'). dl_status e = DvLeased \<and> ps_lease_expires_at (dl_private e) = Some (200 * second))"
proof -
  obtain r db' where a: "renew_connector_delivery ex_connector (lit ''h'') (lit ''c'') (lit ''ref1'') 90
      (Some (110 * second)) ex_leased = Inr (r, db')" "co_ok r" "co_leased_until r = Some (200 * second)"
    using ex_renew by blast
  have "\<exists>e \<in> set (deliveries db'). dl_status e = DvLeased \<and> ps_lease_expires_at (dl_private e) = Some (200 * second)"
    using renewal_bounds[OF ex_queues_ok(2) a(1,2)] a(3) by auto
  with a(1) show ?thesis by blast
qed

theorem live_lease_blocks_poll_witness:
  "7 \<notin> pi_outbox_id ` set ([] :: poll_item list) \<and> ex_attempt 7 DvLeased (160 * second) \<in> set (deliveries ex_leased)"
  by (rule live_lease_blocks_poll[OF ex_queues_ok(2) ex_poll_again, where until = "160 * second"])
    (simp_all add: ex_leased_def ex_queue_def ex_attempt_def ex_lease_def connector_private_with_lease_def
      connector_now_def whole_seconds_def second_def)

theorem polled_rows_are_due_witness:
  "\<exists>d \<in> set (deliveries ex_leased). dl_status d = DvLeased \<and> dl_outbox_id d = Some 7 \<and> dl_attempt d = 1"
  using polled_rows_are_due[OF ex_queues_ok(1) ex_poll] by auto

definition ex_parts :: outbox_db where
  "ex_parts = ex_queue [ex_row 6 FinalPart ObDelivered no_private, ex_row 7 FinalPart ObQueued no_private] []"

lemma ex_parts_ok: "outbox_ok ex_parts"
  by (auto simp: outbox_ok_def base_ok_def ex_parts_def ex_queue_def ex_row_def
      leased_rows_def leased_attempts_def unique_key_def)

lemma ex_poll_parts:
  "\<exists>items db'. poll_connector_outbox ex_connector (lit ''h'') (lit ''c'') 2 60 None None ex_parts = Inr (Some items, db')
     \<and> map pi_outbox_id items = [7] \<and> map ob_id (outbox db') = [6, 7] \<and> map ob_kind (outbox db') = [FinalPart, FinalPart]
     \<and> map ob_host (outbox db') = [lit ''h'', lit ''h''] \<and> map ob_connector (outbox db') = [lit ''c'', lit ''c'']
     \<and> map ob_ordering_key (outbox db') = [lit ''o'', lit ''o'']"
  by (rule exI, rule exI, rule conjI, code_simp, code_simp)

theorem final_parts_in_order_witness:
  "\<exists>items db' e b. poll_connector_outbox ex_connector (lit ''h'') (lit ''c'') 2 60 None None ex_parts = Inr (Some items, db')
     \<and> outbox db' = [e, b] \<and> ob_status e \<in> {ObDelivered, ObSuperseded, ObDeadLetter}"
proof -
  obtain items db' where a: "poll_connector_outbox ex_connector (lit ''h'') (lit ''c'') 2 60 None None ex_parts = Inr (Some items, db')"
    "map pi_outbox_id items = [7]" "map ob_id (outbox db') = [6, 7]" "map ob_kind (outbox db') = [FinalPart, FinalPart]"
    "map ob_host (outbox db') = [lit ''h'', lit ''h'']" "map ob_connector (outbox db') = [lit ''c'', lit ''c'']"
    "map ob_ordering_key (outbox db') = [lit ''o'', lit ''o'']" using ex_poll_parts by (elim exE conjE) (rule that)
  obtain e b where eb: "outbox db' = [e, b]" using a(3) by (auto simp: map_eq_Cons_conv)
  obtain i where i: "items = [i]" "pi_outbox_id i = 7" using a(2) by (auto simp: map_eq_Cons_conv)
  have "ob_status e \<in> {ObDelivered, ObSuperseded, ObDeadLetter}"
    by (rule final_parts_in_order[OF ex_parts_ok a(1), of i b]) (use a(3-7) eb i in simp_all)
  with a(1) eb show ?thesis by blast
qed

lemma ex_due: "connector_reclaim_due ex_connector (lit ''h'') None (Some (200 * second)) ex_leased"
  by code_simp

theorem reclaim_due_iff_reclaims_witness:
  "\<exists>n db'. reclaim_expired_connector_leases ex_connector (lit ''h'') None (Some (200 * second)) ex_leased = Inr (Some n, db') \<and> 0 < n"
proof -
  have "ob_exists ex_leased" by (simp add: ex_leased_def ex_queue_def)
  from reclaim_due_iff_reclaims[OF ex_queues_ok(2) this, of ex_connector "lit ''h''" None "Some (200 * second)"]
  show ?thesis
    using ex_due by blast
qed

lemma ex_reclaim:
  "\<exists>n db'. reclaim_expired_connector_leases ex_connector (lit ''h'') None (Some (200 * second)) ex_leased = Inr (Some n, db')"
  by (rule exI, rule exI, code_simp)

theorem expired_leases_are_reclaimed_witness:
  "\<exists>n db'. reclaim_expired_connector_leases ex_connector (lit ''h'') None (Some (200 * second)) ex_leased = Inr (Some n, db')
     \<and> 0 < n \<and> (\<forall>b \<in> set (outbox db'). ob_id b = 7 \<longrightarrow> ob_status b \<noteq> ObLeased)"
proof -
  obtain n db' where a: "reclaim_expired_connector_leases ex_connector (lit ''h'') None (Some (200 * second)) ex_leased = Inr (Some n, db')"
    using ex_reclaim by blast
  have "0 < n \<and> (\<forall>b \<in> set (outbox db'). ob_id b = 7 \<longrightarrow> ob_status b \<noteq> ObLeased)"
    using expired_leases_are_reclaimed[OF ex_queues_ok(2) a]
    by (simp add: ex_leased_def ex_queue_def ex_attempt_def ex_lease_def connector_private_with_lease_def in_queue_def
        connector_now_def whole_seconds_def second_def)
  with a show ?thesis by blast
qed

theorem exhaustion_is_complete_witness:
  "\<exists>n db'. exhaust_connector_retries ex_connector (lit ''h'') 1 (Some (200 * second)) False ex_leased = Inr (Some n, db')
     \<and> exhaust_connector_retries ex_connector (lit ''h'') 1 (Some (200 * second)) True ex_leased = Inr (Some n, ex_leased)"
proof -
  have "ob_exists ex_leased" by (simp add: ex_leased_def ex_queue_def)
  from exhaustion_is_complete[OF ex_queues_ok(2) this, of ex_connector "lit ''h''" 1 "Some (200 * second)"]
  show ?thesis by blast
qed

end
