(* ===== verification/PublicFields.thy ===== *)
theory PublicFields
  imports Json
begin

text \<open>
  What every public or hashed JSON text goes through first: \<open>sanitize_forbidden_fields\<close> of
  \<open>core/models.py\<close> drops the fields whose names could carry connector, routing or secret
  data, at any depth; \<open>stable_json_dumps\<close> prints what is left.
\<close>

section \<open>Field names\<close>

definition forbidden_field_names :: "string list" where
  "forbidden_field_names =
    [''telegram'', ''telegram_chat_id'', ''telegram_chat_ids'', ''telegram_id'', ''telegram_ids'',
     ''telegram_message_id'', ''telegram_message_ids'', ''telegram_thread_id'',
     ''telegram_thread_ids'', ''telegram_topic_id'', ''telegram_topic_ids'', ''chat_id'',
     ''chat_ids'', ''topic_id'', ''topic_ids'', ''message_id'', ''message_ids'', ''thread_id'',
     ''thread_ids'', ''token'', ''tokens'', ''bot_token'', ''bot_tokens'', ''auth'',
     ''auth_token'', ''auth_tokens'', ''authorization'', ''authorization_header'',
     ''authorization_headers'', ''bearer_token'', ''bearer_tokens'', ''cookie'', ''cookies'',
     ''credential'', ''credentials'', ''delivery'', ''delivery_id'', ''delivery_ids'',
     ''deliveries'', ''route'', ''route_id'', ''route_ids'', ''routes'', ''connector'',
     ''connector_id'', ''connector_ids'', ''connectors'', ''herdres_delivery'', ''backend_target'',
     ''backend_target_id'', ''backend_target_ids'', ''backend_targets'', ''terminal'',
     ''terminal_id'', ''terminal_ids'', ''terminals'', ''pane_id'', ''pane_ids'', ''tab_id'',
     ''tab_ids'', ''window_id'', ''window_ids'', ''tty'', ''pty'', ''pid'', ''pids'',
     ''process_id'', ''process_ids'', ''process'', ''tmux'', ''tmux_session'', ''tmux_session_id'',
     ''tmux_session_ids'', ''tmux_sessions'', ''tmux_window'', ''tmux_window_id'',
     ''tmux_window_ids'', ''tmux_windows'', ''tmux_pane'', ''tmux_pane_id'', ''tmux_pane_ids'',
     ''tmux_panes'', ''screen'', ''screen_session'', ''screen_session_id'', ''screen_session_ids'',
     ''screen_sessions'', ''screen_window'', ''screen_window_id'', ''screen_window_ids'',
     ''screen_windows'', ''agent_session'', ''agent_session_id'', ''agent_session_ids'',
     ''agent_sessions'', ''session'', ''session_id'', ''session_ids'', ''sessions'',
     ''herdr_state'', ''herdres_state'', ''target_kind'', ''target_value'', ''turn_target_kind'',
     ''turn_target_value'', ''private'', ''private_binding'', ''private_bindings'',
     ''private_fingerprint'', ''private_fingerprints'', ''argv'', ''args'', ''command'',
     ''command_arg'', ''command_args'', ''command_argv'', ''command_argvs'', ''command_line'',
     ''command_lines'', ''command_payload'', ''command_payloads'', ''command_text'',
     ''command_texts'', ''env'', ''environment'', ''raw_arg'', ''raw_args'', ''raw_argv'',
     ''raw_argvs'', ''raw_command'', ''raw_command_line'', ''raw_command_lines'', ''raw_payload'',
     ''raw_payloads'', ''raw_control'', ''raw_controls'', ''shell_command'', ''shell_commands'',
     ''terminal_control'', ''terminal_controls'', ''control_sequence'', ''control_sequences'',
     ''escape_sequence'', ''escape_sequences'', ''ansi_escape'', ''stdin'', ''stderr'', ''stdout'',
     ''shell'', ''secret'', ''secrets'', ''password'', ''passwords'', ''api_keys'', ''api_key'',
     ''tool_id'', ''tool_ids'', ''tool_use_id'', ''tool_use_ids'', ''tool_call_id'',
     ''tool_call_ids'', ''decision_id'', ''decision_ids'', ''pending_decision_id'',
     ''pending_decision_ids'', ''cwd'', ''workdir'', ''working_dir'', ''working_directory'',
     ''project_root'', ''repository_root'', ''repo_root'', ''path'', ''paths'', ''file_path'',
     ''file_paths'', ''filepath'', ''filepaths'', ''socket_path'', ''socket_paths'', ''url'',
     ''urls'', ''endpoint'', ''endpoints'', ''network_endpoint'', ''network_endpoints'', ''ip'',
     ''ip_address'', ''port'', ''headers'', ''output'']"

text \<open>
  \<open>str.lower()\<close> as far as the comparison with ASCII names can tell: of the characters
  outside ASCII only the Kelvin sign lowers to an ASCII letter.
\<close>

definition lower_char :: "nat \<Rightarrow> nat" where
  "lower_char c = (if 65 \<le> c \<and> c \<le> 90 then c + 32 else if c = 0x212A then 107 else c)"

definition normalized_name :: "ustr \<Rightarrow> ustr" where
  "normalized_name key = map (\<lambda>c. if c = 45 \<or> c = 46 then 95 else lower_char c) key"

definition compact_name :: "ustr \<Rightarrow> ustr" where
  "compact_name key = filter (\<lambda>c. c \<noteq> 95) key"

definition is_forbidden_field_name :: "ustr \<Rightarrow> bool" where
  "is_forbidden_field_name key =
     (let n = normalized_name key in
      n \<in> set (map lit forbidden_field_names)
      \<or> compact_name n \<in> set (map (\<lambda>s. compact_name (lit s)) forbidden_field_names))"

section \<open>Sanitizing\<close>

fun sanitize_forbidden_fields :: "json \<Rightarrow> json" where
  "sanitize_forbidden_fields (JDict ps) =
     JDict (map (\<lambda>kv. (fst kv, sanitize_forbidden_fields (snd kv)))
       (filter (\<lambda>kv. \<not> is_forbidden_field_name (fst kv)) ps))"
| "sanitize_forbidden_fields (JList xs) = JList (map sanitize_forbidden_fields xs)"
| "sanitize_forbidden_fields v = v"

definition stable_json_dumps :: "json \<Rightarrow> ustr" where
  "stable_json_dumps v = json_dumps (sanitize_forbidden_fields v)"

text \<open>No forbidden field at any depth.\<close>

fun field_clean :: "json \<Rightarrow> bool" where
  "field_clean (JDict ps) \<longleftrightarrow> list_all (\<lambda>kv. \<not> is_forbidden_field_name (fst kv) \<and> field_clean (snd kv)) ps"
| "field_clean (JList xs) \<longleftrightarrow> list_all field_clean xs"
| "field_clean v \<longleftrightarrow> True"

lemma sanitize_clean: "field_clean (sanitize_forbidden_fields v)"
  by (induction v) (auto simp: list_all_iff)

lemma clean_sanitize: "field_clean v \<Longrightarrow> sanitize_forbidden_fields v = v"
proof (induction v)
  case (JDict ps)
  then have "filter (\<lambda>kv. \<not> is_forbidden_field_name (fst kv)) ps = ps" by (simp add: list_all_iff filter_id_conv)
  moreover have "map (\<lambda>kv. (fst kv, sanitize_forbidden_fields (snd kv))) ps = ps"
    using JDict by (intro map_idI) (force simp: list_all_iff)
  ultimately show ?case by simp
next
  case (JList xs)
  then show ?case by (auto simp: list_all_iff intro: map_idI)
qed simp_all

text \<open>
  Sanitizing leaves no forbidden field name at any depth, whatever its case and
  whether its words are joined by underscores, dashes, dots or nothing; sanitizing again
  changes nothing; and a value is left alone exactly when it has no such field.
\<close>

theorem no_forbidden_field_survives:
  "field_clean (sanitize_forbidden_fields v)
    \<and> sanitize_forbidden_fields (sanitize_forbidden_fields v) = sanitize_forbidden_fields v
    \<and> (sanitize_forbidden_fields v = v \<longleftrightarrow> field_clean v)"
  using sanitize_clean[of v] clean_sanitize[of v] clean_sanitize[OF sanitize_clean[of v]] by metis

lemma sanitize_plain: "json_plain v \<Longrightarrow> json_plain (sanitize_forbidden_fields v)"
proof (induction v)
  case (JDict ps)
  have "distinct (map fst (filter (\<lambda>kv. \<not> is_forbidden_field_name (fst kv)) ps))"
    using JDict.prems by (auto simp: distinct_map_filter)
  then show ?case using JDict by (auto simp: list_all_iff comp_def)
qed (auto simp: list_all_iff)

text \<open>Names made of small letters, digits and underscores normalise to themselves.\<close>

definition plain_name :: "string \<Rightarrow> bool" where
  "plain_name s \<longleftrightarrow> list_all (\<lambda>c. c \<in> set ''abcdefghijklmnopqrstuvwxyz0123456789_'') s"

lemma normalized_plain:
  assumes "plain_name s"
  shows "normalized_name (lit s) = lit s"
proof -
  have "(if of_char c = (45::nat) \<or> of_char c = (46::nat) then 95 else lower_char (of_char c)) = (of_char c :: nat)"
    if "c \<in> set ''abcdefghijklmnopqrstuvwxyz0123456789_''" for c
    using that by (auto simp: lower_char_def)
  then show ?thesis using assms by (simp add: normalized_name_def lit_def plain_name_def list_all_iff)
qed

lemma compact_lit: "compact_name (lit s) = lit (filter (\<lambda>c. c \<noteq> CHR ''_'') s)"
proof (induction s)
  case (Cons c s)
  have "(of_char c = (95::nat)) \<longleftrightarrow> c = CHR ''_''"
    using of_char_eq_iff[where 'a = nat, of c "CHR ''_''"] by simp
  with Cons show ?case by (simp add: compact_name_def lit_def)
qed (simp add: compact_name_def lit_def)

lemma allowed_name:
  assumes "plain_name s" "s \<notin> set forbidden_field_names"
    "filter (\<lambda>c. c \<noteq> CHR ''_'') s \<notin> set (map (filter (\<lambda>c. c \<noteq> CHR ''_'')) forbidden_field_names)"
  shows "\<not> is_forbidden_field_name (lit s)"
  using assms by (auto simp: is_forbidden_field_name_def normalized_plain compact_lit image_iff)

end
