(* ===== verification/Transport.thy ===== *)
theory Transport
  imports Sha256
begin

text \<open>
  The two transport encodings under every token: strict UTF-8 in both directions, and
  URL-safe base64 without padding.
\<close>

section \<open>UTF-8\<close>

text \<open>
  Python's \<open>str.encode("utf-8")\<close> refuses surrogates, and a \<open>str\<close> holds nothing beyond
  U+10FFFF.
\<close>

definition unicode_char :: "nat \<Rightarrow> bool" where
  "unicode_char c \<longleftrightarrow> c < 0xD800 \<or> (0xE000 \<le> c \<and> c < 0x110000)"

definition unicode_text :: "ustr \<Rightarrow> bool" where
  "unicode_text s \<longleftrightarrow> list_all unicode_char s"

definition continuation :: "nat \<Rightarrow> bool" where
  "continuation b \<longleftrightarrow> 0x80 \<le> b \<and> b < 0xC0"

text \<open>\<open>bytes.decode("utf-8")\<close>: the shortest form only, no surrogates, nothing beyond U+10FFFF.\<close>

fun utf8_decode :: "nat list \<Rightarrow> ustr option" where
  "utf8_decode [] = Some []"
| "utf8_decode (a # r) =
     (if a < 0x80 then map_option ((#) a) (utf8_decode r)
      else if 0xC2 \<le> a \<and> a < 0xE0 then
        (case r of b # r2 \<Rightarrow>
           if continuation b then map_option ((#) ((a - 0xC0) * 64 + (b - 0x80))) (utf8_decode r2) else None
         | _ \<Rightarrow> None)
      else if 0xE0 \<le> a \<and> a < 0xF0 then
        (case r of b # c # r2 \<Rightarrow>
           let u = (a - 0xE0) * 4096 + (b - 0x80) * 64 + (c - 0x80) in
           if continuation b \<and> continuation c \<and> 0x800 \<le> u \<and> unicode_char u
           then map_option ((#) u) (utf8_decode r2) else None
         | _ \<Rightarrow> None)
      else if 0xF0 \<le> a \<and> a < 0xF5 then
        (case r of b # c # d # r2 \<Rightarrow>
           let u = (a - 0xF0) * 262144 + (b - 0x80) * 4096 + (c - 0x80) * 64 + (d - 0x80) in
           if continuation b \<and> continuation c \<and> continuation d \<and> 0x10000 \<le> u \<and> unicode_char u
           then map_option ((#) u) (utf8_decode r2) else None
         | _ \<Rightarrow> None)
      else None)"

lemma utf8_char_bytes: "unicode_char c \<Longrightarrow> b \<in> set (utf8_char c) \<Longrightarrow> b < 256"
  by (auto simp: utf8_char_def unicode_char_def split: if_splits)

lemma utf8_encode_bytes: "unicode_text s \<Longrightarrow> b \<in> set (utf8_encode s) \<Longrightarrow> b < 256"
  by (induction s) (auto simp: unicode_text_def dest: utf8_char_bytes)

lemma length_utf8_char: "length (utf8_char c) = (if c < 0x80 then 1 else if c < 0x800 then 2 else if c < 0x10000 then 3 else 4)"
  by (simp add: utf8_char_def)

lemma length_utf8_encode_ge: "length s \<le> length (utf8_encode s)"
  by (induction s) (auto simp: length_utf8_char)

lemma base_64_digits: "c div 64 mod 64 * 64 + c mod 64 = (c::nat) mod 4096"
  "c div 4096 * 4096 + c mod 4096 = c" "c div 64 * 64 + c mod 64 = c"
  "c div 262144 * 262144 + c div 4096 mod 64 * 4096 + c mod 4096 = c"
proof -
  show "c div 64 mod 64 * 64 + c mod 64 = c mod 4096"
    using mod_mult2_eq[of c 64 64] by simp
  show "c div 4096 * 4096 + c mod 4096 = c" "c div 64 * 64 + c mod 64 = c" by simp_all
  have "c div 262144 = c div 4096 div 64" by (simp add: div_mult2_eq[symmetric])
  then have "c div 262144 * 64 + c div 4096 mod 64 = c div 4096" by simp
  then have "(c div 262144 * 64 + c div 4096 mod 64) * 4096 + c mod 4096 = c" by simp
  then show "c div 262144 * 262144 + c div 4096 mod 64 * 4096 + c mod 4096 = c" by (simp add: distrib_right)
qed

lemma utf8_decode_char:
  assumes "unicode_char c"
  shows "utf8_decode (utf8_char c @ r) = map_option ((#) c) (utf8_decode r)"
proof -
  have m: "continuation (0x80 + k mod 64)" for k by (simp add: continuation_def)
  consider "c < 0x80" | "0x80 \<le> c" "c < 0x800" | "0x800 \<le> c" "c < 0x10000" | "0x10000 \<le> c" "c < 0x110000"
    using assms unfolding unicode_char_def by linarith
  then show ?thesis
  proof cases
    case 2
    have "2 \<le> c div 64" "c div 64 < 32" using 2 by (simp_all add: div_less_iff_less_mult less_eq_div_iff_mult_less_eq)
    then show ?thesis using 2 m by (simp add: utf8_char_def)
  next
    case 3
    have d: "c div 4096 < 16" using 3 by (simp add: div_less_iff_less_mult)
    have u: "c div 4096 * 4096 + c div 64 mod 64 * 64 + c mod 64 = c" using base_64_digits(1,2)[of c] by linarith
    show ?thesis using 3 d m assms by (simp add: utf8_char_def Let_def u)
  next
    case 4
    have d: "c div 262144 < 5" using 4 by (simp add: div_less_iff_less_mult)
    have u: "c div 262144 * 262144 + c div 4096 mod 64 * 4096 + c div 64 mod 64 * 64 + c mod 64 = c"
      using base_64_digits(1,4)[of c] by linarith
    show ?thesis using 4 d m assms by (simp add: utf8_char_def Let_def u)
  qed (simp add: utf8_char_def)
qed

lemma utf8_round_trip: "unicode_text s \<Longrightarrow> utf8_decode (utf8_encode s) = Some s"
  by (induction s) (simp_all add: unicode_text_def utf8_decode_char del: utf8_decode.simps(2))

section \<open>Base64\<close>

definition base64_char :: "nat \<Rightarrow> nat" where
  "base64_char d = (if d < 26 then 65 + d else if d < 52 then 71 + d else if d < 62 then d - 4
                    else if d = 62 then 45 else 95)"

definition base64_digit :: "nat \<Rightarrow> nat option" where
  "base64_digit c = (if 65 \<le> c \<and> c \<le> 90 then Some (c - 65) else if 97 \<le> c \<and> c \<le> 122 then Some (c - 71)
                     else if 48 \<le> c \<and> c \<le> 57 then Some (c + 4) else if c = 45 then Some 62
                     else if c = 95 then Some 63 else None)"

lemma base64_digit_char [simp]: "d < 64 \<Longrightarrow> base64_digit (base64_char d) = Some d"
  by (auto simp: base64_digit_def base64_char_def)

fun base64url :: "nat list \<Rightarrow> ustr" where
  "base64url [] = []"
| "base64url [a] = [base64_char (a div 4), base64_char (a mod 4 * 16)]"
| "base64url [a, b] = [base64_char (a div 4), base64_char (a mod 4 * 16 + b div 16), base64_char (b mod 16 * 4)]"
| "base64url (a # b # c # r) =
     base64_char (a div 4) # base64_char (a mod 4 * 16 + b div 16) # base64_char (b mod 16 * 4 + c div 64)
       # base64_char (c mod 64) # base64url r"

text \<open>
  \<open>base64.b64decode\<close> with the padding put back and \<open>validate=True\<close>; like Python's it
  ignores the unused bits of the last digit.
\<close>

fun base64_quads :: "nat list \<Rightarrow> nat list option" where
  "base64_quads [] = Some []"
| "base64_quads [w] = None"
| "base64_quads [w, x] = Some [w * 4 + x div 16]"
| "base64_quads [w, x, y] = Some [w * 4 + x div 16, x mod 16 * 16 + y div 4]"
| "base64_quads (w # x # y # z # r) =
     map_option (\<lambda>bs. (w * 4 + x div 16) # (x mod 16 * 16 + y div 4) # (y mod 4 * 64 + z) # bs) (base64_quads r)"

definition base64_decode :: "ustr \<Rightarrow> nat list option" where
  "base64_decode s =
     (if list_all (\<lambda>c. base64_digit c \<noteq> None) s then base64_quads (map (the \<circ> base64_digit) s) else None)"

lemma two_digits:
  fixes x y :: nat
  assumes "x < m" "y < n"
  shows "(x * n + y) div n = x" "(x * n + y) mod n = y" "x * n + y < m * n"
proof -
  show "(x * n + y) div n = x" "(x * n + y) mod n = y" using assms(2) by simp_all
  have "x * n + y < (x + 1) * n" using assms(2) by simp
  also have "\<dots> \<le> m * n" using assms(1) by (intro mult_le_mono1) simp
  finally show "x * n + y < m * n" .
qed

lemma base64url_digits:
  "\<forall>b \<in> set bs. b < 256 \<Longrightarrow> \<exists>ds. base64url bs = map base64_char ds \<and> (\<forall>d \<in> set ds. d < 64) \<and> base64_quads ds = Some bs"
proof (induction bs rule: base64url.induct)
  case (2 a)
  have "a div 4 < 64" using 2 by (simp add: div_less_iff_less_mult)
  then show ?case using 2 by (intro exI[of _ "[a div 4, a mod 4 * 16]"]) auto
next
  case (3 a b)
  have ab: "a div 4 < 64" "b div 16 < 16" using 3 by (simp_all add: div_less_iff_less_mult)
  note t = two_digits[of "a mod 4" 4 "b div 16" 16, OF _ ab(2)] two_digits[of "b mod 16" 16 0 4]
  show ?case using ab t
    by (intro exI[of _ "[a div 4, a mod 4 * 16 + b div 16, b mod 16 * 4]"]) simp
next
  case (4 a b c r)
  obtain ds where ds: "base64url r = map base64_char ds" "\<forall>d \<in> set ds. d < 64" "base64_quads ds = Some r"
    using 4 by auto
  have abc: "a div 4 < 64" "b div 16 < 16" "c div 64 < 4" using 4(2) by (simp_all add: div_less_iff_less_mult)
  note t = two_digits[of "a mod 4" 4 "b div 16" 16, OF _ abc(2)] two_digits[of "b mod 16" 16 "c div 64" 4, OF _ abc(3)]
  show ?case using abc t ds
    by (intro exI[of _ "a div 4 # (a mod 4 * 16 + b div 16) # (b mod 16 * 4 + c div 64) # c mod 64 # ds"]) simp
qed simp

lemma base64_round_trip:
  assumes "\<forall>b \<in> set bs. b < 256"
  shows "base64_decode (base64url bs) = Some bs"
proof -
  obtain ds where ds: "base64url bs = map base64_char ds" "\<forall>d \<in> set ds. d < 64" "base64_quads ds = Some bs"
    using base64url_digits[OF assms] by blast
  have "map (the \<circ> base64_digit) (map base64_char ds) = ds" using ds(2) by (induction ds) auto
  moreover have "list_all (\<lambda>c. base64_digit c \<noteq> None) (map base64_char ds)" using ds(2) by (auto simp: list_all_iff)
  ultimately show ?thesis by (simp add: base64_decode_def ds(1,3))
qed

lemma length_base64url: "length (base64url bs) = (4 * length bs + 2) div 3"
  by (induction bs rule: base64url.induct) auto

lemma base64url_chars: "\<forall>b \<in> set bs. b < 256 \<Longrightarrow> c \<in> set (base64url bs) \<Longrightarrow> base64_digit c \<noteq> None"
  using base64url_digits[of bs] by auto

end
