(* ===== verification/Segments.thy ===== *)
theory Segments
  imports Transport
begin

text \<open>
  Canonical turn text cut into pages (\<open>segment_canonical_text\<close> of \<open>core/turns.py\<close>): a page
  is a run of whole code points whose UTF-8 form fits the byte limit.
\<close>

section \<open>Errors\<close>

text \<open>
  What the module raises: a \<open>ValueError\<close> with one of its codes (\<open>EncodeError\<close> is Python's
  own \<open>UnicodeEncodeError\<close>, a \<open>ValueError\<close> too), or Python's \<open>TypeError\<close>: from comparing a
  digest with characters outside ASCII, or from looking a list up in a set.
\<close>

datatype content_error =
    InvalidContentField | InvalidContentAvailability | AbsentContentHasText | AvailableContentHasNoText
  | InvalidTurnId | InvalidHostId | InvalidContentRevision | InvalidSegmentIndex
  | InvalidCursor | CursorExpired | ExpiredCursor | InvalidWatermark | CrossHostWatermark | IncompatibleSchema
  | SurrogateInText | EncodeError | LimitNotPositive | LimitBelowCodePoint | ContentHasNoSegments
  | InvalidInlineLimit | InvalidPreviewLimit | InvalidPersistedDescriptor
  | InvalidContentLength | IncompleteContentInlineOrPaged | AbsentContentHasLength | InlineContentHasCursor
  | PagedContentRequiresCursor | InconsistentKnownIncomplete
  | NonAsciiDigest | UnhashableMode

type_synonym 'a content = "content_error + 'a"

definition bind_content :: "'a content \<Rightarrow> ('a \<Rightarrow> 'b content) \<Rightarrow> 'b content" where
  "bind_content m f = (case m of Inl e \<Rightarrow> Inl e | Inr x \<Rightarrow> f x)"

lemma bind_content_simps [simp]:
  "bind_content (Inl e) f = Inl e" "bind_content (Inr x) f = f x"
  by (simp_all add: bind_content_def)

lemma bind_content_eq_Inr: "bind_content m f = Inr y \<longleftrightarrow> (\<exists>x. m = Inr x \<and> f x = Inr y)"
  by (cases m) simp_all

definition require :: "bool \<Rightarrow> content_error \<Rightarrow> unit content" where
  "require p e = (if p then Inr () else Inl e)"

lemma require_eq_Inr [simp]: "require p e = Inr u \<longleftrightarrow> p"
  by (simp add: require_def)

lemma require_True [simp]: "require True e = Inr ()"
  by (simp add: require_def)

section \<open>Segments\<close>

record segment =
  sg_index :: nat
  sg_start_char :: nat
  sg_end_char :: nat
  sg_start_byte :: nat
  sg_end_byte :: nat
  sg_text :: ustr
  sg_char_length :: nat
  sg_byte_length :: nat

definition utf8_code_point_width :: "nat \<Rightarrow> nat content" where
  "utf8_code_point_width c =
     (if 0xD800 \<le> c \<and> c \<le> 0xDFFF then Inl SurrogateInText
      else if c \<le> 0x7F then Inr 1 else if c \<le> 0x7FF then Inr 2 else if c \<le> 0xFFFF then Inr 3 else Inr 4)"

definition text_slice :: "ustr \<Rightarrow> nat \<Rightarrow> nat \<Rightarrow> ustr" where
  "text_slice s a b = take (b - a) (drop a s)"

definition page_from :: "ustr \<Rightarrow> nat \<Rightarrow> nat \<Rightarrow> nat \<Rightarrow> nat \<Rightarrow> nat \<Rightarrow> segment" where
  "page_from s i start stop start_byte byte_length =
     \<lparr>sg_index = i, sg_start_char = start, sg_end_char = stop, sg_start_byte = start_byte,
      sg_end_byte = start_byte + byte_length, sg_text = text_slice s start stop,
      sg_char_length = stop - start, sg_byte_length = byte_length\<rparr>"

text \<open>The loop over the code points, with the pages so far, the open page's start and its bytes.\<close>

fun segment_loop ::
  "int \<Rightarrow> ustr \<Rightarrow> ustr \<Rightarrow> nat \<Rightarrow> segment list \<Rightarrow> nat \<Rightarrow> nat \<Rightarrow> nat \<Rightarrow> segment list content" where
  "segment_loop limit s [] offset segs start start_byte byte_length =
     Inr (segs @ [page_from s (length segs) start (length s) start_byte byte_length])"
| "segment_loop limit s (c # rest) offset segs start start_byte byte_length =
     bind_content (utf8_code_point_width c) (\<lambda>width.
       if limit < int width then Inl LimitBelowCodePoint
       else if byte_length \<noteq> 0 \<and> limit < int (byte_length + width)
       then segment_loop limit s rest (Suc offset)
              (segs @ [page_from s (length segs) start offset start_byte byte_length])
              offset (start_byte + byte_length) width
       else segment_loop limit s rest (Suc offset) segs start start_byte (byte_length + width))"

definition segment_canonical_text :: "ustr \<Rightarrow> int \<Rightarrow> segment list content" where
  "segment_canonical_text s limit =
     (if limit < 1 then Inl LimitNotPositive
      else if s = [] then Inr [] else segment_loop limit s s 0 [] 0 0 0)"

section \<open>What a list of pages is\<close>

definition byte_size :: "ustr \<Rightarrow> nat" where
  "byte_size s = length (utf8_encode s)"

lemma byte_size_simps [simp]:
  "byte_size [] = 0" "byte_size (s @ t) = byte_size s + byte_size t"
  by (simp_all add: byte_size_def)

lemma width_byte_size: "utf8_code_point_width c = Inr w \<longleftrightarrow> \<not> (0xD800 \<le> c \<and> c \<le> 0xDFFF) \<and> w = byte_size [c]"
  by (auto simp: utf8_code_point_width_def byte_size_def length_utf8_char)

lemma byte_size_pos: "0 < byte_size s \<longleftrightarrow> s \<noteq> []"
  by (cases s) (simp_all add: byte_size_def length_utf8_char)

text \<open>The pages from code point \<open>a\<close> and page number \<open>i\<close> on, up to \<open>b\<close>.\<close>

fun paged :: "int \<Rightarrow> ustr \<Rightarrow> nat \<Rightarrow> nat \<Rightarrow> segment list \<Rightarrow> nat \<Rightarrow> bool" where
  "paged limit s a i [] b \<longleftrightarrow> a = b"
| "paged limit s a i (g # gs) b \<longleftrightarrow>
     (let e = sg_end_char g in
      a < e \<and> e \<le> length s
      \<and> g = page_from s i a e (byte_size (take a s)) (byte_size (text_slice s a e))
      \<and> int (byte_size (text_slice s a e)) \<le> limit
      \<and> (e < length s \<longrightarrow> limit < int (byte_size (text_slice s a e) + byte_size [s ! e]))
      \<and> paged limit s e (Suc i) gs b)"

lemma paged_snoc:
  "paged limit s a i (gs @ [g]) b \<longleftrightarrow>
     (\<exists>m. paged limit s a i gs m \<and> paged limit s m (i + length gs) [g] b)"
  by (induction gs arbitrary: a i) (auto simp: Let_def)

lemma text_slice_Suc: "a \<le> k \<Longrightarrow> k < length s \<Longrightarrow> text_slice s a (Suc k) = text_slice s a k @ [s ! k]"
  by (simp add: text_slice_def Suc_diff_le take_Suc_conv_app_nth)

lemma text_slice_take: "a \<le> b \<Longrightarrow> take a s @ text_slice s a b = take b s"
  by (simp add: text_slice_def take_add[symmetric])

lemma text_slice_same [simp]: "text_slice s a a = []"
  by (simp add: text_slice_def)

lemma text_slice_Nil_iff: "a \<le> b \<Longrightarrow> b \<le> length s \<Longrightarrow> text_slice s a b = [] \<longleftrightarrow> a = b"
  by (auto simp: text_slice_def)

definition segment_state :: "int \<Rightarrow> ustr \<Rightarrow> nat \<Rightarrow> segment list \<Rightarrow> nat \<Rightarrow> nat \<Rightarrow> nat \<Rightarrow> bool" where
  "segment_state limit s offset segs start start_byte byte_length \<longleftrightarrow>
     offset \<le> length s \<and> start \<le> offset \<and> paged limit s 0 0 segs start
     \<and> start_byte = byte_size (take start s) \<and> byte_length = byte_size (text_slice s start offset)
     \<and> int byte_length \<le> limit \<and> (start = offset \<longrightarrow> offset = 0)"

lemma segment_loop_ok:
  assumes "segment_state limit s offset segs start start_byte byte_length" "rest = drop offset s" "s \<noteq> []"
  shows "segment_loop limit s rest offset segs start start_byte byte_length = Inr gs \<Longrightarrow> paged limit s 0 0 gs (length s)"
    and "(\<exists>gs. segment_loop limit s rest offset segs start start_byte byte_length = Inr gs)
      \<longleftrightarrow> (\<forall>c \<in> set rest. \<not> (0xD800 \<le> c \<and> c \<le> 0xDFFF) \<and> int (byte_size [c]) \<le> limit)"
  using assms
proof (induction rest arbitrary: offset segs start start_byte byte_length)
  case Nil
  { case 1
    have o: "offset = length s" "start < length s"
      using 1 by (auto simp: segment_state_def)
    have "gs = segs @ [page_from s (length segs) start (length s) start_byte byte_length]" using 1(1) by simp
    then show ?case
      using 1(2) o by (auto simp: segment_state_def paged_snoc page_from_def Let_def)
  next
    case 2
    then show ?case by simp
  }
next
  case (Cons c rest)
  have step: "\<exists>segs' start' sb' bl'. segment_state limit s (Suc offset) segs' start' sb' bl'
      \<and> segment_loop limit s (c # rest) offset segs start start_byte byte_length
        = segment_loop limit s rest (Suc offset) segs' start' sb' bl'"
    if st: "segment_state limit s offset segs start start_byte byte_length" and r: "c # rest = drop offset s"
      and ok: "\<not> (0xD800 \<le> c \<and> c \<le> 0xDFFF)" "int (byte_size [c]) \<le> limit"
    for offset segs start start_byte byte_length
  proof -
    have o: "offset < length s" "c = s ! offset" using r by (metis drop_all linorder_not_less list.distinct(1), metis nth_via_drop)
    have w: "utf8_code_point_width c = Inr (byte_size [c])" using ok(1) by (simp add: width_byte_size)
    have pos: "byte_length \<noteq> 0 \<longleftrightarrow> start < offset"
      using st o(1) byte_size_pos[of "text_slice s start offset"] text_slice_Nil_iff[of start offset s]
      by (auto simp: segment_state_def)
    show ?thesis
    proof (cases "byte_length \<noteq> 0 \<and> limit < int (byte_length + byte_size [c])")
      case True
      have "segment_state limit s (Suc offset) (segs @ [page_from s (length segs) start offset start_byte byte_length])
          offset (start_byte + byte_length) (byte_size [c])"
        unfolding segment_state_def paged_snoc
        using st True pos o ok(2) text_slice_Suc[of offset offset s] text_slice_take[of start offset s, symmetric]
        by (auto simp: segment_state_def page_from_def Let_def)
      then show ?thesis using True w ok(2) by (intro exI conjI) simp_all
    next
      case False
      have "segment_state limit s (Suc offset) segs start start_byte (byte_length + byte_size [c])"
        using st False pos o ok(2) text_slice_Suc[of start offset s] by (auto simp: segment_state_def)
      then show ?thesis using False w ok(2) by (intro exI conjI) (auto simp: not_less)
    qed
  qed
  have bad: "\<nexists>gs. segment_loop limit s (c # rest) offset segs start start_byte byte_length = Inr gs"
    if "\<not> (\<not> (0xD800 \<le> c \<and> c \<le> 0xDFFF) \<and> int (byte_size [c]) \<le> limit)"
    for offset segs start start_byte byte_length
    using that by (auto simp: bind_content_eq_Inr width_byte_size)
  { case 1
    have "\<not> (0xD800 \<le> c \<and> c \<le> 0xDFFF) \<and> int (byte_size [c]) \<le> limit"
    proof (rule ccontr)
      assume "\<not> ?thesis"
      from bad[OF this] 1(1) show False by blast
    qed
    note ok = conjunct1[OF this] conjunct2[OF this]
    have tl: "rest = drop (Suc offset) s" using 1(3) by (metis drop_Suc list.sel(3) tl_drop)
    from step[OF 1(2,3) ok] Cons.IH(1)[OF _ _ tl 1(4)] 1(1) show ?case by metis
  next
    case 2
    show ?case
    proof (cases "\<not> (0xD800 \<le> c \<and> c \<le> 0xDFFF) \<and> int (byte_size [c]) \<le> limit")
      case True
      have tl: "rest = drop (Suc offset) s" using 2(2) by (metis drop_Suc list.sel(3) tl_drop)
      from step[OF 2(1,2)] True Cons.IH(2)[OF _ tl 2(3)] show ?thesis by (metis list.set_intros(1,2) set_ConsD)
    next
      case False
      with bad show ?thesis by (metis list.set_intros(1))
    qed
  }
qed


section \<open>What segmenting promises\<close>

lemma segment_canonical_text_paged:
  assumes "segment_canonical_text s limit = Inr gs"
  shows "paged limit s 0 0 gs (length s)"
proof (cases "s = []")
  case False
  have "segment_state limit s 0 [] 0 0 0" using assms by (simp add: segment_state_def segment_canonical_text_def split: if_splits)
  from segment_loop_ok(1)[OF this _ False] assms False show ?thesis
    by (simp add: segment_canonical_text_def split: if_splits)
qed (use assms in \<open>auto simp: segment_canonical_text_def split: if_splits\<close>)

lemma segment_canonical_text_total:
  "(\<exists>gs. segment_canonical_text s limit = Inr gs) \<longleftrightarrow>
     1 \<le> limit \<and> (\<forall>c \<in> set s. \<not> (0xD800 \<le> c \<and> c \<le> 0xDFFF) \<and> int (byte_size [c]) \<le> limit)"
proof (cases "1 \<le> limit \<and> s \<noteq> []")
  case True
  then have "segment_state limit s 0 [] 0 0 0" by (simp add: segment_state_def)
  from segment_loop_ok(2)[OF this, of s] True show ?thesis by (simp add: segment_canonical_text_def)
qed (auto simp: segment_canonical_text_def)

lemma paged_le: "paged limit s a i gs b \<Longrightarrow> a \<le> b"
  by (induction gs arbitrary: a i) (auto simp: Let_def intro: le_trans less_imp_le)

lemma paged_texts: "paged limit s a i gs b \<Longrightarrow> take a s @ concat (map sg_text gs) = take b s"
proof (induction gs arbitrary: a i)
  case (Cons g gs)
  then have g: "a < sg_end_char g" "sg_text g = text_slice s a (sg_end_char g)"
    "take (sg_end_char g) s @ concat (map sg_text gs) = take b s"
    by (auto simp: Let_def page_from_def dest: arg_cong[of _ _ sg_text])
  have "take a s @ text_slice s a (sg_end_char g) = take (sg_end_char g) s" using g(1) by (simp add: text_slice_take)
  then show ?case using g by (metis append_assoc concat.simps(2) list.simps(9))
qed simp

text \<open>Where the \<open>k\<close>-th page starts: the end of the page before it.\<close>

definition page_start :: "segment list \<Rightarrow> nat \<Rightarrow> nat" where
  "page_start gs k = (if k = 0 then 0 else sg_end_char (gs ! (k - 1)))"

lemma paged_nth:
  assumes "paged limit s a i gs b" "k < length gs"
  shows "let p = (if k = 0 then a else sg_end_char (gs ! (k - 1))); e = sg_end_char (gs ! k) in
     p < e \<and> e \<le> length s
     \<and> gs ! k = page_from s (i + k) p e (byte_size (take p s)) (byte_size (text_slice s p e))
     \<and> int (byte_size (text_slice s p e)) \<le> limit
     \<and> (e < length s \<longrightarrow> limit < int (byte_size (text_slice s p e) + byte_size [s ! e]))"
  using assms
proof (induction gs arbitrary: a i k)
  case (Cons g gs)
  show ?case
  proof (cases k)
    case (Suc m)
    have "paged limit s (sg_end_char g) (Suc i) gs b" "m < length gs" using Cons.prems Suc by (auto simp: Let_def)
    from Cons.IH[OF this] show ?thesis using Suc by (cases m) (simp_all add: Let_def)
  qed (use Cons.prems in \<open>simp add: Let_def\<close>)
qed simp


lemma segment_nth:
  assumes "segment_canonical_text s limit = Inr gs" "k < length gs"
  shows "gs ! k = page_from s k (page_start gs k) (sg_end_char (gs ! k))
      (byte_size (take (page_start gs k) s)) (byte_size (text_slice s (page_start gs k) (sg_end_char (gs ! k))))"
    and "page_start gs k < sg_end_char (gs ! k)" "sg_end_char (gs ! k) \<le> length s"
    and "int (byte_size (text_slice s (page_start gs k) (sg_end_char (gs ! k)))) \<le> limit"
    and "sg_end_char (gs ! k) < length s \<Longrightarrow> limit < int (byte_size
      (text_slice s (page_start gs k) (sg_end_char (gs ! k))) + byte_size [s ! sg_end_char (gs ! k)])"
  using paged_nth[OF segment_canonical_text_paged[OF assms(1)] assms(2)] by (simp_all add: Let_def page_start_def)

lemma segment_fields:
  assumes "segment_canonical_text s limit = Inr gs" "k < length gs"
  shows "sg_index (gs ! k) = k" "sg_start_char (gs ! k) = page_start gs k"
    "sg_text (gs ! k) = text_slice s (page_start gs k) (sg_end_char (gs ! k))"
    "sg_start_byte (gs ! k) = byte_size (take (page_start gs k) s)"
    "sg_end_byte (gs ! k) = byte_size (take (sg_end_char (gs ! k)) s)"
    "sg_byte_length (gs ! k) = byte_size (sg_text (gs ! k))"
    "sg_char_length (gs ! k) = length (sg_text (gs ! k))"
proof -
  note n = segment_nth[OF assms]
  let ?p = "page_start gs k" and ?e = "sg_end_char (gs ! k)"
  have fields: "sg_index (gs ! k) = k" "sg_start_char (gs ! k) = ?p" "sg_text (gs ! k) = text_slice s ?p ?e"
    "sg_start_byte (gs ! k) = byte_size (take ?p s)"
    "sg_end_byte (gs ! k) = byte_size (take ?p s) + byte_size (text_slice s ?p ?e)"
    "sg_byte_length (gs ! k) = byte_size (text_slice s ?p ?e)" "sg_char_length (gs ! k) = ?e - ?p"
    by (subst n(1), simp add: page_from_def)+
  show "sg_index (gs ! k) = k" "sg_start_char (gs ! k) = ?p" "sg_text (gs ! k) = text_slice s ?p ?e"
    "sg_start_byte (gs ! k) = byte_size (take ?p s)" "sg_byte_length (gs ! k) = byte_size (sg_text (gs ! k))"
    using fields by simp_all
  show "sg_end_byte (gs ! k) = byte_size (take ?e s)"
    using fields(5) n(2) text_slice_take[of ?p ?e s, symmetric] by simp
  show "sg_char_length (gs ! k) = length (sg_text (gs ! k))"
    using fields(3,7) n(2,3) by (simp add: text_slice_def)
qed

lemma segment_texts: "segment_canonical_text s limit = Inr gs \<Longrightarrow> concat (map sg_text gs) = s"
  using paged_texts[OF segment_canonical_text_paged] by fastforce

lemma segment_last_end:
  assumes "segment_canonical_text s limit = Inr gs" "gs \<noteq> []"
  shows "sg_end_char (last gs) = length s"
proof -
  have "paged limit s 0 0 (butlast gs @ [last gs]) (length s)"
    using segment_canonical_text_paged[OF assms(1)] assms(2) by simp
  then show ?thesis unfolding paged_snoc by (auto simp: Let_def)
qed

text \<open>
  C37: The pages of a canonical text are numbered from 0, follow one another without gap or
  overlap, each carries at least one code point and at most the byte limit, with the exact
  code point and byte offsets of its text, and no page could have taken the next code
  point too; joined they are the text.
\<close>

theorem pages_partition_the_text:
  assumes "segment_canonical_text s limit = Inr gs"
  shows "concat (map sg_text gs) = s
    \<and> (\<forall>k < length gs. sg_index (gs ! k) = k \<and> sg_start_char (gs ! k) = page_start gs k
        \<and> sg_start_char (gs ! k) < sg_end_char (gs ! k) \<and> sg_end_char (gs ! k) \<le> length s
        \<and> sg_text (gs ! k) = text_slice s (sg_start_char (gs ! k)) (sg_end_char (gs ! k))
        \<and> sg_start_byte (gs ! k) = byte_size (take (sg_start_char (gs ! k)) s)
        \<and> sg_end_byte (gs ! k) = byte_size (take (sg_end_char (gs ! k)) s)
        \<and> sg_char_length (gs ! k) = length (sg_text (gs ! k))
        \<and> sg_byte_length (gs ! k) = byte_size (sg_text (gs ! k))
        \<and> int (sg_byte_length (gs ! k)) \<le> limit
        \<and> (sg_end_char (gs ! k) < length s \<longrightarrow>
             limit < int (sg_byte_length (gs ! k) + byte_size [s ! sg_end_char (gs ! k)])))"
  using segment_texts[OF assms] segment_nth[OF assms] by (simp add: segment_fields[OF assms])

text \<open>
  Segmenting a text succeeds exactly when the limit is positive, no code point is a
  surrogate and every code point fits the limit by itself; so with the default limit every
  text without surrogates can be paged.
\<close>

theorem paging_succeeds_iff:
  "(\<exists>gs. segment_canonical_text s limit = Inr gs) \<longleftrightarrow>
     1 \<le> limit \<and> (\<forall>c \<in> set s. \<not> (0xD800 \<le> c \<and> c \<le> 0xDFFF) \<and> int (byte_size [c]) \<le> limit)"
  by (rule segment_canonical_text_total)

theorem pages_partition_the_text_witness:
  "\<exists>gs. segment_canonical_text [0x61, 0x20AC, 0x62, 0x1F600] 4 = Inr gs \<and> map sg_text gs = [[0x61, 0x20AC], [0x62], [0x1F600]]
     \<and> concat (map sg_text gs) = [0x61, 0x20AC, 0x62, 0x1F600]"
proof -
  let ?s = "[0x61, 0x20AC, 0x62, 0x1F600]"
  let ?gs = "[page_from ?s 0 0 2 0 4, page_from ?s 1 2 3 4 1, page_from ?s 2 3 4 5 4]"
  have gs: "segment_canonical_text ?s 4 = Inr ?gs"
    by (simp add: segment_canonical_text_def utf8_code_point_width_def page_from_def text_slice_def)
  show ?thesis
    by (rule exI[of _ ?gs], intro conjI)
      (fact gs, simp add: page_from_def text_slice_def, rule conjunct1[OF pages_partition_the_text[OF gs]])
qed

theorem paging_succeeds_iff_witness:
  "(\<exists>gs. segment_canonical_text [0x61, 0x1F600] 4 = Inr gs) \<and> (\<nexists>gs. segment_canonical_text [0x61, 0x1F600] 3 = Inr gs)"
  unfolding paging_succeeds_iff by (simp add: byte_size_def utf8_char_def)

end
