(* ===== verification/Tokens.thy ===== *)
theory Tokens
  imports PublicFields Segments
begin

text \<open>
  The opaque tokens of \<open>core/turns.py\<close>: a JSON object with an integrity digest over what
  the token is bound to, printed with sorted keys, UTF-8 encoded and base64url encoded
  behind a prefix.  The digest has no secret: it binds, it does not authenticate.
\<close>

section \<open>Digests\<close>

definition encode_text :: "ustr \<Rightarrow> nat list content" where
  "encode_text s = (if unicode_text s then Inr (utf8_encode s) else Inl EncodeError)"

definition domain_digest :: "string \<Rightarrow> (ustr \<times> json) list \<Rightarrow> ustr content" where
  "domain_digest domain value =
     bind_content (encode_text (stable_json_dumps (JDict ((lit ''domain'', JStr (lit domain)) # value))))
       (\<lambda>encoded. Inr (base64url (sha256 encoded)))"

text \<open>\<open>hmac.compare_digest\<close> of two \<open>str\<close> raises \<open>TypeError\<close> unless both are ASCII.\<close>

definition compare_digest :: "ustr \<Rightarrow> ustr \<Rightarrow> bool content" where
  "compare_digest a b = (if list_all (\<lambda>c. c < 128) (a @ b) then Inr (a = b) else Inl NonAsciiDigest)"

section \<open>Token bodies\<close>

definition token_of :: "string \<Rightarrow> (ustr \<times> json) list \<Rightarrow> ustr content" where
  "token_of prefix body =
     bind_content (encode_text (stable_json_dumps (JDict body))) (\<lambda>b. Inr (lit prefix @ base64url b))"

definition token_json :: "nat \<Rightarrow> string \<Rightarrow> ustr \<Rightarrow> json option" where
  "token_json max_chars prefix token =
     (let encoded = drop (length prefix) token in
      if \<not> starts_with (lit prefix) token \<or> encoded = [] \<or> max_chars < length encoded
        \<or> \<not> list_all (\<lambda>c. base64_digit c \<noteq> None) encoded then None
      else case base64_decode encoded of
        None \<Rightarrow> None
      | Some raw \<Rightarrow>
          if base64url raw \<noteq> encoded then None
          else case utf8_decode raw of None \<Rightarrow> None | Some text \<Rightarrow> json_loads text)"

definition decode_turn_list_token :: "string \<Rightarrow> content_error \<Rightarrow> ustr \<Rightarrow> (ustr \<times> json) list content" where
  "decode_turn_list_token prefix status token =
     (case token_json 2048 prefix token of Some (JDict body) \<Rightarrow> Inr body | _ \<Rightarrow> Inl status)"

definition turn_list_nonnegative_integer :: "json \<Rightarrow> content_error \<Rightarrow> int content" where
  "turn_list_nonnegative_integer value status =
     (case value of JInt i \<Rightarrow> (if i < 0 then Inl status else Inr i) | _ \<Rightarrow> Inl status)"

definition member :: "(ustr \<times> json) list \<Rightarrow> string \<Rightarrow> json" where
  "member body key = dict_get body (lit key)"

definition has_members :: "(ustr \<times> json) list \<Rightarrow> string list \<Rightarrow> bool" where
  "has_members body keys \<longleftrightarrow> set (map fst body) = set (map lit keys)"

definition text_member :: "json \<Rightarrow> content_error \<Rightarrow> ustr content" where
  "text_member value status = (case value of JStr s \<Rightarrow> Inr s | _ \<Rightarrow> Inl status)"

definition nonempty_member :: "json \<Rightarrow> content_error \<Rightarrow> ustr content" where
  "nonempty_member value status =
     (case value of JStr s \<Rightarrow> (if s = [] then Inl status else Inr s) | _ \<Rightarrow> Inl status)"

definition triple_member :: "json \<Rightarrow> content_error \<Rightarrow> (json \<times> json \<times> json) content" where
  "triple_member value status = (case value of JList [a, b, c] \<Rightarrow> Inr (a, b, c) | _ \<Rightarrow> Inl status)"

section \<open>Reading back what was written\<close>

text \<open>A body as the encoders write it: keys in order and allowed, values plain.\<close>

definition canonical_body :: "(ustr \<times> json) list \<Rightarrow> bool" where
  "canonical_body body \<longleftrightarrow> json_plain (JDict body) \<and> field_clean (JDict body) \<and> sort_keys (JDict body) = JDict body"

lemma stable_json_dumps_body: "canonical_body body \<Longrightarrow> stable_json_dumps (JDict body) = json_print (JDict body)"
  unfolding canonical_body_def stable_json_dumps_def json_dumps_def by (metis clean_sanitize)

lemma canonical_body_I:
  assumes "sorted (map fst body)" "distinct (map fst body)" "\<forall>kv \<in> set body. \<not> is_forbidden_field_name (fst kv)"
    "\<forall>kv \<in> set body. json_plain (snd kv) \<and> field_clean (snd kv) \<and> sort_keys (snd kv) = snd kv"
  shows "canonical_body body"
proof -
  have m: "map (\<lambda>kv. (fst kv, sort_keys (snd kv))) body = body"
    using assms(4) by (intro map_idI) auto
  show ?thesis unfolding canonical_body_def sort_keys.simps m
    using assms sort_key_id_if_sorted[of fst body] by (auto simp: list_all_iff)
qed

lemma letter_allowed:
  assumes "length s = 1" "plain_name s"
  shows "\<not> is_forbidden_field_name (lit s)"
proof (rule allowed_name[OF assms(2)])
  have long: "list_all (\<lambda>n. 1 < length n \<and> 1 < length (filter (\<lambda>c. c \<noteq> CHR ''_'') n)) forbidden_field_names"
    by code_simp
  then show "s \<notin> set forbidden_field_names" using assms(1) by (auto simp: list_all_iff)
  have "length (filter (\<lambda>c. c \<noteq> CHR ''_'') s) \<le> 1" using length_filter_le[of _ s] assms(1) by simp
  then show "filter (\<lambda>c. c \<noteq> CHR ''_'') s \<notin> set (map (filter (\<lambda>c. c \<noteq> CHR ''_'')) forbidden_field_names)"
    using long by (force simp: list_all_iff)
qed

lemma token_json_token_of:
  assumes "token_of prefix body = Inr t" "canonical_body body" "length t \<le> length prefix + n"
  shows "token_json n prefix t = Some (JDict body)"
proof -
  let ?s = "stable_json_dumps (JDict body)"
  have s: "?s = json_print (JDict body)"
    by (rule stable_json_dumps_body[OF assms(2)])
  have u: "unicode_text ?s" and t: "t = lit prefix @ base64url (utf8_encode ?s)"
    using assms(1) by (auto simp: token_of_def encode_text_def split: if_splits)
  have bytes: "\<forall>b \<in> set (utf8_encode ?s). b < 256" using utf8_encode_bytes[OF u] by blast
  have ne: "utf8_encode ?s \<noteq> []"
    using length_utf8_encode_ge[of ?s] by (auto simp: s)
  have ne2: "base64url (utf8_encode ?s) \<noteq> []"
    using length_base64url[of "utf8_encode ?s"] ne by (cases "utf8_encode ?s") auto
  have j: "json_loads ?s = Some (JDict body)"
    unfolding s using assms(2) by (intro json_loads_print) (simp add: canonical_body_def)
  have len: "length (base64url (utf8_encode ?s)) \<le> n" using assms(3) by (simp add: t)
  have dg: "list_all (\<lambda>c. base64_digit c \<noteq> None) (base64url (utf8_encode ?s))"
    using base64url_chars[OF bytes] by (auto simp: list_all_iff)
  show ?thesis unfolding token_json_def Let_def t
    using ne2 len dg by (simp add: starts_with_def base64_round_trip[OF bytes] utf8_round_trip[OF u] j)
qed

lemma decode_token_of:
  "token_of prefix body = Inr t \<Longrightarrow> canonical_body body \<Longrightarrow> length t \<le> length prefix + 2048 \<Longrightarrow>
     decode_turn_list_token prefix status t = Inr body"
  by (simp add: decode_turn_list_token_def token_json_token_of)

lemma decode_token_too_long:
  "length prefix + 2048 < length t \<Longrightarrow> decode_turn_list_token prefix status t = Inl status"
proof -
  assume "length prefix + 2048 < length t"
  then have "2048 < length (drop (length prefix) t)" by simp
  then have "token_json 2048 prefix t = None" unfolding token_json_def Let_def by simp
  then show ?thesis by (simp add: decode_turn_list_token_def)
qed

lemma domain_digest_ascii:
  assumes "domain_digest d v = Inr h"
  shows "list_all (\<lambda>c. c < 128) h" "h \<noteq> []" "length h = 43" "unicode_text h"
proof -
  obtain m where h: "h = base64url (sha256 m)"
    using assms by (auto simp: domain_digest_def bind_content_eq_Inr)
  have bytes: "\<forall>b \<in> set (sha256 m). b < 256" by (blast intro: sha256_bytes)
  show "length h = 43" "h \<noteq> []" using length_base64url[of "sha256 m"] by (auto simp: h length_sha256)
  have "c < 128" if "c \<in> set h" for c
    using base64url_chars[OF bytes] that unfolding h by (fastforce simp: base64_digit_def split: if_splits)
  then show "list_all (\<lambda>c. c < 128) h" "unicode_text h" by (force simp: list_all_iff unicode_text_def unicode_char_def)+
qed

lemma compare_digest_same: "domain_digest d v = Inr h \<Longrightarrow> compare_digest h h = Inr True"
  using domain_digest_ascii(1) by (simp add: compare_digest_def)

lemma member_simps [simp]:
  "member ((lit k, v) # body) key = (if key = k then v else member body key)"
  by (auto simp: member_def dict_get_def)


text \<open>The encoders' keys are single letters in alphabetical order.\<close>

definition letter_keys :: "string list \<Rightarrow> bool" where
  "letter_keys ks \<longleftrightarrow> list_all (\<lambda>k. length k = 1 \<and> plain_name k) ks
     \<and> sorted_wrt (<) (map (\<lambda>k. of_char (hd k) :: nat) ks)"

lemma canonical_letters:
  assumes "map fst body = map lit ks" "letter_keys ks"
    "\<forall>kv \<in> set body. json_plain (snd kv) \<and> field_clean (snd kv) \<and> sort_keys (snd kv) = snd kv"
  shows "canonical_body body"
proof (rule canonical_body_I[OF _ _ _ assms(3)])
  have one: "lit k = [of_char (hd k)]" if "k \<in> set ks" for k
    using assms(2) that by (cases k) (auto simp: letter_keys_def list_all_iff lit_def)
  have lt: "sorted_wrt (<) (map fst body)"
    using assms(2) one unfolding assms(1) letter_keys_def by (simp add: sorted_wrt_map sorted_wrt_iff_nth_less)
  then show "sorted (map fst body)" "distinct (map fst body)"
    by (simp_all add: strict_sorted_iff)
  have "\<forall>k \<in> set (map fst body). \<not> is_forbidden_field_name k"
    using assms(2) unfolding assms(1) letter_keys_def by (auto simp: list_all_iff letter_allowed)
  then show "\<forall>kv \<in> set body. \<not> is_forbidden_field_name (fst kv)" by simp
qed


section \<open>When encoding succeeds\<close>

fun json_unicode :: "json \<Rightarrow> bool" where
  "json_unicode (JStr s) \<longleftrightarrow> unicode_text s"
| "json_unicode (JList xs) \<longleftrightarrow> list_all json_unicode xs"
| "json_unicode (JDict ps) \<longleftrightarrow> list_all (\<lambda>kv. unicode_text (fst kv) \<and> json_unicode (snd kv)) ps"
| "json_unicode v \<longleftrightarrow> True"

lemma unicode_text_simps [simp]:
  "unicode_text []" "unicode_text (c # s) \<longleftrightarrow> unicode_char c \<and> unicode_text s"
  "unicode_text (s @ t) \<longleftrightarrow> unicode_text s \<and> unicode_text t"
  by (simp_all add: unicode_text_def)

lemma unicode_small [simp]: "c < 128 \<Longrightarrow> unicode_char c"
  by (simp add: unicode_char_def)

lemma unicode_lit [simp]: "unicode_text (lit s)"
proof -
  have "unicode_char (of_char c)" for c using nat_of_char_less_256[of c] unfolding unicode_char_def by linarith
  then show ?thesis by (simp add: lit_def unicode_text_def list_all_iff)
qed

lemma unicode_show_nat [simp]: "unicode_text (show_nat n)"
  using show_nat_digits[of n] by (auto simp: unicode_text_def list_all_iff is_digit_def unicode_char_def)

lemma unicode_show_int [simp]: "unicode_text (show_int i)"
  by (simp add: show_int_def)

lemma unicode_dumps_str: "unicode_text s \<Longrightarrow> unicode_text (dumps_str s)"
proof -
  assume s: "unicode_text s"
  have "unicode_text (escape_char c)" if "unicode_char c" for c
    using that by (auto simp: escape_char_def hex_digit_def unicode_char_def)
  with s have "unicode_text (concat (map escape_char s))" by (induction s) simp_all
  then show ?thesis by (simp add: dumps_str_def)
qed

lemma unicode_comma_join: "\<forall>x \<in> set xs. unicode_text x \<Longrightarrow> unicode_text (comma_join xs)"
  by (induction xs rule: comma_join.induct) simp_all

lemma unicode_json_print: "json_unicode v \<Longrightarrow> unicode_text (json_print v)"
proof (induction v)
  case (JDict ps)
  have "unicode_text (dumps_str k)" "unicode_text (json_print v)" if "(k, v) \<in> set ps" for k v
    using JDict.prems JDict.IH[OF that, of v] that by (auto simp: list_all_iff unicode_dumps_str)
  then show ?case by (auto intro!: unicode_comma_join)
next
  case (JList xs)
  then show ?case by (auto intro!: unicode_comma_join simp: list_all_iff)
qed (auto simp: unicode_dumps_str)

lemma unicode_sort_keys: "json_unicode v \<Longrightarrow> json_unicode (sort_keys v)"
  by (induction v) (auto simp: list_all_iff)

lemma unicode_sanitize: "json_unicode v \<Longrightarrow> json_unicode (sanitize_forbidden_fields v)"
  by (induction v) (auto simp: list_all_iff)

lemma stable_json_dumps_unicode: "json_unicode v \<Longrightarrow> unicode_text (stable_json_dumps v)"
  by (simp add: stable_json_dumps_def json_dumps_def unicode_json_print unicode_sort_keys unicode_sanitize)

lemma domain_digest_total: "json_unicode (JDict v) \<Longrightarrow> \<exists>h. domain_digest d v = Inr h"
  using stable_json_dumps_unicode[of "JDict ((lit ''domain'', JStr (lit d)) # v)"]
  by (simp add: domain_digest_def encode_text_def)

lemma token_of_total: "json_unicode (JDict body) \<Longrightarrow> \<exists>t. token_of prefix body = Inr t"
  using stable_json_dumps_unicode[of "JDict body"] by (simp add: token_of_def encode_text_def)

section \<open>How long a token is\<close>

lemma comma_join_length: "sum_list (map length xs) \<le> length (comma_join xs)"
  by (induction xs rule: comma_join.induct) auto

lemma dumps_str_length: "length s \<le> length (dumps_str s)"
proof -
  have "1 \<le> length (escape_char c)" for c by (simp add: escape_char_def)
  then have "length s \<le> length (concat (map escape_char s))"
  proof (induction s)
    case (Cons c s)
    then show ?case using add_mono[of 1 "length (escape_char c)"] by simp
  qed simp
  then show ?thesis by (simp add: dumps_str_def)
qed

text \<open>The characters of the strings a value holds.\<close>

fun text_size :: "json \<Rightarrow> nat" where
  "text_size (JStr s) = length s"
| "text_size (JList xs) = sum_list (map text_size xs)"
| "text_size (JDict ps) = sum_list (map (\<lambda>kv. text_size (snd kv)) ps)"
| "text_size _ = 0"

lemma text_size_print: "text_size v \<le> length (json_print v)"
proof (induction v)
  case (JList xs)
  have "sum_list (map text_size xs) \<le> sum_list (map length (map json_print xs))"
    using JList by (simp add: comp_def sum_list_mono)
  then show ?case using comma_join_length[of "map json_print xs"] by simp
next
  case (JDict ps)
  let ?m = "map (\<lambda>kv. dumps_str (fst kv) @ 58 # json_print (snd kv)) ps"
  have "sum_list (map (\<lambda>kv. text_size (snd kv)) ps) \<le> sum_list (map length ?m)"
    using JDict by (simp add: comp_def) (intro sum_list_mono, fastforce simp: trans_le_add2 le_SucI)
  then show ?case using comma_join_length[of ?m] by simp
qed (auto simp: dumps_str_length)

lemma token_over_limit:
  assumes "token_of prefix body = Inr t" "canonical_body body" "1537 \<le> text_size (JDict body)"
  shows "length prefix + 2048 < length t"
proof -
  let ?s = "stable_json_dumps (JDict body)"
  have s: "?s = json_print (JDict body)"
    by (rule stable_json_dumps_body[OF assms(2)])
  have t: "t = lit prefix @ base64url (utf8_encode ?s)"
    using assms(1) by (auto simp: token_of_def encode_text_def split: if_splits)
  have "1537 \<le> length (utf8_encode ?s)"
    using assms(3) text_size_print[of "JDict body"] length_utf8_encode_ge[of ?s] unfolding s by linarith
  then have "2048 < (4 * length (utf8_encode ?s) + 2) div 3" by linarith
  then show ?thesis by (simp add: t length_base64url)
qed

lemma token_too_long:
  "token_of prefix body = Inr t \<Longrightarrow> canonical_body body \<Longrightarrow> 1537 \<le> text_size (JDict body)
    \<Longrightarrow> decode_turn_list_token prefix status t = Inl status"
  by (rule decode_token_too_long[OF token_over_limit])


section \<open>What a step returns or raises\<close>

text \<open>
  \<open>returns m P E\<close>: the step returns a value with \<open>P\<close> or raises an error with \<open>E\<close>; the rules
  go through a decoder one step at a time.
\<close>

definition returns :: "'a content \<Rightarrow> ('a \<Rightarrow> bool) \<Rightarrow> (content_error \<Rightarrow> bool) \<Rightarrow> bool" where
  "returns m P E \<longleftrightarrow> (case m of Inl e \<Rightarrow> E e | Inr x \<Rightarrow> P x)"

named_theorems steps \<open>what each step of a decoder returns or raises\<close>

lemma returns_bind:
  "returns m Q E \<Longrightarrow> (\<And>x. Q x \<Longrightarrow> returns (f x) P E) \<Longrightarrow> returns (bind_content m f) P E"
  by (cases m) (simp_all add: returns_def)

lemma returns_Inr: "P x \<Longrightarrow> returns (Inr x) P E"
  by (simp add: returns_def)

lemma returns_Inl: "E e \<Longrightarrow> returns (Inl e) P E"
  by (simp add: returns_def)

lemma returns_steps [steps]:
  "E e \<Longrightarrow> returns (require p e) (\<lambda>_. p) E"
  "E e \<Longrightarrow> returns (nonempty_member v e) (\<lambda>s. v = JStr s \<and> s \<noteq> []) E"
  "E e \<Longrightarrow> returns (triple_member v e) (\<lambda>(a, b, c). v = JList [a, b, c]) E"
  "E e \<Longrightarrow> returns (text_member v e) (\<lambda>s. v = JStr s) E"
  "E e \<Longrightarrow> returns (turn_list_nonnegative_integer v e) (\<lambda>i. v = JInt i \<and> 0 \<le> i) E"
  "E e \<Longrightarrow> returns (decode_turn_list_token prefix e t) (\<lambda>body. token_json 2048 prefix t = Some (JDict body)) E"
  "E EncodeError \<Longrightarrow> returns (domain_digest d m) (\<lambda>h. domain_digest d m = Inr h) E"
  "E NonAsciiDigest \<Longrightarrow> returns (compare_digest a b) (\<lambda>same. same = (a = b)) E"
  by (auto simp: returns_def require_def nonempty_member_def text_member_def triple_member_def turn_list_nonnegative_integer_def
      decode_turn_list_token_def compare_digest_def domain_digest_def encode_text_def
      split: json.splits list.splits option.splits)


section \<open>Tokens of plain ids are short\<close>

text \<open>Printable ASCII that JSON prints as it is.\<close>

definition plain_text :: "ustr \<Rightarrow> bool" where
  "plain_text s \<longleftrightarrow> list_all (\<lambda>c. 32 \<le> c \<and> c < 127 \<and> c \<noteq> 34 \<and> c \<noteq> 92) s"

lemma plain_text_unicode: "plain_text s \<Longrightarrow> unicode_text s"
  by (auto simp: plain_text_def unicode_text_def list_all_iff unicode_char_def)

lemma plain_dumps: "plain_text s \<Longrightarrow> dumps_str s = 34 # s @ [34]"
proof -
  assume "plain_text s"
  then have "concat (map escape_char s) = s" by (induction s) (auto simp: plain_text_def escape_char_def)
  then show ?thesis by (simp add: dumps_str_def)
qed

lemma plain_digest:
  assumes "domain_digest d v = Inr h"
  shows "plain_text h"
proof -
  obtain m where h: "h = base64url (sha256 m)"
    using assms by (auto simp: domain_digest_def bind_content_eq_Inr)
  have "c \<in> set h \<Longrightarrow> base64_digit c \<noteq> None" for c
    using base64url_chars[of "sha256 m"] sha256_bytes unfolding h by blast
  then show ?thesis by (fastforce simp: plain_text_def list_all_iff base64_digit_def split: if_splits)
qed

lemma length_show_nat: "n < 10 ^ d \<Longrightarrow> length (show_nat n) \<le> max 1 d"
proof (induction n arbitrary: d rule: show_nat.induct)
  case (1 n)
  show ?case
  proof (cases "n < 10")
    case False
    then obtain e where d: "d = Suc e" using 1(2) by (cases d) auto
    have "n div 10 < 10 ^ e" using 1(2) by (simp add: d div_less_iff_less_mult mult.commute)
    from 1(1)[OF False this] have "length (show_nat (n div 10)) \<le> max 1 e" .
    moreover have "e \<noteq> 0" using 1(2) False d by (cases e) auto
    ultimately show ?thesis using False by (subst show_nat.simps) (simp add: d)
  qed (subst show_nat.simps, simp)
qed

text \<open>Integers of at most 18 digits, as the printer's bytes count them.\<close>

definition small_int :: "int \<Rightarrow> bool" where
  "small_int i \<longleftrightarrow> 0 \<le> i \<and> i < 10 ^ 18"

lemma length_show_int: "small_int i \<Longrightarrow> length (show_int i) \<le> 18"
  using length_show_nat[of "nat i" 18] by (simp add: nat_less_iff small_int_def show_int_def)

fun ascii_size :: "json \<Rightarrow> nat" where
  "ascii_size (JStr s) = length s + 2"
| "ascii_size (JInt i) = 18"
| "ascii_size (JList xs) = sum_list (map (\<lambda>x. ascii_size x + 1) xs) + 2"
| "ascii_size _ = 0"

fun ascii_value :: "json \<Rightarrow> bool" where
  "ascii_value (JStr s) \<longleftrightarrow> plain_text s"
| "ascii_value (JInt i) \<longleftrightarrow> small_int i"
| "ascii_value (JList xs) \<longleftrightarrow> list_all ascii_value xs"
| "ascii_value _ \<longleftrightarrow> False"

definition ascii_text :: "ustr \<Rightarrow> bool" where
  "ascii_text s \<longleftrightarrow> list_all (\<lambda>c. c < 128) s"

lemma ascii_text_simps [simp]:
  "ascii_text []" "ascii_text (c # s) \<longleftrightarrow> c < 128 \<and> ascii_text s" "ascii_text (s @ t) \<longleftrightarrow> ascii_text s \<and> ascii_text t"
  by (simp_all add: ascii_text_def)

lemma length_utf8_ascii: "ascii_text s \<Longrightarrow> length (utf8_encode s) = length s"
  by (induction s) (simp_all add: utf8_char_def)

lemma length_comma_join: "length (comma_join xs) \<le> sum_list (map (\<lambda>x. length x + 1) xs)"
  by (induction xs rule: comma_join.induct) auto

lemma ascii_comma_join: "\<forall>x \<in> set xs. ascii_text x \<Longrightarrow> ascii_text (comma_join xs)"
  by (induction xs rule: comma_join.induct) auto

lemma ascii_show_int: "ascii_text (show_int i)"
  using show_nat_digits by (fastforce simp: show_int_def ascii_text_def list_all_iff is_digit_def)

lemma plain_ascii: "plain_text s \<Longrightarrow> ascii_text s"
  by (auto simp: plain_text_def ascii_text_def list_all_iff)

lemma ascii_print: "ascii_value v \<Longrightarrow> ascii_text (json_print v) \<and> length (json_print v) \<le> ascii_size v"
proof (induction v)
  case (JList xs)
  then have x: "\<forall>x \<in> set xs. ascii_text (json_print x) \<and> length (json_print x) \<le> ascii_size x"
    by (auto simp: list_all_iff)
  have "sum_list (map (\<lambda>x. length (json_print x) + 1) xs) \<le> sum_list (map (\<lambda>x. ascii_size x + 1) xs)"
    using x by (intro sum_list_mono) simp
  then have "length (comma_join (map json_print xs)) \<le> sum_list (map (\<lambda>x. ascii_size x + 1) xs)"
    using length_comma_join[of "map json_print xs"] by (simp add: comp_def)
  then show ?case using x by (simp add: ascii_comma_join)
qed (auto simp: plain_dumps plain_ascii ascii_show_int length_show_int)

lemma token_fits:
  assumes "token_of prefix body = Inr t" "canonical_body body"
    "\<forall>kv \<in> set body. plain_text (fst kv) \<and> ascii_value (snd kv)"
    "sum_list (map (\<lambda>kv. length (fst kv) + ascii_size (snd kv) + 4) body) + 2 \<le> n" "4 * n + 2 \<le> 3 * m + 2"
  shows "length t \<le> length prefix + m"
proof -
  let ?s = "json_print (JDict body)" and ?m = "\<lambda>kv. dumps_str (fst kv) @ 58 # json_print (snd kv)"
  have s: "stable_json_dumps (JDict body) = ?s"
    by (rule stable_json_dumps_body[OF assms(2)])
  have kv: "ascii_text (?m kv) \<and> length (?m kv) + 1 \<le> length (fst kv) + ascii_size (snd kv) + 4" if "kv \<in> set body" for kv
    using assms(3) that ascii_print[of "snd kv"] by (simp add: plain_dumps plain_ascii)
  have "sum_list (map (\<lambda>kv. length (?m kv) + 1) body) \<le> sum_list (map (\<lambda>kv. length (fst kv) + ascii_size (snd kv) + 4) body)"
    using kv by (intro sum_list_mono) blast
  then have "length (comma_join (map ?m body)) \<le> sum_list (map (\<lambda>kv. length (fst kv) + ascii_size (snd kv) + 4) body)"
    using length_comma_join[of "map ?m body"] by (simp add: comp_def)
  then have l: "length ?s \<le> n" using assms(4) by simp
  have "ascii_text ?s" using kv by (auto intro!: ascii_comma_join)
  then have "length (utf8_encode ?s) \<le> n" using l by (simp only: length_utf8_ascii)
  moreover have "t = lit prefix @ base64url (utf8_encode ?s)"
    using assms(1) by (auto simp: token_of_def encode_text_def s split: if_splits)
  ultimately show ?thesis using assms(5) by (simp add: length_base64url)
qed


section \<open>Reading the members of a body\<close>

lemma member_reads:
  "s \<noteq> [] \<Longrightarrow> nonempty_member (JStr s) e = Inr s"
  "text_member (JStr s) e = Inr s"
  "triple_member (JList [a, b, c]) e = Inr (a, b, c)"
  "0 \<le> i \<Longrightarrow> turn_list_nonnegative_integer (JInt i) e = Inr i"
  "json_eq_int (JInt i) i"
  by (simp_all add: nonempty_member_def text_member_def triple_member_def turn_list_nonnegative_integer_def)

lemma compare_with_digest:
  "domain_digest d v = Inr expected \<Longrightarrow>
     compare_digest h expected = (if ascii_text h then Inr (h = expected) else Inl NonAsciiDigest)"
  using domain_digest_ascii(1) by (simp add: compare_digest_def ascii_text_def)

lemma digest_ascii: "domain_digest d v = Inr h \<Longrightarrow> ascii_text h"
  using domain_digest_ascii(1) by (simp add: ascii_text_def)


lemma token_of_length:
  "token_of prefix body = Inr t \<Longrightarrow> canonical_body body \<Longrightarrow>
     length t = length prefix + (4 * length (utf8_encode (json_print (JDict body))) + 2) div 3"
  by (auto simp: token_of_def encode_text_def stable_json_dumps_body length_base64url split: if_splits)

end
