(* ===== verification/TurnListTokens.thy ===== *)
theory TurnListTokens
  imports Complex_Main Tokens
begin

text \<open>
  The two tokens of the turn list (\<open>core/turns.py\<close>): the cursor that continues a page of
  one traversal, bound to the whole list request and expiring, and the durable watermark
  of a poll for later turns.  Arguments the code annotates as \<open>int\<close> and \<open>str\<close> are integers
  and texts here; the clock is a rational.
\<close>

section \<open>List cursors\<close>

record turn_list_position =
  tl_schema_version :: int
  tl_limit :: int
  tl_since_sequence :: int
  tl_watermark :: int
  tl_floor_sequence :: int
  tl_traversal_generation :: int
  tl_worker_id :: ustr
  tl_list_sequence :: int
  tl_turn_id :: ustr
  tl_store_epoch :: ustr
  tl_expires_at :: int

definition list_cursor_material :: "ustr \<Rightarrow> turn_list_position \<Rightarrow> (ustr \<times> json) list" where
  "list_cursor_material host p =
     [(lit ''expires_at'', JInt (tl_expires_at p)), (lit ''floor_sequence'', JInt (tl_floor_sequence p)),
      (lit ''traversal_generation'', JInt (tl_traversal_generation p)), (lit ''host_id'', JStr host),
      (lit ''limit'', JInt (tl_limit p)), (lit ''list_sequence'', JInt (tl_list_sequence p)),
      (lit ''schema_version'', JInt (tl_schema_version p)), (lit ''since_sequence'', JInt (tl_since_sequence p)),
      (lit ''store_epoch'', JStr (tl_store_epoch p)), (lit ''turn_id'', JStr (tl_turn_id p)),
      (lit ''watermark'', JInt (tl_watermark p)), (lit ''worker_id'', JStr (tl_worker_id p))]"

definition list_cursor_body :: "ustr \<Rightarrow> turn_list_position \<Rightarrow> ustr \<Rightarrow> (ustr \<times> json) list" where
  "list_cursor_body host p h =
     [(lit ''e'', JInt (tl_expires_at p)), (lit ''f'', JInt (tl_floor_sequence p)),
      (lit ''g'', JInt (tl_traversal_generation p)), (lit ''h'', JStr h), (lit ''l'', JInt (tl_limit p)),
      (lit ''p'', JList [JStr (tl_worker_id p), JInt (tl_list_sequence p), JStr (tl_turn_id p)]),
      (lit ''q'', JStr (tl_store_epoch p)), (lit ''s'', JInt (tl_since_sequence p)), (lit ''v'', JInt 1),
      (lit ''w'', JInt (tl_watermark p)), (lit ''x'', JInt (tl_schema_version p)), (lit ''z'', JStr host)]"

definition TURN_LIST_MAX_LIMIT :: int where "TURN_LIST_MAX_LIMIT = 250"

definition turn_list_cursor :: "ustr \<Rightarrow> turn_list_position \<Rightarrow> ustr content" where
  "turn_list_cursor host p =
     bind_content (require (host \<noteq> [] \<and> tl_worker_id p \<noteq> [] \<and> tl_turn_id p \<noteq> [] \<and> tl_store_epoch p \<noteq> []
         \<and> list_all (\<lambda>s. length s \<le> 512) [host, tl_worker_id p, tl_turn_id p, tl_store_epoch p]) InvalidCursor) (\<lambda>_.
     bind_content (require (0 \<le> tl_schema_version p \<and> 0 \<le> tl_limit p \<and> 0 \<le> tl_since_sequence p
         \<and> 0 \<le> tl_watermark p \<and> 0 \<le> tl_floor_sequence p \<and> 0 \<le> tl_traversal_generation p
         \<and> 0 \<le> tl_list_sequence p \<and> 0 \<le> tl_expires_at p) InvalidCursor) (\<lambda>_.
     bind_content (require (\<not> (tl_schema_version p \<notin> {1, 2}
         \<or> \<not> (1 \<le> tl_limit p \<and> tl_limit p \<le> TURN_LIST_MAX_LIMIT)
         \<or> tl_since_sequence p > tl_watermark p
         \<or> tl_list_sequence p \<le> tl_since_sequence p
         \<or> tl_list_sequence p > tl_watermark p
         \<or> (tl_watermark p \<noteq> 0 \<and> \<not> (1 \<le> tl_floor_sequence p \<and> tl_floor_sequence p \<le> tl_watermark p))
         \<or> tl_traversal_generation p < 1
         \<or> tl_watermark p = 0
         \<or> tl_expires_at p = 0)) InvalidCursor) (\<lambda>_.
     bind_content (domain_digest ''tendwire.turn-list-cursor-integrity.v1'' (list_cursor_material host p)) (\<lambda>h.
     token_of ''twlist1.'' (list_cursor_body host p h)))))"

definition decode_turn_list_cursor :: "ustr \<Rightarrow> ustr \<Rightarrow> int \<Rightarrow> int \<Rightarrow> rat \<Rightarrow> turn_list_position content" where
  "decode_turn_list_cursor cursor host_id schema_version limit now =
     bind_content (decode_turn_list_token ''twlist1.'' InvalidCursor cursor) (\<lambda>body.
     bind_content (require (has_members body
         [''e'', ''f'', ''g'', ''h'', ''l'', ''p'', ''q'', ''s'', ''v'', ''w'', ''x'', ''z'']) InvalidCursor) (\<lambda>_.
     bind_content (require (json_eq_int (member body ''v'') 1) InvalidCursor) (\<lambda>_.
     bind_content (triple_member (member body ''p'') InvalidCursor) (\<lambda>(p0, p1, p2).
     bind_content (nonempty_member p0 InvalidCursor) (\<lambda>worker.
     bind_content (nonempty_member p2 InvalidCursor) (\<lambda>turn.
     bind_content (text_member (member body ''h'') InvalidCursor) (\<lambda>integrity.
     bind_content (nonempty_member (member body ''q'') InvalidCursor) (\<lambda>epoch.
     bind_content (nonempty_member (member body ''z'') InvalidCursor) (\<lambda>host.
     bind_content (turn_list_nonnegative_integer (member body ''e'') InvalidCursor) (\<lambda>expiry.
     bind_content (turn_list_nonnegative_integer (member body ''f'') InvalidCursor) (\<lambda>floor.
     bind_content (turn_list_nonnegative_integer (member body ''g'') InvalidCursor) (\<lambda>generation.
     bind_content (turn_list_nonnegative_integer (member body ''l'') InvalidCursor) (\<lambda>page_limit.
     bind_content (turn_list_nonnegative_integer p1 InvalidCursor) (\<lambda>sequence.
     bind_content (turn_list_nonnegative_integer (member body ''s'') InvalidCursor) (\<lambda>since.
     bind_content (turn_list_nonnegative_integer (member body ''w'') InvalidCursor) (\<lambda>high.
     bind_content (turn_list_nonnegative_integer (member body ''x'') InvalidCursor) (\<lambda>schema.
     bind_content (require (\<not> (host \<noteq> host_id
         \<or> schema \<noteq> schema_version
         \<or> page_limit \<noteq> limit
         \<or> schema \<notin> {1, 2}
         \<or> \<not> (1 \<le> page_limit \<and> page_limit \<le> TURN_LIST_MAX_LIMIT)
         \<or> since > high
         \<or> high = 0
         \<or> sequence \<le> since
         \<or> sequence > high
         \<or> \<not> (1 \<le> floor \<and> floor \<le> high)
         \<or> generation < 1
         \<or> \<not> list_all (\<lambda>s. length s \<le> 512) [host, worker, turn, epoch])) InvalidCursor) (\<lambda>_.
     let p = \<lparr>tl_schema_version = schema, tl_limit = page_limit, tl_since_sequence = since, tl_watermark = high,
              tl_floor_sequence = floor, tl_traversal_generation = generation, tl_worker_id = worker,
              tl_list_sequence = sequence, tl_turn_id = turn, tl_store_epoch = epoch, tl_expires_at = expiry\<rparr> in
     bind_content (domain_digest ''tendwire.turn-list-cursor-integrity.v1'' (list_cursor_material host p)) (\<lambda>expected.
     bind_content (compare_digest integrity expected) (\<lambda>same.
     bind_content (require same InvalidCursor) (\<lambda>_.
     bind_content (require (now < of_int expiry) CursorExpired) (\<lambda>_.
     Inr p))))))))))))))))))))))"

lemma canonical_list_cursor_body: "canonical_body (list_cursor_body host p h)"
proof (rule canonical_letters)
  show "map fst (list_cursor_body host p h)
    = map lit [''e'', ''f'', ''g'', ''h'', ''l'', ''p'', ''q'', ''s'', ''v'', ''w'', ''x'', ''z'']"
    by (simp add: list_cursor_body_def)
  show "letter_keys [''e'', ''f'', ''g'', ''h'', ''l'', ''p'', ''q'', ''s'', ''v'', ''w'', ''x'', ''z'']"
    by code_simp
qed (simp add: list_cursor_body_def)

text \<open>What the encoder checks, and what the decoder makes of a body it could have written.\<close>

definition list_position_ok :: "ustr \<Rightarrow> turn_list_position \<Rightarrow> bool" where
  "list_position_ok host p \<longleftrightarrow>
     list_all (\<lambda>s. s \<noteq> [] \<and> length s \<le> 512) [host, tl_worker_id p, tl_turn_id p, tl_store_epoch p]
     \<and> tl_schema_version p \<in> {1, 2} \<and> 1 \<le> tl_limit p \<and> tl_limit p \<le> TURN_LIST_MAX_LIMIT
     \<and> 0 \<le> tl_since_sequence p \<and> tl_since_sequence p < tl_list_sequence p \<and> tl_list_sequence p \<le> tl_watermark p
     \<and> 1 \<le> tl_floor_sequence p \<and> tl_floor_sequence p \<le> tl_watermark p
     \<and> 1 \<le> tl_traversal_generation p \<and> 1 \<le> tl_expires_at p"

lemma turn_list_cursor_ok:
  "turn_list_cursor host p =
     (if list_position_ok host p
      then bind_content (domain_digest ''tendwire.turn-list-cursor-integrity.v1'' (list_cursor_material host p))
        (\<lambda>h. token_of ''twlist1.'' (list_cursor_body host p h))
      else Inl InvalidCursor)"
  by (auto simp: turn_list_cursor_def list_position_ok_def require_def)

lemma decode_list_cursor_body:
  assumes "token_of ''twlist1.'' (list_cursor_body host p h) = Inr t" "length t \<le> 2056" "list_position_ok host p"
    "domain_digest ''tendwire.turn-list-cursor-integrity.v1'' (list_cursor_material host p) = Inr expected"
  shows "decode_turn_list_cursor t host_id schema limit now =
     (if host \<noteq> host_id \<or> tl_schema_version p \<noteq> schema \<or> tl_limit p \<noteq> limit then Inl InvalidCursor
      else if \<not> ascii_text h then Inl NonAsciiDigest
      else if h \<noteq> expected then Inl InvalidCursor
      else if now < of_int (tl_expires_at p) then Inr p else Inl CursorExpired)"
proof -
  have body: "decode_turn_list_token ''twlist1.'' InvalidCursor t = Inr (list_cursor_body host p h)"
    using decode_token_of[OF assms(1) canonical_list_cursor_body] assms(2) by simp
  have keys: "has_members (list_cursor_body host p h)
      [''e'', ''f'', ''g'', ''h'', ''l'', ''p'', ''q'', ''s'', ''v'', ''w'', ''x'', ''z'']"
    by (simp add: has_members_def list_cursor_body_def)
  have rec: "\<lparr>tl_schema_version = tl_schema_version p, tl_limit = tl_limit p, tl_since_sequence = tl_since_sequence p,
      tl_watermark = tl_watermark p, tl_floor_sequence = tl_floor_sequence p,
      tl_traversal_generation = tl_traversal_generation p, tl_worker_id = tl_worker_id p,
      tl_list_sequence = tl_list_sequence p, tl_turn_id = tl_turn_id p, tl_store_epoch = tl_store_epoch p,
      tl_expires_at = tl_expires_at p\<rparr> = p"
    by simp
  have mem: "member (list_cursor_body host p h) ''v'' = JInt 1"
    "member (list_cursor_body host p h) ''p'' = JList [JStr (tl_worker_id p), JInt (tl_list_sequence p), JStr (tl_turn_id p)]"
    "member (list_cursor_body host p h) ''h'' = JStr h" "member (list_cursor_body host p h) ''q'' = JStr (tl_store_epoch p)"
    "member (list_cursor_body host p h) ''z'' = JStr host" "member (list_cursor_body host p h) ''e'' = JInt (tl_expires_at p)"
    "member (list_cursor_body host p h) ''f'' = JInt (tl_floor_sequence p)"
    "member (list_cursor_body host p h) ''g'' = JInt (tl_traversal_generation p)"
    "member (list_cursor_body host p h) ''l'' = JInt (tl_limit p)"
    "member (list_cursor_body host p h) ''s'' = JInt (tl_since_sequence p)"
    "member (list_cursor_body host p h) ''w'' = JInt (tl_watermark p)"
    "member (list_cursor_body host p h) ''x'' = JInt (tl_schema_version p)"
    by (simp_all add: list_cursor_body_def)
  have texts: "tl_worker_id p \<noteq> []" "tl_turn_id p \<noteq> []" "tl_store_epoch p \<noteq> []" "host \<noteq> []"
    and ints: "0 \<le> tl_schema_version p" "0 \<le> tl_limit p" "0 \<le> tl_since_sequence p" "0 \<le> tl_watermark p"
    "0 \<le> tl_floor_sequence p" "0 \<le> tl_traversal_generation p" "0 \<le> tl_list_sequence p" "0 \<le> tl_expires_at p"
    using assms(3) by (auto simp: list_position_ok_def)
  note read = texts[THEN member_reads(1)] ints[THEN member_reads(4)]
  have "decode_turn_list_cursor t host_id schema limit now =
      bind_content (require (host = host_id \<and> tl_schema_version p = schema \<and> tl_limit p = limit) InvalidCursor) (\<lambda>_.
      bind_content (compare_digest h expected) (\<lambda>same. bind_content (require same InvalidCursor) (\<lambda>_.
      bind_content (require (now < of_int (tl_expires_at p)) CursorExpired) (\<lambda>_. Inr p))))"
    unfolding decode_turn_list_cursor_def body bind_content_simps mem
    apply (simp only: keys member_reads read require_True bind_content_simps prod.case Let_def rec assms(4))
    using assms(3) by (intro arg_cong2[where f = bind_content] arg_cong2[where f = require] refl)
      (auto simp: list_position_ok_def)
  then show ?thesis
    by (simp add: compare_with_digest[OF assms(4)] require_def)
qed

lemma decode_own_list_cursor:
  assumes "turn_list_cursor host p = Inr t" "length t \<le> 2056"
  shows "decode_turn_list_cursor t host_id schema limit now =
     (if host \<noteq> host_id \<or> tl_schema_version p \<noteq> schema \<or> tl_limit p \<noteq> limit then Inl InvalidCursor
      else if now < of_int (tl_expires_at p) then Inr p else Inl CursorExpired)"
proof -
  obtain h where h: "list_position_ok host p"
    "domain_digest ''tendwire.turn-list-cursor-integrity.v1'' (list_cursor_material host p) = Inr h"
    "token_of ''twlist1.'' (list_cursor_body host p h) = Inr t"
    using assms(1) by (auto simp: turn_list_cursor_ok bind_content_eq_Inr split: if_splits)
  show ?thesis
    using decode_list_cursor_body[OF h(3) assms(2) h(1,2)] digest_ascii[OF h(2)] by simp
qed

text \<open>
  A turn-list cursor that is short enough for the decoder decodes, for the request it
  was made for and before it expires, to exactly the position it was made from; once
  expired it reports \<open>cursor_expired\<close>, and for another host, schema version or page
  limit it is an invalid cursor.
\<close>

theorem list_cursor_round_trip:
  assumes "turn_list_cursor host p = Inr t" "length t \<le> 2056"
  shows "(now < of_int (tl_expires_at p) \<longrightarrow>
           decode_turn_list_cursor t host (tl_schema_version p) (tl_limit p) now = Inr p)
    \<and> (of_int (tl_expires_at p) \<le> now \<longrightarrow>
           decode_turn_list_cursor t host (tl_schema_version p) (tl_limit p) now = Inl CursorExpired)
    \<and> ((host', schema, limit) \<noteq> (host, tl_schema_version p, tl_limit p) \<longrightarrow>
           decode_turn_list_cursor t host' schema limit now = Inl InvalidCursor)"
  using decode_own_list_cursor[OF assms] by auto


lemma list_cursor_succeeds:
  assumes "list_position_ok host p"
    "list_all unicode_text [host, tl_worker_id p, tl_turn_id p, tl_store_epoch p]"
  obtains t h where "turn_list_cursor host p = Inr t"
    "domain_digest ''tendwire.turn-list-cursor-integrity.v1'' (list_cursor_material host p) = Inr h"
    "token_of ''twlist1.'' (list_cursor_body host p h) = Inr t"
proof -
  have "json_unicode (JDict (list_cursor_material host p))"
    using assms(2) by (simp add: list_cursor_material_def)
  then obtain h where h: "domain_digest ''tendwire.turn-list-cursor-integrity.v1'' (list_cursor_material host p) = Inr h"
    using domain_digest_total by blast
  have "json_unicode (JDict (list_cursor_body host p h))"
    using assms(2) domain_digest_ascii(4)[OF h] by (simp add: list_cursor_body_def)
  then obtain t where "token_of ''twlist1.'' (list_cursor_body host p h) = Inr t" using token_of_total by blast
  then show ?thesis using that assms(1) by (simp add: turn_list_cursor_ok h)
qed

lemma plain_list_cursor:
  assumes "list_position_ok host p"
    "list_all plain_text [host, tl_worker_id p, tl_turn_id p, tl_store_epoch p]"
    "length host + length (tl_worker_id p) + length (tl_turn_id p) + length (tl_store_epoch p) \<le> 1000"
    "tl_watermark p < 10 ^ 18" "tl_traversal_generation p < 10 ^ 18" "tl_expires_at p < 10 ^ 18"
  obtains t where "turn_list_cursor host p = Inr t" "length t \<le> 2056"
proof -
  obtain t h where t: "turn_list_cursor host p = Inr t"
    "domain_digest ''tendwire.turn-list-cursor-integrity.v1'' (list_cursor_material host p) = Inr h"
    "token_of ''twlist1.'' (list_cursor_body host p h) = Inr t"
    by (rule list_cursor_succeeds[OF assms(1)]) (use assms(2) in \<open>auto simp: plain_text_unicode\<close>)
  have "small_int (tl_expires_at p)" "small_int (tl_floor_sequence p)" "small_int (tl_traversal_generation p)"
    "small_int (tl_limit p)" "small_int (tl_list_sequence p)" "small_int (tl_since_sequence p)" "small_int 1"
    "small_int (tl_watermark p)" "small_int (tl_schema_version p)"
    using assms(1,4,5,6) by (auto simp: list_position_ok_def small_int_def TURN_LIST_MAX_LIMIT_def)
  then have v: "\<forall>kv \<in> set (list_cursor_body host p h). plain_text (fst kv) \<and> ascii_value (snd kv)"
    using assms(2) plain_digest[OF t(2)] by (simp add: list_cursor_body_def) (simp add: plain_text_def lit_def)
  have "length t \<le> length ''twlist1.'' + 2048"
    by (rule token_fits[OF t(3) canonical_list_cursor_body v, of 1500])
      (use assms(3) domain_digest_ascii(3)[OF t(2)] in \<open>simp_all add: list_cursor_body_def\<close>)
  then show ?thesis using that t(1) by simp
qed

text \<open>
  For printable ASCII ids without quotes and backslashes of at most 1000 characters
  together and integers of at most 18 digits, every position the encoder accepts has a
  cursor, and the decoder gives the position back until it expires.
\<close>

theorem plain_ids_have_live_cursors:
  assumes "list_position_ok host p"
    "list_all plain_text [host, tl_worker_id p, tl_turn_id p, tl_store_epoch p]"
    "length host + length (tl_worker_id p) + length (tl_turn_id p) + length (tl_store_epoch p) \<le> 1000"
    "tl_watermark p < 10 ^ 18" "tl_traversal_generation p < 10 ^ 18" "tl_expires_at p < 10 ^ 18"
    "now < of_int (tl_expires_at p)"
  shows "\<exists>t. turn_list_cursor host p = Inr t
    \<and> decode_turn_list_cursor t host (tl_schema_version p) (tl_limit p) now = Inr p"
proof -
  obtain t where t: "turn_list_cursor host p = Inr t" "length t \<le> 2056"
    by (rule plain_list_cursor[OF assms(1-6)])
  show ?thesis using t(1) decode_own_list_cursor[OF t] assms(7) by simp
qed

text \<open>
  The digest of a list cursor is compared only after everything else was read: a token
  with the encoder's members and another digest is an invalid cursor if that digest is
  ASCII, but with a digest outside ASCII the comparison itself raises \<open>TypeError\<close>, which is
  none of the decoder's statuses.
\<close>

theorem forged_list_digest:
  assumes "list_position_ok host p" "list_all unicode_text [host, tl_worker_id p, tl_turn_id p, tl_store_epoch p]"
    "token_of ''twlist1.'' (list_cursor_body host p h) = Inr t" "length t \<le> 2056"
    "domain_digest ''tendwire.turn-list-cursor-integrity.v1'' (list_cursor_material host p) \<noteq> Inr h"
  shows "decode_turn_list_cursor t host (tl_schema_version p) (tl_limit p) now =
     Inl (if list_all (\<lambda>c. c < 128) h then InvalidCursor else NonAsciiDigest)"
proof -
  obtain t' h' where t: "turn_list_cursor host p = Inr t'"
    "domain_digest ''tendwire.turn-list-cursor-integrity.v1'' (list_cursor_material host p) = Inr h'"
    "token_of ''twlist1.'' (list_cursor_body host p h') = Inr t'"
    by (rule list_cursor_succeeds[OF assms(1,2)])
  have "h \<noteq> h'" using t(2) assms(5) by auto
  then show ?thesis
    using decode_list_cursor_body[OF assms(3,4,1) t(2)] by (simp add: ascii_text_def)
qed

text \<open>
  The encoder accepts ids of up to 512 characters each, but the decoder refuses more
  than 2048 encoded characters: whenever the four ids have 1537 characters or more together,
  the encoder's own cursor is an invalid cursor for every request, at every time.
\<close>

theorem long_ids_make_dead_cursors:
  assumes "turn_list_cursor host p = Inr t"
    "1537 \<le> length host + length (tl_worker_id p) + length (tl_turn_id p) + length (tl_store_epoch p)"
  shows "decode_turn_list_cursor t host' schema limit now = Inl InvalidCursor"
proof -
  obtain h where h: "token_of ''twlist1.'' (list_cursor_body host p h) = Inr t"
    using assms(1) by (auto simp: turn_list_cursor_ok bind_content_eq_Inr split: if_splits)
  have "1537 \<le> text_size (JDict (list_cursor_body host p h))"
    using assms(2) by (simp add: list_cursor_body_def)
  from token_too_long[OF h canonical_list_cursor_body this] show ?thesis
    by (simp add: decode_turn_list_cursor_def)
qed

text \<open>
  Whatever token is presented, a decoded list position is for the request's host, schema
  version and limit, has not expired, lies after the poll's start and not past its watermark,
  and is what the token's digest binds; every refusal is one of the two statuses, a text
  Python cannot encode, or a digest Python will not compare.
\<close>

theorem decoded_list_position_is_sound:
  "case decode_turn_list_cursor t host schema limit now of
     Inr p \<Rightarrow> tl_schema_version p = schema \<and> tl_limit p = limit \<and> now < of_int (tl_expires_at p)
       \<and> tl_schema_version p \<in> {1, 2} \<and> 1 \<le> tl_limit p \<and> tl_limit p \<le> 250
       \<and> 0 \<le> tl_since_sequence p \<and> tl_since_sequence p < tl_list_sequence p
       \<and> tl_list_sequence p \<le> tl_watermark p \<and> 1 \<le> tl_floor_sequence p \<and> tl_floor_sequence p \<le> tl_watermark p
       \<and> 1 \<le> tl_traversal_generation p
       \<and> list_all (\<lambda>s. s \<noteq> [] \<and> length s \<le> 512) [host, tl_worker_id p, tl_turn_id p, tl_store_epoch p]
   | Inl e \<Rightarrow> e \<in> {InvalidCursor, CursorExpired, EncodeError, NonAsciiDigest}"
proof -
  let ?P = "\<lambda>p. tl_schema_version p = schema \<and> tl_limit p = limit \<and> now < of_int (tl_expires_at p)
       \<and> tl_schema_version p \<in> {1, 2} \<and> 1 \<le> tl_limit p \<and> tl_limit p \<le> 250
       \<and> 0 \<le> tl_since_sequence p \<and> tl_since_sequence p < tl_list_sequence p
       \<and> tl_list_sequence p \<le> tl_watermark p \<and> 1 \<le> tl_floor_sequence p \<and> tl_floor_sequence p \<le> tl_watermark p
       \<and> 1 \<le> tl_traversal_generation p
       \<and> list_all (\<lambda>s. s \<noteq> [] \<and> length s \<le> 512) [host, tl_worker_id p, tl_turn_id p, tl_store_epoch p]"
  let ?E = "\<lambda>e. e \<in> {InvalidCursor, CursorExpired, EncodeError, NonAsciiDigest}"
  have "returns (decode_turn_list_cursor t host schema limit now) ?P ?E"
    unfolding decode_turn_list_cursor_def
    by (unfold Let_def case_prod_beta)
      (rule returns_bind, rule steps, simp | rule returns_Inr, (auto simp: TURN_LIST_MAX_LIMIT_def)[1])+
  then show ?thesis unfolding returns_def .
qed


definition example_position :: turn_list_position where
  "example_position =
     \<lparr>tl_schema_version = 2, tl_limit = 100, tl_since_sequence = 3, tl_watermark = 90, tl_floor_sequence = 1,
      tl_traversal_generation = 1, tl_worker_id = lit ''worker'', tl_list_sequence = 41, tl_turn_id = lit ''turn'',
      tl_store_epoch = lit ''epoch'', tl_expires_at = 900\<rparr>"

lemma example_position_ok:
  "list_position_ok (lit ''host'') example_position"
  "list_all plain_text [lit ''host'', tl_worker_id example_position, tl_turn_id example_position, tl_store_epoch example_position]"
  by (simp_all add: list_position_ok_def example_position_def TURN_LIST_MAX_LIMIT_def plain_text_def lit_def)

theorem list_cursor_round_trip_witness:
  "\<exists>t. turn_list_cursor (lit ''host'') example_position = Inr t
    \<and> decode_turn_list_cursor t (lit ''host'') 2 100 899 = Inr example_position
    \<and> decode_turn_list_cursor t (lit ''host'') 2 100 900 = Inl CursorExpired
    \<and> decode_turn_list_cursor t (lit ''hosts'') 2 100 899 = Inl InvalidCursor"
proof -
  obtain t where t: "turn_list_cursor (lit ''host'') example_position = Inr t" "length t \<le> 2056"
    by (rule plain_list_cursor[OF example_position_ok]) (simp_all add: example_position_def)
  note r = list_cursor_round_trip[OF t, of 899 "lit ''hosts''" 2 100]
    list_cursor_round_trip[OF t, of 900 "lit ''hosts''" 2 100]
  show ?thesis using t(1) r by (intro exI[of _ t]) (simp add: example_position_def)
qed

theorem plain_ids_have_live_cursors_witness:
  "\<exists>t. turn_list_cursor (lit ''host'') example_position = Inr t
    \<and> decode_turn_list_cursor t (lit ''host'') 2 100 12 = Inr example_position"
  using plain_ids_have_live_cursors[OF example_position_ok, of 12] by (simp add: example_position_def)

theorem long_ids_make_dead_cursors_witness:
  "\<exists>t. turn_list_cursor (replicate 512 97) (example_position\<lparr>tl_worker_id := replicate 512 97, tl_turn_id := replicate 512 98,
        tl_store_epoch := replicate 32 99\<rparr>) = Inr t
    \<and> decode_turn_list_cursor t (replicate 512 97) 2 100 1 = Inl InvalidCursor"
proof -
  let ?p = "example_position\<lparr>tl_worker_id := replicate 512 97, tl_turn_id := replicate 512 98, tl_store_epoch := replicate 32 99\<rparr>"
  have r: "unicode_text (replicate n c)" if "c < 128" for n c using that by (induction n) simp_all
  have "list_position_ok (replicate 512 97) ?p"
    by (simp add: list_position_ok_def example_position_def TURN_LIST_MAX_LIMIT_def)
  then obtain t where t: "turn_list_cursor (replicate 512 97) ?p = Inr t"
    by (rule list_cursor_succeeds) (simp_all add: r)
  with long_ids_make_dead_cursors[OF t, of "replicate 512 97" 2 100 1] show ?thesis by simp
qed

theorem forged_list_digest_witness:
  "\<exists>t. token_of ''twlist1.'' (list_cursor_body (lit ''host'') example_position [233]) = Inr t
    \<and> decode_turn_list_cursor t (lit ''host'') 2 100 12 = Inl NonAsciiDigest"
proof -
  let ?b = "list_cursor_body (lit ''host'') example_position [233]"
  have "json_unicode (JDict ?b)" by (simp add: list_cursor_body_def example_position_def unicode_char_def)
  then obtain t where t: "token_of ''twlist1.'' ?b = Inr t" using token_of_total by blast
  have "length (utf8_encode (json_print (JDict ?b))) \<le> 1000"
    by (simp add: list_cursor_body_def example_position_def dumps_str_def lit_def escape_char_def show_int_def
        show_nat.simps utf8_char_def)
  then have len: "length t \<le> 2056" using token_of_length[OF t canonical_list_cursor_body] by simp
  have ne: "domain_digest ''tendwire.turn-list-cursor-integrity.v1'' (list_cursor_material (lit ''host'') example_position) \<noteq> Inr [233]"
    using digest_ascii by fastforce
  have u: "list_all unicode_text [lit ''host'', tl_worker_id example_position, tl_turn_id example_position, tl_store_epoch example_position]"
    by (simp add: example_position_def)
  show ?thesis using t forged_list_digest[OF example_position_ok(1) u t len ne, of 12] by (simp add: example_position_def)
qed


section \<open>Since tokens\<close>

record turn_since_position =
  ts_schema_version :: int
  ts_watermark :: int
  ts_store_epoch :: ustr

definition since_material :: "ustr \<Rightarrow> turn_since_position \<Rightarrow> (ustr \<times> json) list" where
  "since_material host p =
     [(lit ''host_id'', JStr host), (lit ''schema_version'', JInt (ts_schema_version p)),
      (lit ''store_epoch'', JStr (ts_store_epoch p)), (lit ''watermark'', JInt (ts_watermark p))]"

definition since_body :: "ustr \<Rightarrow> turn_since_position \<Rightarrow> ustr \<Rightarrow> (ustr \<times> json) list" where
  "since_body host p h =
     [(lit ''h'', JStr h), (lit ''q'', JStr (ts_store_epoch p)), (lit ''v'', JInt 1),
      (lit ''w'', JInt (ts_watermark p)), (lit ''x'', JInt (ts_schema_version p)), (lit ''z'', JStr host)]"

definition turn_since_token :: "ustr \<Rightarrow> turn_since_position \<Rightarrow> ustr content" where
  "turn_since_token host p =
     bind_content (require (0 \<le> ts_schema_version p \<and> 0 \<le> ts_watermark p) InvalidCursor) (\<lambda>_.
     bind_content (require (host \<noteq> [] \<and> ts_store_epoch p \<noteq> [] \<and> length host \<le> 512
         \<and> length (ts_store_epoch p) \<le> 512 \<and> ts_schema_version p \<in> {1, 2}) InvalidCursor) (\<lambda>_.
     bind_content (domain_digest ''tendwire.turn-list-since-integrity.v1'' (since_material host p)) (\<lambda>h.
     token_of ''twsince1.'' (since_body host p h))))"

definition decode_turn_since_token :: "ustr \<Rightarrow> ustr \<Rightarrow> int \<Rightarrow> turn_since_position content" where
  "decode_turn_since_token token host_id schema_version =
     bind_content (decode_turn_list_token ''twsince1.'' InvalidCursor token) (\<lambda>body.
     bind_content (require (has_members body [''h'', ''q'', ''v'', ''w'', ''x'', ''z'']
         \<and> json_eq_int (member body ''v'') 1) InvalidCursor) (\<lambda>_.
     bind_content (text_member (member body ''h'') InvalidCursor) (\<lambda>integrity.
     bind_content (nonempty_member (member body ''q'') InvalidCursor) (\<lambda>epoch.
     bind_content (nonempty_member (member body ''z'') InvalidCursor) (\<lambda>host.
     bind_content (turn_list_nonnegative_integer (member body ''w'') InvalidCursor) (\<lambda>high.
     bind_content (turn_list_nonnegative_integer (member body ''x'') InvalidCursor) (\<lambda>schema.
     bind_content (require (\<not> (host \<noteq> host_id
         \<or> schema \<noteq> schema_version
         \<or> schema \<notin> {1, 2}
         \<or> 512 < length host \<or> 512 < length epoch)) InvalidCursor) (\<lambda>_.
     let p = \<lparr>ts_schema_version = schema, ts_watermark = high, ts_store_epoch = epoch\<rparr> in
     bind_content (domain_digest ''tendwire.turn-list-since-integrity.v1'' (since_material host p)) (\<lambda>expected.
     bind_content (compare_digest integrity expected) (\<lambda>same.
     bind_content (require same InvalidCursor) (\<lambda>_. Inr p)))))))))))"

lemma canonical_since_body: "canonical_body (since_body host p h)"
proof (rule canonical_letters)
  show "map fst (since_body host p h) = map lit [''h'', ''q'', ''v'', ''w'', ''x'', ''z'']" by (simp add: since_body_def)
  show "letter_keys [''h'', ''q'', ''v'', ''w'', ''x'', ''z'']" by code_simp
qed (simp add: since_body_def)

text \<open>
  The watermark of a poll that is short enough decodes, without expiring, to the position
  it was made from for its own host and schema version, and is invalid for any other.
\<close>

theorem since_token_round_trip:
  assumes "turn_since_token host p = Inr t" "length t \<le> 2057"
  shows "decode_turn_since_token t host_id schema =
     (if host_id = host \<and> schema = ts_schema_version p then Inr p else Inl InvalidCursor)"
proof -
  obtain h where ok: "0 \<le> ts_schema_version p" "0 \<le> ts_watermark p" "host \<noteq> []" "ts_store_epoch p \<noteq> []"
      "length host \<le> 512" "length (ts_store_epoch p) \<le> 512" "ts_schema_version p \<in> {1, 2}"
    and h: "domain_digest ''tendwire.turn-list-since-integrity.v1'' (since_material host p) = Inr h"
    and t: "token_of ''twsince1.'' (since_body host p h) = Inr t"
    using assms(1) by (auto simp: turn_since_token_def bind_content_eq_Inr)
  have body: "decode_turn_list_token ''twsince1.'' InvalidCursor t = Inr (since_body host p h)"
    using decode_token_of[OF t canonical_since_body] assms(2) by simp
  have keys: "has_members (since_body host p h) [''h'', ''q'', ''v'', ''w'', ''x'', ''z'']"
    by (simp add: has_members_def since_body_def)
  have mem: "member (since_body host p h) ''v'' = JInt 1" "member (since_body host p h) ''h'' = JStr h"
    "member (since_body host p h) ''q'' = JStr (ts_store_epoch p)" "member (since_body host p h) ''z'' = JStr host"
    "member (since_body host p h) ''w'' = JInt (ts_watermark p)" "member (since_body host p h) ''x'' = JInt (ts_schema_version p)"
    by (simp_all add: since_body_def)
  have rec: "\<lparr>ts_schema_version = ts_schema_version p, ts_watermark = ts_watermark p, ts_store_epoch = ts_store_epoch p\<rparr> = p"
    by simp
  note read = ok(3,4)[THEN member_reads(1)] ok(1,2)[THEN member_reads(4)]
  have "decode_turn_since_token t host_id schema =
      bind_content (require (host = host_id \<and> ts_schema_version p = schema) InvalidCursor) (\<lambda>_.
      bind_content (compare_digest h h) (\<lambda>same. bind_content (require same InvalidCursor) (\<lambda>_. Inr p)))"
    unfolding decode_turn_since_token_def body bind_content_simps mem
    apply (simp only: keys member_reads read simp_thms require_True bind_content_simps Let_def rec h)
    using ok by (intro arg_cong2[where f = bind_content] arg_cong2[where f = require] refl) auto
  then show ?thesis by (auto simp: compare_digest_same[OF h] require_def)
qed


text \<open>A watermark of plain ids always fits the decoder's limit.\<close>

lemma plain_since_token:
  assumes "0 \<le> ts_watermark p" "ts_watermark p < 10 ^ 18" "ts_schema_version p \<in> {1, 2}"
    "list_all (\<lambda>s. s \<noteq> [] \<and> length s \<le> 512 \<and> plain_text s) [host, ts_store_epoch p]"
  obtains t where "turn_since_token host p = Inr t" "length t \<le> 2057"
proof -
  have "json_unicode (JDict (since_material host p))"
    using assms(4) by (simp add: since_material_def plain_text_unicode)
  then obtain h where h: "domain_digest ''tendwire.turn-list-since-integrity.v1'' (since_material host p) = Inr h"
    using domain_digest_total by blast
  have "json_unicode (JDict (since_body host p h))"
    using assms(4) domain_digest_ascii(4)[OF h] by (simp add: since_body_def plain_text_unicode)
  then obtain t where t: "token_of ''twsince1.'' (since_body host p h) = Inr t" using token_of_total by blast
  have "small_int (ts_watermark p)" "small_int (ts_schema_version p)" "small_int 1"
    using assms(1,2,3) by (auto simp: small_int_def)
  then have v: "\<forall>kv \<in> set (since_body host p h). plain_text (fst kv) \<and> ascii_value (snd kv)"
    using assms(4) plain_digest[OF h] by (simp add: since_body_def) (simp add: plain_text_def lit_def)
  have "length t \<le> length ''twsince1.'' + 2048"
    by (rule token_fits[OF t canonical_since_body v, of 1500])
      (use assms(4) domain_digest_ascii(3)[OF h] in \<open>simp_all add: since_body_def\<close>)
  moreover have "turn_since_token host p = Inr t" using assms h t by (auto simp: turn_since_token_def require_def)
  ultimately show ?thesis using that by simp
qed

definition example_since :: turn_since_position where
  "example_since = \<lparr>ts_schema_version = 2, ts_watermark = 41, ts_store_epoch = lit ''epoch''\<rparr>"

theorem since_token_round_trip_witness:
  "\<exists>t. turn_since_token (lit ''host'') example_since = Inr t
    \<and> decode_turn_since_token t (lit ''host'') 2 = Inr example_since
    \<and> decode_turn_since_token t (lit ''host'') 1 = Inl InvalidCursor"
proof -
  obtain t where t: "turn_since_token (lit ''host'') example_since = Inr t" "length t \<le> 2057"
    by (rule plain_since_token[of example_since "lit ''host''"])
      (simp_all add: example_since_def plain_text_def lit_def)
  show ?thesis using t(1) since_token_round_trip[OF t, of "lit ''host''" 2] since_token_round_trip[OF t, of "lit ''host''" 1]
    by (intro exI[of _ t]) (simp add: example_since_def)
qed

end
