(* ===== verification/TurnDeltaTokens.thy ===== *)
theory TurnDeltaTokens
  imports Complex_Main Tokens
begin

text \<open>
  The two tokens of turn deltas (\<open>core/turns.py\<close>): the durable watermark of an accepted
  change sequence and the short-lived cursor inside one frozen batch.  Both name the host
  only by its digest, and the watermark tells apart a foreign host from a schema mismatch.
\<close>

section \<open>Watermarks\<close>

record turn_delta_watermark_position =
  dw_schema_version :: int
  dw_projection_schema_version :: int
  dw_sequence :: int
  dw_store_epoch :: ustr

definition turn_delta_host_digest :: "ustr \<Rightarrow> ustr content" where
  "turn_delta_host_digest host =
     (if host = [] \<or> 512 < length host then Inl InvalidWatermark
      else domain_digest ''tendwire.turn-delta-host.v1'' [(lit ''host_id'', JStr host)])"

definition delta_watermark_material :: "ustr \<Rightarrow> turn_delta_watermark_position \<Rightarrow> (ustr \<times> json) list" where
  "delta_watermark_material z p =
     [(lit ''host_digest'', JStr z), (lit ''projection_schema_version'', JInt (dw_projection_schema_version p)),
      (lit ''schema_version'', JInt (dw_schema_version p)), (lit ''sequence'', JInt (dw_sequence p)),
      (lit ''store_epoch'', JStr (dw_store_epoch p)), (lit ''token_version'', JInt 1)]"

definition delta_watermark_body :: "ustr \<Rightarrow> turn_delta_watermark_position \<Rightarrow> ustr \<Rightarrow> (ustr \<times> json) list" where
  "delta_watermark_body z p h =
     [(lit ''h'', JStr h), (lit ''p'', JInt (dw_projection_schema_version p)), (lit ''q'', JStr (dw_store_epoch p)),
      (lit ''s'', JInt (dw_sequence p)), (lit ''v'', JInt 1), (lit ''x'', JInt (dw_schema_version p)), (lit ''z'', JStr z)]"

definition turn_delta_watermark :: "ustr \<Rightarrow> turn_delta_watermark_position \<Rightarrow> ustr content" where
  "turn_delta_watermark host p =
     bind_content (require (0 \<le> dw_schema_version p \<and> 0 \<le> dw_projection_schema_version p \<and> 0 \<le> dw_sequence p)
       InvalidWatermark) (\<lambda>_.
     bind_content (require (\<not> (dw_schema_version p \<noteq> 1
         \<or> dw_projection_schema_version p \<noteq> 2
         \<or> dw_store_epoch p = []
         \<or> 512 < length (dw_store_epoch p))) InvalidWatermark) (\<lambda>_.
     bind_content (turn_delta_host_digest host) (\<lambda>z.
     bind_content (domain_digest ''tendwire.turn-delta-watermark-integrity.v1'' (delta_watermark_material z p)) (\<lambda>h.
     token_of ''twdelta1.'' (delta_watermark_body z p h)))))"

definition decode_turn_delta_watermark ::
  "ustr \<Rightarrow> ustr \<Rightarrow> int \<Rightarrow> int \<Rightarrow> turn_delta_watermark_position content" where
  "decode_turn_delta_watermark token host_id schema_version projection_schema_version =
     bind_content (decode_turn_list_token ''twdelta1.'' InvalidWatermark token) (\<lambda>body.
     bind_content (require (has_members body [''h'', ''p'', ''q'', ''s'', ''v'', ''x'', ''z'']
         \<and> json_eq_int (member body ''v'') 1) InvalidWatermark) (\<lambda>_.
     bind_content (nonempty_member (member body ''h'') InvalidWatermark) (\<lambda>integrity.
     bind_content (nonempty_member (member body ''q'') InvalidWatermark) (\<lambda>epoch.
     bind_content (nonempty_member (member body ''z'') InvalidWatermark) (\<lambda>host_digest.
     bind_content (turn_list_nonnegative_integer (member body ''x'') InvalidWatermark) (\<lambda>schema.
     bind_content (turn_list_nonnegative_integer (member body ''p'') InvalidWatermark) (\<lambda>projection.
     bind_content (turn_list_nonnegative_integer (member body ''s'') InvalidWatermark) (\<lambda>accepted.
     bind_content (require (length epoch \<le> 512 \<and> length host_digest \<le> 512) InvalidWatermark) (\<lambda>_.
     let p = \<lparr>dw_schema_version = schema, dw_projection_schema_version = projection, dw_sequence = accepted,
              dw_store_epoch = epoch\<rparr> in
     bind_content (domain_digest ''tendwire.turn-delta-watermark-integrity.v1'' (delta_watermark_material host_digest p))
       (\<lambda>expected_integrity.
     bind_content (compare_digest integrity expected_integrity) (\<lambda>same.
     bind_content (require same InvalidWatermark) (\<lambda>_.
     bind_content (turn_delta_host_digest host_id) (\<lambda>own.
     bind_content (compare_digest host_digest own) (\<lambda>same_host.
     bind_content (require same_host CrossHostWatermark) (\<lambda>_.
     bind_content (require (schema = schema_version \<and> projection = projection_schema_version) IncompatibleSchema) (\<lambda>_.
     Inr p))))))))))))))))"

lemma canonical_delta_watermark_body: "canonical_body (delta_watermark_body z p h)"
proof (rule canonical_letters)
  show "map fst (delta_watermark_body z p h) = map lit [''h'', ''p'', ''q'', ''s'', ''v'', ''x'', ''z'']"
    by (simp add: delta_watermark_body_def)
  show "letter_keys [''h'', ''p'', ''q'', ''s'', ''v'', ''x'', ''z'']" by code_simp
qed (simp add: delta_watermark_body_def)

lemma host_digest_is_digest:
  assumes "turn_delta_host_digest host = Inr z"
  shows "ascii_text z" "z \<noteq> []" "length z = 43" "unicode_text z" "plain_text z"
proof -
  have d: "domain_digest ''tendwire.turn-delta-host.v1'' [(lit ''host_id'', JStr host)] = Inr z"
    using assms by (simp add: turn_delta_host_digest_def split: if_splits)
  show "ascii_text z" "z \<noteq> []" "length z = 43" "unicode_text z" "plain_text z"
    using digest_ascii[OF d] domain_digest_ascii(2-4)[OF d] plain_digest[OF d] by simp_all
qed

lemma compare_host_digests:
  "turn_delta_host_digest a = Inr x \<Longrightarrow> turn_delta_host_digest b = Inr y \<Longrightarrow> compare_digest x y = Inr (x = y)"
  using host_digest_is_digest(1) by (simp add: compare_digest_def ascii_text_def)

text \<open>
  A delta watermark that is short enough tells its reader what is wrong with it: for a
  host of another digest it is \<open>cross_host_watermark\<close>, for the same host and another
  schema or projection version it is \<open>incompatible_schema\<close>, and for the request it was
  made for it gives the position back.
\<close>

theorem delta_watermark_outcomes:
  assumes "turn_delta_watermark host p = Inr t" "length t \<le> 2057"
  shows "decode_turn_delta_watermark t host' schema projection =
     bind_content (turn_delta_host_digest host') (\<lambda>z'.
       if turn_delta_host_digest host \<noteq> Inr z' then Inl CrossHostWatermark
       else if schema = 1 \<and> projection = 2 then Inr p else Inl IncompatibleSchema)"
proof -
  obtain z h where ok: "0 \<le> dw_sequence p" "dw_store_epoch p \<noteq> []" "length (dw_store_epoch p) \<le> 512"
      "dw_schema_version p = 1" "dw_projection_schema_version p = 2"
    and z: "turn_delta_host_digest host = Inr z"
    and h: "domain_digest ''tendwire.turn-delta-watermark-integrity.v1'' (delta_watermark_material z p) = Inr h"
    and t: "token_of ''twdelta1.'' (delta_watermark_body z p h) = Inr t"
    using assms(1) by (auto simp: turn_delta_watermark_def bind_content_eq_Inr)
  have body: "decode_turn_list_token ''twdelta1.'' InvalidWatermark t = Inr (delta_watermark_body z p h)"
    using decode_token_of[OF t canonical_delta_watermark_body] assms(2) by simp
  have keys: "has_members (delta_watermark_body z p h) [''h'', ''p'', ''q'', ''s'', ''v'', ''x'', ''z'']"
    by (simp add: has_members_def delta_watermark_body_def)
  have mem: "member (delta_watermark_body z p h) ''v'' = JInt 1" "member (delta_watermark_body z p h) ''h'' = JStr h"
    "member (delta_watermark_body z p h) ''q'' = JStr (dw_store_epoch p)" "member (delta_watermark_body z p h) ''z'' = JStr z"
    "member (delta_watermark_body z p h) ''s'' = JInt (dw_sequence p)" "member (delta_watermark_body z p h) ''x'' = JInt 1"
    "member (delta_watermark_body z p h) ''p'' = JInt 2"
    using ok by (simp_all add: delta_watermark_body_def)
  have rec: "\<lparr>dw_schema_version = 1, dw_projection_schema_version = 2, dw_sequence = dw_sequence p,
      dw_store_epoch = dw_store_epoch p\<rparr> = p"
    using ok by simp
  note lens = host_digest_is_digest(3)[OF z]
  note read = domain_digest_ascii(2)[OF h, THEN member_reads(1)] host_digest_is_digest(2)[OF z, THEN member_reads(1)]
    ok(2)[THEN member_reads(1)] ok(1)[THEN member_reads(4)]
  have "decode_turn_delta_watermark t host' schema projection =
      bind_content (turn_delta_host_digest host') (\<lambda>own.
      bind_content (compare_digest z own) (\<lambda>same. bind_content (require same CrossHostWatermark) (\<lambda>_.
      bind_content (require (1 = schema \<and> 2 = projection) IncompatibleSchema) (\<lambda>_. Inr p))))"
    unfolding decode_turn_delta_watermark_def body bind_content_simps mem
    using ok(3) by (simp add: keys member_reads read lens Let_def rec h compare_digest_same[OF h])
  then show ?thesis
    using compare_host_digests[OF z] z
    by (cases "turn_delta_host_digest host'") (auto simp: require_def)
qed


section \<open>Delta cursors\<close>

datatype delta_mode = Bootstrap | Changes

definition delta_mode_text :: "delta_mode \<Rightarrow> ustr" where
  "delta_mode_text m = (case m of Bootstrap \<Rightarrow> lit ''bootstrap'' | Changes \<Rightarrow> lit ''changes'')"

record turn_delta_cursor_position =
  dc_schema_version :: int
  dc_projection_schema_version :: int
  dc_mode :: delta_mode
  dc_limit :: int
  dc_accepted_sequence :: int
  dc_batch_high :: int
  dc_insertion_high :: int
  dc_page_number :: int
  dc_position_sequence :: int
  dc_position_worker_id :: ustr
  dc_position_turn_id :: ustr
  dc_store_epoch :: ustr
  dc_expires_at :: int

definition TURN_DELTA_MAX_LIMIT :: int where "TURN_DELTA_MAX_LIMIT = 500"

definition delta_cursor_material :: "ustr \<Rightarrow> turn_delta_cursor_position \<Rightarrow> (ustr \<times> json) list" where
  "delta_cursor_material z p =
     [(lit ''accepted_sequence'', JInt (dc_accepted_sequence p)), (lit ''batch_high'', JInt (dc_batch_high p)),
      (lit ''expires_at'', JInt (dc_expires_at p)), (lit ''host_digest'', JStr z),
      (lit ''insertion_high'', JInt (dc_insertion_high p)), (lit ''limit'', JInt (dc_limit p)),
      (lit ''mode'', JStr (delta_mode_text (dc_mode p))), (lit ''position_sequence'', JInt (dc_position_sequence p)),
      (lit ''page_number'', JInt (dc_page_number p)), (lit ''position_turn_id'', JStr (dc_position_turn_id p)),
      (lit ''position_worker_id'', JStr (dc_position_worker_id p)),
      (lit ''projection_schema_version'', JInt (dc_projection_schema_version p)),
      (lit ''schema_version'', JInt (dc_schema_version p)), (lit ''store_epoch'', JStr (dc_store_epoch p)),
      (lit ''token_version'', JInt 1)]"

definition delta_cursor_body :: "ustr \<Rightarrow> turn_delta_cursor_position \<Rightarrow> json \<Rightarrow> ustr \<Rightarrow> (ustr \<times> json) list" where
  "delta_cursor_body z p mode h =
     [(lit ''a'', JInt (dc_accepted_sequence p)), (lit ''b'', JInt (dc_batch_high p)), (lit ''e'', JInt (dc_expires_at p)),
      (lit ''h'', JStr h), (lit ''i'', JInt (dc_insertion_high p)), (lit ''l'', JInt (dc_limit p)), (lit ''m'', mode),
      (lit ''n'', JInt (dc_page_number p)),
      (lit ''p'', JList [JStr (dc_position_worker_id p), JInt (dc_position_sequence p), JStr (dc_position_turn_id p)]),
      (lit ''q'', JStr (dc_store_epoch p)), (lit ''r'', JInt (dc_projection_schema_version p)), (lit ''v'', JInt 1),
      (lit ''x'', JInt (dc_schema_version p)), (lit ''z'', JStr z)]"

definition turn_delta_cursor :: "ustr \<Rightarrow> turn_delta_cursor_position \<Rightarrow> ustr content" where
  "turn_delta_cursor host p =
     bind_content (require (0 \<le> dc_schema_version p \<and> 0 \<le> dc_projection_schema_version p \<and> 0 \<le> dc_limit p
         \<and> 0 \<le> dc_accepted_sequence p \<and> 0 \<le> dc_batch_high p \<and> 0 \<le> dc_insertion_high p \<and> 0 \<le> dc_page_number p
         \<and> 0 \<le> dc_position_sequence p \<and> 0 \<le> dc_expires_at p) InvalidCursor) (\<lambda>_.
     bind_content (require (\<not> (dc_schema_version p \<noteq> 1
         \<or> dc_projection_schema_version p \<noteq> 2
         \<or> \<not> (1 \<le> dc_limit p \<and> dc_limit p \<le> TURN_DELTA_MAX_LIMIT)
         \<or> dc_accepted_sequence p > dc_batch_high p
         \<or> dc_page_number p < 1
         \<or> dc_store_epoch p = []
         \<or> dc_position_turn_id p = []
         \<or> (dc_mode p = Bootstrap \<and> dc_position_worker_id p = [])
         \<or> (dc_mode p = Changes \<and> dc_position_sequence p \<le> dc_accepted_sequence p)
         \<or> \<not> list_all (\<lambda>s. length s \<le> 512) [dc_position_worker_id p, dc_position_turn_id p, dc_store_epoch p]))
       InvalidCursor) (\<lambda>_.
     bind_content (turn_delta_host_digest host) (\<lambda>z.
     bind_content (domain_digest ''tendwire.turn-delta-cursor-integrity.v1'' (delta_cursor_material z p)) (\<lambda>h.
     token_of ''twdeltac1.'' (delta_cursor_body z p (JStr (delta_mode_text (dc_mode p))) h)))))"

text \<open>\<open>body.get("m") not in {"bootstrap", "changes"}\<close>: looking a list or dict up in a set raises.\<close>

definition mode_member :: "json \<Rightarrow> delta_mode content" where
  "mode_member v =
     (case v of JStr s \<Rightarrow>
        (if s = lit ''bootstrap'' then Inr Bootstrap else if s = lit ''changes'' then Inr Changes else Inl InvalidCursor)
      | JList xs \<Rightarrow> Inl UnhashableMode | JDict ps \<Rightarrow> Inl UnhashableMode | _ \<Rightarrow> Inl InvalidCursor)"

definition decode_turn_delta_cursor ::
  "ustr \<Rightarrow> ustr \<Rightarrow> int \<Rightarrow> rat \<Rightarrow> int \<Rightarrow> int \<Rightarrow> turn_delta_cursor_position content" where
  "decode_turn_delta_cursor cursor host_id limit now schema_version projection_schema_version =
     bind_content (decode_turn_list_token ''twdeltac1.'' InvalidCursor cursor) (\<lambda>body.
     bind_content (require (has_members body
         [''a'', ''b'', ''e'', ''h'', ''i'', ''l'', ''m'', ''n'', ''p'', ''q'', ''r'', ''v'', ''x'', ''z'']
         \<and> json_eq_int (member body ''v'') 1) InvalidCursor) (\<lambda>_.
     bind_content (triple_member (member body ''p'') InvalidCursor) (\<lambda>(p0, p1, p2).
     bind_content (text_member p0 InvalidCursor) (\<lambda>worker.
     bind_content (nonempty_member p2 InvalidCursor) (\<lambda>turn.
     bind_content (mode_member (member body ''m'')) (\<lambda>mode.
     bind_content (nonempty_member (member body ''h'') InvalidCursor) (\<lambda>integrity.
     bind_content (nonempty_member (member body ''q'') InvalidCursor) (\<lambda>epoch.
     bind_content (nonempty_member (member body ''z'') InvalidCursor) (\<lambda>host_digest.
     bind_content (turn_list_nonnegative_integer (member body ''a'') InvalidCursor) (\<lambda>accepted.
     bind_content (turn_list_nonnegative_integer (member body ''b'') InvalidCursor) (\<lambda>batch_high.
     bind_content (turn_list_nonnegative_integer (member body ''e'') InvalidCursor) (\<lambda>expiry.
     bind_content (turn_list_nonnegative_integer (member body ''i'') InvalidCursor) (\<lambda>insertion_high.
     bind_content (turn_list_nonnegative_integer (member body ''l'') InvalidCursor) (\<lambda>page_limit.
     bind_content (turn_list_nonnegative_integer (member body ''n'') InvalidCursor) (\<lambda>page_number.
     bind_content (turn_list_nonnegative_integer p1 InvalidCursor) (\<lambda>position_sequence.
     bind_content (turn_list_nonnegative_integer (member body ''r'') InvalidCursor) (\<lambda>projection.
     bind_content (turn_list_nonnegative_integer (member body ''x'') InvalidCursor) (\<lambda>schema.
     let p = \<lparr>dc_schema_version = schema, dc_projection_schema_version = projection, dc_mode = mode,
              dc_limit = page_limit, dc_accepted_sequence = accepted, dc_batch_high = batch_high,
              dc_insertion_high = insertion_high, dc_page_number = page_number,
              dc_position_sequence = position_sequence, dc_position_worker_id = worker,
              dc_position_turn_id = turn, dc_store_epoch = epoch, dc_expires_at = expiry\<rparr> in
     bind_content (domain_digest ''tendwire.turn-delta-cursor-integrity.v1'' (delta_cursor_material host_digest p))
       (\<lambda>expected.
     bind_content (compare_digest integrity expected) (\<lambda>same.
     bind_content (require same InvalidCursor) (\<lambda>_.
     bind_content (turn_delta_host_digest host_id) (\<lambda>own.
     bind_content (compare_digest host_digest own) (\<lambda>same_host.
     bind_content (require (\<not> (\<not> same_host
         \<or> schema \<noteq> schema_version
         \<or> projection \<noteq> projection_schema_version
         \<or> page_limit \<noteq> limit
         \<or> \<not> (1 \<le> page_limit \<and> page_limit \<le> TURN_DELTA_MAX_LIMIT)
         \<or> accepted > batch_high
         \<or> page_number < 1
         \<or> epoch = []
         \<or> (mode = Bootstrap \<and> worker = [])
         \<or> (mode = Changes \<and> position_sequence \<le> accepted)
         \<or> \<not> list_all (\<lambda>s. length s \<le> 512) [worker, turn, epoch, host_digest])) InvalidCursor) (\<lambda>_.
     bind_content (require (now < of_int expiry) ExpiredCursor) (\<lambda>_.
     Inr p)))))))))))))))))))))))))"

lemma canonical_delta_cursor_body:
  assumes "json_plain mode" "field_clean mode" "sort_keys mode = mode"
  shows "canonical_body (delta_cursor_body z p mode h)"
proof (rule canonical_letters)
  show "map fst (delta_cursor_body z p mode h)
    = map lit [''a'', ''b'', ''e'', ''h'', ''i'', ''l'', ''m'', ''n'', ''p'', ''q'', ''r'', ''v'', ''x'', ''z'']"
    by (simp add: delta_cursor_body_def)
  show "letter_keys [''a'', ''b'', ''e'', ''h'', ''i'', ''l'', ''m'', ''n'', ''p'', ''q'', ''r'', ''v'', ''x'', ''z'']"
    by code_simp
qed (use assms in \<open>simp add: delta_cursor_body_def\<close>)

lemma delta_cursor_members:
  "has_members (delta_cursor_body z p mode h)
     [''a'', ''b'', ''e'', ''h'', ''i'', ''l'', ''m'', ''n'', ''p'', ''q'', ''r'', ''v'', ''x'', ''z'']"
  "member (delta_cursor_body z p mode h) ''v'' = JInt 1" "member (delta_cursor_body z p mode h) ''m'' = mode"
  "member (delta_cursor_body z p mode h) ''p''
     = JList [JStr (dc_position_worker_id p), JInt (dc_position_sequence p), JStr (dc_position_turn_id p)]"
  "member (delta_cursor_body z p mode h) ''h'' = JStr h" "member (delta_cursor_body z p mode h) ''z'' = JStr z"
  "member (delta_cursor_body z p mode h) ''q'' = JStr (dc_store_epoch p)"
  "member (delta_cursor_body z p mode h) ''a'' = JInt (dc_accepted_sequence p)"
  "member (delta_cursor_body z p mode h) ''b'' = JInt (dc_batch_high p)"
  "member (delta_cursor_body z p mode h) ''e'' = JInt (dc_expires_at p)"
  "member (delta_cursor_body z p mode h) ''i'' = JInt (dc_insertion_high p)"
  "member (delta_cursor_body z p mode h) ''l'' = JInt (dc_limit p)"
  "member (delta_cursor_body z p mode h) ''n'' = JInt (dc_page_number p)"
  "member (delta_cursor_body z p mode h) ''r'' = JInt (dc_projection_schema_version p)"
  "member (delta_cursor_body z p mode h) ''x'' = JInt (dc_schema_version p)"
  by (simp_all add: has_members_def delta_cursor_body_def)

lemma delta_mode_member: "mode_member (JStr (delta_mode_text m)) = Inr m"
  by (cases m) (simp_all add: mode_member_def delta_mode_text_def)

lemma short_delta_cursor:
  assumes "turn_delta_cursor host p = Inr t" "length t \<le> 2058"
  shows "decode_turn_delta_cursor t host' limit now schema projection =
     bind_content (turn_delta_host_digest host') (\<lambda>z'.
       if turn_delta_host_digest host \<noteq> Inr z' \<or> limit \<noteq> dc_limit p \<or> schema \<noteq> 1 \<or> projection \<noteq> 2 then Inl InvalidCursor
       else if now < of_int (dc_expires_at p) then Inr p else Inl ExpiredCursor)"
proof -
  let ?m = "JStr (delta_mode_text (dc_mode p))"
  obtain z h where ints: "0 \<le> dc_schema_version p" "0 \<le> dc_projection_schema_version p" "0 \<le> dc_limit p"
      "0 \<le> dc_accepted_sequence p" "0 \<le> dc_batch_high p" "0 \<le> dc_insertion_high p" "0 \<le> dc_page_number p"
      "0 \<le> dc_position_sequence p" "0 \<le> dc_expires_at p"
    and texts: "dc_position_turn_id p \<noteq> []" "dc_store_epoch p \<noteq> []"
    and ok: "dc_schema_version p = 1" "dc_projection_schema_version p = 2" "1 \<le> dc_limit p"
      "dc_limit p \<le> TURN_DELTA_MAX_LIMIT" "dc_accepted_sequence p \<le> dc_batch_high p" "1 \<le> dc_page_number p"
      "dc_mode p = Bootstrap \<longrightarrow> dc_position_worker_id p \<noteq> []"
      "dc_mode p = Changes \<longrightarrow> dc_accepted_sequence p < dc_position_sequence p"
      "length (dc_position_worker_id p) \<le> 512" "length (dc_position_turn_id p) \<le> 512" "length (dc_store_epoch p) \<le> 512"
    and z: "turn_delta_host_digest host = Inr z"
    and h: "domain_digest ''tendwire.turn-delta-cursor-integrity.v1'' (delta_cursor_material z p) = Inr h"
    and t: "token_of ''twdeltac1.'' (delta_cursor_body z p ?m h) = Inr t"
    using assms(1) by (auto simp: turn_delta_cursor_def bind_content_eq_Inr not_less not_le)
  have body: "decode_turn_list_token ''twdeltac1.'' InvalidCursor t = Inr (delta_cursor_body z p ?m h)"
    using decode_token_of[OF t canonical_delta_cursor_body] assms(2) by simp
  have rec: "\<lparr>dc_schema_version = dc_schema_version p, dc_projection_schema_version = dc_projection_schema_version p,
      dc_mode = dc_mode p, dc_limit = dc_limit p, dc_accepted_sequence = dc_accepted_sequence p,
      dc_batch_high = dc_batch_high p, dc_insertion_high = dc_insertion_high p, dc_page_number = dc_page_number p,
      dc_position_sequence = dc_position_sequence p, dc_position_worker_id = dc_position_worker_id p,
      dc_position_turn_id = dc_position_turn_id p, dc_store_epoch = dc_store_epoch p, dc_expires_at = dc_expires_at p\<rparr> = p"
    by simp
  note lens = host_digest_is_digest(3)[OF z]
  note read = domain_digest_ascii(2)[OF h, THEN member_reads(1)] host_digest_is_digest(2)[OF z, THEN member_reads(1)]
    texts[THEN member_reads(1)] ints[THEN member_reads(4)]
  have "decode_turn_delta_cursor t host' limit now schema projection =
      bind_content (turn_delta_host_digest host') (\<lambda>own.
      bind_content (compare_digest z own) (\<lambda>same.
      bind_content (require (same \<and> 1 = schema \<and> 2 = projection \<and> dc_limit p = limit) InvalidCursor) (\<lambda>_.
      bind_content (require (now < of_int (dc_expires_at p)) ExpiredCursor) (\<lambda>_. Inr p))))"
    unfolding decode_turn_delta_cursor_def body bind_content_simps
    apply (simp only: delta_cursor_members member_reads read delta_mode_member simp_thms require_True bind_content_simps
        prod.case Let_def rec h compare_digest_same[OF h])
    using ok texts lens
    by (intro arg_cong2[where f = bind_content] arg_cong2[where f = require] refl ext) auto
  then show ?thesis
    using compare_host_digests[OF z] z
    by (cases "turn_delta_host_digest host'") (auto simp: require_def)
qed

lemma long_delta_cursor:
  assumes "turn_delta_cursor host p = Inr t"
    "1444 \<le> length (dc_position_worker_id p) + length (dc_position_turn_id p) + length (dc_store_epoch p)"
  shows "2058 < length t"
proof -
  obtain z h where z: "turn_delta_host_digest host = Inr z"
    and h: "domain_digest ''tendwire.turn-delta-cursor-integrity.v1'' (delta_cursor_material z p) = Inr h"
    and t: "token_of ''twdeltac1.'' (delta_cursor_body z p (JStr (delta_mode_text (dc_mode p))) h) = Inr t"
    using assms(1) by (auto simp: turn_delta_cursor_def bind_content_eq_Inr)
  have "7 \<le> length (delta_mode_text (dc_mode p))" by (cases "dc_mode p") (simp_all add: delta_mode_text_def)
  then have "1537 \<le> text_size (JDict (delta_cursor_body z p (JStr (delta_mode_text (dc_mode p))) h))"
    using assms(2) host_digest_is_digest(3)[OF z] domain_digest_ascii(3)[OF h] by (simp add: delta_cursor_body_def)
  from token_over_limit[OF t canonical_delta_cursor_body this] show ?thesis by simp
qed

text \<open>
  C38: What a delta cursor is worth is decided by its length, its request and the time, for
  every cursor the encoder makes.  One of at most 2058 characters continues, for its host,
  limit and versions and until it expires, at exactly the position it was made from; later
  it is \<open>expired_cursor\<close>, and for a host of another digest or another request it is
  invalid.  A longer one is invalid for every request at every time, even its own: the
  encoder accepts a worker, a turn and an epoch of 512 characters each, and whenever the three
  have 1444 characters or more together (in ASCII; fewer of wider characters) the cursor is
  longer.
\<close>

theorem delta_cursor_outcomes:
  assumes "turn_delta_cursor host p = Inr t"
  shows "decode_turn_delta_cursor t host' limit now schema projection =
      (if 2058 < length t then Inl InvalidCursor
       else bind_content (turn_delta_host_digest host') (\<lambda>z'.
         if turn_delta_host_digest host \<noteq> Inr z' \<or> limit \<noteq> dc_limit p \<or> schema \<noteq> 1 \<or> projection \<noteq> 2 then Inl InvalidCursor
         else if now < of_int (dc_expires_at p) then Inr p else Inl ExpiredCursor))
    \<and> (1444 \<le> length (dc_position_worker_id p) + length (dc_position_turn_id p) + length (dc_store_epoch p)
       \<longrightarrow> 2058 < length t)"
proof -
  have "decode_turn_delta_cursor t host' limit now schema projection = Inl InvalidCursor" if "2058 < length t"
    using decode_token_too_long[of "''twdeltac1.''" t InvalidCursor] that by (simp add: decode_turn_delta_cursor_def)
  then show ?thesis using short_delta_cursor[OF assms] long_delta_cursor[OF assms] by simp
qed

text \<open>
  A delta token whose mode is a list or a dict does not get a status: the decoder looks
  the mode up in a set before it checks the digest, and Python raises \<open>TypeError\<close>.
\<close>

theorem unhashable_delta_mode:
  assumes "token_of ''twdeltac1.'' (delta_cursor_body z p (JList []) h) = Inr t" "length t \<le> 2058"
    "dc_position_turn_id p \<noteq> []"
  shows "decode_turn_delta_cursor t host limit now schema projection = Inl UnhashableMode"
proof -
  have body: "decode_turn_list_token ''twdeltac1.'' InvalidCursor t = Inr (delta_cursor_body z p (JList []) h)"
    using decode_token_of[OF assms(1) canonical_delta_cursor_body] assms(2) by simp
  show ?thesis unfolding decode_turn_delta_cursor_def body
    by (simp add: delta_cursor_members member_reads assms(3) mode_member_def)
qed


section \<open>Concrete tokens\<close>

definition example_watermark :: turn_delta_watermark_position where
  "example_watermark =
     \<lparr>dw_schema_version = 1, dw_projection_schema_version = 2, dw_sequence = 17, dw_store_epoch = lit ''epoch''\<rparr>"

definition example_delta :: turn_delta_cursor_position where
  "example_delta =
     \<lparr>dc_schema_version = 1, dc_projection_schema_version = 2, dc_mode = Changes, dc_limit = 100,
      dc_accepted_sequence = 5, dc_batch_high = 40, dc_insertion_high = 60, dc_page_number = 1,
      dc_position_sequence = 9, dc_position_worker_id = lit ''worker'', dc_position_turn_id = lit ''turn'',
      dc_store_epoch = lit ''epoch'', dc_expires_at = 300\<rparr>"

lemma small_ints: "small_int 1" "small_int 2" "small_int 5" "small_int 9" "small_int 17" "small_int 40" "small_int 60"
  "small_int 100" "small_int 300"
  by (simp_all add: small_int_def)

lemma host_digest_total: "host \<noteq> [] \<Longrightarrow> length host \<le> 512 \<Longrightarrow> unicode_text host \<Longrightarrow> \<exists>z. turn_delta_host_digest host = Inr z"
  using domain_digest_total[of "[(lit ''host_id'', JStr host)]"] by (simp add: turn_delta_host_digest_def)

lemma example_watermark_token:
  obtains t where "turn_delta_watermark (lit ''host'') example_watermark = Inr t" "length t \<le> 2057"
proof -
  let ?p = example_watermark
  obtain z where z: "turn_delta_host_digest (lit ''host'') = Inr z"
    using host_digest_total[of "lit ''host''"] by auto
  have "json_unicode (JDict (delta_watermark_material z ?p))"
    using host_digest_is_digest(4)[OF z] by (simp add: delta_watermark_material_def example_watermark_def)
  then obtain h where h: "domain_digest ''tendwire.turn-delta-watermark-integrity.v1'' (delta_watermark_material z ?p) = Inr h"
    using domain_digest_total by blast
  have "json_unicode (JDict (delta_watermark_body z ?p h))"
    using host_digest_is_digest(4)[OF z] domain_digest_ascii(4)[OF h] by (simp add: delta_watermark_body_def example_watermark_def)
  then obtain t where t: "token_of ''twdelta1.'' (delta_watermark_body z ?p h) = Inr t" using token_of_total by blast
  have v: "\<forall>kv \<in> set (delta_watermark_body z ?p h). plain_text (fst kv) \<and> ascii_value (snd kv)"
    using plain_digest[OF h] host_digest_is_digest(5)[OF z]
    by (simp add: delta_watermark_body_def example_watermark_def small_ints) (simp add: plain_text_def lit_def)
  have "length t \<le> length ''twdelta1.'' + 2048"
    by (rule token_fits[OF t canonical_delta_watermark_body v, of 1500])
      (use domain_digest_ascii(3)[OF h] host_digest_is_digest(3)[OF z] in
        \<open>simp_all add: delta_watermark_body_def example_watermark_def\<close>)
  moreover have "turn_delta_watermark (lit ''host'') ?p = Inr t"
    using z h t by (simp add: turn_delta_watermark_def require_def example_watermark_def)
  ultimately show ?thesis using that by simp
qed

lemma example_delta_token:
  obtains t where "turn_delta_cursor (lit ''host'') example_delta = Inr t" "length t \<le> 2058"
proof -
  let ?p = example_delta and ?m = "JStr (lit ''changes'')"
  obtain z where z: "turn_delta_host_digest (lit ''host'') = Inr z"
    using host_digest_total[of "lit ''host''"] by auto
  have "json_unicode (JDict (delta_cursor_material z ?p))"
    using host_digest_is_digest(4)[OF z] by (simp add: delta_cursor_material_def example_delta_def delta_mode_text_def)
  then obtain h where h: "domain_digest ''tendwire.turn-delta-cursor-integrity.v1'' (delta_cursor_material z ?p) = Inr h"
    using domain_digest_total by blast
  have "json_unicode (JDict (delta_cursor_body z ?p ?m h))"
    using host_digest_is_digest(4)[OF z] domain_digest_ascii(4)[OF h] by (simp add: delta_cursor_body_def example_delta_def)
  then obtain t where t: "token_of ''twdeltac1.'' (delta_cursor_body z ?p ?m h) = Inr t" using token_of_total by blast
  have v: "\<forall>kv \<in> set (delta_cursor_body z ?p ?m h). plain_text (fst kv) \<and> ascii_value (snd kv)"
    using plain_digest[OF h] host_digest_is_digest(5)[OF z]
    by (simp add: delta_cursor_body_def example_delta_def small_ints) (simp add: plain_text_def lit_def)
  have "length t \<le> length ''twdeltac1.'' + 2048"
    by (rule token_fits[OF t canonical_delta_cursor_body v, of 1500])
      (use domain_digest_ascii(3)[OF h] host_digest_is_digest(3)[OF z] in
        \<open>simp_all add: delta_cursor_body_def example_delta_def\<close>)
  moreover have "turn_delta_cursor (lit ''host'') ?p = Inr t"
    using z h t by (simp add: turn_delta_cursor_def require_def example_delta_def TURN_DELTA_MAX_LIMIT_def delta_mode_text_def)
  ultimately show ?thesis using that by simp
qed

theorem delta_watermark_outcomes_witness:
  "\<exists>t. turn_delta_watermark (lit ''host'') example_watermark = Inr t
    \<and> decode_turn_delta_watermark t (lit ''host'') 1 2 = Inr example_watermark
    \<and> decode_turn_delta_watermark t (lit ''host'') 1 3 = Inl IncompatibleSchema"
proof -
  obtain t where t: "turn_delta_watermark (lit ''host'') example_watermark = Inr t" "length t \<le> 2057"
    by (rule example_watermark_token)
  obtain z where z: "turn_delta_host_digest (lit ''host'') = Inr z"
    using host_digest_total[of "lit ''host''"] by auto
  show ?thesis using t(1) z
    by (intro exI[of _ t]) (simp add: delta_watermark_outcomes[OF t])
qed

theorem delta_cursor_outcomes_witness:
  "\<exists>t. turn_delta_cursor (lit ''host'') example_delta = Inr t
    \<and> decode_turn_delta_cursor t (lit ''host'') 100 299 1 2 = Inr example_delta
    \<and> decode_turn_delta_cursor t (lit ''host'') 100 300 1 2 = Inl ExpiredCursor
    \<and> decode_turn_delta_cursor t (lit ''host'') 99 299 1 2 = Inl InvalidCursor"
proof -
  obtain t where t: "turn_delta_cursor (lit ''host'') example_delta = Inr t" "length t \<le> 2058"
    by (rule example_delta_token)
  obtain z where z: "turn_delta_host_digest (lit ''host'') = Inr z"
    using host_digest_total[of "lit ''host''"] by auto
  show ?thesis using t(1) z
    by (intro exI[of _ t]) (simp add: delta_cursor_outcomes[OF t(1), THEN conjunct1] t(2)[folded not_less] example_delta_def)
qed

theorem unhashable_delta_mode_witness:
  "\<exists>t. token_of ''twdeltac1.'' (delta_cursor_body (lit ''z'') example_delta (JList []) (lit ''h'')) = Inr t
    \<and> decode_turn_delta_cursor t (lit ''host'') 100 299 1 2 = Inl UnhashableMode"
proof -
  let ?b = "delta_cursor_body (lit ''z'') example_delta (JList []) (lit ''h'')"
  have "json_unicode (JDict ?b)" by (simp add: delta_cursor_body_def example_delta_def)
  then obtain t where t: "token_of ''twdeltac1.'' ?b = Inr t" using token_of_total by blast
  have v: "\<forall>kv \<in> set ?b. plain_text (fst kv) \<and> ascii_value (snd kv)"
    by (simp add: delta_cursor_body_def example_delta_def small_ints) (simp add: plain_text_def lit_def)
  have "length t \<le> length ''twdeltac1.'' + 2048"
    by (rule token_fits[OF t canonical_delta_cursor_body v, of 1500])
      (simp_all add: delta_cursor_body_def example_delta_def)
  then show ?thesis
    using t unhashable_delta_mode[OF t, of "lit ''host''" 100 299 1 2] by (simp add: example_delta_def)
qed

end
