(* ===== verification/ContentTokens.thy ===== *)
theory ContentTokens
  imports Tokens
begin

text \<open>
  Identities and cursors of canonical turn content (\<open>core/turns.py\<close>): the revision of the
  two texts of a turn, the identity of a final delivery, of a page, and the cursor that
  names a page with its exact start.
\<close>

section \<open>Fields and availability\<close>

definition validate_content_field :: "ustr \<Rightarrow> ustr content" where
  "validate_content_field field =
     (if field \<in> {lit ''user_text'', lit ''assistant_final_text''} then Inr field else Inl InvalidContentField)"

definition validate_content_state :: "ustr \<Rightarrow> ustr option \<Rightarrow> ustr content" where
  "validate_content_state state text =
     (if state \<notin> {lit ''absent'', lit ''complete'', lit ''known_incomplete''} then Inl InvalidContentAvailability
      else if state = lit ''absent'' \<and> text \<noteq> None then Inl AbsentContentHasText
      else if state \<noteq> lit ''absent'' \<and> text = None then Inl AvailableContentHasNoText
      else Inr state)"

text \<open>\<open>state or (\<dots>)\<close>: an absent or empty state is inferred from the text.\<close>

definition inferred_content_state :: "ustr option \<Rightarrow> ustr option \<Rightarrow> ustr content" where
  "inferred_content_state text state =
     validate_content_state
       (case state of Some (c # s) \<Rightarrow> c # s | _ \<Rightarrow> if text = None then lit ''absent'' else lit ''complete'') text"

section \<open>Identities\<close>

definition json_option :: "ustr option \<Rightarrow> json" where
  "json_option t = (case t of None \<Rightarrow> JNull | Some s \<Rightarrow> JStr s)"

definition content_revision :: "ustr \<Rightarrow> ustr option \<Rightarrow> ustr option \<Rightarrow> ustr \<Rightarrow> ustr \<Rightarrow> ustr content" where
  "content_revision turn_id user_text final_text user_state final_state =
     (if turn_id = [] then Inl InvalidTurnId
      else bind_content (validate_content_state user_state user_text) (\<lambda>_.
      bind_content (validate_content_state final_state final_text) (\<lambda>_.
      bind_content (domain_digest ''tendwire.turn-content-revision.v1''
        [(lit ''turn_id'', JStr turn_id), (lit ''user_text'', json_option user_text),
         (lit ''assistant_final_text'', json_option final_text), (lit ''user_state'', JStr user_state),
         (lit ''final_state'', JStr final_state)]) (\<lambda>digest. Inr (lit ''twrev1.'' @ digest)))))"

definition turn_final_delivery_identity :: "ustr \<Rightarrow> ustr \<Rightarrow> ustr \<Rightarrow> ustr content" where
  "turn_final_delivery_identity host_id turn_id revision =
     (if host_id = [] then Inl InvalidHostId
      else if turn_id = [] then Inl InvalidTurnId
      else if revision = [] then Inl InvalidContentRevision
      else bind_content (domain_digest ''tendwire.turn-final-delivery.v1''
        [(lit ''host_id'', JStr host_id), (lit ''turn_id'', JStr turn_id), (lit ''content_revision'', JStr revision)])
        (\<lambda>digest. Inr (lit ''twfinal1.'' @ digest)))"

definition content_segment_id :: "ustr \<Rightarrow> ustr \<Rightarrow> int \<Rightarrow> ustr content" where
  "content_segment_id revision field index =
     bind_content (validate_content_field field) (\<lambda>_.
     if index < 0 then Inl InvalidSegmentIndex
     else bind_content (domain_digest ''tendwire.turn-content-segment.v1''
       [(lit ''content_revision'', JStr revision), (lit ''field'', JStr field), (lit ''index'', JInt index)])
       (\<lambda>digest. Inr (lit ''twseg1.'' @ digest)))"

section \<open>Cursors\<close>

record content_cursor_position =
  cc_index :: int
  cc_segment_id :: ustr
  cc_start_char :: int
  cc_start_byte :: int

definition content_cursor_material :: "ustr \<Rightarrow> ustr \<Rightarrow> content_cursor_position \<Rightarrow> (ustr \<times> json) list" where
  "content_cursor_material revision field p =
     [(lit ''content_revision'', JStr revision), (lit ''field'', JStr field), (lit ''segment_id'', JStr (cc_segment_id p)),
      (lit ''index'', JInt (cc_index p)), (lit ''start_char'', JInt (cc_start_char p)),
      (lit ''start_byte'', JInt (cc_start_byte p))]"

definition content_cursor_body :: "content_cursor_position \<Rightarrow> ustr \<Rightarrow> (ustr \<times> json) list" where
  "content_cursor_body p integrity =
     [(lit ''b'', JInt (cc_start_byte p)), (lit ''c'', JInt (cc_start_char p)), (lit ''h'', JStr integrity),
      (lit ''i'', JInt (cc_index p)), (lit ''s'', JStr (cc_segment_id p)), (lit ''v'', JInt 2)]"

definition content_cursor :: "ustr \<Rightarrow> ustr \<Rightarrow> int \<Rightarrow> int option \<Rightarrow> int option \<Rightarrow> ustr content" where
  "content_cursor revision field index start_char start_byte =
     bind_content (validate_content_field field) (\<lambda>_.
     bind_content (case (start_char, start_byte) of
         (Some c, Some b) \<Rightarrow> Inr (c, b)
       | _ \<Rightarrow> if index \<noteq> 0 \<or> start_char \<noteq> None \<or> start_byte \<noteq> None then Inl InvalidCursor else Inr (0, 0)) (\<lambda>(c, b).
     bind_content (require (0 \<le> index \<and> 0 \<le> c \<and> 0 \<le> b) InvalidCursor) (\<lambda>_.
     bind_content (content_segment_id revision field index) (\<lambda>segment_id.
     let p = \<lparr>cc_index = index, cc_segment_id = segment_id, cc_start_char = c, cc_start_byte = b\<rparr> in
     bind_content (domain_digest ''tendwire.turn-content-cursor-integrity.v2'' (content_cursor_material revision field p))
       (\<lambda>integrity.
     token_of ''twcur1.'' (content_cursor_body p integrity))))))"

definition decode_content_cursor :: "ustr \<Rightarrow> ustr \<Rightarrow> ustr \<Rightarrow> int \<Rightarrow> content_cursor_position content" where
  "decode_content_cursor cursor revision field count =
     bind_content (validate_content_field field) (\<lambda>_.
     bind_content (require (1 \<le> count) InvalidCursor) (\<lambda>_.
     bind_content (case token_json 1024 ''twcur1.'' cursor of Some (JDict body) \<Rightarrow> Inr body | _ \<Rightarrow> Inl InvalidCursor) (\<lambda>body.
     bind_content (require (has_members body [''b'', ''c'', ''h'', ''i'', ''s'', ''v'']
         \<and> json_eq_int (member body ''v'') 2) InvalidCursor) (\<lambda>_.
     bind_content (turn_list_nonnegative_integer (member body ''i'') InvalidCursor) (\<lambda>index.
     bind_content (turn_list_nonnegative_integer (member body ''c'') InvalidCursor) (\<lambda>start_char.
     bind_content (turn_list_nonnegative_integer (member body ''b'') InvalidCursor) (\<lambda>start_byte.
     bind_content (require (index < count) InvalidCursor) (\<lambda>_.
     bind_content (text_member (member body ''s'') InvalidCursor) (\<lambda>segment_id.
     bind_content (content_segment_id revision field index) (\<lambda>own_id.
     bind_content (require (segment_id = own_id) InvalidCursor) (\<lambda>_.
     bind_content (text_member (member body ''h'') InvalidCursor) (\<lambda>integrity.
     let p = \<lparr>cc_index = index, cc_segment_id = segment_id, cc_start_char = start_char, cc_start_byte = start_byte\<rparr> in
     bind_content (domain_digest ''tendwire.turn-content-cursor-integrity.v2'' (content_cursor_material revision field p))
       (\<lambda>expected.
     bind_content (compare_digest integrity expected) (\<lambda>same.
     bind_content (require same InvalidCursor) (\<lambda>_. Inr p)))))))))))))))"

lemma canonical_content_cursor_body: "canonical_body (content_cursor_body p h)"
proof (rule canonical_letters)
  show "map fst (content_cursor_body p h) = map lit [''b'', ''c'', ''h'', ''i'', ''s'', ''v'']"
    by (simp add: content_cursor_body_def)
  show "letter_keys [''b'', ''c'', ''h'', ''i'', ''s'', ''v'']" by code_simp
qed (simp add: content_cursor_body_def)

lemma segment_id_shape:
  assumes "content_segment_id revision field i = Inr s"
  shows "plain_text s" "length s = 50" "0 \<le> i" "validate_content_field field = Inr field"
proof -
  obtain d v h where h: "domain_digest d v = Inr h" "s = lit ''twseg1.'' @ h" "\<not> i < 0" "validate_content_field field = Inr field"
    using assms by (auto simp: content_segment_id_def bind_content_eq_Inr validate_content_field_def split: if_splits)
  show "plain_text s" "length s = 50" "0 \<le> i" "validate_content_field field = Inr field"
    using plain_digest[OF h(1)] domain_digest_ascii(3)[OF h(1)] h by (simp_all add: plain_text_def lit_def)
qed

text \<open>The cursor of a page, given its whole position, and when it exists.\<close>

lemma content_cursor_position:
  "content_cursor revision field i (Some c) (Some b) = Inr t \<longleftrightarrow>
     0 \<le> i \<and> 0 \<le> c \<and> 0 \<le> b \<and> (\<exists>s h. content_segment_id revision field i = Inr s
       \<and> domain_digest ''tendwire.turn-content-cursor-integrity.v2'' (content_cursor_material revision field
           \<lparr>cc_index = i, cc_segment_id = s, cc_start_char = c, cc_start_byte = b\<rparr>) = Inr h
       \<and> token_of ''twcur1.'' (content_cursor_body
           \<lparr>cc_index = i, cc_segment_id = s, cc_start_char = c, cc_start_byte = b\<rparr> h) = Inr t)"
  by (auto simp: content_cursor_def bind_content_eq_Inr Let_def dest: segment_id_shape(4))

lemma content_cursor_total:
  assumes "unicode_text revision" "validate_content_field field = Inr field" "0 \<le> i" "0 \<le> c" "0 \<le> b"
  obtains s t where "content_segment_id revision field i = Inr s" "content_cursor revision field i (Some c) (Some b) = Inr t"
proof -
  have f: "unicode_text field" using assms(2) by (auto simp: validate_content_field_def split: if_splits)
  obtain d where "domain_digest ''tendwire.turn-content-segment.v1''
       [(lit ''content_revision'', JStr revision), (lit ''field'', JStr field), (lit ''index'', JInt i)] = Inr d"
    using domain_digest_total[of "[(lit ''content_revision'', JStr revision), (lit ''field'', JStr field), (lit ''index'', JInt i)]"]
      assms(1) f by auto
  then have s: "content_segment_id revision field i = Inr (lit ''twseg1.'' @ d)"
    using assms(2,3) by (simp add: content_segment_id_def)
  let ?p = "\<lparr>cc_index = i, cc_segment_id = lit ''twseg1.'' @ d, cc_start_char = c, cc_start_byte = b\<rparr>"
  have u: "unicode_text (lit ''twseg1.'' @ d)" using segment_id_shape(1)[OF s] by (rule plain_text_unicode)
  have "json_unicode (JDict (content_cursor_material revision field ?p))"
    using assms(1) f u by (simp add: content_cursor_material_def)
  then obtain h where h: "domain_digest ''tendwire.turn-content-cursor-integrity.v2'' (content_cursor_material revision field ?p) = Inr h"
    using domain_digest_total by blast
  have "json_unicode (JDict (content_cursor_body ?p h))"
    using domain_digest_ascii(4)[OF h] u by (simp add: content_cursor_body_def)
  then obtain t where "token_of ''twcur1.'' (content_cursor_body ?p h) = Inr t" using token_of_total by blast
  then have "content_cursor revision field i (Some c) (Some b) = Inr t"
    unfolding content_cursor_position using s h assms by blast
  then show ?thesis using that s by blast
qed

lemma decode_own_content_cursor:
  assumes "content_cursor revision field i (Some c) (Some b) = Inr t" "i < 10 ^ 18" "c < 10 ^ 18" "b < 10 ^ 18"
    "content_segment_id revision field i = Inr s"
  shows "decode_content_cursor t revision field count =
      (if i < count then Inr \<lparr>cc_index = i, cc_segment_id = s, cc_start_char = c, cc_start_byte = b\<rparr>
       else Inl InvalidCursor)
    \<and> (content_segment_id revision' field' i = Inr s' \<and> s' \<noteq> s \<longrightarrow>
        decode_content_cursor t revision' field' count = Inl InvalidCursor)"
proof -
  let ?p = "\<lparr>cc_index = i, cc_segment_id = s, cc_start_char = c, cc_start_byte = b\<rparr>"
  obtain h where ints: "0 \<le> i" "0 \<le> c" "0 \<le> b"
    and h: "domain_digest ''tendwire.turn-content-cursor-integrity.v2'' (content_cursor_material revision field ?p) = Inr h"
    and t: "token_of ''twcur1.'' (content_cursor_body ?p h) = Inr t"
    using assms(1,5) by (auto simp: content_cursor_position)
  have v: "\<forall>kv \<in> set (content_cursor_body ?p h). plain_text (fst kv) \<and> ascii_value (snd kv)"
    using plain_digest[OF h] segment_id_shape(1)[OF assms(5)] ints assms(2-4)
    by (simp add: content_cursor_body_def small_int_def) (simp add: plain_text_def lit_def)
  have "length t \<le> length ''twcur1.'' + 1024"
    by (rule token_fits[OF t canonical_content_cursor_body v, of 700])
      (use domain_digest_ascii(3)[OF h] segment_id_shape(2)[OF assms(5)] in \<open>simp_all add: content_cursor_body_def\<close>)
  then have body: "token_json 1024 ''twcur1.'' t = Some (JDict (content_cursor_body ?p h))"
    by (rule token_json_token_of[OF t canonical_content_cursor_body])
  have keys: "has_members (content_cursor_body ?p h) [''b'', ''c'', ''h'', ''i'', ''s'', ''v'']"
    by (simp add: has_members_def content_cursor_body_def)
  have mem: "member (content_cursor_body ?p h) ''v'' = JInt 2" "member (content_cursor_body ?p h) ''i'' = JInt i"
    "member (content_cursor_body ?p h) ''c'' = JInt c" "member (content_cursor_body ?p h) ''b'' = JInt b"
    "member (content_cursor_body ?p h) ''s'' = JStr s" "member (content_cursor_body ?p h) ''h'' = JStr h"
    by (simp_all add: content_cursor_body_def)
  note read = ints[THEN member_reads(4)]
  show ?thesis
    using ints by (auto simp: decode_content_cursor_def body keys mem member_reads read require_def assms(5)
        segment_id_shape(4)[OF assms(5)] h compare_digest_same[OF h] dest: segment_id_shape(4))
qed

text \<open>
  A content cursor made for a page (with indexes and offsets of at most 18 digits)
  decodes, for its revision and field, to the page's index, id and exact start as long as
  the page count is beyond it; with too few pages, or for a revision and field that give
  the page another id, it is an invalid cursor.
\<close>

theorem content_cursor_round_trip:
  assumes "content_cursor revision field i (Some c) (Some b) = Inr t" "i < 10 ^ 18" "c < 10 ^ 18" "b < 10 ^ 18"
    "content_segment_id revision field i = Inr s"
  shows "decode_content_cursor t revision field count =
      (if i < count then Inr \<lparr>cc_index = i, cc_segment_id = s, cc_start_char = c, cc_start_byte = b\<rparr>
       else Inl InvalidCursor)
    \<and> (content_segment_id revision' field' i = Inr s' \<and> s' \<noteq> s \<longrightarrow>
        decode_content_cursor t revision' field' count = Inl InvalidCursor)"
  by (rule decode_own_content_cursor[OF assms])


section \<open>What a digest is taken of\<close>

definition digest_bytes :: "string \<Rightarrow> (ustr \<times> json) list \<Rightarrow> nat list" where
  "digest_bytes domain value = utf8_encode (stable_json_dumps (JDict ((lit ''domain'', JStr (lit domain)) # value)))"

lemma domain_digest_bytes:
  "domain_digest d v = Inr h \<longleftrightarrow>
     unicode_text (stable_json_dumps (JDict ((lit ''domain'', JStr (lit d)) # v))) \<and> h = base64url (sha256 (digest_bytes d v))"
  by (auto simp: domain_digest_def encode_text_def digest_bytes_def)

text \<open>A material: distinct allowed keys, none of them \<open>domain\<close>, and atoms as values.\<close>

fun json_atom :: "json \<Rightarrow> bool" where
  "json_atom JNull \<longleftrightarrow> True"
| "json_atom (JBool b) \<longleftrightarrow> True"
| "json_atom (JInt i) \<longleftrightarrow> True"
| "json_atom (JStr s) \<longleftrightarrow> True"
| "json_atom _ \<longleftrightarrow> False"

definition material :: "(ustr \<times> json) list \<Rightarrow> bool" where
  "material v \<longleftrightarrow> distinct (map fst v) \<and> lit ''domain'' \<notin> fst ` set v
     \<and> list_all (\<lambda>kv. \<not> is_forbidden_field_name (fst kv) \<and> json_atom (snd kv)) v"

lemma json_atom_simps: "json_atom v \<Longrightarrow> json_plain v \<and> field_clean v \<and> sort_keys v = v"
  by (cases v) simp_all

text \<open>The names the digests are taken over are all allowed.\<close>

definition digest_names :: "string list" where
  "digest_names = [''domain'', ''turn_id'', ''user_text'', ''assistant_final_text'', ''user_state'', ''final_state'']"

lemma digest_names_allowed:
  assumes "s \<in> set digest_names"
  shows "\<not> is_forbidden_field_name (lit s)"
proof (rule allowed_name)
  have "list_all plain_name digest_names" "list_all (\<lambda>s. s \<notin> set forbidden_field_names) digest_names"
    by code_simp+
  then show "plain_name s" "s \<notin> set forbidden_field_names" using assms by (simp_all add: list_all_iff)
  have "let compact = map (filter (\<lambda>c. c \<noteq> CHR ''_'')) forbidden_field_names
    in list_all (\<lambda>s. filter (\<lambda>c. c \<noteq> CHR ''_'') s \<notin> set compact) digest_names"
    by code_simp
  then show "filter (\<lambda>c. c \<noteq> CHR ''_'') s \<notin> set (map (filter (\<lambda>c. c \<noteq> CHR ''_'')) forbidden_field_names)"
    using assms unfolding Let_def list_all_iff by blast
qed

lemma digest_name_simps [simp]:
  "\<not> is_forbidden_field_name (lit ''domain'')" "\<not> is_forbidden_field_name (lit ''turn_id'')"
  "\<not> is_forbidden_field_name (lit ''user_text'')" "\<not> is_forbidden_field_name (lit ''assistant_final_text'')"
  "\<not> is_forbidden_field_name (lit ''user_state'')" "\<not> is_forbidden_field_name (lit ''final_state'')"
  by (rule digest_names_allowed, simp add: digest_names_def)+

lemma digest_bytes_inject:
  assumes m: "material v" "material w"
    and u: "domain_digest d v = Inr h" "domain_digest e w = Inr g"
    and eq: "digest_bytes d v = digest_bytes e w"
  shows "d = e \<and> set v = set w"
proof -
  let ?v = "(lit ''domain'', JStr (lit d)) # v" and ?w = "(lit ''domain'', JStr (lit e)) # w"
  have plain: "json_plain (JDict ((lit ''domain'', JStr (lit x)) # v))" "field_clean (JDict ((lit ''domain'', JStr (lit x)) # v))"
    "map (\<lambda>kv. (fst kv, sort_keys (snd kv))) ((lit ''domain'', JStr (lit x)) # v) = (lit ''domain'', JStr (lit x)) # v"
    if "material v" for x v
  proof -
    have atoms: "\<forall>kv \<in> set v. json_plain (snd kv) \<and> field_clean (snd kv) \<and> sort_keys (snd kv) = snd kv"
      using that json_atom_simps by (auto simp: material_def list_all_iff)
    then show "json_plain (JDict ((lit ''domain'', JStr (lit x)) # v))" "field_clean (JDict ((lit ''domain'', JStr (lit x)) # v))"
      using that by (auto simp: material_def list_all_iff)
    show "map (\<lambda>kv. (fst kv, sort_keys (snd kv))) ((lit ''domain'', JStr (lit x)) # v) = (lit ''domain'', JStr (lit x)) # v"
      using atoms by (intro map_idI) auto
  qed
  have "utf8_decode (digest_bytes d v) = Some (stable_json_dumps (JDict ?v))"
    "utf8_decode (digest_bytes e w) = Some (stable_json_dumps (JDict ?w))"
    using u by (simp_all add: domain_digest_bytes digest_bytes_def utf8_round_trip)
  then have "json_dumps (JDict ?v) = json_dumps (JDict ?w)"
    using eq unfolding stable_json_dumps_def clean_sanitize[OF plain(2)[OF m(1)]] clean_sanitize[OF plain(2)[OF m(2)]] by simp
  then have "json_loads (json_dumps (JDict ?v)) = json_loads (json_dumps (JDict ?w))" by (rule arg_cong)
  then have "sort_keys (JDict ?v) = sort_keys (JDict ?w)"
    unfolding json_loads_dumps[OF plain(1)[OF m(1)]] json_loads_dumps[OF plain(1)[OF m(2)]] by (rule option.inject[THEN iffD1])
  then have "sort_key fst ?v = sort_key fst ?w"
    unfolding sort_keys.simps plain(3)[OF m(1)] plain(3)[OF m(2)] json.inject .
  then have eqs: "set ?v = set ?w" by (metis set_sort)
  have fresh: "(lit ''domain'', x) \<notin> set v" "(lit ''domain'', x) \<notin> set w" for x
    using m by (force simp: material_def)+
  have "(lit ''domain'', JStr (lit d)) \<in> set ?w" unfolding eqs[symmetric] by simp
  then have d: "d = e" using fresh(2) by simp
  have "insert (lit ''domain'', JStr (lit d)) (set v) = insert (lit ''domain'', JStr (lit d)) (set w)"
    using eqs unfolding d by simp
  then show ?thesis using insert_ident[OF fresh] d by blast
qed

lemma base64url_inject:
  assumes "\<forall>b \<in> set a. b < 256" "\<forall>b \<in> set b. b < 256" "base64url a = base64url b"
  shows "a = b"
  using base64_round_trip[OF assms(1)] base64_round_trip[OF assms(2)] assms(3) by (metis option.inject)

definition revision_material :: "ustr \<Rightarrow> ustr option \<Rightarrow> ustr option \<Rightarrow> ustr \<Rightarrow> ustr \<Rightarrow> (ustr \<times> json) list" where
  "revision_material turn_id user_text final_text user_state final_state =
     [(lit ''turn_id'', JStr turn_id), (lit ''user_text'', json_option user_text),
      (lit ''assistant_final_text'', json_option final_text), (lit ''user_state'', JStr user_state),
      (lit ''final_state'', JStr final_state)]"

lemma revision_material: "material (revision_material t u f a b)"
  by (simp add: material_def revision_material_def json_option_def split: option.split)

lemma revision_material_set:
  "set (revision_material t u f a b) = set (revision_material t' u' f' a' b') \<longleftrightarrow> (t, u, f, a, b) = (t', u', f', a', b')"
proof
  assume s: "set (revision_material t u f a b) = set (revision_material t' u' f' a' b')"
  have "(lit ''turn_id'', JStr t) \<in> set (revision_material t' u' f' a' b')"
    "(lit ''user_text'', json_option u) \<in> set (revision_material t' u' f' a' b')"
    "(lit ''assistant_final_text'', json_option f) \<in> set (revision_material t' u' f' a' b')"
    "(lit ''user_state'', JStr a) \<in> set (revision_material t' u' f' a' b')"
    "(lit ''final_state'', JStr b) \<in> set (revision_material t' u' f' a' b')"
    unfolding s[symmetric] by (simp_all add: revision_material_def)
  then show "(t, u, f, a, b) = (t', u', f', a', b')"
    by (simp add: revision_material_def json_option_def split: option.splits)
qed simp

text \<open>
  A content revision is the digest of bytes that determine the turn id, both texts and
  both availability states: the hashed bytes of two revisions are the same exactly when all
  five are, and the revisions are the same exactly when SHA-256 of those bytes is; so any
  change to a turn's canonical content changes its revision, short of a SHA-256 collision.
\<close>

theorem revision_binds_content:
  assumes "content_revision t u f a b = Inr r" "content_revision t' u' f' a' b' = Inr r'"
  shows "let m = digest_bytes ''tendwire.turn-content-revision.v1'' (revision_material t u f a b);
             m' = digest_bytes ''tendwire.turn-content-revision.v1'' (revision_material t' u' f' a' b')
         in (r = r' \<longleftrightarrow> sha256 m = sha256 m') \<and> (m = m' \<longleftrightarrow> (t, u, f, a, b) = (t', u', f', a', b'))"
proof -
  let ?d = "''tendwire.turn-content-revision.v1''"
  obtain h where h: "domain_digest ?d (revision_material t u f a b) = Inr h" "r = lit ''twrev1.'' @ h"
    using assms(1) by (auto simp: content_revision_def bind_content_eq_Inr revision_material_def split: if_splits)
  obtain g where g: "domain_digest ?d (revision_material t' u' f' a' b') = Inr g" "r' = lit ''twrev1.'' @ g"
    using assms(2) by (auto simp: content_revision_def bind_content_eq_Inr revision_material_def split: if_splits)
  let ?m = "digest_bytes ?d (revision_material t u f a b)" and ?m' = "digest_bytes ?d (revision_material t' u' f' a' b')"
  have hg: "h = base64url (sha256 ?m)" "g = base64url (sha256 ?m')" using h(1) g(1) by (simp_all add: domain_digest_bytes)
  have b: "\<forall>x \<in> set (sha256 m). x < 256" for m using sha256_bytes by blast
  have "r = r' \<longleftrightarrow> sha256 ?m = sha256 ?m'"
    using base64url_inject[OF b b] by (auto simp: h(2) g(2) hg)
  moreover have "?m = ?m' \<longleftrightarrow> (t, u, f, a, b) = (t', u', f', a', b')"
    using digest_bytes_inject[OF revision_material revision_material h(1) g(1)] revision_material_set[of t u f a b t' u' f' a' b']
    by auto
  ultimately show ?thesis by (simp add: Let_def)
qed


theorem revision_binds_content_witness:
  "\<exists>r r'. content_revision (lit ''t'') None None (lit ''absent'') (lit ''absent'') = Inr r
    \<and> content_revision (lit ''t'') (Some []) None (lit ''complete'') (lit ''absent'') = Inr r'
    \<and> (r = r' \<longleftrightarrow> sha256 (digest_bytes ''tendwire.turn-content-revision.v1''
           (revision_material (lit ''t'') None None (lit ''absent'') (lit ''absent'')))
         = sha256 (digest_bytes ''tendwire.turn-content-revision.v1''
           (revision_material (lit ''t'') (Some []) None (lit ''complete'') (lit ''absent''))))"
proof -
  have "\<exists>h. domain_digest ''tendwire.turn-content-revision.v1'' (revision_material (lit ''t'') u None a (lit ''absent'')) = Inr h"
    if "unicode_text a" "u = None \<or> u = Some []" for u a
    using that by (intro domain_digest_total) (auto simp: revision_material_def json_option_def)
  then obtain h g where h: "domain_digest ''tendwire.turn-content-revision.v1'' (revision_material (lit ''t'') None None (lit ''absent'') (lit ''absent'')) = Inr h"
    and g: "domain_digest ''tendwire.turn-content-revision.v1'' (revision_material (lit ''t'') (Some []) None (lit ''complete'') (lit ''absent'')) = Inr g"
    using unicode_lit by metis
  have r: "content_revision (lit ''t'') None None (lit ''absent'') (lit ''absent'') = Inr (lit ''twrev1.'' @ h)"
    using h by (simp add: content_revision_def revision_material_def validate_content_state_def)
  have r': "content_revision (lit ''t'') (Some []) None (lit ''complete'') (lit ''absent'') = Inr (lit ''twrev1.'' @ g)"
    using g by (simp add: content_revision_def revision_material_def validate_content_state_def)
  from revision_binds_content[OF r r'] show ?thesis unfolding Let_def using r r' by blast
qed

theorem content_cursor_round_trip_witness:
  "\<exists>t s. content_segment_id (lit ''r'') (lit ''user_text'') 3 = Inr s
    \<and> content_cursor (lit ''r'') (lit ''user_text'') 3 (Some 90) (Some 120) = Inr t
    \<and> decode_content_cursor t (lit ''r'') (lit ''user_text'') 4
        = Inr \<lparr>cc_index = 3, cc_segment_id = s, cc_start_char = 90, cc_start_byte = 120\<rparr>
    \<and> decode_content_cursor t (lit ''r'') (lit ''user_text'') 3 = Inl InvalidCursor"
proof -
  obtain s t where st: "content_segment_id (lit ''r'') (lit ''user_text'') 3 = Inr s"
    "content_cursor (lit ''r'') (lit ''user_text'') 3 (Some 90) (Some 120) = Inr t"
    by (rule content_cursor_total[of "lit ''r''" "lit ''user_text''" 3 90 120]) (simp_all add: validate_content_field_def)
  note rt = content_cursor_round_trip[OF st(2) _ _ _ st(1)]
  have "decode_content_cursor t (lit ''r'') (lit ''user_text'') 4
        = Inr \<lparr>cc_index = 3, cc_segment_id = s, cc_start_char = 90, cc_start_byte = 120\<rparr>"
    "decode_content_cursor t (lit ''r'') (lit ''user_text'') 3 = Inl InvalidCursor"
    using rt[of 4] rt[of 3] by simp_all
  with st show ?thesis by blast
qed

end
