(* ===== verification/ContentPages.thy ===== *)
theory ContentPages
  imports ContentTokens
begin

text \<open>
  Descriptors, projections and pages of canonical turn content (\<open>core/turns.py\<close>): what a
  reader is told about the two texts of a turn, what it gets inline or as a preview, and
  the pages it can walk with cursors.
\<close>

section \<open>Descriptors\<close>

definition TURN_TEXT_MAX_CHARS :: int where "TURN_TEXT_MAX_CHARS = 12000"
definition TURN_CONTENT_PREVIEW_MAX_CHARS :: int where "TURN_CONTENT_PREVIEW_MAX_CHARS = 1000"
definition TURN_CONTENT_PAGE_MAX_UTF8_BYTES :: int where "TURN_CONTENT_PAGE_MAX_UTF8_BYTES = 48 * 1024"

record field_descriptor =
  fd_availability :: ustr
  fd_inline :: bool
  fd_char_length :: int
  fd_byte_length :: int
  fd_page_count :: int
  fd_first_cursor :: "ustr option"

text \<open>The checks of \<open>ContentFieldDescriptor.__post_init__\<close>, in its order.\<close>

definition checked_field_descriptor :: "field_descriptor \<Rightarrow> field_descriptor content" where
  "checked_field_descriptor d =
     bind_content (require (fd_availability d \<in> {lit ''absent'', lit ''complete'', lit ''known_incomplete''})
       InvalidContentAvailability) (\<lambda>_.
     bind_content (require (0 \<le> fd_char_length d \<and> 0 \<le> fd_byte_length d \<and> 0 \<le> fd_page_count d)
       InvalidContentLength) (\<lambda>_.
     bind_content (require (\<not> (fd_availability d \<noteq> lit ''complete''
         \<and> (fd_inline d \<or> fd_page_count d \<noteq> 0 \<or> fd_first_cursor d \<noteq> None))) IncompleteContentInlineOrPaged) (\<lambda>_.
     bind_content (require (\<not> (fd_availability d = lit ''absent''
         \<and> (fd_char_length d \<noteq> 0 \<or> fd_byte_length d \<noteq> 0))) AbsentContentHasLength) (\<lambda>_.
     bind_content (require (\<not> (fd_inline d \<and> fd_first_cursor d \<noteq> None)) InlineContentHasCursor) (\<lambda>_.
     bind_content (require (\<not> (fd_availability d = lit ''complete'' \<and> \<not> fd_inline d \<and> fd_char_length d \<noteq> 0
         \<and> (fd_page_count d = 0 \<or> fd_first_cursor d = None))) PagedContentRequiresCursor) (\<lambda>_.
     Inr d))))))"

record turn_content_descriptor =
  tc_content_revision :: ustr
  tc_known_incomplete :: bool
  tc_user_text :: field_descriptor
  tc_assistant_final_text :: field_descriptor

definition checked_turn_content_descriptor :: "turn_content_descriptor \<Rightarrow> turn_content_descriptor content" where
  "checked_turn_content_descriptor d =
     (if tc_known_incomplete d =
         (fd_availability (tc_user_text d) = lit ''known_incomplete''
          \<or> fd_availability (tc_assistant_final_text d) = lit ''known_incomplete'')
      then Inr d else Inl InconsistentKnownIncomplete)"

definition content_field_descriptor :: "ustr \<Rightarrow> ustr \<Rightarrow> ustr option \<Rightarrow> ustr \<Rightarrow> int \<Rightarrow> field_descriptor content" where
  "content_field_descriptor revision field text state inline_max_chars =
     (case text of
        None \<Rightarrow> checked_field_descriptor
          \<lparr>fd_availability = state, fd_inline = False, fd_char_length = 0, fd_byte_length = 0, fd_page_count = 0,
           fd_first_cursor = None\<rparr>
      | Some s \<Rightarrow>
          bind_content
            (if state = lit ''complete''
             then bind_content (segment_canonical_text s TURN_CONTENT_PAGE_MAX_UTF8_BYTES) (\<lambda>segments.
               Inr (length segments, sum_list (map sg_byte_length segments)))
             else bind_content (encode_text s) (\<lambda>b. Inr (0, length b))) (\<lambda>(page_count, byte_length).
          let inline = (state = lit ''complete'' \<and> int (length s) \<le> inline_max_chars) in
          bind_content
            (if state = lit ''complete'' \<and> \<not> inline \<and> page_count \<noteq> 0
             then bind_content (content_cursor revision field 0 (Some 0) (Some 0)) (\<lambda>t. Inr (Some t))
             else Inr None) (\<lambda>first_cursor.
          checked_field_descriptor
            \<lparr>fd_availability = state, fd_inline = inline, fd_char_length = int (length s),
             fd_byte_length = int byte_length, fd_page_count = int page_count, fd_first_cursor = first_cursor\<rparr>)))"

definition build_turn_content_descriptor ::
  "ustr \<Rightarrow> ustr option \<Rightarrow> ustr option \<Rightarrow> ustr option \<Rightarrow> ustr option \<Rightarrow> int \<Rightarrow> turn_content_descriptor content" where
  "build_turn_content_descriptor turn_id user_text final_text user_state final_state inline_max_chars =
     bind_content (require (0 \<le> inline_max_chars) InvalidInlineLimit) (\<lambda>_.
     bind_content (inferred_content_state user_text user_state) (\<lambda>resolved_user_state.
     bind_content (inferred_content_state final_text final_state) (\<lambda>resolved_final_state.
     bind_content (content_revision turn_id user_text final_text resolved_user_state resolved_final_state) (\<lambda>revision.
     bind_content (content_field_descriptor revision (lit ''user_text'') user_text resolved_user_state inline_max_chars)
       (\<lambda>user.
     bind_content (content_field_descriptor revision (lit ''assistant_final_text'') final_text resolved_final_state
       inline_max_chars) (\<lambda>final.
     checked_turn_content_descriptor
       \<lparr>tc_content_revision = revision,
        tc_known_incomplete = (resolved_user_state = lit ''known_incomplete'' \<or> resolved_final_state = lit ''known_incomplete''),
        tc_user_text = user, tc_assistant_final_text = final\<rparr>))))))"

section \<open>Projections\<close>

text \<open>The \<open>dict\<close> a projection returns: a text or preview key is present or not.\<close>

record turn_content_projection =
  pj_content :: turn_content_descriptor
  pj_user_text :: "ustr option"
  pj_user_preview :: "ustr option"
  pj_assistant_final_text :: "ustr option"
  pj_assistant_final_preview :: "ustr option"

definition projected_text :: "field_descriptor \<Rightarrow> ustr option \<Rightarrow> int \<Rightarrow> ustr option \<times> ustr option" where
  "projected_text d text preview_max_chars =
     (if fd_inline d then (text, None)
      else case text of None \<Rightarrow> (None, None) | Some s \<Rightarrow> (None, Some (take (nat preview_max_chars) s)))"

definition project_turn_content ::
  "ustr \<Rightarrow> ustr option \<Rightarrow> ustr option \<Rightarrow> ustr option \<Rightarrow> ustr option \<Rightarrow> int \<Rightarrow> int \<Rightarrow> turn_content_projection content" where
  "project_turn_content turn_id user_text final_text user_state final_state inline_max_chars preview_max_chars =
     bind_content (require (0 \<le> preview_max_chars) InvalidPreviewLimit) (\<lambda>_.
     bind_content (build_turn_content_descriptor turn_id user_text final_text user_state final_state inline_max_chars)
       (\<lambda>descriptor.
     let u = projected_text (tc_user_text descriptor) user_text preview_max_chars;
         f = projected_text (tc_assistant_final_text descriptor) final_text preview_max_chars in
     Inr \<lparr>pj_content = descriptor, pj_user_text = fst u, pj_user_preview = snd u,
          pj_assistant_final_text = fst f, pj_assistant_final_preview = snd f\<rparr>))"

text \<open>One field of a persisted revision, as the store reads it.\<close>

record persisted_field =
  pf_state :: ustr
  pf_char_length :: int
  pf_byte_length :: int
  pf_page_count :: int
  pf_inline :: "ustr option"
  pf_preview :: "ustr option"

definition project_persisted_field ::
  "ustr \<Rightarrow> ustr \<Rightarrow> int \<Rightarrow> int \<Rightarrow> persisted_field \<Rightarrow> (field_descriptor \<times> ustr option \<times> ustr option) content" where
  "project_persisted_field revision field inline_max_chars preview_max_chars f =
     (let state = pf_state f; chars = pf_char_length f; bytes = pf_byte_length f; pages = pf_page_count f;
          inline = (state = lit ''complete'' \<and> chars \<le> inline_max_chars \<and> 0 < chars) in
     bind_content (require (state \<in> {lit ''absent'', lit ''complete'', lit ''known_incomplete''}
         \<and> 0 \<le> chars \<and> 0 \<le> bytes \<and> 0 \<le> pages) InvalidPersistedDescriptor) (\<lambda>_.
     bind_content (require
        (if state = lit ''absent''
         then \<not> (chars \<noteq> 0 \<or> bytes \<noteq> 0 \<or> pages \<noteq> 0 \<or> pf_inline f \<noteq> None \<or> pf_preview f \<noteq> None)
         else if state = lit ''known_incomplete'' then \<not> (pages \<noteq> 0 \<or> pf_inline f \<noteq> None)
         else if chars \<noteq> 0 then \<not> (pages < 1 \<or> (inline \<and> pf_inline f = None))
         else \<not> (bytes \<noteq> 0 \<or> pages \<noteq> 0 \<or> pf_inline f \<notin> {None, Some []})) InvalidPersistedDescriptor) (\<lambda>_.
     bind_content
        (case (pf_inline f, pf_preview f) of
           (Some s, _) \<Rightarrow> (if \<not> inline \<or> int (length s) \<noteq> chars then Inl InvalidPersistedDescriptor else Inr (Some s, None))
         | (None, Some s) \<Rightarrow>
             (if state = lit ''absent'' then Inr (None, None)
              else if int (length s) > preview_max_chars then Inl InvalidPersistedDescriptor else Inr (None, Some s))
         | (None, None) \<Rightarrow> Inr (None, None)) (\<lambda>projected.
     bind_content
        (if state = lit ''complete'' \<and> \<not> inline \<and> pages \<noteq> 0
         then bind_content (content_cursor revision field 0 (Some 0) (Some 0)) (\<lambda>t. Inr (Some t))
         else Inr None) (\<lambda>first_cursor.
     bind_content (checked_field_descriptor
        \<lparr>fd_availability = state, fd_inline = inline, fd_char_length = chars, fd_byte_length = bytes,
         fd_page_count = (if state = lit ''complete'' then pages else 0), fd_first_cursor = first_cursor\<rparr>) (\<lambda>d.
     Inr (d, projected)))))))"

definition project_persisted_turn_content ::
  "ustr \<Rightarrow> persisted_field \<Rightarrow> persisted_field \<Rightarrow> int \<Rightarrow> int \<Rightarrow> turn_content_projection content" where
  "project_persisted_turn_content revision user final inline_max_chars preview_max_chars =
     bind_content (require (revision \<noteq> [] \<and> 0 \<le> inline_max_chars \<and> 0 \<le> preview_max_chars) InvalidPersistedDescriptor) (\<lambda>_.
     bind_content (project_persisted_field revision (lit ''user_text'') inline_max_chars preview_max_chars user)
       (\<lambda>(du, tu, pu).
     bind_content (project_persisted_field revision (lit ''assistant_final_text'') inline_max_chars preview_max_chars final)
       (\<lambda>(df, tf, pf).
     bind_content (checked_turn_content_descriptor
       \<lparr>tc_content_revision = revision,
        tc_known_incomplete = (fd_availability du = lit ''known_incomplete'' \<or> fd_availability df = lit ''known_incomplete''),
        tc_user_text = du, tc_assistant_final_text = df\<rparr>) (\<lambda>descriptor.
     Inr \<lparr>pj_content = descriptor, pj_user_text = tu, pj_user_preview = pu,
          pj_assistant_final_text = tf, pj_assistant_final_preview = pf\<rparr>))))"

section \<open>Pages\<close>

record content_page =
  cp_turn_id :: ustr
  cp_content_revision :: ustr
  cp_field :: ustr
  cp_segment_id :: ustr
  cp_index :: int
  cp_count :: nat
  cp_text :: ustr
  cp_segment_char_length :: nat
  cp_segment_byte_length :: nat
  cp_total_char_length :: nat
  cp_total_byte_length :: nat
  cp_next_cursor :: "ustr option"

text \<open>The page at a position, and the position a request names.\<close>

definition content_page_at ::
  "ustr \<Rightarrow> ustr \<Rightarrow> ustr \<Rightarrow> ustr \<Rightarrow> segment list \<Rightarrow> content_cursor_position \<Rightarrow> content_page content" where
  "content_page_at turn_id revision field text segments position =
     (let count = length segments; segment = segments ! nat (cc_index position) in
     bind_content (content_segment_id revision field (int (sg_index segment))) (\<lambda>own_id.
     bind_content (require (\<not> (cc_segment_id position \<noteq> own_id
         \<or> cc_start_char position \<noteq> int (sg_start_char segment)
         \<or> cc_start_byte position \<noteq> int (sg_start_byte segment))) InvalidCursor) (\<lambda>_.
     bind_content
        (if cc_index position + 1 < int count
         then bind_content (content_cursor revision field (cc_index position + 1)
           (Some (int (sg_end_char segment))) (Some (int (sg_end_byte segment)))) (\<lambda>t. Inr (Some t))
         else Inr None) (\<lambda>next_cursor.
     Inr \<lparr>cp_turn_id = turn_id, cp_content_revision = revision, cp_field = field, cp_segment_id = cc_segment_id position,
          cp_index = cc_index position, cp_count = count, cp_text = sg_text segment,
          cp_segment_char_length = sg_char_length segment, cp_segment_byte_length = sg_byte_length segment,
          cp_total_char_length = length text, cp_total_byte_length = sg_end_byte (last segments),
          cp_next_cursor = next_cursor\<rparr>))))"

definition page_position :: "ustr \<Rightarrow> ustr \<Rightarrow> nat \<Rightarrow> ustr option \<Rightarrow> content_cursor_position content" where
  "page_position revision field count cursor =
     (case cursor of
        None \<Rightarrow> bind_content (content_segment_id revision field 0) (\<lambda>s.
          Inr \<lparr>cc_index = 0, cc_segment_id = s, cc_start_char = 0, cc_start_byte = 0\<rparr>)
      | Some c \<Rightarrow> decode_content_cursor c revision field (int count))"

definition build_turn_content_page ::
  "ustr \<Rightarrow> ustr \<Rightarrow> ustr \<Rightarrow> ustr \<Rightarrow> ustr option \<Rightarrow> int \<Rightarrow> content_page content" where
  "build_turn_content_page turn_id revision field text cursor max_utf8_bytes =
     bind_content (validate_content_field field) (\<lambda>_.
     bind_content (segment_canonical_text text max_utf8_bytes) (\<lambda>segments.
     bind_content (require (length segments \<noteq> 0) ContentHasNoSegments) (\<lambda>_.
     bind_content (page_position revision field (length segments) cursor) (\<lambda>position.
     content_page_at turn_id revision field text segments position))))"


section \<open>Walking the pages\<close>

text \<open>
  A reader that starts without a cursor and follows \<open>next_cursor\<close>; \<open>None\<close> when the number
  of requests it allows itself is used up.
\<close>

fun walk_pages :: "nat \<Rightarrow> ustr \<Rightarrow> ustr \<Rightarrow> ustr \<Rightarrow> ustr \<Rightarrow> int \<Rightarrow> ustr option \<Rightarrow> content_page list content option" where
  "walk_pages 0 turn_id revision field text limit cursor = None"
| "walk_pages (Suc n) turn_id revision field text limit cursor =
     (case build_turn_content_page turn_id revision field text cursor limit of
        Inl e \<Rightarrow> Some (Inl e)
      | Inr page \<Rightarrow>
          (case cp_next_cursor page of
             None \<Rightarrow> Some (Inr [page])
           | Some c \<Rightarrow>
               map_option (\<lambda>r. bind_content r (\<lambda>pages. Inr (page # pages)))
                 (walk_pages n turn_id revision field text limit (Some c))))"

lemma byte_size_take_le: "byte_size (take k s) \<le> byte_size s"
  using byte_size_simps(2)[of "take k s" "drop k s"] by simp

lemma length_le_byte_size: "length s \<le> byte_size s"
  by (simp add: byte_size_def length_utf8_encode_ge)

text \<open>The cursor that names page \<open>k\<close>: none for the first page, or its own content cursor.\<close>

definition names_page :: "ustr \<Rightarrow> ustr \<Rightarrow> segment list \<Rightarrow> nat \<Rightarrow> ustr option \<Rightarrow> bool" where
  "names_page revision field gs k cursor \<longleftrightarrow>
     (case cursor of
        None \<Rightarrow> k = 0
      | Some c \<Rightarrow> content_cursor revision field (int k) (Some (int (sg_start_char (gs ! k))))
          (Some (int (sg_start_byte (gs ! k)))) = Inr c)"

lemma page_of_cursor:
  assumes gs: "segment_canonical_text text limit = Inr gs" and k: "k < length gs"
    and small: "byte_size text < 10 ^ 18"
    and r: "unicode_text revision" "validate_content_field field = Inr field"
    and c: "names_page revision field gs k cursor"
  obtains page where "build_turn_content_page turn_id revision field text cursor limit = Inr page"
    "cp_text page = sg_text (gs ! k)" "cp_index page = int k" "cp_count page = length gs"
    "cp_total_byte_length page = byte_size text"
    "if Suc k < length gs
     then \<exists>c. cp_next_cursor page = Some c \<and> names_page revision field gs (Suc k) (Some c)
     else cp_next_cursor page = None"
proof -
  have ne: "gs \<noteq> []" using k by auto
  note f = segment_fields[OF gs k]
  have "int (sg_start_char (gs ! k)) < 10 ^ 18" "int (sg_start_byte (gs ! k)) < 10 ^ 18" "int k < 10 ^ 18"
  proof -
    have "k \<le> page_start gs k" if "k < length gs" for k
      using that
    proof (induction k)
      case (Suc k)
      then have "k \<le> page_start gs k" "page_start gs k < sg_end_char (gs ! k)" using segment_nth(2)[OF gs, of k] by auto
      then show ?case by (simp add: page_start_def)
    qed simp
    then have "k \<le> page_start gs k" using k by blast
    moreover have "page_start gs k \<le> length text" using segment_nth(2,3)[OF gs k] by simp
    moreover have "length text < 10 ^ 18" using small length_le_byte_size[of "text"] by simp
    moreover have "byte_size (take (page_start gs k) text) < 10 ^ 18"
      using small byte_size_take_le[of "page_start gs k" "text"] by simp
    ultimately show "int (sg_start_char (gs ! k)) < 10 ^ 18" "int (sg_start_byte (gs ! k)) < 10 ^ 18" "int k < 10 ^ 18"
      by (simp_all add: f)
  qed
  note bounds = this(3,1,2)
  obtain s t where s: "content_segment_id revision field (int k) = Inr s"
    by (rule content_cursor_total[OF r, of "int k" 0 0]) simp_all
  have position: "page_position revision field (length gs) cursor
     = Inr \<lparr>cc_index = int k, cc_segment_id = s, cc_start_char = int (sg_start_char (gs ! k)),
            cc_start_byte = int (sg_start_byte (gs ! k))\<rparr>"
  proof (cases cursor)
    case None
    then show ?thesis using c s f by (simp add: page_position_def names_page_def page_start_def)
  next
    case (Some t)
    then have "content_cursor revision field (int k) (Some (int (sg_start_char (gs ! k))))
        (Some (int (sg_start_byte (gs ! k)))) = Inr t"
      using c by (simp add: names_page_def)
    from decode_own_content_cursor[OF this bounds s, of "int (length gs)"] k Some show ?thesis by (simp add: page_position_def)
  qed
  have total: "sg_end_byte (last gs) = byte_size text"
    using segment_fields(5)[OF gs, of "length gs - 1"] segment_last_end[OF gs ne] ne by (simp add: last_conv_nth)
  consider (more) t where "int k + 1 < int (length gs)" "Suc k < length gs"
      "content_cursor revision field (int k + 1) (Some (int (sg_end_char (gs ! k)))) (Some (int (sg_end_byte (gs ! k)))) = Inr t"
      "names_page revision field gs (Suc k) (Some t)"
    | (last) "\<not> int k + 1 < int (length gs)" "\<not> Suc k < length gs"
  proof (cases "Suc k < length gs")
    case True
    note g = segment_fields(2,4)[OF gs True]
    obtain t where t: "content_cursor revision field (int k + 1) (Some (int (sg_end_char (gs ! k))))
        (Some (int (sg_end_byte (gs ! k)))) = Inr t"
      by (rule content_cursor_total[OF r, of "int k + 1" "int (sg_end_char (gs ! k))" "int (sg_end_byte (gs ! k))"]) simp_all
    have "names_page revision field gs (Suc k) (Some t)"
      using t f(5) by (simp add: names_page_def g page_start_def add.commute)
    then show ?thesis using more[OF _ True t] True by simp
  qed (use last in simp)
  then show ?thesis
  proof cases
    case (more t)
    show ?thesis
      by (rule that[of "\<lparr>cp_turn_id = turn_id, cp_content_revision = revision, cp_field = field, cp_segment_id = s,
            cp_index = int k, cp_count = length gs, cp_text = sg_text (gs ! k),
            cp_segment_char_length = sg_char_length (gs ! k), cp_segment_byte_length = sg_byte_length (gs ! k),
            cp_total_char_length = length text, cp_total_byte_length = byte_size text, cp_next_cursor = Some t\<rparr>"])
        (use more ne in \<open>simp_all add: build_turn_content_page_def content_page_at_def r(2) gs Let_def position f(1) s total\<close>)
  next
    case last
    show ?thesis
      by (rule that[of "\<lparr>cp_turn_id = turn_id, cp_content_revision = revision, cp_field = field, cp_segment_id = s,
            cp_index = int k, cp_count = length gs, cp_text = sg_text (gs ! k),
            cp_segment_char_length = sg_char_length (gs ! k), cp_segment_byte_length = sg_byte_length (gs ! k),
            cp_total_char_length = length text, cp_total_byte_length = byte_size text, cp_next_cursor = None\<rparr>"])
        (use last ne in \<open>simp_all add: build_turn_content_page_def content_page_at_def r(2) gs Let_def position f(1) s total\<close>)
  qed
qed

lemma walk_from:
  assumes "segment_canonical_text text limit = Inr gs" "k < length gs" "byte_size text < 10 ^ 18"
    "unicode_text revision" "validate_content_field field = Inr field" "names_page revision field gs k cursor"
  shows "\<exists>pages. walk_pages (length gs - k) turn_id revision field text limit cursor = Some (Inr pages)
    \<and> map cp_text pages = map sg_text (drop k gs) \<and> map cp_index pages = map int [k..<length gs]"
  using assms(2,6)
proof (induction "length gs - k" arbitrary: k cursor)
  case (Suc n)
  obtain page where p: "build_turn_content_page turn_id revision field text cursor limit = Inr page"
    "cp_text page = sg_text (gs ! k)" "cp_index page = int k"
    "if Suc k < length gs
     then \<exists>c. cp_next_cursor page = Some c \<and> names_page revision field gs (Suc k) (Some c)
     else cp_next_cursor page = None"
    by (rule page_of_cursor[OF assms(1) Suc.prems(1) assms(3-5) Suc.prems(2), of turn_id])
  have d: "drop k gs = gs ! k # drop (Suc k) gs" "[k..<length gs] = k # [Suc k..<length gs]"
    using Suc.prems(1) by (simp_all add: Cons_nth_drop_Suc upt_conv_Cons)
  have fuel: "length gs - k = Suc n" "n = length gs - Suc k" using Suc.hyps(2) by auto
  show ?case
  proof (cases "Suc k < length gs")
    case True
    then obtain c where c: "cp_next_cursor page = Some c" "names_page revision field gs (Suc k) (Some c)" using p(4) by auto
    from Suc.hyps(1)[OF fuel(2) True c(2)] fuel p(1-3) c(1) show ?thesis
      unfolding d by (auto simp: fuel(1))
  next
    case False
    then show ?thesis using p fuel Suc.prems(1) unfolding d by (simp add: fuel(1))
  qed
qed simp

text \<open>
  C35: A reader that starts without a cursor and follows the next cursors reads, in as many
  requests as there are pages and without an error, the pages in order, and their texts
  joined are the canonical text.
\<close>

theorem pages_reassemble_the_text:
  assumes "segment_canonical_text text limit = Inr gs" "text \<noteq> []" "byte_size text < 10 ^ 18"
    "unicode_text revision" "field \<in> {lit ''user_text'', lit ''assistant_final_text''}"
  shows "\<exists>pages. walk_pages (length gs) turn_id revision field text limit None = Some (Inr pages)
    \<and> concat (map cp_text pages) = text \<and> map cp_index pages = map int [0..<length gs]"
proof -
  have ne: "0 < length gs" using segment_texts[OF assms(1)] assms(2) by auto
  have v: "validate_content_field field = Inr field" using assms(5) by (simp add: validate_content_field_def)
  have "names_page revision field gs 0 None" by (simp add: names_page_def)
  from walk_from[OF assms(1) ne assms(3,4) v this, of turn_id] obtain pages where
    "walk_pages (length gs) turn_id revision field text limit None = Some (Inr pages)"
    "map cp_text pages = map sg_text gs" "map cp_index pages = map int [0..<length gs]"
    by auto
  then show ?thesis using segment_texts[OF assms(1)] by metis
qed

lemma returns_any: "returns m (\<lambda>_. True) (\<lambda>_. True)"
  by (simp add: returns_def split: sum.split)

lemma decoded_index:
  "returns (decode_content_cursor c revision field count) (\<lambda>p. 0 \<le> cc_index p \<and> cc_index p < count) (\<lambda>_. True)"
  unfolding decode_content_cursor_def Let_def
  by (rule returns_bind, (rule steps, simp | rule returns_any) | rule returns_Inr, simp)+

lemma page_position_index:
  assumes "page_position revision field count cursor = Inr p" "count \<noteq> 0"
  shows "0 \<le> cc_index p \<and> cc_index p < int count"
proof (cases cursor)
  case (Some c)
  then show ?thesis using assms(1) decoded_index[of c revision field "int count"] by (simp add: page_position_def returns_def)
qed (use assms in \<open>auto simp: page_position_def bind_content_eq_Inr\<close>)

text \<open>
  C36: Whatever cursor is presented, a page that is returned is one of the text's own pages:
  its text, lengths and totals are those of the page it names, and its segment id is the
  one of that page under the revision and field asked for.
\<close>

theorem every_page_is_genuine:
  assumes "build_turn_content_page turn_id revision field text cursor limit = Inr page"
  shows "\<exists>gs k. segment_canonical_text text limit = Inr gs \<and> k < length gs \<and> cp_index page = int k
    \<and> cp_count page = length gs \<and> cp_text page = sg_text (gs ! k)
    \<and> cp_segment_byte_length page = byte_size (cp_text page) \<and> int (byte_size (cp_text page)) \<le> limit
    \<and> cp_total_char_length page = length text \<and> cp_total_byte_length page = byte_size text
    \<and> content_segment_id revision field (cp_index page) = Inr (cp_segment_id page)
    \<and> (cp_next_cursor page = None \<longleftrightarrow> Suc k = length gs)"
proof -
  obtain gs position where gs: "segment_canonical_text text limit = Inr gs" "length gs \<noteq> 0"
    and pos: "page_position revision field (length gs) cursor = Inr position"
    and step: "content_page_at turn_id revision field text gs position = Inr page"
    using assms unfolding build_turn_content_page_def bind_content_eq_Inr require_eq_Inr
    by (elim exE conjE) (rule that)
  let ?g = "gs ! nat (cc_index position)"
  obtain next_cursor where own: "content_segment_id revision field (int (sg_index ?g)) = Inr (cc_segment_id position)"
    and nc: "(if cc_index position + 1 < int (length gs)
         then bind_content (content_cursor revision field (cc_index position + 1)
           (Some (int (sg_end_char ?g))) (Some (int (sg_end_byte ?g)))) (\<lambda>t. Inr (Some t))
         else Inr None) = Inr next_cursor"
    and page: "\<lparr>cp_turn_id = turn_id, cp_content_revision = revision, cp_field = field, cp_segment_id = cc_segment_id position,
          cp_index = cc_index position, cp_count = length gs, cp_text = sg_text ?g,
          cp_segment_char_length = sg_char_length ?g, cp_segment_byte_length = sg_byte_length ?g,
          cp_total_char_length = length text, cp_total_byte_length = sg_end_byte (last gs),
          cp_next_cursor = next_cursor\<rparr> = page"
    using step unfolding content_page_at_def Let_def bind_content_eq_Inr require_eq_Inr de_Morgan_disj not_not sum.inject
    by (elim exE conjE) (rule that, simp)
  have next_none: "next_cursor = None \<longleftrightarrow> \<not> cc_index position + 1 < int (length gs)"
    using nc by (cases "cc_index position + 1 < int (length gs)") (auto simp: bind_content_eq_Inr)
  have i: "0 \<le> cc_index position" "cc_index position < int (length gs)"
    using page_position_index[OF pos gs(2)] by simp_all
  define k where "k = nat (cc_index position)"
  have k: "k < length gs" "cc_index position = int k" using i by (simp_all add: k_def)
  note f = segment_fields[OF gs(1) k(1)]
  have total: "sg_end_byte (last gs) = byte_size text"
    using segment_fields(5)[OF gs(1), of "length gs - 1"] segment_last_end[OF gs(1)] gs(2) by (simp add: last_conv_nth)
  have limit: "int (byte_size (sg_text (gs ! k))) \<le> limit" using segment_nth(4)[OF gs(1) k(1)] f(3) by simp
  have last_page: "\<not> int k + 1 < int (length gs) \<longleftrightarrow> Suc k = length gs" using k(1) by linarith
  show ?thesis
    by (intro exI[of _ gs] exI[of _ k])
      (use gs own next_none last_page k f(1,6) total limit in \<open>simp add: page[symmetric] k_def[symmetric]\<close>)
qed


theorem pages_reassemble_the_text_witness:
  "\<exists>pages. walk_pages 3 (lit ''turn'') (lit ''r'') (lit ''user_text'') [0x61, 0x20AC, 0x62, 0x1F600] 4 None = Some (Inr pages)
    \<and> concat (map cp_text pages) = [0x61, 0x20AC, 0x62, 0x1F600] \<and> map cp_index pages = [0, 1, 2]"
proof -
  let ?s = "[0x61, 0x20AC, 0x62, 0x1F600]"
  let ?gs = "[page_from ?s 0 0 2 0 4, page_from ?s 1 2 3 4 1, page_from ?s 2 3 4 5 4]"
  have gs: "segment_canonical_text ?s 4 = Inr ?gs"
    by (simp add: segment_canonical_text_def utf8_code_point_width_def page_from_def text_slice_def)
  have b: "byte_size ?s < 10 ^ 18" by (simp add: byte_size_def utf8_char_def)
  have len: "length ?gs = 3" and idx: "map int [0..<3] = [0, 1, 2]" by (simp_all add: upt_rec)
  have "\<exists>pages. walk_pages (length ?gs) (lit ''turn'') (lit ''r'') (lit ''user_text'') ?s 4 None = Some (Inr pages)
    \<and> concat (map cp_text pages) = ?s \<and> map cp_index pages = map int [0..<length ?gs]"
    by (rule pages_reassemble_the_text[OF gs _ b]) simp_all
  then show ?thesis unfolding len idx .
qed

theorem every_page_is_genuine_witness:
  "\<exists>page. build_turn_content_page (lit ''turn'') (lit ''r'') (lit ''user_text'') [0x61, 0x20AC] None 4 = Inr page
    \<and> int (byte_size (cp_text page)) \<le> 4 \<and> cp_total_byte_length page = 4"
proof -
  let ?s = "[0x61, 0x20AC]"
  have gs: "segment_canonical_text ?s 4 = Inr [page_from ?s 0 0 2 0 4]"
    by (simp add: segment_canonical_text_def utf8_code_point_width_def page_from_def text_slice_def)
  obtain page where p: "build_turn_content_page (lit ''turn'') (lit ''r'') (lit ''user_text'') ?s None 4 = Inr page"
    by (rule page_of_cursor[OF gs, of 0 "lit ''r''" "lit ''user_text''" None "lit ''turn''"])
      (simp_all add: byte_size_def utf8_char_def validate_content_field_def names_page_def)
  have "byte_size ?s = 4" by (simp add: byte_size_def utf8_char_def)
  with every_page_is_genuine[OF p] p show ?thesis by metis
qed


section \<open>What a descriptor says\<close>

lemma checked_field_descriptor_id:
  "checked_field_descriptor d = Inr e \<Longrightarrow> e = d"
  by (auto simp: checked_field_descriptor_def bind_content_eq_Inr)

text \<open>The pages of a complete text, and what a field's descriptor says of its text and state.\<close>

definition page_count_of :: "ustr option \<Rightarrow> ustr \<Rightarrow> nat" where
  "page_count_of text state =
     (case text of
        Some s \<Rightarrow>
          if state = lit ''complete''
          then (case segment_canonical_text s TURN_CONTENT_PAGE_MAX_UTF8_BYTES of Inr gs \<Rightarrow> length gs | Inl _ \<Rightarrow> 0)
          else 0
      | None \<Rightarrow> 0)"

definition describes :: "ustr \<Rightarrow> ustr \<Rightarrow> int \<Rightarrow> ustr option \<Rightarrow> ustr \<Rightarrow> field_descriptor \<Rightarrow> bool" where
  "describes revision field inline_max text state d \<longleftrightarrow>
     fd_availability d = state
     \<and> fd_char_length d = (case text of None \<Rightarrow> 0 | Some s \<Rightarrow> int (length s))
     \<and> fd_byte_length d = (case text of None \<Rightarrow> 0 | Some s \<Rightarrow> int (byte_size s))
     \<and> (fd_inline d \<longleftrightarrow> state = lit ''complete'' \<and> (case text of None \<Rightarrow> False | Some s \<Rightarrow> int (length s) \<le> inline_max))
     \<and> fd_page_count d = int (page_count_of text state)
     \<and> (if state = lit ''complete'' \<and> \<not> fd_inline d
        then \<exists>t. fd_first_cursor d = Some t \<and> content_cursor revision field 0 (Some 0) (Some 0) = Inr t
        else fd_first_cursor d = None)"

lemma unicode_pages:
  assumes "unicode_text s"
  obtains gs where "segment_canonical_text s TURN_CONTENT_PAGE_MAX_UTF8_BYTES = Inr gs"
    "sum_list (map sg_byte_length gs) = byte_size s" "gs = [] \<longleftrightarrow> s = []"
proof -
  have "\<forall>c \<in> set s. \<not> (0xD800 \<le> c \<and> c \<le> 0xDFFF) \<and> int (byte_size [c]) \<le> TURN_CONTENT_PAGE_MAX_UTF8_BYTES"
    using assms by (auto simp: unicode_text_def list_all_iff unicode_char_def byte_size_def length_utf8_char
        TURN_CONTENT_PAGE_MAX_UTF8_BYTES_def)
  then obtain gs where gs: "segment_canonical_text s TURN_CONTENT_PAGE_MAX_UTF8_BYTES = Inr gs"
    using segment_canonical_text_total[of s TURN_CONTENT_PAGE_MAX_UTF8_BYTES] by (auto simp: TURN_CONTENT_PAGE_MAX_UTF8_BYTES_def)
  have "\<forall>g \<in> set gs. sg_byte_length g = byte_size (sg_text g)"
    using segment_fields(6)[OF gs] by (auto simp: in_set_conv_nth)
  then have "sum_list (map sg_byte_length gs) = sum_list (map (\<lambda>g. byte_size (sg_text g)) gs)"
    by (intro arg_cong[where f = sum_list] map_cong) auto
  also have "\<dots> = byte_size (concat (map sg_text gs))" by (induction gs) simp_all
  also have "\<dots> = byte_size s" using segment_texts[OF gs] by simp
  finally have sum: "sum_list (map sg_byte_length gs) = byte_size s" .
  have "gs = [] \<longleftrightarrow> s = []"
    using segment_texts[OF gs] gs by (auto simp: segment_canonical_text_def split: if_splits)
  with gs sum show ?thesis using that by blast
qed

lemma content_field_descriptor_total:
  assumes "validate_content_state state text = Inr state" "\<forall>s. text = Some s \<longrightarrow> unicode_text s"
    "unicode_text revision" "validate_content_field field = Inr field" "0 \<le> inline_max"
  obtains d where "content_field_descriptor revision field text state inline_max = Inr d"
    "checked_field_descriptor d = Inr d" "describes revision field inline_max text state d"
proof (cases "text")
  case None
  then have "state = lit ''absent''" using assms(1) by (auto simp: validate_content_state_def split: if_splits)
  then show ?thesis
    by (intro that[of "\<lparr>fd_availability = state, fd_inline = False, fd_char_length = 0, fd_byte_length = 0,
          fd_page_count = 0, fd_first_cursor = None\<rparr>"])
      (simp_all add: None content_field_descriptor_def checked_field_descriptor_def describes_def page_count_of_def)
next
  case (Some s)
  have u: "unicode_text s" using assms(2) Some by blast
  have state: "state = lit ''complete'' \<or> state = lit ''known_incomplete''"
    using assms(1) Some by (auto simp: validate_content_state_def split: if_splits)
  obtain t where t: "content_cursor revision field 0 (Some 0) (Some 0) = Inr t"
    by (rule content_cursor_total[OF assms(3,4), of 0 0 0]) simp_all
  obtain gs where gs: "segment_canonical_text s TURN_CONTENT_PAGE_MAX_UTF8_BYTES = Inr gs"
    "sum_list (map sg_byte_length gs) = byte_size s" "gs = [] \<longleftrightarrow> s = []"
    by (rule unicode_pages[OF u])
  let ?in = "state = lit ''complete'' \<and> int (length s) \<le> inline_max"
  let ?d = "\<lparr>fd_availability = state, fd_inline = ?in, fd_char_length = int (length s), fd_byte_length = int (byte_size s),
      fd_page_count = (if state = lit ''complete'' then int (length gs) else 0),
      fd_first_cursor = (if state = lit ''complete'' \<and> \<not> ?in then Some t else None)\<rparr>"
  have ne: "\<not> ?in \<longrightarrow> state = lit ''complete'' \<longrightarrow> gs \<noteq> []" using assms(5) gs(3) by auto
  have chk: "checked_field_descriptor ?d = Inr ?d"
    using state ne gs(3) by (auto simp: checked_field_descriptor_def require_def)
  have "content_field_descriptor revision field text state inline_max = checked_field_descriptor ?d"
    using state ne by (auto simp: Some content_field_descriptor_def gs(1,2) Let_def t encode_text_def u byte_size_def)
  moreover have "describes revision field inline_max text state ?d"
    using state t by (auto simp: describes_def Some page_count_of_def gs(1))
  ultimately show ?thesis using that[OF _ chk] chk by simp
qed


lemma inferred_state:
  assumes "inferred_content_state text state = Inr s"
  shows "validate_content_state s text = Inr s"
  using assms by (auto simp: inferred_content_state_def validate_content_state_def split: if_splits option.splits list.splits)

lemma unicode_states: "validate_content_state s text = Inr s' \<Longrightarrow> unicode_text s"
  by (auto simp: validate_content_state_def split: if_splits)

lemma content_revision_total:
  assumes "turn_id \<noteq> []" "unicode_text turn_id" "validate_content_state us u = Inr us" "validate_content_state fs f = Inr fs"
    "\<forall>s. u = Some s \<or> f = Some s \<longrightarrow> unicode_text s"
  obtains r where "content_revision turn_id u f us fs = Inr r" "unicode_text r" "r \<noteq> []"
proof -
  have "json_unicode (JDict (revision_material turn_id u f us fs))"
    using assms unicode_states[OF assms(3)] unicode_states[OF assms(4)]
    by (auto simp: revision_material_def json_option_def split: option.split)
  then obtain h where h: "domain_digest ''tendwire.turn-content-revision.v1'' (revision_material turn_id u f us fs) = Inr h"
    using domain_digest_total by blast
  then have "content_revision turn_id u f us fs = Inr (lit ''twrev1.'' @ h)"
    using assms(1,3,4) by (simp add: content_revision_def revision_material_def)
  with that domain_digest_ascii(4)[OF h] show ?thesis by simp
qed

lemma build_describes:
  assumes "turn_id \<noteq> []" "unicode_text turn_id" "0 \<le> inline_max"
    "\<forall>s. u = Some s \<or> f = Some s \<longrightarrow> unicode_text s"
    "inferred_content_state u us = Inr us'" "inferred_content_state f fs = Inr fs'"
  obtains d where "build_turn_content_descriptor turn_id u f us fs inline_max = Inr d"
    "content_revision turn_id u f us' fs' = Inr (tc_content_revision d)"
    "unicode_text (tc_content_revision d)" "tc_content_revision d \<noteq> []"
    "describes (tc_content_revision d) (lit ''user_text'') inline_max u us' (tc_user_text d)"
    "describes (tc_content_revision d) (lit ''assistant_final_text'') inline_max f fs' (tc_assistant_final_text d)"
    "checked_field_descriptor (tc_user_text d) = Inr (tc_user_text d)"
    "checked_field_descriptor (tc_assistant_final_text d) = Inr (tc_assistant_final_text d)"
    "checked_turn_content_descriptor d = Inr d"
proof -
  note us = inferred_state[OF assms(5)] and fs = inferred_state[OF assms(6)]
  obtain r where r: "content_revision turn_id u f us' fs' = Inr r" "unicode_text r" "r \<noteq> []"
    by (rule content_revision_total[OF assms(1,2) us fs assms(4)])
  obtain du where du: "content_field_descriptor r (lit ''user_text'') u us' inline_max = Inr du"
    "checked_field_descriptor du = Inr du" "describes r (lit ''user_text'') inline_max u us' du"
    by (rule content_field_descriptor_total[OF us _ r(2) _ assms(3), of "lit ''user_text''"])
      (use assms(4) in \<open>auto simp: validate_content_field_def\<close>)
  obtain df where df: "content_field_descriptor r (lit ''assistant_final_text'') f fs' inline_max = Inr df"
    "checked_field_descriptor df = Inr df" "describes r (lit ''assistant_final_text'') inline_max f fs' df"
    by (rule content_field_descriptor_total[OF fs _ r(2) _ assms(3), of "lit ''assistant_final_text''"])
      (use assms(4) in \<open>auto simp: validate_content_field_def\<close>)
  let ?d = "\<lparr>tc_content_revision = r,
      tc_known_incomplete = (us' = lit ''known_incomplete'' \<or> fs' = lit ''known_incomplete''),
      tc_user_text = du, tc_assistant_final_text = df\<rparr>"
  have c: "checked_turn_content_descriptor ?d = Inr ?d"
    using du(3) df(3) by (simp add: checked_turn_content_descriptor_def describes_def)
  have "build_turn_content_descriptor turn_id u f us fs inline_max = Inr ?d"
    by (simp add: build_turn_content_descriptor_def assms(3,5,6) r(1) du(1) df(1) c)
  then show ?thesis using that[of ?d] r du df c by simp
qed

text \<open>
  C39: For a turn id and texts Python can encode and states that fit the texts, building a
  descriptor never fails, not even on the descriptor's own checks, and it says what is so:
  the state and the exact code point and byte lengths of each text; inline exactly when the
  text is complete and within the limit; as many pages as the text has; and a first cursor,
  the one of page 0, exactly for a complete text that is not inline.
\<close>

theorem descriptors_describe_the_texts:
  assumes "turn_id \<noteq> []" "unicode_text turn_id" "0 \<le> inline_max"
    "\<forall>s. u = Some s \<or> f = Some s \<longrightarrow> unicode_text s"
    "inferred_content_state u us = Inr us'" "inferred_content_state f fs = Inr fs'"
  shows "\<exists>d. build_turn_content_descriptor turn_id u f us fs inline_max = Inr d
    \<and> describes (tc_content_revision d) (lit ''user_text'') inline_max u us' (tc_user_text d)
    \<and> describes (tc_content_revision d) (lit ''assistant_final_text'') inline_max f fs' (tc_assistant_final_text d)"
  by (rule build_describes[OF assms]) blast

section \<open>Persisted projections\<close>

text \<open>What the store selects of a revision row for the projection.\<close>

definition persisted_field_of :: "ustr option \<Rightarrow> ustr \<Rightarrow> int \<Rightarrow> int \<Rightarrow> persisted_field" where
  "persisted_field_of text state text_max preview_max =
     (let chars = (case text of None \<Rightarrow> 0 | Some s \<Rightarrow> int (length s));
          whole = (state = lit ''complete'' \<and> 1 \<le> chars \<and> chars \<le> text_max) in
      \<lparr>pf_state = state, pf_char_length = chars,
       pf_byte_length = (case text of None \<Rightarrow> 0 | Some s \<Rightarrow> int (byte_size s)),
       pf_page_count = (if state = lit ''complete'' then int (page_count_of text state) else 0),
       pf_inline = (if whole then text else None),
       pf_preview = (if state \<noteq> lit ''absent'' \<and> \<not> whole then map_option (take (nat preview_max)) text else None)\<rparr>)"

lemma project_persisted_field_of:
  assumes "describes revision field inline_max text state d" "validate_content_state state text = Inr state"
    "\<forall>s. text = Some s \<longrightarrow> unicode_text s" "checked_field_descriptor d = Inr d" "0 \<le> inline_max" "0 \<le> preview_max"
    "state = lit ''complete'' \<longrightarrow> text \<noteq> Some []"
  shows "project_persisted_field revision field inline_max preview_max (persisted_field_of text state inline_max preview_max)
    = Inr (d, projected_text d text preview_max)"
proof -
  have state: "state = lit ''absent'' \<and> text = None \<or> (\<exists>s. text = Some s \<and> (state = lit ''complete'' \<or> state = lit ''known_incomplete''))"
    using assms(2) by (auto simp: validate_content_state_def split: if_splits)
  have d: "d = \<lparr>fd_availability = fd_availability d, fd_inline = fd_inline d, fd_char_length = fd_char_length d,
      fd_byte_length = fd_byte_length d, fd_page_count = fd_page_count d, fd_first_cursor = fd_first_cursor d\<rparr>" by simp
  consider "state = lit ''absent''" "text = None" | s where "text = Some s" "state = lit ''known_incomplete''"
    | s where "text = Some s" "state = lit ''complete''" "s \<noteq> []"
    using state assms(7) by auto
  then show ?thesis
  proof cases
    case 1
    then have "d = \<lparr>fd_availability = state, fd_inline = False, fd_char_length = 0, fd_byte_length = 0, fd_page_count = 0,
        fd_first_cursor = None\<rparr>"
      using assms(1) by (subst d) (simp add: describes_def page_count_of_def)
    then show ?thesis using 1 assms(4)
      by (simp add: project_persisted_field_def persisted_field_of_def projected_text_def page_count_of_def)
  next
    case (2 s)
    then have "d = \<lparr>fd_availability = state, fd_inline = False, fd_char_length = int (length s),
        fd_byte_length = int (byte_size s), fd_page_count = 0, fd_first_cursor = None\<rparr>"
      using assms(1) by (subst d) (simp add: describes_def page_count_of_def)
    then show ?thesis using 2 assms(4,6)
      by (simp add: project_persisted_field_def persisted_field_of_def projected_text_def page_count_of_def Let_def)
  next
    case (3 s)
    have u: "unicode_text s" using 3(1) assms(3) by blast
    obtain gs where gs: "segment_canonical_text s TURN_CONTENT_PAGE_MAX_UTF8_BYTES = Inr gs" "gs = [] \<longleftrightarrow> s = []"
      by (rule unicode_pages[OF u])
    have pages: "page_count_of text state = length gs" "gs \<noteq> []" using 3 gs by (simp_all add: page_count_of_def)
    have len: "1 \<le> int (length s)" "s \<noteq> []" using 3(3) by (cases s; simp)+
    show ?thesis
    proof (cases "int (length s) \<le> inline_max")
      case True
      then have "d = \<lparr>fd_availability = state, fd_inline = True, fd_char_length = int (length s),
          fd_byte_length = int (byte_size s), fd_page_count = int (length gs), fd_first_cursor = None\<rparr>"
        using assms(1) 3 pages by (subst d) (simp add: describes_def)
      then show ?thesis using 3 True assms(4) pages len
        by (simp add: project_persisted_field_def persisted_field_of_def projected_text_def Let_def)
    next
      case False
      then obtain t where "d = \<lparr>fd_availability = state, fd_inline = False, fd_char_length = int (length s),
          fd_byte_length = int (byte_size s), fd_page_count = int (length gs), fd_first_cursor = Some t\<rparr>"
        "content_cursor revision field 0 (Some 0) (Some 0) = Inr t"
        using assms(1) 3 pages that by (subst (asm) d) (auto simp: describes_def)
      then show ?thesis using 3 False assms(4,6) pages len
        by (simp add: project_persisted_field_def persisted_field_of_def projected_text_def Let_def)
    qed
  qed
qed


text \<open>
  C40: What the store projects from a persisted revision, without reading the canonical
  texts in full, is what projecting the texts themselves gives (descriptor, inline text
  or preview), unless a complete text is empty.
\<close>

theorem persisted_projection_agrees:
  assumes "turn_id \<noteq> []" "unicode_text turn_id" "0 \<le> inline_max" "0 \<le> preview_max"
    "\<forall>s. u = Some s \<or> f = Some s \<longrightarrow> unicode_text s"
    "inferred_content_state u us = Inr us'" "inferred_content_state f fs = Inr fs'"
    "us' = lit ''complete'' \<longrightarrow> u \<noteq> Some []" "fs' = lit ''complete'' \<longrightarrow> f \<noteq> Some []"
  shows "\<exists>pj. project_turn_content turn_id u f us fs inline_max preview_max = Inr pj
    \<and> project_persisted_turn_content (tc_content_revision (pj_content pj)) (persisted_field_of u us' inline_max preview_max)
        (persisted_field_of f fs' inline_max preview_max) inline_max preview_max = Inr pj"
proof -
  obtain d where b: "build_turn_content_descriptor turn_id u f us fs inline_max = Inr d"
    and r: "tc_content_revision d \<noteq> []"
    and du: "describes (tc_content_revision d) (lit ''user_text'') inline_max u us' (tc_user_text d)"
      "checked_field_descriptor (tc_user_text d) = Inr (tc_user_text d)"
    and df: "describes (tc_content_revision d) (lit ''assistant_final_text'') inline_max f fs' (tc_assistant_final_text d)"
      "checked_field_descriptor (tc_assistant_final_text d) = Inr (tc_assistant_final_text d)"
    and c: "checked_turn_content_descriptor d = Inr d"
    by (rule build_describes[OF assms(1-3,5-7)])
  have pu: "project_persisted_field (tc_content_revision d) (lit ''user_text'') inline_max preview_max
      (persisted_field_of u us' inline_max preview_max) = Inr (tc_user_text d, projected_text (tc_user_text d) u preview_max)"
    by (rule project_persisted_field_of[OF du(1) inferred_state[OF assms(6)] _ du(2) assms(3,4,8)]) (use assms(5) in blast)
  have pf: "project_persisted_field (tc_content_revision d) (lit ''assistant_final_text'') inline_max preview_max
      (persisted_field_of f fs' inline_max preview_max)
      = Inr (tc_assistant_final_text d, projected_text (tc_assistant_final_text d) f preview_max)"
    by (rule project_persisted_field_of[OF df(1) inferred_state[OF assms(7)] _ df(2) assms(3,4,9)]) (use assms(5) in blast)
  have "\<lparr>tc_content_revision = tc_content_revision d,
      tc_known_incomplete = (fd_availability (tc_user_text d) = lit ''known_incomplete''
        \<or> fd_availability (tc_assistant_final_text d) = lit ''known_incomplete''),
      tc_user_text = tc_user_text d, tc_assistant_final_text = tc_assistant_final_text d\<rparr> = d"
    using c by (cases d) (simp add: checked_turn_content_descriptor_def split: if_splits)
  then show ?thesis
    using b c r assms(3,4)
    by (simp add: project_turn_content_def project_persisted_turn_content_def pu pf Let_def split_beta)
qed

text \<open>
  For a complete empty text the two projections differ: from the text it is inline, as
  the empty text; from the persisted row it is not inline and comes as an empty preview;
  and a row that hands the empty text over as inline, which the checks allow for on their
  way, is refused in the end.
\<close>

theorem empty_complete_text_projections:
  assumes "content_field_descriptor revision field (Some []) (lit ''complete'') inline_max = Inr d"
    "0 \<le> inline_max" "0 \<le> preview_max"
  shows "fd_inline d \<and> projected_text d (Some []) preview_max = (Some [], None)
    \<and> project_persisted_field revision field inline_max preview_max
        (persisted_field_of (Some []) (lit ''complete'') inline_max preview_max)
      = Inr (d\<lparr>fd_inline := False\<rparr>, None, Some [])
    \<and> project_persisted_field revision field inline_max preview_max
        ((persisted_field_of (Some []) (lit ''complete'') inline_max preview_max)\<lparr>pf_inline := Some []\<rparr>)
      = Inl InvalidPersistedDescriptor"
proof -
  have seg: "segment_canonical_text [] TURN_CONTENT_PAGE_MAX_UTF8_BYTES = Inr []"
    by (simp add: segment_canonical_text_def TURN_CONTENT_PAGE_MAX_UTF8_BYTES_def)
  have d: "d = \<lparr>fd_availability = lit ''complete'', fd_inline = True, fd_char_length = 0, fd_byte_length = 0,
      fd_page_count = 0, fd_first_cursor = None\<rparr>"
    using assms by (simp add: content_field_descriptor_def seg Let_def checked_field_descriptor_def)
  show ?thesis
    using assms(2,3)
    by (simp add: d projected_text_def project_persisted_field_def persisted_field_of_def page_count_of_def seg Let_def
        checked_field_descriptor_def require_def)
qed

theorem descriptors_describe_the_texts_witness:
  "\<exists>d. build_turn_content_descriptor (lit ''t'') (Some [0x20AC]) None None None 12000 = Inr d
    \<and> fd_inline (tc_user_text d) \<and> fd_byte_length (tc_user_text d) = 3
    \<and> fd_availability (tc_assistant_final_text d) = lit ''absent''"
proof -
  have s: "inferred_content_state (Some [0x20AC]) None = Inr (lit ''complete'')" "inferred_content_state None None = Inr (lit ''absent'')"
    by (simp_all add: inferred_content_state_def validate_content_state_def)
  have "\<exists>d. build_turn_content_descriptor (lit ''t'') (Some [0x20AC]) None None None 12000 = Inr d
    \<and> describes (tc_content_revision d) (lit ''user_text'') 12000 (Some [0x20AC]) (lit ''complete'') (tc_user_text d)
    \<and> describes (tc_content_revision d) (lit ''assistant_final_text'') 12000 None (lit ''absent'') (tc_assistant_final_text d)"
    by (rule descriptors_describe_the_texts[OF _ _ _ _ s]) (simp_all add: unicode_char_def)
  then obtain d where "build_turn_content_descriptor (lit ''t'') (Some [0x20AC]) None None None 12000 = Inr d"
    "describes (tc_content_revision d) (lit ''user_text'') 12000 (Some [0x20AC]) (lit ''complete'') (tc_user_text d)"
    "describes (tc_content_revision d) (lit ''assistant_final_text'') 12000 None (lit ''absent'') (tc_assistant_final_text d)"
    by blast
  then show ?thesis by (intro exI[of _ d]) (simp add: describes_def byte_size_def utf8_char_def)
qed

theorem persisted_projection_agrees_witness:
  "\<exists>pj. project_turn_content (lit ''t'') (Some (lit ''hello'')) None None None 3 2 = Inr pj
    \<and> project_persisted_turn_content (tc_content_revision (pj_content pj))
        (persisted_field_of (Some (lit ''hello'')) (lit ''complete'') 3 2)
        (persisted_field_of None (lit ''absent'') 3 2) 3 2 = Inr pj"
proof -
  have s: "inferred_content_state (Some (lit ''hello'')) None = Inr (lit ''complete'')" "inferred_content_state None None = Inr (lit ''absent'')"
    by (simp_all add: inferred_content_state_def validate_content_state_def)
  show ?thesis by (rule persisted_projection_agrees[OF _ _ _ _ _ s]) (simp_all add: lit_def)
qed

theorem empty_complete_text_projections_witness:
  "\<exists>d. content_field_descriptor (lit ''r'') (lit ''user_text'') (Some []) (lit ''complete'') 12000 = Inr d \<and> fd_inline d
    \<and> project_persisted_field (lit ''r'') (lit ''user_text'') 12000 1000
        ((persisted_field_of (Some []) (lit ''complete'') 12000 1000)\<lparr>pf_inline := Some []\<rparr>)
      = Inl InvalidPersistedDescriptor"
proof -
  obtain d where d: "content_field_descriptor (lit ''r'') (lit ''user_text'') (Some []) (lit ''complete'') 12000 = Inr d"
    by (rule content_field_descriptor_total[of "lit ''complete''" "Some []" "lit ''r''" "lit ''user_text''" 12000])
      (simp_all add: validate_content_state_def validate_content_field_def)
  with empty_complete_text_projections[OF d, of 1000] show ?thesis by simp
qed

end
