(* ===== verification/CommandRequests.thy ===== *)
theory CommandRequests
  imports Tokens InstructionText
begin

text \<open>
  The neutral command contract of \<open>core/commands.py\<close>: parsing and validating a request,
  the canonical identity of a mutation, the proof of its selector, and the resolution of
  its target.  A request keeps the JSON values it was built from, because validation is
  about their types.
\<close>

section \<open>Python text of a value\<close>

text \<open>
  Two tables of Python's own are arguments: the \<open>str()\<close> of a float or a container
  (nothing is asked of it), and the digit property of the Unicode database, which
  \<open>str.isdigit\<close> and \<open>int\<close> read.
\<close>

datatype digit = NotDigit | DigitOnly | Decimal nat

record python_text =
  repr_of :: "json \<Rightarrow> ustr"
  digit_of :: "nat \<Rightarrow> digit"

fun py_str :: "python_text \<Rightarrow> json \<Rightarrow> ustr" where
  "py_str P JNull = lit ''None''"
| "py_str P (JBool b) = (if b then lit ''True'' else lit ''False'')"
| "py_str P (JInt i) = show_int i"
| "py_str P (JStr s) = s"
| "py_str P v = repr_of P v"

definition string_value :: "python_text \<Rightarrow> json \<Rightarrow> ustr" where
  "string_value P v = (if v = JNull then [] else py_str P v)"

definition optional_string :: "python_text \<Rightarrow> json \<Rightarrow> ustr option" where
  "optional_string P v = (if v = JNull then None else Some (py_str P v))"

definition py_isdigit :: "python_text \<Rightarrow> ustr \<Rightarrow> bool" where
  "py_isdigit P s \<longleftrightarrow> s \<noteq> [] \<and> list_all (\<lambda>c. digit_of P c \<noteq> NotDigit) s"

text \<open>\<open>int(s)\<close> of a string of digits: only decimal digits have a value.\<close>

fun py_int :: "python_text \<Rightarrow> nat \<Rightarrow> ustr \<Rightarrow> nat option" where
  "py_int P a [] = Some a"
| "py_int P a (c # s) = (case digit_of P c of Decimal d \<Rightarrow> py_int P (10 * a + d) s | _ \<Rightarrow> None)"

text \<open>Python truth of a JSON value, denied.\<close>

fun falsy :: "json \<Rightarrow> bool" where
  "falsy JNull \<longleftrightarrow> True"
| "falsy (JBool b) \<longleftrightarrow> \<not> b"
| "falsy (JInt i) \<longleftrightarrow> i = 0"
| "falsy (JFloat m e) \<longleftrightarrow> m = 0"
| "falsy (JStr s) \<longleftrightarrow> s = []"
| "falsy (JList xs) \<longleftrightarrow> xs = []"
| "falsy (JDict ps) \<longleftrightarrow> ps = []"
| "falsy _ \<longleftrightarrow> False"

section \<open>Requests\<close>

type_synonym members = "(ustr \<times> json) list"

record command_request =
  rq_action :: ustr
  rq_schema_version :: json
  rq_request_id :: json
  rq_dry_run :: json
  rq_target :: "members option"
  rq_instruction :: "members option"
  rq_params :: "members option"
  rq_response_schema_version :: json

definition clean_mapping :: "json \<Rightarrow> members option" where
  "clean_mapping v = (case v of JNull \<Rightarrow> None | JDict d \<Rightarrow> Some d | _ \<Rightarrow> Some [])"

definition get_default :: "members \<Rightarrow> string \<Rightarrow> json \<Rightarrow> json" where
  "get_default d k v = (case map_of d (lit k) of None \<Rightarrow> v | Some w \<Rightarrow> w)"

definition request_from_dict :: "python_text \<Rightarrow> members \<Rightarrow> command_request" where
  "request_from_dict P d =
     \<lparr>rq_action = string_value P (get_default d ''action'' (JStr [])),
      rq_schema_version = get_default d ''schema_version'' (JInt 1),
      rq_request_id = member d ''request_id'',
      rq_dry_run = get_default d ''dry_run'' (JBool True),
      rq_target = clean_mapping (member d ''target''),
      rq_instruction = clean_mapping (member d ''instruction''),
      rq_params = clean_mapping (member d ''params''),
      rq_response_schema_version = get_default d ''response_schema_version'' (JInt 2)\<rparr>"

definition json_members :: "members option \<Rightarrow> json" where
  "json_members d = (case d of None \<Rightarrow> JNull | Some ps \<Rightarrow> JDict ps)"

definition request_to_dict :: "command_request \<Rightarrow> members" where
  "request_to_dict r =
     [(lit ''schema_version'', rq_schema_version r), (lit ''action'', JStr (rq_action r)),
      (lit ''request_id'', rq_request_id r), (lit ''dry_run'', rq_dry_run r),
      (lit ''target'', json_members (rq_target r)), (lit ''instruction'', json_members (rq_instruction r)),
      (lit ''params'', json_members (rq_params r))]
     @ (if json_eq_int (rq_response_schema_version r) 2 then []
        else [(lit ''response_schema_version'', rq_response_schema_version r)])"

section \<open>Errors\<close>

text \<open>One per branch; the messages and details are not kept, the status is.\<close>

datatype request_error =
    InvalidJson
  | RequestNotObject
  | ForbiddenFields "ustr list"
  | UnknownFields "ustr list"
  | SchemaVersion
  | ActionRequired
  | DryRunNotBoolean
  | ResponseSchemaVersion
  | UnknownAction ustr
  | RequestIdRequired
  | TargetFields "ustr list"
  | TargetNeedsSelector
  | InstructionFields "ustr list"
  | InstructionText text_error
  | SendNeedsTarget
  | SendNeedsSelector
  | SendNeedsText
  | PendingTakesNoTarget
  | PendingTakesNoInstruction
  | PendingNeedsParams
  | PendingParams
  | PendingParamBlank ustr
  | DecisionTarget
  | DecisionWorkerBlank
  | DecisionTakesNoInstruction
  | DecisionParams
  | DecisionRefBlank
  | SelectionCount
  | SelectionOptionRefs
  | SelectionText
  | SelectionForm

section \<open>Forbidden fields\<close>

definition is_forbidden_request_field :: "ustr \<Rightarrow> bool" where
  "is_forbidden_request_field key \<longleftrightarrow>
     normalized_name key \<in> set (map lit forbidden_field_names)
     \<or> compact_name (normalized_name key) \<in> set (map (\<lambda>s. compact_name (lit s)) forbidden_field_names)"

lemma in_enumerate: "(i, x) \<in> set (enumerate n xs) \<Longrightarrow> x \<in> set xs"
  by (auto simp: in_set_enumerate_eq)

lemma in_enumerate_size [termination_simp]:
  assumes "(i, x) \<in> set (enumerate n xs)"
  shows "size x < Suc (size_list size xs)"
  using size_list_estimation'[OF in_enumerate[OF assms] order_refl, of size] by simp

lemma all_enumerate: "(\<forall>ix \<in> set (enumerate n xs). p (snd ix)) \<longleftrightarrow> (\<forall>x \<in> set xs. p x)"
  by (induction xs arbitrary: n) auto

fun find_forbidden_fields :: "json \<Rightarrow> ustr \<Rightarrow> ustr list" where
  "find_forbidden_fields (JDict ps) path =
     concat (map (\<lambda>kv. let p = path @ 46 # fst kv in
       (if is_forbidden_request_field (fst kv) then [p] else []) @ find_forbidden_fields (snd kv) p) ps)"
| "find_forbidden_fields (JList xs) path =
     concat (map (\<lambda>ix. find_forbidden_fields (snd ix) (path @ 91 # show_nat (fst ix) @ [93])) (enumerate 0 xs))"
| "find_forbidden_fields v path = []"

lemma is_forbidden_request_field: "is_forbidden_request_field key = is_forbidden_field_name key"
  by (simp add: is_forbidden_request_field_def is_forbidden_field_name_def Let_def)

lemma find_forbidden_fields_none: "find_forbidden_fields v p = [] \<longleftrightarrow> field_clean v"
proof (induction v p rule: find_forbidden_fields.induct)
  case (2 xs p)
  then show ?case using all_enumerate[of 0 xs field_clean] by (auto simp: list_all_iff)
qed (auto simp: Let_def list_all_iff is_forbidden_request_field)

section \<open>Validation\<close>

definition stable_selector_fields :: "string list" where
  "stable_selector_fields = [''worker_id'', ''space_id'', ''name'']"

definition target_allowed_fields :: "string list" where
  "target_allowed_fields = [''worker_id'', ''worker_fingerprint'', ''space_id'', ''name'']"

definition extra_fields :: "string list \<Rightarrow> members \<Rightarrow> ustr list" where
  "extra_fields allowed d = sort (filter (\<lambda>k. k \<notin> set (map lit allowed)) (map fst d))"

definition target_has_stable_selector :: "python_text \<Rightarrow> members option \<Rightarrow> bool" where
  "target_has_stable_selector P target =
     (case target of None \<Rightarrow> False
      | Some d \<Rightarrow> list_ex (\<lambda>k. string_value P (member d k) \<noteq> []) stable_selector_fields)"

definition validate_target_shape :: "python_text \<Rightarrow> members option \<Rightarrow> request_error option" where
  "validate_target_shape P target =
     (case target of None \<Rightarrow> None
      | Some d \<Rightarrow>
          if extra_fields target_allowed_fields d \<noteq> []
          then Some (TargetFields (extra_fields target_allowed_fields d))
          else if string_value P (member d ''worker_fingerprint'') \<noteq> [] \<and> \<not> target_has_stable_selector P target
          then Some TargetNeedsSelector
          else None)"

definition instruction_text_of :: "json \<Rightarrow> ustr option option" where
  "instruction_text_of v = (case v of JNull \<Rightarrow> None | JStr s \<Rightarrow> Some (Some s) | _ \<Rightarrow> Some None)"

definition validate_instruction_shape :: "members option \<Rightarrow> request_error option" where
  "validate_instruction_shape instruction =
     (case instruction of None \<Rightarrow> None
      | Some d \<Rightarrow>
          if extra_fields [''text''] d \<noteq> [] then Some (InstructionFields (extra_fields [''text''] d))
          else map_option InstructionText (validate_instruction_text (instruction_text_of (member d ''text''))))"

definition allowed_actions :: "string list" where
  "allowed_actions =
     [''noop'', ''read_snapshot'', ''resolve_target'', ''send_instruction'', ''answer_pending'', ''answer_decision'']"

definition mutating_actions :: "string list" where
  "mutating_actions = [''send_instruction'', ''answer_pending'', ''answer_decision'']"

definition pending_param_fields :: "string list" where
  "pending_param_fields = [''choice_id'', ''pending_fingerprint'', ''pending_id'']"

definition nonblank :: "json \<Rightarrow> bool" where
  "nonblank v = (case v of JStr s \<Rightarrow> py_strip s \<noteq> [] | _ \<Rightarrow> False)"

definition valid_request_id :: "json \<Rightarrow> bool" where
  "valid_request_id v = (case v of JStr s \<Rightarrow> is_valid_request_id s | _ \<Rightarrow> False)"

text \<open>The action-specific checks, each a block of \<open>validate_request\<close>.\<close>

definition validate_send :: "python_text \<Rightarrow> command_request \<Rightarrow> request_error option" where
  "validate_send P r =
     (if rq_target r = None then Some SendNeedsTarget
      else if \<not> target_has_stable_selector P (rq_target r) then Some SendNeedsSelector
      else case rq_instruction r of
        None \<Rightarrow> Some SendNeedsText
      | Some d \<Rightarrow> if string_value P (member d ''text'') = [] then Some SendNeedsText else None)"

definition validate_pending :: "command_request \<Rightarrow> request_error option" where
  "validate_pending r =
     (if rq_target r \<noteq> None then Some PendingTakesNoTarget
      else if rq_instruction r \<noteq> None then Some PendingTakesNoInstruction
      else case rq_params r of
        None \<Rightarrow> Some PendingNeedsParams
      | Some d \<Rightarrow>
          if \<not> has_members d pending_param_fields then Some PendingParams
          else case List.find (\<lambda>k. \<not> nonblank (member d k)) pending_param_fields of
            Some k \<Rightarrow> Some (PendingParamBlank (lit k))
          | None \<Rightarrow> None)"

definition validate_selection :: "json \<Rightarrow> request_error option" where
  "validate_selection selection =
     (case selection of
        JDict [(k, v)] \<Rightarrow>
          if k = lit ''option_refs''
          then (case v of
              JList refs \<Rightarrow> if refs = [] \<or> list_ex (\<lambda>x. \<not> nonblank x) refs then Some SelectionOptionRefs else None
            | _ \<Rightarrow> Some SelectionOptionRefs)
          else if k = lit ''text''
          then (if validate_instruction_text (instruction_text_of v) = None then None else Some SelectionText)
          else Some SelectionForm
      | _ \<Rightarrow> Some SelectionCount)"

definition validate_decision :: "command_request \<Rightarrow> request_error option" where
  "validate_decision r =
     (case rq_target r of
        None \<Rightarrow> Some DecisionTarget
      | Some t \<Rightarrow>
          if \<not> has_members t [''worker_id''] then Some DecisionTarget
          else if \<not> nonblank (member t ''worker_id'') then Some DecisionWorkerBlank
          else if rq_instruction r \<noteq> None then Some DecisionTakesNoInstruction
          else case rq_params r of
            None \<Rightarrow> Some DecisionParams
          | Some d \<Rightarrow>
              if \<not> has_members d [''decision_ref'', ''selection''] then Some DecisionParams
              else if \<not> nonblank (member d ''decision_ref'') then Some DecisionRefBlank
              else validate_selection (member d ''selection''))"

definition first_error :: "request_error option list \<Rightarrow> request_error option" where
  "first_error es = (case dropWhile (\<lambda>e. e = None) es of [] \<Rightarrow> None | e # _ \<Rightarrow> e)"

definition check :: "bool \<Rightarrow> request_error \<Rightarrow> request_error option" where
  "check ok e = (if ok then None else Some e)"

definition validate_request :: "python_text \<Rightarrow> command_request \<Rightarrow> request_error option" where
  "validate_request P r =
     (let mutating = rq_action r \<in> set (map lit mutating_actions);
          forbidden = find_forbidden_fields (JDict (request_to_dict r)) (lit ''$'') in
      first_error
       [check (json_int (rq_schema_version r) = Some 1) SchemaVersion,
        check (rq_action r \<noteq> []) ActionRequired,
        check (case rq_dry_run r of JBool _ \<Rightarrow> True | _ \<Rightarrow> False) DryRunNotBoolean,
        check (json_int (rq_response_schema_version r) \<in> {Some 2, Some 3}) ResponseSchemaVersion,
        check (rq_action r \<in> set (map lit allowed_actions)) (UnknownAction (rq_action r)),
        check (mutating \<and> rq_dry_run r = JBool False \<longrightarrow> valid_request_id (rq_request_id r)) RequestIdRequired,
        check (forbidden = []) (ForbiddenFields forbidden),
        validate_target_shape P (rq_target r),
        validate_instruction_shape (rq_instruction r),
        (if rq_action r = lit ''send_instruction'' then validate_send P r else None),
        (if rq_action r = lit ''answer_pending'' then validate_pending r else None),
        (if rq_action r = lit ''answer_decision'' then validate_decision r else None)])"

section \<open>Parsing\<close>

definition request_allowed_fields :: "string list" where
  "request_allowed_fields =
     [''schema_version'', ''action'', ''request_id'', ''dry_run'', ''target'', ''instruction'', ''params'',
      ''response_schema_version'']"

definition parse_command_request ::
  "python_text \<Rightarrow> ustr \<Rightarrow> command_request option \<times> request_error option" where
  "parse_command_request P payload =
     (case json_loads payload of
        None \<Rightarrow> (None, Some InvalidJson)
      | Some (JDict d) \<Rightarrow>
          (let forbidden = find_forbidden_fields (JDict d) (lit ''$'');
               unknown = extra_fields request_allowed_fields d;
               has = (\<lambda>k. map_of d (lit k) \<noteq> None) in
           if forbidden \<noteq> []
           then (if list_ex (\<lambda>kv. is_forbidden_request_field (fst kv)) d then None
                 else Some (request_from_dict P d), Some (ForbiddenFields forbidden))
           else if unknown \<noteq> [] then (None, Some (UnknownFields unknown))
           else if json_int (member d ''schema_version'') \<noteq> Some 1 then (None, Some SchemaVersion)
           else if has ''dry_run'' \<and> \<not> (case member d ''dry_run'' of JBool _ \<Rightarrow> True | _ \<Rightarrow> False)
           then (None, Some DryRunNotBoolean)
           else if has ''response_schema_version''
             \<and> json_int (member d ''response_schema_version'') \<notin> {Some 2, Some 3}
           then (None, Some ResponseSchemaVersion)
           else (Some (request_from_dict P d), None))
      | Some _ \<Rightarrow> (None, Some RequestNotObject))"


section \<open>Canonical mutations\<close>

record canonical_mutation =
  cn_version :: int
  cn_action :: ustr
  cn_public_worker_id :: ustr
  cn_canonical_json :: ustr
  cn_fingerprint :: ustr

definition encodable :: "ustr \<Rightarrow> nat list result" where
  "encodable s = (if unicode_text s then Inr (utf8_encode s) else Inl ValueError)"

definition stable_fingerprint :: "json \<Rightarrow> ustr result" where
  "stable_fingerprint v =
     bind_result (encodable (stable_json_dumps v)) (\<lambda>b. Inr (take 24 (sha256_hex b)))"

text \<open>\<open>sorted(refs, key=int \<dots>)\<close>; \<open>int\<close> raises on digits that are not decimal.\<close>

definition ref_key :: "python_text \<Rightarrow> ustr \<Rightarrow> int option" where
  "ref_key P ref = (if py_isdigit P ref then map_option int (py_int P 0 ref) else Some (- 1))"

definition sorted_refs :: "python_text \<Rightarrow> ustr list \<Rightarrow> ustr list result" where
  "sorted_refs P refs =
     (if list_ex (\<lambda>ref. ref_key P ref = None) refs then Inl ValueError
      else Inr (sort_key (\<lambda>ref. the (ref_key P ref)) refs))"

definition json_texts :: "json \<Rightarrow> ustr list" where
  "json_texts v = (case v of JList xs \<Rightarrow> List.map_filter json_str xs | _ \<Rightarrow> [])"

definition canonical_selection :: "python_text \<Rightarrow> json \<Rightarrow> members result" where
  "canonical_selection P selection =
     (case selection of
        JDict d \<Rightarrow>
          if map_of d (lit ''option_refs'') \<noteq> None
          then bind_result (sorted_refs P (json_texts (member d ''option_refs'')))
            (\<lambda>refs. Inr [(lit ''option_refs'', JList (map JStr refs))])
          else Inr [(lit ''text'', member d ''text'')]
      | _ \<Rightarrow> Inl TypeError)"

definition the_members :: "members option \<Rightarrow> members" where
  "the_members d = (case d of None \<Rightarrow> [] | Some ps \<Rightarrow> ps)"

definition canonical_payload :: "python_text \<Rightarrow> command_request \<Rightarrow> ustr \<Rightarrow> members result" where
  "canonical_payload P r worker =
     (let params = the_members (rq_params r);
          worker_target = (lit ''target'', JDict [(lit ''worker_id'', JStr worker)]);
          options = (lit ''options'', JDict []);
          version = (lit ''canonical_version'', JInt 1);
          action = (lit ''action'', JStr (rq_action r)) in
      if rq_action r = lit ''send_instruction''
      then Inr [version, action, worker_target,
        (lit ''instruction'', JDict [(lit ''text'', member (the_members (rq_instruction r)) ''text'')]), options]
      else if rq_action r = lit ''answer_pending''
      then Inr [version, action, worker_target,
        (lit ''pending'', JDict [(lit ''pending_id'', member params ''pending_id''),
           (lit ''pending_fingerprint'', member params ''pending_fingerprint''),
           (lit ''choice_id'', member params ''choice_id'')]), options]
      else bind_result (canonical_selection P (member params ''selection'')) (\<lambda>selection.
        Inr [version, action, worker_target,
          (lit ''decision'', JDict [(lit ''decision_ref'', member params ''decision_ref''),
             (lit ''selection'', JDict selection)]), options]))"

definition live_mutation_check :: "python_text \<Rightarrow> command_request \<Rightarrow> unit result" where
  "live_mutation_check P r =
     (if rq_action r \<notin> set (map lit mutating_actions) \<or> rq_dry_run r \<noteq> JBool False
        \<or> validate_request P r \<noteq> None
      then Inl ValueError else Inr ())"

definition build_canonical_mutation ::
  "python_text \<Rightarrow> command_request \<Rightarrow> ustr \<Rightarrow> canonical_mutation result" where
  "build_canonical_mutation P r worker =
     bind_result (live_mutation_check P r) (\<lambda>_.
     if py_strip worker = [] then Inl ValueError else
     bind_result (canonical_payload P r worker) (\<lambda>payload.
     bind_result (stable_fingerprint (JDict payload)) (\<lambda>fingerprint.
       Inr \<lparr>cn_version = 1, cn_action = rq_action r, cn_public_worker_id = worker,
            cn_canonical_json = stable_json_dumps (JDict payload), cn_fingerprint = fingerprint\<rparr>)))"

section \<open>Selector proofs\<close>

definition selector_payload :: "python_text \<Rightarrow> command_request \<Rightarrow> members" where
  "selector_payload P r =
     [(lit ''proof_version'', JInt 1), (lit ''action'', JStr (rq_action r)),
      (lit ''selector'', JDict (case rq_target r of
          None \<Rightarrow> [(lit ''shape'', JStr (lit ''none''))]
        | Some t \<Rightarrow>
            [(lit ''shape'', JStr (lit ''target'')),
             (lit ''worker_id'', JStr (string_value P (member t ''worker_id''))),
             (lit ''name'', JStr (string_value P (member t ''name''))),
             (lit ''space_id'', (case optional_string P (member t ''space_id'') of None \<Rightarrow> JNull | Some s \<Rightarrow> JStr s))]))]"

definition build_selector_proof :: "python_text \<Rightarrow> command_request \<Rightarrow> ustr result" where
  "build_selector_proof P r =
     bind_result (live_mutation_check P r) (\<lambda>_.
     bind_result (encodable (json_dumps (JDict (selector_payload P r)))) (\<lambda>b.
       Inr (lit ''v1:'' @ sha256_hex (utf8_encode (lit ''tendwire.command-selector-proof.v1'') @ 0 # b))))"

section \<open>Resolving a target\<close>

record worker =
  wk_id :: ustr
  wk_name :: ustr
  wk_status :: ustr
  wk_space_id :: "ustr option"
  wk_meta :: members
  wk_summary :: "ustr option"
  wk_fingerprint :: ustr
  wk_backend_target :: "members option"

definition json_optional :: "ustr option \<Rightarrow> json" where
  "json_optional t = (case t of None \<Rightarrow> JNull | Some s \<Rightarrow> JStr s)"

definition worker_candidate :: "bool \<Rightarrow> worker \<Rightarrow> members" where
  "worker_candidate include_backend w =
     [(lit ''worker_id'', JStr (wk_id w)), (lit ''name'', JStr (wk_name w)),
      (lit ''space_id'', json_optional (wk_space_id w)), (lit ''status'', JStr (wk_status w)),
      (lit ''worker_fingerprint'', JStr (wk_fingerprint w))]
     @ (case wk_summary w of Some (c # s) \<Rightarrow> [(lit ''summary'', JStr (c # s))] | _ \<Rightarrow> [])
     @ (case wk_backend_target w of
          Some (kv # t) \<Rightarrow> if include_backend then [(lit ''backend_target'', JDict (kv # t))] else []
        | _ \<Rightarrow> [])"

datatype resolution = TargetResolved | TargetNotFound | TargetAmbiguous | TargetStale | TargetRejected

definition disallowed_worker_statuses :: "string list" where
  "disallowed_worker_statuses = [''closed'', ''failed'', ''unknown'']"

definition identity_match :: "python_text \<Rightarrow> members \<Rightarrow> worker \<Rightarrow> bool" where
  "identity_match P t w \<longleftrightarrow>
     (let worker_id = string_value P (member t ''worker_id''); name = string_value P (member t ''name'') in
      (worker_id = [] \<or> wk_id w = worker_id) \<and> (name = [] \<or> wk_name w = name)
      \<and> (case optional_string P (member t ''space_id'') of None \<Rightarrow> True | Some s \<Rightarrow> wk_space_id w = Some s))"

definition resolve_target ::
  "python_text \<Rightarrow> members option \<Rightarrow> worker list \<Rightarrow> bool \<Rightarrow> bool
     \<Rightarrow> members option \<times> members list \<times> resolution" where
  "resolve_target P target workers allow_disallowed include_backend =
     (case target of None \<Rightarrow> (None, [], TargetNotFound)
      | Some t \<Rightarrow>
          (let found = filter (identity_match P t) workers;
               fingerprint = optional_string P (member t ''worker_fingerprint'');
               candidates = (case fingerprint of None \<Rightarrow> found
                 | Some fp \<Rightarrow> filter (\<lambda>w. wk_fingerprint w = fp) found);
               described = map (worker_candidate include_backend) candidates in
           if fingerprint \<noteq> None \<and> found \<noteq> [] \<and> candidates = []
           then (None, map (worker_candidate False) found, if length found = 1 then TargetStale else TargetAmbiguous)
           else case candidates of
             [] \<Rightarrow> (None, [], TargetNotFound)
           | [w] \<Rightarrow>
               if \<not> allow_disallowed \<and> wk_status w \<in> set (map lit disallowed_worker_statuses)
               then (None, described, TargetRejected)
               else (Some (worker_candidate include_backend w), described, TargetResolved)
           | _ \<Rightarrow> (None, described, TargetAmbiguous)))"


section \<open>What a canonical mutation is about\<close>

datatype mutation_content =
    SendText ustr
  | PendingChoice ustr ustr ustr
  | DecisionOptions ustr "ustr list"
  | DecisionText ustr ustr

fun content_action :: "mutation_content \<Rightarrow> string" where
  "content_action (SendText t) = ''send_instruction''"
| "content_action (PendingChoice i f c) = ''answer_pending''"
| "content_action (DecisionOptions d rs) = ''answer_decision''"
| "content_action (DecisionText d t) = ''answer_decision''"

fun content_members :: "mutation_content \<Rightarrow> ustr \<times> json" where
  "content_members (SendText t) = (lit ''instruction'', JDict [(lit ''text'', JStr t)])"
| "content_members (PendingChoice i f c) =
     (lit ''pending'', JDict [(lit ''pending_id'', JStr i), (lit ''pending_fingerprint'', JStr f), (lit ''choice_id'', JStr c)])"
| "content_members (DecisionOptions d rs) =
     (lit ''decision'', JDict [(lit ''decision_ref'', JStr d), (lit ''selection'', JDict [(lit ''option_refs'', JList (map JStr rs))])])"
| "content_members (DecisionText d t) =
     (lit ''decision'', JDict [(lit ''decision_ref'', JStr d), (lit ''selection'', JDict [(lit ''text'', JStr t)])])"

definition content_payload :: "mutation_content \<Rightarrow> ustr \<Rightarrow> members" where
  "content_payload c worker =
     [(lit ''canonical_version'', JInt 1), (lit ''action'', JStr (lit (content_action c))),
      (lit ''target'', JDict [(lit ''worker_id'', JStr worker)]), content_members c, (lit ''options'', JDict [])]"

definition text_of :: "json \<Rightarrow> ustr" where
  "text_of v = (case v of JStr s \<Rightarrow> s | _ \<Rightarrow> [])"

text \<open>The content of a validated live mutation, its option references as the caller ordered them.\<close>

definition mutation_content :: "command_request \<Rightarrow> mutation_content" where
  "mutation_content r =
     (let params = the_members (rq_params r); ref = text_of (member params ''decision_ref'') in
      if rq_action r = lit ''send_instruction''
      then SendText (text_of (member (the_members (rq_instruction r)) ''text''))
      else if rq_action r = lit ''answer_pending''
      then PendingChoice (text_of (member params ''pending_id'')) (text_of (member params ''pending_fingerprint''))
        (text_of (member params ''choice_id''))
      else case member params ''selection'' of
        JDict d \<Rightarrow>
          (if map_of d (lit ''option_refs'') \<noteq> None then DecisionOptions ref (json_texts (member d ''option_refs''))
           else DecisionText ref (text_of (member d ''text'')))
      | _ \<Rightarrow> DecisionText ref [])"

fun canonical_content :: "python_text \<Rightarrow> mutation_content \<Rightarrow> mutation_content result" where
  "canonical_content P (DecisionOptions d rs) = bind_result (sorted_refs P rs) (\<lambda>qs. Inr (DecisionOptions d qs))"
| "canonical_content P c = Inr c"

lemma first_error_None: "first_error es = None \<longleftrightarrow> list_all (\<lambda>e. e = None) es"
  by (induction es) (auto simp: first_error_def)

lemma check_None [simp]: "check ok e = None \<longleftrightarrow> ok"
  by (simp add: check_def)

lemma validate_request_None:
  "validate_request P r = None \<longleftrightarrow>
     json_int (rq_schema_version r) = Some 1 \<and> rq_action r \<noteq> [] \<and> (\<exists>b. rq_dry_run r = JBool b)
     \<and> json_int (rq_response_schema_version r) \<in> {Some 2, Some 3} \<and> rq_action r \<in> set (map lit allowed_actions)
     \<and> (rq_action r \<in> set (map lit mutating_actions) \<and> rq_dry_run r = JBool False \<longrightarrow> valid_request_id (rq_request_id r))
     \<and> field_clean (JDict (request_to_dict r)) \<and> validate_target_shape P (rq_target r) = None
     \<and> validate_instruction_shape (rq_instruction r) = None
     \<and> (rq_action r = lit ''send_instruction'' \<longrightarrow> validate_send P r = None)
     \<and> (rq_action r = lit ''answer_pending'' \<longrightarrow> validate_pending r = None)
     \<and> (rq_action r = lit ''answer_decision'' \<longrightarrow> validate_decision r = None)"
  unfolding validate_request_def Let_def first_error_None
  by (simp only: list.pred_inject check_None find_forbidden_fields_none) (auto split: json.splits)

lemma live_mutation_check: "live_mutation_check P r = Inr u \<longleftrightarrow>
    rq_action r \<in> set (map lit mutating_actions) \<and> rq_dry_run r = JBool False \<and> validate_request P r = None"
  by (simp add: live_mutation_check_def)

lemma nonblank_text: "nonblank v \<longleftrightarrow> v = JStr (text_of v) \<and> py_strip (text_of v) \<noteq> []"
  by (auto simp: nonblank_def text_of_def split: json.splits)

lemma valid_text: "validate_instruction_text (instruction_text_of v) = None \<longleftrightarrow> v = JStr (text_of v) \<and> valid_instruction (text_of v)"
  by (cases v) (auto simp: instruction_text_of_def text_of_def validate_instruction_text_def)

lemma selection_shape:
  assumes "validate_selection v = None"
  obtains refs where "v = JDict [(lit ''option_refs'', JList (map JStr refs))]" "refs \<noteq> []" "\<forall>x \<in> set refs. py_strip x \<noteq> []"
  | t where "v = JDict [(lit ''text'', JStr t)]" "valid_instruction t"
proof -
  obtain k w where v: "v = JDict [(k, w)]"
    using assms by (auto simp: validate_selection_def split: json.splits list.splits)
  consider (refs) xs where "k = lit ''option_refs''" "w = JList xs" "xs \<noteq> []" "\<forall>x \<in> set xs. nonblank x"
    | (typed) "k = lit ''text''" "validate_instruction_text (instruction_text_of w) = None"
    using assms unfolding v by (auto simp: validate_selection_def list_ex_iff split: json.splits if_splits)
  then show thesis
  proof cases
    case refs
    have "xs = map JStr (map text_of xs)" using refs(4) by (auto simp: nonblank_text intro!: map_idI[symmetric])
    then show thesis using refs that(1)[of "map text_of xs"] v by (auto simp: nonblank_text)
  next
    case typed
    then show thesis using that(2)[of "text_of w"] v by (auto simp: valid_text)
  qed
qed


lemma instruction_member:
  assumes "validate_request P r = None" "rq_action r = lit ''send_instruction''"
  obtains d where "rq_instruction r = Some d" "member d ''text'' = JStr (text_of (member d ''text''))"
    "valid_instruction (text_of (member d ''text''))"
proof -
  have v: "validate_send P r = None" "validate_instruction_shape (rq_instruction r) = None"
    using assms by (auto simp: validate_request_None)
  obtain d where d: "rq_instruction r = Some d"
    using v(1) by (auto simp: validate_send_def split: if_splits option.splits)
  have "validate_instruction_text (instruction_text_of (member d ''text'')) = None"
    using v(2) by (auto simp: d validate_instruction_shape_def split: if_splits)
  then show thesis using d that by (auto simp: valid_text)
qed

lemma pending_members:
  assumes "validate_request P r = None" "rq_action r = lit ''answer_pending''"
  shows "rq_target r = None" "rq_instruction r = None"
    and "\<forall>k \<in> set pending_param_fields. nonblank (member (the_members (rq_params r)) k)"
    and "has_members (the_members (rq_params r)) pending_param_fields"
proof -
  have v: "validate_pending r = None" using assms by (auto simp: validate_request_None)
  then show "rq_target r = None" "rq_instruction r = None" by (auto simp: validate_pending_def split: if_splits)
  obtain d where d: "rq_params r = Some d" "has_members d pending_param_fields"
      "List.find (\<lambda>k. \<not> nonblank (member d k)) pending_param_fields = None"
    using v by (auto simp: validate_pending_def split: if_splits option.splits)
  show "\<forall>k \<in> set pending_param_fields. nonblank (member (the_members (rq_params r)) k)"
    "has_members (the_members (rq_params r)) pending_param_fields"
    using d by (auto simp: the_members_def find_None_iff)
qed

lemma decision_members:
  assumes "validate_request P r = None" "rq_action r = lit ''answer_decision''"
  obtains t d where "rq_target r = Some t" "has_members t [''worker_id'']" "nonblank (member t ''worker_id'')"
    "rq_instruction r = None" "rq_params r = Some d" "has_members d [''decision_ref'', ''selection'']"
    "nonblank (member d ''decision_ref'')" "validate_selection (member d ''selection'') = None"
proof -
  have v: "validate_decision r = None" using assms by (auto simp: validate_request_None)
  then obtain t where "rq_target r = Some t" by (auto simp: validate_decision_def split: option.splits)
  with v that show thesis by (auto simp: validate_decision_def split: if_splits option.splits)
qed

lemma mutating_cases:
  assumes "a \<in> set (map lit mutating_actions)"
  obtains "a = lit ''send_instruction''" | "a = lit ''answer_pending''" | "a = lit ''answer_decision''"
  using assms by (auto simp: mutating_actions_def)

lemma text_of_JStr [simp]: "text_of (JStr t) = t"
  by (simp add: text_of_def)

lemma content_action_of:
  assumes "rq_action r \<in> set (map lit mutating_actions)"
  shows "rq_action r = lit (content_action (mutation_content r))"
  using assms by (cases rule: mutating_cases) (auto simp: mutation_content_def Let_def split: json.split)

lemma json_texts_of [simp]: "json_texts (JList (map JStr xs)) = xs"
  by (induction xs) (simp_all add: json_texts_def List.map_filter_simps)

lemma canonical_payload:
  assumes "live_mutation_check P r = Inr u"
  shows "canonical_payload P r worker =
     bind_result (canonical_content P (mutation_content r)) (\<lambda>c. Inr (content_payload c worker))"
proof -
  note v = assms[unfolded live_mutation_check]
  from v have "rq_action r \<in> set (map lit mutating_actions)" by blast
  then show ?thesis
  proof (cases rule: mutating_cases)
    case 1
    obtain d where d: "rq_instruction r = Some d" "member d ''text'' = JStr (text_of (member d ''text''))"
      using instruction_member[of P r] v 1 by metis
    then show ?thesis using 1
      by (simp add: canonical_payload_def mutation_content_def content_payload_def the_members_def)
  next
    case 2
    have "\<forall>k \<in> set pending_param_fields. member (the_members (rq_params r)) k = JStr (text_of (member (the_members (rq_params r)) k))"
      using pending_members[of P r] v 2 by (auto simp: nonblank_text)
    then show ?thesis using 2
      by (simp add: canonical_payload_def mutation_content_def content_payload_def pending_param_fields_def Let_def)
  next
    case 3
    obtain d where d: "rq_params r = Some d" "nonblank (member d ''decision_ref'')"
        "validate_selection (member d ''selection'') = None"
      using decision_members[of P r] v 3 by metis
    have ref: "member d ''decision_ref'' = JStr (text_of (member d ''decision_ref''))"
      using d(2) by (simp add: nonblank_text)
    from d(3) show ?thesis
    proof (cases rule: selection_shape)
      case (1 refs)
      have m: "member [(lit ''option_refs'', x)] ''option_refs'' = x" for x by (simp add: member_def dict_get_def)
      show ?thesis using 3 d(1) ref 1(1)
        by (cases "sorted_refs P refs")
          (simp_all add: canonical_payload_def mutation_content_def content_payload_def the_members_def
            canonical_selection_def m)
    next
      case (2 t)
      have m: "member [(lit ''text'', x)] ''text'' = x" for x by (simp add: member_def dict_get_def)
      show ?thesis using 3 d(1) ref 2(1)
        by (simp add: canonical_payload_def mutation_content_def content_payload_def the_members_def
            canonical_selection_def m)
    qed
  qed
qed

text \<open>Its names are allowed, so nothing is dropped from it.\<close>

lemma names_allowed:
  assumes "list_all plain_name ns" "list_all (\<lambda>s. s \<notin> set forbidden_field_names) ns"
    "let compact = map (filter (\<lambda>c. c \<noteq> CHR ''_'')) forbidden_field_names
     in list_all (\<lambda>s. filter (\<lambda>c. c \<noteq> CHR ''_'') s \<notin> set compact) ns"
  shows "list_all (\<lambda>s. \<not> is_forbidden_field_name (lit s)) ns"
  using assms allowed_name unfolding Let_def list_all_iff by blast

definition canonical_names :: "string list" where
  "canonical_names =
     [''canonical_version'', ''action'', ''target'', ''worker_id'', ''instruction'', ''text'', ''pending'',
      ''pending_id'', ''pending_fingerprint'', ''choice_id'', ''decision'', ''decision_ref'', ''selection'',
      ''option_refs'', ''options'']"

lemma canonical_names_plain: "list_all plain_name canonical_names"
  by (simp add: canonical_names_def plain_name_def)

lemma canonical_names_other: "list_all (\<lambda>s. s \<notin> set forbidden_field_names) canonical_names"
  by (simp add: canonical_names_def forbidden_field_names_def)

lemma canonical_names_compact:
  "let compact = map (filter (\<lambda>c. c \<noteq> CHR ''_'')) forbidden_field_names
     in list_all (\<lambda>s. filter (\<lambda>c. c \<noteq> CHR ''_'') s \<notin> set compact) canonical_names"
  by (simp add: canonical_names_def forbidden_field_names_def Let_def)

lemmas canonical_names = names_allowed[OF canonical_names_plain canonical_names_other canonical_names_compact]

lemma content_payload_plain:
  "json_plain (JDict (content_payload c w))" "field_clean (JDict (content_payload c w))"
proof -
  show "json_plain (JDict (content_payload c w))"
    by (cases c) (simp_all add: content_payload_def list_all_iff)
  show "field_clean (JDict (content_payload c w))"
    using canonical_names by (cases c) (simp_all add: canonical_names_def content_payload_def list_all_iff)
qed


text \<open>A member deep in a value survives the sorting of keys, so equal texts agree on every path.\<close>

fun path :: "json \<Rightarrow> string list \<Rightarrow> json option" where
  "path v [] = Some v"
| "path (JDict ps) (k # ks) = (case map_of ps (lit k) of None \<Rightarrow> None | Some v \<Rightarrow> path v ks)"
| "path v (k # ks) = None"

lemma map_of_sort_keys:
  assumes "distinct (map fst ps)"
  shows "map_of (sort_key fst (map (\<lambda>kv. (fst kv, f (snd kv))) ps)) k = map_option f (map_of ps k)"
proof -
  let ?qs = "map (\<lambda>kv. (fst kv, f (snd kv))) ps"
  have "distinct (map fst ?qs)" using assms by (simp add: comp_def)
  then have "map_of (sort_key fst ?qs) = map_of ?qs"
    by (subst map_of_inject_set) (simp_all add: distinct_map inj_on_def, fastforce)
  moreover have "map_of ?qs k = map_option f (map_of ps k)" by (induction ps) auto
  ultimately show ?thesis by simp
qed

lemma path_sort_keys: "json_plain v \<Longrightarrow> path (sort_keys v) ks = map_option sort_keys (path v ks)"
proof (induction v ks rule: path.induct)
  case (2 ps k ks)
  have "json_plain v" if "map_of ps (lit k) = Some v" for v
    using 2(2) map_of_SomeD[OF that] by (auto simp: list_all_iff)
  moreover have "distinct (map fst ps)" using 2(2) by simp
  ultimately show ?case using 2(1)
    by (cases "map_of ps (lit k)") (simp_all add: map_of_sort_keys)
qed simp_all

lemma same_dumps_paths:
  assumes "json_dumps v = json_dumps w" "json_plain v" "json_plain w"
  shows "map_option sort_keys (path v ks) = map_option sort_keys (path w ks)"
proof -
  have "sort_keys v = sort_keys w"
    using json_loads_dumps[OF assms(2)] json_loads_dumps[OF assms(3)] assms(1) by simp
  then show ?thesis using path_sort_keys[OF assms(2)] path_sort_keys[OF assms(3)] by metis
qed

lemma content_paths:
  "path (JDict (content_payload c w)) [''target'', ''worker_id''] = Some (JStr w)"
  "path (JDict (content_payload c w)) [''instruction'', ''text'']
     = (case c of SendText t \<Rightarrow> Some (JStr t) | _ \<Rightarrow> None)"
  "path (JDict (content_payload c w)) [''pending'', ''pending_id'']
     = (case c of PendingChoice i f x \<Rightarrow> Some (JStr i) | _ \<Rightarrow> None)"
  "path (JDict (content_payload c w)) [''pending'', ''pending_fingerprint'']
     = (case c of PendingChoice i f x \<Rightarrow> Some (JStr f) | _ \<Rightarrow> None)"
  "path (JDict (content_payload c w)) [''pending'', ''choice_id'']
     = (case c of PendingChoice i f x \<Rightarrow> Some (JStr x) | _ \<Rightarrow> None)"
  "path (JDict (content_payload c w)) [''decision'', ''decision_ref'']
     = (case c of DecisionOptions d rs \<Rightarrow> Some (JStr d) | DecisionText d t \<Rightarrow> Some (JStr d) | _ \<Rightarrow> None)"
  "path (JDict (content_payload c w)) [''decision'', ''selection'', ''option_refs'']
     = (case c of DecisionOptions d rs \<Rightarrow> Some (JList (map JStr rs)) | _ \<Rightarrow> None)"
  "path (JDict (content_payload c w)) [''decision'', ''selection'', ''text'']
     = (case c of DecisionText d t \<Rightarrow> Some (JStr t) | _ \<Rightarrow> None)"
  by (cases c; simp add: content_payload_def)+

lemma content_payload_inject:
  assumes "json_dumps (JDict (content_payload c w)) = json_dumps (JDict (content_payload d x))"
  shows "c = d \<and> w = x"
proof -
  note p = same_dumps_paths[OF assms content_payload_plain(1) content_payload_plain(1)]
  have "w = x" using p[of "[''target'', ''worker_id'']"] unfolding content_paths by simp
  moreover have "c = d"
    using p[of "[''instruction'', ''text'']"] p[of "[''pending'', ''pending_id'']"]
      p[of "[''pending'', ''pending_fingerprint'']"] p[of "[''pending'', ''choice_id'']"]
      p[of "[''decision'', ''decision_ref'']"] p[of "[''decision'', ''selection'', ''option_refs'']"]
      p[of "[''decision'', ''selection'', ''text'']"] unfolding content_paths
    by (cases c; cases d) (simp_all add: inj_map_eq_map inj_def comp_def)
  ultimately show ?thesis by simp
qed


lemma canonical_mutation_parts:
  assumes "build_canonical_mutation P r w = Inr m"
  obtains c where "live_mutation_check P r = Inr ()" "canonical_content P (mutation_content r) = Inr c"
    "cn_canonical_json m = json_dumps (JDict (content_payload c w))" "unicode_text (cn_canonical_json m)"
    "cn_fingerprint m = take 24 (sha256_hex (utf8_encode (cn_canonical_json m)))"
    "cn_version m = 1" "cn_action m = rq_action r" "cn_public_worker_id m = w" "py_strip w \<noteq> []"
proof -
  obtain p f where p: "live_mutation_check P r = Inr ()" "py_strip w \<noteq> []" "canonical_payload P r w = Inr p"
      "stable_fingerprint (JDict p) = Inr f"
      "m = \<lparr>cn_version = 1, cn_action = rq_action r, cn_public_worker_id = w,
            cn_canonical_json = stable_json_dumps (JDict p), cn_fingerprint = f\<rparr>"
    using assms by (auto simp: build_canonical_mutation_def bind_result_eq_Inr split: if_splits)
  obtain c where c: "canonical_content P (mutation_content r) = Inr c" "p = content_payload c w"
    using p(3) by (auto simp: canonical_payload[OF p(1)] bind_result_eq_Inr)
  have s: "stable_json_dumps (JDict (content_payload c w)) = json_dumps (JDict (content_payload c w))"
    unfolding stable_json_dumps_def clean_sanitize[OF content_payload_plain(2)] ..
  show thesis
    using p(1,2,4) c that[OF p(1) c(1)] unfolding p(5) c(2)
    by (simp add: stable_fingerprint_def encodable_def s split: if_splits)
qed

text \<open>
  C15: The canonical identity of a mutation is the resolved worker and what the mutation does
  there, and nothing else: two live requests get the same canonical JSON exactly when they
  name the same worker, the same action and the same content (the text of an instruction;
  the pending interaction and the choice; the decision and the selected options in canonical
  order), whatever their request ids, selectors, observed fingerprints and response
  versions; the fingerprint is the first 24 hex digits of SHA-256 of that JSON.
\<close>

theorem canonical_identity_is_the_mutation:
  assumes "build_canonical_mutation P r w = Inr m" "build_canonical_mutation P r' w' = Inr m'"
  shows "(cn_canonical_json m = cn_canonical_json m'
      \<longleftrightarrow> w = w' \<and> canonical_content P (mutation_content r) = canonical_content P (mutation_content r'))
    \<and> cn_fingerprint m = take 24 (sha256_hex (utf8_encode (cn_canonical_json m)))
    \<and> cn_action m = lit (content_action (mutation_content r)) \<and> cn_public_worker_id m = w"
proof -
  obtain c where c: "live_mutation_check P r = Inr ()" "canonical_content P (mutation_content r) = Inr c"
      "cn_canonical_json m = json_dumps (JDict (content_payload c w))"
      "cn_fingerprint m = take 24 (sha256_hex (utf8_encode (cn_canonical_json m)))"
      "cn_action m = rq_action r" "cn_public_worker_id m = w"
    by (rule canonical_mutation_parts[OF assms(1)])
  obtain c' where c': "canonical_content P (mutation_content r') = Inr c'"
      "cn_canonical_json m' = json_dumps (JDict (content_payload c' w'))"
    by (rule canonical_mutation_parts[OF assms(2)])
  have "cn_canonical_json m = cn_canonical_json m' \<longleftrightarrow> w = w' \<and> c = c'"
    using content_payload_inject[of c w c' w'] by (auto simp: c(3) c'(2))
  then show ?thesis
    using c c' content_action_of[of r] by (auto simp: live_mutation_check)
qed


section \<open>When a validated mutation has no identity\<close>

lemma unicode_escape_char: "unicode_text (escape_char c) \<longleftrightarrow> unicode_char c"
  by (auto simp: escape_char_def hex_digit_def unicode_char_def)

lemma unicode_dumps_str_iff: "unicode_text (dumps_str s) \<longleftrightarrow> unicode_text s"
proof -
  have "unicode_text (concat (map escape_char s)) \<longleftrightarrow> unicode_text s"
    by (induction s) (simp_all add: unicode_escape_char)
  then show ?thesis by (simp add: dumps_str_def)
qed

lemma unicode_comma_join_iff: "unicode_text (comma_join xs) \<longleftrightarrow> (\<forall>x \<in> set xs. unicode_text x)"
  by (induction xs rule: comma_join.induct) auto

lemma unicode_json_print_iff: "json_plain v \<Longrightarrow> unicode_text (json_print v) \<longleftrightarrow> json_unicode v"
proof (induction v)
  case (JDict ps)
  have "unicode_text (json_print (snd kv)) \<longleftrightarrow> json_unicode (snd kv)" if "kv \<in> set ps" for kv
    using JDict.IH[of kv "snd kv"] JDict.prems that by (cases kv) (auto simp: list_all_iff)
  then show ?case
    by (auto simp: unicode_comma_join_iff unicode_dumps_str_iff list_all_iff)
next
  case (JList xs)
  then show ?case by (auto simp: unicode_comma_join_iff list_all_iff)
qed (auto simp: unicode_dumps_str_iff)

lemma json_unicode_sort_keys: "json_unicode (sort_keys v) \<longleftrightarrow> json_unicode v"
  by (induction v) (force simp: list_all_iff)+

lemma unicode_json_dumps: "json_plain v \<Longrightarrow> unicode_text (json_dumps v) \<longleftrightarrow> json_unicode v"
  by (simp add: json_dumps_def unicode_json_print_iff sort_keys_plain json_unicode_sort_keys)

fun content_unicode :: "mutation_content \<Rightarrow> bool" where
  "content_unicode (SendText t) \<longleftrightarrow> unicode_text t"
| "content_unicode (PendingChoice i f c) \<longleftrightarrow> unicode_text i \<and> unicode_text f \<and> unicode_text c"
| "content_unicode (DecisionOptions d rs) \<longleftrightarrow> unicode_text d \<and> list_all unicode_text rs"
| "content_unicode (DecisionText d t) \<longleftrightarrow> unicode_text d \<and> unicode_text t"

fun content_numerals :: "python_text \<Rightarrow> mutation_content \<Rightarrow> bool" where
  "content_numerals P (DecisionOptions d rs) \<longleftrightarrow>
     list_all (\<lambda>ref. py_isdigit P ref \<longrightarrow> list_all (\<lambda>c. digit_of P c \<noteq> DigitOnly) ref) rs"
| "content_numerals P c \<longleftrightarrow> True"

lemma py_int_None: "py_int P a s = None \<longleftrightarrow> \<not> list_all (\<lambda>c. \<exists>d. digit_of P c = Decimal d) s"
  by (induction s arbitrary: a) (auto split: digit.split)

lemma ref_key_None: "ref_key P ref = None \<longleftrightarrow> py_isdigit P ref \<and> \<not> list_all (\<lambda>c. digit_of P c \<noteq> DigitOnly) ref"
proof -
  have "list_all (\<lambda>c. \<exists>d. digit_of P c = Decimal d) ref \<longleftrightarrow> list_all (\<lambda>c. digit_of P c \<noteq> DigitOnly) ref"
    if "py_isdigit P ref"
  proof -
    have "(\<exists>d. digit_of P c = Decimal d) \<longleftrightarrow> digit_of P c \<noteq> DigitOnly" if "c \<in> set ref" for c
      using \<open>py_isdigit P ref\<close> that by (cases "digit_of P c") (auto simp: py_isdigit_def list_all_iff)
    then show ?thesis by (auto simp: list_all_iff)
  qed
  then show ?thesis by (auto simp: ref_key_def py_int_None)
qed

lemma canonical_content_outcome:
  "(if content_numerals P c
    then \<exists>d. canonical_content P c = Inr d \<and> (content_unicode d \<longleftrightarrow> content_unicode c)
    else canonical_content P c = Inl ValueError)"
proof (cases c)
  case (DecisionOptions d rs)
  have "content_numerals P c \<longleftrightarrow> \<not> list_ex (\<lambda>ref. ref_key P ref = None) rs"
    by (auto simp: DecisionOptions ref_key_None list_all_iff list_ex_iff)
  moreover have "list_all unicode_text (sort_key f rs) \<longleftrightarrow> list_all unicode_text rs" for f :: "ustr \<Rightarrow> int"
    by (simp add: list_all_iff)
  ultimately show ?thesis by (simp add: DecisionOptions sorted_refs_def)
qed simp_all

lemma content_payload_unicode: "json_unicode (JDict (content_payload c w)) \<longleftrightarrow> content_unicode c \<and> unicode_text w"
  by (cases c) (auto simp: content_payload_def list_all_iff)

text \<open>
  C20: A validated live mutation for a nonblank worker gets a canonical identity exactly when
  its content and the worker's id are text that can be encoded (no lone surrogate, which
  JSON escapes can spell) and its option references use no digit that is not a decimal
  one; otherwise building the identity raises, although validation accepted the request.
\<close>

theorem canonical_identity_exists_iff:
  assumes "live_mutation_check P r = Inr ()" "py_strip w \<noteq> []"
  shows "(case build_canonical_mutation P r w of
      Inr m \<Rightarrow> content_numerals P (mutation_content r) \<and> content_unicode (mutation_content r) \<and> unicode_text w
    | Inl e \<Rightarrow> e = ValueError
        \<and> \<not> (content_numerals P (mutation_content r) \<and> content_unicode (mutation_content r) \<and> unicode_text w))"
proof (cases "canonical_content P (mutation_content r)")
  case (Inl e)
  then show ?thesis
    using canonical_content_outcome[of P "mutation_content r"] assms
    by (simp add: build_canonical_mutation_def canonical_payload[OF assms(1)] split: if_splits)
next
  case (Inr c)
  have n: "content_numerals P (mutation_content r)" "content_unicode c \<longleftrightarrow> content_unicode (mutation_content r)"
    using canonical_content_outcome[of P "mutation_content r"] Inr by (auto split: if_splits)
  have "stable_json_dumps (JDict (content_payload c w)) = json_dumps (JDict (content_payload c w))"
    unfolding stable_json_dumps_def clean_sanitize[OF content_payload_plain(2)] ..
  then have "unicode_text (stable_json_dumps (JDict (content_payload c w)))
      \<longleftrightarrow> content_unicode (mutation_content r) \<and> unicode_text w"
    using unicode_json_dumps[OF content_payload_plain(1)] content_payload_unicode n(2) by simp
  then show ?thesis
    using n(1) assms Inr
    by (simp add: build_canonical_mutation_def canonical_payload[OF assms(1)] stable_fingerprint_def encodable_def)
qed


section \<open>Selectors\<close>

definition selector_of :: "python_text \<Rightarrow> command_request \<Rightarrow> (ustr \<times> ustr \<times> ustr option) option" where
  "selector_of P r =
     map_option (\<lambda>t. (string_value P (member t ''worker_id''), string_value P (member t ''name''),
       optional_string P (member t ''space_id''))) (rq_target r)"

lemma selector_payload_of:
  "selector_payload P r =
     [(lit ''proof_version'', JInt 1), (lit ''action'', JStr (rq_action r)),
      (lit ''selector'', JDict (case selector_of P r of
          None \<Rightarrow> [(lit ''shape'', JStr (lit ''none''))]
        | Some (worker_id, name, space_id) \<Rightarrow>
            [(lit ''shape'', JStr (lit ''target'')), (lit ''worker_id'', JStr worker_id),
             (lit ''name'', JStr name), (lit ''space_id'', json_optional space_id)]))]"
  by (simp add: selector_payload_def selector_of_def json_optional_def split: option.split)

lemma json_optional_simps [simp]:
  "json_plain (json_optional t)" "sort_keys (json_optional t) = json_optional t"
  "json_optional t = json_optional u \<longleftrightarrow> t = u"
  by (auto simp: json_optional_def split: option.splits)

lemma selector_payload_plain: "json_plain (JDict (selector_payload P r))"
  by (cases "selector_of P r") (auto simp: selector_payload_of)

lemma selector_payload_inject:
  "json_dumps (JDict (selector_payload P r)) = json_dumps (JDict (selector_payload P r'))
    \<longleftrightarrow> rq_action r = rq_action r' \<and> selector_of P r = selector_of P r'"
proof
  assume eq: "json_dumps (JDict (selector_payload P r)) = json_dumps (JDict (selector_payload P r'))"
  note p = same_dumps_paths[OF eq selector_payload_plain selector_payload_plain]
  note q = p[of "[''selector'', ''shape'']"] p[of "[''selector'', ''worker_id'']"] p[of "[''selector'', ''name'']"]
    p[of "[''selector'', ''space_id'']"]
  have "rq_action r = rq_action r'" using p[of "[''action'']"] by (simp add: selector_payload_of)
  moreover have "selector_of P r = selector_of P r'"
  proof (cases "selector_of P r")
    case None
    then show ?thesis using q(1) by (cases "selector_of P r'") (auto simp: selector_payload_of)
  next
    case (Some s)
    obtain a b c where s: "s = (a, b, c)" by (cases s)
    show ?thesis
    proof (cases "selector_of P r'")
      case None
      then show ?thesis using q(1) Some s by (simp add: selector_payload_of)
    next
      case (Some s')
      obtain a' b' c' where s': "s' = (a', b', c')" by (cases s')
      show ?thesis using q(2-4) Some s s' \<open>selector_of P r = Some s\<close> by (simp add: selector_payload_of)
    qed
  qed
  ultimately show "rq_action r = rq_action r' \<and> selector_of P r = selector_of P r'" ..
qed (simp add: selector_payload_of)

definition proof_bytes :: "python_text \<Rightarrow> command_request \<Rightarrow> nat list" where
  "proof_bytes P r = utf8_encode (lit ''tendwire.command-selector-proof.v1'') @ 0 # utf8_encode (json_dumps (JDict (selector_payload P r)))"

text \<open>
  A selector proof is the digest of bytes that determine the action and the selector, and
  nothing else: the bytes of two proofs are the same exactly when the actions and the
  selectors are, a refreshed \<open>worker_fingerprint\<close> or a changed text notwithstanding; it is a
  well-formed proof; and requests with the same selector select the same workers.
\<close>

theorem selector_proof_binds_selector:
  assumes "build_selector_proof P r = Inr p" "build_selector_proof P r' = Inr p'"
  shows "is_selector_proof p \<and> p = lit ''v1:'' @ sha256_hex (proof_bytes P r)
    \<and> (proof_bytes P r = proof_bytes P r' \<longleftrightarrow> rq_action r = rq_action r' \<and> selector_of P r = selector_of P r')
    \<and> (selector_of P r = selector_of P r' \<longrightarrow>
        (\<forall>t t' w. rq_target r = Some t \<and> rq_target r' = Some t' \<longrightarrow> identity_match P t w = identity_match P t' w))"
proof -
  have p: "p = lit ''v1:'' @ sha256_hex (proof_bytes P r)" "unicode_text (json_dumps (JDict (selector_payload P r)))"
    "unicode_text (json_dumps (JDict (selector_payload P r')))"
    using assms by (auto simp: build_selector_proof_def bind_result_eq_Inr encodable_def proof_bytes_def split: if_splits)
  have "is_selector_proof p"
    using sha256_hex_chars[of "proof_bytes P r"] by (simp add: p(1) is_selector_proof_def lit_def)
  moreover have "proof_bytes P r = proof_bytes P r' \<longleftrightarrow> rq_action r = rq_action r' \<and> selector_of P r = selector_of P r'"
    using utf8_round_trip[OF p(2)] utf8_round_trip[OF p(3)] selector_payload_inject[of P r r']
    by (auto simp: proof_bytes_def)
  moreover have "identity_match P t w = identity_match P t' w"
    if "selector_of P r = selector_of P r'" "rq_target r = Some t" "rq_target r' = Some t'" for t t' w
    using that by (simp add: selector_of_def identity_match_def)
  ultimately show ?thesis using p(1) by blast
qed

section \<open>Resolution\<close>

definition selected :: "python_text \<Rightarrow> members \<Rightarrow> worker \<Rightarrow> bool" where
  "selected P t w \<longleftrightarrow> identity_match P t w
     \<and> (case optional_string P (member t ''worker_fingerprint'') of None \<Rightarrow> True | Some fp \<Rightarrow> wk_fingerprint w = fp)"

lemma filter_selected:
  "filter (selected P t) ws =
     (case optional_string P (member t ''worker_fingerprint'') of None \<Rightarrow> filter (identity_match P t) ws
      | Some fp \<Rightarrow> filter (\<lambda>w. wk_fingerprint w = fp) (filter (identity_match P t) ws))"
  by (auto simp: selected_def filter_filter conj_commute split: option.split intro!: filter_cong)

text \<open>
  C17: A target resolves exactly when one worker in the snapshot answers to all of its selectors
  and its fingerprint (and, where it matters, is in a state that may be instructed), and then
  to that worker; it is stale exactly when one worker answers to the selectors and its
  fingerprint has changed; it is not found exactly when no worker answers to the selectors;
  and nothing but a resolved target comes with a worker to act on.
\<close>

theorem resolution_is_unambiguous:
  "(case resolve_target P (Some t) ws allow incl of (found, _, status) \<Rightarrow>
      (status = TargetResolved \<longleftrightarrow> (\<exists>w. filter (selected P t) ws = [w]
         \<and> (allow \<or> wk_status w \<notin> set (map lit disallowed_worker_statuses))))
      \<and> (status = TargetRejected \<longleftrightarrow> (\<exists>w. filter (selected P t) ws = [w]
         \<and> \<not> allow \<and> wk_status w \<in> set (map lit disallowed_worker_statuses)))
      \<and> (status = TargetNotFound \<longleftrightarrow> (\<forall>w \<in> set ws. \<not> identity_match P t w))
      \<and> (status = TargetStale \<longleftrightarrow> (\<exists>w. filter (identity_match P t) ws = [w] \<and> \<not> selected P t w))
      \<and> found = (if status = TargetResolved then Some (worker_candidate incl (hd (filter (selected P t) ws))) else None))"
proof -
  let ?f = "filter (identity_match P t) ws" and ?c = "filter (selected P t) ws"
  let ?fp = "optional_string P (member t ''worker_fingerprint'')"
  have sub: "set ?c \<subseteq> set ?f" by (auto simp: selected_def)
  have same: "?fp = None \<Longrightarrow> ?c = ?f" by (simp add: filter_selected)
  have r: "resolve_target P (Some t) ws allow incl =
    (if ?f \<noteq> [] \<and> ?c = [] then (None, map (worker_candidate False) ?f, if length ?f = 1 then TargetStale else TargetAmbiguous)
     else case ?c of [] \<Rightarrow> (None, [], TargetNotFound)
       | [w] \<Rightarrow> if \<not> allow \<and> wk_status w \<in> set (map lit disallowed_worker_statuses)
               then (None, map (worker_candidate incl) ?c, TargetRejected)
               else (Some (worker_candidate incl w), map (worker_candidate incl) ?c, TargetResolved)
       | _ \<Rightarrow> (None, map (worker_candidate incl) ?c, TargetAmbiguous))"
  proof (cases ?fp)
    case None
    then show ?thesis by (simp add: resolve_target_def Let_def filter_selected split: list.split)
  next
    case (Some fp)
    then have c: "filter (\<lambda>w. wk_fingerprint w = fp) ?f = ?c" by (simp add: filter_selected)
    have "?f = [] \<Longrightarrow> ?c = []" using sub by simp
    then show ?thesis using Some by (simp add: resolve_target_def Let_def c del: filter_filter split: list.split)
  qed
  have nf: "(\<forall>w \<in> set ws. \<not> identity_match P t w) \<longleftrightarrow> ?f = []" by (auto simp: filter_empty_conv)
  have one: "\<not> selected P t w \<longleftrightarrow> ?c = []" if "?f = [w]" for w
  proof -
    have "?c = filter (selected P t) ?f" by (auto simp: filter_filter selected_def intro!: filter_cong)
    then show ?thesis using that by simp
  qed
  show ?thesis
  proof (cases ?c)
    case Nil
    then show ?thesis unfolding r nf using one by (auto simp: length_Suc_conv)
  next
    case (Cons w cs)
    have "w \<in> set ?f" using sub unfolding Cons by simp
    then have "?f \<noteq> []" by (metis list.distinct(1) list.set_cases)
    moreover have "\<not> (\<exists>w. ?f = [w] \<and> \<not> selected P t w)" using one Cons by auto
    ultimately show ?thesis unfolding r nf using Cons by (cases cs) auto
  qed
qed


section \<open>Examples\<close>

definition ex_text :: python_text where
  "ex_text = \<lparr>repr_of = (\<lambda>_. lit ''?''),
     digit_of = (\<lambda>c. if 48 \<le> c \<and> c \<le> 57 then Decimal (c - 48) else if c = 178 then DigitOnly else NotDigit)\<rparr>"

definition ex_send :: "string \<Rightarrow> members \<Rightarrow> ustr \<Rightarrow> command_request" where
  "ex_send request_id target txt =
     \<lparr>rq_action = lit ''send_instruction'', rq_schema_version = JInt 1, rq_request_id = JStr (lit request_id),
      rq_dry_run = JBool False, rq_target = Some target, rq_instruction = Some [(lit ''text'', JStr txt)],
      rq_params = None, rq_response_schema_version = JInt 2\<rparr>"

definition request_names :: "string list" where
  "request_names =
     [''schema_version'', ''action'', ''request_id'', ''dry_run'', ''target'', ''instruction'', ''params'', ''text'',
      ''worker_id'', ''name'']"

lemma request_names_plain: "list_all plain_name request_names"
  by (simp add: request_names_def plain_name_def)

lemma request_names_other: "list_all (\<lambda>s. s \<notin> set forbidden_field_names) request_names"
  by (simp add: request_names_def forbidden_field_names_def)

lemma request_names_compact:
  "let compact = map (filter (\<lambda>c. c \<noteq> CHR ''_'')) forbidden_field_names
     in list_all (\<lambda>s. filter (\<lambda>c. c \<noteq> CHR ''_'') s \<notin> set compact) request_names"
  by (simp add: request_names_def forbidden_field_names_def Let_def)

lemmas request_names = names_allowed[OF request_names_plain request_names_other request_names_compact]

lemma ex_send_live:
  assumes "valid_instruction txt" "is_valid_request_id (lit q)" "k \<in> {''worker_id'', ''name''}" "s \<noteq> []"
  shows "live_mutation_check P (ex_send q [(lit k, JStr s)] txt) = Inr ()"
proof -
  have "txt \<noteq> []" using assms(1) by (auto simp: validate_instruction_text_def)
  moreover have "field_clean (JDict (request_to_dict (ex_send q [(lit k, JStr s)] txt)))"
    using request_names assms(3) by (auto simp: request_names_def ex_send_def request_to_dict_def json_members_def)
  ultimately show ?thesis
    using assms
    by (auto simp: live_mutation_check validate_request_None ex_send_def mutating_actions_def allowed_actions_def
        valid_request_id_def validate_target_shape_def extra_fields_def target_allowed_fields_def member_def dict_get_def
        string_value_def validate_instruction_shape_def instruction_text_of_def validate_send_def
        target_has_stable_selector_def stable_selector_fields_def)
qed

lemma ex_send_content: "mutation_content (ex_send q t txt) = SendText txt"
  by (simp add: mutation_content_def ex_send_def the_members_def member_def dict_get_def)

lemma ex_ids: "is_valid_request_id (lit ''r1'')" "is_valid_request_id (lit ''r2'')"
  by code_simp+

lemma ex_instruction: "valid_instruction (lit ''hi'')"
  by code_simp

lemma ex_surrogate: "valid_instruction [0xD800]"
  by (simp add: validate_instruction_text_def max_instruction_length_def contains_bracketed_paste_def starts_with_def
      lit_def contains_c1_control_def is_raw_instruction_control_def)

theorem canonical_identity_exists_iff_witness:
  "live_mutation_check ex_text (ex_send ''r1'' [(lit ''worker_id'', JStr (lit ''w''))] [0xD800]) = Inr ()
    \<and> build_canonical_mutation ex_text (ex_send ''r1'' [(lit ''worker_id'', JStr (lit ''w''))] [0xD800]) (lit ''w'')
        = Inl ValueError"
proof -
  let ?r = "ex_send ''r1'' [(lit ''worker_id'', JStr (lit ''w''))] [0xD800]"
  have l: "live_mutation_check ex_text ?r = Inr ()"
    by (rule ex_send_live[OF ex_surrogate ex_ids(1)]) simp_all
  have w: "py_strip (lit ''w'') \<noteq> []" by (simp add: py_strip_id lit_def py_isspace_def)
  have "\<not> content_unicode (mutation_content ?r)" by (simp add: ex_send_content unicode_char_def)
  then show ?thesis using l canonical_identity_exists_iff[OF l w] by (auto split: sum.splits)
qed

theorem canonical_identity_is_the_mutation_witness:
  "\<exists>m m'. build_canonical_mutation ex_text (ex_send ''r1'' [(lit ''worker_id'', JStr (lit ''w''))] (lit ''hi'')) (lit ''w'') = Inr m
    \<and> build_canonical_mutation ex_text (ex_send ''r2'' [(lit ''name'', JStr (lit ''n''))] (lit ''hi'')) (lit ''w'') = Inr m'
    \<and> cn_canonical_json m = cn_canonical_json m'"
proof -
  have l: "\<exists>m. build_canonical_mutation ex_text (ex_send q [(lit k, JStr s)] (lit ''hi'')) (lit ''w'') = Inr m"
    if "is_valid_request_id (lit q)" "k \<in> {''worker_id'', ''name''}" "s \<noteq> []" for q k s
  proof -
    have live: "live_mutation_check ex_text (ex_send q [(lit k, JStr s)] (lit ''hi'')) = Inr ()"
      by (rule ex_send_live[OF ex_instruction that])
    have "py_strip (lit ''w'') \<noteq> []" by (simp add: py_strip_id lit_def py_isspace_def)
    then show ?thesis
      by (simp add: build_canonical_mutation_def live canonical_payload[OF live] ex_send_content stable_fingerprint_def
          encodable_def stable_json_dumps_unicode content_payload_unicode del: json_unicode.simps)
  qed
  obtain m where m: "build_canonical_mutation ex_text (ex_send ''r1'' [(lit ''worker_id'', JStr (lit ''w''))] (lit ''hi'')) (lit ''w'') = Inr m"
    using l[of "''r1''" "''worker_id''" "lit ''w''"] ex_ids by auto
  obtain m' where m': "build_canonical_mutation ex_text (ex_send ''r2'' [(lit ''name'', JStr (lit ''n''))] (lit ''hi'')) (lit ''w'') = Inr m'"
    using l[of "''r2''" "''name''" "lit ''n''"] ex_ids by auto
  show ?thesis using canonical_identity_is_the_mutation[OF m m'] m m' by (auto simp: ex_send_content)
qed

theorem selector_proof_binds_selector_witness:
  "\<exists>p p'. build_selector_proof ex_text (ex_send ''r1'' [(lit ''name'', JStr (lit ''n''))] (lit ''hi'')) = Inr p
    \<and> build_selector_proof ex_text (ex_send ''r2'' [(lit ''name'', JStr (lit ''n''))] (lit ''hi'')) = Inr p'
    \<and> is_selector_proof p \<and> proof_bytes ex_text (ex_send ''r1'' [(lit ''name'', JStr (lit ''n''))] (lit ''hi''))
        = proof_bytes ex_text (ex_send ''r2'' [(lit ''name'', JStr (lit ''n''))] (lit ''hi''))"
proof -
  let ?r = "\<lambda>q. ex_send q [(lit ''name'', JStr (lit ''n''))] (lit ''hi'')"
  have s: "selector_of ex_text (?r q) = Some ([], lit ''n'', None)" for q
    by (simp add: selector_of_def ex_send_def member_def dict_get_def string_value_def optional_string_def)
  have "\<exists>p. build_selector_proof ex_text (?r q) = Inr p" if "is_valid_request_id (lit q)" for q
  proof -
    have live: "live_mutation_check ex_text (?r q) = Inr ()"
      by (rule ex_send_live[OF ex_instruction that]) simp_all
    have "json_unicode (JDict (selector_payload ex_text (?r q)))"
      by (simp add: selector_payload_of s json_optional_def) (simp add: ex_send_def)
    then show ?thesis
      by (simp add: build_selector_proof_def live encodable_def unicode_json_dumps[OF selector_payload_plain])
  qed
  then obtain p p' where p: "build_selector_proof ex_text (?r ''r1'') = Inr p" "build_selector_proof ex_text (?r ''r2'') = Inr p'"
    using ex_ids by metis
  show ?thesis using selector_proof_binds_selector[OF p] p s by (auto simp: ex_send_def)
qed


section \<open>What validation guarantees\<close>

fun content_valid :: "mutation_content \<Rightarrow> bool" where
  "content_valid (SendText t) \<longleftrightarrow> valid_instruction t"
| "content_valid (PendingChoice i f c) \<longleftrightarrow> py_strip i \<noteq> [] \<and> py_strip f \<noteq> [] \<and> py_strip c \<noteq> []"
| "content_valid (DecisionOptions d rs) \<longleftrightarrow> py_strip d \<noteq> [] \<and> rs \<noteq> [] \<and> (\<forall>x \<in> set rs. py_strip x \<noteq> [])"
| "content_valid (DecisionText d t) \<longleftrightarrow> py_strip d \<noteq> [] \<and> valid_instruction t"

text \<open>Who the mutation names: a stable selector, nobody, or a worker's own id.\<close>

fun names_worker :: "mutation_content \<Rightarrow> (ustr \<times> ustr \<times> ustr option) option \<Rightarrow> bool" where
  "names_worker (SendText t) s \<longleftrightarrow> (\<exists>w n sp. s = Some (w, n, sp) \<and> (w \<noteq> [] \<or> n \<noteq> [] \<or> sp \<notin> {None, Some []}))"
| "names_worker (PendingChoice i f c) s \<longleftrightarrow> s = None"
| "names_worker (DecisionOptions d rs) s \<longleftrightarrow> (\<exists>w n sp. s = Some (w, n, sp) \<and> py_strip w \<noteq> [] \<and> n = [] \<and> sp = None)"
| "names_worker (DecisionText d t) s \<longleftrightarrow> (\<exists>w n sp. s = Some (w, n, sp) \<and> py_strip w \<noteq> [] \<and> n = [] \<and> sp = None)"

lemma member_absent: "has_members d ks \<Longrightarrow> k \<notin> set ks \<Longrightarrow> member d k = JNull"
  by (auto simp: has_members_def member_def dict_get_def split: option.split dest: map_of_SomeD)
    (metis (no_types, lifting) fst_conv image_eqI image_iff lit_eq_iff map_of_SomeD)

lemma stable_selector_named:
  "target_has_stable_selector P (Some d) \<longleftrightarrow>
     string_value P (member d ''worker_id'') \<noteq> [] \<or> string_value P (member d ''name'') \<noteq> []
     \<or> optional_string P (member d ''space_id'') \<notin> {None, Some []}"
  by (auto simp: target_has_stable_selector_def stable_selector_fields_def string_value_def optional_string_def)

lemma send_named:
  assumes "validate_request P r = None" "rq_action r = lit ''send_instruction''"
  shows "content_valid (mutation_content r) \<and> names_worker (mutation_content r) (selector_of P r)"
proof -
  obtain d where d: "rq_instruction r = Some d" "valid_instruction (text_of (member d ''text''))"
    using instruction_member[OF assms] by metis
  have "validate_send P r = None" using assms by (auto simp: validate_request_None)
  then obtain t where t: "rq_target r = Some t" "target_has_stable_selector P (Some t)"
    by (cases "rq_target r") (auto simp: validate_send_def split: if_splits)
  then show ?thesis
    using d assms(2) by (auto simp: mutation_content_def the_members_def selector_of_def stable_selector_named)
qed

lemma decision_named:
  assumes "validate_request P r = None" "rq_action r = lit ''answer_decision''"
  shows "content_valid (mutation_content r) \<and> names_worker (mutation_content r) (selector_of P r)"
proof -
  obtain t d where d: "rq_target r = Some t" "has_members t [''worker_id'']" "nonblank (member t ''worker_id'')"
    "rq_params r = Some d" "nonblank (member d ''decision_ref'')" "validate_selection (member d ''selection'') = None"
    by (rule decision_members[OF assms]) blast
  have "member t ''name'' = JNull" "member t ''space_id'' = JNull" using d(2) by (simp_all add: member_absent)
  then have s: "selector_of P r = Some (text_of (member t ''worker_id''), [], None)" "py_strip (text_of (member t ''worker_id'')) \<noteq> []"
    using d(1,3) by (cases "member t ''worker_id''"; simp add: selector_of_def string_value_def optional_string_def nonblank_text)+
  from d(6) show ?thesis
  proof (cases rule: selection_shape)
    case (1 refs)
    then show ?thesis using assms(2) d(4,5) s
      by (simp add: mutation_content_def the_members_def nonblank_text member_def[of "[(_, _)]"] dict_get_def)
  next
    case (2 t)
    then show ?thesis using assms(2) d(4,5) s
      by (simp add: mutation_content_def the_members_def nonblank_text member_def[of "[(_, _)]"] dict_get_def)
  qed
qed

text \<open>
  C16: A live mutation that passes validation has a well-formed request id, no forbidden field
  name at any depth, content that is safe to type (an instruction that is valid text, or
  nonblank references) and names its worker: an instruction by a stable selector, a
  decision by the worker's own nonblank id and nothing else, a pending choice by none.
\<close>

theorem validated_mutations_are_safe:
  assumes "live_mutation_check P r = Inr ()"
  shows "valid_request_id (rq_request_id r) \<and> field_clean (JDict (request_to_dict r))
    \<and> content_valid (mutation_content r) \<and> names_worker (mutation_content r) (selector_of P r)"
proof -
  note v = assms[unfolded live_mutation_check]
  have "content_valid (mutation_content r) \<and> names_worker (mutation_content r) (selector_of P r)"
  proof (rule mutating_cases[of "rq_action r"])
    show "rq_action r \<in> set (map lit mutating_actions)" using v by blast
    assume p: "rq_action r = lit ''answer_pending''"
    then show ?thesis using pending_members[of P r] v
      by (simp add: mutation_content_def selector_of_def pending_param_fields_def nonblank_text Let_def)
  qed (use v send_named decision_named in blast)+
  then show ?thesis using v by (auto simp: validate_request_None)
qed

theorem validated_mutations_are_safe_witness:
  "valid_request_id (rq_request_id (ex_send ''r1'' [(lit ''name'', JStr (lit ''n''))] (lit ''hi'')))
    \<and> valid_instruction (lit ''hi'')"
  using validated_mutations_are_safe[OF ex_send_live[OF ex_instruction ex_ids(1), of "''name''" "lit ''n''" ex_text]]
  by (simp add: ex_send_content)


definition ex_worker :: "string \<Rightarrow> worker" where
  "ex_worker w =
     \<lparr>wk_id = lit w, wk_name = lit ''n'', wk_status = lit ''idle'', wk_space_id = None, wk_meta = [], wk_summary = None,
      wk_fingerprint = lit ''f'', wk_backend_target = None\<rparr>"

theorem resolution_is_unambiguous_witness:
  "(\<exists>found cs. resolve_target ex_text (Some [(lit ''worker_id'', JStr (lit ''a''))]) [ex_worker ''a'', ex_worker ''b''] False False
        = (found, cs, TargetResolved) \<and> found = Some (worker_candidate False (ex_worker ''a'')))
    \<and> (\<exists>cs status. resolve_target ex_text (Some [(lit ''name'', JStr (lit ''n''))]) [ex_worker ''a'', ex_worker ''b''] False False
        = (None, cs, status) \<and> status \<noteq> TargetNotFound)"
proof -
  let ?ws = "[ex_worker ''a'', ex_worker ''b'']"
  let ?i = "[(lit ''worker_id'', JStr (lit ''a''))]" and ?n = "[(lit ''name'', JStr (lit ''n''))]"
  have by_id: "filter (selected ex_text ?i) ?ws = [ex_worker ''a'']"
    by (simp add: selected_def identity_match_def member_def dict_get_def string_value_def optional_string_def ex_worker_def)
  have by_name: "filter (selected ex_text ?n) ?ws = ?ws" "identity_match ex_text ?n (ex_worker ''a'')"
    by (simp_all add: selected_def identity_match_def member_def dict_get_def string_value_def optional_string_def ex_worker_def)
  have live: "wk_status (ex_worker ''a'') \<notin> set (map lit disallowed_worker_statuses)"
    by (simp add: ex_worker_def disallowed_worker_statuses_def)
  obtain f cs st where i: "resolve_target ex_text (Some ?i) ?ws False False = (f, cs, st)" by (metis prod_cases3)
  obtain f' cs' st' where n: "resolve_target ex_text (Some ?n) ?ws False False = (f', cs', st')" by (metis prod_cases3)
  have "st = TargetResolved \<and> f = Some (worker_candidate False (ex_worker ''a''))"
    using resolution_is_unambiguous[of ex_text ?i ?ws False False] by_id live unfolding i by simp
  moreover have "f' = None \<and> st' \<noteq> TargetNotFound"
    using resolution_is_unambiguous[of ex_text ?n ?ws False False] by_name unfolding n by simp
  ultimately show ?thesis using i n by blast
qed

end
