(* ===== verification/Envelopes.thy ===== *)
theory Envelopes
  imports CommandRequests
begin

text \<open>
  The public result of a command (\<open>CommandEnvelope\<close> of \<open>core/commands.py\<close>): which
  combinations of verdict, status and disposition an envelope may have, and how it is
  written and read back.  The recursive public sanitizer is an argument.
\<close>

section \<open>Python equality of JSON values\<close>

text \<open>
  \<open>==\<close>: dicts up to the order of their keys, numbers by value, \<open>True\<close> as 1.  A NaN is
  compared with itself, which a container finds equal by identity.
\<close>

fun number_of :: "json \<Rightarrow> (int \<times> int) option" where
  "number_of (JBool b) = Some (if b then 1 else 0, 0)"
| "number_of (JInt i) = Some (i, 0)"
| "number_of (JFloat m e) = Some (m, e)"
| "number_of _ = None"

definition same_number :: "int \<times> int \<Rightarrow> int \<times> int \<Rightarrow> bool" where
  "same_number a b \<longleftrightarrow>
     (let e = min (snd a) (snd b) in fst a * 10 ^ nat (snd a - e) = fst b * 10 ^ nat (snd b - e))"

fun py_eq :: "json \<Rightarrow> json \<Rightarrow> bool" where
  "py_eq (JList xs) w = (case w of JList ys \<Rightarrow> list_all2 py_eq xs ys | _ \<Rightarrow> False)"
| "py_eq (JDict ps) w =
     (case w of
        JDict qs \<Rightarrow> set (map fst ps) = set (map fst qs)
          \<and> list_all (\<lambda>kv. case map_of qs (fst kv) of None \<Rightarrow> False | Some y \<Rightarrow> py_eq (snd kv) y) ps
      | _ \<Rightarrow> False)"
| "py_eq v w =
     (case (number_of v, number_of w) of
        (Some a, Some b) \<Rightarrow> same_number a b
      | (None, None) \<Rightarrow> v = w
      | _ \<Rightarrow> False)"

section \<open>Envelopes\<close>

record sanitizer =
  public_mapping :: "members \<Rightarrow> members"
  public_text :: "ustr \<Rightarrow> ustr"

text \<open>What a constructor call is given, before its types are checked.\<close>

record envelope_args =
  ea_ok :: json
  ea_status :: json
  ea_action :: json
  ea_disposition :: json
  ea_request_id :: json
  ea_dry_run :: json
  ea_result :: json
  ea_error :: json
  ea_warnings :: json
  ea_schema_version :: json

record envelope =
  en_ok :: bool
  en_status :: ustr
  en_action :: ustr
  en_disposition :: ustr
  en_request_id :: "ustr option"
  en_dry_run :: bool
  en_result :: "members option"
  en_error :: "members option"
  en_warnings :: "ustr list"
  en_schema_version :: int

definition one_of :: "ustr \<Rightarrow> string list \<Rightarrow> bool" where
  "one_of s names \<longleftrightarrow> s \<in> set (map lit names)"

definition valid_statuses :: "string list" where
  "valid_statuses =
     [''noop'', ''snapshot'', ''resolved'', ''dry_run'', ''accepted'', ''rejected'', ''not_found'',
      ''ambiguous_target'', ''stale_target'', ''backend_unavailable'', ''backend_unsupported'',
      ''ambiguous_backend_target'', ''backend_failed'', ''duplicate_request'', ''request_state_uncertain'',
      ''invalid_request'', ''pending'', ''answer_in_progress'', ''decision_not_pending'', ''unknown_worker'',
      ''invalid_selection'', ''unsupported_decision'']"

definition valid_dispositions :: "string list" where
  "valid_dispositions =
     [''no_receipt'', ''in_progress'', ''terminal_accepted'', ''terminal_rejected'', ''terminal_uncertain'']"

definition terminal_rejection_statuses :: "string list" where
  "terminal_rejection_statuses =
     [''rejected'', ''stale_target'', ''backend_unavailable'', ''backend_unsupported'',
      ''ambiguous_backend_target'', ''backend_failed'', ''duplicate_request'', ''decision_not_pending'',
      ''unknown_worker'', ''invalid_selection'', ''unsupported_decision'']"

definition live_no_receipt_statuses :: "string list" where
  "live_no_receipt_statuses =
     [''invalid_request'', ''rejected'', ''not_found'', ''ambiguous_target'', ''stale_target'',
      ''backend_unavailable'', ''backend_unsupported'', ''ambiguous_backend_target'', ''backend_failed'',
      ''answer_in_progress'', ''decision_not_pending'', ''unknown_worker'', ''invalid_selection'',
      ''unsupported_decision'']"

definition dry_run_no_receipt_statuses :: "string list" where
  "dry_run_no_receipt_statuses =
     [''invalid_request'', ''invalid_selection'', ''rejected'', ''not_found'', ''ambiguous_target'', ''stale_target'']"

definition expect :: "bool \<Rightarrow> py_error \<Rightarrow> unit result" where
  "expect c e = (if c then Inr () else Inl e)"

fun mapping_or_null :: "json \<Rightarrow> members option result" where
  "mapping_or_null JNull = Inr None"
| "mapping_or_null (JDict d) = Inr (Some d)"
| "mapping_or_null _ = Inl TypeError"

fun text_or_null :: "json \<Rightarrow> ustr option result" where
  "text_or_null JNull = Inr None"
| "text_or_null (JStr s) = Inr (Some s)"
| "text_or_null _ = Inl TypeError"

fun flag :: "json \<Rightarrow> bool result" where
  "flag (JBool b) = Inr b"
| "flag _ = Inl TypeError"

text \<open>An unhashable disposition raises from the \<open>in\<close> test itself.\<close>

definition envelope_types :: "envelope_args \<Rightarrow> envelope result" where
  "envelope_types a =
     bind_result (flag (ea_ok a)) (\<lambda>ok.
     bind_result (case ea_status a of JStr s \<Rightarrow> if one_of s valid_statuses then Inr s else Inl ValueError
        | _ \<Rightarrow> Inl ValueError) (\<lambda>status.
     bind_result (case ea_action a of JStr s \<Rightarrow> Inr s | _ \<Rightarrow> Inl TypeError) (\<lambda>action.
     bind_result (case ea_disposition a of
          JStr s \<Rightarrow> if one_of s valid_dispositions then Inr s else Inl ValueError
        | JList _ \<Rightarrow> Inl TypeError | JDict _ \<Rightarrow> Inl TypeError | _ \<Rightarrow> Inl ValueError) (\<lambda>disposition.
     bind_result (text_or_null (ea_request_id a)) (\<lambda>request_id.
     bind_result (flag (ea_dry_run a)) (\<lambda>dry_run.
     bind_result (mapping_or_null (ea_result a)) (\<lambda>result.
     bind_result (mapping_or_null (ea_error a)) (\<lambda>error.
     bind_result (case ea_warnings a of
          JList ws \<Rightarrow> if list_all (\<lambda>w. json_str w \<noteq> None) ws then Inr (json_texts (ea_warnings a)) else Inl TypeError
        | _ \<Rightarrow> Inl TypeError) (\<lambda>warnings.
     bind_result (case ea_schema_version a of JInt n \<Rightarrow> if n \<in> {2, 3} then Inr n else Inl ValueError
        | _ \<Rightarrow> Inl ValueError) (\<lambda>version.
       Inr \<lparr>en_ok = ok, en_status = status, en_action = action, en_disposition = disposition,
            en_request_id = request_id, en_dry_run = dry_run, en_result = result, en_error = error,
            en_warnings = warnings, en_schema_version = version\<rparr>))))))))))"

definition mutating :: "envelope \<Rightarrow> bool" where
  "mutating e \<longleftrightarrow> one_of (en_action e) mutating_actions"

definition live_mutation :: "envelope \<Rightarrow> bool" where
  "live_mutation e \<longleftrightarrow> mutating e \<and> \<not> en_dry_run e"

definition has_request_id :: "envelope \<Rightarrow> bool" where
  "has_request_id e \<longleftrightarrow> (case en_request_id e of None \<Rightarrow> False | Some q \<Rightarrow> is_valid_request_id q)"

definition clean_envelope :: "sanitizer \<Rightarrow> envelope \<Rightarrow> envelope" where
  "clean_envelope S e =
     e\<lparr>en_result := map_option (public_mapping S) (en_result e),
       en_error := map_option (public_mapping S) (en_error e),
       en_warnings := filter (\<lambda>w. w \<noteq> []) (map (public_text S) (en_warnings e))\<rparr>"

definition no_receipt_tuple :: "envelope \<Rightarrow> bool" where
  "no_receipt_tuple e \<longleftrightarrow>
     (if live_mutation e
      then \<not> en_ok e \<and> one_of (en_status e) live_no_receipt_statuses
        \<and> (en_status e \<noteq> lit ''answer_in_progress'' \<or> en_action e = lit ''answer_decision'')
      else if mutating e
      then en_ok e \<and> en_status e = lit ''dry_run'' \<or> \<not> en_ok e \<and> one_of (en_status e) dry_run_no_receipt_statuses
      else True)"

definition disposition_tuple :: "envelope \<Rightarrow> bool" where
  "disposition_tuple e \<longleftrightarrow>
     (if en_disposition e = lit ''no_receipt'' then no_receipt_tuple e
      else if en_disposition e = lit ''in_progress''
      then live_mutation e \<and> \<not> en_ok e \<and> one_of (en_status e) [''pending'', ''answer_in_progress'']
        \<and> (en_status e = lit ''answer_in_progress'' \<longrightarrow> en_action e = lit ''answer_decision'')
      else if en_disposition e = lit ''terminal_accepted''
      then live_mutation e \<and> en_ok e \<and> en_status e = lit ''accepted''
      else if en_disposition e = lit ''terminal_rejected''
      then live_mutation e \<and> \<not> en_ok e \<and> one_of (en_status e) terminal_rejection_statuses
      else live_mutation e \<and> \<not> en_ok e \<and> en_status e = lit ''request_state_uncertain'')"

definition submission_tuple :: "envelope \<Rightarrow> bool" where
  "submission_tuple e \<longleftrightarrow>
     en_action e = lit ''send_instruction'' \<and> en_disposition e = lit ''terminal_accepted''
     \<and> (case en_result e of None \<Rightarrow> False
        | Some d \<Rightarrow>
            (case member d ''submission_id'' of JStr s \<Rightarrow> is_turn_submission_id s | _ \<Rightarrow> False)
            \<and> (case map_of d (lit ''turn_id'') of
                 Some JNull \<Rightarrow> True | Some (JStr t) \<Rightarrow> t \<noteq> [] | _ \<Rightarrow> False))"

definition make_envelope :: "sanitizer \<Rightarrow> envelope_args \<Rightarrow> envelope result" where
  "make_envelope S a =
     bind_result (envelope_types a) (\<lambda>e0.
     bind_result (expect (live_mutation e0 \<longrightarrow> has_request_id e0) ValueError) (\<lambda>_.
     bind_result (expect (en_disposition e0 \<noteq> lit ''no_receipt'' \<longrightarrow> has_request_id e0) ValueError) (\<lambda>_.
     let e = clean_envelope S e0 in
     bind_result (expect (\<not> (en_ok e \<and> en_error e \<noteq> None)) ValueError) (\<lambda>_.
     bind_result (expect (disposition_tuple e) ValueError) (\<lambda>_.
     bind_result (expect (en_schema_version e = 3 \<longrightarrow> submission_tuple e) ValueError) (\<lambda>_.
     bind_result (expect (en_status e = lit ''answer_in_progress'' \<longrightarrow>
         en_action e = lit ''answer_decision'' \<and> live_mutation e \<and> \<not> en_ok e
         \<and> one_of (en_disposition e) [''no_receipt'', ''in_progress'']) ValueError) (\<lambda>_.
       Inr e)))))))"

section \<open>Writing and reading\<close>

definition envelope_to_dict :: "envelope \<Rightarrow> members" where
  "envelope_to_dict e =
     [(lit ''schema_version'', JInt (en_schema_version e)), (lit ''action'', JStr (en_action e)),
      (lit ''request_id'', json_optional (en_request_id e)), (lit ''ok'', JBool (en_ok e)),
      (lit ''dry_run'', JBool (en_dry_run e)), (lit ''status'', JStr (en_status e)),
      (lit ''disposition'', JStr (en_disposition e)), (lit ''result'', json_members (en_result e)),
      (lit ''error'', json_members (en_error e)), (lit ''warnings'', JList (map JStr (en_warnings e)))]"

definition envelope_fields :: "string list" where
  "envelope_fields =
     [''schema_version'', ''action'', ''request_id'', ''ok'', ''dry_run'', ''status'', ''disposition'', ''result'',
      ''error'', ''warnings'']"

definition envelope_args_of :: "members \<Rightarrow> envelope_args" where
  "envelope_args_of d =
     \<lparr>ea_ok = member d ''ok'', ea_status = member d ''status'', ea_action = member d ''action'',
      ea_disposition = member d ''disposition'', ea_request_id = member d ''request_id'',
      ea_dry_run = member d ''dry_run'', ea_result = member d ''result'', ea_error = member d ''error'',
      ea_warnings = member d ''warnings'', ea_schema_version = member d ''schema_version''\<rparr>"

definition envelope_from_dict :: "sanitizer \<Rightarrow> json \<Rightarrow> envelope result" where
  "envelope_from_dict S data =
     (case data of
        JDict d \<Rightarrow>
          if \<not> has_members d envelope_fields then Inl ValueError
          else bind_result (make_envelope S (envelope_args_of d)) (\<lambda>e.
            if py_eq (JDict (envelope_to_dict e)) data then Inr e else Inl ValueError)
      | _ \<Rightarrow> Inl TypeError)"


section \<open>What an envelope may say\<close>

lemma expect_Inr [simp]: "expect c e = Inr u \<longleftrightarrow> c"
  by (simp add: expect_def)

lemma bind_expect: "bind_result (expect c e) f = Inr y \<longleftrightarrow> c \<and> f () = Inr y"
  by (simp add: expect_def)

definition envelope_checks :: "envelope \<Rightarrow> bool" where
  "envelope_checks e \<longleftrightarrow>
     (live_mutation e \<longrightarrow> has_request_id e) \<and> (en_disposition e \<noteq> lit ''no_receipt'' \<longrightarrow> has_request_id e)
     \<and> \<not> (en_ok e \<and> en_error e \<noteq> None) \<and> disposition_tuple e
     \<and> (en_schema_version e = 3 \<longrightarrow> submission_tuple e)
     \<and> (en_status e = lit ''answer_in_progress'' \<longrightarrow>
         en_action e = lit ''answer_decision'' \<and> live_mutation e \<and> \<not> en_ok e
         \<and> one_of (en_disposition e) [''no_receipt'', ''in_progress''])"

definition typed :: "envelope \<Rightarrow> bool" where
  "typed e \<longleftrightarrow> one_of (en_status e) valid_statuses \<and> one_of (en_disposition e) valid_dispositions
     \<and> en_schema_version e \<in> {2, 3}"

lemma clean_envelope_simps [simp]:
  "en_ok (clean_envelope S e) = en_ok e" "en_status (clean_envelope S e) = en_status e"
  "en_action (clean_envelope S e) = en_action e" "en_disposition (clean_envelope S e) = en_disposition e"
  "en_request_id (clean_envelope S e) = en_request_id e" "en_dry_run (clean_envelope S e) = en_dry_run e"
  "en_schema_version (clean_envelope S e) = en_schema_version e"
  "live_mutation (clean_envelope S e) = live_mutation e" "has_request_id (clean_envelope S e) = has_request_id e"
  by (simp_all add: clean_envelope_def live_mutation_def mutating_def has_request_id_def)

lemma make_envelope_Inr:
  "make_envelope S a = Inr e \<longleftrightarrow> (\<exists>e0. envelope_types a = Inr e0 \<and> e = clean_envelope S e0 \<and> envelope_checks e)"
  unfolding make_envelope_def Let_def bind_result_eq_Inr bind_expect
  by (auto simp: envelope_checks_def bind_expect)

lemma envelope_types_typed: "envelope_types a = Inr e \<Longrightarrow> typed e"
  by (auto simp: envelope_types_def bind_result_eq_Inr typed_def split: json.splits if_splits)

lemma made_envelope_typed: "make_envelope S a = Inr e \<Longrightarrow> typed e"
  by (auto simp: make_envelope_Inr typed_def dest!: envelope_types_typed)

lemmas status_lists = terminal_rejection_statuses_def live_no_receipt_statuses_def dry_run_no_receipt_statuses_def
  valid_dispositions_def

lemma envelope_truth:
  assumes "envelope_checks e" "typed e"
  shows "(en_disposition e \<noteq> lit ''no_receipt'' \<longrightarrow> live_mutation e)
    \<and> (live_mutation e \<longrightarrow> has_request_id e
        \<and> (en_ok e \<longleftrightarrow> en_disposition e = lit ''terminal_accepted'')
        \<and> (en_disposition e = lit ''terminal_accepted'' \<longleftrightarrow> en_status e = lit ''accepted'')
        \<and> (en_disposition e = lit ''terminal_uncertain'' \<longleftrightarrow> en_status e = lit ''request_state_uncertain'')
        \<and> (en_status e = lit ''pending'' \<longrightarrow> en_disposition e = lit ''in_progress'')
        \<and> (en_status e = lit ''duplicate_request'' \<longrightarrow> en_disposition e = lit ''terminal_rejected''))
    \<and> (en_ok e \<longrightarrow> en_error e = None)
    \<and> (en_schema_version e = 3 \<longrightarrow> en_action e = lit ''send_instruction'' \<and> en_disposition e = lit ''terminal_accepted'')"
proof -
  consider "en_disposition e = lit ''no_receipt''" | "en_disposition e = lit ''in_progress''"
    | "en_disposition e = lit ''terminal_accepted''" | "en_disposition e = lit ''terminal_rejected''"
    | "en_disposition e = lit ''terminal_uncertain''"
    using assms(2) by (auto simp: typed_def one_of_def valid_dispositions_def)
  then show ?thesis
    using assms(1)
    by cases (auto simp: envelope_checks_def disposition_tuple_def no_receipt_tuple_def submission_tuple_def one_of_def
        terminal_rejection_statuses_def live_no_receipt_statuses_def)
qed

text \<open>
  C18: An envelope cannot be built that misreports a mutation: a disposition other than
  \<open>no_receipt\<close> belongs to a live mutation with a well-formed request id; a live mutation is
  reported ok exactly when its receipt is accepted, uncertain exactly when its receipt is,
  pending only while its receipt is in progress; an ok envelope carries no error, and
  schema 3 is only for an accepted instruction.
\<close>

theorem envelopes_report_the_receipt:
  assumes "make_envelope S a = Inr e"
  shows "(en_disposition e \<noteq> lit ''no_receipt'' \<longrightarrow> live_mutation e)
    \<and> (live_mutation e \<longrightarrow> has_request_id e
        \<and> (en_ok e \<longleftrightarrow> en_disposition e = lit ''terminal_accepted'')
        \<and> (en_disposition e = lit ''terminal_accepted'' \<longleftrightarrow> en_status e = lit ''accepted'')
        \<and> (en_disposition e = lit ''terminal_uncertain'' \<longleftrightarrow> en_status e = lit ''request_state_uncertain'')
        \<and> (en_status e = lit ''pending'' \<longrightarrow> en_disposition e = lit ''in_progress'')
        \<and> (en_status e = lit ''duplicate_request'' \<longrightarrow> en_disposition e = lit ''terminal_rejected''))
    \<and> (en_ok e \<longrightarrow> en_error e = None)
    \<and> (en_schema_version e = 3 \<longrightarrow> en_action e = lit ''send_instruction'' \<and> en_disposition e = lit ''terminal_accepted'')"
  using envelope_truth made_envelope_typed[OF assms] assms by (auto simp: make_envelope_Inr simp del: clean_envelope_simps)


section \<open>Reading an envelope back\<close>

text \<open>\<open>envelope_to_receipt_json\<close>: the text a receipt stores.\<close>

definition envelope_to_receipt_json :: "envelope \<Rightarrow> ustr" where
  "envelope_to_receipt_json e = json_dumps (JDict (envelope_to_dict e))"

fun sort_members :: "members option \<Rightarrow> members option" where
  "sort_members None = None"
| "sort_members (Some d) = (case sort_keys (JDict d) of JDict s \<Rightarrow> Some s | _ \<Rightarrow> Some d)"

text \<open>The envelope with the keys of its result and error in order, which is how the text keeps them.\<close>

definition sort_envelope :: "envelope \<Rightarrow> envelope" where
  "sort_envelope e = e\<lparr>en_result := sort_members (en_result e), en_error := sort_members (en_error e)\<rparr>"

lemma sort_envelope_simps [simp]:
  "en_ok (sort_envelope e) = en_ok e" "en_status (sort_envelope e) = en_status e"
  "en_action (sort_envelope e) = en_action e" "en_disposition (sort_envelope e) = en_disposition e"
  "en_request_id (sort_envelope e) = en_request_id e" "en_dry_run (sort_envelope e) = en_dry_run e"
  "en_schema_version (sort_envelope e) = en_schema_version e" "en_warnings (sort_envelope e) = en_warnings e"
  "en_result (sort_envelope e) = sort_members (en_result e)" "en_error (sort_envelope e) = sort_members (en_error e)"
  by (simp_all add: sort_envelope_def)

lemma json_members_sort: "json_members (sort_members m) = sort_keys (json_members m)"
  by (cases m) (simp_all add: json_members_def)

lemma member_sort_keys:
  assumes "distinct (map fst d)" "sort_keys (JDict d) = JDict s"
  shows "member s k = sort_keys (member d k)" "map_of s (lit k) = map_option sort_keys (map_of d (lit k))"
proof -
  show *: "map_of s (lit k) = map_option sort_keys (map_of d (lit k))"
    using assms map_of_sort_keys[OF assms(1), of sort_keys "lit k"] by simp
  show "member s k = sort_keys (member d k)"
    by (simp add: member_def dict_get_def * split: option.split)
qed

text \<open>Reading back needs plain members, and a sanitizer that leaves them alone once it has run.\<close>

definition plain_envelope :: "envelope \<Rightarrow> bool" where
  "plain_envelope e \<longleftrightarrow> json_plain (json_members (en_result e)) \<and> json_plain (json_members (en_error e))"

definition settled :: "sanitizer \<Rightarrow> envelope \<Rightarrow> bool" where
  "settled S e \<longleftrightarrow> clean_envelope S e = e"

lemma py_eq_refl: "json_plain v \<Longrightarrow> py_eq v v"
proof (induction v)
  case (JDict ps)
  have "map_of ps k = Some v" if "(k, v) \<in> set ps" for k v using that JDict.prems by simp
  then show ?case using JDict by (force simp: list_all_iff)
next
  case (JList xs)
  then show ?case by (auto simp: list_all_iff list_all2_same)
qed (simp_all add: same_number_def)

lemma envelope_dict_plain: "plain_envelope e \<Longrightarrow> json_plain (JDict (envelope_to_dict e))"
  by (auto simp: plain_envelope_def envelope_to_dict_def list_all_iff)

lemma envelope_dict_members:
  "member (envelope_to_dict e) ''schema_version'' = JInt (en_schema_version e)"
  "member (envelope_to_dict e) ''action'' = JStr (en_action e)"
  "member (envelope_to_dict e) ''request_id'' = json_optional (en_request_id e)"
  "member (envelope_to_dict e) ''ok'' = JBool (en_ok e)"
  "member (envelope_to_dict e) ''dry_run'' = JBool (en_dry_run e)"
  "member (envelope_to_dict e) ''status'' = JStr (en_status e)"
  "member (envelope_to_dict e) ''disposition'' = JStr (en_disposition e)"
  "member (envelope_to_dict e) ''result'' = json_members (en_result e)"
  "member (envelope_to_dict e) ''error'' = json_members (en_error e)"
  "member (envelope_to_dict e) ''warnings'' = JList (map JStr (en_warnings e))"
  by (simp_all add: envelope_to_dict_def member_def dict_get_def)

lemma envelope_dict_keys: "map fst (envelope_to_dict e) = map lit envelope_fields" "distinct (map fst (envelope_to_dict e))"
  by (simp_all add: envelope_to_dict_def envelope_fields_def)

lemma mapping_or_null_members [simp]: "mapping_or_null (json_members m) = Inr m"
  by (cases m) (simp_all add: json_members_def)

lemma text_or_null_optional [simp]: "text_or_null (json_optional t) = Inr t"
  by (cases t) (simp_all add: json_optional_def)

lemma sorted_dict:
  assumes "sort_keys (JDict (envelope_to_dict e)) = JDict s"
  shows "s = sort_key fst (envelope_to_dict (sort_envelope e))"
proof -
  have "map (\<lambda>kv. (fst kv, sort_keys (snd kv))) (envelope_to_dict e) = envelope_to_dict (sort_envelope e)"
    by (simp add: envelope_to_dict_def json_members_sort comp_def)
  then show ?thesis using assms by simp
qed

lemma py_eq_sorted:
  assumes "json_plain (JDict d)"
  shows "py_eq (JDict d) (JDict (sort_key fst d))"
proof -
  have "distinct (map fst d)" using assms by simp
  then have "map_of (sort_key fst d) = map_of d"
    by (subst map_of_inject_set) (simp_all add: distinct_map)
  then show ?thesis using py_eq_refl[OF assms] by simp
qed

lemma sorted_dict_args:
  assumes "sort_keys (JDict (envelope_to_dict e)) = JDict s"
  shows "envelope_args_of s = envelope_args_of (envelope_to_dict (sort_envelope e))"
  by (simp add: envelope_args_of_def member_sort_keys[OF envelope_dict_keys(2) assms] envelope_dict_members
      json_members_sort comp_def)

lemma own_dict_types:
  assumes "typed e"
  shows "envelope_types (envelope_args_of (envelope_to_dict e)) = Inr e"
  using assms by (auto simp: envelope_types_def envelope_args_of_def envelope_dict_members typed_def list_all_iff)

lemma sort_envelope_checks:
  assumes "plain_envelope e"
  shows "envelope_checks (sort_envelope e) = envelope_checks e"
proof -
  have "(case sort_members (en_result e) of None \<Rightarrow> False | Some d \<Rightarrow> f d) = (case en_result e of None \<Rightarrow> False | Some d \<Rightarrow> g d)"
    if "\<And>d s. json_plain (JDict d) \<Longrightarrow> sort_keys (JDict d) = JDict s \<Longrightarrow> f s = g d" for f g
    using assms that by (cases "en_result e") (auto simp: plain_envelope_def json_members_def)
  note cong = this
  have "submission_tuple (sort_envelope e) = submission_tuple e"
    unfolding submission_tuple_def sort_envelope_simps
    by (rule arg_cong2[where f = conj, OF refl], rule arg_cong2[where f = conj, OF refl], rule cong)
      (auto simp: member_sort_keys split: json.splits option.splits)
  moreover have "sort_members m = None \<longleftrightarrow> m = None" for m by (cases m) simp_all
  ultimately show ?thesis
    by (simp add: envelope_checks_def live_mutation_def mutating_def has_request_id_def disposition_tuple_def
        no_receipt_tuple_def)
qed

lemma own_text_reads: "plain_envelope e \<Longrightarrow> json_loads (envelope_to_receipt_json e) = Some (sort_keys (JDict (envelope_to_dict e)))"
  unfolding envelope_to_receipt_json_def by (rule json_loads_dumps[OF envelope_dict_plain])

lemma stored_envelope:
  assumes "typed e" "envelope_checks e" "plain_envelope e" "settled S (sort_envelope e)"
  shows "json_loads (envelope_to_receipt_json e) = Some (sort_keys (JDict (envelope_to_dict e)))"
    and "envelope_from_dict S (sort_keys (JDict (envelope_to_dict e))) = Inr (sort_envelope e)"
proof -
  show "json_loads (envelope_to_receipt_json e) = Some (sort_keys (JDict (envelope_to_dict e)))"
    by (rule own_text_reads[OF assms(3)])
  obtain s where s: "sort_keys (JDict (envelope_to_dict e)) = JDict s" by simp
  have t: "typed (sort_envelope e)" using assms(1) by (simp add: typed_def)
  have "make_envelope S (envelope_args_of s) = Inr (sort_envelope e)"
    unfolding make_envelope_Inr sorted_dict_args[OF s] own_dict_types[OF t]
    using assms(4) sort_envelope_checks[OF assms(3)] assms(2) by (auto simp: settled_def)
  moreover have "has_members s envelope_fields"
  proof -
    have "set (map fst s) = set (map fst (envelope_to_dict (sort_envelope e)))" by (simp add: sorted_dict[OF s])
    then show ?thesis by (simp only: has_members_def envelope_dict_keys)
  qed
  moreover have "plain_envelope (sort_envelope e)"
    using assms(3) by (simp add: plain_envelope_def json_members_sort sort_keys_plain del: sort_keys.simps)
  then have "py_eq (JDict (envelope_to_dict (sort_envelope e))) (JDict s)"
    unfolding sorted_dict[OF s] by (intro py_eq_sorted envelope_dict_plain)
  ultimately show "envelope_from_dict S (sort_keys (JDict (envelope_to_dict e))) = Inr (sort_envelope e)"
    unfolding s by (simp add: envelope_from_dict_def del: py_eq.simps)
qed


text \<open>
  C19: What a receipt stores of an envelope is never read back as another one.  Take an
  envelope as it was built, with no floats in its result and error.  If sanitizing it once
  more changes nothing, what the receipt stores reads back as that envelope (the keys of its
  result and error in order); if the sanitizer does change it, the text is either refused or
  read as an envelope with member for member the same dict.  And whatever \<open>from_dict\<close>
  accepts, from any source, is the dict of the envelope it returns: nothing a sanitizer would
  change, no unknown field and no inconsistent tuple is ever read back.
\<close>

theorem stored_envelopes_read_back:
  "(make_envelope S a = Inr e \<and> plain_envelope e \<longrightarrow>
      (\<exists>w. json_loads (envelope_to_receipt_json e) = Some w
        \<and> (settled S (sort_envelope e) \<longrightarrow> envelope_from_dict S w = Inr (sort_envelope e))
        \<and> (case envelope_from_dict S w of
             Inl _ \<Rightarrow> \<not> settled S (sort_envelope e)
           | Inr e1 \<Rightarrow> py_eq (JDict (envelope_to_dict e1)) (sort_keys (JDict (envelope_to_dict e))))))
    \<and> (envelope_from_dict S v = Inr e' \<longrightarrow>
        py_eq (JDict (envelope_to_dict e')) v \<and> typed e' \<and> envelope_checks e')"
proof (intro conjI impI)
  have read: "py_eq (JDict (envelope_to_dict e2)) x \<and> typed e2 \<and> envelope_checks e2" if "envelope_from_dict S x = Inr e2" for x e2
  proof -
    from that obtain d where d: "x = JDict d" "make_envelope S (envelope_args_of d) = Inr e2" "py_eq (JDict (envelope_to_dict e2)) x"
      by (auto simp: envelope_from_dict_def bind_result_eq_Inr split: json.splits if_splits)
    then show ?thesis using made_envelope_typed[OF d(2)] by (auto simp: make_envelope_Inr)
  qed
  show "py_eq (JDict (envelope_to_dict e')) v" "typed e'" "envelope_checks e'" if "envelope_from_dict S v = Inr e'"
    using read[OF that] by blast+
  assume m: "make_envelope S a = Inr e \<and> plain_envelope e"
  let ?w = "sort_keys (JDict (envelope_to_dict e))"
  have s: "settled S (sort_envelope e) \<Longrightarrow> envelope_from_dict S ?w = Inr (sort_envelope e)"
    using m stored_envelope(2)[of e S] made_envelope_typed[of S a e] by (auto simp: make_envelope_Inr)
  show "\<exists>w. json_loads (envelope_to_receipt_json e) = Some w
        \<and> (settled S (sort_envelope e) \<longrightarrow> envelope_from_dict S w = Inr (sort_envelope e))
        \<and> (case envelope_from_dict S w of
             Inl _ \<Rightarrow> \<not> settled S (sort_envelope e)
           | Inr e1 \<Rightarrow> py_eq (JDict (envelope_to_dict e1)) ?w)"
    by (rule exI[of _ ?w]) (use m s read[of ?w] own_text_reads in \<open>auto split: sum.split simp del: sort_keys.simps\<close>)
qed


section \<open>Examples\<close>

definition ex_sanitizer :: sanitizer where
  "ex_sanitizer = \<lparr>public_mapping = (\<lambda>d. d), public_text = (\<lambda>s. s)\<rparr>"

definition ex_accepted_args :: envelope_args where
  "ex_accepted_args =
     \<lparr>ea_ok = JBool True, ea_status = JStr (lit ''accepted''), ea_action = JStr (lit ''send_instruction''),
      ea_disposition = JStr (lit ''terminal_accepted''), ea_request_id = JStr (lit ''r1''), ea_dry_run = JBool False,
      ea_result = JDict [(lit ''turn_id'', JNull), (lit ''target'', JDict [(lit ''worker_id'', JStr (lit ''w''))])],
      ea_error = JNull, ea_warnings = JList [], ea_schema_version = JInt 2\<rparr>"

definition ex_accepted :: envelope where
  "ex_accepted =
     \<lparr>en_ok = True, en_status = lit ''accepted'', en_action = lit ''send_instruction'',
      en_disposition = lit ''terminal_accepted'', en_request_id = Some (lit ''r1''), en_dry_run = False,
      en_result = Some [(lit ''turn_id'', JNull), (lit ''target'', JDict [(lit ''worker_id'', JStr (lit ''w''))])],
      en_error = None, en_warnings = [], en_schema_version = 2\<rparr>"

lemma ex_accepted: "make_envelope ex_sanitizer ex_accepted_args = Inr ex_accepted"
  by (simp add: make_envelope_Inr envelope_types_def ex_accepted_args_def ex_accepted_def clean_envelope_def ex_sanitizer_def
      one_of_def valid_statuses_def valid_dispositions_def json_texts_def List.map_filter_simps envelope_checks_def
      live_mutation_def mutating_def mutating_actions_def has_request_id_def ex_ids disposition_tuple_def)

theorem envelopes_report_the_receipt_witness:
  "make_envelope ex_sanitizer ex_accepted_args = Inr ex_accepted \<and> live_mutation ex_accepted
    \<and> has_request_id ex_accepted \<and> en_error ex_accepted = None"
  using envelopes_report_the_receipt[OF ex_accepted] ex_accepted by (simp add: ex_accepted_def)

theorem stored_envelopes_read_back_witness:
  "\<exists>v. json_loads (envelope_to_receipt_json ex_accepted) = Some v
    \<and> envelope_from_dict ex_sanitizer v = Inr (sort_envelope ex_accepted)
    \<and> sort_envelope ex_accepted \<noteq> ex_accepted
    \<and> py_eq (JDict (envelope_to_dict (sort_envelope ex_accepted))) v"
proof -
  have p: "plain_envelope ex_accepted" by (simp add: plain_envelope_def ex_accepted_def json_members_def)
  have s: "settled ex_sanitizer (sort_envelope ex_accepted)"
    by (simp add: settled_def clean_envelope_def sort_envelope_def ex_accepted_def ex_sanitizer_def option.map_ident)
  have n: "sort_envelope ex_accepted \<noteq> ex_accepted"
  proof
    assume "sort_envelope ex_accepted = ex_accepted"
    then have "sort_members (en_result ex_accepted) = en_result ex_accepted" by (metis sort_envelope_simps(9))
    then show False by (simp add: ex_accepted_def lit_def)
  qed
  obtain v where v: "json_loads (envelope_to_receipt_json ex_accepted) = Some v"
      "envelope_from_dict ex_sanitizer v = Inr (sort_envelope ex_accepted)"
    using stored_envelopes_read_back[of ex_sanitizer ex_accepted_args ex_accepted] ex_accepted p s by meson
  moreover have "py_eq (JDict (envelope_to_dict (sort_envelope ex_accepted))) v"
    using stored_envelopes_read_back[of ex_sanitizer ex_accepted_args ex_accepted v "sort_envelope ex_accepted"] v(2) by blast
  ultimately show ?thesis using n by blast
qed

end
