(* ===== verification/SendProtocol.thy ===== *)
theory SendProtocol
  imports Envelopes CommandRuns
begin

text \<open>
  One caller of \<open>command_submission.py\<close> sending an instruction: what it makes of the
  receipts it finds, how it reserves, marks, prompts and finishes, and how it replays.
  A caller is a program over a world: the store as it is when each of its transactions
  begins, and the prompts typed so far.  Between two transactions other callers change
  the store, and any transaction may fail before it does anything.
\<close>

section \<open>Programs\<close>

text \<open>
  One transaction of the caller: its clock and token source, whether SQLite refuses it, and
  what everyone else did to the store since the caller's last one.
\<close>

record 'p turn_at =
  ta_env :: store_env
  ta_refused :: bool
  ta_others :: "'p store \<Rightarrow> 'p store"

text \<open>What reaches a pane: an agent's prompt, keys, or text ended by keys.\<close>

datatype pane_input = AgentPrompt ustr | PaneKeys "ustr list" | PaneText ustr "ustr list"

record 'p world =
  w_store :: "'p store"
  w_tick :: nat
  w_prompts :: "(ustr \<times> pane_input) list"

type_synonym ('a, 'p) act = "'p world \<Rightarrow> 'a result \<times> 'p world"

definition give :: "'a result \<Rightarrow> ('a, 'p) act" where
  "give r = (\<lambda>w. (r, w))"

definition and_then :: "('a, 'p) act \<Rightarrow> ('a \<Rightarrow> ('b, 'p) act) \<Rightarrow> ('b, 'p) act" where
  "and_then m f = (\<lambda>w. case m w of (Inl e, w') \<Rightarrow> (Inl e, w') | (Inr x, w') \<Rightarrow> f x w')"

text \<open>\<open>try: m except Exception\<close>: \<open>None\<close> when it raised, and what it did stays done.\<close>

definition attempt :: "('a, 'p) act \<Rightarrow> ('a option, 'p) act" where
  "attempt m = (\<lambda>w. case m w of (Inl e, w') \<Rightarrow> (Inr None, w') | (Inr x, w') \<Rightarrow> (Inr (Some x), w'))"

definition transact :: "(nat \<Rightarrow> 'p turn_at) \<Rightarrow> (store_env \<Rightarrow> 'p store \<Rightarrow> ('a \<times> 'p store) result) \<Rightarrow> ('a, 'p) act" where
  "transact at op = (\<lambda>w.
     let t = at (w_tick w); db = ta_others t (w_store w) in
     case (if ta_refused t then Inl RuntimeError else op (ta_env t) db) of
       Inl e \<Rightarrow> (Inl e, w\<lparr>w_store := db, w_tick := Suc (w_tick w)\<rparr>)
     | Inr (x, db') \<Rightarrow> (Inr x, w\<lparr>w_store := db', w_tick := Suc (w_tick w)\<rparr>))"

definition prompt :: "ustr \<Rightarrow> pane_input \<Rightarrow> (unit, 'p) act" where
  "prompt target input = (\<lambda>w. (Inr (), w\<lparr>w_prompts := w_prompts w @ [(target, input)]\<rparr>))"

section \<open>The caller's surroundings\<close>

text \<open>
  \<open>sv_observed_turn\<close> is the turn a linked submission names as the turn tables show it;
  \<open>sv_payload_fingerprint\<close> is the legacy fingerprint of a raw request.
\<close>

record 'p service =
  sv_text :: python_text
  sv_sanitizer :: sanitizer
  sv_host_id :: ustr
  sv_link_seconds :: int
  sv_hard_seconds :: int
  sv_at :: "nat \<Rightarrow> 'p turn_at"
  sv_observed_turn :: "'p store \<Rightarrow> ustr \<Rightarrow> ustr \<Rightarrow> members option"
  sv_payload_fingerprint :: "command_request \<Rightarrow> ustr"

definition request_id_of :: "command_request \<Rightarrow> ustr" where
  "request_id_of r = text_of (rq_request_id r)"

definition error_value :: "'p service \<Rightarrow> ustr \<Rightarrow> ustr \<Rightarrow> members \<Rightarrow> members" where
  "error_value V code message details =
     public_mapping (sv_sanitizer V)
       [(lit ''code'', JStr code), (lit ''message'', JStr message), (lit ''details'', JDict details)]"

definition from_result ::
  "'p service \<Rightarrow> command_request \<Rightarrow> bool \<Rightarrow> ustr \<Rightarrow> string \<Rightarrow> members option \<Rightarrow> members option \<Rightarrow> ustr list
     \<Rightarrow> envelope result" where
  "from_result V r ok status disposition result error warnings =
     make_envelope (sv_sanitizer V)
       \<lparr>ea_ok = JBool ok, ea_status = JStr status, ea_action = JStr (rq_action r),
        ea_disposition = JStr (lit disposition), ea_request_id = rq_request_id r, ea_dry_run = rq_dry_run r,
        ea_result = json_members result, ea_error = json_members error,
        ea_warnings = JList (map JStr warnings), ea_schema_version = JInt 2\<rparr>"

definition from_error :: "'p service \<Rightarrow> command_request \<Rightarrow> members \<Rightarrow> envelope result" where
  "from_error V r error =
     (let mutates = one_of (rq_action r) mutating_actions;
          valid_id = valid_request_id (rq_request_id r) in
      make_envelope (sv_sanitizer V)
       \<lparr>ea_ok = JBool False, ea_status = get_default error ''code'' (JStr (lit ''rejected'')),
        ea_action = JStr (rq_action r), ea_disposition = JStr (lit ''no_receipt''),
        ea_request_id = (if valid_id \<or> \<not> mutates \<and> json_str (rq_request_id r) \<noteq> None then rq_request_id r else JNull),
        ea_dry_run = (if mutates \<and> rq_dry_run r = JBool False \<and> \<not> valid_id then JBool True else rq_dry_run r),
        ea_result = JNull, ea_error = JDict error, ea_warnings = JList [], ea_schema_version = JInt 2\<rparr>)"

definition backend_unavailable :: "'p service \<Rightarrow> command_request \<Rightarrow> string \<Rightarrow> members \<Rightarrow> envelope result" where
  "backend_unavailable V r message details =
     from_error V r (error_value V (lit ''backend_unavailable'') (lit message) details)"

definition backend_uncertain :: "'p service \<Rightarrow> command_request \<Rightarrow> string \<Rightarrow> envelope result" where
  "backend_uncertain V r message =
     from_result V r False status_uncertain ''terminal_uncertain'' None
       (Some (error_value V status_uncertain (lit message) [])) []"

definition request_in_progress :: "'p service \<Rightarrow> command_request \<Rightarrow> envelope result" where
  "request_in_progress V r =
     from_result V r False status_pending ''in_progress'' None
       (Some (error_value V status_pending (lit ''request is already in progress'') [])) []"

definition duplicate_request :: "'p service \<Rightarrow> command_request \<Rightarrow> envelope result" where
  "duplicate_request V r =
     from_result V r False (lit ''duplicate_request'') ''terminal_rejected'' None
       (Some (error_value V (lit ''duplicate_request'') (lit ''request_id reused with a different canonical mutation'') [])) []"

definition transition_payload :: "command_request \<Rightarrow> ustr \<Rightarrow> envelope option \<Rightarrow> members" where
  "transition_payload r worker_id e =
     [(lit ''schema_version'', JInt 1), (lit ''action'', JStr (rq_action r)), (lit ''request_id'', rq_request_id r),
      (lit ''target'', JDict [(lit ''worker_id'', JStr worker_id)])]
     @ (case e of None \<Rightarrow> [] | Some x \<Rightarrow> [(lit ''envelope'', JDict (envelope_to_dict x))])"

section \<open>What a receipt says\<close>

definition receipt_is_canonical ::
  "'p service \<Rightarrow> command_request \<Rightarrow> canonical_mutation \<Rightarrow> receipt_view \<Rightarrow> bool" where
  "receipt_is_canonical V r c v \<longleftrightarrow>
     JStr (vw_request_id v) = rq_request_id r \<and> vw_action v = cn_action c
     \<and> (if vw_canonical_version v = 0
        then \<not> vw_legacy_collision v \<and> vw_canonical_fingerprint v = sv_payload_fingerprint V r
        else vw_canonical_version v = cn_version c \<and> vw_canonical_fingerprint v = cn_fingerprint c
          \<and> vw_canonical_request_json v = cn_canonical_json c \<and> vw_public_worker_id v = cn_public_worker_id c)"

definition terminal_disposition :: "receipt_state \<Rightarrow> string option" where
  "terminal_disposition s =
     (case s of Accepted \<Rightarrow> Some ''terminal_accepted'' | Rejected \<Rightarrow> Some ''terminal_rejected''
      | Uncertain \<Rightarrow> Some ''terminal_uncertain'' | _ \<Rightarrow> None)"

text \<open>An envelope of schema 1 had no disposition; it is upgraded, read and compared.\<close>

definition legacy_fields :: "string list" where
  "legacy_fields =
     [''schema_version'', ''action'', ''request_id'', ''ok'', ''dry_run'', ''status'', ''result'', ''error'', ''warnings'']"

definition read_legacy :: "sanitizer \<Rightarrow> string \<Rightarrow> members \<Rightarrow> envelope result" where
  "read_legacy S disposition d =
     (if \<not> has_members d legacy_fields then Inl ValueError
      else bind_result (envelope_from_dict S (JDict (dict_put (dict_put d (lit ''schema_version'', JInt 2))
               (lit ''disposition'', JStr (lit disposition))))) (\<lambda>e.
        let back = dict_put (filter (\<lambda>kv. fst kv \<noteq> lit ''disposition'') (envelope_to_dict e)) (lit ''schema_version'', JInt 1)
        in if py_eq (JDict back) (JDict d) then Inr e else Inl ValueError))"

definition read_stored :: "sanitizer \<Rightarrow> string \<Rightarrow> members \<Rightarrow> envelope result" where
  "read_stored S disposition d =
     (case member d ''schema_version'' of
        JInt n \<Rightarrow> if n = 2 then envelope_from_dict S (JDict d) else if n = 1 then read_legacy S disposition d else Inl ValueError
      | _ \<Rightarrow> Inl ValueError)"

definition stored_terminal_envelope :: "'p service \<Rightarrow> command_request \<Rightarrow> receipt_view \<Rightarrow> envelope result" where
  "stored_terminal_envelope V r v =
     (case json_loads (vw_result_json v) of
        Some (JDict d) \<Rightarrow>
          (case terminal_disposition (vw_state v) of
             None \<Rightarrow> backend_uncertain V r ''stored request result is malformed; not retrying mutation''
           | Some disposition \<Rightarrow>
               (case read_stored (sv_sanitizer V) disposition d of
                  Inl _ \<Rightarrow> backend_uncertain V r ''stored request result is malformed; not retrying mutation''
                | Inr e \<Rightarrow>
                    if en_action e = rq_action r \<and> json_optional (en_request_id e) = rq_request_id r \<and> \<not> en_dry_run e
                      \<and> en_status e = vw_status v \<and> en_disposition e = lit disposition
                      \<and> (vw_state v = Accepted \<and> vw_status v = status_accepted \<and> en_ok e
                         \<or> vw_state v = Rejected \<and> vw_status v \<notin> {status_pending, status_accepted, status_uncertain} \<and> \<not> en_ok e
                         \<or> vw_state v = Uncertain \<and> vw_status v = status_uncertain \<and> \<not> en_ok e)
                    then Inr e
                    else backend_uncertain V r ''stored request result is inconsistent; not retrying mutation''))
      | _ \<Rightarrow> backend_uncertain V r ''stored request result is unreadable; not retrying mutation'')"

definition stored_in_progress_envelope :: "'p service \<Rightarrow> command_request \<Rightarrow> receipt_view \<Rightarrow> envelope result" where
  "stored_in_progress_envelope V r v =
     (case json_loads (vw_result_json v) of
        None \<Rightarrow> request_in_progress V r
      | Some data \<Rightarrow>
          (case envelope_from_dict (sv_sanitizer V) data of
             Inl _ \<Rightarrow> request_in_progress V r
           | Inr e \<Rightarrow>
               if en_action e \<noteq> rq_action r \<or> json_optional (en_request_id e) \<noteq> rq_request_id r \<or> en_dry_run e \<or> en_ok e
                 \<or> en_status e \<noteq> status_pending \<or> en_disposition e \<noteq> lit ''in_progress'' \<or> vw_status v \<noteq> status_pending
               then request_in_progress V r else Inr e))"

definition submission_verdict :: "envelope \<Rightarrow> ustr" where
  "submission_verdict e =
     (case en_result e of None \<Rightarrow> [] | Some d \<Rightarrow> text_of (member d ''submission_verdict''))"

definition envelope_from_receipt ::
  "'p service \<Rightarrow> command_request \<Rightarrow> canonical_mutation \<Rightarrow> receipt_view option \<Rightarrow> envelope result" where
  "envelope_from_receipt V r c receipt =
     (case receipt of
        None \<Rightarrow> backend_uncertain V r ''stored request receipt is missing or malformed; not retrying mutation''
      | Some v \<Rightarrow>
          if vw_legacy_collision v
          then backend_uncertain V r ''stored request receipt is malformed; not retrying mutation''
          else if \<not> receipt_is_canonical V r c v then duplicate_request V r
          else case vw_state v of
            Uncertain \<Rightarrow>
              if vw_status v \<noteq> status_uncertain
              then backend_uncertain V r ''stored request receipt is inconsistent; not retrying mutation''
              else bind_result (stored_terminal_envelope V r v) (\<lambda>stored.
                if rq_action r = lit ''send_instruction'' \<and> submission_verdict stored \<noteq> [] then Inr stored
                else backend_uncertain V r ''previous request state is uncertain; not retrying mutation'')
          | Accepted \<Rightarrow> stored_terminal_envelope V r v
          | Rejected \<Rightarrow> stored_terminal_envelope V r v
          | _ \<Rightarrow>
              if vw_status v \<noteq> status_pending
              then backend_uncertain V r ''stored request receipt is inconsistent; not retrying mutation''
              else stored_in_progress_envelope V r v)"


section \<open>Looking again\<close>

definition read_receipt :: "'p service \<Rightarrow> command_request \<Rightarrow> (receipt_view option, 'p) act" where
  "read_receipt V r =
     transact (sv_at V) (\<lambda>E db. Inr (get_command_request db (sv_host_id V) (request_id_of r), db))"

definition linked_turn_for_submission :: "'p service \<Rightarrow> command_request \<Rightarrow> (members option, 'p) act" where
  "linked_turn_for_submission V r =
     transact (sv_at V) (\<lambda>E db. Inr
       (if \<not> db_exists db then None
        else case sql_fetchone (\<lambda>s. ts_host_id s = sv_host_id V \<and> ts_request_id s = request_id_of r
                \<and> ts_state s = LLinked \<and> ts_linked_turn_id s \<noteq> None) (submissions db) of
          None \<Rightarrow> None
        | Some s \<Rightarrow> Option.bind (ts_linked_turn_id s) (sv_observed_turn V db (sv_host_id V)), db))"

definition settle_for_request ::
  "'p service \<Rightarrow> command_request \<Rightarrow> ((submission_state \<times> ustr option \<times> nat) option, 'p) act" where
  "settle_for_request V r =
     transact (sv_at V) (\<lambda>E db. settle_submission_link_for_request E (sv_host_id V) (request_id_of r) None db)"

text \<open>Schema 3 is the same verdict with the submission's id and the turn it was linked to.\<close>

definition negotiated_submission_envelope :: "'p service \<Rightarrow> command_request \<Rightarrow> envelope \<Rightarrow> (envelope, 'p) act" where
  "negotiated_submission_envelope V r e =
     (case en_result e of
        None \<Rightarrow> give (Inr e)
      | Some result \<Rightarrow>
          if \<not> json_eq_int (rq_response_schema_version r) 3 \<or> rq_action r \<noteq> lit ''send_instruction''
            \<or> en_action e \<noteq> lit ''send_instruction'' \<or> en_disposition e \<noteq> lit ''terminal_accepted''
            \<or> en_status e \<noteq> status_accepted
          then give (Inr e)
          else
            and_then (give (turn_submission_id (sv_host_id V) (request_id_of r))) (\<lambda>submission_id.
            and_then (attempt (and_then (settle_for_request V r) (\<lambda>_. linked_turn_for_submission V r))) (\<lambda>found.
              let linked = (case found of Some (Some turn) \<Rightarrow> Some turn | _ \<Rightarrow> None);
                  turn_id = (case linked of None \<Rightarrow> JNull | Some turn \<Rightarrow> member turn ''id'');
                  observed = (case linked of
                      None \<Rightarrow> ''pending_observation''
                    | Some turn \<Rightarrow> if member turn ''complete'' = JBool True then ''complete'' else ''observed'');
                  result3 = dict_put (dict_put (dict_put result (lit ''submission_id'', JStr submission_id))
                      (lit ''turn_id'', turn_id)) (lit ''observed_turn_state'', JStr (lit observed))
              in give (make_envelope (sv_sanitizer V)
                \<lparr>ea_ok = JBool (en_ok e), ea_status = JStr (en_status e), ea_action = JStr (en_action e),
                 ea_disposition = JStr (en_disposition e), ea_request_id = json_optional (en_request_id e),
                 ea_dry_run = JBool (en_dry_run e), ea_result = JDict result3, ea_error = json_members (en_error e),
                 ea_warnings = JList (map JStr (en_warnings e)), ea_schema_version = JInt 3\<rparr>))))"

definition recover_request :: "'p service \<Rightarrow> command_request \<Rightarrow> canonical_mutation \<Rightarrow> (envelope, 'p) act" where
  "recover_request V r c =
     and_then (attempt (read_receipt V r)) (\<lambda>found.
     and_then (give (envelope_from_receipt V r c (case found of None \<Rightarrow> None | Some v \<Rightarrow> v))) (\<lambda>e.
       negotiated_submission_envelope V r e))"

section \<open>Reserving\<close>

definition owner_lease_seconds :: int where
  "owner_lease_seconds = 30"

definition selector_proof_of :: "'p service \<Rightarrow> command_request \<Rightarrow> ustr" where
  "selector_proof_of V r = (case build_selector_proof (sv_text V) r of Inl _ \<Rightarrow> [] | Inr p \<Rightarrow> p)"

definition command_args_of :: "'p service \<Rightarrow> command_request \<Rightarrow> canonical_mutation \<Rightarrow> ustr \<Rightarrow> command_args" where
  "command_args_of V r c selector_proof =
     \<lparr>cr_host_id = sv_host_id V, cr_request_id = request_id_of r, cr_action = cn_action c,
      cr_canonical_version = cn_version c, cr_canonical_fingerprint = cn_fingerprint c,
      cr_canonical_request_json = cn_canonical_json c, cr_public_worker_id = cn_public_worker_id c,
      cr_selector_proof = selector_proof, cr_legacy_fingerprint = Some (sv_payload_fingerprint V r)\<rparr>"

text \<open>The result is the owner token of a fresh reservation, or the envelope to answer with.\<close>

definition reserve_canonical_request ::
  "'p service \<Rightarrow> command_request \<Rightarrow> canonical_mutation \<Rightarrow> (envelope + ustr, 'p) act" where
  "reserve_canonical_request V r c =
     and_then (give (request_in_progress V r)) (\<lambda>pending.
     and_then (attempt (transact (sv_at V) (\<lambda>E db.
         (reserve_command_request E (command_args_of V r c (selector_proof_of V r)) (envelope_to_receipt_json pending)
            (Some (owner_lease_seconds * second)) None db :: (unit response \<times> 'p store) result)))) (\<lambda>reserved.
     case reserved of
       None \<Rightarrow>
         and_then (attempt (read_receipt V r)) (\<lambda>found.
           case found of
             Some (Some v) \<Rightarrow> and_then (give (envelope_from_receipt V r c (Some v))) (\<lambda>e. give (Inr (Inl e)))
           | _ \<Rightarrow> and_then (give (backend_unavailable V r ''command receipt store is unavailable'' [])) (\<lambda>e. give (Inr (Inl e))))
     | Some resp \<Rightarrow>
         if rs_status resp = RequestIdConflict
         then and_then (give (duplicate_request V r)) (\<lambda>e. give (Inr (Inl e)))
         else if rs_status resp \<noteq> Done Reserved
         then and_then (give (envelope_from_receipt V r c (rs_receipt resp))) (\<lambda>e. give (Inr (Inl e)))
         else case (rs_receipt resp, rs_owner_token resp) of
           (Some v, Some token) \<Rightarrow>
             if receipt_is_canonical V r c v \<and> vw_state v = Reserved \<and> vw_status v = status_pending \<and> token \<noteq> []
             then give (Inr (Inr token))
             else and_then (recover_request V r c) (\<lambda>e. give (Inr (Inl e)))
         | _ \<Rightarrow> and_then (recover_request V r c) (\<lambda>e. give (Inr (Inl e)))))"

section \<open>Finishing\<close>

definition terminal_envelope :: "'p service \<Rightarrow> command_request \<Rightarrow> envelope \<Rightarrow> receipt_state \<Rightarrow> envelope result" where
  "terminal_envelope V r e terminal =
     (case terminal_disposition terminal of
        None \<Rightarrow> Inl ValueError
      | Some disposition \<Rightarrow>
          from_result V r (en_ok e) (en_status e) disposition (en_result e) (en_error e) (en_warnings e))"

text \<open>A terminal effect runs on the other tables inside the finishing transaction, by its clock.\<close>

type_synonym 'p terminal_effect = "(store_env \<Rightarrow> 'p \<Rightarrow> (unit \<times> 'p) result) option"

definition finish_request ::
  "'p service \<Rightarrow> command_request \<Rightarrow> canonical_mutation \<Rightarrow> ustr \<Rightarrow> envelope \<Rightarrow> receipt_state \<Rightarrow> receipt_state
     \<Rightarrow> 'p terminal_effect \<Rightarrow> (envelope, 'p) act" where
  "finish_request V r c token e expected terminal effect =
     and_then (attempt (and_then (give (terminal_envelope V r e terminal)) (\<lambda>final.
         transact (sv_at V) (\<lambda>E db.
           (finish_command_request E (sv_host_id V) (request_id_of r) (cn_fingerprint c) token expected terminal
              (en_status final) (envelope_to_receipt_json final)
              (Some (transition_payload r (cn_public_worker_id c) (Some final))) (map_option (\<lambda>f. f E) effect) None db
            :: (unit response \<times> 'p store) result))))) (\<lambda>finished.
     case finished of
       None \<Rightarrow> recover_request V r c
     | Some resp \<Rightarrow> give (envelope_from_receipt V r c (rs_receipt resp)))"

definition finish_before_send ::
  "'p service \<Rightarrow> command_request \<Rightarrow> canonical_mutation \<Rightarrow> ustr \<Rightarrow> envelope \<Rightarrow> (envelope, 'p) act" where
  "finish_before_send V r c token e =
     finish_request V r c token e Reserved (if en_status e = status_uncertain then Uncertain else Rejected) None"

definition reserve_terminal_replay ::
  "'p service \<Rightarrow> command_request \<Rightarrow> canonical_mutation \<Rightarrow> receipt_view \<Rightarrow> envelope \<Rightarrow> (envelope, 'p) act" where
  "reserve_terminal_replay V r c previous replay =
     (let rejected = vw_state previous = Rejected \<and> \<not> en_ok replay
          \<and> en_status replay \<notin> {status_pending, status_accepted, status_uncertain};
          proof_kept = (if is_selector_proof (vw_selector_proof previous) then vw_selector_proof previous else []) in
      and_then (give (if rejected then Inr replay
          else backend_uncertain V r ''stored request evidence disappeared during replay; not retrying mutation'')) (\<lambda>final.
      and_then (attempt (transact (sv_at V) (\<lambda>E db.
          (reserve_terminal_command_replay E (command_args_of V r c proof_kept) (if rejected then Rejected else Uncertain)
             (en_status final) (envelope_to_receipt_json final)
             (Some (transition_payload r (cn_public_worker_id c) (Some final))) None db
           :: (unit response \<times> 'p store) result)))) (\<lambda>replayed.
      case replayed of
        None \<Rightarrow> recover_request V r c
      | Some resp \<Rightarrow> give (envelope_from_receipt V r c (rs_receipt resp)))))"


section \<open>Marking and prompting\<close>

text \<open>A worker's status is one of the canonical words, so lowering is that of ASCII.\<close>

definition target_state_at_send :: "worker \<Rightarrow> ustr" where
  "target_state_at_send w =
     (let s = map (\<lambda>c. if c = 45 then 95 else lower_char c) (py_strip (wk_status w)) in
      if s = [] then lit ''unknown'' else s)"

definition text_member_of :: "members \<Rightarrow> string \<Rightarrow> ustr" where
  "text_member_of d k = text_of (member d k)"

definition instruction_text :: "command_request \<Rightarrow> ustr" where
  "instruction_text r = text_member_of (the_members (rq_instruction r)) ''text''"

datatype mark_result = MarkAnswer envelope | MarkTurn members | MarkDone

definition mark_step ::
  "'p service \<Rightarrow> command_request \<Rightarrow> canonical_mutation \<Rightarrow> ustr \<Rightarrow> ustr \<Rightarrow> worker option \<Rightarrow> ustr option
     \<Rightarrow> store_env \<Rightarrow> 'p store \<Rightarrow> (unit response \<times> 'p store) result" where
  "mark_step V r c token binding wk txt E db =
     mark_command_send_started E (sv_host_id V) (request_id_of r) (cn_fingerprint c) token binding
       (Some (transition_payload r (cn_public_worker_id c) None)) None
       (map_option (\<lambda>w. \<lparr>lw_id = wk_id w, lw_meta = Some (wk_meta w)\<rparr>) wk) txt
       (sv_link_seconds V) (sv_hard_seconds V) None db"

definition mark_outcome ::
  "'p service \<Rightarrow> command_request \<Rightarrow> canonical_mutation \<Rightarrow> ustr \<Rightarrow> worker option \<Rightarrow> unit response option
     \<Rightarrow> (mark_result, 'p) act" where
  "mark_outcome V r c token wk started =
     (let recover = and_then (recover_request V r c) (\<lambda>e. give (Inr (MarkAnswer e))) in
     case started of
       None \<Rightarrow> recover
     | Some resp \<Rightarrow>
         (case rs_receipt resp of
            None \<Rightarrow> recover
          | Some v \<Rightarrow>
              if rs_status resp = Done SendStarted \<and> rs_owner_token resp = Some token \<and> vw_state v = SendStarted
                \<and> receipt_is_canonical V r c v
              then (case wk of
                  None \<Rightarrow> give (Inr MarkDone)
                | Some w \<Rightarrow>
                    and_then (linked_turn_for_submission V r) (\<lambda>linked.
                      give (Inr (MarkTurn (case linked of Some (kv # d) \<Rightarrow> kv # d | _ \<Rightarrow> [(lit ''id'', JNull)])))))
              else
                and_then (give (envelope_from_receipt V r c (Some v))) (\<lambda>embedded.
                if en_status embedded \<noteq> status_uncertain \<or> vw_state v \<in> {SendStarted, Uncertain}
                then give (Inr (MarkAnswer embedded)) else recover)))"

definition mark_request_send_started ::
  "'p service \<Rightarrow> command_request \<Rightarrow> canonical_mutation \<Rightarrow> ustr \<Rightarrow> ustr \<Rightarrow> worker option \<Rightarrow> ustr option
     \<Rightarrow> (mark_result, 'p) act" where
  "mark_request_send_started V r c token binding wk txt =
     and_then (attempt (transact (sv_at V) (mark_step V r c token binding wk txt))) (mark_outcome V r c token wk)"

text \<open>The verdicts of the backend, as the public result spells them.\<close>

definition sent_result :: "worker \<Rightarrow> string \<Rightarrow> string \<Rightarrow> members \<Rightarrow> ustr \<Rightarrow> members" where
  "sent_result w delivery transport extra verdict =
     [(lit ''target'', JDict [(lit ''worker_id'', JStr (wk_id w))]), (lit ''delivery_state'', JStr (lit delivery)),
      (lit ''transport_state'', JStr (lit transport)), (lit ''target_state_at_send'', JStr (target_state_at_send w))]
     @ extra @ [(lit ''submission_verdict'', JStr verdict)]"

definition turn_id_of :: "members \<Rightarrow> json" where
  "turn_id_of turn = (case member turn ''id'' of JStr (c # s) \<Rightarrow> JStr (c # s) | _ \<Rightarrow> JNull)"

definition has_source_turn :: "python_text \<Rightarrow> members \<Rightarrow> bool" where
  "has_source_turn P turn \<longleftrightarrow>
     (let v = member turn ''source_turn_id'' in \<not> falsy v \<and> py_strip (py_str P v) \<noteq> [])"

definition observed_turn_state :: "python_text \<Rightarrow> members \<Rightarrow> string" where
  "observed_turn_state P turn =
     (if \<not> has_source_turn P turn then ''pending_observation''
      else if member turn ''complete'' = JBool True then ''complete'' else ''observed'')"

definition accepted_send_envelope :: "'p service \<Rightarrow> command_request \<Rightarrow> worker \<Rightarrow> members \<Rightarrow> envelope result" where
  "accepted_send_envelope V r w turn =
     from_result V r True status_accepted ''terminal_accepted''
       (Some (sent_result w ''submitted'' ''submitted''
          [(lit ''turn_id'', turn_id_of turn),
           (lit ''observed_turn_state'', JStr (lit (observed_turn_state (sv_text V) turn)))] (lit ''submitted'')))
       None []"

definition queued_send_envelope :: "'p service \<Rightarrow> command_request \<Rightarrow> worker \<Rightarrow> envelope result" where
  "queued_send_envelope V r w =
     from_result V r False status_pending ''in_progress''
       (Some (sent_result w ''queued'' ''queued''
          [(lit ''turn_id'', JNull), (lit ''observed_turn_state'', JStr (lit ''pending_observation''))]
          (lit ''written_to_pty'')))
       (Some (error_value V status_pending (lit ''instruction is queued for the next agent turn boundary'') [])) []"

definition instruction_rejected_envelope :: "'p service \<Rightarrow> command_request \<Rightarrow> worker \<Rightarrow> ustr \<Rightarrow> envelope result" where
  "instruction_rejected_envelope V r w verdict =
     from_result V r False (lit ''rejected'') ''terminal_rejected''
       (Some (sent_result w ''not_delivered'' ''not_submitted'' [] verdict))
       (Some (error_value V (lit ''rejected'') (lit ''instruction was not delivered'') [])) []"

definition instruction_uncertain_envelope :: "'p service \<Rightarrow> command_request \<Rightarrow> worker \<Rightarrow> ustr \<Rightarrow> envelope result" where
  "instruction_uncertain_envelope V r w verdict =
     from_result V r False status_uncertain ''terminal_uncertain''
       (Some (sent_result w ''unknown'' ''unknown'' [] verdict))
       (Some (error_value V status_uncertain (lit ''instruction delivery is unknown; not retrying mutation'') [])) []"

text \<open>
  What \<open>agent.prompt\<close> came back with: a reply, or an exception, of which only the code of a
  definite error response matters.
\<close>

datatype prompt_reply = Reply json | Failed ustr

definition agent_prompt_delivery :: "json \<Rightarrow> ustr" where
  "agent_prompt_delivery v =
     (case v of
        JDict d \<Rightarrow> text_member_of (case member d ''result'' of JDict inner \<Rightarrow> inner | _ \<Rightarrow> d) ''delivery''
      | _ \<Rightarrow> [])"

definition definite_rejections :: "string list" where
  "definite_rejections =
     [''agent_not_ready'', ''agent_target_ambiguous'', ''agent_prompt_not_received'', ''agent_prompt_unsubmitted'',
      ''agent_input_pending'']"

definition record_queued_send ::
  "'p service \<Rightarrow> command_request \<Rightarrow> worker \<Rightarrow> canonical_mutation \<Rightarrow> ustr \<Rightarrow> envelope \<Rightarrow> (envelope, 'p) act" where
  "record_queued_send V r w c token e =
     and_then (attempt (transact (sv_at V) (\<lambda>E db.
         (record_command_send_queued E (sv_host_id V) (request_id_of r) (cn_fingerprint c) token
            (envelope_to_receipt_json e) (Some (transition_payload r (wk_id w) (Some e))) None db
          :: (unit response \<times> 'p store) result)))) (\<lambda>queued.
     case queued of
       None \<Rightarrow> recover_request V r c
     | Some resp \<Rightarrow> give (envelope_from_receipt V r c (rs_receipt resp)))"

definition after_prompt ::
  "'p service \<Rightarrow> command_request \<Rightarrow> worker \<Rightarrow> canonical_mutation \<Rightarrow> ustr \<Rightarrow> members \<Rightarrow> prompt_reply
     \<Rightarrow> (envelope, 'p) act" where
  "after_prompt V r w c token observed reply =
     (case reply of
        Failed code \<Rightarrow>
          if one_of code definite_rejections
          then and_then (give (instruction_rejected_envelope V r w code)) (\<lambda>e.
            finish_request V r c token e SendStarted Rejected None)
          else and_then (give (instruction_uncertain_envelope V r w
              (if code = lit ''agent_prompt_stalled'' then code else lit ''unknown''))) (\<lambda>e.
            finish_request V r c token e SendStarted Uncertain None)
      | Reply v \<Rightarrow>
          let verdict = agent_prompt_delivery v in
          if verdict = lit ''written_to_pty''
          then and_then (give (queued_send_envelope V r w)) (\<lambda>e. record_queued_send V r w c token e)
          else if verdict \<noteq> lit ''submitted''
          then and_then (give (instruction_uncertain_envelope V r w (lit ''unknown''))) (\<lambda>e.
            finish_request V r c token e SendStarted Uncertain None)
          else
            and_then (attempt (linked_turn_for_submission V r)) (\<lambda>refreshed.
            and_then (give (accepted_send_envelope V r w
                (case refreshed of Some (Some turn) \<Rightarrow> turn | _ \<Rightarrow> observed))) (\<lambda>e.
              finish_request V r c token e SendStarted Accepted None)))"

text \<open>\<open>reply\<close> is the backend's answer if it is prompted.\<close>

definition submit_instruction ::
  "'p service \<Rightarrow> command_request \<Rightarrow> worker \<Rightarrow> canonical_mutation \<Rightarrow> ustr \<Rightarrow> ustr \<Rightarrow> ustr \<Rightarrow> prompt_reply
     \<Rightarrow> (envelope, 'p) act" where
  "submit_instruction V r w c token target binding reply =
     and_then (mark_request_send_started V r c token binding (Some w) (Some (instruction_text r))) (\<lambda>started.
     case started of
       MarkAnswer e \<Rightarrow> give (Inr e)
     | MarkDone \<Rightarrow> recover_request V r c
     | MarkTurn observed \<Rightarrow>
         and_then (prompt target (AgentPrompt (instruction_text r))) (\<lambda>_. after_prompt V r w c token observed reply))"


section \<open>Deciding from the stored receipt\<close>

text \<open>
  The current snapshot of the workers, if one can be read, and whether the backend is the
  socket and healthy; both come from outside this protocol.
\<close>

record health =
  he_name :: ustr
  he_status :: ustr
  he_outcome :: ustr

record snapshot =
  sn_workers :: "worker list"
  sn_health :: "health list"

definition backend_health :: "snapshot \<Rightarrow> health" where
  "backend_health sn =
     (case List.find (\<lambda>h. he_name h = lit ''herdr'') (sn_health sn) of
        Some h \<Rightarrow> h
      | None \<Rightarrow> \<lparr>he_name = lit ''herdr'', he_status = lit ''unknown'', he_outcome = lit ''unknown''\<rparr>)"

definition backend_health_error ::
  "'p service \<Rightarrow> bool \<Rightarrow> command_request \<Rightarrow> snapshot \<Rightarrow> envelope option result" where
  "backend_health_error V socket r sn =
     (if \<not> socket
      then bind_result (backend_unavailable V r ''Herdr socket backend is not enabled'' []) (\<lambda>e. Inr (Some e))
      else
        let h = backend_health sn in
        if he_status h \<noteq> lit ''healthy''
        then bind_result (backend_unavailable V r ''Herdr socket backend is not healthy''
            [(lit ''backend'', JDict [(lit ''name'', JStr (he_name h)), (lit ''status'', JStr (he_status h)),
               (lit ''outcome'', JStr (he_outcome h))])]) (\<lambda>e. Inr (Some e))
        else Inr None)"

text \<open>The status of a refused worker is one of three plain words, so its \<open>repr\<close> only quotes it.\<close>

definition target_resolution_error ::
  "'p service \<Rightarrow> command_request \<Rightarrow> resolution \<Rightarrow> members list \<Rightarrow> envelope result" where
  "target_resolution_error V r status candidates =
     (let fail = (\<lambda>st shown message. from_result V r False (lit st) ''no_receipt''
          (Some [(lit ''candidates'', JList (map JDict shown))]) (Some (error_value V (lit st) message [])) []) in
      case status of
        TargetStale \<Rightarrow> fail ''stale_target'' candidates (lit ''target worker fingerprint does not match the current worker'')
      | TargetAmbiguous \<Rightarrow> fail ''ambiguous_target'' candidates (lit ''target matches more than one worker'')
      | TargetRejected \<Rightarrow> fail ''rejected'' candidates
          (lit ''target worker status does not allow instructions''
           @ (case candidates of [] \<Rightarrow> [] | w # _ \<Rightarrow> lit '': '' @ 39 # text_of (member w ''status'') @ [39]))
      | _ \<Rightarrow> fail ''not_found'' [] (lit ''no worker matches the target''))"

definition resolve_authoritative_worker ::
  "'p service \<Rightarrow> command_request \<Rightarrow> snapshot \<Rightarrow> (envelope + worker) result" where
  "resolve_authoritative_worker V r sn =
     (case resolve_target (sv_text V) (rq_target r) (sn_workers sn) True False of (resolved, candidates, status) \<Rightarrow>
        if status \<noteq> TargetResolved
        then bind_result (target_resolution_error V r status candidates) (\<lambda>e. Inr (Inl e))
        else case List.find (\<lambda>w. JStr (wk_id w) = member (the_members resolved) ''worker_id'') (sn_workers sn) of
          Some w \<Rightarrow> Inr (Inr w)
        | None \<Rightarrow> bind_result (target_resolution_error V r TargetNotFound []) (\<lambda>e. Inr (Inl e)))"

definition direct_replay_worker_id :: "command_request \<Rightarrow> ustr option" where
  "direct_replay_worker_id r =
     (let t = the_members (rq_target r) in
      if extra_fields [''worker_id'', ''worker_fingerprint''] t \<noteq> [] then None
      else case member t ''worker_id'' of JStr s \<Rightarrow> if py_strip s = [] then None else Some s | _ \<Rightarrow> None)"

definition legacy_v0_replay_worker_id :: string where
  "legacy_v0_replay_worker_id = ''legacy-v0-replay-only''"

definition receipt_malformed :: "'p service \<Rightarrow> command_request \<Rightarrow> envelope result" where
  "receipt_malformed V r = backend_uncertain V r ''stored request receipt is malformed; not retrying mutation''"

text \<open>
  Which worker a retry belongs to: the stored one, an envelope when it provably is another
  request, or nobody when nothing proves it.  \<open>snapshot\<close> is \<open>None\<close> when current authority may
  not, or cannot, be read.
\<close>

datatype proven = ProvenWorker ustr | ProvenOther envelope | Unproven

definition proven_replay_worker_id ::
  "'p service \<Rightarrow> bool \<Rightarrow> snapshot option \<Rightarrow> command_request \<Rightarrow> receipt_view \<Rightarrow> proven result" where
  "proven_replay_worker_id V socket sn r v =
     (let other = (\<lambda>m. bind_result m (\<lambda>e. Inr (ProvenOther e)));
          stored = vw_public_worker_id v;
          stored_proof = (if is_selector_proof (vw_selector_proof v) then vw_selector_proof v else []) in
      if vw_canonical_version v < 0 then other (receipt_malformed V r)
      else if vw_canonical_version v = 0
      then Inr (ProvenWorker (if stored = [] then lit legacy_v0_replay_worker_id else stored))
      else if stored = [] then other (receipt_malformed V r)
      else if rq_action r = lit ''answer_decision''
      then (if direct_replay_worker_id r \<noteq> Some stored then other (duplicate_request V r) else Inr (ProvenWorker stored))
      else if rq_action r \<noteq> lit ''send_instruction'' then Inr (ProvenWorker stored)
      else case direct_replay_worker_id r of
        Some w \<Rightarrow> if w \<noteq> stored then other (duplicate_request V r) else Inr (ProvenWorker stored)
      | None \<Rightarrow>
          if stored_proof \<noteq> [] \<and> stored_proof = selector_proof_of V r then Inr (ProvenWorker stored)
          else case sn of
            None \<Rightarrow> Inr Unproven
          | Some s \<Rightarrow>
              bind_result (backend_health_error V socket r s) (\<lambda>bad.
              if bad \<noteq> None then Inr Unproven
              else bind_result (resolve_authoritative_worker V r s) (\<lambda>found.
                case found of
                  Inl _ \<Rightarrow> Inr Unproven
                | Inr w \<Rightarrow> if wk_id w \<noteq> stored then other (duplicate_request V r) else Inr (ProvenWorker stored))))"

definition accepted_queued_send_envelope :: "'p service \<Rightarrow> command_request \<Rightarrow> envelope \<Rightarrow> members \<Rightarrow> envelope result" where
  "accepted_queued_send_envelope V r queued turn =
     (let before = the_members (en_result queued);
          observed = (if member turn ''complete'' = JBool True then ''complete''
            else if has_source_turn (sv_text V) turn then ''observed'' else ''pending_observation'') in
      from_result V r True status_accepted ''terminal_accepted''
       (Some [(lit ''target'', member before ''target''), (lit ''delivery_state'', JStr (lit ''submitted'')),
          (lit ''transport_state'', JStr (lit ''queued'')), (lit ''target_state_at_send'', member before ''target_state_at_send''),
          (lit ''turn_id'', turn_id_of turn), (lit ''observed_turn_state'', JStr (lit observed)),
          (lit ''submission_verdict'', JStr (lit ''written_to_pty''))]) None [])"

definition unverified_queued_send_envelope :: "'p service \<Rightarrow> command_request \<Rightarrow> envelope \<Rightarrow> envelope result" where
  "unverified_queued_send_envelope V r queued =
     (let before = the_members (en_result queued) in
      from_result V r False status_uncertain ''terminal_uncertain''
       (Some [(lit ''target'', member before ''target''), (lit ''delivery_state'', JStr (lit ''unknown'')),
          (lit ''transport_state'', JStr (lit ''unknown'')), (lit ''target_state_at_send'', member before ''target_state_at_send''),
          (lit ''turn_id'', JNull), (lit ''submission_verdict'', JStr (lit ''written_to_pty''))])
       (Some (error_value V status_uncertain
          (lit ''instruction verification expired; delivery is unknown and will not be retried'') [])) [])"

definition recovered_unknown_send_envelope :: "'p service \<Rightarrow> command_request \<Rightarrow> ustr \<Rightarrow> envelope result" where
  "recovered_unknown_send_envelope V r worker_id =
     from_result V r False status_uncertain ''terminal_uncertain''
       (Some [(lit ''target'', JDict [(lit ''worker_id'', JStr worker_id)]), (lit ''delivery_state'', JStr (lit ''unknown'')),
          (lit ''transport_state'', JStr (lit ''unknown'')), (lit ''submission_verdict'', JStr (lit ''unknown''))])
       (Some (error_value V status_uncertain
          (lit ''instruction delivery is unknown after process recovery; not retrying mutation'') [])) []"

text \<open>The end of every recovery: the recovered receipt, or the replay when the store refused.\<close>

definition resolved_or_replay ::
  "'p service \<Rightarrow> command_request \<Rightarrow> canonical_mutation \<Rightarrow> envelope \<Rightarrow> (unit response, 'p) act \<Rightarrow> (envelope, 'p) act" where
  "resolved_or_replay V r c replay m =
     and_then (attempt m) (\<lambda>finished.
     case finished of
       None \<Rightarrow> give (Inr replay)
     | Some resp \<Rightarrow> give (envelope_from_receipt V r c (rs_receipt resp)))"

definition queued_authority ::
  "'p service \<Rightarrow> command_request \<Rightarrow> canonical_mutation \<Rightarrow> ustr \<Rightarrow> receipt_view \<Rightarrow> envelope \<Rightarrow> (envelope, 'p) act" where
  "queued_authority V r c worker v replay =
     and_then (attempt (and_then (settle_for_request V r) (\<lambda>settlement.
         and_then (linked_turn_for_submission V r) (\<lambda>linked. give (Inr (settlement, linked)))))) (\<lambda>looked.
     case looked of
       None \<Rightarrow> give (Inr replay)
     | Some (_, Some turn) \<Rightarrow>
         and_then (give (accepted_queued_send_envelope V r replay turn)) (\<lambda>accepted.
         resolved_or_replay V r c replay (transact (sv_at V) (\<lambda>E db.
           finish_queued_command_request E (sv_host_id V) (request_id_of r) (cn_fingerprint c) (vw_result_json v)
             (envelope_to_receipt_json accepted) (Some (transition_payload r worker (Some accepted))) None db)))
     | Some (settlement, None) \<Rightarrow>
         if (case settlement of Some (st, _, _) \<Rightarrow> st \<notin> {LAmbiguous, LExpired} | None \<Rightarrow> True)
         then give (Inr replay)
         else and_then (give (unverified_queued_send_envelope V r replay)) (\<lambda>uncertain.
           resolved_or_replay V r c replay (transact (sv_at V) (\<lambda>E db.
             finish_unverified_queued_command_request E (sv_host_id V) (request_id_of r) (cn_fingerprint c) (vw_result_json v)
               (envelope_to_receipt_json uncertain) (Some (transition_payload r worker (Some uncertain))) None db))))"

text \<open>
  The result is the envelope the retry must get, or the worker of an abandoned reservation
  that may be driven again.  \<open>command_reservation_is_live\<close> reads the clock alone.
\<close>

definition receipt_authority ::
  "'p service \<Rightarrow> bool \<Rightarrow> snapshot option \<Rightarrow> store_env \<Rightarrow> command_request \<Rightarrow> receipt_view \<Rightarrow> (envelope + ustr, 'p) act" where
  "receipt_authority V socket sn E r v =
     (let answer = (\<lambda>m. and_then m (\<lambda>e. give (Inr (Inl e)))) in
      if vw_legacy_collision v then answer (give (receipt_malformed V r))
      else if vw_action v \<noteq> rq_action r then answer (give (duplicate_request V r))
      else
        and_then (give (proven_replay_worker_id V socket sn r v)) (\<lambda>proven.
        case proven of
          ProvenOther e \<Rightarrow> give (Inr (Inl e))
        | Unproven \<Rightarrow> answer (give (backend_uncertain V r ''stored request target cannot be proven; not retrying mutation''))
        | ProvenWorker worker \<Rightarrow>
            (case build_canonical_mutation (sv_text V) r worker of
               Inl _ \<Rightarrow> answer (give (receipt_malformed V r))
             | Inr c \<Rightarrow>
                 and_then (give (envelope_from_receipt V r c (Some v))) (\<lambda>replay.
                 if terminal_state (vw_state v)
                 then (if en_status replay = lit ''duplicate_request'' \<or> vw_canonical_version v = 0
                       then give (Inr (Inl replay))
                       else answer (reserve_terminal_replay V r c v replay))
                 else if en_status replay \<noteq> status_pending then give (Inr (Inl replay))
                 else if vw_state v = SendStarted
                 then (if submission_verdict replay = lit ''written_to_pty''
                       then answer (queued_authority V r c worker v replay)
                       else if command_reservation_is_live E v None then give (Inr (Inl replay))
                       else and_then (give (recovered_unknown_send_envelope V r worker)) (\<lambda>unknown.
                         answer (resolved_or_replay V r c replay (transact (sv_at V) (\<lambda>E db.
                           recover_unresolved_command_send E (sv_host_id V) (request_id_of r) (cn_fingerprint c)
                             (vw_result_json v) (envelope_to_receipt_json unknown)
                             (Some (transition_payload r worker (Some unknown))) None db)))))
                 else if command_reservation_is_live E v None then give (Inr (Inl replay))
                 else give (Inr (Inr worker))))))"


section \<open>Preparing the target\<close>

record binding =
  bd_backend :: ustr
  bd_worker_id :: ustr
  bd_worker_fingerprint :: ustr
  bd_sendable :: bool
  bd_target_kind :: ustr
  bd_target_value :: ustr
  bd_reason :: "ustr option"
  bd_private_fingerprint :: ustr

definition pane_submit_target_kinds :: "string list" where
  "pane_submit_target_kinds = [''agent_id'', ''agent'', ''name'', ''label'', ''terminal_id'', ''pane_id'']"

definition binding_error :: "'p service \<Rightarrow> command_request \<Rightarrow> string \<Rightarrow> string \<Rightarrow> envelope result" where
  "binding_error V r status message =
     from_result V r False (lit status) ''no_receipt'' None (Some (error_value V (lit status) (lit message) [])) []"

definition binding_for_worker ::
  "'p service \<Rightarrow> command_request \<Rightarrow> worker \<Rightarrow> binding list \<Rightarrow> (envelope + binding) result" where
  "binding_for_worker V r w bindings =
     (let fail = (\<lambda>st message. bind_result (binding_error V r st message) (\<lambda>e. Inr (Inl e)));
          unsupported = fail ''backend_unsupported'' ''target has no backend-owned sendable private binding'';
          ambiguous = fail ''ambiguous_backend_target'' ''target resolves to an ambiguous backend send target'';
          own = filter (\<lambda>b. bd_backend b = lit ''herdr'' \<and> bd_worker_id b = wk_id w) bindings in
      if own = [] then unsupported
      else case filter (\<lambda>b. bd_worker_fingerprint b = wk_fingerprint w) own of
        [] \<Rightarrow> fail ''stale_target'' ''target private binding is stale for the current worker''
      | [b] \<Rightarrow>
          if \<not> bd_sendable b \<or> bd_target_value b = [] \<or> \<not> one_of (bd_target_kind b) pane_submit_target_kinds
          then (if (case bd_reason b of None \<Rightarrow> False | Some why \<Rightarrow> one_of why [''duplicate_backend_target'', ''not_unique''])
                then ambiguous else unsupported)
          else Inr (Inr b)
      | _ \<Rightarrow> ambiguous)"

text \<open>How the backend answered the two private steps before a send, by class of exception.\<close>

datatype pane_lookup = PaneFound | PaneMissing | PaneRefused | PaneTransport | PaneMalformed | PaneUnclassified

datatype preparation = Prepared ustr ustr | PermanentFailure envelope | TransientFailure envelope

definition resolve_private_pane :: "'p service \<Rightarrow> command_request \<Rightarrow> pane_lookup \<Rightarrow> preparation option result" where
  "resolve_private_pane V r looked =
     (let failure = (\<lambda>message. bind_result (binding_error V r ''backend_failed'' message) (\<lambda>e. Inr (Some (PermanentFailure e)))) in
      case looked of
        PaneFound \<Rightarrow> Inr None
      | PaneMissing \<Rightarrow> failure ''Herdr socket private send target has no pane''
      | PaneRefused \<Rightarrow> failure ''Herdr socket could not resolve the private send target''
      | PaneTransport \<Rightarrow>
          bind_result (backend_unavailable V r ''Herdr socket could not resolve the private send target'' [])
            (\<lambda>e. Inr (Some (TransientFailure e)))
      | PaneMalformed \<Rightarrow> failure ''Herdr socket private send target is unsupported''
      | PaneUnclassified \<Rightarrow> failure ''Herdr socket private send target resolution failed'')"

definition prepare_instruction ::
  "'p service \<Rightarrow> command_request \<Rightarrow> worker \<Rightarrow> binding list option \<Rightarrow> bool \<Rightarrow> pane_lookup \<Rightarrow> preparation result" where
  "prepare_instruction V r w bindings connected looked =
     (case bindings of
        None \<Rightarrow> bind_result (backend_unavailable V r ''private binding store is unavailable'' [])
          (\<lambda>e. Inr (TransientFailure e))
      | Some bs \<Rightarrow>
          bind_result (binding_for_worker V r w bs) (\<lambda>found.
          case found of
            Inl e \<Rightarrow> Inr (PermanentFailure e)
          | Inr b \<Rightarrow>
              let fingerprint = py_strip (bd_private_fingerprint b) in
              if fingerprint = []
              then bind_result (binding_error V r ''backend_unsupported'' ''target private binding has no durable identity'')
                (\<lambda>e. Inr (PermanentFailure e))
              else if \<not> connected
              then bind_result (backend_unavailable V r ''Herdr socket could not be reached'' []) (\<lambda>e. Inr (TransientFailure e))
              else bind_result (resolve_private_pane V r looked) (\<lambda>failed.
                case failed of
                  Some p \<Rightarrow> Inr p
                | None \<Rightarrow> Inr (Prepared (bd_target_value b) fingerprint))))"

section \<open>The whole send\<close>

text \<open>
  What the surroundings answer during one call of \<open>submit_command\<close>; a retry reads the
  snapshot of the workers twice.
\<close>

record scene =
  sc_socket :: bool
  sc_replay_snapshot :: "snapshot option"
  sc_snapshot :: "snapshot option"
  sc_clock :: store_env
  sc_bindings :: "binding list option"
  sc_connected :: bool
  sc_pane :: pane_lookup
  sc_reply :: prompt_reply

definition worker_status_error :: "'p service \<Rightarrow> command_request \<Rightarrow> worker \<Rightarrow> envelope option result" where
  "worker_status_error V r w =
     (if \<not> one_of (wk_status w) disallowed_worker_statuses then Inr None
      else bind_result (target_resolution_error V r TargetRejected [worker_candidate False w]) (\<lambda>e. Inr (Some e)))"

definition drive_send ::
  "'p service \<Rightarrow> scene \<Rightarrow> command_request \<Rightarrow> ustr option \<Rightarrow> envelope option \<Rightarrow> worker \<Rightarrow> (envelope, 'p) act" where
  "drive_send V sc r takeover unhealthy w =
     (if (case takeover of None \<Rightarrow> False | Some stored \<Rightarrow> wk_id w \<noteq> stored) then give (duplicate_request V r)
      else
        and_then (give (build_canonical_mutation (sv_text V) r (wk_id w))) (\<lambda>c.
        and_then (give (worker_status_error V r w)) (\<lambda>refused.
        let permanent = (case refused of Some e \<Rightarrow> Some e | None \<Rightarrow> unhealthy) in
        and_then (give (if permanent \<noteq> None then Inr None
            else bind_result (prepare_instruction V r w (sc_bindings sc) (sc_connected sc) (sc_pane sc)) (\<lambda>p. Inr (Some p)))) (\<lambda>prepared.
        case prepared of
          Some (TransientFailure e) \<Rightarrow> give (if takeover \<noteq> None then request_in_progress V r else Inr e)
        | _ \<Rightarrow>
            and_then (reserve_canonical_request V r c) (\<lambda>reserved.
            case reserved of
              Inl e \<Rightarrow> give (Inr e)
            | Inr token \<Rightarrow>
                (case permanent of
                   Some e \<Rightarrow> finish_before_send V r c token e
                 | None \<Rightarrow>
                     (case prepared of
                        Some (PermanentFailure e) \<Rightarrow> finish_before_send V r c token e
                      | Some (Prepared target binding) \<Rightarrow>
                          submit_instruction V r w c token target binding (sc_reply sc)
                      | _ \<Rightarrow> give (Inl RuntimeError))))))))"

text \<open>An existing receipt decides a retry, or leaves the worker of its abandoned reservation to be driven again.\<close>

definition existing_authority :: "'p service \<Rightarrow> scene \<Rightarrow> command_request \<Rightarrow> (envelope + ustr option, 'p) act" where
  "existing_authority V sc r =
     and_then (attempt (read_receipt V r)) (\<lambda>found.
     case found of
       Some (Some v) \<Rightarrow>
         and_then (receipt_authority V (sc_socket sc) (sc_replay_snapshot sc) (sc_clock sc) r v) (\<lambda>decided.
           give (Inr (case decided of Inl e \<Rightarrow> Inl e | Inr stored \<Rightarrow> Inr (Some stored))))
     | _ \<Rightarrow> give (Inr (Inr None)))"

definition submit_send :: "'p service \<Rightarrow> scene \<Rightarrow> command_request \<Rightarrow> (envelope, 'p) act" where
  "submit_send V sc r =
     and_then (existing_authority V sc r) (\<lambda>decided.
     case decided of
       Inl e \<Rightarrow> give (Inr e)
     | Inr takeover \<Rightarrow>
         (case sc_snapshot sc of
            None \<Rightarrow> give (if takeover \<noteq> None then request_in_progress V r
              else backend_unavailable V r ''Current worker authority is temporarily unavailable'' [])
          | Some sn \<Rightarrow>
              and_then (give (backend_health_error V (sc_socket sc) r sn)) (\<lambda>unhealthy.
              and_then (give (resolve_authoritative_worker V r sn)) (\<lambda>resolved.
              case resolved of
                Inl e \<Rightarrow> give (if takeover \<noteq> None then request_in_progress V r
                  else Inr (case unhealthy of Some h \<Rightarrow> h | None \<Rightarrow> e))
              | Inr w \<Rightarrow> drive_send V sc r takeover unhealthy w))))"

text \<open>\<open>submit_command\<close> of a payload that is a live instruction.\<close>

definition submit_command :: "'p service \<Rightarrow> scene \<Rightarrow> command_request \<Rightarrow> (envelope, 'p) act" where
  "submit_command V sc r =
     and_then (submit_send V sc r) (\<lambda>e. negotiated_submission_envelope V r e)"


section \<open>Callers take the protocol's steps\<close>

text \<open>Everyone else, between two transactions, only runs the protocol too; retention is not among them.\<close>

definition lawful :: "'p service \<Rightarrow> bool" where
  "lawful V \<longleftrightarrow> (\<forall>n db. \<exists>es. command_run es db (ta_others (sv_at V n) db) \<and> RetentionPass \<notin> set es)"

definition steps_to :: "'p store \<Rightarrow> 'p store \<Rightarrow> bool" where
  "steps_to db db' \<longleftrightarrow> (\<exists>es. command_run es db db' \<and> RetentionPass \<notin> set es)"

definition silent :: "('a, 'p) act \<Rightarrow> bool" where
  "silent m \<longleftrightarrow> (\<forall>w. steps_to (w_store w) (w_store (snd (m w))) \<and> w_prompts (snd (m w)) = w_prompts w)"

lemma command_run_append: "command_run es db db1 \<Longrightarrow> command_run fs db1 db2 \<Longrightarrow> command_run (es @ fs) db db2"
  by (induction rule: command_run.induct) (auto intro: command_run.intros)

lemma steps_to_refl [intro]: "steps_to db db"
  by (auto simp: steps_to_def intro!: exI[of _ "[]"] run_nil)

lemma steps_to_trans: "steps_to a b \<Longrightarrow> steps_to b c \<Longrightarrow> steps_to a c"
  by (auto simp: steps_to_def) (metis Un_iff command_run_append set_append)

lemma steps_to_step: "command_step e db db' \<Longrightarrow> e \<noteq> RetentionPass \<Longrightarrow> steps_to db db'"
  by (auto simp: steps_to_def intro!: exI[of _ "[e]"] command_run.intros)

named_theorems quiet \<open>programs that only take steps of the protocol and never prompt\<close>

lemma silent_give [quiet]: "silent (give r)"
  by (auto simp: silent_def give_def)

lemma silent_and_then [quiet]: "silent m \<Longrightarrow> (\<And>x. silent (f x)) \<Longrightarrow> silent (and_then m f)"
  unfolding silent_def and_then_def
  by (auto split: prod.split sum.split) (metis steps_to_trans snd_conv)+

lemma silent_attempt [quiet]: "silent m \<Longrightarrow> silent (attempt m)"
  unfolding silent_def attempt_def by (auto split: prod.split sum.split) (metis snd_conv)+

lemma silent_transact:
  assumes "lawful V" "\<And>E db x db'. op E db = Inr (x, db') \<Longrightarrow> steps_to db db'"
  shows "silent (transact (sv_at V) op)"
proof -
  have o: "steps_to db (ta_others (sv_at V n) db)" for n db
    using assms(1) by (auto simp: lawful_def steps_to_def)
  show ?thesis
    unfolding silent_def transact_def Let_def
    using o assms(2) steps_to_trans by (auto split: sum.split if_splits) blast
qed

lemma silent_if [quiet]: "silent m \<Longrightarrow> silent n \<Longrightarrow> silent (if b then m else n)"
  by simp

lemma silent_option [quiet]: "silent m \<Longrightarrow> (\<And>x. silent (f x)) \<Longrightarrow> silent (case v of None \<Rightarrow> m | Some x \<Rightarrow> f x)"
  by (cases v) auto

lemma silent_sum [quiet]: "(\<And>x. silent (f x)) \<Longrightarrow> (\<And>x. silent (g x)) \<Longrightarrow> silent (case v of Inl x \<Rightarrow> f x | Inr x \<Rightarrow> g x)"
  by (cases v) auto

lemma silent_prod [quiet]: "(\<And>x y. silent (f x y)) \<Longrightarrow> silent (case v of (x, y) \<Rightarrow> f x y)"
  by (cases v) auto

lemma silent_let [quiet]: "silent (f v) \<Longrightarrow> silent (let x = v in f x)"
  by simp

lemma silent_read [quiet]: "lawful V \<Longrightarrow> silent (read_receipt V r)"
  unfolding read_receipt_def by (rule silent_transact) auto

lemma silent_linked [quiet]: "lawful V \<Longrightarrow> silent (linked_turn_for_submission V r)"
  unfolding linked_turn_for_submission_def by (rule silent_transact) auto

lemma silent_settle [quiet]: "lawful V \<Longrightarrow> silent (settle_for_request V r)"
  unfolding settle_for_request_def by (rule silent_transact) (auto intro!: steps_to_step step_settle)

lemma silent_negotiated [quiet]: "lawful V \<Longrightarrow> silent (negotiated_submission_envelope V r e)"
  unfolding negotiated_submission_envelope_def by (intro quiet)

lemma silent_recover [quiet]: "lawful V \<Longrightarrow> silent (recover_request V r c)"
  unfolding recover_request_def by (intro quiet)

lemma silent_op:
  assumes "lawful V" "\<And>E db x db'. op E db = Inr (x, db') \<Longrightarrow> \<exists>e. command_step e db db' \<and> e \<noteq> RetentionPass"
  shows "silent (transact (sv_at V) op)"
  by (rule silent_transact[OF assms(1)]) (use assms(2) steps_to_step in blast)

lemma silent_reserve [quiet]:
  fixes V :: "'p service"
  assumes "lawful V"
  shows "silent (reserve_canonical_request V r c)"
proof -
  have "silent (transact (sv_at V) (\<lambda>E db. (reserve_command_request E a j l None db :: (unit response \<times> 'p store) result)))"
    for a j l by (rule silent_op[OF assms]) (blast intro: step_reserve)
  then show ?thesis unfolding reserve_canonical_request_def using assms by (intro quiet)
qed

lemma silent_finish [quiet]:
  fixes V :: "'p service"
  assumes "lawful V"
  shows "silent (finish_request V r c token e expected terminal effect)"
proof -
  have "silent (transact (sv_at V) (\<lambda>E db. (finish_command_request E h q fp tok ex ts st j pl (f E) None db
      :: (unit response \<times> 'p store) result)))" for h q fp tok ex ts st j pl and f :: "store_env \<Rightarrow> ('p \<Rightarrow> (unit \<times> 'p) result) option"
    by (rule silent_op[OF assms]) (blast intro: step_finish)
  then show ?thesis unfolding finish_request_def using assms by (intro quiet)
qed

lemma silent_replay [quiet]:
  fixes V :: "'p service"
  assumes "lawful V"
  shows "silent (reserve_terminal_replay V r c v e)"
proof -
  have "silent (transact (sv_at V) (\<lambda>E db. (reserve_terminal_command_replay E a ts st j pl None db
      :: (unit response \<times> 'p store) result)))" for a ts st j pl
    by (rule silent_op[OF assms]) (blast intro: step_replay)
  then show ?thesis unfolding reserve_terminal_replay_def Let_def using assms by (intro quiet)
qed

lemma silent_queue [quiet]:
  fixes V :: "'p service"
  assumes "lawful V"
  shows "silent (record_queued_send V r w c token e)"
proof -
  have "silent (transact (sv_at V) (\<lambda>E db. (record_command_send_queued E h q fp tok j pl None db
      :: (unit response \<times> 'p store) result)))" for h q fp tok j pl
    by (rule silent_op[OF assms]) (blast intro: step_queue)
  then show ?thesis unfolding record_queued_send_def using assms by (intro quiet)
qed

lemma silent_after_prompt [quiet]: "lawful V \<Longrightarrow> silent (after_prompt V r w c token observed reply)"
  unfolding after_prompt_def Let_def by (cases reply) (auto intro!: quiet)


lemma silent_resolved [quiet]: "silent m \<Longrightarrow> silent (resolved_or_replay V r c e m)"
  unfolding resolved_or_replay_def by (intro quiet)

lemma silent_queued_authority [quiet]:
  fixes V :: "'p service"
  assumes "lawful V"
  shows "silent (queued_authority V r c w v e)"
proof -
  have q: "silent (transact (sv_at V) (\<lambda>E db. (finish_queued_command_request E h q fp qj aj pl None db
      :: (unit response \<times> 'p store) result)))" for h q fp qj aj pl
    by (rule silent_op[OF assms]) (blast intro: step_finish_queued)
  have u: "silent (transact (sv_at V) (\<lambda>E db. (finish_unverified_queued_command_request E h q fp qj aj pl None db
      :: (unit response \<times> 'p store) result)))" for h q fp qj aj pl
    by (rule silent_op[OF assms]) (blast intro: step_unverified)
  show ?thesis unfolding queued_authority_def using assms q u by (intro quiet)
qed

lemma silent_authority [quiet]:
  fixes V :: "'p service"
  assumes "lawful V"
  shows "silent (receipt_authority V socket sn E r v)"
proof -
  have q: "silent (transact (sv_at V) (\<lambda>E db. (recover_unresolved_command_send E h q fp qj aj pl None db
      :: (unit response \<times> 'p store) result)))" for h q fp qj aj pl
    by (rule silent_op[OF assms]) (blast intro: step_recover)
  have p: "silent (case x of ProvenWorker y \<Rightarrow> f y | ProvenOther e \<Rightarrow> g e | Unproven \<Rightarrow> m)"
    if "\<And>y. silent (f y)" "\<And>e. silent (g e)" "silent m" for x :: proven and f g and m :: "('x, 'p) act"
    using that by (cases x) auto
  show ?thesis unfolding receipt_authority_def Let_def using assms q by (intro quiet p)
qed

lemma silent_existing [quiet]: "lawful V \<Longrightarrow> silent (existing_authority V sc r)"
  unfolding existing_authority_def by (intro quiet)

text \<open>
  What a program may do to the world, when standing still before and after it changes nothing
  of that.
\<close>

definition still :: "'p world \<Rightarrow> 'p world \<Rightarrow> bool" where
  "still w w' \<longleftrightarrow> steps_to (w_store w) (w_store w') \<and> w_prompts w' = w_prompts w"

definition keeps_to :: "('p world \<Rightarrow> 'p world \<Rightarrow> bool) \<Rightarrow> ('a, 'p) act \<Rightarrow> bool" where
  "keeps_to R m \<longleftrightarrow> (\<forall>w. R w (snd (m w)))"

lemma silent_still: "silent m \<Longrightarrow> m w = (res, w') \<Longrightarrow> still w w'"
  unfolding silent_def still_def by (metis snd_conv)

locale tolerant =
  fixes R :: "'p world \<Rightarrow> 'p world \<Rightarrow> bool"
  assumes quiet: "still a b \<Longrightarrow> R a b"
    and around: "still a b \<Longrightarrow> R b c \<Longrightarrow> still c d \<Longrightarrow> R a d"
begin

lemma before: "still a b \<Longrightarrow> R b c \<Longrightarrow> R a c"
  by (rule around[where d = c]) (auto simp: still_def)

lemma after: "R a b \<Longrightarrow> still b c \<Longrightarrow> R a c"
  by (rule around[where b = a and c = b]) (auto simp: still_def)

lemma silent_kept: "silent m \<Longrightarrow> keeps_to R m"
  unfolding keeps_to_def using quiet silent_still by (metis prod.collapse)

lemma give_kept: "keeps_to R (give x)"
  by (rule silent_kept[OF silent_give])

lemma and_then_kept:
  assumes "silent m" "\<And>x. keeps_to R (f x)"
  shows "keeps_to R (and_then m f)"
  unfolding keeps_to_def
proof
  fix w
  obtain res w1 where m: "m w = (res, w1)" by (cases "m w")
  note s = silent_still[OF assms(1) m]
  show "R w (snd (and_then m f w))"
  proof (cases res)
    case (Inr x)
    then show ?thesis using before[OF s] assms(2) by (simp add: and_then_def m keeps_to_def)
  qed (use s quiet in \<open>simp add: and_then_def m\<close>)
qed

lemma then_silent_kept:
  assumes "keeps_to R m" "\<And>x. silent (f x)"
  shows "keeps_to R (and_then m f)"
  unfolding keeps_to_def
proof
  fix w
  obtain res w1 where m: "m w = (res, w1)" by (cases "m w")
  have r: "R w w1" using assms(1) m unfolding keeps_to_def by (metis snd_conv)
  show "R w (snd (and_then m f w))"
  proof (cases res)
    case (Inr x)
    obtain res2 w2 where f: "f x w1 = (res2, w2)" by (cases "f x w1")
    show ?thesis using after[OF r silent_still[OF assms(2) f]] Inr by (simp add: and_then_def m f)
  qed (use r in \<open>simp add: and_then_def m\<close>)
qed

lemma if_kept: "keeps_to R m \<Longrightarrow> keeps_to R n \<Longrightarrow> keeps_to R (if b then m else n)"
  by simp

lemma option_kept: "keeps_to R m \<Longrightarrow> (\<And>x. keeps_to R (f x)) \<Longrightarrow> keeps_to R (case v of None \<Rightarrow> m | Some x \<Rightarrow> f x)"
  by (cases v) auto

lemma sum_kept: "(\<And>x. keeps_to R (f x)) \<Longrightarrow> (\<And>x. keeps_to R (g x)) \<Longrightarrow> keeps_to R (case v of Inl x \<Rightarrow> f x | Inr x \<Rightarrow> g x)"
  by (cases v) auto

lemma prod_kept: "(\<And>x y. keeps_to R (f x y)) \<Longrightarrow> keeps_to R (case v of (x, y) \<Rightarrow> f x y)"
  by (cases v) auto

lemmas kept = if_kept option_kept sum_kept give_kept and_then_kept

end

text \<open>A program that prompts at most once, and only after its own mark was granted.\<close>

definition grants :: "ustr \<times> ustr \<Rightarrow> 'p store \<Rightarrow> 'p store \<Rightarrow> bool" where
  "grants k db db' \<longleftrightarrow>
     (\<exists>db1 db2. steps_to db db1 \<and> command_step (Marked k (Done SendStarted)) db1 db2 \<and> steps_to db2 db')"

lemma grants_extend: "steps_to a b \<Longrightarrow> grants k b c \<Longrightarrow> steps_to c d \<Longrightarrow> grants k a d"
  unfolding grants_def using steps_to_trans by blast

definition granted ::
  "ustr \<times> ustr \<Rightarrow> ((ustr \<times> pane_input) list \<Rightarrow> bool) \<Rightarrow> 'p world \<Rightarrow> 'p world \<Rightarrow> bool" where
  "granted k allowed w w' \<longleftrightarrow>
     steps_to (w_store w) (w_store w') \<and> w_prompts w' = w_prompts w
     \<or> grants k (w_store w) (w_store w') \<and> (\<exists>ps. allowed ps \<and> w_prompts w' = w_prompts w @ ps)"

abbreviation prompts_after_grant :: "ustr \<times> ustr \<Rightarrow> ((ustr \<times> pane_input) list \<Rightarrow> bool) \<Rightarrow> ('a, 'p) act \<Rightarrow> bool" where
  "prompts_after_grant k allowed \<equiv> keeps_to (granted k allowed)"

definition once :: "ustr \<Rightarrow> (ustr \<times> pane_input) list \<Rightarrow> bool" where
  "once txt ps \<longleftrightarrow> (\<exists>target. ps = [(target, AgentPrompt txt)])"

interpretation grant: tolerant "granted k allowed" for k allowed
proof
  fix a b c d :: "'a world"
  show "still a b \<Longrightarrow> granted k allowed a b" by (simp add: still_def granted_def)
  assume s: "still a b" "granted k allowed b c" "still c d"
  show "granted k allowed a d"
    using s steps_to_trans grants_extend[of "w_store a" "w_store b" k "w_store c" "w_store d"] unfolding still_def granted_def by metis
qed

lemma silentD: "silent m \<Longrightarrow> m w = (res, w') \<Longrightarrow> steps_to (w_store w) (w_store w') \<and> w_prompts w' = w_prompts w"
  unfolding silent_def by (metis snd_conv)

lemma and_then_Inr: "and_then m f w = (Inr y, w') \<longleftrightarrow> (\<exists>x w1. m w = (Inr x, w1) \<and> f x w1 = (Inr y, w'))"
  by (auto simp: and_then_def split: prod.splits sum.splits)

lemma attempt_Some: "attempt m w = (Inr (Some x), w') \<longleftrightarrow> m w = (Inr x, w')"
  by (auto simp: attempt_def split: prod.splits sum.splits)

lemma give_eq [simp]: "give x w = (y, w') \<longleftrightarrow> x = y \<and> w = w'"
  by (auto simp: give_def)

text \<open>The mark that lets a caller prompt is its own transaction, granted.\<close>

lemma mark_step_step:
  "mark_step V r c token binding wk txt E db = Inr (resp, db')
    \<Longrightarrow> command_step (Marked (sv_host_id V, request_id_of r) (rs_status resp)) db db'"
  unfolding mark_step_def by (rule step_mark)

lemma silent_mark_outcome [quiet]: "lawful V \<Longrightarrow> silent (mark_outcome V r c token wk started)"
  unfolding mark_outcome_def Let_def by (intro quiet)

lemma silent_mark [quiet]:
  assumes "lawful V"
  shows "silent (mark_request_send_started V r c token binding wk txt)"
  unfolding mark_request_send_started_def
  by (intro quiet silent_op assms) (blast dest: mark_step_step)

lemma mark_outcome_granted:
  assumes "mark_outcome V r c token wk started w = (Inr x, w')" "x \<notin> range MarkAnswer"
  shows "\<exists>resp. started = Some resp \<and> rs_status resp = Done SendStarted"
  using assms by (auto simp: mark_outcome_def Let_def and_then_Inr split: option.splits if_splits)

lemma mark_granted:
  assumes "lawful V" "mark_request_send_started V r c token binding wk txt w = (Inr x, w')" "x \<notin> range MarkAnswer"
  shows "grants (sv_host_id V, request_id_of r) (w_store w) (w_store w') \<and> w_prompts w' = w_prompts w"
proof -
  let ?t = "sv_at V (w_tick w)"
  let ?db = "ta_others ?t (w_store w)"
  obtain started w1 where s: "attempt (transact (sv_at V) (mark_step V r c token binding wk txt)) w = (Inr started, w1)"
      "mark_outcome V r c token wk started w1 = (Inr x, w')"
    using assms(2) unfolding mark_request_send_started_def and_then_Inr by blast
  obtain resp where a: "started = Some resp" "rs_status resp = Done SendStarted" using mark_outcome_granted[OF s(2) assms(3)] by blast
  have "transact (sv_at V) (mark_step V r c token binding wk txt) w = (Inr resp, w1)" using s(1) a(1) by (simp add: attempt_Some)
  then have m: "mark_step V r c token binding wk txt (ta_env ?t) ?db = Inr (resp, w_store w1)" "w_prompts w1 = w_prompts w"
    by (auto simp: transact_def Let_def split: sum.splits if_splits)
  have "steps_to (w_store w) ?db" using assms(1) by (auto simp: lawful_def steps_to_def)
  moreover have "command_step (Marked (sv_host_id V, request_id_of r) (Done SendStarted)) ?db (w_store w1)"
    using mark_step_step[OF m(1)] a(2) by simp
  moreover have "steps_to (w_store w1) (w_store w')" "w_prompts w' = w_prompts w1"
    using silentD[OF silent_mark_outcome[OF assms(1)] s(2)] by blast+
  ultimately show ?thesis unfolding grants_def using m(2) by metis
qed

lemma submit_instruction_prompts:
  fixes V :: "'p service"
  assumes "lawful V"
  shows "prompts_after_grant (sv_host_id V, request_id_of r) (once (instruction_text r))
    (submit_instruction V r wk c token target binding reply)"
  unfolding keeps_to_def
proof
  fix w
  let ?k = "(sv_host_id V, request_id_of r)" and ?m = "mark_request_send_started V r c token binding (Some wk) (Some (instruction_text r))"
  obtain res w1 where m: "?m w = (res, w1)" by (cases "?m w")
  note s = silentD[OF silent_mark[OF assms] m]
  show "granted ?k (once (instruction_text r)) w (snd (submit_instruction V r wk c token target binding reply w))"
  proof (cases "\<exists>turn. res = Inr (MarkTurn turn)")
    case True
    then obtain turn where turn: "res = Inr (MarkTurn turn)" by blast
    have g: "grants ?k (w_store w) (w_store w1) \<and> w_prompts w1 = w_prompts w"
      by (rule mark_granted[OF assms m[unfolded turn]]) auto
    obtain y w2 where a: "after_prompt V r wk c token turn reply (w1\<lparr>w_prompts := w_prompts w1 @ [(target, AgentPrompt (instruction_text r))]\<rparr>) = (y, w2)"
      by fastforce
    note q = silentD[OF silent_after_prompt[OF assms] a]
    have "snd (submit_instruction V r wk c token target binding reply w) = w2"
      by (simp add: submit_instruction_def and_then_def m turn prompt_def a)
    moreover have "grants ?k (w_store w) (w_store w2)"
      using grants_extend[OF steps_to_refl _ , of ?k "w_store w" "w_store w1" "w_store w2"] g q by simp
    ultimately show ?thesis using g q by (auto simp: granted_def once_def)
  next
    case False
    then have "submit_instruction V r wk c token target binding reply w =
      and_then (give res) (\<lambda>started. case started of MarkAnswer e \<Rightarrow> give (Inr e) | _ \<Rightarrow> recover_request V r c) w1"
      by (cases res) (auto simp: submit_instruction_def and_then_def m give_def split: mark_result.split)
    moreover have "silent (and_then (give res) (\<lambda>started. case started of MarkAnswer e \<Rightarrow> give (Inr e) | _ \<Rightarrow> recover_request V r c))"
    proof (intro silent_and_then silent_give)
      show "silent (case x of MarkAnswer e \<Rightarrow> give (Inr e) | _ \<Rightarrow> recover_request V r c)" for x
        using silent_recover[OF assms] silent_give by (cases x) auto
    qed
    ultimately show ?thesis
      using s silentD[of _ w1] steps_to_trans unfolding granted_def by (metis prod.collapse)
  qed
qed


lemma silent_before_send [quiet]: "lawful V \<Longrightarrow> silent (finish_before_send V r c token e)"
  unfolding finish_before_send_def by (intro quiet)

lemma drive_send_prompts:
  assumes "lawful V"
  shows "prompts_after_grant (sv_host_id V, request_id_of r) (once (instruction_text r)) (drive_send V sc r takeover unhealthy w)"
proof -
  let ?k = "(sv_host_id V, request_id_of r)" and ?t = "once (instruction_text r)"
  have p: "prompts_after_grant ?k ?t (case x of Prepared a b \<Rightarrow> f a b | PermanentFailure e \<Rightarrow> g e | TransientFailure e \<Rightarrow> h e)"
    if "\<And>a b. prompts_after_grant ?k ?t (f a b)" "\<And>e. prompts_after_grant ?k ?t (g e)" "\<And>e. prompts_after_grant ?k ?t (h e)"
    for x f g and h :: "envelope \<Rightarrow> (envelope, 'a) act"
    using that by (cases x) auto
  show ?thesis
    unfolding drive_send_def Let_def
    by (intro grant.kept silent_give p grant.silent_kept[OF silent_before_send] silent_reserve submit_instruction_prompts assms)
qed

lemma submit_send_prompts:
  assumes "lawful V"
  shows "prompts_after_grant (sv_host_id V, request_id_of r) (once (instruction_text r)) (submit_send V sc r)"
  unfolding submit_send_def
  by (intro grant.kept quiet drive_send_prompts assms)

lemma submit_command_prompts:
  assumes "lawful V"
  shows "prompts_after_grant (sv_host_id V, request_id_of r) (once (instruction_text r)) (submit_command V sc r)"
  unfolding submit_command_def
  by (intro grant.then_silent_kept submit_send_prompts silent_negotiated assms)

text \<open>A run in which a mark of a request is granted grants no other, and moves its receipt on.\<close>

lemma granted_once:
  assumes "command_run es db db'" "store_ok db" "RetentionPass \<notin> set es" "Marked k (Done SendStarted) \<in> set es"
  shows "sends_started k es = 1 \<and> (\<forall>rc. receipt_map db k = Some rc \<longrightarrow> rc_state rc = Reserved)
    \<and> (\<exists>rc. receipt_map db' k = Some rc \<and> rc_state rc \<noteq> Reserved)"
proof -
  have "0 < sends_started k es" using assms(4) by (auto simp: sends_started_def filter_empty_conv)
  then have one: "sends_started k es = 1" using run_sends_bound[OF assms(1-3), of k] by linarith
  have "rc_state rc = Reserved" if "receipt_map db k = Some rc" for rc
    using no_send_after_start[OF assms(1-3) that] one by (metis zero_neq_one)
  then show ?thesis using one run_sends_bound[OF assms(1-3), of k] by blast
qed

lemma granted_run:
  assumes "granted k allowed w w'"
  shows "\<exists>es. command_run es (w_store w) (w_store w') \<and> RetentionPass \<notin> set es
    \<and> (w_prompts w' = w_prompts w
       \<or> (\<exists>ps. allowed ps \<and> w_prompts w' = w_prompts w @ ps \<and> Marked k (Done SendStarted) \<in> set es))"
proof -
  consider (still) "steps_to (w_store w) (w_store w')" "w_prompts w' = w_prompts w"
    | (typed) ps where "grants k (w_store w) (w_store w')" "allowed ps" "w_prompts w' = w_prompts w @ ps"
    using assms unfolding granted_def by blast
  then show ?thesis
  proof cases
    case still
    then show ?thesis by (auto simp: steps_to_def)
  next
    case typed
    obtain db1 db2 es fs where run: "command_run es (w_store w) db1" "RetentionPass \<notin> set es"
        "command_step (Marked k (Done SendStarted)) db1 db2" "command_run fs db2 (w_store w')" "RetentionPass \<notin> set fs"
      using typed(1) by (auto simp: grants_def steps_to_def)
    have "command_run (es @ Marked k (Done SendStarted) # fs) (w_store w) (w_store w')"
      using command_run_append[OF run(1) run_step[OF run(3,4)]] .
    then show ?thesis using run(2,5) typed(2,3) by (intro exI[of _ "es @ Marked k (Done SendStarted) # fs"]) auto
  qed
qed

text \<open>
  C3: A caller that sends an instruction types it into the agent at most once, with the text
  of its request, and only after its own mark was granted; and when it does, nobody else,
  however many callers submit, retry, recover or replay the same request before, between
  and after its transactions, is granted a mark in the whole run, the receipt was absent or
  still reserved when it began, and it is past that for good.  When SQLite refuses any
  of its transactions this stays so.
\<close>

theorem instruction_is_typed_at_most_once:
  assumes "lawful V" "store_ok (w_store w)" "submit_command V sc r w = (res, w')"
  defines "k \<equiv> (sv_host_id V, request_id_of r)"
  shows "\<exists>es. command_run es (w_store w) (w_store w') \<and> RetentionPass \<notin> set es
    \<and> (w_prompts w' = w_prompts w
       \<or> (\<exists>target. w_prompts w' = w_prompts w @ [(target, AgentPrompt (instruction_text r))])
         \<and> sends_started k es = 1
         \<and> (\<forall>rc. receipt_map (w_store w) k = Some rc \<longrightarrow> rc_state rc = Reserved)
         \<and> (\<exists>rc. receipt_map (w_store w') k = Some rc \<and> rc_state rc \<noteq> Reserved))"
proof -
  have "granted k (once (instruction_text r)) w w'"
    using submit_command_prompts[OF assms(1), of r sc] assms(3) unfolding keeps_to_def k_def by (metis snd_conv)
  from granted_run[OF this] obtain es where es: "command_run es (w_store w) (w_store w')" "RetentionPass \<notin> set es"
    "w_prompts w' = w_prompts w \<or> (\<exists>ps. once (instruction_text r) ps \<and> w_prompts w' = w_prompts w @ ps \<and> Marked k (Done SendStarted) \<in> set es)"
    by blast
  then show ?thesis using granted_once[OF es(1) assms(2) es(2), of k] unfolding once_def by blast
qed


section \<open>The verdict a caller is given\<close>

lemma commit_shows_row:
  "commit_transition E h q cur pl db = Inr (row, db') \<Longrightarrow> command_request_row db' h q = Some row"
  by (auto simp: commit_transition_def bind_result_eq_Inr project_command_request_def command_transition_event_def
      append_event_def Let_def command_request_row_def split: option.splits if_splits)

lemma finish_shows_receipt:
  assumes "finish_command_request E h q fp tok ex ts st j pl None now db = Inr (resp, db')"
  shows "rs_receipt resp = map_option command_receipt_from_row (command_request_row db' h q)"
proof (cases "command_request_row (connect_prepare db) h q")
  case None
  then show ?thesis using assms by (auto simp: finish_command_request_def Let_def split: if_splits)
next
  case (Some row)
  then show ?thesis using assms
    by (auto simp: finish_command_request_def Let_def bind_result_eq_Inr command_request_response_def
        split: if_splits dest!: commit_shows_row)
qed

lemma text_or_null_Inr: "text_or_null v = Inr t \<Longrightarrow> v = json_optional t"
  by (cases v) (auto simp: json_optional_def)

lemma flag_Inr: "flag v = Inr b \<Longrightarrow> v = JBool b"
  by (cases v) auto

lemma from_result_fields:
  assumes "from_result V r ok st d res err ws = Inr e"
  shows "en_ok e = ok" "en_status e = st" "en_action e = rq_action r" "en_disposition e = lit d"
    "json_optional (en_request_id e) = rq_request_id r" "rq_dry_run r = JBool (en_dry_run e)"
    "en_schema_version e = 2" "typed e" "envelope_checks e"
    "en_result e = map_option (public_mapping (sv_sanitizer V)) res"
proof -
  note m = assms[unfolded from_result_def make_envelope_Inr]
  show "typed e" using made_envelope_typed assms unfolding from_result_def by blast
  show "envelope_checks e" using m by blast
  show "en_ok e = ok" "en_status e = st" "en_action e = rq_action r" "en_disposition e = lit d"
    "json_optional (en_request_id e) = rq_request_id r" "rq_dry_run r = JBool (en_dry_run e)"
    "en_schema_version e = 2" "en_result e = map_option (public_mapping (sv_sanitizer V)) res"
    using m by (auto simp: envelope_types_def bind_result_eq_Inr clean_envelope_def
        dest!: text_or_null_Inr flag_Inr split: if_splits)
qed

text \<open>What a receipt with this verdict is read as.\<close>

lemma stored_verdict_read:
  assumes v: "terminal_state (vw_state v)" "terminal_disposition (vw_state v) = Some d"
    and f: "from_result V r ok (vw_status v) d res err ws = Inr final" "vw_result_json v = envelope_to_receipt_json final"
    and live: "rq_dry_run r = JBool False"
    and clean: "plain_envelope final" "settled (sv_sanitizer V) (sort_envelope final)"
  shows "stored_terminal_envelope V r v = Inr (sort_envelope final)"
proof -
  note fields = from_result_fields[OF f(1)]
  obtain s where s: "sort_keys (JDict (envelope_to_dict final)) = JDict s" by simp
  note st = stored_envelope[OF fields(8,9) clean, unfolded s]
  have "member s ''schema_version'' = JInt 2"
    using member_sort_keys(1)[OF envelope_dict_keys(2) s] fields(7) by (simp add: envelope_dict_members)
  then have rd: "read_stored (sv_sanitizer V) d s = Inr (sort_envelope final)"
    using st(2) by (simp add: read_stored_def)
  have "en_dry_run final = False" using fields(6) live by simp
  moreover have "vw_state v = Accepted \<and> vw_status v = status_accepted \<and> en_ok final
      \<or> vw_state v = Rejected \<and> vw_status v \<notin> {status_pending, status_accepted, status_uncertain} \<and> \<not> en_ok final
      \<or> vw_state v = Uncertain \<and> vw_status v = status_uncertain \<and> \<not> en_ok final"
    using fields(2,4,9) v
    by (cases "vw_state v") (auto simp: terminal_disposition_def envelope_checks_def disposition_tuple_def one_of_def
        terminal_rejection_statuses_def)
  ultimately show ?thesis
    using st(1) rd v(2) fields by (simp add: stored_terminal_envelope_def f(2))
qed

lemma verdict_read:
  assumes "receipt_is_canonical V r c v" "\<not> vw_legacy_collision v" "terminal_state (vw_state v)"
    and "terminal_disposition (vw_state v) = Some d"
    and "from_result V r ok (vw_status v) d res err ws = Inr final" "vw_result_json v = envelope_to_receipt_json final"
    and "rq_dry_run r = JBool False" "plain_envelope final" "settled (sv_sanitizer V) (sort_envelope final)"
    and "vw_state v = Uncertain \<Longrightarrow> rq_action r = lit ''send_instruction'' \<and> submission_verdict (sort_envelope final) \<noteq> []"
  shows "envelope_from_receipt V r c (Some v) = Inr (sort_envelope final)"
proof -
  note s = stored_verdict_read[OF assms(3-9)]
  have "vw_state v = Uncertain \<Longrightarrow> vw_status v = status_uncertain"
    using from_result_fields(2,4,9)[OF assms(5)] assms(4)
    by (auto simp: terminal_disposition_def envelope_checks_def disposition_tuple_def)
  then show ?thesis using assms s
    by (cases "vw_state v") (auto simp: envelope_from_receipt_def)
qed


lemma terminal_envelope_status:
  assumes "terminal_envelope V r e ts = Inr final"
  obtains d where "terminal_disposition ts = Some d" "terminal_state ts" "terminal_status_ok ts (en_status final)"
    "en_status final = en_status e" "en_status final \<noteq> status_answer_in_progress"
    "from_result V r (en_ok e) (en_status e) d (en_result e) (en_error e) (en_warnings e) = Inr final"
proof -
  obtain d where d: "terminal_disposition ts = Some d"
      "from_result V r (en_ok e) (en_status e) d (en_result e) (en_error e) (en_warnings e) = Inr final"
    using assms by (auto simp: terminal_envelope_def split: option.splits)
  note f = from_result_fields[OF d(2)]
  have "terminal_state ts" using d(1) by (cases ts) (auto simp: terminal_disposition_def)
  moreover have "terminal_status_ok ts (en_status final)" "en_status final \<noteq> status_answer_in_progress"
    using f(2,4,9) d(1)
    by (cases ts; auto simp: terminal_status_ok_def terminal_disposition_def envelope_checks_def disposition_tuple_def
        one_of_def terminal_rejection_statuses_def)+
  ultimately show thesis using that d f(2) by blast
qed

lemma terminal_row_view:
  "vw_state (command_receipt_from_row (terminal_row ts st j cur rc)) = ts"
  "vw_status (command_receipt_from_row (terminal_row ts st j cur rc)) = st"
  "vw_result_json (command_receipt_from_row (terminal_row ts st j cur rc)) = j"
  "vw_legacy_collision (command_receipt_from_row (terminal_row ts st j cur rc)) = rc_legacy_collision rc"
  "receipt_is_canonical V r c (command_receipt_from_row (terminal_row ts st j cur rc))
     = receipt_is_canonical V r c (command_receipt_from_row rc)"
  by (simp_all add: command_receipt_from_row_def terminal_row_def receipt_is_canonical_def)

text \<open>
  C4: The verdict the owner of a started send reports is recorded and final: its finishing
  transaction, if SQLite takes it, makes the receipt terminal in the state reported,
  the caller is answered with the envelope it recorded, and whatever anyone does to the
  store afterwards (short of a retention sweep), every retry of the request reads that very
  envelope from the receipt.  The sanitizer is only asked to leave its own output alone.
\<close>

theorem reported_verdict_is_final:
  assumes db: "db = ta_others (sv_at V (w_tick w)) (w_store w)" and took: "\<not> ta_refused (sv_at V (w_tick w))"
    and row: "store_ok db" "command_request_row db (sv_host_id V) (request_id_of r) = Some rc"
      "may_finish rc (cn_fingerprint c) token SendStarted"
    and canon: "receipt_is_canonical V r c (command_receipt_from_row rc)" "rq_dry_run r = JBool False"
    and final: "terminal_envelope V r e ts = Inr final" "plain_envelope final" "settled (sv_sanitizer V) (sort_envelope final)"
      "ts = Uncertain \<Longrightarrow> rq_action r = lit ''send_instruction'' \<and> submission_verdict (sort_envelope final) \<noteq> []"
  shows "\<exists>w'. finish_request V r c token e SendStarted ts None w = (Inr (sort_envelope final), w') \<and> w_prompts w' = w_prompts w
    \<and> (\<forall>es db'. command_run es (w_store w') db' \<and> RetentionPass \<notin> set es \<longrightarrow>
        (\<exists>rc'. command_request_row db' (sv_host_id V) (request_id_of r) = Some rc' \<and> rc_state rc' = ts
          \<and> envelope_from_receipt V r c (Some (command_receipt_from_row rc')) = Inr (sort_envelope final)))"
proof -
  let ?h = "sv_host_id V" and ?q = "request_id_of r" and ?E = "ta_env (sv_at V (w_tick w))"
  let ?st = "en_status final" and ?j = "envelope_to_receipt_json final"
  let ?pl = "Some (transition_payload r (cn_public_worker_id c) (Some final))"
  let ?s = "terminal_row ts ?st ?j (command_request_now ?E None) rc"
  obtain d where d: "terminal_disposition ts = Some d" "terminal_state ts" "terminal_status_ok ts ?st"
      "?st = en_status e" "?st \<noteq> status_answer_in_progress"
      "from_result V r (en_ok e) (en_status e) d (en_result e) (en_error e) (en_warnings e) = Inr final"
    by (rule terminal_envelope_status[OF final(1)])
  obtain resp :: "unit response" and db2 where f: "finish_command_request ?E ?h ?q (cn_fingerprint c) token SendStarted ts ?st ?j ?pl
      None None db = Inr (resp, db2)"
    using finish_total[OF row(1), where ex = SendStarted and ts = ts and st = ?st and ?'e = unit] d(3,5) by fastforce
  have m: "contract (?h, ?q) db db2" "receipt_map db2 = (receipt_map db)((?h, ?q) := Some ?s)"
    using finish_cases[OF row(1) f] row(2,3) by auto
  have row2: "command_request_row db2 ?h ?q = Some ?s" using m(2) by (simp add: receipt_map_def fun_eq_iff)
  have rs: "rs_receipt resp = Some (command_receipt_from_row ?s)"
    using finish_shows_receipt[OF f] row2 by simp
  have "\<not> rc_legacy_collision rc"
    using store_ok_row(3)[OF row(1,2)] row(3) by (auto simp: receipt_check_def may_finish_def)
  then have env: "envelope_from_receipt V r c (Some (command_receipt_from_row ?s)) = Inr (sort_envelope final)"
    using d final canon
    by (intro verdict_read[where d = d and ok = "en_ok e" and res = "en_result e" and err = "en_error e" and ws = "en_warnings e"])
      (simp_all add: terminal_row_view)
  let ?w' = "w\<lparr>w_store := db2, w_tick := Suc (w_tick w)\<rparr>"
  have "finish_request V r c token e SendStarted ts None w = (Inr (sort_envelope final), ?w')"
    using took f by (simp add: finish_request_def and_then_def attempt_def give_def transact_def Let_def final(1) db rs env)
  moreover have "\<exists>rc'. command_request_row db' ?h ?q = Some rc' \<and> rc_state rc' = ts
        \<and> envelope_from_receipt V r c (Some (command_receipt_from_row rc')) = Inr (sort_envelope final)"
    if run: "command_run es db2 db'" "RetentionPass \<notin> set es" for es db'
  proof -
    have "store_ok db2" using m(1) by (simp add: contract_def)
    then obtain u where "receipt_map db' (?h, ?q) = Some u" "receipt_kept ?s u"
      using run_keeps_receipt[OF run(1) _ run(2), of "(?h, ?q)" ?s] row2 by (auto simp: receipt_map_def)
    moreover have "terminal_state (rc_state ?s)" using d(2) by (simp add: terminal_row_def)
    ultimately have "command_request_row db' ?h ?q = Some ?s" by (auto simp: receipt_kept_def receipt_map_def)
    then show ?thesis using env by (simp add: terminal_row_def)
  qed
  moreover have "w_prompts ?w' = w_prompts w" "w_store ?w' = db2" by simp_all
  ultimately show ?thesis by metis
qed

section \<open>Examples\<close>

definition ex_service :: "unit service" where
  "ex_service =
     \<lparr>sv_text = ex_text, sv_sanitizer = ex_sanitizer, sv_host_id = lit ''h'', sv_link_seconds = 120, sv_hard_seconds = 900,
      sv_at = (\<lambda>_. \<lparr>ta_env = ex_env, ta_refused = False, ta_others = (\<lambda>db. db)\<rparr>),
      sv_observed_turn = (\<lambda>_ _ _. None), sv_payload_fingerprint = (\<lambda>_. lit ''legacy'')\<rparr>"

definition ex_canonical :: canonical_mutation where
  "ex_canonical =
     \<lparr>cn_version = 1, cn_action = lit ''send_instruction'', cn_public_worker_id = lit ''w'',
      cn_canonical_json = lit ''{}'', cn_fingerprint = lit ''fp''\<rparr>"

definition ex_request :: command_request where
  "ex_request = ex_send ''r'' [(lit ''worker_id'', JStr (lit ''w''))] (lit ''hi'')"

definition ex_final :: envelope where
  "ex_final = ex_accepted\<lparr>en_request_id := Some (lit ''r'')\<rparr>"

lemma ex_id: "is_valid_request_id (lit ''r'')"
  by code_simp

lemma ex_final: "terminal_envelope ex_service ex_request ex_final Accepted = Inr ex_final"
  by (simp add: terminal_envelope_def terminal_disposition_def from_result_def make_envelope_Inr envelope_types_def
      ex_final_def ex_request_def ex_send_def ex_service_def ex_accepted_def clean_envelope_def ex_sanitizer_def
      one_of_def valid_statuses_def valid_dispositions_def json_texts_def List.map_filter_simps envelope_checks_def
      live_mutation_def mutating_def mutating_actions_def has_request_id_def ex_id disposition_tuple_def json_members_def)

theorem reported_verdict_is_final_witness:
  "\<exists>w'. finish_request ex_service ex_request ex_canonical (lit ''tok'') ex_final SendStarted Accepted None
       \<lparr>w_store = ex_store [ex_receipt SendStarted] [ex_submission LSendStarted], w_tick = 0, w_prompts = []\<rparr>
     = (Inr (sort_envelope ex_final), w') \<and> w_prompts w' = []"
proof -
  let ?db = "ex_store [ex_receipt SendStarted] [ex_submission LSendStarted]"
  let ?w = "\<lparr>w_store = ?db, w_tick = 0, w_prompts = []\<rparr>"
  have k: "sv_host_id ex_service = lit ''h''" "request_id_of ex_request = lit ''r''"
    by (simp_all add: ex_service_def request_id_of_def ex_request_def ex_send_def)
  have q: "?db = ta_others (sv_at ex_service (w_tick ?w)) (w_store ?w)" "\<not> ta_refused (sv_at ex_service (w_tick ?w))"
    by (simp_all add: ex_service_def)
  have row: "store_ok ?db" "command_request_row ?db (sv_host_id ex_service) (request_id_of ex_request) = Some (ex_receipt SendStarted)"
    using ex_store_ok(1)[of SendStarted] by (simp_all add: k ex_row)
  have m: "may_finish (ex_receipt SendStarted) (cn_fingerprint ex_canonical) (lit ''tok'') SendStarted"
    by (simp add: may_finish_def ex_receipt_def ex_canonical_def owns_def)
  have c: "receipt_is_canonical ex_service ex_request ex_canonical (command_receipt_from_row (ex_receipt SendStarted))"
    by (simp add: receipt_is_canonical_def command_receipt_from_row_def ex_receipt_def ex_request_def ex_send_def ex_canonical_def)
  have d: "rq_dry_run ex_request = JBool False" by (simp add: ex_request_def ex_send_def)
  have p: "plain_envelope ex_final" "settled (sv_sanitizer ex_service) (sort_envelope ex_final)"
    by (simp_all add: plain_envelope_def json_members_def settled_def clean_envelope_def sort_envelope_def ex_final_def
        ex_accepted_def ex_service_def ex_sanitizer_def option.map_ident)
  from reported_verdict_is_final[OF q row m c d ex_final p] show ?thesis by auto
qed

theorem instruction_is_typed_at_most_once_witness:
  "\<exists>res w' es. submit_command ex_service
       \<lparr>sc_socket = True, sc_replay_snapshot = None, sc_snapshot = None, sc_clock = ex_env, sc_bindings = None,
        sc_connected = True, sc_pane = PaneFound, sc_reply = Failed []\<rparr> ex_request
       \<lparr>w_store = ex_store [ex_receipt SendStarted] [], w_tick = 0, w_prompts = []\<rparr> = (res, w')
     \<and> command_run es (ex_store [ex_receipt SendStarted] []) (w_store w') \<and> w_prompts w' = []"
proof -
  let ?sc = "\<lparr>sc_socket = True, sc_replay_snapshot = None, sc_snapshot = None, sc_clock = ex_env, sc_bindings = None,
        sc_connected = True, sc_pane = PaneFound, sc_reply = Failed []\<rparr>"
  let ?db = "ex_store [ex_receipt SendStarted] []"
  let ?w = "\<lparr>w_store = ?db, w_tick = 0, w_prompts = []\<rparr>"
  have l: "lawful ex_service"
    by (auto simp: lawful_def ex_service_def intro!: exI[of _ "[]"] run_nil)
  have ok: "store_ok (w_store ?w)" using ex_store_ok(2)[of SendStarted] by simp
  obtain res w' where s: "submit_command ex_service ?sc ex_request ?w = (res, w')" by fastforce
  have "receipt_map ?db (sv_host_id ex_service, request_id_of ex_request) = Some (ex_receipt SendStarted)"
    by (simp add: receipt_map_def ex_service_def request_id_of_def ex_request_def ex_send_def ex_row)
  moreover have "rc_state (ex_receipt SendStarted) = SendStarted" by (simp add: ex_receipt_def)
  ultimately show ?thesis using instruction_is_typed_at_most_once[OF l ok s] s by auto
qed

end
