(* ===== verification/Decisions.thy ===== *)
theory Decisions
  imports CommandRequests
begin

text \<open>
  Decisions an agent is waiting for: the connector-facing form of a decision
  (\<open>_normalize_pending_decision_meta\<close> of \<open>store/sqlite.py\<close>), the selections a request may
  make on it, and the keys \<open>backends/herdr_decision.py\<close> turns a selection into.
\<close>

section \<open>The public form of a decision\<close>

record decision =
  dn_ref :: ustr
  dn_kind :: ustr
  dn_prompt :: ustr
  dn_options :: "(ustr \<times> ustr) list"
  dn_multi_select :: bool
  dn_question_count :: int

definition decision_kinds :: "string list" where
  "decision_kinds = [''single'', ''multi'', ''plan'']"

text \<open>Testing an unhashable value for membership in a set raises \<open>TypeError\<close>.\<close>

fun in_words :: "json \<Rightarrow> string list \<Rightarrow> bool result" where
  "in_words (JStr s) ws = Inr (s \<in> set (map lit ws))"
| "in_words (JList xs) ws = Inl TypeError"
| "in_words (JDict d) ws = Inl TypeError"
| "in_words v ws = Inr False"

fun decision_option :: "nat \<Rightarrow> json \<Rightarrow> (ustr \<times> ustr) result" where
  "decision_option ordinal (JDict d) =
     (if has_members d [''ref'', ''label''] \<and> member d ''ref'' = JStr (show_nat ordinal) \<and> nonblank (member d ''label'')
      then Inr (show_nat ordinal, text_of (member d ''label'')) else Inl ValueError)"
| "decision_option ordinal v = Inl ValueError"

fun decision_options :: "nat \<Rightarrow> json list \<Rightarrow> (ustr \<times> ustr) list result" where
  "decision_options n [] = Inr []"
| "decision_options n (v # vs) =
     bind_result (decision_option n v) (\<lambda>x. bind_result (decision_options (Suc n) vs) (\<lambda>xs. Inr (x # xs)))"

definition normalize_pending_decision_meta :: "json \<Rightarrow> decision result" where
  "normalize_pending_decision_meta v =
     (case v of JDict d \<Rightarrow>
        let ref = member d ''decision_ref''; kind = member d ''kind''; prompt = member d ''prompt'';
            options = member d ''options''; multi = member d ''multi_select''; count = member d ''question_count'' in
        if \<not> has_members d [''decision_ref'', ''kind'', ''prompt'', ''options'', ''multi_select'', ''question_count'']
        then Inl ValueError
        else if \<not> nonblank ref then Inl ValueError
        else bind_result (in_words kind decision_kinds) (\<lambda>known.
          if \<not> known \<or> \<not> nonblank prompt then Inl ValueError
          else (case (options, multi, count) of
            (JList (x # xs), JBool b, JInt n) \<Rightarrow>
              if b \<noteq> (text_of kind = lit ''multi'') \<or> n < 1 then Inl ValueError
              else bind_result (decision_options 1 (x # xs)) (\<lambda>opts.
                Inr \<lparr>dn_ref = text_of ref, dn_kind = text_of kind, dn_prompt = text_of prompt, dn_options = opts,
                     dn_multi_select = b, dn_question_count = n\<rparr>)
          | _ \<Rightarrow> Inl ValueError))
      | _ \<Rightarrow> Inl ValueError)"

definition decision_json :: "decision \<Rightarrow> json" where
  "decision_json n = JDict
     [(lit ''decision_ref'', JStr (dn_ref n)), (lit ''kind'', JStr (dn_kind n)), (lit ''prompt'', JStr (dn_prompt n)),
      (lit ''options'', JList (map (\<lambda>(r, l). JDict [(lit ''ref'', JStr r), (lit ''label'', JStr l)]) (dn_options n))),
      (lit ''multi_select'', JBool (dn_multi_select n)), (lit ''question_count'', JInt (dn_question_count n))]"

section \<open>Selections\<close>

text \<open>The chosen option references, or the text written in.\<close>

definition validated_decision_selection :: "decision \<Rightarrow> json \<Rightarrow> (ustr list \<times> ustr option) option" where
  "validated_decision_selection n selection =
     (case selection of JDict [(key, value)] \<Rightarrow>
        if key = lit ''option_refs''
        then (case value of
            JList (x # xs) \<Rightarrow>
              if list_ex (\<lambda>v. json_str v = None) (x # xs) then None
              else let refs = map text_of (x # xs) in
                if \<not> distinct refs \<or> \<not> list_all (\<lambda>r. r \<in> set (map fst (dn_options n))) refs then None
                else if dn_kind n \<noteq> lit ''multi'' \<and> length refs \<noteq> 1 then None
                else Some (refs, None)
          | _ \<Rightarrow> None)
        else if key = lit ''text''
        then (case value of
            JStr t \<Rightarrow> if dn_kind n = lit ''single'' \<and> valid_instruction t then Some ([], Some t) else None
          | _ \<Rightarrow> None)
        else None
      | _ \<Rightarrow> None)"

definition decision_claim_prefix :: ustr where
  "decision_claim_prefix = lit ''decision:''"

definition encode_decision_claim_selection :: "ustr list \<Rightarrow> ustr option \<Rightarrow> ustr" where
  "encode_decision_claim_selection refs txt =
     decision_claim_prefix @ json_dumps (JDict (case txt of
        None \<Rightarrow> [(lit ''option_refs'', JList (map JStr refs))] | Some t \<Rightarrow> [(lit ''text'', JStr t)]))"

definition decode_decision_claim_selection :: "ustr \<Rightarrow> json option" where
  "decode_decision_claim_selection v =
     (if \<not> starts_with decision_claim_prefix v then None
      else case json_loads (drop (length decision_claim_prefix) v) of Some (JDict d) \<Rightarrow> Some (JDict d) | _ \<Rightarrow> None)"

section \<open>Keys\<close>

datatype decision_step = KeysStep "ustr list" | InputStep ustr

definition digit_keys :: "nat \<Rightarrow> ustr list" where
  "digit_keys ordinal = map (\<lambda>c. [c]) (show_nat ordinal)"

fun ref_ordinals :: "python_text \<Rightarrow> int \<Rightarrow> ustr list \<Rightarrow> nat list result" where
  "ref_ordinals P n [] = Inr []"
| "ref_ordinals P n (r # rs) =
     (if \<not> py_isdigit P r then Inl ValueError
      else case py_int P 0 r of
        None \<Rightarrow> Inl ValueError
      | Some k \<Rightarrow> if k < 1 \<or> n < int k then Inl ValueError
                  else bind_result (ref_ordinals P n rs) (\<lambda>ks. Inr (k # ks)))"

definition calibrate_decision_steps ::
  "python_text \<Rightarrow> ustr \<Rightarrow> int \<Rightarrow> ustr list \<Rightarrow> ustr option \<Rightarrow> decision_step list result" where
  "calibrate_decision_steps P kind option_count refs txt =
     (if kind \<notin> set (map lit decision_kinds) \<or> option_count < 1 then Inl ValueError
      else case txt of
        Some t \<Rightarrow>
          if kind \<noteq> lit ''single'' \<or> refs \<noteq> [] \<or> t = [] then Inl ValueError
          else Inr [KeysStep (replicate (nat option_count) (lit ''Down'')), InputStep t]
      | None \<Rightarrow>
          if refs = [] \<or> \<not> distinct refs then Inl ValueError
          else bind_result (ref_ordinals P option_count refs) (\<lambda>ordinals.
            if kind \<noteq> lit ''multi''
            then (case ordinals of [k] \<Rightarrow> Inr [KeysStep (digit_keys k)] | _ \<Rightarrow> Inl ValueError)
            else Inr (map (\<lambda>k. KeysStep (digit_keys k)) (sort ordinals) @ [KeysStep [lit ''Right'', lit ''Enter'']])))"

section \<open>Every accepted selection has keys\<close>

text \<open>The documented value of the ASCII digits under \<open>str.isdigit\<close> and \<open>int\<close>.\<close>

definition ascii_digits :: "python_text \<Rightarrow> bool" where
  "ascii_digits P \<longleftrightarrow> (\<forall>k < 10. digit_of P (48 + k) = Decimal k)"

lemma digit_of_show: "ascii_digits P \<Longrightarrow> c \<in> set (show_nat n) \<Longrightarrow> digit_of P c = Decimal (c - 48) \<and> 48 \<le> c"
proof (induction n rule: show_nat.induct)
  case (1 n)
  have d: "digit_of P (48 + k) = Decimal k" if "k < 10" for k using 1(2) that by (simp add: ascii_digits_def)
  show ?case
  proof (cases "n < 10")
    case True
    then show ?thesis using 1(3) d[of n] by (simp add: show_nat.simps[of n])
  next
    case False
    then have "c \<in> set (show_nat (n div 10)) \<or> c = 48 + n mod 10"
      using 1(3) unfolding show_nat.simps[of n] by auto
    then show ?thesis using 1(1)[OF False 1(2)] d[of "n mod 10"] by auto
  qed
qed

lemma isdigit_show: "ascii_digits P \<Longrightarrow> py_isdigit P (show_nat n)"
  using digit_of_show show_nat_not_Nil by (auto simp: py_isdigit_def list_all_iff)

lemma py_int_append: "py_int P a (s @ t) = (case py_int P a s of None \<Rightarrow> None | Some b \<Rightarrow> py_int P b t)"
  by (induction s arbitrary: a) (auto split: digit.split)

lemma py_int_show: "ascii_digits P \<Longrightarrow> py_int P 0 (show_nat n) = Some n"
proof (induction n rule: show_nat.induct)
  case (1 n)
  have d: "digit_of P (48 + k) = Decimal k" if "k < 10" for k using 1(2) that by (simp add: ascii_digits_def)
  show ?case
    using 1(1)[OF _ 1(2)] d[of n] d[of "n mod 10"]
    by (cases "n < 10") (simp_all add: show_nat.simps[of n] py_int_append)
qed

lemma show_nat_eq_iff:
  assumes "ascii_digits P"
  shows "show_nat m = show_nat n \<longleftrightarrow> m = n"
  using py_int_show[OF assms] by (metis option.inject)

text \<open>Options are numbered from one.\<close>

lemma decision_options_refs:
  "decision_options n vs = Inr opts \<Longrightarrow> map fst opts = map show_nat [n..<n + length opts] \<and> length opts = length vs"
proof (induction vs arbitrary: n opts)
  case (Cons v vs)
  obtain x xs where x: "decision_option n v = Inr x" "decision_options (Suc n) vs = Inr xs" "opts = x # xs"
    using Cons.prems by (auto simp: bind_result_eq_Inr)
  have "fst x = show_nat n" using x(1) by (cases v) (auto split: if_splits)
  moreover have "[n..<n + length opts] = n # [Suc n..<Suc n + length xs]"
    unfolding x(3) by (subst upt_conv_Cons) simp_all
  ultimately show ?case using Cons.IH[OF x(2)] by (simp add: x(3))
qed simp

lemma normalized_decision:
  assumes "normalize_pending_decision_meta v = Inr n"
  shows "dn_kind n \<in> set (map lit decision_kinds)" "map fst (dn_options n) = map show_nat [1..<Suc (length (dn_options n))]"
    "dn_options n \<noteq> []" "1 \<le> dn_question_count n" "dn_multi_select n \<longleftrightarrow> dn_kind n = lit ''multi''" "py_strip (dn_ref n) \<noteq> []"
proof -
  obtain d where v: "v = JDict d" using assms by (cases v) (auto simp: normalize_pending_decision_meta_def)
  obtain known x xs b k opts where o: "in_words (member d ''kind'') decision_kinds = Inr known" "known"
      "nonblank (member d ''decision_ref'')" "b \<longleftrightarrow> text_of (member d ''kind'') = lit ''multi''" "1 \<le> k"
      "decision_options 1 (x # xs) = Inr opts"
      "n = \<lparr>dn_ref = text_of (member d ''decision_ref''), dn_kind = text_of (member d ''kind''),
            dn_prompt = text_of (member d ''prompt''), dn_options = opts, dn_multi_select = b, dn_question_count = k\<rparr>"
    using assms
    by (auto simp: v normalize_pending_decision_meta_def Let_def bind_result_eq_Inr
        split: if_splits json.splits list.splits)
  have "text_of (member d ''kind'') \<in> set (map lit decision_kinds)"
    using o(1,2) by (cases "member d ''kind''") (auto simp: text_of_def)
  moreover have "py_strip (text_of (member d ''decision_ref'')) \<noteq> []"
    using o(3) by (cases "member d ''decision_ref''") (auto simp: nonblank_def text_of_def)
  ultimately show "dn_kind n \<in> set (map lit decision_kinds)" "map fst (dn_options n) = map show_nat [1..<Suc (length (dn_options n))]"
    "dn_options n \<noteq> []" "1 \<le> dn_question_count n" "dn_multi_select n \<longleftrightarrow> dn_kind n = lit ''multi''" "py_strip (dn_ref n) \<noteq> []"
    using decision_options_refs[OF o(6)] o(4,5) unfolding o(7) by auto
qed

lemma ref_ordinals_show:
  assumes "ascii_digits P" "\<forall>k \<in> set ks. 1 \<le> k \<and> int k \<le> n"
  shows "ref_ordinals P n (map show_nat ks) = Inr ks"
  using assms(2) by (induction ks) (auto simp: isdigit_show[OF assms(1)] py_int_show[OF assms(1)])

lemma selected_ordinals:
  assumes "normalize_pending_decision_meta v = Inr n" "list_all (\<lambda>r. r \<in> set (map fst (dn_options n))) refs"
  obtains ks where "refs = map show_nat ks" "\<forall>k \<in> set ks. 1 \<le> k \<and> k \<le> length (dn_options n)"
proof -
  have "\<forall>r \<in> set refs. \<exists>k. show_nat k = r \<and> 1 \<le> k \<and> k \<le> length (dn_options n)"
  proof
    fix r assume "r \<in> set refs"
    then have "r \<in> show_nat ` {1..<Suc (length (dn_options n))}"
      using assms(2) unfolding normalized_decision(2)[OF assms(1)] by (simp only: list_all_iff set_map set_upt)
    then show "\<exists>k. show_nat k = r \<and> 1 \<le> k \<and> k \<le> length (dn_options n)" by (auto simp: less_Suc_eq_le)
  qed
  then obtain f where "\<forall>r \<in> set refs. show_nat (f r) = r \<and> 1 \<le> f r \<and> f r \<le> length (dn_options n)"
    by (rule bchoice[THEN exE])
  then have f: "\<forall>r \<in> set refs. show_nat (f r) = r" "\<forall>r \<in> set refs. 1 \<le> f r \<and> f r \<le> length (dn_options n)" by simp_all
  have "map show_nat (map f refs) = refs" unfolding map_map by (rule map_idI) (use f(1) in simp)
  then show thesis using that[of "map f refs"] f(2) by simp
qed

lemma fst_member: "(a, b) \<in> A \<Longrightarrow> a \<in> fst ` A"
  by force

lemma write_in_steps:
  assumes "normalize_pending_decision_meta v = Inr n" "validated_decision_selection n sel = Some (refs, Some t)"
  shows "calibrate_decision_steps P (dn_kind n) (int (length (dn_options n))) refs (Some t)
    = Inr [KeysStep (replicate (length (dn_options n)) (lit ''Down'')), InputStep t]"
proof -
  note d = normalized_decision[OF assms(1)]
  have t: "dn_kind n = lit ''single''" "valid_instruction t" "refs = []"
    using assms(2) by (auto simp: validated_decision_selection_def Let_def split: if_splits json.splits list.splits)
  then have "t \<noteq> []" by (auto simp: validate_instruction_text_def)
  then show ?thesis using t d(1,3) by (simp add: calibrate_decision_steps_def Suc_le_eq)
qed

lemma option_refs_chosen:
  assumes "validated_decision_selection n sel = Some (refs, None)"
  shows "distinct refs" "list_all (\<lambda>r. r \<in> set (map fst (dn_options n))) refs" "refs \<noteq> []"
    "dn_kind n \<noteq> lit ''multi'' \<longrightarrow> length refs = 1"
  using assms
  by (auto simp: validated_decision_selection_def Let_def split: if_splits json.splits list.splits) (rule fst_member, assumption)+

text \<open>The chosen options, each once and in ascending order.\<close>

definition chosen_ordinals :: "ustr list \<Rightarrow> nat list" where
  "chosen_ordinals refs = sorted_list_of_set {k. show_nat k \<in> set refs}"

lemma option_steps:
  assumes "ascii_digits P" "normalize_pending_decision_meta v = Inr n" "validated_decision_selection n sel = Some (refs, None)"
  shows "calibrate_decision_steps P (dn_kind n) (int (length (dn_options n))) refs None
    = Inr (map (\<lambda>k. KeysStep (digit_keys k)) (chosen_ordinals refs)
        @ (if dn_kind n = lit ''multi'' then [KeysStep [lit ''Right'', lit ''Enter'']] else []))"
proof -
  note d = normalized_decision[OF assms(2)]
  note r = option_refs_chosen[OF assms(3)]
  obtain ks where ks: "refs = map show_nat ks" "\<forall>k \<in> set ks. 1 \<le> k \<and> k \<le> length (dn_options n)"
    by (rule selected_ordinals[OF assms(2) r(2)])
  have dist: "distinct ks" using r(1) by (simp add: ks(1) distinct_map)
  have "{k. show_nat k \<in> set refs} = set ks" using show_nat_eq_iff[OF assms(1)] by (auto simp: ks(1))
  then have sorted: "chosen_ordinals refs = sort ks"
    using dist by (simp add: chosen_ordinals_def sorted_list_of_set_sort_remdups distinct_remdups_id)
  have ords: "ref_ordinals P (int (length (dn_options n))) refs = Inr ks"
    unfolding ks(1) using ks(2) by (intro ref_ordinals_show[OF assms(1)]) auto
  have "ks = [hd ks]" if "length refs = 1" using that by (cases ks) (auto simp: ks(1))
  then have "sort ks = ks \<and> (\<exists>k. ks = [k])" if "length refs = 1" using that by (metis sort_key_simps(1) sorted_sort_id sorted1)
  then show ?thesis
    using r d(1,3) ords
    by (auto simp: calibrate_decision_steps_def sorted Let_def list_all_iff Suc_le_eq split: list.splits)
qed

text \<open>
  A selection that validation accepts can always be driven: against a decision in its
  public form it gives calibrated steps without error, so no accepted answer fails after its
  send has started; a write-in walks down past the options and is entered as text; the one
  option of a single or plan decision is its own ordinal typed in digits; a multi selection
  toggles each chosen option exactly once, in ascending order, and submits.
\<close>

theorem accepted_selections_calibrate:
  assumes "ascii_digits P" "normalize_pending_decision_meta v = Inr n" "validated_decision_selection n sel = Some (refs, tx)"
  shows "calibrate_decision_steps P (dn_kind n) (int (length (dn_options n))) refs tx =
    (case tx of
       Some t \<Rightarrow> Inr [KeysStep (replicate (length (dn_options n)) (lit ''Down'')), InputStep t]
     | None \<Rightarrow> Inr (map (\<lambda>k. KeysStep (digit_keys k)) (sorted_list_of_set {k. show_nat k \<in> set refs})
        @ (if dn_kind n = lit ''multi'' then [KeysStep [lit ''Right'', lit ''Enter'']] else [])))
    \<and> (tx = None \<longrightarrow> refs \<noteq> [] \<and> (\<forall>r \<in> set refs. r \<in> fst ` set (dn_options n)))"
proof (cases tx)
  case None
  then show ?thesis
    using option_steps[OF assms(1,2)] option_refs_chosen[of n sel refs] assms(3)
    by (simp add: chosen_ordinals_def list_all_iff)
next
  case (Some t)
  then show ?thesis using write_in_steps[OF assms(2)] assms(3) by simp
qed

text \<open>
  The selection a claim stores is the selection that was validated: it reads back, and
  validates against the same decision to the same options and text.
\<close>

lemma claimed_selection_round_trip:
  assumes "validated_decision_selection n sel = Some (refs, tx)"
  shows "\<exists>v. decode_decision_claim_selection (encode_decision_claim_selection refs tx) = Some v
    \<and> validated_decision_selection n v = Some (refs, tx)"
proof -
  let ?d = "case tx of None \<Rightarrow> [(lit ''option_refs'', JList (map JStr refs))] | Some t \<Rightarrow> [(lit ''text'', JStr t)]"
  have p: "json_plain (JDict ?d)" by (cases tx) (simp_all add: list_all_iff)
  have s: "sort_keys (JDict ?d) = JDict ?d" by (cases tx) (simp_all add: comp_def)
  have "decode_decision_claim_selection (encode_decision_claim_selection refs tx) = Some (JDict ?d)"
    using json_loads_dumps[OF p, unfolded s]
    by (simp add: decode_decision_claim_selection_def encode_decision_claim_selection_def starts_with_def)
  moreover have "validated_decision_selection n (JDict ?d) = Some (refs, tx)"
  proof (cases tx)
    case None
    note r = option_refs_chosen[OF assms[unfolded None]]
    then obtain x xs where refs: "refs = x # xs" by (cases refs) auto
    have "\<not> list_ex (\<lambda>v. json_str v = None) (map JStr refs)" "map text_of (map JStr refs) = refs"
      by (simp_all add: list_ex_iff text_of_def comp_def)
    then show ?thesis using r None by (auto simp: validated_decision_selection_def Let_def refs)
  next
    case (Some t)
    then have "dn_kind n = lit ''single''" "valid_instruction t" "refs = []"
      using assms by (auto simp: validated_decision_selection_def Let_def split: if_splits json.splits list.splits)
    then show ?thesis using Some by (simp add: validated_decision_selection_def)
  qed
  ultimately show ?thesis by blast
qed

section \<open>Examples\<close>

definition ex_decision :: decision where
  "ex_decision =
     \<lparr>dn_ref = lit ''decision-1'', dn_kind = lit ''multi'', dn_prompt = lit ''Which?'',
      dn_options = [(lit ''1'', lit ''a''), (lit ''2'', lit ''b''), (lit ''3'', lit ''c'')],
      dn_multi_select = True, dn_question_count = 1\<rparr>"

lemma lit_digits: "show_nat 1 = lit ''1''" "show_nat 2 = lit ''2''" "show_nat 3 = lit ''3''"
  by (simp_all add: show_nat.simps lit_def)

lemma ex_decision: "normalize_pending_decision_meta (decision_json ex_decision) = Inr ex_decision"
  by (simp add: normalize_pending_decision_meta_def decision_json_def ex_decision_def member_def dict_get_def has_members_def
      nonblank_def py_strip_id lit_def[of "''decision-1''"] lit_def[of "''Which?''"] lit_def[of "''a''"] lit_def[of "''b''"]
      lit_def[of "''c''"] py_isspace_def decision_kinds_def text_of_def lit_digits[unfolded One_nat_def] numeral_2_eq_2[symmetric] numeral_3_eq_3[symmetric]
      insert_commute)

lemma ex_digits: "ascii_digits ex_text"
  by (auto simp: ascii_digits_def ex_text_def)

theorem accepted_selections_calibrate_witness:
  "calibrate_decision_steps ex_text (lit ''multi'') 3 [lit ''3'', lit ''1''] None
     = Inr [KeysStep [lit ''1''], KeysStep [lit ''3''], KeysStep [lit ''Right'', lit ''Enter'']]"
proof -
  let ?sel = "JDict [(lit ''option_refs'', JList [JStr (lit ''3''), JStr (lit ''1'')])]"
  have v: "validated_decision_selection ex_decision ?sel = Some ([lit ''3'', lit ''1''], None)"
    by (simp add: validated_decision_selection_def ex_decision_def text_of_def)
  have s: "{k. show_nat k = show_nat 3 \<or> show_nat k = show_nat 1} = {1, 3}"
    using show_nat_eq_iff[OF ex_digits] by auto
  have k: "digit_keys 1 = [lit ''1'']" "digit_keys 3 = [lit ''3'']"
    by (simp_all add: digit_keys_def show_nat.simps lit_def)
  show ?thesis
    using accepted_selections_calibrate[OF ex_digits ex_decision v] s k
    by (simp add: ex_decision_def lit_digits[symmetric] sorted_list_of_set_insert_remove)
qed

end
