(* ===== verification/Pending.thy ===== *)
theory Pending
  imports Decisions StoreState
begin

text \<open>
  Pending interactions in \<open>store/sqlite.py\<close>: what a host's agents are waiting for as the
  observer reports it (\<open>backend_pending\<close>), and the two-phase claims through which exactly
  one request may answer it (\<open>backend_pending_claims\<close>).  A time is the instant its text
  denotes; texts of instants compare as the instants do.
\<close>

section \<open>Tables\<close>

datatype observation_state = PendingOpen | PendingNone | PendingInvalid | PendingFailed

text \<open>\<open>pb_observed_at\<close> and \<open>pb_grace_deadline\<close> are \<open>None\<close> for a text that is no UTC timestamp.\<close>

record pending_row =
  pb_host_id :: ustr
  pb_worker_id :: ustr
  pb_payload_json :: ustr
  pb_observed_at :: "time option"
  pb_revision :: ustr
  pb_routes_json :: ustr
  pb_binding :: ustr
  pb_target :: ustr
  pb_state :: observation_state
  pb_fresh :: bool
  pb_last_success_at :: "time option"
  pb_last_failure_at :: "time option"
  pb_grace_deadline :: "time option"
  pb_updated_at :: "time option"

text \<open>\<open>pc_started\<close> is the state \<open>send_started\<close>, otherwise \<open>claimed\<close>.\<close>

record pending_claim =
  pc_host_id :: ustr
  pc_worker_id :: ustr
  pc_token :: ustr
  pc_revision :: ustr
  pc_choice_id :: ustr
  pc_ordinal :: int
  pc_worker_fingerprint :: ustr
  pc_binding :: ustr
  pc_target :: ustr
  pc_started :: bool
  pc_claimed_at :: time
  pc_send_started_at :: "time option"

record pane_binding =
  pn_host_id :: ustr
  pn_worker_id :: ustr
  pn_worker_fingerprint :: ustr
  pn_backend :: ustr
  pn_target_kind :: "ustr option"
  pn_target_value :: "ustr option"
  pn_private_fingerprint :: ustr
  pn_sendable :: bool
  pn_expires_at :: time

text \<open>
  \<open>pt_workers\<close> gives the workers of a host's newest snapshot, \<open>None\<close> when there is none or
  it cannot be read.
\<close>

record pending_tables =
  pt_exists :: bool
  pt_pending :: "pending_row list"
  pt_claims :: "pending_claim list"
  pt_workers :: "ustr \<Rightarrow> worker list option"
  pt_bindings :: "pane_binding list"

definition pending_key :: "pending_row \<Rightarrow> ustr \<times> ustr" where
  "pending_key p = (pb_host_id p, pb_worker_id p)"

definition claim_key :: "pending_claim \<Rightarrow> ustr \<times> ustr" where
  "claim_key c = (pc_host_id c, pc_worker_id c)"

definition pending_of :: "pending_tables \<Rightarrow> ustr \<times> ustr \<Rightarrow> pending_row option" where
  "pending_of T k = sql_fetchone (\<lambda>p. pending_key p = k) (pt_pending T)"

definition delete_claims :: "(pending_claim \<Rightarrow> bool) \<Rightarrow> pending_tables \<Rightarrow> pending_tables" where
  "delete_claims p T = T\<lparr>pt_claims := sql_delete p (pt_claims T)\<rparr>"

definition pending_observed_time :: "store_env \<Rightarrow> time option \<Rightarrow> time" where
  "pending_observed_time E now = (case now of None \<Rightarrow> utc_timestamp E | Some t \<Rightarrow> t)"

section \<open>The stored form of a prompt\<close>

definition pending_choice :: "json \<Rightarrow> (ustr \<times> ustr) option" where
  "pending_choice v =
     (case v of JDict d \<Rightarrow>
        (case (member d ''choice_id'', member d ''label'') of
           (JStr c, JStr l) \<Rightarrow>
             if has_members d [''choice_id'', ''label''] \<and> c \<noteq> [] \<and> py_strip l \<noteq> [] then Some (c, l) else None
         | _ \<Rightarrow> None)
      | _ \<Rightarrow> None)"

definition normalize_choices :: "json list \<Rightarrow> (ustr \<times> ustr) list result" where
  "normalize_choices vs =
     (let es = map pending_choice vs; cs = map the es in
      if list_ex (\<lambda>e. e = None) es \<or> \<not> distinct (map fst cs) then Inl ValueError else Inr cs)"

definition choice_json :: "ustr \<times> ustr \<Rightarrow> json" where
  "choice_json c = JDict [(lit ''choice_id'', JStr (fst c)), (lit ''label'', JStr (snd c))]"

definition member_or :: "members \<Rightarrow> string \<Rightarrow> json \<Rightarrow> json" where
  "member_or d k v = (case map_of d (lit k) of None \<Rightarrow> v | Some x \<Rightarrow> x)"

text \<open>The normalised prompt and the text of its routes.\<close>

definition normalize_backend_pending_payload :: "store_env \<Rightarrow> members \<Rightarrow> (ustr \<times> json) list \<Rightarrow> (members \<times> ustr) result" where
  "normalize_backend_pending_payload E pending choice_routes =
     (let clean = sanitize_public_mapping E pending;
          question = member clean ''question''; kind = member clean ''kind'';
          routes = dict_of choice_routes in
      if \<not> set (map fst clean) \<subseteq> set (map lit [''question'', ''kind'', ''choices'', ''meta'']) \<or> \<not> nonblank question \<or> \<not> nonblank kind
      then Inl ValueError
      else case (member_or clean ''choices'' (JList []), member_or clean ''meta'' (JDict [(lit ''source'', JStr (lit ''backend''))])) of
        (JList choices, JDict meta) \<Rightarrow>
          bind_result (normalize_choices choices) (\<lambda>cs.
          if set (map fst routes) \<noteq> set (map fst cs)
            \<or> list_ex (\<lambda>kv. case snd kv of JInt i \<Rightarrow> i < 1 | _ \<Rightarrow> True) routes
          then Inl ValueError
          else
            let meta1 = sanitize_public_mapping E meta;
                stored = (\<lambda>m. Inr ([(lit ''question'', question), (lit ''kind'', kind), (lit ''choices'', JList (map choice_json cs)),
                    (lit ''meta'', JDict m)], json_dumps (JDict routes))) in
            case map_of meta1 (lit ''decision'') of
              None \<Rightarrow> stored meta1
            | Some v \<Rightarrow> bind_result (normalize_pending_decision_meta v) (\<lambda>n.
                stored (dict_put meta1 (lit ''decision'', decision_json n))))
      | _ \<Rightarrow> Inl ValueError)"

section \<open>Observations\<close>

record observed_choice =
  oc_choice_id :: ustr
  oc_label :: ustr
  oc_ordinal :: int

record observed_decision =
  od_kind :: ustr
  od_options :: "ustr list"
  od_multi_select :: bool
  od_question_count :: int

record observed_prompt =
  op_question :: ustr
  op_pending_kind :: "ustr option"
  op_choices :: "observed_choice list"
  op_revision :: ustr
  op_decision :: "observed_decision option"

datatype observation = OpenPrompt observed_prompt | NoPrompt | InvalidPrompt | UnsupportedDecision | ReadFailed | WorkerAbsent

text \<open>What the constructors of \<open>PendingObservedChoice\<close> and \<open>PendingObservation\<close> check.\<close>

definition valid_observed_choice :: "observed_choice \<Rightarrow> bool" where
  "valid_observed_choice c \<longleftrightarrow>
     starts_with (lit ''choice-'') (oc_choice_id c) \<and> length (oc_choice_id c) = 31
     \<and> list_all (\<lambda>x. 48 \<le> x \<and> x \<le> 57 \<or> 97 \<le> x \<and> x \<le> 102) (drop 7 (oc_choice_id c))
     \<and> py_strip (oc_label c) \<noteq> [] \<and> 1 \<le> oc_ordinal c"

definition valid_observed_prompt :: "observed_prompt \<Rightarrow> bool" where
  "valid_observed_prompt o' \<longleftrightarrow>
     py_strip (op_question o') \<noteq> [] \<and> op_revision o' \<noteq> [] \<and> list_all valid_observed_choice (op_choices o')
     \<and> distinct (map oc_choice_id (op_choices o')) \<and> distinct (map oc_ordinal (op_choices o'))
     \<and> (case op_pending_kind o' of None \<Rightarrow> True | Some k \<Rightarrow> py_strip k \<noteq> [])
     \<and> (case op_decision o' of None \<Rightarrow> True | Some n \<Rightarrow>
          od_kind n \<in> set (map lit decision_kinds) \<and> od_options n \<noteq> [] \<and> list_all (\<lambda>l. py_strip l \<noteq> []) (od_options n)
          \<and> (od_multi_select n \<longleftrightarrow> od_kind n = lit ''multi'') \<and> 1 \<le> od_question_count n)"

section \<open>Applying an observation\<close>

fun map_results :: "('a \<Rightarrow> 'b result) \<Rightarrow> 'a list \<Rightarrow> 'b list result" where
  "map_results f [] = Inr []"
| "map_results f (x # xs) = bind_result (f x) (\<lambda>y. bind_result (map_results f xs) (\<lambda>ys. Inr (y # ys)))"

definition put_pending :: "pending_row \<Rightarrow> pending_tables \<Rightarrow> pending_tables" where
  "put_pending r T = T\<lparr>pt_pending := sql_upsert (\<lambda>p. pending_key p = pending_key r) (\<lambda>_. r) r (pt_pending T)\<rparr>"

definition update_pending :: "ustr \<times> ustr \<Rightarrow> (pending_row \<Rightarrow> pending_row) \<Rightarrow> pending_tables \<Rightarrow> pending_tables" where
  "update_pending k f T = T\<lparr>pt_pending := sql_update (\<lambda>p. pending_key p = k) f (pt_pending T)\<rparr>"

definition blank_row ::
  "ustr \<times> ustr \<Rightarrow> ustr \<Rightarrow> time \<Rightarrow> ustr \<Rightarrow> ustr \<Rightarrow> observation_state \<Rightarrow> bool \<Rightarrow> bool \<Rightarrow> pending_row" where
  "blank_row k payload now binding target st fresh success =
     \<lparr>pb_host_id = fst k, pb_worker_id = snd k, pb_payload_json = payload, pb_observed_at = Some now, pb_revision = [],
      pb_routes_json = lit ''{}'', pb_binding = binding, pb_target = target, pb_state = st, pb_fresh = fresh,
      pb_last_success_at = (if success then Some now else None),
      pb_last_failure_at = (if success then None else Some now), pb_grace_deadline = None, pb_updated_at = Some now\<rparr>"

definition apply_read_failed ::
  "ustr \<times> ustr \<Rightarrow> pending_row option \<Rightarrow> time \<Rightarrow> time \<Rightarrow> ustr \<Rightarrow> ustr \<Rightarrow> pending_tables \<Rightarrow> bool \<times> pending_tables" where
  "apply_read_failed k row now grace binding target T =
     (let seen = update_pending k (\<lambda>p. p\<lparr>pb_observed_at := Some now, pb_last_failure_at := Some now\<rparr>);
          failing = (\<lambda>st deadline. update_pending k (\<lambda>p. p\<lparr>pb_observed_at := Some now, pb_binding := binding,
              pb_target := target, pb_state := st (pb_state p), pb_fresh := False, pb_last_failure_at := Some now,
              pb_grace_deadline := deadline, pb_updated_at := Some now\<rparr>));
          unclaim = delete_claims (\<lambda>c. claim_key c = k \<and> \<not> pc_started c) in
      case row of
        None \<Rightarrow> (True, put_pending (blank_row k (lit ''{}'') now binding target PendingFailed False False) T)
      | Some p \<Rightarrow>
          if pb_state p = PendingOpen
          then if (case pb_grace_deadline p of None \<Rightarrow> False | Some d \<Rightarrow> d \<le> now)
               then (True, unclaim (failing (\<lambda>_. PendingFailed) None T))
               else if \<not> pb_fresh p then (False, seen T)
               else (True, unclaim (failing (\<lambda>st. st) (Some (now + grace)) T))
          else if \<not> pb_fresh p then (False, seen T)
          else (True, failing (\<lambda>st. st) None T))"

text \<open>A successful read that shows no answerable prompt.\<close>

definition apply_no_answer ::
  "ustr \<times> ustr \<Rightarrow> pending_row option \<Rightarrow> pending_row \<Rightarrow> bool \<Rightarrow> pending_tables \<Rightarrow> bool \<times> pending_tables" where
  "apply_no_answer k row r with_payload T =
     ((case row of None \<Rightarrow> True
       | Some p \<Rightarrow> \<not> ((with_payload \<longrightarrow> pb_payload_json p = pb_payload_json r) \<and> pb_state p = pb_state r
            \<and> pb_fresh p = pb_fresh r \<and> pb_binding p = pb_binding r \<and> pb_target p = pb_target r)),
      delete_claims (\<lambda>c. claim_key c = k) (put_pending r T))"

definition prompt_revision :: "observed_prompt \<Rightarrow> ustr \<Rightarrow> ustr \<Rightarrow> ustr result" where
  "prompt_revision o' binding target = stable_fingerprint (JDict
     [(lit ''decision_revision'', JStr (op_revision o')), (lit ''binding_private_fingerprint'', JStr binding),
      (lit ''observed_turn_target_value'', JStr target)])"

definition persisted_choice :: "ustr \<Rightarrow> observed_choice \<Rightarrow> (ustr \<times> ustr \<times> int) result" where
  "persisted_choice revision c =
     bind_result (stable_fingerprint (JDict [(lit ''revision'', JStr revision), (lit ''ordinal'', JInt (oc_ordinal c)),
         (lit ''label'', JStr (oc_label c))])) (\<lambda>f. Inr (lit ''choice-'' @ f, oc_label c, oc_ordinal c))"

definition prompt_meta :: "observed_prompt \<Rightarrow> ustr \<Rightarrow> members" where
  "prompt_meta o' revision = (lit ''source'', JStr (lit ''backend'')) #
     (case op_decision o' of None \<Rightarrow> []
      | Some n \<Rightarrow> [(lit ''decision'', JDict
          [(lit ''decision_ref'', JStr (lit ''decision-'' @ revision)), (lit ''kind'', JStr (od_kind n)),
           (lit ''prompt'', JStr (op_question o')),
           (lit ''options'', JList (map (\<lambda>(i, l). JDict [(lit ''ref'', JStr (show_nat i)), (lit ''label'', JStr l)])
               (enumerate 1 (od_options n)))),
           (lit ''multi_select'', JBool (od_multi_select n)), (lit ''question_count'', JInt (od_question_count n))])])"

definition prompt_payload :: "observed_prompt \<Rightarrow> ustr \<Rightarrow> (ustr \<times> ustr \<times> int) list \<Rightarrow> members" where
  "prompt_payload o' revision choices =
     [(lit ''question'', JStr (op_question o')),
      (lit ''kind'', JStr (case op_pending_kind o' of Some (c # s) \<Rightarrow> c # s | _ \<Rightarrow> lit ''question'')),
      (lit ''choices'', JList (map (\<lambda>(i, l, _). choice_json (i, l)) choices)),
      (lit ''meta'', JDict (prompt_meta o' revision))]"

definition apply_open_prompt ::
  "store_env \<Rightarrow> ustr \<times> ustr \<Rightarrow> pending_row option \<Rightarrow> observed_prompt \<Rightarrow> time \<Rightarrow> ustr \<Rightarrow> ustr \<Rightarrow> pending_tables
     \<Rightarrow> (bool \<times> pending_tables) result" where
  "apply_open_prompt E k row o' now binding target T =
     bind_result (prompt_revision o' binding target) (\<lambda>revision.
     bind_result (map_results (persisted_choice revision) (op_choices o')) (\<lambda>choices.
     bind_result (normalize_backend_pending_payload E (prompt_payload o' revision choices)
         (map (\<lambda>(i, _, n). (i, JInt n)) choices)) (\<lambda>(normalized, routes_json).
     let payload = json_dumps (JDict normalized);
         changed = (case row of None \<Rightarrow> True | Some p \<Rightarrow> \<not> (pb_payload_json p = payload \<and> pb_revision p = revision
            \<and> pb_routes_json p = routes_json \<and> pb_binding p = binding \<and> pb_target p = target
            \<and> pb_state p = PendingOpen \<and> pb_fresh p));
         r = (blank_row k payload now binding target PendingOpen True True)\<lparr>pb_revision := revision, pb_routes_json := routes_json\<rparr>
     in Inr (changed, put_pending r (delete_claims (\<lambda>c. claim_key c = k
            \<and> (pc_revision c \<noteq> revision \<or> pc_binding c \<noteq> binding \<or> pc_target c \<noteq> target)) T)))))"

definition apply_backend_pending_observation ::
  "store_env \<Rightarrow> ustr \<Rightarrow> ustr \<Rightarrow> observation \<Rightarrow> time \<Rightarrow> time \<Rightarrow> ustr \<Rightarrow> ustr \<Rightarrow> bool \<Rightarrow> pending_tables
     \<Rightarrow> (bool \<times> pending_tables) result" where
  "apply_backend_pending_observation E host_id worker_id ob now grace binding target authoritative T =
     (let k = (host_id, worker_id); row = pending_of T k;
          stored = (case row of None \<Rightarrow> ([], []) | Some p \<Rightarrow> (pb_binding p, pb_target p));
          binding1 = (if binding = [] then fst stored else binding);
          target1 = (if target = [] then snd stored else target) in
      if grace \<le> 0 then Inl ValueError
      else if (case Option.bind row pb_observed_at of None \<Rightarrow> False | Some seen \<Rightarrow> now < seen) then Inr (False, T)
      else if ob = WorkerAbsent
      then let gone = (\<lambda>p. pending_key p = k \<and> (binding \<noteq> [] \<longrightarrow> pb_binding p = binding)) in
           if sql_rowcount gone (pt_pending T) = 0 then Inr (False, T)
           else Inr (True, delete_claims (\<lambda>c. claim_key c = k) (T\<lparr>pt_pending := sql_delete gone (pt_pending T)\<rparr>))
      else if binding \<noteq> [] \<and> fst stored \<noteq> [] \<and> binding \<noteq> fst stored \<and> \<not> authoritative then Inr (False, T)
      else case ob of
        ReadFailed \<Rightarrow> Inr (apply_read_failed k row now grace binding1 target1 T)
      | UnsupportedDecision \<Rightarrow> Inr (apply_no_answer k row
          (blank_row k (json_dumps (JDict [(lit ''unsupported_decision'', JBool True)])) now binding1 target1 PendingInvalid True True) True T)
      | InvalidPrompt \<Rightarrow> Inr (apply_no_answer k row (blank_row k (lit ''{}'') now binding1 target1 PendingInvalid False False) False T)
      | NoPrompt \<Rightarrow> Inr (apply_no_answer k row (blank_row k (lit ''{}'') now binding1 target1 PendingNone True True) False T)
      | OpenPrompt o' \<Rightarrow> apply_open_prompt E k row o' now binding target T
      | WorkerAbsent \<Rightarrow> Inr (False, T))"

text \<open>The writer's transaction; \<open>None\<close> stands for a default argument.\<close>

definition observe_backend_pending ::
  "store_env \<Rightarrow> ustr \<Rightarrow> ustr \<Rightarrow> observation \<Rightarrow> time option \<Rightarrow> time \<Rightarrow> ustr \<Rightarrow> ustr \<Rightarrow> pending_tables
     \<Rightarrow> (bool \<times> pending_tables) result" where
  "observe_backend_pending E host_id worker_id ob now grace binding target T =
     (if \<not> pt_exists T then Inr (False, T)
      else apply_backend_pending_observation E host_id worker_id ob (pending_observed_time E now) grace binding target False T)"

text \<open>
  The observation inside the transaction of \<open>apply_turn_refresh\<close>.  A refresh on an expected
  binding (its fingerprint and pane) has checked it against the active row in the same
  transaction, and may take a worker over from the binding that is stored.
\<close>

definition refresh_backend_pending ::
  "store_env \<Rightarrow> ustr \<Rightarrow> ustr \<Rightarrow> observation \<Rightarrow> time \<Rightarrow> time \<Rightarrow> (ustr \<times> ustr) option \<Rightarrow> pending_tables
     \<Rightarrow> (bool \<times> pending_tables) result" where
  "refresh_backend_pending E host_id worker_id ob now grace expected T =
     apply_backend_pending_observation E host_id worker_id ob now grace
       (case expected of None \<Rightarrow> [] | Some (fingerprint, _) \<Rightarrow> fingerprint)
       (case expected of None \<Rightarrow> [] | Some (_, pane) \<Rightarrow> pane) (expected \<noteq> None) T"

text \<open>
  \<open>begun\<close>, \<open>halted\<close> and \<open>stopped\<close> are the refresh's cancellation as it is asked three
  times; a cancelled pass rolls back.
\<close>

fun prune_rows ::
  "store_env \<Rightarrow> ustr \<Rightarrow> (ustr \<times> ustr \<times> ustr) list \<Rightarrow> time \<Rightarrow> time \<Rightarrow> pending_tables \<Rightarrow> pending_tables result" where
  "prune_rows E host_id [] now grace T = Inr T"
| "prune_rows E host_id ((worker_id, binding, target) # rows) now grace T =
     bind_result (apply_backend_pending_observation E host_id worker_id WorkerAbsent now grace binding target False T) (\<lambda>(_, T1).
       prune_rows E host_id rows now grace T1)"

definition prune_backend_pending ::
  "store_env \<Rightarrow> ustr \<Rightarrow> ustr list \<Rightarrow> time option \<Rightarrow> time \<Rightarrow> bool \<Rightarrow> bool \<Rightarrow> bool \<Rightarrow> pending_tables
     \<Rightarrow> (nat \<times> pending_tables) result" where
  "prune_backend_pending E host_id live now grace begun halted stopped T =
     (if \<not> pt_exists T \<or> \<not> begun \<or> halted then Inr (0, T)
      else
        let stale = filter (\<lambda>p. pb_host_id p = host_id \<and> (pb_binding p = [] \<or> pb_binding p \<notin> set live)) (pt_pending T) in
        bind_result (prune_rows E host_id (map (\<lambda>p. (pb_worker_id p, pb_binding p, pb_target p)) stale)
            (pending_observed_time E now) grace T) (\<lambda>T1.
          if stopped then Inr (0, T) else Inr (length stale, T1)))"

end
