(* ===== verification/PendingClaims.thy ===== *)
theory PendingClaims
  imports Pending
begin

text \<open>
  Claims on pending interactions (\<open>store/sqlite.py\<close>): a request validates what it wants to
  answer, claims it, starts the send on its claim, and finishes or abandons it.  Each
  operation is one transaction; a refused one leaves the tables alone.
\<close>

section \<open>What a claim is checked against\<close>

text \<open>
  \<open>pe_interaction\<close> gives the id and the fingerprint \<open>PendingInteraction.from_dict(...).to_dict()\<close>
  shows for a prompt (times left out: neither depends on them); it cleans texts by regular
  expressions.  \<open>pe_int\<close> is Python's \<open>int\<close> of a JSON value that is not an integer, \<open>None\<close>
  when it raises.
\<close>

record pending_env =
  pe_text :: python_text
  pe_interaction :: "members \<Rightarrow> (ustr \<times> ustr) result"
  pe_int :: "json \<Rightarrow> int option"

definition backend_pending_claim_context ::
  "pending_tables \<Rightarrow> ustr \<Rightarrow> ustr \<Rightarrow> ustr \<Rightarrow> ustr \<Rightarrow> time \<Rightarrow> worker option" where
  "backend_pending_claim_context T host_id worker_id binding target now =
     (if binding = [] \<or> target = [] then None
      else case pt_workers T host_id of None \<Rightarrow> None
      | Some ws \<Rightarrow>
          (case List.find (\<lambda>w. wk_id w = worker_id) ws of None \<Rightarrow> None
           | Some w \<Rightarrow>
               if wk_status w \<in> set (map lit disallowed_worker_statuses) then None
               else if list_ex (\<lambda>b. pn_host_id b = host_id \<and> pn_worker_id b = worker_id
                   \<and> pn_worker_fingerprint b = wk_fingerprint w \<and> pn_backend b = lit ''herdr''
                   \<and> pn_target_kind b = Some (lit ''pane_id'') \<and> pn_private_fingerprint b = binding
                   \<and> pn_target_value b = Some target \<and> pn_sendable b \<and> now < pn_expires_at b) (pt_bindings T)
               then Some w else None))"

definition backend_pending_claim_expired :: "time \<Rightarrow> time \<Rightarrow> time \<Rightarrow> bool result" where
  "backend_pending_claim_expired claimed_at now lease =
     (if lease \<le> 0 then Inl ValueError else Inr (claimed_at + lease \<le> now))"

definition routes_of_choices :: "python_text \<Rightarrow> json \<Rightarrow> (ustr \<times> json) list" where
  "routes_of_choices P choices =
     (case choices of
        JList cs \<Rightarrow> concat (map (\<lambda>(n, c). case c of
            JDict d \<Rightarrow> if falsy (member d ''choice_id'') then [] else [(py_str P (member d ''choice_id''), JInt (int n))]
          | _ \<Rightarrow> []) (enumerate 1 cs))
      | _ \<Rightarrow> [])"

definition backend_pending_interaction ::
  "pending_env \<Rightarrow> store_env \<Rightarrow> ustr \<Rightarrow> pending_row \<Rightarrow> worker \<Rightarrow> (ustr \<times> ustr) result" where
  "backend_pending_interaction X E host_id p w =
     (case (json_loads (pb_payload_json p), json_loads (pb_routes_json p)) of
        (Some (JDict pending), Some (JDict routes)) \<Rightarrow>
          if list_ex (\<lambda>kv. fst kv = [] \<or> (case snd kv of JInt i \<Rightarrow> i < 1 | _ \<Rightarrow> True)) routes then Inl ValueError
          else
            bind_result (normalize_backend_pending_payload E pending
              (if routes \<noteq> [] then routes else routes_of_choices (pe_text X) (member_or pending ''choices'' (JList [])))) (\<lambda>(normalized, _).
            if pb_revision p = [] then Inl ValueError
            else
              bind_result (stable_fingerprint (JDict [(lit ''revision'', JStr (pb_revision p)), (lit ''worker_id'', JStr (pb_worker_id p))])) (\<lambda>f.
              pe_interaction X
                [(lit ''id'', JStr (lit ''pending-'' @ f)), (lit ''host_id'', JStr host_id), (lit ''worker_id'', JStr (pb_worker_id p)),
                 (lit ''question'', member normalized ''question''), (lit ''kind'', member normalized ''kind''),
                 (lit ''choices'', member normalized ''choices''), (lit ''status'', JStr (lit ''open'')),
                 (lit ''worker_fingerprint'', JStr (wk_fingerprint w)), (lit ''space_id'', json_optional (wk_space_id w)),
                 (lit ''meta'', JDict (dict_put (case member normalized ''meta'' of JDict m \<Rightarrow> m | _ \<Rightarrow> [])
                    (lit ''freshness'', JStr (if pb_fresh p then lit ''fresh'' else lit ''stale''))))]))
      | _ \<Rightarrow> Inl ValueError)"

section \<open>Claiming a choice\<close>

record pending_route =
  rt_worker_id :: ustr
  rt_worker_fingerprint :: ustr
  rt_binding :: ustr
  rt_target :: ustr
  rt_ordinal :: int

datatype choice_claim =
    ChoiceClaimed ustr pending_route
  | ChoiceValidated pending_route
  | ChoiceNotFound
  | ChoiceStale
  | ChoiceChanged
  | ChoiceUnknown
  | ChoiceAlreadyClaimed

definition claim_of :: "pending_tables \<Rightarrow> ustr \<times> ustr \<Rightarrow> pending_claim option" where
  "claim_of T k = sql_fetchone (\<lambda>c. claim_key c = k) (pt_claims T)"

text \<open>\<open>None\<close>: somebody else holds it; otherwise the tables with an expired claim removed if this call claims.\<close>

definition free_claim :: "pending_tables \<Rightarrow> ustr \<times> ustr \<Rightarrow> bool \<Rightarrow> time \<Rightarrow> time \<Rightarrow> pending_tables option result" where
  "free_claim T k claim now lease =
     (case claim_of T k of None \<Rightarrow> Inr (Some T)
      | Some c \<Rightarrow>
          if pc_started c then Inr None
          else bind_result (backend_pending_claim_expired (pc_claimed_at c) now lease) (\<lambda>expired.
            if \<not> expired then Inr None
            else Inr (Some (if claim then delete_claims (\<lambda>d. claim_key d = k \<and> \<not> pc_started d \<and> pc_claimed_at d = pc_claimed_at c) T else T))))"

definition insert_claim :: "pending_claim \<Rightarrow> pending_tables \<Rightarrow> pending_tables result" where
  "insert_claim c T =
     (if claim_key c \<in> claim_key ` set (pt_claims T) \<or> pc_token c \<in> pc_token ` set (pt_claims T) \<or> pc_ordinal c < 1
      then Inl IntegrityError else Inr (T\<lparr>pt_claims := pt_claims T @ [c]\<rparr>))"

text \<open>The first open row of the host whose interaction has the id, and that interaction's fingerprint.\<close>

fun matching_interaction ::
  "pending_env \<Rightarrow> store_env \<Rightarrow> pending_tables \<Rightarrow> ustr \<Rightarrow> ustr \<Rightarrow> time \<Rightarrow> pending_row list
     \<Rightarrow> (pending_row \<times> ustr \<times> worker) option" where
  "matching_interaction X E T host_id pending_id now [] = None"
| "matching_interaction X E T host_id pending_id now (p # ps) =
     (case backend_pending_claim_context T host_id (pb_worker_id p) (pb_binding p) (pb_target p) now of
        None \<Rightarrow> matching_interaction X E T host_id pending_id now ps
      | Some w \<Rightarrow>
          (case backend_pending_interaction X E host_id p w of
             Inr (i, fp) \<Rightarrow> if i = pending_id then Some (p, fp, w) else matching_interaction X E T host_id pending_id now ps
           | Inl _ \<Rightarrow> matching_interaction X E T host_id pending_id now ps))"

definition new_claim ::
  "ustr \<times> ustr \<Rightarrow> ustr \<Rightarrow> ustr \<Rightarrow> ustr \<Rightarrow> int \<Rightarrow> ustr \<Rightarrow> ustr \<Rightarrow> ustr \<Rightarrow> time \<Rightarrow> pending_claim" where
  "new_claim k token revision choice ordinal fingerprint binding target now =
     \<lparr>pc_host_id = fst k, pc_worker_id = snd k, pc_token = token, pc_revision = revision, pc_choice_id = choice,
      pc_ordinal = ordinal, pc_worker_fingerprint = fingerprint, pc_binding = binding, pc_target = target,
      pc_started = False, pc_claimed_at = now, pc_send_started_at = None\<rparr>"

definition claim_backend_pending_choice ::
  "pending_env \<Rightarrow> store_env \<Rightarrow> ustr \<Rightarrow> ustr \<Rightarrow> ustr \<Rightarrow> ustr \<Rightarrow> bool \<Rightarrow> time option \<Rightarrow> time \<Rightarrow> pending_tables
     \<Rightarrow> (choice_claim \<times> pending_tables) result" where
  "claim_backend_pending_choice X E host_id pending_id fingerprint choice_id claim now0 lease T =
     (let now = pending_observed_time E now0;
          candidates = sort_key pb_worker_id (filter (\<lambda>p. pb_host_id p = host_id \<and> pb_state p = PendingOpen) (pt_pending T)) in
      if \<not> pt_exists T then Inr (ChoiceNotFound, T)
      else case matching_interaction X E T host_id pending_id now candidates of
        None \<Rightarrow> Inr (ChoiceNotFound, T)
      | Some (p, fp, w) \<Rightarrow>
          if \<not> pb_fresh p then Inr (ChoiceStale, T)
          else if fp \<noteq> fingerprint then Inr (ChoiceChanged, T)
          else
            (case (case json_loads (pb_routes_json p) of Some (JDict routes) \<Rightarrow> map_of routes choice_id | _ \<Rightarrow> None) of
               Some (JInt ordinal) \<Rightarrow>
                 if ordinal < 1 then Inr (ChoiceUnknown, T)
                 else
                   let k = (host_id, pb_worker_id p);
                       route = \<lparr>rt_worker_id = pb_worker_id p, rt_worker_fingerprint = wk_fingerprint w, rt_binding = pb_binding p,
                                rt_target = pb_target p, rt_ordinal = ordinal\<rparr> in
                   bind_result (free_claim T k claim now lease) (\<lambda>free.
                   case free of
                     None \<Rightarrow> Inr (ChoiceAlreadyClaimed, T)
                   | Some T1 \<Rightarrow>
                       if \<not> claim then Inr (ChoiceValidated route, T)
                       else bind_result (insert_claim (new_claim k (token_urlsafe E) (pb_revision p) choice_id ordinal
                                (wk_fingerprint w) (pb_binding p) (pb_target p) now) T1) (\<lambda>T2.
                         Inr (ChoiceClaimed (token_urlsafe E) route, T2)))
             | _ \<Rightarrow> Inr (ChoiceUnknown, T)))"

section \<open>Claiming a decision\<close>

record decision_route =
  dr_worker_id :: ustr
  dr_worker_fingerprint :: ustr
  dr_binding :: ustr
  dr_target :: ustr
  dr_ref :: ustr
  dr_kind :: ustr
  dr_option_count :: nat
  dr_option_refs :: "ustr list"
  dr_text :: "ustr option"

datatype decision_claim =
    DecisionClaimed ustr decision_route
  | DecisionValidated decision_route
  | DecisionUnknownWorker
  | DecisionNotPending
  | DecisionInvalidSelection
  | DecisionUnsupported
  | DecisionAlreadyClaimed

fun route_int :: "pending_env \<Rightarrow> json \<Rightarrow> int option" where
  "route_int X (JInt i) = Some i"
| "route_int X v = pe_int X v"

definition decision_from_pending_row :: "pending_env \<Rightarrow> store_env \<Rightarrow> pending_row \<Rightarrow> decision option" where
  "decision_from_pending_row X E p =
     (case (json_loads (pb_payload_json p), json_loads (pb_routes_json p)) of
        (Some (JDict payload), Some (JDict routes)) \<Rightarrow>
          if list_ex (\<lambda>kv. route_int X (snd kv) = None) routes then None
          else (case normalize_backend_pending_payload E payload (map (\<lambda>kv. (fst kv, JInt (the (route_int X (snd kv))))) routes) of Inl _ \<Rightarrow> None
          | Inr (normalized, _) \<Rightarrow>
              (case member normalized ''meta'' of JDict meta \<Rightarrow>
                 (case member meta ''decision'' of JDict d \<Rightarrow>
                    (case normalize_pending_decision_meta (JDict d) of Inl _ \<Rightarrow> None
                     | Inr n \<Rightarrow> if dn_ref n = lit ''decision-'' @ pb_revision p then Some n else None)
                  | _ \<Rightarrow> None)
               | _ \<Rightarrow> None))
      | _ \<Rightarrow> None)"

definition decision_fields :: "decision \<Rightarrow> ustr \<Rightarrow> ustr \<Rightarrow> ustr \<Rightarrow> ustr \<Rightarrow> ustr list \<Rightarrow> ustr option \<Rightarrow> decision_route" where
  "decision_fields n worker_id fingerprint binding target refs txt =
     \<lparr>dr_worker_id = worker_id, dr_worker_fingerprint = fingerprint, dr_binding = binding, dr_target = target,
      dr_ref = dn_ref n, dr_kind = dn_kind n, dr_option_count = length (dn_options n), dr_option_refs = refs, dr_text = txt\<rparr>"

definition unsupported_row :: "pending_row \<Rightarrow> bool" where
  "unsupported_row p \<longleftrightarrow> pb_state p = PendingInvalid
     \<and> (case json_loads (pb_payload_json p) of Some (JDict d) \<Rightarrow> member d ''unsupported_decision'' = JBool True | _ \<Rightarrow> False)"

definition claim_backend_pending_decision ::
  "pending_env \<Rightarrow> store_env \<Rightarrow> ustr \<Rightarrow> ustr \<Rightarrow> ustr \<Rightarrow> json \<Rightarrow> bool \<Rightarrow> time option \<Rightarrow> time \<Rightarrow> pending_tables
     \<Rightarrow> (decision_claim \<times> pending_tables) result" where
  "claim_backend_pending_decision X E host_id worker_id decision_ref selection claim now0 lease T =
     (let now = pending_observed_time E now0; k = (host_id, worker_id);
          workers = (case pt_workers T host_id of None \<Rightarrow> [] | Some ws \<Rightarrow> ws) in
      if \<not> pt_exists T then Inr (DecisionNotPending, T)
      else if (case List.find (\<lambda>w. wk_id w = worker_id) workers of None \<Rightarrow> True
           | Some w \<Rightarrow> wk_status w \<in> set (map lit disallowed_worker_statuses))
      then Inr (DecisionUnknownWorker, T)
      else case pending_of T k of None \<Rightarrow> Inr (DecisionNotPending, T)
      | Some p \<Rightarrow>
          if unsupported_row p then Inr (DecisionUnsupported, T)
          else if pb_state p \<noteq> PendingOpen \<or> \<not> pb_fresh p then Inr (DecisionNotPending, T)
          else case (backend_pending_claim_context T host_id worker_id (pb_binding p) (pb_target p) now, decision_from_pending_row X E p) of
            (Some w, Some n) \<Rightarrow>
              if dn_ref n \<noteq> decision_ref then Inr (DecisionNotPending, T)
              else if 1 < dn_question_count n then Inr (DecisionUnsupported, T)
              else (case validated_decision_selection n selection of
                None \<Rightarrow> Inr (DecisionInvalidSelection, T)
              | Some (refs, txt) \<Rightarrow>
                  bind_result (free_claim T k claim now lease) (\<lambda>free.
                  case free of
                    None \<Rightarrow> Inr (DecisionAlreadyClaimed, T)
                  | Some T1 \<Rightarrow>
                      let route = decision_fields n worker_id (wk_fingerprint w) (pb_binding p) (pb_target p) refs txt in
                      (case (case refs of [] \<Rightarrow> Some (length (dn_options n) + 1) | r # _ \<Rightarrow> py_int (pe_text X) 0 r) of
                         None \<Rightarrow> Inl ValueError
                       | Some ordinal \<Rightarrow>
                           if \<not> claim then Inr (DecisionValidated route, T)
                           else bind_result (insert_claim (new_claim k (token_urlsafe E) (pb_revision p)
                                (encode_decision_claim_selection refs txt) (int ordinal)
                                (wk_fingerprint w) (pb_binding p) (pb_target p) now) T1) (\<lambda>T2.
                             Inr (DecisionClaimed (token_urlsafe E) route, T2)))))
          | _ \<Rightarrow> Inr (DecisionNotPending, T))"

section \<open>Starting, finishing and abandoning a send\<close>

datatype 'r pending_send =
    SendBegun 'r
  | SendNotFound
  | SendStale
  | SendChanged
  | SendBindingChanged
  | SendAlreadyStarted 'r

definition claim_by_token :: "pending_tables \<Rightarrow> ustr \<Rightarrow> ustr \<Rightarrow> pending_claim option" where
  "claim_by_token T host_id token = sql_fetchone (\<lambda>c. pc_host_id c = host_id \<and> pc_token c = token) (pt_claims T)"

definition unstarted :: "ustr \<Rightarrow> ustr \<Rightarrow> pending_claim \<Rightarrow> bool" where
  "unstarted host_id token c \<longleftrightarrow> pc_host_id c = host_id \<and> pc_token c = token \<and> \<not> pc_started c"

text \<open>A claim whose lease has passed before its send started.\<close>

definition claim_lapsed :: "pending_claim \<Rightarrow> time \<Rightarrow> time \<Rightarrow> bool result" where
  "claim_lapsed c now lease = (if pc_started c then Inr False else backend_pending_claim_expired (pc_claimed_at c) now lease)"

definition open_row :: "pending_tables \<Rightarrow> ustr \<times> ustr \<Rightarrow> pending_row option" where
  "open_row T k = sql_fetchone (\<lambda>p. pending_key p = k \<and> pb_state p = PendingOpen) (pt_pending T)"

text \<open>The compare-and-set both starts end with, once the claim's worker and binding are still current.\<close>

definition begin_send ::
  "ustr \<Rightarrow> ustr \<Rightarrow> pending_claim \<Rightarrow> time \<Rightarrow> 'r \<Rightarrow> pending_tables \<Rightarrow> 'r pending_send \<times> pending_tables" where
  "begin_send host_id token c now route T =
     (case backend_pending_claim_context T host_id (pc_worker_id c) (pc_binding c) (pc_target c) now of
        None \<Rightarrow> (SendBindingChanged, T)
      | Some w \<Rightarrow>
          if wk_fingerprint w \<noteq> pc_worker_fingerprint c then (SendBindingChanged, T)
          else if sql_rowcount (unstarted host_id token) (pt_claims T) \<noteq> 1 then (SendChanged, T)
          else (SendBegun route, T\<lparr>pt_claims := sql_update (unstarted host_id token)
                  (\<lambda>d. d\<lparr>pc_started := True, pc_send_started_at := Some now\<rparr>) (pt_claims T)\<rparr>))"

definition choice_route :: "pending_claim \<Rightarrow> pending_route" where
  "choice_route c =
     \<lparr>rt_worker_id = pc_worker_id c, rt_worker_fingerprint = pc_worker_fingerprint c, rt_binding = pc_binding c,
      rt_target = pc_target c, rt_ordinal = pc_ordinal c\<rparr>"

definition start_backend_pending_choice_send ::
  "store_env \<Rightarrow> ustr \<Rightarrow> ustr \<Rightarrow> time option \<Rightarrow> time \<Rightarrow> pending_tables
     \<Rightarrow> (pending_route pending_send \<times> pending_tables) result" where
  "start_backend_pending_choice_send E host_id token now0 lease T =
     (let now = pending_observed_time E now0 in
      if \<not> pt_exists T then Inr (SendNotFound, T)
      else case claim_by_token T host_id token of None \<Rightarrow> Inr (SendNotFound, T)
      | Some c \<Rightarrow>
          bind_result (claim_lapsed c now lease) (\<lambda>lapsed.
          if lapsed then Inr (SendNotFound, delete_claims (unstarted host_id token) T)
          else if pc_started c then Inr (SendAlreadyStarted (choice_route c), T)
          else case open_row T (host_id, pc_worker_id c) of
            None \<Rightarrow> Inr (SendChanged, T)
          | Some p \<Rightarrow>
              if \<not> pb_fresh p then Inr (SendStale, T)
              else if pb_revision p \<noteq> pc_revision c \<or> pb_binding p \<noteq> pc_binding c \<or> pb_target p \<noteq> pc_target c
                \<or> (case json_loads (pb_routes_json p) of
                     Some (JDict routes) \<Rightarrow>
                       (case map_of routes (pc_choice_id c) of Some v \<Rightarrow> \<not> json_eq_int v (pc_ordinal c) | None \<Rightarrow> True)
                   | _ \<Rightarrow> True)
              then Inr (SendChanged, T)
              else Inr (begin_send host_id token c now (choice_route c) T)))"

definition start_backend_pending_decision_send ::
  "pending_env \<Rightarrow> store_env \<Rightarrow> ustr \<Rightarrow> ustr \<Rightarrow> time option \<Rightarrow> time \<Rightarrow> pending_tables
     \<Rightarrow> (decision_route pending_send \<times> pending_tables) result" where
  "start_backend_pending_decision_send X E host_id token now0 lease T =
     (let now = pending_observed_time E now0 in
      if \<not> pt_exists T then Inr (SendNotFound, T)
      else case claim_by_token T host_id token of None \<Rightarrow> Inr (SendNotFound, T)
      | Some c \<Rightarrow>
          bind_result (claim_lapsed c now lease) (\<lambda>lapsed.
          if lapsed then Inr (SendNotFound, delete_claims (unstarted host_id token) T)
          else case open_row T (host_id, pc_worker_id c) of
            None \<Rightarrow> Inr (SendChanged, T)
          | Some p \<Rightarrow>
              if \<not> pb_fresh p then Inr (SendStale, T)
              else case decision_from_pending_row X E p of
                None \<Rightarrow> Inr (SendChanged, T)
              | Some n \<Rightarrow>
                  (case Option.bind (decode_decision_claim_selection (pc_choice_id c)) (validated_decision_selection n) of
                     None \<Rightarrow> Inr (SendChanged, T)
                   | Some (refs, txt) \<Rightarrow>
                       if pb_revision p \<noteq> pc_revision c \<or> pb_binding p \<noteq> pc_binding c \<or> pb_target p \<noteq> pc_target c
                       then Inr (SendChanged, T)
                       else
                         let route = decision_fields n (pc_worker_id c) (pc_worker_fingerprint c) (pc_binding c) (pc_target c) refs txt in
                         if pc_started c then Inr (SendAlreadyStarted route, T)
                         else Inr (begin_send host_id token c now route T))))"

definition abandon_backend_pending_choice_claim :: "ustr \<Rightarrow> ustr \<Rightarrow> pending_tables \<Rightarrow> bool \<times> pending_tables" where
  "abandon_backend_pending_choice_claim host_id token T =
     (if \<not> pt_exists T then (False, T)
      else (sql_rowcount (unstarted host_id token) (pt_claims T) = 1, delete_claims (unstarted host_id token) T))"

definition tombstone :: "time \<Rightarrow> pending_row \<Rightarrow> pending_row" where
  "tombstone now p =
     p\<lparr>pb_payload_json := lit ''{}'', pb_observed_at := Some now, pb_revision := [], pb_routes_json := lit ''{}'',
       pb_state := PendingNone, pb_fresh := True, pb_last_success_at := Some now, pb_last_failure_at := None,
       pb_grace_deadline := None, pb_updated_at := Some now\<rparr>"

definition finish_pending_send :: "store_env \<Rightarrow> ustr \<Rightarrow> ustr \<Rightarrow> bool \<Rightarrow> time option \<Rightarrow> pending_tables \<Rightarrow> bool \<times> pending_tables" where
  "finish_pending_send E host_id token accepted now0 T =
     (let now = pending_observed_time E now0;
          started = (\<lambda>c. pc_host_id c = host_id \<and> pc_token c = token \<and> pc_started c) in
      if \<not> accepted then (False, T)
      else case sql_fetchone started (pt_claims T) of None \<Rightarrow> (False, T)
      | Some c \<Rightarrow>
          let closes = (\<lambda>p. pb_host_id p = host_id \<and> pb_worker_id p = pc_worker_id c \<and> pb_revision p = pc_revision c
              \<and> pb_binding p = pc_binding c \<and> pb_target p = pc_target c \<and> pb_state p \<in> {PendingOpen, PendingFailed}) in
          (sql_rowcount closes (pt_pending T) = 1 \<and> sql_rowcount started (pt_claims T) = 1,
           delete_claims started (T\<lparr>pt_pending := sql_update closes (tombstone now) (pt_pending T)\<rparr>)))"

definition finish_backend_pending_choice_send :: "store_env \<Rightarrow> ustr \<Rightarrow> ustr \<Rightarrow> bool \<Rightarrow> time option \<Rightarrow> pending_tables \<Rightarrow> bool \<times> pending_tables" where
  "finish_backend_pending_choice_send E host_id token accepted now0 T =
     (if \<not> accepted \<or> \<not> pt_exists T then (False, T) else finish_pending_send E host_id token accepted now0 T)"

text \<open>What an accepted answer does inside the transaction that accepts its receipt.\<close>

definition backend_pending_choice_terminal_effect ::
  "ustr \<Rightarrow> ustr \<Rightarrow> bool \<Rightarrow> store_env \<Rightarrow> pending_tables \<Rightarrow> (unit \<times> pending_tables) result" where
  "backend_pending_choice_terminal_effect host_id token accepted E T =
     (if \<not> accepted then Inr ((), T)
      else case finish_pending_send E host_id token True None T of
        (True, T1) \<Rightarrow> Inr ((), T1)
      | (False, _) \<Rightarrow> Inl (StoreSchemaError (lit ''backend_pending_choice_terminal_effect_failed'')))"

end
