(* ===== verification/PendingProps.thy ===== *)
theory PendingProps
  imports PendingClaims
begin

text \<open>
  Why a prompt is answered at most once: the invariant that ties every claim to the prompt
  it was made on, and runs of the pending tables under observations, claims, sends and
  prunes in any order.
\<close>

section \<open>The invariant\<close>

text \<open>
  A claim answers the prompt stored for its worker: same revision, and while that prompt is
  fresh also open on the same pane; only a send that has started outlives a failed read.
\<close>

definition claim_fits :: "pending_row \<Rightarrow> pending_claim \<Rightarrow> bool" where
  "claim_fits p c \<longleftrightarrow> pending_key p = claim_key c \<and> pb_revision p = pc_revision c
     \<and> pb_state p \<in> {PendingOpen, PendingFailed}
     \<and> (pb_fresh p \<longrightarrow> pb_state p = PendingOpen \<and> pb_binding p = pc_binding c \<and> pb_target p = pc_target c)
     \<and> (\<not> pc_started c \<longrightarrow> pb_fresh p)"

definition pending_ok :: "pending_tables \<Rightarrow> bool" where
  "pending_ok T \<longleftrightarrow>
     unique_key pending_key (pt_pending T) \<and> unique_key claim_key (pt_claims T) \<and> unique_key pc_token (pt_claims T)
     \<and> (\<forall>c \<in> set (pt_claims T). 1 \<le> pc_ordinal c \<and> (\<exists>p \<in> set (pt_pending T). claim_fits p c))"

lemma pending_of_unique:
  assumes "unique_key pending_key (pt_pending T)" "p \<in> set (pt_pending T)" "pending_key p = k"
  shows "pending_of T k = Some p"
  using fetchone_unique[OF assms(1,2)] assms(3) by (simp add: pending_of_def)

lemma pending_of_Some: "pending_of T k = Some p \<Longrightarrow> p \<in> set (pt_pending T) \<and> pending_key p = k"
  by (auto simp: pending_of_def dest: fetchone_SomeD)

lemma claim_of_Some: "claim_of T k = Some c \<Longrightarrow> c \<in> set (pt_claims T) \<and> claim_key c = k"
  by (auto simp: claim_of_def dest: fetchone_SomeD)

lemma claim_fits_of:
  assumes "pending_ok T" "c \<in> set (pt_claims T)"
  obtains p where "pending_of T (claim_key c) = Some p" "p \<in> set (pt_pending T)" "claim_fits p c"
proof -
  obtain p where p: "p \<in> set (pt_pending T)" "claim_fits p c" using assms by (auto simp: pending_ok_def)
  then have "pending_of T (claim_key c) = Some p"
    using assms(1) by (intro pending_of_unique) (auto simp: pending_ok_def claim_fits_def)
  then show thesis using that p by blast
qed

text \<open>
  How a worker's row and claims may change at once: the row of \<open>k\<close> becomes \<open>r\<close> (or goes), the
  claims that stay are claims of before and fit.
\<close>

lemma pending_ok_change:
  assumes ok: "pending_ok T"
    and rows: "unique_key pending_key (pt_pending T')"
      "\<And>p. p \<in> set (pt_pending T) \<Longrightarrow> pending_key p \<noteq> k \<Longrightarrow> p \<in> set (pt_pending T')"
    and claims: "pt_claims T' = sql_delete gone (pt_claims T)"
    and fits: "\<And>c p. c \<in> set (pt_claims T) \<Longrightarrow> \<not> gone c \<Longrightarrow> claim_key c = k \<Longrightarrow> claim_fits p c \<Longrightarrow> p \<in> set (pt_pending T)
      \<Longrightarrow> \<exists>p' \<in> set (pt_pending T'). claim_fits p' c"
  shows "pending_ok T'"
proof -
  have "1 \<le> pc_ordinal c \<and> (\<exists>p \<in> set (pt_pending T'). claim_fits p c)" if "c \<in> set (pt_claims T')" for c
  proof -
    have c: "c \<in> set (pt_claims T)" "\<not> gone c" using that by (auto simp: claims sql_delete_def)
    obtain p where p: "p \<in> set (pt_pending T)" "claim_fits p c" using ok c(1) by (auto simp: pending_ok_def)
    have "\<exists>p' \<in> set (pt_pending T'). claim_fits p' c"
    proof (cases "claim_key c = k")
      case False
      then have "p \<in> set (pt_pending T')" using rows(2) p by (auto simp: claim_fits_def)
      then show ?thesis using p(2) by blast
    qed (use fits[OF c] p in blast)
    then show ?thesis using ok c(1) by (auto simp: pending_ok_def)
  qed
  moreover have "unique_key claim_key (pt_claims T')" "unique_key pc_token (pt_claims T')"
    using ok by (auto simp: claims pending_ok_def intro: unique_key_delete)
  ultimately show ?thesis using rows(1) by (simp add: pending_ok_def)
qed

lemma set_put_pending:
  "set (pt_pending (put_pending r T)) = {p \<in> set (pt_pending T). pending_key p \<noteq> pending_key r} \<union> {r}"
  by (auto simp: put_pending_def sql_upsert_def list_ex_iff sql)

lemma put_pending_claims [simp]: "pt_claims (put_pending r T) = pt_claims T"
  by (simp add: put_pending_def)

lemma unique_put_pending:
  assumes "unique_key pending_key (pt_pending T)"
  shows "unique_key pending_key (pt_pending (put_pending r T))"
proof -
  have "unique_key pending_key (sql_update (\<lambda>p. pending_key p = pending_key r) (\<lambda>_. r) (pt_pending T))"
    using assms by (subst unique_key_update) simp_all
  moreover have "unique_key pending_key (pt_pending T @ [r])" if "\<forall>p \<in> set (pt_pending T). pending_key p \<noteq> pending_key r"
    using assms that by (force simp: unique_key_snoc)
  ultimately show ?thesis by (auto simp: put_pending_def sql_upsert_def list_ex_iff)
qed

lemma delete_claims_fields [simp]:
  "pt_pending (delete_claims g T) = pt_pending T" "pt_claims (delete_claims g T) = sql_delete g (pt_claims T)"
  by (simp_all add: delete_claims_def)

lemma update_pending_fields [simp]: "pt_claims (update_pending k f T) = pt_claims T"
  "pt_pending (update_pending k f T) = sql_update (\<lambda>p. pending_key p = k) f (pt_pending T)"
  by (simp_all add: update_pending_def)

lemma sql_delete_none [simp]: "sql_delete (\<lambda>_. False) t = t"
  by (simp add: sql_delete_def)

lemma delete_no_claims [simp]: "delete_claims (\<lambda>_. False) T = T"
  by (simp add: delete_claims_def)

lemma pending_key_blank [simp]: "pending_key (blank_row k a b c d e f g) = k"
  by (simp add: blank_row_def pending_key_def)

text \<open>A row that is written anew keeps only claims that fit it.\<close>

lemma pending_ok_put:
  assumes "pending_ok T" "pending_key r = k"
    and "\<And>c. c \<in> set (pt_claims T) \<Longrightarrow> claim_key c = k \<Longrightarrow> \<not> gone c \<Longrightarrow> (\<And>p. p \<in> set (pt_pending T) \<Longrightarrow> claim_fits p c \<Longrightarrow> claim_fits r c)"
  shows "pending_ok (put_pending r (delete_claims gone T))" "pending_ok (delete_claims gone (put_pending r T))"
proof -
  have u: "unique_key pending_key (pt_pending T)" using assms(1) by (simp add: pending_ok_def)
  have s: "set (pt_pending (put_pending r (delete_claims gone T))) = set (pt_pending (put_pending r T))"
    by (simp add: set_put_pending)
  show "pending_ok (put_pending r (delete_claims gone T))"
    by (rule pending_ok_change[OF assms(1), where gone = gone and k = k])
      (use u assms(2,3) in \<open>auto simp: s set_put_pending unique_put_pending\<close>)
  show "pending_ok (delete_claims gone (put_pending r T))"
    by (rule pending_ok_change[OF assms(1), where gone = gone and k = k])
      (use u assms(2,3) in \<open>auto simp: set_put_pending unique_put_pending\<close>)
qed

text \<open>A row that is changed in place.\<close>

lemma pending_ok_update:
  assumes ok: "pending_ok T" and key: "\<And>p. pending_key (f p) = pending_key p"
    and fits: "\<And>p c. pending_of T k = Some p \<Longrightarrow> c \<in> set (pt_claims T) \<Longrightarrow> claim_key c = k \<Longrightarrow> \<not> gone c \<Longrightarrow> claim_fits p c
      \<Longrightarrow> claim_fits (f p) c"
  shows "pending_ok (delete_claims gone (update_pending k f T))"
proof (rule pending_ok_change[OF ok, where gone = gone and k = k])
  have u: "unique_key pending_key (pt_pending T)" using ok by (simp add: pending_ok_def)
  then show "unique_key pending_key (pt_pending (delete_claims gone (update_pending k f T)))"
    by (simp add: unique_key_update key)
  fix c p assume c: "c \<in> set (pt_claims T)" "\<not> gone c" "claim_key c = k" "claim_fits p c" "p \<in> set (pt_pending T)"
  have k: "pending_key p = k" using c(3,4) by (simp add: claim_fits_def)
  then have "claim_fits (f p) c" using fits[OF pending_of_unique[OF u c(5)]] c by blast
  moreover have "f p \<in> set (sql_update (\<lambda>p. pending_key p = k) f (pt_pending T))" using c(5) k by (auto simp: sql)
  ultimately show "\<exists>p' \<in> set (pt_pending (delete_claims gone (update_pending k f T))). claim_fits p' c" by auto
qed (auto simp: sql)

section \<open>Operations and their contract\<close>

text \<open>
  A worker is locked while its prompt must not be answered again: a send on it has started,
  or it has no fresh open prompt.
\<close>

definition answerable :: "pending_tables \<Rightarrow> ustr \<times> ustr \<Rightarrow> bool" where
  "answerable T k \<longleftrightarrow> (\<exists>p. pending_of T k = Some p \<and> pb_state p = PendingOpen \<and> pb_fresh p)"

definition locked :: "ustr \<times> ustr \<Rightarrow> pending_tables \<Rightarrow> bool" where
  "locked k T \<longleftrightarrow> (\<exists>c \<in> set (pt_claims T). claim_key c = k \<and> pc_started c) \<or> \<not> answerable T k"

locale pending_operation =
  fixes effect :: "pending_tables \<Rightarrow> pending_tables \<Rightarrow> bool"
  assumes keeps: "pending_ok T \<Longrightarrow> effect T T' \<Longrightarrow> pending_ok T'"
begin

lemma repeated: "effect\<^sup>*\<^sup>* T T' \<Longrightarrow> pending_ok T \<Longrightarrow> pending_ok T'"
  by (induction rule: rtranclp_induct) (auto intro: keeps)

end

text \<open>An operation that neither unlocks a worker nor opens a prompt.\<close>

locale quiet_operation = pending_operation +
  assumes locks: "pending_ok T \<Longrightarrow> effect T T' \<Longrightarrow> locked k T \<Longrightarrow> locked k T'"
begin

lemma locked_repeated: "effect\<^sup>*\<^sup>* T T' \<Longrightarrow> pending_ok T \<Longrightarrow> locked k T \<Longrightarrow> locked k T'"
proof (induction rule: rtranclp_induct)
  case (step T1 T2)
  then show ?case using repeated[OF step(1)] locks by blast
qed

end

section \<open>Observations\<close>

lemma claim_fits_key: "claim_fits p c \<Longrightarrow> pending_key p = claim_key c"
  by (simp add: claim_fits_def)

lemma unclaimed_fit: "claim_fits p c \<Longrightarrow> pc_started c \<or> pb_fresh p"
  by (auto simp: claim_fits_def)

lemma read_failed_keeps:
  assumes ok: "pending_ok T" and row: "row = pending_of T k" and r: "apply_read_failed k row now g b t T = (ch, T')"
  shows "pending_ok T'"
proof (cases row)
  case None
  have "\<forall>c \<in> set (pt_claims T). claim_key c \<noteq> k"
    using claim_fits_of[OF ok] None row by (metis option.distinct(1))
  then have "pending_ok (put_pending (blank_row k (lit ''{}'') now b t PendingFailed False False) (delete_claims (\<lambda>_. False) T))"
    by (intro pending_ok_put(1)[OF ok pending_key_blank]) simp
  then show ?thesis using r None by (simp add: apply_read_failed_def Let_def)
next
  case (Some p)
  let ?seen = "\<lambda>p. p\<lparr>pb_observed_at := Some now, pb_last_failure_at := Some now\<rparr>"
  let ?fail = "\<lambda>st d p. p\<lparr>pb_observed_at := Some now, pb_binding := b, pb_target := t, pb_state := st (pb_state p), pb_fresh := False,
      pb_last_failure_at := Some now, pb_grace_deadline := d, pb_updated_at := Some now\<rparr>"
  have seen: "pending_ok (update_pending k ?seen T)"
    using pending_ok_update[OF ok, where f = ?seen and k = k and gone = "\<lambda>_. False"]
    by (auto simp: pending_key_def claim_fits_def)
  have fail: "pending_ok (delete_claims (\<lambda>c. claim_key c = k \<and> \<not> pc_started c) (update_pending k (?fail st d) T))"
    if "\<And>s. s \<in> {PendingOpen, PendingFailed} \<Longrightarrow> st s \<in> {PendingOpen, PendingFailed}" for st d
    by (rule pending_ok_update[OF ok]) (use that in \<open>auto simp: pending_key_def claim_fits_def\<close>)
  have other: "pending_ok (update_pending k (?fail (\<lambda>s. s) d) T)" if "pb_state p \<noteq> PendingOpen" "pb_fresh p" for d
  proof -
    have "\<not> claim_fits p c" for c using that by (auto simp: claim_fits_def)
    then have "pending_ok (delete_claims (\<lambda>_. False) (update_pending k (?fail (\<lambda>s. s) d) T))"
      using Some row by (intro pending_ok_update[OF ok]) (auto simp: pending_key_def)
    then show ?thesis by simp
  qed
  show ?thesis
    using r Some seen fail[of "\<lambda>_. PendingFailed" None] fail[of "\<lambda>s. s"] other
    by (auto simp: apply_read_failed_def Let_def split: if_splits option.splits)
qed

lemma no_answer_keeps: "pending_ok T \<Longrightarrow> pending_key r = k \<Longrightarrow> apply_no_answer k row r wp T = (ch, T') \<Longrightarrow> pending_ok T'"
  using pending_ok_put(2)[where gone = "\<lambda>c. claim_key c = k" and r = r and k = k] by (auto simp: apply_no_answer_def)

lemma open_prompt_row:
  assumes "apply_open_prompt E k row q now b t T = Inr (ch, T')"
  obtains rev r where "prompt_revision q b t = Inr rev" "pending_key r = k" "pb_revision r = rev" "pb_binding r = b" "pb_target r = t"
    "pb_state r = PendingOpen" "pb_fresh r"
    "T' = put_pending r (delete_claims (\<lambda>c. claim_key c = k \<and> (pc_revision c \<noteq> rev \<or> pc_binding c \<noteq> b \<or> pc_target c \<noteq> t)) T)"
proof -
  obtain rev cs nm rj where *: "prompt_revision q b t = Inr rev"
    "T' = put_pending ((blank_row k (json_dumps (JDict nm)) now b t PendingOpen True True)\<lparr>pb_revision := rev, pb_routes_json := rj\<rparr>)
       (delete_claims (\<lambda>c. claim_key c = k \<and> (pc_revision c \<noteq> rev \<or> pc_binding c \<noteq> b \<or> pc_target c \<noteq> t)) T)"
    using assms by (auto simp: apply_open_prompt_def bind_result_eq_Inr Let_def split: prod.splits)
  show thesis by (rule that[OF *(1) _ _ _ _ _ _ *(2)]) (simp_all add: blank_row_def pending_key_def)
qed

lemma open_prompt_keeps:
  assumes "pending_ok T" "apply_open_prompt E k row q now b t T = Inr (ch, T')"
  shows "pending_ok T'"
proof (rule open_prompt_row[OF assms(2)])
  fix rev r
  assume r: "pending_key r = k" "pb_revision r = rev" "pb_binding r = b" "pb_target r = t" "pb_state r = PendingOpen" "pb_fresh r"
    "T' = put_pending r (delete_claims (\<lambda>c. claim_key c = k \<and> (pc_revision c \<noteq> rev \<or> pc_binding c \<noteq> b \<or> pc_target c \<noteq> t)) T)"
  show "pending_ok T'" unfolding r(7)
    by (rule pending_ok_put(1)[OF assms(1) r(1)]) (use r in \<open>auto simp: claim_fits_def\<close>)
qed

lemma absent_keeps:
  assumes ok: "pending_ok T" and gone: "\<And>p. gone p \<Longrightarrow> pending_key p = k"
  shows "pending_ok (delete_claims (\<lambda>c. claim_key c = k) (T\<lparr>pt_pending := sql_delete gone (pt_pending T)\<rparr>))"
proof (rule pending_ok_change[OF ok, where k = k and gone = "\<lambda>c. claim_key c = k"])
  show "unique_key pending_key (pt_pending (delete_claims (\<lambda>c. claim_key c = k) (T\<lparr>pt_pending := sql_delete gone (pt_pending T)\<rparr>)))"
    using ok by (simp add: pending_ok_def unique_key_delete)
qed (use gone in \<open>auto simp: sql_delete_def\<close>)

lemma observation_keeps:
  assumes "pending_ok T" "apply_backend_pending_observation E h w ob now g b t auth T = Inr (ch, T')"
  shows "pending_ok T'"
proof -
  note keeps = read_failed_keeps[OF assms(1) refl] no_answer_keeps[OF assms(1) pending_key_blank] open_prompt_keeps[OF assms(1)]
  note d = assms(2)[unfolded apply_backend_pending_observation_def Let_def]
  show ?thesis
  proof (cases "ob = WorkerAbsent")
    case True
    then show ?thesis
      using d assms(1) absent_keeps[OF assms(1), of "\<lambda>p. pending_key p = (h, w) \<and> (b \<noteq> [] \<longrightarrow> pb_binding p = b)" "(h, w)"]
      by (auto split: if_splits)
  next
    case False
    then show ?thesis using d assms(1) keeps by (cases ob) (auto split: if_splits)
  qed
qed

interpretation observe: pending_operation "\<lambda>T T'. \<exists>E h w ob now g b t auth ch.
    apply_backend_pending_observation E h w ob now g b t auth T = Inr (ch, T')"
  by unfold_locales (blast intro: observation_keeps)

lemma prune_rows_keeps: "prune_rows E h rows now g T = Inr T' \<Longrightarrow> pending_ok T \<Longrightarrow> pending_ok T'"
proof (induction rows arbitrary: T)
  case (Cons row rows)
  then show ?case by (cases row) (auto simp: bind_result_eq_Inr dest: observation_keeps split: prod.splits)
qed simp

interpretation prune: pending_operation "\<lambda>T T'. \<exists>E h live now g b1 b2 b3 n. prune_backend_pending E h live now g b1 b2 b3 T = Inr (n, T')"
proof
  fix T T' assume ok: "pending_ok T" and "\<exists>E h live now g b1 b2 b3 n. prune_backend_pending E h live now g b1 b2 b3 T = Inr (n, T')"
  then show "pending_ok T'" using prune_rows_keeps ok
    by (auto simp: prune_backend_pending_def Let_def bind_result_eq_Inr split: if_splits)
qed

end
