(* ===== verification/PendingRuns.thy ===== *)
theory PendingRuns
  imports PendingProps
begin

text \<open>
  Which operations on pending interactions unlock a worker, and what follows for runs of
  them in any order: between two answers to a worker a prompt has been observed on it.
\<close>

section \<open>Rows and locks under the table operations\<close>

lemma pending_of_put [simp]: "pending_of (put_pending r T) k = (if pending_key r = k then Some r else pending_of T k)"
proof -
  have "sql_fetchone (\<lambda>p. pending_key p = k) (sql_update (\<lambda>p. pending_key p = pending_key r) (\<lambda>_. r) t)
      = (if pending_key r = k \<and> list_ex (\<lambda>p. pending_key p = pending_key r) t then Some r else sql_fetchone (\<lambda>p. pending_key p = k) t)"
    for t by (induction t) auto
  moreover have "sql_fetchone (\<lambda>p. pending_key p = k) t = None"
    if "\<not> list_ex (\<lambda>p. pending_key p = pending_key r) t" "pending_key r = k" for t
    using that by (auto simp: fetchone_None_iff list_ex_iff)
  ultimately show ?thesis
    by (auto simp: pending_of_def put_pending_def sql_upsert_def fetchone_append split: option.splits)
qed

lemma pending_of_update:
  "(\<And>p. pending_key (f p) = pending_key p)
    \<Longrightarrow> pending_of (update_pending j f T) k = (if k = j then map_option f (pending_of T k) else pending_of T k)"
proof -
  assume key: "\<And>p. pending_key (f p) = pending_key p"
  have "sql_fetchone (\<lambda>p. pending_key p = k) (sql_update (\<lambda>p. pending_key p = j) f t)
      = (if k = j then map_option f (sql_fetchone (\<lambda>p. pending_key p = k) t) else sql_fetchone (\<lambda>p. pending_key p = k) t)" for t
    by (induction t) (auto simp: key)
  then show ?thesis by (simp add: pending_of_def)
qed

lemma pending_of_same [simp]: "pending_of (delete_claims g T) k = pending_of T k"
  "pending_of (T\<lparr>pt_claims := cs\<rparr>) k = pending_of T k"
  by (simp_all add: pending_of_def)

lemma answerable_cong: "pending_of T' k = pending_of T k \<Longrightarrow> answerable T' k = answerable T k"
  by (simp add: answerable_def)

lemma lockedI:
  assumes "locked k T" "answerable T' k \<Longrightarrow> answerable T k"
    and "\<And>c. c \<in> set (pt_claims T) \<Longrightarrow> claim_key c = k \<Longrightarrow> pc_started c \<Longrightarrow> answerable T' k
      \<Longrightarrow> \<exists>d \<in> set (pt_claims T'). claim_key d = k \<and> pc_started d"
  shows "locked k T'"
  using assms unfolding locked_def by blast

section \<open>Observations\<close>

lemma read_failed_locks:
  assumes "apply_read_failed j (pending_of T j) now g b t T = (ch, T')" "locked k T"
  shows "locked k T'"
proof -
  have "k \<noteq> j \<Longrightarrow> pending_of T' k = pending_of T k" "\<not> answerable T' j"
    using assms(1)
    by (auto simp: apply_read_failed_def Let_def answerable_def pending_of_update pending_key_def blank_row_def
        split: option.splits if_splits)
  moreover have "c \<in> set (pt_claims T')" if "c \<in> set (pt_claims T)" "claim_key c \<noteq> j" for c
    using assms(1) that by (auto simp: apply_read_failed_def Let_def sql_delete_def split: option.splits if_splits)
  ultimately show ?thesis using assms(2) by (intro lockedI[OF assms(2)]) (metis answerable_cong)+
qed

lemma no_answer_locks:
  assumes "apply_no_answer j row r wp T = (ch, T')" "locked k T" "pending_key r = j" "pb_state r \<noteq> PendingOpen"
  shows "locked k T'"
proof -
  have T': "T' = delete_claims (\<lambda>c. claim_key c = j) (put_pending r T)" using assms(1) by (simp add: apply_no_answer_def)
  then show ?thesis using assms(3,4)
    by (intro lockedI[OF assms(2)]) (auto simp: answerable_def sql_delete_def split: if_splits)
qed

lemma open_prompt_locks:
  assumes "apply_open_prompt E j row q now b t T = Inr (ch, T')" "locked k T" "k \<noteq> j"
  shows "locked k T'"
proof (rule open_prompt_row[OF assms(1)])
  fix rev r
  assume "pending_key r = j"
    "T' = put_pending r (delete_claims (\<lambda>c. claim_key c = j \<and> (pc_revision c \<noteq> rev \<or> pc_binding c \<noteq> b \<or> pc_target c \<noteq> t)) T)"
  then show "locked k T'" using assms(3)
    by (intro lockedI[OF assms(2)]) (auto simp: answerable_def sql_delete_def)
qed

lemma pending_of_deleted:
  assumes "unique_key pending_key (pt_pending T)" "pending_of (T\<lparr>pt_pending := sql_delete gone (pt_pending T)\<rparr>) k = Some p"
  shows "pending_of T k = Some p \<and> \<not> gone p"
  using assms pending_of_unique[OF assms(1), of p k] pending_of_Some[OF assms(2)] by (auto simp: sql_delete_def)

lemma absent_locks:
  assumes ok: "pending_ok T" and some: "sql_rowcount gone (pt_pending T) \<noteq> 0" and gone: "\<And>p. gone p \<Longrightarrow> pending_key p = j"
    and lock: "locked k T"
  shows "locked k (delete_claims (\<lambda>c. claim_key c = j) (T\<lparr>pt_pending := sql_delete gone (pt_pending T)\<rparr>))" (is "locked k ?T'")
proof (rule lockedI[OF lock])
  have u: "unique_key pending_key (pt_pending T)" using ok by (simp add: pending_ok_def)
  obtain p where p: "p \<in> set (pt_pending T)" "gone p" using some by (auto simp: sql_rowcount_def filter_empty_conv)
  have k: "pending_of T k = Some q" "\<not> gone q" if "pending_of ?T' k = Some q" for q
    using pending_of_deleted[OF u, of gone k q] that by simp_all
  show "answerable ?T' k \<Longrightarrow> answerable T k" using k by (auto simp: answerable_def)
  have "k \<noteq> j" if "answerable ?T' k"
    using that k p pending_of_unique[OF u p(1) gone[OF p(2)]] by (auto simp: answerable_def)
  then show "\<exists>d \<in> set (pt_claims ?T'). claim_key d = k \<and> pc_started d"
    if "c \<in> set (pt_claims T)" "claim_key c = k" "pc_started c" "answerable ?T' k" for c
    using that by (auto simp: sql_delete_def)
qed

lemma observation_locks:
  assumes ok: "pending_ok T" and d: "apply_backend_pending_observation E h w ob now g b t auth T = Inr (ch, T')"
    and lock: "locked k T" and other: "k \<noteq> (h, w) \<or> (\<forall>q. ob \<noteq> OpenPrompt q)"
  shows "locked k T'"
proof -
  note d = d[unfolded apply_backend_pending_observation_def Let_def]
  show ?thesis
  proof (cases "ob = WorkerAbsent")
    case True
    then show ?thesis
      using d lock absent_locks[OF ok, of "\<lambda>p. pending_key p = (h, w) \<and> (b \<noteq> [] \<longrightarrow> pb_binding p = b)" "(h, w)" k]
      by (auto split: if_splits)
  next
    case False
    have blank: "pb_state (blank_row a1 a2 a3 a4 a5 s a6 a7) = s" for a1 a2 a3 a4 a5 s a6 a7 by (simp add: blank_row_def)
    have no: "locked k T'" if "apply_no_answer (h, w) row (blank_row (h, w) a2 a3 a4 a5 s a6 a7) wp T = (ch, T')" "s \<noteq> PendingOpen"
      for row a2 a3 a4 a5 s a6 a7 wp
      by (rule no_answer_locks[OF that(1) lock pending_key_blank]) (simp add: that(2) blank)
    have fail: "locked k T'" if "apply_read_failed (h, w) (pending_of T (h, w)) now g b' t' T = (ch, T')" for b' t'
      using that lock by (rule read_failed_locks)
    have opened: "locked k T'" if "apply_open_prompt E (h, w) row q now b t T = Inr (ch, T')" "ob = OpenPrompt q" for row q
      using open_prompt_locks[OF that(1) lock] that(2) other by blast
    show ?thesis using d lock False no fail opened by (cases ob) (auto split: if_splits)
  qed
qed

lemma prune_rows_locks: "prune_rows E h rows now g T = Inr T' \<Longrightarrow> pending_ok T \<Longrightarrow> locked k T \<Longrightarrow> locked k T'"
proof (induction rows arbitrary: T)
  case (Cons row rows)
  obtain w b t where row: "row = (w, b, t)" by (cases row)
  obtain ch T1 where "apply_backend_pending_observation E h w WorkerAbsent now g b t False T = Inr (ch, T1)"
    "prune_rows E h rows now g T1 = Inr T'"
    using Cons.prems(1) row by (auto simp: bind_result_eq_Inr split: prod.splits)
  then show ?case using Cons.IH Cons.prems(2,3) observation_keeps observation_locks by (metis observation.distinct(9))
qed simp

section \<open>Claims\<close>

lemma pending_ok_delete_claims: "pending_ok T \<Longrightarrow> pending_ok (delete_claims g T)"
  by (rule pending_ok_change[where gone = g and k = undefined]) (auto simp: pending_ok_def)

lemma free_claim_cases:
  assumes "free_claim T k claim now lease = Inr (Some T1)"
  obtains g where "T1 = delete_claims g T" "\<And>c. g c \<Longrightarrow> \<not> pc_started c"
    "\<And>c. claim_of T k = Some c \<Longrightarrow> \<not> pc_started c \<and> pc_claimed_at c + lease \<le> now"
proof (cases "claim_of T k")
  case None
  then show thesis using that[of "\<lambda>_. False"] assms by (simp add: free_claim_def)
next
  case (Some c)
  then have "\<not> pc_started c \<and> pc_claimed_at c + lease \<le> now
      \<and> T1 = (if claim then delete_claims (\<lambda>d. claim_key d = k \<and> \<not> pc_started d \<and> pc_claimed_at d = pc_claimed_at c) T else T)"
    using assms by (auto simp: free_claim_def backend_pending_claim_expired_def bind_result_eq_Inr split: if_splits)
  then show thesis using Some
    that[of "\<lambda>d. claim \<and> claim_key d = k \<and> \<not> pc_started d \<and> pc_claimed_at d = pc_claimed_at c"]
    by (cases claim) auto
qed

lemma insert_claim_keeps:
  assumes ok: "pending_ok T" and d: "insert_claim c T = Inr T'" and p: "p \<in> set (pt_pending T)" "claim_fits p c"
  shows "pending_ok T'"
  using ok d p by (auto simp: insert_claim_def pending_ok_def unique_key_snoc split: if_splits)

lemma claiming_keeps_started:
  assumes "free_claim T j claim now l = Inr (Some T1)" "insert_claim c T1 = Inr T'"
  shows "pt_pending T' = pt_pending T \<and> (\<forall>d \<in> set (pt_claims T). pc_started d \<longrightarrow> d \<in> set (pt_claims T'))"
proof (rule free_claim_cases[OF assms(1)])
  fix g assume "T1 = delete_claims g T" "\<And>c. g c \<Longrightarrow> \<not> pc_started c"
  then show ?thesis using assms(2) by (auto simp: insert_claim_def sql_delete_def split: if_splits)
qed

text \<open>What both claims do to the tables.\<close>

definition claims_row :: "pending_tables \<Rightarrow> pending_tables \<Rightarrow> bool" where
  "claims_row T T' \<longleftrightarrow> T' = T \<or> (\<exists>k l now T1 p c. free_claim T k True now l = Inr (Some T1) \<and> insert_claim c T1 = Inr T'
      \<and> p \<in> set (pt_pending T) \<and> claim_fits p c)"

lemma claims_row_refl: "claims_row T T"
  by (simp add: claims_row_def)

lemma claims_row_claimed:
  "free_claim T k True now l = Inr (Some T1) \<Longrightarrow> insert_claim c T1 = Inr T' \<Longrightarrow> p \<in> set (pt_pending T) \<Longrightarrow> claim_fits p c
    \<Longrightarrow> claims_row T T'"
  unfolding claims_row_def by blast

interpretation claims: quiet_operation claims_row
proof
  fix T T' assume ok: "pending_ok T" and d: "claims_row T T'"
  show "pending_ok T'"
  proof (cases "T' = T")
    case False
    then obtain k l now T1 p c where s: "free_claim T k True now l = Inr (Some T1)" "insert_claim c T1 = Inr T'"
      "p \<in> set (pt_pending T)" "claim_fits p c" using d by (auto simp: claims_row_def)
    show ?thesis by (rule free_claim_cases[OF s(1)]) (use s ok in \<open>auto intro: insert_claim_keeps pending_ok_delete_claims\<close>)
  qed (use ok in simp)
  fix k assume lock: "locked k T"
  show "locked k T'"
  proof (cases "T' = T")
    case False
    then obtain j l now T1 p c where s: "free_claim T j True now l = Inr (Some T1)" "insert_claim c T1 = Inr T'"
      using d by (auto simp: claims_row_def)
    note started = claiming_keeps_started[OF s]
    then have "pending_of T' k = pending_of T k" by (simp add: pending_of_def)
    then show ?thesis using started by (intro lockedI[OF lock]) (auto simp: answerable_def)
  qed (use lock in simp)
qed

lemma matching_interaction_Some:
  assumes "matching_interaction X E T h i now ps = Some (p, fp, w)"
  shows "p \<in> set ps \<and> backend_pending_claim_context T h (pb_worker_id p) (pb_binding p) (pb_target p) now = Some w
    \<and> backend_pending_interaction X E h p w = Inr (i, fp)"
  using assms by (induction ps) (auto split: option.splits sum.splits if_splits prod.splits)

lemma new_claim_fits:
  "pb_state p = PendingOpen \<Longrightarrow> pb_fresh p \<Longrightarrow> pending_key p = k
    \<Longrightarrow> claim_fits p (new_claim k token (pb_revision p) choice i f (pb_binding p) (pb_target p) now)"
  by (auto simp: claim_fits_def new_claim_def claim_key_def)

text \<open>Where a choice can have been validated or claimed.\<close>

lemma claim_choice_cases:
  assumes d: "claim_backend_pending_choice X E h i fp ch claim now l T = Inr (res, T')"
    and res: "res \<in> {ChoiceValidated r} \<union> range (\<lambda>t. ChoiceClaimed t r)"
  obtains p w n T1 routes where
    "p \<in> set (pt_pending T)" "pending_key p = (h, rt_worker_id r)" "pb_state p = PendingOpen" "pb_fresh p"
    "backend_pending_claim_context T h (pb_worker_id p) (pb_binding p) (pb_target p) (pending_observed_time E now) = Some w"
    "backend_pending_interaction X E h p w = Inr (i, fp)"
    "json_loads (pb_routes_json p) = Some (JDict routes)" "map_of routes ch = Some (JInt n)" "1 \<le> n"
    "r = \<lparr>rt_worker_id = pb_worker_id p, rt_worker_fingerprint = wk_fingerprint w, rt_binding = pb_binding p,
          rt_target = pb_target p, rt_ordinal = n\<rparr>"
    "free_claim T (h, rt_worker_id r) claim (pending_observed_time E now) l = Inr (Some T1)"
    "res = ChoiceValidated r \<Longrightarrow> \<not> claim \<and> T' = T"
    "res \<noteq> ChoiceValidated r \<Longrightarrow> claim \<and> res = ChoiceClaimed (token_urlsafe E) r
       \<and> insert_claim (new_claim (h, pb_worker_id p) (token_urlsafe E) (pb_revision p) ch n (wk_fingerprint w) (pb_binding p) (pb_target p)
           (pending_observed_time E now)) T1 = Inr T'"
proof -
  let ?ps = "sort_key pb_worker_id (filter (\<lambda>p. pb_host_id p = h \<and> pb_state p = PendingOpen) (pt_pending T))"
  obtain p fp' w where m: "matching_interaction X E T h i (pending_observed_time E now) ?ps = Some (p, fp', w)"
    using d res by (auto simp: claim_backend_pending_choice_def Let_def split: if_splits option.splits)
  note d = d[unfolded claim_backend_pending_choice_def Let_def m option.case prod.case]
  have fresh: "pb_fresh p" "fp' = fp" using d res by (auto split: if_splits)
  obtain routes n where routes: "json_loads (pb_routes_json p) = Some (JDict routes)" "map_of routes ch = Some (JInt n)" "\<not> n < 1"
    using d res fresh by (auto split: if_splits option.splits json.splits)
  obtain T1 where free: "free_claim T (h, pb_worker_id p) claim (pending_observed_time E now) l = Inr (Some T1)"
    using d res fresh routes by (auto simp: bind_result_eq_Inr split: if_splits option.splits)
  show thesis
    using that[of p w routes n T1] matching_interaction_Some[OF m] d res fresh routes free
    by (auto simp: pending_key_def bind_result_eq_Inr split: if_splits)
qed

lemma claim_choice_claims:
  assumes d: "claim_backend_pending_choice X E h i fp ch claim now l T = Inr (res, T')"
  shows "claims_row T T'"
proof (cases "\<exists>r. res \<in> {ChoiceValidated r} \<union> range (\<lambda>t. ChoiceClaimed t r)")
  case True
  then obtain r where r: "res \<in> {ChoiceValidated r} \<union> range (\<lambda>t. ChoiceClaimed t r)" by blast
  show ?thesis
    by (rule claim_choice_cases[OF d r]) (use new_claim_fits in \<open>fastforce simp: claims_row_def pending_key_def\<close>)
next
  case False
  then have "T' = T"
    using d by (auto simp: claim_backend_pending_choice_def Let_def bind_result_eq_Inr split: if_splits option.splits json.splits prod.splits)
  then show ?thesis by (simp add: claims_row_def)
qed

lemma claim_decision_cases:
  assumes d: "claim_backend_pending_decision X E h w dref sel claim now l T = Inr (res, T')"
    and res: "T' \<noteq> T \<or> res \<in> range DecisionValidated \<union> range (\<lambda>(t, r). DecisionClaimed t r)"
  obtains r p wk n refs tx i T1 where
    "pending_of T (h, w) = Some p" "pb_state p = PendingOpen" "pb_fresh p"
    "backend_pending_claim_context T h w (pb_binding p) (pb_target p) (pending_observed_time E now) = Some wk"
    "decision_from_pending_row X E p = Some n" "dn_ref n = dref" "dn_question_count n \<le> 1"
    "validated_decision_selection n sel = Some (refs, tx)"
    "r = decision_fields n w (wk_fingerprint wk) (pb_binding p) (pb_target p) refs tx"
    "free_claim T (h, w) claim (pending_observed_time E now) l = Inr (Some T1)"
    "res = DecisionValidated r \<and> \<not> claim \<and> T' = T
     \<or> claim \<and> res = DecisionClaimed (token_urlsafe E) r
       \<and> insert_claim (new_claim (h, w) (token_urlsafe E) (pb_revision p) (encode_decision_claim_selection refs tx) (int i)
           (wk_fingerprint wk) (pb_binding p) (pb_target p) (pending_observed_time E now)) T1 = Inr T'"
proof -
  obtain p where p: "pending_of T (h, w) = Some p" "pb_state p = PendingOpen" "pb_fresh p"
    using d res by (auto simp: claim_backend_pending_decision_def Let_def split: if_splits option.splits)
  obtain wk where wk: "backend_pending_claim_context T h w (pb_binding p) (pb_target p) (pending_observed_time E now) = Some wk"
    using d res p by (auto simp: claim_backend_pending_decision_def Let_def split: if_splits option.splits)
  obtain n where n: "decision_from_pending_row X E p = Some n" "dn_ref n = dref" "\<not> 1 < dn_question_count n"
    using d res p wk by (auto simp: claim_backend_pending_decision_def Let_def split: if_splits option.splits)
  obtain refs tx where sel: "validated_decision_selection n sel = Some (refs, tx)"
    using d res p wk n by (auto simp: claim_backend_pending_decision_def Let_def split: if_splits option.splits)
  have *: "bind_result (free_claim T (h, w) claim (pending_observed_time E now) l) (\<lambda>free. case free of
      None \<Rightarrow> Inr (DecisionAlreadyClaimed, T)
    | Some T1 \<Rightarrow>
        (case (case refs of [] \<Rightarrow> Some (length (dn_options n) + 1) | r # _ \<Rightarrow> py_int (pe_text X) 0 r) of
           None \<Rightarrow> Inl ValueError
         | Some ordinal \<Rightarrow>
             if \<not> claim then Inr (DecisionValidated (decision_fields n w (wk_fingerprint wk) (pb_binding p) (pb_target p) refs tx), T)
             else bind_result (insert_claim (new_claim (h, w) (token_urlsafe E) (pb_revision p)
                (encode_decision_claim_selection refs tx) (int ordinal) (wk_fingerprint wk) (pb_binding p) (pb_target p)
                (pending_observed_time E now)) T1) (\<lambda>T2.
               Inr (DecisionClaimed (token_urlsafe E) (decision_fields n w (wk_fingerprint wk) (pb_binding p) (pb_target p) refs tx), T2))))
    = Inr (res, T')"
    using d res p wk n sel by (auto simp: claim_backend_pending_decision_def Let_def split: if_splits option.splits)
  obtain T1 where free: "free_claim T (h, w) claim (pending_observed_time E now) l = Inr (Some T1)"
    using * res by (auto simp: bind_result_eq_Inr split: option.splits)
  obtain i where "(case refs of [] \<Rightarrow> Some (length (dn_options n) + 1) | r # _ \<Rightarrow> py_int (pe_text X) 0 r) = Some i"
    using * free by (auto simp: bind_result_eq_Inr split: option.splits)
  then show thesis
    using that[OF p wk n(1,2) _ sel refl free, of i] * res n(3) free by (auto simp: bind_result_eq_Inr split: if_splits)
qed

lemma claim_decision_claims:
  assumes d: "claim_backend_pending_decision X E h w dref sel claim now l T = Inr (res, T')"
  shows "claims_row T T'"
proof (cases "T' = T")
  case False
  then have ne: "T' \<noteq> T \<or> res \<in> range DecisionValidated \<union> range (\<lambda>(t, r). DecisionClaimed t r)" by blast
  show ?thesis
  proof (rule claim_decision_cases[OF d ne])
    fix r p wk n refs tx i T1
    assume p: "pending_of T (h, w) = Some p" "pb_state p = PendingOpen" "pb_fresh p"
      and free: "free_claim T (h, w) claim (pending_observed_time E now) l = Inr (Some T1)"
      and c: "res = DecisionValidated r \<and> \<not> claim \<and> T' = T
       \<or> claim \<and> res = DecisionClaimed (token_urlsafe E) r
       \<and> insert_claim (new_claim (h, w) (token_urlsafe E) (pb_revision p) (encode_decision_claim_selection refs tx) (int i)
           (wk_fingerprint wk) (pb_binding p) (pb_target p) (pending_observed_time E now)) T1 = Inr T'"
    have "p \<in> set (pt_pending T)" "pending_key p = (h, w)" using pending_of_Some[OF p(1)] by auto
    then show "claims_row T T'" using c free claims_row_claimed new_claim_fits[OF p(2,3)] claims_row_refl by metis
  qed
qed (simp add: claims_row_refl)

section \<open>Sends\<close>

text \<open>Claims whose send has not started may go.\<close>

definition drops_unstarted :: "pending_tables \<Rightarrow> pending_tables \<Rightarrow> bool" where
  "drops_unstarted T T' \<longleftrightarrow> (\<exists>g. T' = delete_claims g T \<and> (\<forall>c. g c \<longrightarrow> \<not> pc_started c))"

interpretation drops: quiet_operation drops_unstarted
proof
  fix T T' assume ok: "pending_ok T" and d: "drops_unstarted T T'"
  show "pending_ok T'" using ok d by (auto simp: drops_unstarted_def intro: pending_ok_delete_claims)
  fix k assume "locked k T"
  then show "locked k T'" by (rule lockedI) (use d in \<open>fastforce simp: drops_unstarted_def answerable_def sql_delete_def\<close>)+
qed

lemma drops_refl: "drops_unstarted T T"
  unfolding drops_unstarted_def by (rule exI[of _ "\<lambda>_. False"]) simp

text \<open>The moment a send starts.\<close>

definition marks_started :: "ustr \<Rightarrow> ustr \<Rightarrow> time \<Rightarrow> pending_claim \<Rightarrow> pending_tables \<Rightarrow> pending_tables \<Rightarrow> bool" where
  "marks_started h token now c T T' \<longleftrightarrow> c \<in> set (pt_claims T) \<and> unstarted h token c \<and> answerable T (claim_key c)
     \<and> T' = T\<lparr>pt_claims := sql_update (unstarted h token) (\<lambda>d. d\<lparr>pc_started := True, pc_send_started_at := Some now\<rparr>) (pt_claims T)\<rparr>"

lemma marks_started_keeps:
  assumes ok: "pending_ok T" and m: "marks_started h token now c T T'"
  shows "pending_ok T'"
proof -
  have T': "pt_claims T' = sql_update (unstarted h token) (\<lambda>d. d\<lparr>pc_started := True, pc_send_started_at := Some now\<rparr>) (pt_claims T)"
    "pt_pending T' = pt_pending T" using m by (auto simp: marks_started_def)
  have fits: "claim_fits p d \<Longrightarrow> claim_fits p (d\<lparr>pc_started := True, pc_send_started_at := Some now\<rparr>)" for p d
    by (simp add: claim_fits_def claim_key_def)
  have "1 \<le> pc_ordinal d \<and> (\<exists>p \<in> set (pt_pending T). claim_fits p d)" if d: "d \<in> set (pt_claims T')" for d
  proof -
    obtain e where e: "e \<in> set (pt_claims T)" "d = e \<or> d = e\<lparr>pc_started := True, pc_send_started_at := Some now\<rparr>"
      using d unfolding T'(1) by (auto elim: in_sql_updateE)
    obtain p where "p \<in> set (pt_pending T)" "claim_fits p e" "1 \<le> pc_ordinal e" using ok e(1) by (auto simp: pending_ok_def)
    then show ?thesis using fits[of p e] e(2) by auto
  qed
  then show ?thesis using ok by (simp add: pending_ok_def T' unique_key_update claim_key_def)
qed

lemma marks_started_locks:
  assumes ok: "pending_ok T" and m: "marks_started h token now c T T'"
  shows "\<not> locked (claim_key c) T" "locked (claim_key c) T'" "locked k T \<Longrightarrow> locked k T'"
proof -
  have c: "c \<in> set (pt_claims T)" "unstarted h token c" "answerable T (claim_key c)" using m by (auto simp: marks_started_def)
  then have "\<not> pc_started d" if "d \<in> set (pt_claims T)" "claim_key d = claim_key c" for d
    using that ok unique_keyD[of claim_key "pt_claims T" d c] by (auto simp: pending_ok_def unstarted_def)
  then show "\<not> locked (claim_key c) T" using c(3) by (auto simp: locked_def)
  have T': "pt_claims T' = sql_update (unstarted h token) (\<lambda>d. d\<lparr>pc_started := True, pc_send_started_at := Some now\<rparr>) (pt_claims T)"
    using m by (simp add: marks_started_def)
  have mem: "\<exists>e \<in> set (pt_claims T'). claim_key e = claim_key d \<and> pc_started e"
    if "d \<in> set (pt_claims T)" "pc_started d \<or> d = c" for d
    unfolding T' sql_update_def using that c(2)
    by (intro bexI[of _ "if unstarted h token d then d\<lparr>pc_started := True, pc_send_started_at := Some now\<rparr> else d"])
      (auto simp: claim_key_def unstarted_def)
  then show "locked (claim_key c) T'" using c(1) by (auto simp: locked_def)
  show "locked k T'" if lock: "locked k T"
    by (rule lockedI[OF lock]) (use m mem in \<open>auto simp: marks_started_def answerable_def\<close>)
qed

lemma begin_send_SendBegun:
  assumes "begin_send h token c now r T = (SendBegun r', T')" "claim_by_token T h token = Some c" "\<not> pc_started c"
    "open_row T (claim_key c) = Some p" "pb_fresh p" "unique_key pending_key (pt_pending T)"
  shows "marks_started h token now c T T' \<and> r' = r
    \<and> (\<exists>w. backend_pending_claim_context T h (pc_worker_id c) (pc_binding c) (pc_target c) now = Some w \<and> wk_fingerprint w = pc_worker_fingerprint c)"
proof -
  have "p \<in> set (pt_pending T)" "pending_key p = claim_key c" "pb_state p = PendingOpen"
    using assms(4) by (auto simp: open_row_def dest: fetchone_SomeD)
  then have "answerable T (claim_key c)" using assms(5,6) pending_of_unique by (auto simp: answerable_def)
  moreover have "c \<in> set (pt_claims T)" "unstarted h token c"
    using assms(2,3) by (auto simp: claim_by_token_def unstarted_def dest: fetchone_SomeD)
  ultimately show ?thesis using assms(1)
    by (auto simp: begin_send_def marks_started_def split: option.splits if_splits)
qed

lemma begin_send_other: "begin_send h token c now r T = (res, T') \<Longrightarrow> res \<notin> range SendBegun \<Longrightarrow> T' = T"
  by (auto simp: begin_send_def split: option.splits if_splits)

text \<open>A start returns begun exactly when it marks the claim.\<close>

lemma claim_by_token_key: "claim_by_token T h token = Some c \<Longrightarrow> claim_key c = (h, pc_worker_id c)"
  by (auto simp: claim_by_token_def claim_key_def dest: fetchone_SomeD)

lemma drops_lapsed: "drops_unstarted T (delete_claims (unstarted h token) T)"
  by (auto simp: drops_unstarted_def unstarted_def)

lemma start_choice_begun:
  assumes d: "start_backend_pending_choice_send E h token now l T = Inr (SendBegun r, T')" and ok: "pending_ok T"
  obtains c p w routes v where "claim_by_token T h token = Some c" "r = choice_route c"
    "marks_started h token (pending_observed_time E now) c T T'"
    "pending_of T (h, pc_worker_id c) = Some p" "pb_state p = PendingOpen" "pb_fresh p"
    "pb_revision p = pc_revision c" "pb_binding p = pc_binding c" "pb_target p = pc_target c"
    "json_loads (pb_routes_json p) = Some (JDict routes)" "map_of routes (pc_choice_id c) = Some v" "json_eq_int v (pc_ordinal c)"
    "backend_pending_claim_context T h (pc_worker_id c) (pc_binding c) (pc_target c) (pending_observed_time E now) = Some w"
    "wk_fingerprint w = pc_worker_fingerprint c" "\<not> 0 \<le> - l" "pending_observed_time E now < pc_claimed_at c + l"
proof -
  have u: "unique_key pending_key (pt_pending T)" using ok by (simp add: pending_ok_def)
  obtain c where c: "claim_by_token T h token = Some c"
    using d by (auto simp: start_backend_pending_choice_send_def Let_def split: if_splits option.splits)
  obtain p where p: "open_row T (h, pc_worker_id c) = Some p" "\<not> pc_started c" "claim_lapsed c (pending_observed_time E now) l = Inr False"
    using d c by (auto simp: start_backend_pending_choice_send_def Let_def bind_result_eq_Inr split: if_splits option.splits)
  have b: "pb_fresh p" "pb_revision p = pc_revision c" "pb_binding p = pc_binding c" "pb_target p = pc_target c"
    "begin_send h token c (pending_observed_time E now) (choice_route c) T = (SendBegun r, T')"
    "case json_loads (pb_routes_json p) of Some (JDict routes) \<Rightarrow>
       (case map_of routes (pc_choice_id c) of Some v \<Rightarrow> json_eq_int v (pc_ordinal c) | None \<Rightarrow> False) | _ \<Rightarrow> False"
    using d c p by (auto simp: start_backend_pending_choice_send_def Let_def split: if_splits option.splits json.splits)
  note key = claim_by_token_key[OF c]
  obtain w where w: "marks_started h token (pending_observed_time E now) c T T'" "r = choice_route c"
    "backend_pending_claim_context T h (pc_worker_id c) (pc_binding c) (pc_target c) (pending_observed_time E now) = Some w"
    "wk_fingerprint w = pc_worker_fingerprint c"
    using begin_send_SendBegun[OF b(5) c p(2) _ b(1) u] p(1) key by auto
  have "pending_of T (h, pc_worker_id c) = Some p" "pb_state p = PendingOpen"
    using p(1) u by (auto simp: open_row_def intro!: pending_of_unique dest: fetchone_SomeD)
  then show thesis
    using that[OF c w(2,1) _ _ b(1-4) _ _ _ w(3,4)] b(6) p(2,3)
    by (auto simp: claim_lapsed_def backend_pending_claim_expired_def split: option.splits json.splits if_splits)
qed

lemma start_choice_other:
  assumes "start_backend_pending_choice_send E h token now l T = Inr (res, T')" "res \<notin> range SendBegun"
  shows "drops_unstarted T T'"
proof -
  have "T' = T \<or> T' = delete_claims (unstarted h token) T"
    using assms by (auto simp: start_backend_pending_choice_send_def Let_def bind_result_eq_Inr dest: begin_send_other
        split: if_splits option.splits)
  then show ?thesis using drops_refl drops_lapsed by blast
qed

lemma start_decision_begun:
  assumes d: "start_backend_pending_decision_send X E h token now l T = Inr (SendBegun r, T')" and ok: "pending_ok T"
  obtains c p w n sel refs tx where "claim_by_token T h token = Some c"
    "marks_started h token (pending_observed_time E now) c T T'"
    "pending_of T (h, pc_worker_id c) = Some p" "pb_state p = PendingOpen" "pb_fresh p"
    "pb_revision p = pc_revision c" "pb_binding p = pc_binding c" "pb_target p = pc_target c"
    "decision_from_pending_row X E p = Some n" "decode_decision_claim_selection (pc_choice_id c) = Some sel"
    "validated_decision_selection n sel = Some (refs, tx)"
    "r = decision_fields n (pc_worker_id c) (pc_worker_fingerprint c) (pc_binding c) (pc_target c) refs tx"
    "backend_pending_claim_context T h (pc_worker_id c) (pc_binding c) (pc_target c) (pending_observed_time E now) = Some w"
    "wk_fingerprint w = pc_worker_fingerprint c"
proof -
  have u: "unique_key pending_key (pt_pending T)" using ok by (simp add: pending_ok_def)
  obtain c where c: "claim_by_token T h token = Some c"
    using d by (auto simp: start_backend_pending_decision_send_def Let_def split: if_splits option.splits)
  obtain p where p: "open_row T (h, pc_worker_id c) = Some p" "pb_fresh p" "claim_lapsed c (pending_observed_time E now) l = Inr False"
    using d c by (auto simp: start_backend_pending_decision_send_def Let_def bind_result_eq_Inr split: if_splits option.splits)
  obtain n where n: "decision_from_pending_row X E p = Some n"
    using d c p by (auto simp: start_backend_pending_decision_send_def Let_def split: if_splits option.splits)
  obtain sel refs tx where s: "decode_decision_claim_selection (pc_choice_id c) = Some sel"
    "validated_decision_selection n sel = Some (refs, tx)"
    using d c p n by (auto simp: start_backend_pending_decision_send_def Let_def split: if_splits option.splits bind_splits)
  let ?r = "decision_fields n (pc_worker_id c) (pc_worker_fingerprint c) (pc_binding c) (pc_target c) refs tx"
  have b: "\<not> pc_started c" "pb_revision p = pc_revision c" "pb_binding p = pc_binding c" "pb_target p = pc_target c"
    "begin_send h token c (pending_observed_time E now) ?r T = (SendBegun r, T')"
    using d c p n s by (auto simp: start_backend_pending_decision_send_def Let_def split: if_splits)
  note key = claim_by_token_key[OF c]
  obtain w where w: "marks_started h token (pending_observed_time E now) c T T'" "r = ?r"
    "backend_pending_claim_context T h (pc_worker_id c) (pc_binding c) (pc_target c) (pending_observed_time E now) = Some w"
    "wk_fingerprint w = pc_worker_fingerprint c"
    using begin_send_SendBegun[OF b(5) c b(1) _ p(2) u] p(1) key by auto
  have "pending_of T (h, pc_worker_id c) = Some p" "pb_state p = PendingOpen"
    using p(1) u by (auto simp: open_row_def intro!: pending_of_unique dest: fetchone_SomeD)
  then show thesis using that[OF c w(1) _ _ p(2) b(2-4) n s w(2-4)] by blast
qed

lemma start_decision_other:
  assumes "start_backend_pending_decision_send X E h token now l T = Inr (res, T')" "res \<notin> range SendBegun"
  shows "drops_unstarted T T'"
proof -
  have "T' = T \<or> T' = delete_claims (unstarted h token) T"
    using assms by (auto simp: start_backend_pending_decision_send_def Let_def bind_result_eq_Inr dest: begin_send_other
        split: if_splits option.splits)
  then show ?thesis using drops_refl drops_lapsed by blast
qed

lemma abandon_drops: "abandon_backend_pending_choice_claim h token T = (b, T') \<Longrightarrow> drops_unstarted T T'"
  using drops_refl drops_lapsed by (auto simp: abandon_backend_pending_choice_claim_def split: if_splits)

text \<open>Finishing a send closes the prompt it answered.\<close>

definition finishes :: "pending_tables \<Rightarrow> pending_tables \<Rightarrow> bool" where
  "finishes T T' \<longleftrightarrow> (\<exists>E h token accepted now b. finish_pending_send E h token accepted now T = (b, T'))"

lemma finish_pending_cases:
  assumes d: "finish_pending_send E h token accepted now T = (b, T')" and ok: "pending_ok T" and ne: "T' \<noteq> T"
  obtains c p closes where "c \<in> set (pt_claims T)" "pc_started c" "pc_token c = token"
    "pending_of T (claim_key c) = Some p" "claim_fits p c"
    "pt_claims T' = sql_delete (\<lambda>d. d = c) (pt_claims T)"
    "pt_pending T' = sql_update closes (tombstone (pending_observed_time E now)) (pt_pending T)"
    "\<And>q. closes q \<Longrightarrow> pending_key q = claim_key c" "pb_fresh p \<Longrightarrow> closes p" "b \<Longrightarrow> closes p"
proof -
  let ?st = "\<lambda>c. pc_host_id c = h \<and> pc_token c = token \<and> pc_started c"
  obtain c where f: "sql_fetchone ?st (pt_claims T) = Some c" "accepted"
    using d ne by (auto simp: finish_pending_send_def Let_def split: if_splits option.splits)
  let ?cl = "\<lambda>p. pb_host_id p = h \<and> pb_worker_id p = pc_worker_id c \<and> pb_revision p = pc_revision c
      \<and> pb_binding p = pc_binding c \<and> pb_target p = pc_target c \<and> pb_state p \<in> {PendingOpen, PendingFailed}"
  have T': "T' = delete_claims ?st (T\<lparr>pt_pending := sql_update ?cl (tombstone (pending_observed_time E now)) (pt_pending T)\<rparr>)"
    and b: "b \<Longrightarrow> sql_rowcount ?cl (pt_pending T) = 1"
    using d f by (auto simp: finish_pending_send_def Let_def)
  have c: "c \<in> set (pt_claims T)" "?st c" using f(1) by (auto dest: fetchone_SomeD)
  have only: "d = c" if "d \<in> set (pt_claims T)" "?st d" for d
    using that c ok unique_keyD[of pc_token "pt_claims T" d c] by (auto simp: pending_ok_def)
  have gone: "sql_delete ?st (pt_claims T) = sql_delete (\<lambda>d. d = c) (pt_claims T)"
    unfolding sql_delete_def by (rule filter_cong) (use only c in blast)+
  obtain p where p: "pending_of T (claim_key c) = Some p" "p \<in> set (pt_pending T)" "claim_fits p c"
    using claim_fits_of[OF ok c(1)] by blast
  have key: "pending_key q = claim_key c" if "?cl q" for q using that c(2) by (simp add: pending_key_def claim_key_def)
  have "?cl p" if "b"
  proof -
    have "filter ?cl (pt_pending T) \<noteq> []" using b[OF that] by (auto simp: sql_rowcount_def)
    then obtain q where q: "q \<in> set (pt_pending T)" "?cl q" by (auto simp: filter_empty_conv)
    have "unique_key pending_key (pt_pending T)" using ok by (simp add: pending_ok_def)
    then have "pending_of T (claim_key c) = Some q" using q(1) key[OF q(2)] by (rule pending_of_unique)
    then show ?thesis using p(1) q(2) by simp
  qed
  moreover have "?cl p" if "pb_fresh p"
    using that p(3) c(2) by (auto simp: claim_fits_def pending_key_def claim_key_def)
  moreover have "pt_claims T' = sql_delete (\<lambda>d. d = c) (pt_claims T)"
    "pt_pending T' = sql_update ?cl (tombstone (pending_observed_time E now)) (pt_pending T)"
    unfolding T' by (simp_all add: gone)
  moreover have "pc_started c" "pc_token c = token" using c(2) by auto
  ultimately show thesis using that[of c p ?cl] c(1) p(1,3) key by blast
qed

interpretation finished: quiet_operation finishes
proof
  fix T T' assume ok: "pending_ok T" and f: "finishes T T'"
  have tk: "pending_key (tombstone now p) = pending_key p" for now p by (simp add: tombstone_def pending_key_def)
  show "pending_ok T'"
  proof (cases "T' = T")
    case False
    obtain c closes n where c: "c \<in> set (pt_claims T)" "pt_claims T' = sql_delete (\<lambda>d. d = c) (pt_claims T)"
      "pt_pending T' = sql_update closes (tombstone n) (pt_pending T)" "\<And>q. closes q \<Longrightarrow> pending_key q = claim_key c"
      using f finish_pending_cases[OF _ ok False] unfolding finishes_def by metis
    have only: "d = c" if "d \<in> set (pt_claims T)" "claim_key d = claim_key c" for d
      using that c(1) ok unique_keyD[of claim_key "pt_claims T" d c] by (auto simp: pending_ok_def)
    show ?thesis
    proof (rule pending_ok_change[OF ok, where gone = "\<lambda>d. d = c" and k = "claim_key c"])
      show "unique_key pending_key (pt_pending T')" using ok by (simp add: c(3) pending_ok_def unique_key_update tk)
      show "p \<in> set (pt_pending T')" if "p \<in> set (pt_pending T)" "pending_key p \<noteq> claim_key c" for p
        using that c(4) by (auto simp: c(3) set_sql_update)
    qed (use only c(2) in auto)
  qed (use ok in simp)
  fix k assume lock: "locked k T"
  show "locked k T'"
  proof (cases "T' = T")
    case False
    obtain c p closes n where c: "c \<in> set (pt_claims T)" "pending_of T (claim_key c) = Some p" "claim_fits p c"
      "pt_claims T' = sql_delete (\<lambda>d. d = c) (pt_claims T)"
      "pt_pending T' = sql_update closes (tombstone n) (pt_pending T)" "pb_fresh p \<Longrightarrow> closes p"
      using f finish_pending_cases[OF _ ok False] unfolding finishes_def by metis
    have row: "pending_of T' j = map_option (\<lambda>p. if closes p then tombstone n p else p) (pending_of T j)" for j
      unfolding pending_of_def c(5) by (rule fetchone_sql_update) (simp add: tk)
    have none: "\<not> answerable T' (claim_key c)" using c(2,6) row[of "claim_key c"] by (auto simp: answerable_def tombstone_def)
    show ?thesis
    proof (rule lockedI[OF lock])
      show "answerable T' k \<Longrightarrow> answerable T k" by (auto simp: answerable_def row tombstone_def split: if_splits)
      show "\<exists>d \<in> set (pt_claims T'). claim_key d = k \<and> pc_started d"
        if "d \<in> set (pt_claims T)" "claim_key d = k" "pc_started d" "answerable T' k" for d
        using that none by (intro bexI[of _ d]) (auto simp: c(4) sql_delete_def)
    qed
  qed (use lock in simp)
qed

lemma terminal_effect_finishes:
  "backend_pending_choice_terminal_effect h token accepted E T = Inr (u, T') \<Longrightarrow> T' = T \<or> finishes T T'"
  unfolding finishes_def by (auto simp: backend_pending_choice_terminal_effect_def split: if_splits prod.splits bool.splits)

lemma finish_choice_finishes:
  "finish_backend_pending_choice_send E h token accepted now T = (b, T') \<Longrightarrow> T' = T \<or> finishes T T'"
  unfolding finishes_def by (auto simp: finish_backend_pending_choice_send_def split: if_splits)

section \<open>Runs\<close>

text \<open>
  Observations arrive by the writer of their own and inside a turn refresh, which may take a
  worker over from another binding; the compatibility entry \<open>merge_backend_pending\<close> applies an
  observation that it builds from a mapping, as a refresh without expected binding does.  An
  event names the worker a prompt was observed on, or whose prompt a started send answers;
  everything else is quiet.
\<close>

datatype pending_event = PromptSeen "ustr \<times> ustr" | AnswerStarted "ustr \<times> ustr" | Quiet

inductive pending_step :: "pending_tables \<Rightarrow> pending_event \<Rightarrow> pending_tables \<Rightarrow> bool" where
  prompt: "observe_backend_pending E h w (OpenPrompt q) now g b t T = Inr (ch, T') \<Longrightarrow> pending_step T (PromptSeen (h, w)) T'"
| observed: "observe_backend_pending E h w ob now g b t T = Inr (ch, T') \<Longrightarrow> (\<And>q. ob \<noteq> OpenPrompt q) \<Longrightarrow> pending_step T Quiet T'"
| refreshed_prompt: "refresh_backend_pending E h w (OpenPrompt q) at g x T = Inr (ch, T') \<Longrightarrow> pending_step T (PromptSeen (h, w)) T'"
| refreshed: "refresh_backend_pending E h w ob at g x T = Inr (ch, T') \<Longrightarrow> (\<And>q. ob \<noteq> OpenPrompt q) \<Longrightarrow> pending_step T Quiet T'"
| pruned: "prune_backend_pending E h live now g b1 b2 b3 T = Inr (n, T') \<Longrightarrow> pending_step T Quiet T'"
| claimed_choice: "claim_backend_pending_choice X E h i fp ch claim now l T = Inr (res, T') \<Longrightarrow> pending_step T Quiet T'"
| claimed_decision: "claim_backend_pending_decision X E h w dref sel claim now l T = Inr (rd, T') \<Longrightarrow> pending_step T Quiet T'"
| choice_started: "start_backend_pending_choice_send E h token now l T = Inr (SendBegun r, T')
    \<Longrightarrow> pending_step T (AnswerStarted (h, rt_worker_id r)) T'"
| choice_refused: "start_backend_pending_choice_send E h token now l T = Inr (rc, T') \<Longrightarrow> rc \<notin> range SendBegun \<Longrightarrow> pending_step T Quiet T'"
| decision_started: "start_backend_pending_decision_send X E h token now l T = Inr (SendBegun s, T')
    \<Longrightarrow> pending_step T (AnswerStarted (h, dr_worker_id s)) T'"
| decision_refused: "start_backend_pending_decision_send X E h token now l T = Inr (sd, T') \<Longrightarrow> sd \<notin> range SendBegun \<Longrightarrow> pending_step T Quiet T'"
| abandoned: "abandon_backend_pending_choice_claim h token T = (b, T') \<Longrightarrow> pending_step T Quiet T'"
| finished: "finish_backend_pending_choice_send E h token accepted now T = (b, T') \<Longrightarrow> pending_step T Quiet T'"
| accepted: "backend_pending_choice_terminal_effect h token accepted E T = Inr (u, T') \<Longrightarrow> pending_step T Quiet T'"
| published: "pending_step T Quiet (T\<lparr>pt_workers := ws, pt_bindings := bs\<rparr>)"

inductive pending_run :: "pending_tables \<Rightarrow> pending_event list \<Rightarrow> pending_tables \<Rightarrow> bool" where
  no_events: "pending_run T [] T"
| next_event: "pending_step T e T1 \<Longrightarrow> pending_run T1 es T' \<Longrightarrow> pending_run T (e # es) T'"

inductive_cases pending_run_NilE: "pending_run T [] T'"
inductive_cases pending_run_ConsE: "pending_run T (e # es) T'"

lemma published_fields [simp]:
  "pending_ok (T\<lparr>pt_workers := ws, pt_bindings := bs\<rparr>) = pending_ok T" "locked k (T\<lparr>pt_workers := ws, pt_bindings := bs\<rparr>) = locked k T"
  by (simp_all add: pending_ok_def locked_def answerable_def pending_of_def)

lemma observe_keeps:
  "observe_backend_pending E h w ob now g b t T = Inr (ch, T') \<Longrightarrow> pending_ok T \<Longrightarrow> pending_ok T'"
  by (auto simp: observe_backend_pending_def intro: observation_keeps split: if_splits)

lemma observe_locks:
  "observe_backend_pending E h w ob now g b t T = Inr (ch, T') \<Longrightarrow> pending_ok T \<Longrightarrow> locked k T
    \<Longrightarrow> k \<noteq> (h, w) \<or> (\<forall>q. ob \<noteq> OpenPrompt q) \<Longrightarrow> locked k T'"
  by (auto simp: observe_backend_pending_def intro: observation_locks split: if_splits)

lemma refresh_keeps:
  "refresh_backend_pending E h w ob at g x T = Inr (ch, T') \<Longrightarrow> pending_ok T \<Longrightarrow> pending_ok T'"
  by (auto simp: refresh_backend_pending_def intro: observation_keeps)

lemma refresh_locks:
  "refresh_backend_pending E h w ob at g x T = Inr (ch, T') \<Longrightarrow> pending_ok T \<Longrightarrow> locked k T
    \<Longrightarrow> k \<noteq> (h, w) \<or> (\<forall>q. ob \<noteq> OpenPrompt q) \<Longrightarrow> locked k T'"
  by (auto simp: refresh_backend_pending_def intro: observation_locks)

lemma prune_locks:
  "prune_backend_pending E h live now g b1 b2 b3 T = Inr (n, T') \<Longrightarrow> pending_ok T \<Longrightarrow> locked k T \<Longrightarrow> locked k T'"
  by (auto simp: prune_backend_pending_def Let_def bind_result_eq_Inr intro: prune_rows_locks split: if_splits)

lemma choice_started_marks:
  assumes "start_backend_pending_choice_send E h token now l T = Inr (SendBegun r, T')" "pending_ok T"
  obtains c n where "marks_started h token n c T T'" "claim_key c = (h, rt_worker_id r)"
  by (rule start_choice_begun[OF assms]) (use that claim_by_token_key in \<open>force simp: choice_route_def\<close>)

lemma decision_started_marks:
  assumes "start_backend_pending_decision_send X E h token now l T = Inr (SendBegun r, T')" "pending_ok T"
  obtains c n where "marks_started h token n c T T'" "claim_key c = (h, dr_worker_id r)"
  by (rule start_decision_begun[OF assms]) (use that claim_by_token_key in \<open>force simp: decision_fields_def\<close>)

lemma pending_step_keeps: "pending_step T e T' \<Longrightarrow> pending_ok T \<Longrightarrow> pending_ok T'"
proof (induction rule: pending_step.induct)
  case (choice_started E h token now l T r T')
  then show ?case by (metis choice_started_marks marks_started_keeps)
next
  case (decision_started X E h token now l T s T')
  then show ?case by (metis decision_started_marks marks_started_keeps)
next
  case (pruned E h live now g b1 b2 b3 T n T')
  then show ?case using prune.keeps by blast
qed (auto intro: observe_keeps refresh_keeps claims.keeps drops.keeps finished.keeps
    dest: claim_choice_claims claim_decision_claims start_choice_other start_decision_other abandon_drops finish_choice_finishes
      terminal_effect_finishes)

lemma pending_step_locks: "pending_step T e T' \<Longrightarrow> pending_ok T \<Longrightarrow> locked k T \<Longrightarrow> e \<noteq> PromptSeen k \<Longrightarrow> locked k T'"
proof (induction rule: pending_step.induct)
  case (choice_started E h token now l T r T')
  then show ?case by (metis choice_started_marks marks_started_locks(3))
next
  case (decision_started X E h token now l T s T')
  then show ?case by (metis decision_started_marks marks_started_locks(3))
qed (auto intro: observe_locks refresh_locks prune_locks claims.locks drops.locks finished.locks
    dest: claim_choice_claims claim_decision_claims start_choice_other start_decision_other abandon_drops finish_choice_finishes
      terminal_effect_finishes)

lemma answer_unlocked:
  assumes "pending_step T e T'" "pending_ok T" "e = AnswerStarted k"
  shows "\<not> locked k T \<and> locked k T'"
  using assms
proof (induction rule: pending_step.induct)
  case (choice_started E h token now l T r T')
  then show ?case by (metis choice_started_marks marks_started_locks(1,2) pending_event.inject(2))
next
  case (decision_started X E h token now l T s T')
  then show ?case by (metis decision_started_marks marks_started_locks(1,2) pending_event.inject(2))
qed simp_all

lemma pending_run_keeps: "pending_run T es T' \<Longrightarrow> pending_ok T \<Longrightarrow> pending_ok T'"
  by (induction rule: pending_run.induct) (auto intro: pending_step_keeps)

lemma pending_run_locks: "pending_run T es T' \<Longrightarrow> pending_ok T \<Longrightarrow> locked k T \<Longrightarrow> PromptSeen k \<notin> set es \<Longrightarrow> locked k T'"
  by (induction rule: pending_run.induct) (auto intro: pending_step_keeps pending_step_locks)

lemma pending_run_append: "pending_run T (es @ fs) T' \<longleftrightarrow> (\<exists>T1. pending_run T es T1 \<and> pending_run T1 fs T')"
proof (induction es arbitrary: T)
  case (Cons e es)
  then show ?case by (auto elim!: pending_run_ConsE) (blast intro: next_event)+
qed (auto elim: pending_run_NilE intro: no_events)

end
