(* ===== verification/PendingAnswers.thy ===== *)
theory PendingAnswers
  imports PendingRuns
begin

text \<open>
  What the pending tables promise a request that answers a prompt: exclusion, a send that
  answers what is stored, a claim that can be sent, and a prompt closed with its answer.
\<close>

section \<open>After a claim\<close>

lemma context_cong:
  "pt_workers T' = pt_workers T \<Longrightarrow> pt_bindings T' = pt_bindings T
    \<Longrightarrow> backend_pending_claim_context T' h w b t now = backend_pending_claim_context T h w b t now"
  unfolding backend_pending_claim_context_def by (simp only:)

text \<open>Nothing but its own claim is found under a fresh token, and its send can begin.\<close>

lemma claimed_tables:
  assumes ok: "pending_ok T" and free: "free_claim T (claim_key c) True now l = Inr (Some T1)" and ins: "insert_claim c T1 = Inr T2"
    and p: "p \<in> set (pt_pending T)" "pending_key p = claim_key c" "pb_state p = PendingOpen" and new: "\<not> pc_started c"
  shows "claim_by_token T2 (pc_host_id c) (pc_token c) = Some c" "open_row T2 (claim_key c) = Some p" "pt_exists T2 = pt_exists T"
    "pt_workers T2 = pt_workers T" "pt_bindings T2 = pt_bindings T"
    "sql_rowcount (unstarted (pc_host_id c) (pc_token c)) (pt_claims T2) = 1"
    "filter (\<lambda>d. claim_key d = claim_key c) (pt_claims T2) = [c]"
proof -
  obtain g where T1: "T1 = delete_claims g T" by (rule free_claim_cases[OF free])
  have T2: "T2 = T1\<lparr>pt_claims := pt_claims T1 @ [c]\<rparr>" and fresh: "pc_token c \<notin> pc_token ` set (pt_claims T1)"
    "claim_key c \<notin> claim_key ` set (pt_claims T1)"
    using ins by (auto simp: insert_claim_def split: if_splits)
  have "sql_fetchone (\<lambda>d. pc_host_id d = pc_host_id c \<and> pc_token d = pc_token c) (pt_claims T1) = None"
    unfolding fetchone_None_iff using fresh(1) by (metis imageI)
  then show "claim_by_token T2 (pc_host_id c) (pc_token c) = Some c" by (simp add: claim_by_token_def T2 fetchone_append)
  have same: "pt_pending T2 = pt_pending T" by (simp add: T2 T1)
  have u: "unique_key pending_key (pt_pending T)" using ok by (simp add: pending_ok_def)
  obtain q where q: "open_row T2 (claim_key c) = Some q"
    using p by (cases "open_row T2 (claim_key c)") (auto simp: open_row_def same fetchone_None_iff)
  then have "q \<in> set (pt_pending T)" "pending_key q = claim_key c" by (auto simp: open_row_def same dest: fetchone_SomeD)
  then have "q = p" using unique_keyD[OF u] p by simp
  then show "open_row T2 (claim_key c) = Some p" using q by simp
  show "pt_exists T2 = pt_exists T" "pt_workers T2 = pt_workers T" "pt_bindings T2 = pt_bindings T"
    by (simp_all add: T2 T1 delete_claims_def)
  have "filter (unstarted (pc_host_id c) (pc_token c)) (pt_claims T1) = []"
    unfolding filter_empty_conv unstarted_def using fresh(1) by (metis imageI)
  then show "sql_rowcount (unstarted (pc_host_id c) (pc_token c)) (pt_claims T2) = 1"
    using new by (simp add: sql_rowcount_def T2 unstarted_def)
  have "filter (\<lambda>d. claim_key d = claim_key c) (pt_claims T1) = []"
    unfolding filter_empty_conv using fresh(2) by (metis imageI)
  then show "filter (\<lambda>d. claim_key d = claim_key c) (pt_claims T2) = [c]" by (simp add: T2)
qed

lemma unlocked_claim_of:
  assumes ok: "pending_ok T" and free: "free_claim T k True now l = Inr (Some T1)" and c: "c \<in> set (pt_claims T)" "claim_key c = k"
  shows "\<not> pc_started c \<and> pc_claimed_at c + l \<le> now"
proof -
  have u: "unique_key claim_key (pt_claims T)" using ok by (simp add: pending_ok_def)
  have "claim_of T k = Some c" using fetchone_unique[OF u c(1)] c(2) by (simp add: claim_of_def)
  then show ?thesis using free_claim_cases[OF free] by metis
qed

section \<open>Properties\<close>

text \<open>
  C5: A prompt is answered at most once.  After a send to a worker has started, no other send
  to it starts until a prompt is observed on that worker again, however observations (by their
  own writer or inside a turn refresh, which may take the worker over), failed reads, claims, retries, expired leases, releases, completions, prunes and new snapshots
  interleave.
\<close>

theorem one_answer_per_prompt:
  assumes "pending_ok T" "pending_run T (AnswerStarted k # es) T'" "PromptSeen k \<notin> set es"
  shows "AnswerStarted k \<notin> set es"
proof
  assume "AnswerStarted k \<in> set es"
  then obtain xs ys where es: "es = xs @ AnswerStarted k # ys" by (meson split_list)
  obtain T1 where T1: "pending_step T (AnswerStarted k) T1" "pending_run T1 es T'" using assms(2) by (rule pending_run_ConsE)
  obtain T2 T3 where T2: "pending_run T1 xs T2" "pending_step T2 (AnswerStarted k) T3"
    using T1(2) unfolding es pending_run_append by (auto elim!: pending_run_ConsE)
  have ok: "pending_ok T1" "locked k T1" using pending_step_keeps[OF T1(1) assms(1)] answer_unlocked[OF T1(1) assms(1)] by auto
  have "locked k T2" "pending_ok T2"
    using pending_run_locks[OF T2(1) ok] pending_run_keeps[OF T2(1) ok(1)] assms(3) by (auto simp: es)
  then show False using answer_unlocked[OF T2(2)] by blast
qed

text \<open>
  C8: The pending tables stay well formed, from the empty tables on and through any run of
  observations (take-overs of a turn refresh included), claims and sends: one prompt row and at
  most one claim per worker, unique tokens, and every claim on the prompt its worker's row
  stores: same revision, open or failed, and while the row is fresh on the same pane; only a
  send that has started outlives a failed read.
\<close>

theorem claims_answer_the_stored_prompt:
  assumes "pending_run T es T'" "pending_ok T \<or> pt_pending T = [] \<and> pt_claims T = []"
  shows "distinct (map pending_key (pt_pending T')) \<and> distinct (map claim_key (pt_claims T')) \<and> distinct (map pc_token (pt_claims T'))
    \<and> (\<forall>c \<in> set (pt_claims T'). 1 \<le> pc_ordinal c \<and> (\<exists>p. pending_of T' (claim_key c) = Some p \<and> pb_revision p = pc_revision c
        \<and> pb_state p \<in> {PendingOpen, PendingFailed}
        \<and> (pb_fresh p \<longrightarrow> pb_state p = PendingOpen \<and> pb_binding p = pc_binding c \<and> pb_target p = pc_target c)
        \<and> (\<not> pc_started c \<longrightarrow> pb_fresh p)))"
proof -
  have "pending_ok T" using assms(2) by (auto simp: pending_ok_def)
  then have ok: "pending_ok T'" using assms(1) pending_run_keeps by blast
  have "1 \<le> pc_ordinal c \<and> (\<exists>p. pending_of T' (claim_key c) = Some p \<and> claim_fits p c)" if "c \<in> set (pt_claims T')" for c
    using ok that claim_fits_of[OF ok that] by (metis pending_ok_def)
  then show ?thesis using ok unfolding pending_ok_def unique_key_def claim_fits_def by blast
qed

text \<open>
  C9: A claim excludes every other.  When a choice is claimed no send to its worker has
  started, every earlier claim on the worker has outlived its lease, the prompt is open and
  fresh, and afterwards the new claim is the worker's only one.
\<close>

theorem claims_are_exclusive:
  assumes "pending_ok T"
    and "claim_backend_pending_choice X E h i fp ch True now l T = Inr (ChoiceClaimed token r, T')"
  shows "(\<forall>c \<in> set (pt_claims T). claim_key c = (h, rt_worker_id r)
       \<longrightarrow> \<not> pc_started c \<and> pc_claimed_at c + l \<le> pending_observed_time E now)
    \<and> answerable T (h, rt_worker_id r)
    \<and> (\<exists>c. filter (\<lambda>d. claim_key d = (h, rt_worker_id r)) (pt_claims T') = [c] \<and> choice_route c = r \<and> pc_token c = token
        \<and> pc_choice_id c = ch \<and> \<not> pc_started c)"
proof (rule claim_choice_cases[OF assms(2), of r])
  fix p w n T1 routes
  assume p: "p \<in> set (pt_pending T)" "pending_key p = (h, rt_worker_id r)" "pb_state p = PendingOpen" "pb_fresh p"
    and r: "r = \<lparr>rt_worker_id = pb_worker_id p, rt_worker_fingerprint = wk_fingerprint w, rt_binding = pb_binding p,
          rt_target = pb_target p, rt_ordinal = n\<rparr>"
    and free: "free_claim T (h, rt_worker_id r) True (pending_observed_time E now) l = Inr (Some T1)"
    and ins: "ChoiceClaimed token r \<noteq> ChoiceValidated r \<Longrightarrow> True \<and> ChoiceClaimed token r = ChoiceClaimed (token_urlsafe E) r
       \<and> insert_claim (new_claim (h, pb_worker_id p) (token_urlsafe E) (pb_revision p) ch n (wk_fingerprint w) (pb_binding p) (pb_target p)
           (pending_observed_time E now)) T1 = Inr T'"
  let ?c = "new_claim (h, pb_worker_id p) (token_urlsafe E) (pb_revision p) ch n (wk_fingerprint w) (pb_binding p) (pb_target p)
      (pending_observed_time E now)"
  have k: "claim_key ?c = (h, rt_worker_id r)" "\<not> pc_started ?c" by (simp_all add: claim_key_def new_claim_def r)
  have u: "unique_key pending_key (pt_pending T)" using assms(1) by (simp add: pending_ok_def)
  have "answerable T (h, rt_worker_id r)" using pending_of_unique[OF u p(1,2)] p(3,4) by (simp add: answerable_def)
  moreover have "filter (\<lambda>d. claim_key d = (h, rt_worker_id r)) (pt_claims T') = [?c]"
    using claimed_tables(7)[OF assms(1), of ?c "pending_observed_time E now" l T1 T' p] free ins k p by simp
  moreover have "choice_route ?c = r \<and> pc_token ?c = token \<and> pc_choice_id ?c = ch \<and> \<not> pc_started ?c"
    using ins by (simp add: choice_route_def new_claim_def r)
  ultimately show ?thesis using unlocked_claim_of[OF assms(1) free] by blast
qed simp

text \<open>
  C7: A send that starts answers the prompt that is stored: the claim it starts is on the
  worker's open and fresh row, of the same revision, pane binding and pane, its choice still
  has the claimed number, its lease runs, the worker and its binding are current, and of the
  tables only that claim changes, to started.
\<close>

theorem started_send_answers_the_stored_prompt:
  assumes "pending_ok T" "start_backend_pending_choice_send E h token now l T = Inr (SendBegun r, T')"
  shows "\<exists>c p routes v w. c \<in> set (pt_claims T) \<and> pc_token c = token \<and> \<not> pc_started c \<and> r = choice_route c
    \<and> pending_observed_time E now < pc_claimed_at c + l
    \<and> pending_of T (h, rt_worker_id r) = Some p \<and> pb_state p = PendingOpen \<and> pb_fresh p
    \<and> pb_revision p = pc_revision c \<and> pb_binding p = rt_binding r \<and> pb_target p = rt_target r
    \<and> json_loads (pb_routes_json p) = Some (JDict routes) \<and> map_of routes (pc_choice_id c) = Some v \<and> json_eq_int v (rt_ordinal r)
    \<and> backend_pending_claim_context T h (rt_worker_id r) (rt_binding r) (rt_target r) (pending_observed_time E now) = Some w
    \<and> wk_fingerprint w = rt_worker_fingerprint r
    \<and> T' = T\<lparr>pt_claims := map (\<lambda>d. if d = c
         then d\<lparr>pc_started := True, pc_send_started_at := Some (pending_observed_time E now)\<rparr> else d) (pt_claims T)\<rparr>"
proof (rule start_choice_begun[OF assms(2,1)])
  fix c p w routes v
  assume c: "claim_by_token T h token = Some c" "r = choice_route c" "marks_started h token (pending_observed_time E now) c T T'"
    and rest: "pending_of T (h, pc_worker_id c) = Some p" "pb_state p = PendingOpen" "pb_fresh p"
    "pb_revision p = pc_revision c" "pb_binding p = pc_binding c" "pb_target p = pc_target c"
    "json_loads (pb_routes_json p) = Some (JDict routes)" "map_of routes (pc_choice_id c) = Some v" "json_eq_int v (pc_ordinal c)"
    "backend_pending_claim_context T h (pc_worker_id c) (pc_binding c) (pc_target c) (pending_observed_time E now) = Some w"
    "wk_fingerprint w = pc_worker_fingerprint c" "pending_observed_time E now < pc_claimed_at c + l"
  have m: "c \<in> set (pt_claims T)" "unstarted h token c"
    "T' = T\<lparr>pt_claims := sql_update (unstarted h token)
        (\<lambda>d. d\<lparr>pc_started := True, pc_send_started_at := Some (pending_observed_time E now)\<rparr>) (pt_claims T)\<rparr>"
    using c(3) by (auto simp: marks_started_def)
  have only: "unstarted h token d \<longleftrightarrow> d = c" if "d \<in> set (pt_claims T)" for d
    using that m(1,2) assms(1) unique_keyD[of pc_token "pt_claims T" d c] by (auto simp: pending_ok_def unstarted_def)
  have "sql_update (unstarted h token) f (pt_claims T) = map (\<lambda>d. if d = c then f d else d) (pt_claims T)" for f
    unfolding sql_update_def by (rule map_cong[OF refl]) (use only in presburger)
  note T' = m(3)[unfolded this]
  show ?thesis
    by (rule exI[of _ c], rule exI[of _ p], rule exI[of _ routes], rule exI[of _ v], rule exI[of _ w])
      (use m(1,2) c(2) rest T' in \<open>simp add: unstarted_def choice_route_def\<close>)
qed

lemma begin_claimed_send:
  assumes ok: "pending_ok T" and free: "free_claim T (claim_key c) True now l = Inr (Some T1)" and ins: "insert_claim c T1 = Inr T2"
    and p: "p \<in> set (pt_pending T)" "pending_key p = claim_key c" "pb_state p = PendingOpen" and new: "\<not> pc_started c"
    and ctx: "backend_pending_claim_context T h (pc_worker_id c) (pc_binding c) (pc_target c) later = Some w"
      "wk_fingerprint w = pc_worker_fingerprint c" "pc_host_id c = h"
  shows "fst (begin_send h (pc_token c) c later r T2) = SendBegun r"
proof -
  note t = claimed_tables[OF ok free ins p new]
  have "backend_pending_claim_context T2 h (pc_worker_id c) (pc_binding c) (pc_target c) later = Some w"
    using ctx(1) context_cong[OF t(4,5)] by simp
  then show ?thesis using t(6) ctx(2,3) by (simp add: begin_send_def)
qed

text \<open>
  A claimed choice is sent.  As long as the lease runs and the worker and its pane are
  still current, starting the send on the claim's token succeeds and yields exactly the route
  that was claimed.
\<close>

theorem claimed_choice_is_sent:
  assumes ok: "pending_ok T"
    and claim: "claim_backend_pending_choice X E h i fp ch True now l T = Inr (ChoiceClaimed token r, T')"
    and lease: "0 < l" "later < pending_observed_time E now + l"
    and ctx: "backend_pending_claim_context T h (rt_worker_id r) (rt_binding r) (rt_target r) later = Some wk"
      "wk_fingerprint wk = rt_worker_fingerprint r"
  shows "\<exists>T2. start_backend_pending_choice_send E' h token (Some later) l T' = Inr (SendBegun r, T2)"
proof (rule claim_choice_cases[OF claim, of r])
  fix p w n T1 routes
  assume p: "p \<in> set (pt_pending T)" "pending_key p = (h, rt_worker_id r)" "pb_state p = PendingOpen" "pb_fresh p"
    and routes: "json_loads (pb_routes_json p) = Some (JDict routes)" "map_of routes ch = Some (JInt n)"
    and r: "r = \<lparr>rt_worker_id = pb_worker_id p, rt_worker_fingerprint = wk_fingerprint w, rt_binding = pb_binding p,
          rt_target = pb_target p, rt_ordinal = n\<rparr>"
    and free: "free_claim T (h, rt_worker_id r) True (pending_observed_time E now) l = Inr (Some T1)"
    and ins: "ChoiceClaimed token r \<noteq> ChoiceValidated r \<Longrightarrow> True \<and> ChoiceClaimed token r = ChoiceClaimed (token_urlsafe E) r
       \<and> insert_claim (new_claim (h, pb_worker_id p) (token_urlsafe E) (pb_revision p) ch n (wk_fingerprint w) (pb_binding p) (pb_target p)
           (pending_observed_time E now)) T1 = Inr T'"
  define c where "c = new_claim (h, pb_worker_id p) (token_urlsafe E) (pb_revision p) ch n (wk_fingerprint w) (pb_binding p) (pb_target p)
      (pending_observed_time E now)"
  have i: "insert_claim c T1 = Inr T'" and token: "token = token_urlsafe E" using ins by (simp_all add: c_def)
  have c: "claim_key c = (h, rt_worker_id r)" "\<not> pc_started c" "pc_host_id c = h" "pc_token c = token" "choice_route c = r"
    "pc_worker_id c = rt_worker_id r" "pc_binding c = rt_binding r" "pc_target c = rt_target r" "pc_worker_fingerprint c = rt_worker_fingerprint r"
    "pc_claimed_at c = pending_observed_time E now" "pc_revision c = pb_revision p" "pb_binding p = rt_binding r" "pb_target p = rt_target r"
    "pc_choice_id c = ch" "pc_ordinal c = n"
    by (simp_all add: claim_key_def new_claim_def r choice_route_def c_def token)
  note t = claimed_tables[OF ok free[folded c(1)] i p(1) p(2)[folded c(1)] p(3) c(2)]
  have e: "pt_exists T" using claim by (simp add: claim_backend_pending_choice_def Let_def split: if_splits)
  have b: "fst (begin_send h token c later r T') = SendBegun r"
    using begin_claimed_send[OF ok free[folded c(1)] i p(1) p(2)[folded c(1)] p(3) c(2) _ _ c(3)] ctx by (simp add: c)
  have "start_backend_pending_choice_send E' h token (Some later) l T' = Inr (begin_send h token c later r T')"
    unfolding start_backend_pending_choice_send_def pending_observed_time_def
    using t(1-3) e lease p(4) routes
    by (simp add: c claim_lapsed_def backend_pending_claim_expired_def)
  then show ?thesis using b by (metis prod.collapse)
qed simp

text \<open>
  An untouched claim is found again, on an open and fresh row of its revision and pane,
  whatever else has happened to the tables, and its send can begin.
\<close>

lemma kept_claim:
  assumes ok: "pending_ok T" and c: "claim_of T (h, w) = Some c" "\<not> pc_started c" and p: "pending_of T (h, w) = Some p"
  shows "claim_by_token T h (pc_token c) = Some c" "open_row T (h, w) = Some p" "pb_fresh p" "pb_revision p = pc_revision c"
    "pb_binding p = pc_binding c" "pb_target p = pc_target c" "sql_rowcount (unstarted h (pc_token c)) (pt_claims T) = 1"
proof -
  note in_T = claim_of_Some[OF c(1)]
  have h: "pc_host_id c = h" "pc_worker_id c = w" using in_T by (simp_all add: claim_key_def)
  have u: "unique_key pc_token (pt_claims T)" "unique_key pending_key (pt_pending T)" using ok by (simp_all add: pending_ok_def)
  obtain q where q: "pending_of T (claim_key c) = Some q" "claim_fits q c" using in_T by (auto elim: claim_fits_of[OF ok])
  then have fits: "claim_fits p c" using in_T p by simp
  then show row: "pb_fresh p" "pb_revision p = pc_revision c" "pb_binding p = pc_binding c" "pb_target p = pc_target c"
    using c(2) by (auto simp: claim_fits_def)
  have only: "d = c" if "d \<in> set (pt_claims T)" "pc_token d = pc_token c" for d
    using unique_keyD[OF u(1)] that in_T by blast
  show "claim_by_token T h (pc_token c) = Some c"
  proof (cases "claim_by_token T h (pc_token c)")
    case None
    then show ?thesis using in_T h by (auto simp: claim_by_token_def fetchone_None_iff)
  next
    case (Some d)
    then show ?thesis using only by (auto simp: claim_by_token_def dest: fetchone_SomeD)
  qed
  note pT = pending_of_Some[OF p]
  have st: "pb_state p = PendingOpen" using fits row(1) by (simp add: claim_fits_def)
  show "open_row T (h, w) = Some p"
  proof (cases "open_row T (h, w)")
    case None
    then show ?thesis using pT st by (auto simp: open_row_def fetchone_None_iff)
  next
    case (Some q)
    then have "q \<in> set (pt_pending T)" "pending_key q = (h, w)" by (auto simp: open_row_def dest: fetchone_SomeD)
    then have "q = p" using unique_keyD[OF u(2)] pT by simp
    then show ?thesis using Some by simp
  qed
  have "filter (unstarted h (pc_token c)) (pt_claims T) = filter (\<lambda>d. pc_token d = pc_token c) (pt_claims T)"
    by (rule filter_cong[OF refl]) (use only h c(2) in \<open>auto simp: unstarted_def\<close>)
  then show "sql_rowcount (unstarted h (pc_token c)) (pt_claims T) = 1"
    using rowcount_unique[OF u(1), of c "\<lambda>d. pc_token d = pc_token c"] in_T by (simp add: sql_rowcount_def)
qed

lemma decision_from_row_cong:
  "pb_payload_json p = pb_payload_json q \<Longrightarrow> pb_routes_json p = pb_routes_json q \<Longrightarrow> pb_revision p = pb_revision q
    \<Longrightarrow> decision_from_pending_row X E p = decision_from_pending_row X E q"
  unfolding decision_from_pending_row_def by (simp only:)

text \<open>
  C6: A claimed decision is driven.  Let anything happen to the tables after the claim, in
  any order.  If in the end the claim is still there and has not been started, the worker's row
  still carries the payload and the routes it carried when it was claimed, the claim's lease
  is running and the worker and its pane are current, then starting the send on the claim's
  token succeeds, with the route that was claimed: the options and text that were validated.
  (What takes the claim away, such as a failed read, another prompt or the worker's absence,
  also takes the send away.)  The route gives calibrated key steps, so the answer can be
  typed, given that the digit table reads the ten ASCII digits as such.
\<close>

theorem claimed_decision_is_driven:
  assumes ok: "pending_ok T" and digits: "ascii_digits (pe_text X)"
    and claim: "claim_backend_pending_decision X E h w dref sel True now l T = Inr (DecisionClaimed token r, T')"
    and run: "pending_run T' es T2" "pt_exists T2"
    and kept: "claim_of T2 (h, w) = claim_of T' (h, w)" "pending_of T' (h, w) = Some p" "pending_of T2 (h, w) = Some q"
      "pb_payload_json q = pb_payload_json p" "pb_routes_json q = pb_routes_json p"
    and lease: "0 < l" "later < pending_observed_time E now + l"
    and ctx: "backend_pending_claim_context T2 h w (dr_binding r) (dr_target r) later = Some wk"
      "wk_fingerprint wk = dr_worker_fingerprint r"
  shows "(\<exists>T3. start_backend_pending_decision_send X E h token (Some later) l T2 = Inr (SendBegun r, T3))
    \<and> dr_ref r = dref
    \<and> calibrate_decision_steps (pe_text X) (dr_kind r) (int (dr_option_count r)) (dr_option_refs r) (dr_text r)
      = Inr (case dr_text r of
          Some t \<Rightarrow> [KeysStep (replicate (dr_option_count r) (lit ''Down'')), InputStep t]
        | None \<Rightarrow> map (\<lambda>k. KeysStep (digit_keys k)) (chosen_ordinals (dr_option_refs r))
            @ (if dr_kind r = lit ''multi'' then [KeysStep [lit ''Right'', lit ''Enter'']] else []))"
proof (rule claim_decision_cases[OF claim], blast)
  fix r' p0 wk' n refs tx i T1
  assume p0: "pending_of T (h, w) = Some p0" "pb_state p0 = PendingOpen" "pb_fresh p0"
    and n: "decision_from_pending_row X E p0 = Some n" "dn_ref n = dref"
    and s: "validated_decision_selection n sel = Some (refs, tx)"
    and r': "r' = decision_fields n w (wk_fingerprint wk') (pb_binding p0) (pb_target p0) refs tx"
    and free: "free_claim T (h, w) True (pending_observed_time E now) l = Inr (Some T1)"
    and ins: "DecisionClaimed token r = DecisionValidated r' \<and> \<not> True \<and> T' = T
     \<or> True \<and> DecisionClaimed token r = DecisionClaimed (token_urlsafe E) r'
       \<and> insert_claim (new_claim (h, w) (token_urlsafe E) (pb_revision p0) (encode_decision_claim_selection refs tx) (int i)
           (wk_fingerprint wk') (pb_binding p0) (pb_target p0) (pending_observed_time E now)) T1 = Inr T'"
  define c where "c = new_claim (h, w) (token_urlsafe E) (pb_revision p0) (encode_decision_claim_selection refs tx) (int i)
      (wk_fingerprint wk') (pb_binding p0) (pb_target p0) (pending_observed_time E now)"
  have i: "insert_claim c T1 = Inr T'" and token: "token = token_urlsafe E"
    and r: "r = decision_fields n w (wk_fingerprint wk') (pb_binding p0) (pb_target p0) refs tx" using ins r' by (simp_all add: c_def)
  have c: "claim_key c = (h, w)" "\<not> pc_started c" "pc_host_id c = h" "pc_token c = token"
    "pc_worker_id c = w" "pc_binding c = dr_binding r" "pc_target c = dr_target r" "pc_worker_fingerprint c = dr_worker_fingerprint r"
    "pc_claimed_at c = pending_observed_time E now" "pc_revision c = pb_revision p0"
    "pc_choice_id c = encode_decision_claim_selection refs tx"
    by (simp_all add: claim_key_def new_claim_def r decision_fields_def c_def token)
  have row: "p0 \<in> set (pt_pending T)" "pending_key p0 = claim_key c" using pending_of_Some[OF p0(1)] c(1) by simp_all
  note t = claimed_tables[OF ok free[folded c(1)] i row p0(2) c(2)]
  have ok': "pending_ok T'" by (rule pending_step_keeps[OF claimed_decision[OF claim] ok])
  have ok2: "pending_ok T2" by (rule pending_run_keeps[OF run(1) ok'])
  have "c \<in> set (filter (\<lambda>d. claim_key d = claim_key c) (pt_claims T'))" unfolding t(7) by simp
  then have "claim_of T' (h, w) = Some c"
    using fetchone_unique[of claim_key "pt_claims T'" c] ok' c(1) by (auto simp: claim_of_def pending_ok_def)
  note k2 = kept_claim[OF ok2 kept(1)[unfolded this] c(2) kept(3)] and k' = kept_claim[OF ok' this c(2) kept(2)]
  have "p0 = p" using t(2) k'(2) c(1) by simp
  then have n2: "decision_from_pending_row X E q = Some n"
    using decision_from_row_cong[OF kept(4,5)] k2(4) k'(4) n(1) by simp
  have b: "fst (begin_send h token c later r T2) = SendBegun r"
    using k2(7) ctx c by (simp add: begin_send_def)
  obtain v where v: "decode_decision_claim_selection (encode_decision_claim_selection refs tx) = Some v"
    "validated_decision_selection n v = Some (refs, tx)"
    using claimed_selection_round_trip[OF s] by blast
  have rr: "decision_fields n w (dr_worker_fingerprint r) (dr_binding r) (dr_target r) refs tx = r"
    by (simp add: r decision_fields_def)
  have "start_backend_pending_decision_send X E h token (Some later) l T2 = Inr (begin_send h token c later r T2)"
    unfolding start_backend_pending_decision_send_def pending_observed_time_def
    using k2(1-6) run(2) lease n2 v
    by (simp add: c rr claim_lapsed_def backend_pending_claim_expired_def)
  then have "\<exists>T3. start_backend_pending_decision_send X E h token (Some later) l T2 = Inr (SendBegun r, T3)"
    using b by (metis prod.collapse)
  moreover obtain m where m: "normalize_pending_decision_meta m = Inr n"
    using n(1) by (auto simp: decision_from_pending_row_def split: option.splits json.splits if_splits sum.splits prod.splits)
  have "calibrate_decision_steps (pe_text X) (dn_kind n) (int (length (dn_options n))) refs tx
      = Inr (case tx of
          Some t \<Rightarrow> [KeysStep (replicate (length (dn_options n)) (lit ''Down'')), InputStep t]
        | None \<Rightarrow> map (\<lambda>k. KeysStep (digit_keys k)) (chosen_ordinals refs)
            @ (if dn_kind n = lit ''multi'' then [KeysStep [lit ''Right'', lit ''Enter'']] else []))"
    using option_steps[OF digits m] write_in_steps[OF m] s by (cases tx) simp_all
  ultimately show ?thesis using n(2) by (cases tx) (simp_all add: r decision_fields_def)
qed

text \<open>
  C10: An answer is accepted together with its prompt.  The effect of an accepted answer either
  leaves the worker's prompt closed and no claim of the worker, or raises, which rolls the
  acceptance back; a rejected answer's effect changes nothing.
\<close>

theorem accepted_answer_closes_its_prompt:
  assumes "pending_ok T"
  shows "case backend_pending_choice_terminal_effect h token accepted E T of
      Inr (_, T') \<Rightarrow> (accepted = False \<and> T' = T)
        \<or> (accepted = True \<and> (\<exists>c p. c \<in> set (pt_claims T) \<and> pc_token c = token \<and> pc_started c \<and> pending_of T (claim_key c) = Some p
          \<and> pending_of T' (claim_key c) = Some (tombstone (utc_timestamp E) p)
          \<and> pt_claims T' = filter (\<lambda>d. claim_key d \<noteq> claim_key c) (pt_claims T)))
    | Inl e \<Rightarrow> accepted = True \<and> e = StoreSchemaError (lit ''backend_pending_choice_terminal_effect_failed'')"
proof (cases accepted)
  case True
  obtain b T' where f: "finish_pending_send E h token True None T = (b, T')" by (cases "finish_pending_send E h token True None T")
  have tk: "pending_key (tombstone now p) = pending_key p" for now p by (simp add: tombstone_def pending_key_def)
  have "\<exists>c p. c \<in> set (pt_claims T) \<and> pc_token c = token \<and> pc_started c \<and> pending_of T (claim_key c) = Some p
      \<and> pending_of T' (claim_key c) = Some (tombstone (utc_timestamp E) p)
      \<and> pt_claims T' = filter (\<lambda>d. claim_key d \<noteq> claim_key c) (pt_claims T)" if b
  proof -
    let ?st = "\<lambda>c. pc_host_id c = h \<and> pc_token c = token \<and> pc_started c"
    obtain d where fd: "sql_fetchone ?st (pt_claims T) = Some d"
      using f \<open>b\<close> by (cases "sql_fetchone ?st (pt_claims T)") (simp_all add: finish_pending_send_def)
    have d: "d \<in> set (pt_claims T)" "?st d" using fetchone_SomeD[OF fd] by simp_all
    have d3: "pt_claims T' = sql_delete ?st (pt_claims T)"
      using f unfolding finish_pending_send_def Let_def fd by (auto simp del: sql_delete_def)
    have "d \<notin> set (pt_claims T')" unfolding d3 sql_delete_def using d(2) by simp
    then have "T' \<noteq> T" using d(1) by blast
    show ?thesis
    proof (rule finish_pending_cases[OF f assms \<open>T' \<noteq> T\<close>])
      fix c p closes
      assume c: "c \<in> set (pt_claims T)" "pc_started c" "pc_token c = token" "pending_of T (claim_key c) = Some p"
        and c5: "pt_claims T' = sql_delete (\<lambda>d. d = c) (pt_claims T)"
        and c6: "pt_pending T' = sql_update closes (tombstone (pending_observed_time E None)) (pt_pending T)"
        and "b \<Longrightarrow> closes p"
      then have "closes p" using \<open>b\<close> by blast
      have row: "pending_of T' (claim_key c)
          = map_option (\<lambda>p. if closes p then tombstone (pending_observed_time E None) p else p) (pending_of T (claim_key c))"
        unfolding pending_of_def c6 by (rule fetchone_sql_update) (simp add: tk)
      have only: "d = c \<longleftrightarrow> claim_key d = claim_key c" if "d \<in> set (pt_claims T)" for d
        using that c(1) assms unique_keyD[of claim_key "pt_claims T" d c] by (auto simp: pending_ok_def)
      have "pt_claims T' = filter (\<lambda>d. claim_key d \<noteq> claim_key c) (pt_claims T)"
        unfolding c5 sql_delete_def by (rule filter_cong[OF refl]) (use only in blast)
      then show ?thesis using c row \<open>closes p\<close> by (auto simp: pending_observed_time_def)
    qed
  qed
  then show ?thesis using True f by (cases b) (simp_all add: backend_pending_choice_terminal_effect_def)
qed (simp add: backend_pending_choice_terminal_effect_def)

section \<open>Examples\<close>

definition ex_pending_env :: pending_env where
  "ex_pending_env = \<lparr>pe_text = ex_text, pe_interaction = (\<lambda>d. Inr (lit ''p'', lit ''fp'')), pe_int = (\<lambda>v. None)\<rparr>"

definition ex_clock :: store_env where
  "ex_clock = \<lparr>sanitize_public_mapping = (\<lambda>d. d), utc_timestamp = 100, token_urlsafe = lit ''tok''\<rparr>"

lemma ex_clock_fields [simp]: "utc_timestamp ex_clock = 100" "token_urlsafe ex_clock = lit ''tok''"
  by (simp_all add: ex_clock_def)

abbreviation ex_key :: "ustr \<times> ustr" where
  "ex_key \<equiv> (lit ''h'', lit ''w'')"

definition ex_choice_prompt :: members where
  "ex_choice_prompt =
     [(lit ''choices'', JList [choice_json (lit ''c'', lit ''Yes'')]), (lit ''kind'', JStr (lit ''ask'')),
      (lit ''meta'', JDict [(lit ''source'', JStr (lit ''backend''))]), (lit ''question'', JStr (lit ''Go?''))]"

definition ex_decision_prompt :: members where
  "ex_decision_prompt =
     [(lit ''choices'', JList []), (lit ''kind'', JStr (lit ''ask'')),
      (lit ''meta'', JDict [(lit ''decision'', sort_keys (decision_json ex_decision)), (lit ''source'', JStr (lit ''backend''))]),
      (lit ''question'', JStr (lit ''Which?''))]"

definition ex_prompt_row :: "members \<Rightarrow> members \<Rightarrow> pending_row" where
  "ex_prompt_row payload routes =
     (blank_row ex_key (json_dumps (JDict payload)) 10 (lit ''b'') (lit ''pane'') PendingOpen True True)
       \<lparr>pb_revision := lit ''1'', pb_routes_json := json_dumps (JDict routes)\<rparr>"

definition ex_pane :: pane_binding where
  "ex_pane =
     \<lparr>pn_host_id = lit ''h'', pn_worker_id = lit ''w'', pn_worker_fingerprint = lit ''f'', pn_backend = lit ''herdr'',
      pn_target_kind = Some (lit ''pane_id''), pn_target_value = Some (lit ''pane''), pn_private_fingerprint = lit ''b'',
      pn_sendable = True, pn_expires_at = 1000\<rparr>"

definition ex_pending :: "pending_row list \<Rightarrow> pending_claim list \<Rightarrow> pending_tables" where
  "ex_pending ps cs = \<lparr>pt_exists = True, pt_pending = ps, pt_claims = cs, pt_workers = (\<lambda>h. Some [ex_worker ''w'']), pt_bindings = [ex_pane]\<rparr>"

definition ex_claim :: pending_claim where
  "ex_claim = new_claim ex_key (lit ''tok'') (lit ''1'') (lit ''c'') 1 (lit ''f'') (lit ''b'') (lit ''pane'') 100"

definition ex_asked :: pending_tables where
  "ex_asked = ex_pending [ex_prompt_row ex_choice_prompt [(lit ''c'', JInt 1)]] []"

definition ex_claimed :: pending_tables where
  "ex_claimed = ex_pending [ex_prompt_row ex_choice_prompt [(lit ''c'', JInt 1)]] [ex_claim]"

definition ex_started :: pending_tables where
  "ex_started = ex_pending [ex_prompt_row ex_choice_prompt [(lit ''c'', JInt 1)]]
     [ex_claim\<lparr>pc_started := True, pc_send_started_at := Some 105\<rparr>]"

definition ex_route :: pending_route where
  "ex_route = \<lparr>rt_worker_id = lit ''w'', rt_worker_fingerprint = lit ''f'', rt_binding = lit ''b'', rt_target = lit ''pane'', rt_ordinal = 1\<rparr>"

lemma ex_prompt_row_fields [simp]:
  "pb_host_id (ex_prompt_row d r) = lit ''h''" "pb_worker_id (ex_prompt_row d r) = lit ''w''" "pb_binding (ex_prompt_row d r) = lit ''b''"
  "pb_target (ex_prompt_row d r) = lit ''pane''" "pb_state (ex_prompt_row d r) = PendingOpen" "pb_fresh (ex_prompt_row d r)"
  "pb_revision (ex_prompt_row d r) = lit ''1''" "pb_payload_json (ex_prompt_row d r) = json_dumps (JDict d)"
  "pb_routes_json (ex_prompt_row d r) = json_dumps (JDict r)" "pending_key (ex_prompt_row d r) = ex_key"
  by (simp_all add: ex_prompt_row_def blank_row_def pending_key_def)

lemma ex_claim_fields [simp]:
  "pc_host_id ex_claim = lit ''h''" "pc_worker_id ex_claim = lit ''w''" "pc_token ex_claim = lit ''tok''" "pc_revision ex_claim = lit ''1''"
  "pc_choice_id ex_claim = lit ''c''" "pc_ordinal ex_claim = 1" "pc_binding ex_claim = lit ''b''" "pc_target ex_claim = lit ''pane''"
  "\<not> pc_started ex_claim" "pc_claimed_at ex_claim = 100" "claim_key ex_claim = ex_key" "pc_worker_fingerprint ex_claim = lit ''f''"
  by (simp_all add: ex_claim_def new_claim_def claim_key_def)

lemma ex_pending_fields [simp]:
  "pt_exists (ex_pending ps cs)" "pt_pending (ex_pending ps cs) = ps" "pt_claims (ex_pending ps cs) = cs"
  by (simp_all add: ex_pending_def)

lemma ex_worker_fingerprint [simp]: "wk_fingerprint (ex_worker w) = lit ''f''"
  by (simp add: ex_worker_def)

lemma ex_context:
  "now < 1000 \<Longrightarrow> backend_pending_claim_context (ex_pending ps cs) (lit ''h'') (lit ''w'') (lit ''b'') (lit ''pane'') now = Some (ex_worker ''w'')"
  by (simp add: backend_pending_claim_context_def ex_pending_def ex_worker_def ex_pane_def disallowed_worker_statuses_def)

lemma ex_routes: "json_loads (json_dumps (JDict [(lit ''c'', JInt 1)])) = Some (JDict [(lit ''c'', JInt 1)])"
  by (subst json_loads_dumps) simp_all

lemma ex_pending_ok: "pending_ok ex_asked" "pending_ok ex_claimed" "pending_ok ex_started"
  by (auto simp: pending_ok_def ex_asked_def ex_claimed_def ex_started_def unique_key_def claim_fits_def claim_key_def)

lemma ex_start:
  "start_backend_pending_choice_send ex_clock (lit ''h'') (lit ''tok'') (Some 105) 30 ex_claimed = Inr (SendBegun ex_route, ex_started)"
  by (simp add: start_backend_pending_choice_send_def pending_observed_time_def ex_claimed_def ex_started_def claim_by_token_def
      claim_lapsed_def backend_pending_claim_expired_def open_row_def ex_routes begin_send_def ex_context sql_rowcount_def
      unstarted_def choice_route_def ex_route_def)
    (simp add: ex_pending_def)

theorem started_send_answers_the_stored_prompt_witness:
  "\<exists>c \<in> set (pt_claims ex_claimed). pc_token c = lit ''tok'' \<and> \<not> pc_started c \<and> choice_route c = ex_route"
  using started_send_answers_the_stored_prompt[OF ex_pending_ok(2) ex_start] by metis

lemma ex_pending_run: "pending_run ex_claimed [AnswerStarted ex_key, Quiet] (snd (finish_backend_pending_choice_send ex_clock (lit ''h'') (lit ''tok'') True None ex_started))"
proof -
  have r: "rt_worker_id ex_route = lit ''w''" by (simp add: ex_route_def)
  show ?thesis
    by (rule next_event[OF choice_started[OF ex_start, unfolded r]], rule next_event[OF finished no_events]) (rule prod.collapse[symmetric])
qed

theorem one_answer_per_prompt_witness:
  "AnswerStarted ex_key \<notin> set [Quiet] \<and> pending_run ex_claimed [AnswerStarted ex_key, Quiet]
     (snd (finish_backend_pending_choice_send ex_clock (lit ''h'') (lit ''tok'') True None ex_started))"
  using one_answer_per_prompt[OF ex_pending_ok(2) ex_pending_run] ex_pending_run by simp

theorem claims_answer_the_stored_prompt_witness:
  "\<exists>p. pending_of ex_started ex_key = Some p \<and> pb_revision p = lit ''1'' \<and> pb_state p \<in> {PendingOpen, PendingFailed}"
proof -
  have "pending_run ex_claimed [AnswerStarted (lit ''h'', rt_worker_id ex_route)] ex_started"
    by (rule next_event[OF choice_started[OF ex_start] no_events])
  from claims_answer_the_stored_prompt[OF this disjI1[OF ex_pending_ok(2)]] show ?thesis by (auto simp: ex_started_def claim_key_def)
qed

theorem accepted_answer_closes_its_prompt_witness:
  "\<exists>T'. backend_pending_choice_terminal_effect (lit ''h'') (lit ''tok'') True ex_clock ex_started = Inr ((), T') \<and> pt_claims T' = []"
proof -
  obtain T' where T': "backend_pending_choice_terminal_effect (lit ''h'') (lit ''tok'') True ex_clock ex_started = Inr ((), T')"
    by (simp add: backend_pending_choice_terminal_effect_def finish_pending_send_def Let_def ex_started_def sql_rowcount_def)
  show ?thesis
    using accepted_answer_closes_its_prompt[OF ex_pending_ok(3), where h = "lit ''h''" and token = "lit ''tok''" and accepted = True and E = ex_clock]
    unfolding T'
    by (auto simp: ex_started_def)
qed

text \<open>The example prompts read back from the store, and can be claimed.\<close>

lemma ex_choice_loads: "json_loads (json_dumps (JDict ex_choice_prompt)) = Some (JDict ex_choice_prompt)"
proof -
  have "json_plain (JDict ex_choice_prompt)" "sort_keys (JDict ex_choice_prompt) = JDict ex_choice_prompt"
    by (simp_all add: ex_choice_prompt_def choice_json_def lit_def)
  then show ?thesis using json_loads_dumps by metis
qed

lemma ex_choice_normal:
  "\<exists>r. normalize_backend_pending_payload ex_clock ex_choice_prompt [(lit ''c'', JInt 1)] = Inr r"
  by (simp add: normalize_backend_pending_payload_def ex_clock_def ex_choice_prompt_def member_def member_or_def dict_get_def choice_json_def
      nonblank_def py_strip_id lit_def[of "''ask''"] lit_def[of "''Go?''"] lit_def[of "''Yes''"] py_isspace_def
      normalize_choices_def pending_choice_def has_members_def dict_of_def insert_commute)

lemma ex_interaction:
  "backend_pending_interaction ex_pending_env ex_clock (lit ''h'') (ex_prompt_row ex_choice_prompt [(lit ''c'', JInt 1)]) (ex_worker ''w'')
     = Inr (lit ''p'', lit ''fp'')"
proof -
  obtain n r where n: "normalize_backend_pending_payload ex_clock ex_choice_prompt [(lit ''c'', JInt 1)] = Inr (n, r)"
    using ex_choice_normal by (metis prod.collapse)
  let ?v = "JDict [(lit ''revision'', JStr (lit ''1'')), (lit ''worker_id'', JStr (lit ''w''))]"
  have "list_all (\<lambda>s. \<not> is_forbidden_field_name (lit s)) [''revision'', ''worker_id'']"
    by (rule names_allowed) (simp_all add: plain_name_def forbidden_field_names_def)
  then have "stable_json_dumps ?v = json_dumps ?v" unfolding stable_json_dumps_def by (subst clean_sanitize) simp_all
  moreover have "unicode_text (json_dumps ?v)" by (subst unicode_json_dumps) (simp_all add: lit_def)
  ultimately obtain f where "stable_fingerprint ?v = Inr f" by (simp add: stable_fingerprint_def encodable_def)
  then show ?thesis using n by (simp add: backend_pending_interaction_def ex_choice_loads ex_routes ex_pending_env_def)
qed

lemma ex_choice_claimed:
  "claim_backend_pending_choice ex_pending_env ex_clock (lit ''h'') (lit ''p'') (lit ''fp'') (lit ''c'') True None 30 ex_asked
     = Inr (ChoiceClaimed (lit ''tok'') ex_route, ex_claimed)"
  by (simp add: claim_backend_pending_choice_def pending_observed_time_def ex_asked_def ex_context ex_interaction ex_routes free_claim_def
      claim_of_def insert_claim_def ex_claim_def[symmetric] ex_route_def)
    (simp add: ex_claimed_def ex_claim_def ex_pending_def new_claim_def)

theorem claims_are_exclusive_witness:
  "answerable ex_asked ex_key \<and> (\<exists>c. filter (\<lambda>d. claim_key d = ex_key) (pt_claims ex_claimed) = [c] \<and> choice_route c = ex_route)"
proof -
  have "rt_worker_id ex_route = lit ''w''" by (simp add: ex_route_def)
  then show ?thesis using claims_are_exclusive[OF ex_pending_ok(1) ex_choice_claimed] by auto
qed

theorem claimed_choice_is_sent_witness:
  "\<exists>T2. start_backend_pending_choice_send ex_clock (lit ''h'') (lit ''tok'') (Some 105) 30 ex_claimed = Inr (SendBegun ex_route, T2)"
proof -
  have "backend_pending_claim_context ex_asked (lit ''h'') (rt_worker_id ex_route) (rt_binding ex_route) (rt_target ex_route) 105
      = Some (ex_worker ''w'')"
    using ex_context[of 105] by (simp add: ex_asked_def ex_route_def)
  from claimed_choice_is_sent[OF ex_pending_ok(1) ex_choice_claimed _ _ this] show ?thesis
    by (simp add: pending_observed_time_def) (simp add: ex_route_def)
qed

definition ex_decided :: pending_tables where
  "ex_decided = ex_pending [ex_prompt_row ex_decision_prompt []] []"

lemma ex_decision_sorted:
  "sort_keys (decision_json ex_decision) = JDict
     [(lit ''decision_ref'', JStr (lit ''decision-1'')), (lit ''kind'', JStr (lit ''multi'')), (lit ''multi_select'', JBool True),
      (lit ''options'', JList (map (\<lambda>(r, l). JDict [(lit ''label'', JStr (lit l)), (lit ''ref'', JStr (lit r))])
         [(''1'', ''a''), (''2'', ''b''), (''3'', ''c'')])),
      (lit ''prompt'', JStr (lit ''Which?'')), (lit ''question_count'', JInt 1)]"
  by (simp add: decision_json_def ex_decision_def lit_def)

lemma ex_decision_again: "normalize_pending_decision_meta (sort_keys (decision_json ex_decision)) = Inr ex_decision"
  unfolding ex_decision_sorted
  by (simp add: normalize_pending_decision_meta_def ex_decision_def member_def dict_get_def has_members_def
      nonblank_def py_strip_id lit_def[of "''decision-1''"] lit_def[of "''Which?''"] lit_def[of "''a''"] lit_def[of "''b''"]
      lit_def[of "''c''"] py_isspace_def decision_kinds_def text_of_def lit_digits[unfolded One_nat_def] numeral_2_eq_2[symmetric] numeral_3_eq_3[symmetric]
      insert_commute)

lemma ex_decision_loads: "json_loads (json_dumps (JDict ex_decision_prompt)) = Some (JDict ex_decision_prompt)"
proof -
  have "json_plain (JDict ex_decision_prompt)" "sort_keys (JDict ex_decision_prompt) = JDict ex_decision_prompt"
    unfolding ex_decision_prompt_def ex_decision_sorted by (simp_all add: lit_def)
  then show ?thesis using json_loads_dumps by metis
qed

lemma ex_decision_normal:
  "\<exists>q c m r. normalize_backend_pending_payload ex_clock ex_decision_prompt [] = Inr ([(lit ''question'', q), (lit ''kind'', m),
      (lit ''choices'', c), (lit ''meta'', JDict [(lit ''decision'', decision_json ex_decision), (lit ''source'', JStr (lit ''backend''))])], r)"
  using ex_decision_again
  by (simp add: normalize_backend_pending_payload_def ex_clock_def ex_decision_prompt_def member_def member_or_def dict_get_def
      nonblank_def py_strip_id lit_def[of "''ask''"] lit_def[of "''Which?''"] py_isspace_def
      normalize_choices_def dict_of_def insert_commute)

lemma ex_decision_row: "decision_from_pending_row ex_pending_env ex_clock (ex_prompt_row ex_decision_prompt []) = Some ex_decision"
proof -
  obtain q c m r where "normalize_backend_pending_payload ex_clock ex_decision_prompt [] = Inr ([(lit ''question'', q), (lit ''kind'', m),
      (lit ''choices'', c), (lit ''meta'', JDict [(lit ''decision'', decision_json ex_decision), (lit ''source'', JStr (lit ''backend''))])], r)"
    using ex_decision_normal by blast
  moreover have "json_loads (json_dumps (JDict [])) = Some (JDict [])" by (subst json_loads_dumps) simp_all
  moreover obtain d where "decision_json ex_decision = JDict d" "dn_ref ex_decision = lit ''decision-'' @ lit ''1''"
    by (simp add: decision_json_def ex_decision_def lit_def)
  ultimately show ?thesis using ex_decision
    by (simp add: decision_from_pending_row_def ex_decision_loads member_def dict_get_def)
qed

abbreviation ex_selection :: json where
  "ex_selection \<equiv> JDict [(lit ''option_refs'', JList [JStr (lit ''3''), JStr (lit ''1'')])]"

lemma ex_decision_claimed:
  "\<exists>c. claim_backend_pending_decision ex_pending_env ex_clock (lit ''h'') (lit ''w'') (lit ''decision-1'') ex_selection True None 30 ex_decided
     = Inr (DecisionClaimed (lit ''tok'') (decision_fields ex_decision (lit ''w'') (lit ''f'') (lit ''b'') (lit ''pane'') [lit ''3'', lit ''1''] None),
         ex_pending [ex_prompt_row ex_decision_prompt []] [c])"
proof -
  have v: "validated_decision_selection ex_decision ex_selection = Some ([lit ''3'', lit ''1''], None)"
    by (simp add: validated_decision_selection_def ex_decision_def text_of_def)
  have i: "py_int ex_text 0 (lit ''3'') = Some 3" using py_int_show[OF ex_digits, of 3] by (simp add: lit_digits)
  have n: "dn_ref ex_decision = lit ''decision-1''" "dn_question_count ex_decision = 1" by (simp_all add: ex_decision_def)
  have w: "wk_id (ex_worker ''w'') = lit ''w''" "wk_status (ex_worker ''w'') \<notin> set (map lit disallowed_worker_statuses)"
    by (simp_all add: ex_worker_def disallowed_worker_statuses_def)
  have u: "\<not> unsupported_row (ex_prompt_row ex_decision_prompt [])" by (simp add: unsupported_row_def)
  have p: "pending_of ex_decided ex_key = Some (ex_prompt_row ex_decision_prompt [])" by (simp add: pending_of_def ex_decided_def)
  have ws: "pt_workers ex_decided (lit ''h'') = Some [ex_worker ''w'']" "pt_exists ex_decided" "pt_claims ex_decided = []"
    by (simp_all add: ex_decided_def ex_pending_def)
  have ctx: "backend_pending_claim_context ex_decided (lit ''h'') (lit ''w'') (lit ''b'') (lit ''pane'') 100 = Some (ex_worker ''w'')"
    using ex_context[of 100] by (simp add: ex_decided_def)
  show ?thesis
    using v i n w u p ws ctx ex_decision_row
    by (simp add: claim_backend_pending_decision_def pending_observed_time_def Let_def free_claim_def claim_of_def insert_claim_def
        new_claim_def claim_key_def ex_pending_env_def)
      (simp add: ex_decided_def ex_pending_def)
qed

theorem claimed_decision_is_driven_witness:
  "(\<exists>T' r T2. claim_backend_pending_decision ex_pending_env ex_clock (lit ''h'') (lit ''w'') (lit ''decision-1'') ex_selection True None 30 ex_decided
        = Inr (DecisionClaimed (lit ''tok'') r, T')
      \<and> start_backend_pending_decision_send ex_pending_env ex_clock (lit ''h'') (lit ''tok'') (Some 105) 30 T' = Inr (SendBegun r, T2))
    \<and> calibrate_decision_steps ex_text (lit ''multi'') 3 [lit ''3'', lit ''1''] None
      = Inr [KeysStep [lit ''1''], KeysStep [lit ''3''], KeysStep [lit ''Right'', lit ''Enter'']]"
proof -
  obtain c where T': "claim_backend_pending_decision ex_pending_env ex_clock (lit ''h'') (lit ''w'') (lit ''decision-1'') ex_selection True None 30 ex_decided
     = Inr (DecisionClaimed (lit ''tok'') (decision_fields ex_decision (lit ''w'') (lit ''f'') (lit ''b'') (lit ''pane'') [lit ''3'', lit ''1''] None),
         ex_pending [ex_prompt_row ex_decision_prompt []] [c])"
    using ex_decision_claimed by blast
  let ?T = "ex_pending [ex_prompt_row ex_decision_prompt []] [c]"
  have ok: "pending_ok ex_decided" by (simp add: pending_ok_def ex_decided_def unique_key_def)
  have d: "ascii_digits (pe_text ex_pending_env)" using ex_digits by (simp add: ex_pending_env_def)
  have s: "{k. show_nat k = show_nat 3 \<or> show_nat k = show_nat 1} = {1, 3}"
    using show_nat_eq_iff[OF ex_digits] by auto
  have k: "digit_keys 1 = [lit ''1'']" "digit_keys 3 = [lit ''3'']"
    by (simp_all add: digit_keys_def show_nat.simps lit_def)
  have ctx: "backend_pending_claim_context ?T (lit ''h'') (lit ''w'') (lit ''b'') (lit ''pane'') 105 = Some (ex_worker ''w'')"
    using ex_context[of 105] by simp
  have p: "pending_of ?T ex_key = Some (ex_prompt_row ex_decision_prompt [])" by (simp add: pending_of_def)
  let ?r = "decision_fields ex_decision (lit ''w'') (lit ''f'') (lit ''b'') (lit ''pane'') [lit ''3'', lit ''1''] None"
  have x: "backend_pending_claim_context ?T (lit ''h'') (lit ''w'') (dr_binding ?r) (dr_target ?r) 105 = Some (ex_worker ''w'')"
    "wk_fingerprint (ex_worker ''w'') = dr_worker_fingerprint ?r" "105 < pending_observed_time ex_clock None + 30"
    using ctx by (simp_all add: decision_fields_def pending_observed_time_def)
  have "(0::time) < 30" by simp
  note d = claimed_decision_is_driven[OF ok d T' no_events _ refl p p refl refl this x(3,1,2), simplified ex_pending_fields(1), OF TrueI]
  have "calibrate_decision_steps ex_text (lit ''multi'') 3 [lit ''3'', lit ''1''] None
      = Inr [KeysStep [lit ''1''], KeysStep [lit ''3''], KeysStep [lit ''Right'', lit ''Enter'']]"
    using conjunct2[OF conjunct2[OF d]] s k
    by (simp add: decision_fields_def ex_pending_env_def ex_decision_def chosen_ordinals_def lit_digits[symmetric]
        sorted_list_of_set_insert_remove)
  then show ?thesis using T' conjunct1[OF d] by blast
qed

end
