(* ===== verification/AnswerProtocol.thy ===== *)
theory AnswerProtocol
  imports SendProtocol PendingAnswers
begin

text \<open>
  One caller of \<open>command_submission.py\<close> answering a prompt or a decision: it validates the
  answer, reserves, claims, marks, starts the send of its claim, types, and finishes; and
  the dispatch of \<open>_submit_command_v2\<close> over all actions, with the read-only ones of
  \<open>core/actions.py\<close>.  The other tables of the store are the pending tables.
\<close>

section \<open>Surroundings\<close>

type_synonym 'a pending_act = "('a, pending_tables) act"

text \<open>
  How the socket answers one pane operation; a failed one may or may not have reached the
  pane.
\<close>

datatype input_reply = InputDone | InputLost | InputUnanswered

record answer_scene =
  an_scene :: scene
  an_env :: pending_env
  an_inputs :: "nat \<Rightarrow> input_reply"

definition claim_lease :: time where
  "claim_lease = 30 * second"

definition pending_call ::
  "pending_tables service \<Rightarrow> (store_env \<Rightarrow> pending_tables \<Rightarrow> ('a \<times> pending_tables) result) \<Rightarrow> 'a pending_act" where
  "pending_call V f = transact (sv_at V) (\<lambda>E db.
     bind_result (f E (other_tables db)) (\<lambda>(x, T). Inr (x, db\<lparr>other_tables := T\<rparr>)))"

fun type_inputs :: "(nat \<Rightarrow> input_reply) \<Rightarrow> nat \<Rightarrow> ustr \<Rightarrow> pane_input list \<Rightarrow> (unit, 'p) act" where
  "type_inputs replies n pane [] = give (Inr ())"
| "type_inputs replies n pane (x # xs) =
     (case replies n of
        InputDone \<Rightarrow> and_then (prompt pane x) (\<lambda>_. type_inputs replies (Suc n) pane xs)
      | InputLost \<Rightarrow> give (Inl RuntimeError)
      | InputUnanswered \<Rightarrow> and_then (prompt pane x) (\<lambda>_. give (Inl RuntimeError)))"

definition private_pane_clear_key_sequences :: "string list list" where
  "private_pane_clear_key_sequences = [[''ctrl+u''], [''ctrl+a'', ''ctrl+k''], [''ctrl+a'', ''backspace'']]"

definition private_pane_input :: "ustr \<Rightarrow> pane_input list" where
  "private_pane_input t = map (\<lambda>ks. PaneKeys (map lit ks)) private_pane_clear_key_sequences @ [PaneText t [lit ''Enter'']]"

fun step_input :: "decision_step \<Rightarrow> pane_input" where
  "step_input (KeysStep ks) = PaneKeys ks"
| "step_input (InputStep t) = PaneText t [lit ''Enter'']"

section \<open>Envelopes of answers\<close>

definition answer_param :: "command_request \<Rightarrow> string \<Rightarrow> ustr" where
  "answer_param r k = text_member_of (the_members (rq_params r)) k"

definition answer_selection :: "command_request \<Rightarrow> json" where
  "answer_selection r = (case member (the_members (rq_params r)) ''selection'' of JDict d \<Rightarrow> JDict d | _ \<Rightarrow> JDict [])"

definition answer_worker :: "command_request \<Rightarrow> ustr" where
  "answer_worker r = text_member_of (the_members (rq_target r)) ''worker_id''"

definition pending_changed_envelope :: "pending_tables service \<Rightarrow> command_request \<Rightarrow> envelope result" where
  "pending_changed_envelope V r =
     from_result V r False (lit ''stale_target'') ''no_receipt'' None
       (Some (error_value V (lit ''stale_target'') (lit ''pending interaction changed or is no longer answerable'') [])) []"

definition answer_in_progress :: "pending_tables service \<Rightarrow> command_request \<Rightarrow> bool \<Rightarrow> envelope result" where
  "answer_in_progress V r receipt_reserved =
     from_result V r False status_answer_in_progress (if receipt_reserved then ''in_progress'' else ''no_receipt'') None
       (Some (error_value V status_answer_in_progress (lit ''another request is currently answering this decision'') [])) []"

fun decision_failure :: "decision_claim \<Rightarrow> string \<times> string" where
  "decision_failure DecisionAlreadyClaimed = (''answer_in_progress'', ''another request is currently answering this decision'')"
| "decision_failure DecisionUnknownWorker = (''unknown_worker'', ''target worker does not exist or is not open'')"
| "decision_failure DecisionInvalidSelection = (''invalid_selection'', ''selection is invalid for the current decision'')"
| "decision_failure DecisionUnsupported = (''unsupported_decision'', ''multi-question decisions are not supported'')"
| "decision_failure _ = (''decision_not_pending'', ''decision is not the worker's current pending decision'')"

definition decision_failure_envelope :: "pending_tables service \<Rightarrow> command_request \<Rightarrow> decision_claim \<Rightarrow> envelope result" where
  "decision_failure_envelope V r res =
     (case decision_failure res of (st, message) \<Rightarrow>
        from_result V r False (lit st) ''no_receipt'' None (Some (error_value V (lit st) (lit message) [])) [])"

definition pending_public_result :: "command_request \<Rightarrow> ustr \<Rightarrow> members" where
  "pending_public_result r worker_id =
     (let params = the_members (rq_params r) in
      [(lit ''target'', JDict [(lit ''worker_id'', JStr worker_id)]),
       (lit ''pending'', JDict [(lit ''id'', member params ''pending_id''), (lit ''fingerprint'', member params ''pending_fingerprint'')]),
       (lit ''choice'', JDict [(lit ''choice_id'', member params ''choice_id'')]),
       (lit ''delivery_state'', JStr (lit ''submitted'')), (lit ''transport_state'', JStr (lit ''submitted'')),
       (lit ''observed_pending_state'', JStr (lit ''pending_observation''))])"

definition decision_public_result :: "command_request \<Rightarrow> ustr \<Rightarrow> members" where
  "decision_public_result r worker_id =
     [(lit ''target'', JDict [(lit ''worker_id'', JStr worker_id)]),
      (lit ''decision'', JDict [(lit ''decision_ref'', member (the_members (rq_params r)) ''decision_ref'')]),
      (lit ''delivery_state'', JStr (lit ''submitted'')), (lit ''transport_state'', JStr (lit ''submitted'')),
      (lit ''observed_pending_state'', JStr (lit ''pending_observation''))]"

section \<open>Validating and claiming\<close>

definition exact_pending_route :: "pending_route \<Rightarrow> bool" where
  "exact_pending_route t \<longleftrightarrow>
     rt_worker_id t \<noteq> [] \<and> rt_worker_fingerprint t \<noteq> [] \<and> rt_binding t \<noteq> [] \<and> py_strip (rt_target t) \<noteq> [] \<and> 1 \<le> rt_ordinal t"

definition exact_decision_route :: "decision_route \<Rightarrow> bool" where
  "exact_decision_route t \<longleftrightarrow>
     dr_worker_id t \<noteq> [] \<and> dr_worker_fingerprint t \<noteq> [] \<and> dr_binding t \<noteq> [] \<and> py_strip (dr_target t) \<noteq> []
     \<and> dr_ref t \<noteq> [] \<and> dr_kind t \<in> set (map lit decision_kinds) \<and> 1 \<le> dr_option_count t
     \<and> (case dr_text t of None \<Rightarrow> dr_option_refs t \<noteq> [] | Some x \<Rightarrow> x \<noteq> [] \<and> dr_option_refs t = [])"

definition same_pending_route :: "pending_route \<Rightarrow> pending_route \<Rightarrow> bool" where
  "same_pending_route a b \<longleftrightarrow> exact_pending_route a \<and> exact_pending_route b \<and> a = b"

definition same_decision_route :: "decision_route \<Rightarrow> decision_route \<Rightarrow> bool" where
  "same_decision_route a b \<longleftrightarrow> exact_decision_route a \<and> exact_decision_route b \<and> a = b"

text \<open>A failure before anything is sent is permanent, or transient when the store raised.\<close>

datatype 'r validated = ValidAnswer 'r | PermanentAnswer envelope | TransientAnswer envelope

definition store_unavailable :: "pending_tables service \<Rightarrow> command_request \<Rightarrow> 'r validated pending_act" where
  "store_unavailable V r =
     and_then (give (backend_unavailable V r ''pending state store is unavailable'' [])) (\<lambda>e. give (Inr (TransientAnswer e)))"

definition choice_call ::
  "pending_tables service \<Rightarrow> answer_scene \<Rightarrow> command_request \<Rightarrow> bool \<Rightarrow> choice_claim pending_act" where
  "choice_call V A r claim = pending_call V (\<lambda>E. claim_backend_pending_choice (an_env A) E (sv_host_id V)
     (answer_param r ''pending_id'') (answer_param r ''pending_fingerprint'') (answer_param r ''choice_id'') claim None claim_lease)"

definition decision_call ::
  "pending_tables service \<Rightarrow> answer_scene \<Rightarrow> command_request \<Rightarrow> bool \<Rightarrow> decision_claim pending_act" where
  "decision_call V A r claim = pending_call V (\<lambda>E. claim_backend_pending_decision (an_env A) E (sv_host_id V)
     (answer_worker r) (answer_param r ''decision_ref'') (answer_selection r) claim None claim_lease)"

definition validate_pending_choice ::
  "pending_tables service \<Rightarrow> answer_scene \<Rightarrow> command_request \<Rightarrow> pending_route validated pending_act" where
  "validate_pending_choice V A r =
     and_then (attempt (choice_call V A r False)) (\<lambda>v.
     let changed = and_then (give (pending_changed_envelope V r)) (\<lambda>e. give (Inr (PermanentAnswer e))) in
     case v of
       None \<Rightarrow> store_unavailable V r
     | Some res \<Rightarrow>
         (case (case res of ChoiceValidated t \<Rightarrow> if exact_pending_route t then Some t else None | _ \<Rightarrow> None) of
            Some t \<Rightarrow> give (Inr (ValidAnswer t)) | None \<Rightarrow> changed))"

definition validate_pending_decision ::
  "pending_tables service \<Rightarrow> answer_scene \<Rightarrow> command_request \<Rightarrow> decision_route validated pending_act" where
  "validate_pending_decision V A r =
     and_then (attempt (decision_call V A r False)) (\<lambda>v.
     case v of
       None \<Rightarrow> store_unavailable V r
     | Some res \<Rightarrow>
         (case (case res of DecisionValidated t \<Rightarrow> if exact_decision_route t then Some t else None | _ \<Rightarrow> None) of
            Some t \<Rightarrow> give (Inr (ValidAnswer t))
          | None \<Rightarrow> and_then (give (decision_failure_envelope V r res)) (\<lambda>e. give (Inr (PermanentAnswer e)))))"

definition claim_pending_choice ::
  "pending_tables service \<Rightarrow> answer_scene \<Rightarrow> command_request \<Rightarrow> pending_route \<Rightarrow> (envelope + ustr \<times> pending_route) pending_act" where
  "claim_pending_choice V A r wanted =
     and_then (attempt (choice_call V A r True)) (\<lambda>v.
     let answer = (\<lambda>m. and_then (give m) (\<lambda>e. give (Inr (Inl e)))) in
     case v of
       None \<Rightarrow> answer (backend_uncertain V r ''pending answer claim state is uncertain'')
     | Some res \<Rightarrow>
         (case (case res of ChoiceClaimed token t \<Rightarrow> if token \<noteq> [] \<and> same_pending_route wanted t then Some (token, t) else None | _ \<Rightarrow> None) of
            Some x \<Rightarrow> give (Inr (Inr x)) | None \<Rightarrow> answer (pending_changed_envelope V r)))"

definition claim_pending_decision ::
  "pending_tables service \<Rightarrow> answer_scene \<Rightarrow> command_request \<Rightarrow> decision_route \<Rightarrow> (envelope + ustr \<times> decision_route) pending_act" where
  "claim_pending_decision V A r wanted =
     and_then (attempt (decision_call V A r True)) (\<lambda>v.
     let answer = (\<lambda>m. and_then (give m) (\<lambda>e. give (Inr (Inl e)))) in
     case v of
       None \<Rightarrow> answer (backend_uncertain V r ''pending decision claim state is uncertain'')
     | Some res \<Rightarrow>
         (case (case res of DecisionClaimed token t \<Rightarrow> if token \<noteq> [] \<and> same_decision_route wanted t then Some (token, t) else None | _ \<Rightarrow> None) of
            Some x \<Rightarrow> give (Inr (Inr x)) | None \<Rightarrow> answer (decision_failure_envelope V r res)))"

definition abandon_pending_claim :: "pending_tables service \<Rightarrow> ustr \<Rightarrow> bool pending_act" where
  "abandon_pending_claim V token =
     (if token = [] then give (Inr False)
      else and_then (attempt (pending_call V (\<lambda>E T. Inr (abandon_backend_pending_choice_claim (sv_host_id V) token T)))) (\<lambda>v.
        give (Inr (case v of None \<Rightarrow> False | Some b \<Rightarrow> b))))"

definition abandon_request_reservation ::
  "pending_tables service \<Rightarrow> command_request \<Rightarrow> canonical_mutation \<Rightarrow> ustr \<Rightarrow> bool pending_act" where
  "abandon_request_reservation V r c token =
     and_then (attempt (transact (sv_at V) (\<lambda>E db.
         abandon_command_request_reservation E (sv_host_id V) (request_id_of r) (cn_fingerprint c) token None db))) (\<lambda>v.
       give (Inr (case v of None \<Rightarrow> False | Some b \<Rightarrow> b)))"

section \<open>Driving an answer\<close>

text \<open>The terminal effect of an answer, by whether it was accepted.\<close>

definition answer_effect :: "pending_tables service \<Rightarrow> ustr \<Rightarrow> bool \<Rightarrow> pending_tables terminal_effect" where
  "answer_effect V claim_token accepted = Some (backend_pending_choice_terminal_effect (sv_host_id V) claim_token accepted)"

definition finish_uncertain ::
  "pending_tables service \<Rightarrow> command_request \<Rightarrow> canonical_mutation \<Rightarrow> ustr \<Rightarrow> ustr \<Rightarrow> string \<Rightarrow> envelope pending_act" where
  "finish_uncertain V r c token claim_token message =
     and_then (give (backend_uncertain V r message)) (\<lambda>e.
       finish_request V r c token e SendStarted Uncertain (answer_effect V claim_token False))"

text \<open>
  From the claim's start on the two answers differ in their route, texts and inputs only:
  \<open>started\<close> is the start of the claim's send, \<open>inputs\<close> what a route is typed as.
\<close>

definition type_answer ::
  "pending_tables service \<Rightarrow> answer_scene \<Rightarrow> command_request \<Rightarrow> canonical_mutation \<Rightarrow> ustr \<Rightarrow> ustr \<Rightarrow> ustr
     \<Rightarrow> pane_input list result \<Rightarrow> string \<Rightarrow> members \<Rightarrow> envelope pending_act" where
  "type_answer V A r c token claim_token pane inputs message result =
     and_then (attempt (and_then (give inputs) (\<lambda>xs. type_inputs (an_inputs A) 0 pane xs))) (\<lambda>typed.
     case typed of
       None \<Rightarrow> finish_uncertain V r c token claim_token message
     | Some _ \<Rightarrow>
         and_then (give (from_result V r True status_accepted ''terminal_accepted'' (Some result) None [])) (\<lambda>e.
           finish_request V r c token e SendStarted Accepted (answer_effect V claim_token True)))"

definition drive_answer ::
  "pending_tables service \<Rightarrow> command_request \<Rightarrow> canonical_mutation \<Rightarrow> ustr \<Rightarrow> ustr \<Rightarrow> ustr \<Rightarrow> string
     \<Rightarrow> ('r pending_send option) pending_act \<Rightarrow> ('r \<Rightarrow> bool) \<Rightarrow> ('r \<Rightarrow> envelope pending_act) \<Rightarrow> envelope pending_act" where
  "drive_answer V r c token claim_token binding noun start same type =
     and_then (mark_request_send_started V r c token binding None None) (\<lambda>marked.
     case marked of
       MarkAnswer e \<Rightarrow>
         and_then (abandon_pending_claim V claim_token) (\<lambda>released.
         if en_status e = status_pending \<and> \<not> released
         then and_then (give (backend_uncertain V r (noun @ '' claim could not be safely released''))) (\<lambda>u.
           finish_before_send V r c token u)
         else give (Inr e))
     | MarkTurn _ \<Rightarrow> give (Inl RuntimeError)
     | MarkDone \<Rightarrow>
         and_then start (\<lambda>started.
         case started of
           None \<Rightarrow>
             and_then (abandon_pending_claim V claim_token) (\<lambda>_.
               finish_uncertain V r c token claim_token (noun @ '' start state is uncertain''))
         | Some res \<Rightarrow>
             (case (case res of SendBegun t \<Rightarrow> if same t then Some t else None | _ \<Rightarrow> None) of
                None \<Rightarrow>
                  and_then (abandon_pending_claim V claim_token) (\<lambda>_.
                    finish_uncertain V r c token claim_token (noun @ '' state is uncertain after send start''))
              | Some t \<Rightarrow> type t)))"

definition start_choice :: "pending_tables service \<Rightarrow> ustr \<Rightarrow> (pending_route pending_send option) pending_act" where
  "start_choice V claim_token =
     attempt (pending_call V (\<lambda>E. start_backend_pending_choice_send E (sv_host_id V) claim_token None claim_lease))"

definition start_decision ::
  "pending_tables service \<Rightarrow> answer_scene \<Rightarrow> ustr \<Rightarrow> (decision_route pending_send option) pending_act" where
  "start_decision V A claim_token =
     attempt (pending_call V (\<lambda>E. start_backend_pending_decision_send (an_env A) E (sv_host_id V) claim_token None claim_lease))"

definition choice_inputs :: "pending_route \<Rightarrow> pane_input list" where
  "choice_inputs t = private_pane_input (show_int (rt_ordinal t))"

definition decision_inputs :: "python_text \<Rightarrow> decision_route \<Rightarrow> pane_input list result" where
  "decision_inputs P t =
     bind_result (calibrate_decision_steps P (dr_kind t) (int (dr_option_count t)) (dr_option_refs t) (dr_text t)) (\<lambda>steps.
       Inr (map step_input steps))"

definition answer_pending ::
  "pending_tables service \<Rightarrow> answer_scene \<Rightarrow> command_request \<Rightarrow> canonical_mutation \<Rightarrow> ustr \<Rightarrow> pending_route \<Rightarrow> envelope pending_act" where
  "answer_pending V A r c token wanted =
     and_then (claim_pending_choice V A r wanted) (\<lambda>claimed.
     case claimed of
       Inl e \<Rightarrow> finish_before_send V r c token e
     | Inr (claim_token, t) \<Rightarrow>
         drive_answer V r c token claim_token (rt_binding t) ''pending answer'' (start_choice V claim_token) (same_pending_route t) (\<lambda>s.
           type_answer V A r c token claim_token (py_strip (rt_target s)) (Inr (choice_inputs s))
             ''Herdr socket pane input state is uncertain after send start'' (pending_public_result r (rt_worker_id s))))"

definition answer_decision ::
  "pending_tables service \<Rightarrow> answer_scene \<Rightarrow> command_request \<Rightarrow> canonical_mutation \<Rightarrow> ustr \<Rightarrow> decision_route \<Rightarrow> envelope pending_act" where
  "answer_decision V A r c token wanted =
     and_then (claim_pending_decision V A r wanted) (\<lambda>claimed.
     case claimed of
       Inl e \<Rightarrow>
         if en_status e = status_answer_in_progress
         then and_then (abandon_request_reservation V r c token) (\<lambda>_. give (answer_in_progress V r True))
         else finish_before_send V r c token e
     | Inr (claim_token, t) \<Rightarrow>
         drive_answer V r c token claim_token (dr_binding t) ''pending decision'' (start_decision V A claim_token) (same_decision_route t) (\<lambda>s.
           type_answer V A r c token claim_token (py_strip (dr_target s)) (decision_inputs (sv_text V) s)
             ''Herdr decision input state is uncertain after send start'' (decision_public_result r (dr_worker_id s))))"

section \<open>The whole answer\<close>

text \<open>
  What has been decided when nothing is reserved yet: an envelope to answer with, or the
  mutation with the failure that must be recorded for it, if any.
\<close>

datatype 'r answer_plan = AnswerNow envelope | AnswerWith canonical_mutation "envelope option" "'r option"

definition plan_answer ::
  "pending_tables service \<Rightarrow> answer_scene \<Rightarrow> command_request \<Rightarrow> ustr option \<Rightarrow> envelope option
     \<Rightarrow> 'r validated pending_act \<Rightarrow> ('r \<Rightarrow> ustr) \<Rightarrow> 'r answer_plan pending_act" where
  "plan_answer V A r takeover unhealthy validate worker_of =
     (let now = (\<lambda>m. and_then (give m) (\<lambda>e. give (Inr (AnswerNow e)))) in
      case takeover of
        Some stored \<Rightarrow>
          and_then (give (build_canonical_mutation (sv_text V) r stored)) (\<lambda>c.
          and_then validate (\<lambda>v.
          case v of
            TransientAnswer e \<Rightarrow> now (request_in_progress V r)
          | PermanentAnswer e \<Rightarrow>
              if en_status e = status_answer_in_progress then now (answer_in_progress V r True)
              else give (Inr (AnswerWith c (Some e) None))
          | ValidAnswer t \<Rightarrow>
              if worker_of t \<noteq> stored
              then and_then (give (duplicate_request V r)) (\<lambda>e. give (Inr (AnswerWith c (Some e) None)))
              else give (Inr (AnswerWith c None (Some t)))))
      | None \<Rightarrow>
          and_then validate (\<lambda>v.
          let refuse = (\<lambda>e. give (Inr (AnswerNow (if rq_action r \<noteq> lit ''answer_decision''
              then (case unhealthy of Some h \<Rightarrow> h | None \<Rightarrow> e) else e)))) in
          case v of
            TransientAnswer e \<Rightarrow> refuse e
          | PermanentAnswer e \<Rightarrow> refuse e
          | ValidAnswer t \<Rightarrow>
              and_then (give (build_canonical_mutation (sv_text V) r (worker_of t))) (\<lambda>c. give (Inr (AnswerWith c None (Some t))))))"

definition submit_answer ::
  "pending_tables service \<Rightarrow> answer_scene \<Rightarrow> command_request \<Rightarrow> 'r validated pending_act \<Rightarrow> ('r \<Rightarrow> ustr)
     \<Rightarrow> (canonical_mutation \<Rightarrow> ustr \<Rightarrow> 'r \<Rightarrow> envelope pending_act) \<Rightarrow> envelope pending_act" where
  "submit_answer V A r validate worker_of drive =
     and_then (existing_authority V (an_scene A) r) (\<lambda>decided.
     case decided of
       Inl e \<Rightarrow> give (Inr e)
     | Inr takeover \<Rightarrow>
         (case sc_snapshot (an_scene A) of
            None \<Rightarrow> give (if takeover \<noteq> None then request_in_progress V r
              else backend_unavailable V r ''Current worker authority is temporarily unavailable'' [])
          | Some sn \<Rightarrow>
              and_then (give (backend_health_error V (sc_socket (an_scene A)) r sn)) (\<lambda>unhealthy.
              and_then (plan_answer V A r takeover unhealthy validate worker_of) (\<lambda>plan.
              case plan of
                AnswerNow e \<Rightarrow> give (Inr e)
              | AnswerWith c failed valid \<Rightarrow>
                  if failed = None \<and> unhealthy = None \<and> \<not> sc_connected (an_scene A)
                  then give (if takeover \<noteq> None then request_in_progress V r
                    else backend_unavailable V r ''Herdr socket could not be reached'' [])
                  else
                    and_then (reserve_canonical_request V r c) (\<lambda>reserved.
                    case reserved of
                      Inl e \<Rightarrow> give (Inr e)
                    | Inr token \<Rightarrow>
                        (case (case failed of Some e \<Rightarrow> Some e | None \<Rightarrow> unhealthy) of
                           Some e \<Rightarrow> finish_before_send V r c token e
                         | None \<Rightarrow>
                             (case valid of Some t \<Rightarrow> drive c token t | None \<Rightarrow> give (Inl RuntimeError))))))))"

section \<open>Actions without a receipt\<close>

definition resolve_target_result :: "'p service \<Rightarrow> command_request \<Rightarrow> worker list \<Rightarrow> envelope result" where
  "resolve_target_result V r workers =
     (case resolve_target (sv_text V) (rq_target r) workers False False of (resolved, candidates, status) \<Rightarrow>
        if status = TargetResolved
        then from_result V r True (lit ''resolved'') ''no_receipt'' (Some [(lit ''target'', json_members resolved)]) None []
        else target_resolution_error V r status candidates)"

text \<open>\<open>shown\<close> is the current snapshot as \<open>to_dict\<close> prints it, with its workers.\<close>

definition execute_non_mutating :: "'p service \<Rightarrow> command_request \<Rightarrow> (worker list \<times> members) option \<Rightarrow> envelope result" where
  "execute_non_mutating V r shown =
     (if rq_action r = lit ''noop'' then from_result V r True (lit ''noop'') ''no_receipt'' (Some []) None []
      else case shown of None \<Rightarrow> Inl RuntimeError
      | Some (workers, d) \<Rightarrow>
          if rq_action r = lit ''read_snapshot''
          then from_result V r True (lit ''snapshot'') ''no_receipt'' (Some [(lit ''snapshot'', JDict d)]) None []
          else resolve_target_result V r workers)"

definition mutation_dry_run :: "'p service \<Rightarrow> command_request \<Rightarrow> envelope result" where
  "mutation_dry_run V r =
     (let params = the_members (rq_params r); target = JDict (the_members (rq_target r));
          shown = (\<lambda>d. from_result V r True (lit ''dry_run'') ''no_receipt'' (Some d) None []) in
      if rq_action r = lit ''send_instruction''
      then shown [(lit ''target'', target), (lit ''instruction'', JDict [(lit ''text'', JStr (instruction_text r))])]
      else if rq_action r = lit ''answer_decision''
      then shown [(lit ''target'', target), (lit ''decision'', JDict [(lit ''decision_ref'', member params ''decision_ref'')]),
             (lit ''delivery_state'', JStr (lit ''not_submitted''))]
      else shown [(lit ''pending'', JDict [(lit ''id'', member params ''pending_id''), (lit ''fingerprint'', member params ''pending_fingerprint'')]),
             (lit ''choice'', JDict [(lit ''choice_id'', member params ''choice_id'')]),
             (lit ''delivery_state'', JStr (lit ''not_submitted''))])"

text \<open>A request that has been parsed and validated.\<close>

definition submit_command_v2 ::
  "pending_tables service \<Rightarrow> answer_scene \<Rightarrow> (worker list \<times> members) option \<Rightarrow> command_request \<Rightarrow> envelope pending_act" where
  "submit_command_v2 V A shown r =
     (if \<not> one_of (rq_action r) mutating_actions then give (execute_non_mutating V r shown)
      else if rq_dry_run r = JBool True then give (mutation_dry_run V r)
      else if rq_action r = lit ''send_instruction'' then submit_send V (an_scene A) r
      else if rq_action r = lit ''answer_decision''
      then submit_answer V A r (validate_pending_decision V A r) dr_worker_id (answer_decision V A r)
      else submit_answer V A r (validate_pending_choice V A r) rt_worker_id (answer_pending V A r))"

text \<open>
  A payload as it arrives.  \<open>wording\<close> is the error value of each refusal of the parser and of
  the validation, whose texts the model leaves open.
\<close>

definition rejection_envelope :: "'p service \<Rightarrow> command_request option \<Rightarrow> members \<Rightarrow> envelope result" where
  "rejection_envelope V parsed error =
     (case parsed of
        Some r \<Rightarrow> from_error V r error
      | None \<Rightarrow>
          make_envelope (sv_sanitizer V)
           \<lparr>ea_ok = JBool False, ea_status = get_default error ''code'' (JStr (lit ''invalid_request'')),
            ea_action = JStr [], ea_disposition = JStr (lit ''no_receipt''), ea_request_id = JNull, ea_dry_run = JBool True,
            ea_result = JNull, ea_error = JDict error, ea_warnings = JList [], ea_schema_version = JInt 2\<rparr>)"

definition submit_payload ::
  "pending_tables service \<Rightarrow> answer_scene \<Rightarrow> (worker list \<times> members) option \<Rightarrow> (request_error \<Rightarrow> members)
     \<Rightarrow> ustr \<Rightarrow> envelope pending_act" where
  "submit_payload V A shown wording payload =
     (case parse_command_request (sv_text V) payload of
        (parsed, Some e) \<Rightarrow> give (rejection_envelope V parsed (wording e))
      | (None, None) \<Rightarrow> give (Inl RuntimeError)
      | (Some r, None) \<Rightarrow>
          and_then (case validate_request (sv_text V) r of
              Some e \<Rightarrow> give (rejection_envelope V (Some r) (wording e))
            | None \<Rightarrow> submit_command_v2 V A shown r) (\<lambda>e.
          negotiated_submission_envelope V r e))"

definition replay_command_receipt :: "'p service \<Rightarrow> ustr \<Rightarrow> (envelope option, 'p) act" where
  "replay_command_receipt V payload =
     (let answer = (\<lambda>m. and_then (give m) (\<lambda>e. give (Inr (Some e)))) in
      case parse_command_request (sv_text V) payload of
        (Some r, None) \<Rightarrow>
          if validate_request (sv_text V) r \<noteq> None \<or> \<not> one_of (rq_action r) mutating_actions \<or> rq_dry_run r = JBool True
          then give (Inr None)
          else
            and_then (attempt (read_receipt V r)) (\<lambda>found.
            case found of
              Some (Some v) \<Rightarrow>
                if vw_legacy_collision v then answer (receipt_malformed V r)
                else if vw_action v \<noteq> rq_action r then answer (duplicate_request V r)
                else
                  and_then (give (proven_replay_worker_id V False None r v)) (\<lambda>proven.
                  case proven of
                    ProvenOther e \<Rightarrow> give (Inr (Some e))
                  | Unproven \<Rightarrow> give (Inr None)
                  | ProvenWorker worker \<Rightarrow>
                      (case build_canonical_mutation (sv_text V) r worker of
                         Inl _ \<Rightarrow> answer (receipt_malformed V r)
                       | Inr c \<Rightarrow>
                           and_then (give (envelope_from_receipt V r c (Some v))) (\<lambda>e.
                           and_then (negotiated_submission_envelope V r e) (\<lambda>e. give (Inr (Some e))))))
            | _ \<Rightarrow> give (Inr None))
      | _ \<Rightarrow> give (Inr None))"

section \<open>What a caller that answers does to the world\<close>

lemma tables_step: "command_step Elsewhere db (db\<lparr>other_tables := T\<rparr>)"
  using step_elsewhere[where db = db and ts = "turns db" and rs = "revisions db" and p = T] by simp

lemma steps_to_tables: "steps_to db (db\<lparr>other_tables := T\<rparr>)"
  by (rule steps_to_step[OF tables_step]) simp

lemma silent_pending_call [quiet]: "lawful V \<Longrightarrow> silent (pending_call V f)"
  unfolding pending_call_def by (rule silent_transact) (auto simp: bind_result_eq_Inr intro: steps_to_tables)

lemma silent_validated [quiet]:
  "(\<And>x. silent (f x)) \<Longrightarrow> (\<And>e. silent (g e)) \<Longrightarrow> (\<And>e. silent (h e))
    \<Longrightarrow> silent (case v of ValidAnswer x \<Rightarrow> f x | PermanentAnswer e \<Rightarrow> g e | TransientAnswer e \<Rightarrow> h e)"
  by (cases v) auto

lemma silent_unavailable [quiet]: "silent (store_unavailable V r)"
  unfolding store_unavailable_def by (intro quiet)

lemma silent_validate [quiet]:
  "lawful V \<Longrightarrow> silent (validate_pending_choice V A r)" "lawful V \<Longrightarrow> silent (validate_pending_decision V A r)"
  unfolding validate_pending_choice_def validate_pending_decision_def choice_call_def decision_call_def by (intro quiet; assumption)+

lemma silent_claim [quiet]:
  "lawful V \<Longrightarrow> silent (claim_pending_choice V A r t)" "lawful V \<Longrightarrow> silent (claim_pending_decision V A r s)"
  unfolding claim_pending_choice_def claim_pending_decision_def choice_call_def decision_call_def by (intro quiet; assumption)+

lemma silent_abandon_claim [quiet]: "lawful V \<Longrightarrow> silent (abandon_pending_claim V token)"
  unfolding abandon_pending_claim_def by (intro quiet)

lemma silent_abandon_reservation [quiet]:
  assumes "lawful V"
  shows "silent (abandon_request_reservation V r c token)"
proof -
  have "silent (transact (sv_at V) (\<lambda>E db. abandon_command_request_reservation E h q fp tok None db))" for h q fp tok
    by (rule silent_op[OF assms]) (blast intro: step_abandon)
  then show ?thesis unfolding abandon_request_reservation_def by (intro quiet)
qed

lemma silent_finish_uncertain [quiet]: "lawful V \<Longrightarrow> silent (finish_uncertain V r c token ct m)"
  unfolding finish_uncertain_def by (intro quiet)

lemma silent_plan [quiet]: "silent validate \<Longrightarrow> silent (plan_answer V A r takeover unhealthy validate worker_of)"
  unfolding plan_answer_def Let_def by (intro quiet)

text \<open>
  Either the caller stood still, or its own mark was granted, then its own send began on the
  pending tables, and then it typed.
\<close>

definition answered ::
  "ustr \<times> ustr \<Rightarrow> (pending_tables \<Rightarrow> pending_tables \<Rightarrow> (ustr \<times> pane_input) list \<Rightarrow> bool)
     \<Rightarrow> pending_tables world \<Rightarrow> pending_tables world \<Rightarrow> bool" where
  "answered k sent w w' \<longleftrightarrow> still w w'
     \<or> (\<exists>db1 db2 db3 T ps. steps_to (w_store w) db1 \<and> command_step (Marked k (Done SendStarted)) db1 db2 \<and> steps_to db2 db3
        \<and> sent (other_tables db3) T ps \<and> steps_to (db3\<lparr>other_tables := T\<rparr>) (w_store w') \<and> w_prompts w' = w_prompts w @ ps)"

interpretation answer: tolerant "answered k sent" for k sent
proof
  fix a b c d :: "pending_tables world"
  show "still a b \<Longrightarrow> answered k sent a b" by (simp add: answered_def)
  assume s: "still a b" "answered k sent b c" "still c d"
  note tr = steps_to_trans[of "w_store a" "w_store b"] steps_to_trans[of _ "w_store c" "w_store d"]
  show "answered k sent a d"
  proof (cases "still b c")
    case True
    then have "still a d" using s(1,3) steps_to_trans unfolding still_def by metis
    then show ?thesis by (simp add: answered_def)
  next
    case False
    then obtain db1 db2 db3 T ps where x: "steps_to (w_store b) db1" "command_step (Marked k (Done SendStarted)) db1 db2" "steps_to db2 db3"
      "sent (other_tables db3) T ps" "steps_to (db3\<lparr>other_tables := T\<rparr>) (w_store c)" "w_prompts c = w_prompts b @ ps" using s(2) unfolding answered_def by blast
    have "steps_to (w_store a) db1" using tr(1) x(1) s(1) unfolding still_def by blast
    moreover have "steps_to (db3\<lparr>other_tables := T\<rparr>) (w_store d)" using tr(2) x(5) s(3) unfolding still_def by blast
    moreover have "w_prompts d = w_prompts a @ ps" using s(1,3) x(6) unfolding still_def by simp
    ultimately show ?thesis unfolding answered_def using x(2-4) by blast
  qed
qed

lemma and_then_at: "m w = (Inr x, w1) \<Longrightarrow> and_then m f w = f x w1"
  by (simp add: and_then_def)

lemma attempt_raises: "attempt m w \<noteq> (Inl e, w')"
  by (auto simp: attempt_def split: prod.splits sum.splits)

text \<open>A program that only types, as far as the socket lets it.\<close>

definition types :: "((ustr \<times> pane_input) list \<Rightarrow> bool) \<Rightarrow> ('a, 'p) act \<Rightarrow> bool" where
  "types S m \<longleftrightarrow> (\<forall>w. steps_to (w_store w) (w_store (snd (m w))) \<and> (\<exists>ps. S ps \<and> w_prompts (snd (m w)) = w_prompts w @ ps))"

definition typed_of :: "ustr \<Rightarrow> pane_input list \<Rightarrow> (ustr \<times> pane_input) list \<Rightarrow> bool" where
  "typed_of pane xs ps \<longleftrightarrow> (\<exists>n. ps = map (Pair pane) (take n xs))"

lemma type_inputs_prefix:
  "w_store (snd (type_inputs replies i pane xs w)) = w_store w
    \<and> (\<exists>n. w_prompts (snd (type_inputs replies i pane xs w)) = w_prompts w @ map (Pair pane) (take n xs))"
proof (induction xs arbitrary: i w)
  case Nil
  then show ?case by (simp add: give_def)
next
  case (Cons x xs)
  let ?w = "w\<lparr>w_prompts := w_prompts w @ [(pane, x)]\<rparr>"
  obtain n where n: "w_prompts (snd (type_inputs replies (Suc i) pane xs ?w)) = w_prompts ?w @ map (Pair pane) (take n xs)"
    "w_store (snd (type_inputs replies (Suc i) pane xs ?w)) = w_store ?w"
    using Cons by blast
  have "w_prompts (snd (type_inputs replies i pane (x # xs) w)) = w_prompts w @ map (Pair pane) (take (Suc n) (x # xs))
      \<or> w_prompts (snd (type_inputs replies i pane (x # xs) w)) = w_prompts w @ map (Pair pane) (take (Suc 0) (x # xs))
      \<or> w_prompts (snd (type_inputs replies i pane (x # xs) w)) = w_prompts w @ map (Pair pane) (take 0 (x # xs))"
    "w_store (snd (type_inputs replies i pane (x # xs) w)) = w_store w"
    using n by (auto simp: and_then_def prompt_def give_def split: input_reply.split)
  then show ?case by blast
qed

lemma type_answer_types:
  assumes "lawful V" "\<And>xs. inputs = Inr xs \<Longrightarrow> typed_of pane xs = S" "S []"
  shows "types S (type_answer V A r c token ct pane inputs m res)"
  unfolding types_def
proof
  fix w :: "pending_tables world"
  let ?p = "attempt (and_then (give inputs) (\<lambda>xs. type_inputs (an_inputs A) 0 pane xs))"
  obtain res1 w1 where p: "?p w = (res1, w1)" by (cases "?p w")
  have t: "w_store w1 = w_store w \<and> (\<exists>ps. S ps \<and> w_prompts w1 = w_prompts w @ ps)"
  proof (cases inputs)
    case (Inl e)
    then have "w1 = w" using p by (auto simp: attempt_def and_then_def give_def)
    then show ?thesis using assms(3) by auto
  next
    case (Inr xs)
    then have w1: "w1 = snd (type_inputs (an_inputs A) 0 pane xs w)"
      using p by (auto simp: attempt_def and_then_def give_def split: prod.splits sum.splits)
    obtain n where "w_prompts w1 = w_prompts w @ map (Pair pane) (take n xs)" "w_store w1 = w_store w"
      using type_inputs_prefix[of "an_inputs A" 0 pane xs w] w1 by blast
    then show ?thesis using assms(2)[OF Inr] by (auto simp: typed_of_def)
  qed
  have q: "silent (case x of None \<Rightarrow> finish_uncertain V r c token ct m
      | Some _ \<Rightarrow> and_then (give (from_result V r True status_accepted ''terminal_accepted'' (Some res) None [])) (\<lambda>e.
           finish_request V r c token e SendStarted Accepted (answer_effect V ct True)))" for x
    using assms(1) by (intro quiet)
  show "steps_to (w_store w) (w_store (snd (type_answer V A r c token ct pane inputs m res w)))
      \<and> (\<exists>ps. S ps \<and> w_prompts (snd (type_answer V A r c token ct pane inputs m res w)) = w_prompts w @ ps)"
  proof (cases res1)
    case (Inl e)
    then show ?thesis using p attempt_raises by metis
  next
    case (Inr x)
    obtain res2 w2 where f: "(case x of None \<Rightarrow> finish_uncertain V r c token ct m
      | Some _ \<Rightarrow> and_then (give (from_result V r True status_accepted ''terminal_accepted'' (Some res) None [])) (\<lambda>e.
           finish_request V r c token e SendStarted Accepted (answer_effect V ct True))) w1 = (res2, w2)" by fastforce
    then have "snd (type_answer V A r c token ct pane inputs m res w) = w2"
      by (simp add: type_answer_def and_then_at[where m = ?p, OF p[unfolded Inr]])
    then show ?thesis using silentD[OF q f] t by auto
  qed
qed

lemma silent_mark_type [quiet]:
  "(\<And>e. silent (f e)) \<Longrightarrow> (\<And>d. silent (g d)) \<Longrightarrow> silent m \<Longrightarrow> silent (case v of MarkAnswer e \<Rightarrow> f e | MarkTurn d \<Rightarrow> g d | MarkDone \<Rightarrow> m)"
  by (cases v) auto

lemma lawful_others: "lawful V \<Longrightarrow> steps_to db (ta_others (sv_at V n) db)"
  by (simp add: lawful_def steps_to_def)

lemma still_trans: "still a b \<Longrightarrow> still b c \<Longrightarrow> still a c"
  using steps_to_trans[of "w_store a" "w_store b" "w_store c"] by (simp add: still_def)

lemma grants_steps: "grants k db db' \<Longrightarrow> steps_to db db'"
  unfolding grants_def by (elim exE conjE) (rule steps_to_trans, assumption, rule steps_to_trans, rule steps_to_step, assumption, simp_all)

text \<open>The part of an answer after its own mark was granted.\<close>

lemma started_answer:
  assumes V: "lawful V" and start: "start = attempt (pending_call V f)"
    and began: "\<And>E T t T' ps. f E T = Inr (SendBegun t, T') \<Longrightarrow> same t \<Longrightarrow> S t ps \<Longrightarrow> sent T T' ps"
    and type: "\<And>t. types (S t) (type t)" and fail: "\<And>b. silent (fail b)"
    and g: "grants k (w_store w0) (w_store w)" "w_prompts w = w_prompts w0"
  shows "answered k sent w0 (snd (and_then start (\<lambda>started. case started of
      None \<Rightarrow> fail True
    | Some res \<Rightarrow> (case (case res of SendBegun t \<Rightarrow> if same t then Some t else None | _ \<Rightarrow> None) of
        None \<Rightarrow> fail False | Some t \<Rightarrow> type t)) w))"
proof -
  let ?next = "\<lambda>started. case started of
      None \<Rightarrow> fail True
    | Some res \<Rightarrow> (case (case res of SendBegun t \<Rightarrow> if same t then Some t else None | _ \<Rightarrow> None) of
        None \<Rightarrow> fail False | Some t \<Rightarrow> type t)"
  obtain res w1 where s: "start w = (res, w1)" by (cases "start w")
  have sil: "silent start" unfolding start using V by (intro quiet)
  have still0: "steps_to (w_store w0) (w_store w)" by (rule grants_steps[OF g(1)])
  obtain started where res: "res = Inr started" using s attempt_raises unfolding start by (cases res) auto
  have nx: "snd (and_then start ?next w) = snd (?next started w1)" by (simp add: and_then_at[where m = start, OF s[unfolded res]])
  show ?thesis
  proof (cases "\<exists>t. started = Some (SendBegun t) \<and> same t")
    case False
    have "silent (?next started)"
    proof (cases started)
      case None
      then show ?thesis by (simp only: option.case fail)
    next
      case (Some res)
      then have "(case res of SendBegun t \<Rightarrow> if same t then Some t else None | _ \<Rightarrow> None) = None"
        using False by (auto split: pending_send.split)
      then show ?thesis unfolding Some option.case by (simp only: option.case fail)
    qed
    then have n: "still w1 (snd (?next started w1))" by (rule silent_still[OF _ prod.collapse[symmetric]])
    have "still w0 w" using still0 g(2) by (simp add: still_def)
    then have "still w0 (snd (?next started w1))" by (rule still_trans[OF still_trans[OF _ silent_still[OF sil s]] n])
    then show ?thesis unfolding nx by (rule answer.quiet)
  next
    case True
    then obtain t where t: "started = Some (SendBegun t)" "same t" by blast
    let ?t = "sv_at V (w_tick w)"
    let ?db = "ta_others ?t (w_store w)"
    have call: "pending_call V f w = (Inr (SendBegun t), w1)" using s unfolding start res t(1) by (simp add: attempt_Some)
    obtain T' where T': "f (ta_env ?t) (other_tables ?db) = Inr (SendBegun t, T')" "w_store w1 = ?db\<lparr>other_tables := T'\<rparr>"
      "w_prompts w1 = w_prompts w"
      using call by (auto simp: pending_call_def transact_def Let_def bind_result_eq_Inr split: sum.splits if_splits)
    have others: "steps_to (w_store w) ?db" by (rule lawful_others[OF V])
    obtain db1 db2 where m: "steps_to (w_store w0) db1" "command_step (Marked k (Done SendStarted)) db1 db2" "steps_to db2 ?db"
      using grants_extend[OF steps_to_refl g(1) others] unfolding grants_def by blast
    have nt: "?next started = type t" using t by simp
    obtain ps where ps: "S t ps" "w_prompts (snd (type t w1)) = w_prompts w1 @ ps" "steps_to (w_store w1) (w_store (snd (type t w1)))"
      using type[of t] unfolding types_def by blast
    have "sent (other_tables ?db) T' ps" by (rule began[OF T'(1) t(2) ps(1)])
    moreover have "steps_to (?db\<lparr>other_tables := T'\<rparr>) (w_store (snd (type t w1)))" using ps(3) T'(2) by simp
    moreover have "w_prompts (snd (type t w1)) = w_prompts w0 @ ps" using ps(2) T'(3) g(2) by simp
    ultimately show ?thesis unfolding nx nt answered_def using m by blast
  qed
qed

lemma drive_answer_kept:
  fixes V :: "pending_tables service"
  assumes V: "lawful V" and start: "start = attempt (pending_call V f)"
    and began: "\<And>E T t T' ps. f E T = Inr (SendBegun t, T') \<Longrightarrow> same t \<Longrightarrow> S t ps \<Longrightarrow> sent T T' ps"
    and type: "\<And>t. types (S t) (type t)"
  shows "keeps_to (answered (sv_host_id V, request_id_of r) sent) (drive_answer V r c token ct binding noun start same type)"
  unfolding keeps_to_def
proof
  fix w
  let ?k = "(sv_host_id V, request_id_of r)" and ?m = "mark_request_send_started V r c token binding None None"
  let ?fail = "\<lambda>b. and_then (abandon_pending_claim V ct) (\<lambda>_. finish_uncertain V r c token ct
      (noun @ (if b then '' start state is uncertain'' else '' state is uncertain after send start'')))"
  let ?refused = "\<lambda>e. and_then (abandon_pending_claim V ct) (\<lambda>released.
      if en_status e = status_pending \<and> \<not> released
      then and_then (give (backend_uncertain V r (noun @ '' claim could not be safely released''))) (\<lambda>u. finish_before_send V r c token u)
      else give (Inr e))"
  obtain res w1 where m: "?m w = (res, w1)" by (cases "?m w")
  have sm: "still w w1" by (rule silent_still[OF silent_mark[OF V] m])
  have fail: "silent (?fail b)" and refused: "silent (?refused e)" for b e using V by (intro quiet; assumption)+
  show "answered ?k sent w (snd (drive_answer V r c token ct binding noun start same type w))"
  proof (cases "res = Inr MarkDone")
    case True
    have g: "grants ?k (w_store w) (w_store w1) \<and> w_prompts w1 = w_prompts w"
      by (rule mark_granted[OF V m[unfolded True]]) auto
    let ?next = "\<lambda>started. case started of
        None \<Rightarrow> ?fail True
      | Some res \<Rightarrow> (case (case res of SendBegun t \<Rightarrow> if same t then Some t else None | _ \<Rightarrow> None) of
          None \<Rightarrow> ?fail False | Some t \<Rightarrow> type t)"
    have "drive_answer V r c token ct binding noun start same type w = and_then start ?next w1"
      by (simp add: drive_answer_def and_then_at[where m = ?m, OF m[unfolded True]])
    moreover have "answered ?k sent w (snd (and_then start ?next w1))"
      by (rule started_answer[where f = f and S = S and fail = ?fail, OF V start _ type fail conjunct1[OF g] conjunct2[OF g]]) (rule began)
    ultimately show ?thesis by (simp only:)
  next
    case False
    show ?thesis
    proof (cases res)
      case (Inl e)
      then have "drive_answer V r c token ct binding noun start same type w = (Inl e, w1)" using m by (simp add: drive_answer_def and_then_def[of ?m])
      then show ?thesis using answer.quiet[OF sm] by simp
    next
      case (Inr x)
      have "drive_answer V r c token ct binding noun start same type w = (case x of MarkAnswer e \<Rightarrow> ?refused e | _ \<Rightarrow> give (Inl RuntimeError)) w1"
        using False Inr by (cases x) (simp_all add: drive_answer_def and_then_at[where m = ?m, OF m[unfolded Inr]])
      moreover have "silent (case x of MarkAnswer e \<Rightarrow> ?refused e | _ \<Rightarrow> give (Inl RuntimeError))"
        using refused silent_give by (cases x) auto
      ultimately show ?thesis
        using answer.after[OF answer.quiet[OF sm] silent_still[OF _ prod.collapse[symmetric]]] by (simp only:)
    qed
  qed
qed

text \<open>
  The send of an answer: a claim whose request names the current prompt begins on the pending
  tables, and the typed inputs are the first ones of those its stored route calls for, at the
  pane of that route.
\<close>

definition choice_typed :: "pending_route \<Rightarrow> (ustr \<times> pane_input) list \<Rightarrow> bool" where
  "choice_typed t = typed_of (py_strip (rt_target t)) (choice_inputs t)"

definition decision_typed :: "python_text \<Rightarrow> decision_route \<Rightarrow> (ustr \<times> pane_input) list \<Rightarrow> bool" where
  "decision_typed P t ps =
     (case decision_inputs P t of Inl _ \<Rightarrow> ps = [] | Inr xs \<Rightarrow> typed_of (py_strip (dr_target t)) xs ps)"

definition answer_sent ::
  "pending_tables service \<Rightarrow> answer_scene \<Rightarrow> command_request \<Rightarrow> pending_tables \<Rightarrow> pending_tables
     \<Rightarrow> (ustr \<times> pane_input) list \<Rightarrow> bool" where
  "answer_sent V A r T T' ps \<longleftrightarrow> (\<exists>E token.
     if rq_action r = lit ''answer_decision''
     then \<exists>t. start_backend_pending_decision_send (an_env A) E (sv_host_id V) token None claim_lease T = Inr (SendBegun t, T')
       \<and> exact_decision_route t \<and> decision_typed (sv_text V) t ps
     else \<exists>t. start_backend_pending_choice_send E (sv_host_id V) token None claim_lease T = Inr (SendBegun t, T')
       \<and> exact_pending_route t \<and> choice_typed t ps)"

lemma typed_nothing: "typed_of pane xs []"
  unfolding typed_of_def by (rule exI[of _ 0]) simp

lemma answer_pending_kept:
  assumes "lawful V" "rq_action r \<noteq> lit ''answer_decision''"
  shows "keeps_to (answered (sv_host_id V, request_id_of r) (answer_sent V A r)) (answer_pending V A r c token wanted)"
  unfolding answer_pending_def
proof (intro answer.kept answer.prod_kept quiet answer.silent_kept[OF silent_before_send] assms(1))
  fix ct t
  show "keeps_to (answered (sv_host_id V, request_id_of r) (answer_sent V A r))
    (drive_answer V r c token ct (rt_binding t) ''pending answer'' (start_choice V ct) (same_pending_route t) (\<lambda>s.
       type_answer V A r c token ct (py_strip (rt_target s)) (Inr (choice_inputs s))
         ''Herdr socket pane input state is uncertain after send start'' (pending_public_result r (rt_worker_id s))))"
    by (rule drive_answer_kept[where S = choice_typed, OF assms(1) start_choice_def])
      (auto simp: answer_sent_def assms(2) same_pending_route_def choice_typed_def typed_nothing intro!: type_answer_types[OF assms(1)])
qed

lemma answer_decision_kept:
  assumes "lawful V" "rq_action r = lit ''answer_decision''"
  shows "keeps_to (answered (sv_host_id V, request_id_of r) (answer_sent V A r)) (answer_decision V A r c token wanted)"
  unfolding answer_decision_def
proof (intro answer.kept answer.prod_kept quiet answer.silent_kept[OF silent_before_send] assms(1))
  fix ct t
  have ty: "types (decision_typed (sv_text V) s) (type_answer V A r c token ct (py_strip (dr_target s)) (decision_inputs (sv_text V) s) m res)"
    for s m res
    by (rule type_answer_types[OF assms(1)]) (auto simp: decision_typed_def typed_nothing fun_eq_iff split: sum.split)
  show "keeps_to (answered (sv_host_id V, request_id_of r) (answer_sent V A r))
    (drive_answer V r c token ct (dr_binding t) ''pending decision'' (start_decision V A ct) (same_decision_route t) (\<lambda>s.
       type_answer V A r c token ct (py_strip (dr_target s)) (decision_inputs (sv_text V) s)
         ''Herdr decision input state is uncertain after send start'' (decision_public_result r (dr_worker_id s))))"
    by (rule drive_answer_kept[where S = "decision_typed (sv_text V)", OF assms(1) start_decision_def])
      (auto simp: answer_sent_def assms(2) same_decision_route_def intro: ty)
qed

lemma submit_answer_kept:
  assumes "lawful V" "silent validate" "\<And>c token t. keeps_to (answered k sent) (drive c token t)"
  shows "keeps_to (answered k sent) (submit_answer V A r validate worker_of drive)"
proof -
  have p: "keeps_to (answered k sent) (case plan of AnswerNow e \<Rightarrow> f e | AnswerWith c failed valid \<Rightarrow> g c failed valid)"
    if "\<And>e. keeps_to (answered k sent) (f e)" "\<And>c x y. keeps_to (answered k sent) (g c x y)"
    for plan f and g :: "canonical_mutation \<Rightarrow> envelope option \<Rightarrow> 'a option \<Rightarrow> envelope pending_act"
    using that by (cases plan) auto
  show ?thesis unfolding submit_answer_def
    by (intro answer.kept p silent_give silent_existing silent_plan silent_reserve answer.silent_kept[OF silent_before_send] assms)
qed

lemma submission_answers:
  assumes "lawful V" "rq_action r \<noteq> lit ''send_instruction''"
  shows "keeps_to (answered (sv_host_id V, request_id_of r) (answer_sent V A r)) (submit_command_v2 V A shown r)"
proof -
  have "keeps_to (answered (sv_host_id V, request_id_of r) (answer_sent V A r))
      (submit_answer V A r (validate_pending_decision V A r) dr_worker_id (answer_decision V A r))"
    if "rq_action r = lit ''answer_decision''"
    by (intro submit_answer_kept answer_decision_kept silent_validate assms(1) that)
  moreover have "keeps_to (answered (sv_host_id V, request_id_of r) (answer_sent V A r))
      (submit_answer V A r (validate_pending_choice V A r) rt_worker_id (answer_pending V A r))"
    if "rq_action r \<noteq> lit ''answer_decision''"
    by (intro submit_answer_kept answer_pending_kept silent_validate assms(1) that)
  ultimately show ?thesis unfolding submit_command_v2_def using assms(2)
    by (cases "rq_action r = lit ''answer_decision''") (auto intro!: answer.if_kept answer.give_kept)
qed

lemma answered_run:
  assumes "answered k sent w w'"
  shows "\<exists>es. command_run es (w_store w) (w_store w') \<and> RetentionPass \<notin> set es
    \<and> (w_prompts w' = w_prompts w
       \<or> (\<exists>before after db T typed. es = before @ Elsewhere # after
           \<and> command_run before (w_store w) db \<and> Marked k (Done SendStarted) \<in> set before
           \<and> sent (other_tables db) T typed
           \<and> command_run after (db\<lparr>other_tables := T\<rparr>) (w_store w')
           \<and> w_prompts w' = w_prompts w @ typed))"
proof -
  consider (still) "still w w'"
    | (typed) db1 db2 db3 T ps where "steps_to (w_store w) db1" "command_step (Marked k (Done SendStarted)) db1 db2" "steps_to db2 db3"
        "sent (other_tables db3) T ps" "steps_to (db3\<lparr>other_tables := T\<rparr>) (w_store w')" "w_prompts w' = w_prompts w @ ps"
    using assms unfolding answered_def by blast
  then show ?thesis
  proof cases
    case still
    then show ?thesis by (auto simp: still_def steps_to_def)
  next
    case typed
    obtain es fs gs where run: "command_run es (w_store w) db1" "command_run fs db2 db3" "command_run gs (db3\<lparr>other_tables := T\<rparr>) (w_store w')"
      and nr: "RetentionPass \<notin> set es \<union> set fs \<union> set gs"
      using typed(1,3,5) by (auto simp: steps_to_def)
    let ?before = "es @ Marked k (Done SendStarted) # fs"
    have b: "command_run ?before (w_store w) db3"
      by (rule command_run_append[OF run(1) run_step[OF typed(2) run(2)]])
    have all: "command_run (?before @ Elsewhere # gs) (w_store w) (w_store w')"
      by (rule command_run_append[OF b run_step[OF tables_step run(3)]])
    have n: "RetentionPass \<notin> set (?before @ Elsewhere # gs)" using nr by simp
    have "Marked k (Done SendStarted) \<in> set ?before" by simp
    then show ?thesis using b typed(4,6) run(3) all n by blast
  qed
qed

text \<open>What one call of \<open>submit_command\<close> may type, and when.\<close>

definition typed_by ::
  "pending_tables service \<Rightarrow> answer_scene \<Rightarrow> command_request \<Rightarrow> pending_tables world \<Rightarrow> pending_tables world \<Rightarrow> bool" where
  "typed_by V A r w w' \<longleftrightarrow>
     (if rq_action r = lit ''send_instruction''
      then granted (sv_host_id V, request_id_of r) (once (instruction_text r)) w w'
      else answered (sv_host_id V, request_id_of r) (answer_sent V A r) w w')"

lemma submit_v2_types:
  assumes "lawful V"
  shows "keeps_to (typed_by V A r) (submit_command_v2 V A shown r)"
proof (cases "rq_action r = lit ''send_instruction''")
  case True
  have "prompts_after_grant (sv_host_id V, request_id_of r) (once (instruction_text r)) (submit_command_v2 V A shown r)"
    unfolding submit_command_v2_def using True
    by (auto intro!: grant.if_kept grant.give_kept submit_send_prompts assms)
  then show ?thesis by (simp add: keeps_to_def typed_by_def True)
next
  case False
  then show ?thesis using submission_answers[OF assms False] by (simp add: keeps_to_def typed_by_def)
qed

interpretation typing: tolerant "typed_by V A r" for V A r
proof
  fix a b c d :: "pending_tables world"
  show "still a b \<Longrightarrow> typed_by V A r a b"
    unfolding typed_by_def by (auto intro: grant.quiet answer.quiet)
  show "still a b \<Longrightarrow> typed_by V A r b c \<Longrightarrow> still c d \<Longrightarrow> typed_by V A r a d"
    unfolding typed_by_def by (auto split: if_splits intro: grant.around answer.around)
qed

text \<open>
  The typing itself, in the run \<open>es\<close> of the store: an instruction once, or an answer after its
  own mark and the start of its claim's send.
\<close>

definition typed_in_run ::
  "pending_tables service \<Rightarrow> answer_scene \<Rightarrow> command_request \<Rightarrow> run_event list \<Rightarrow> pending_tables store \<Rightarrow> pending_tables store
     \<Rightarrow> (ustr \<times> pane_input) list \<Rightarrow> bool" where
  "typed_in_run V A r es db0 db' ps \<longleftrightarrow>
     (if rq_action r = lit ''send_instruction''
      then \<exists>target. ps = [(target, AgentPrompt (instruction_text r))]
      else \<exists>before after db T. es = before @ Elsewhere # after
        \<and> command_run before db0 db \<and> Marked (sv_host_id V, request_id_of r) (Done SendStarted) \<in> set before
        \<and> answer_sent V A r (other_tables db) T ps
        \<and> command_run after (db\<lparr>other_tables := T\<rparr>) db')"

lemma typed_by_run:
  assumes "typed_by V A r w w'"
  shows "\<exists>es. command_run es (w_store w) (w_store w') \<and> RetentionPass \<notin> set es
    \<and> (w_prompts w' = w_prompts w
       \<or> (\<exists>typed. w_prompts w' = w_prompts w @ typed \<and> Marked (sv_host_id V, request_id_of r) (Done SendStarted) \<in> set es
         \<and> typed_in_run V A r es (w_store w) (w_store w') typed))"
proof (cases "rq_action r = lit ''send_instruction''")
  case True
  then have "granted (sv_host_id V, request_id_of r) (once (instruction_text r)) w w'" using assms by (simp add: typed_by_def)
  moreover have "typed_in_run V A r es a b ps = once (instruction_text r) ps" for es a b ps
    using True by (simp add: typed_in_run_def once_def)
  ultimately show ?thesis using granted_run by (simp only: conj_ac)
next
  case False
  then have "answered (sv_host_id V, request_id_of r) (answer_sent V A r) w w'" using assms by (simp add: typed_by_def)
  from answered_run[OF this] obtain es where es: "command_run es (w_store w) (w_store w')" "RetentionPass \<notin> set es"
    "w_prompts w' = w_prompts w \<or> (\<exists>before after db T typed. es = before @ Elsewhere # after
         \<and> command_run before (w_store w) db \<and> Marked (sv_host_id V, request_id_of r) (Done SendStarted) \<in> set before
         \<and> answer_sent V A r (other_tables db) T typed
         \<and> command_run after (db\<lparr>other_tables := T\<rparr>) (w_store w')
         \<and> w_prompts w' = w_prompts w @ typed)" by blast
  show ?thesis
  proof (cases "w_prompts w' = w_prompts w")
    case True
    then show ?thesis using es(1,2) by blast
  next
    case changed: False
    then obtain before after db T typed where x: "es = before @ Elsewhere # after"
         "command_run before (w_store w) db" "Marked (sv_host_id V, request_id_of r) (Done SendStarted) \<in> set before"
         "answer_sent V A r (other_tables db) T typed"
         "command_run after (db\<lparr>other_tables := T\<rparr>) (w_store w')" "w_prompts w' = w_prompts w @ typed" using es(3) by blast
    have t: "typed_in_run V A r es (w_store w) (w_store w') typed"
      unfolding typed_in_run_def if_not_P[OF False] by (intro exI conjI) (rule x)+
    have m: "Marked (sv_host_id V, request_id_of r) (Done SendStarted) \<in> set es" using x(1,3) by simp
    show ?thesis by (rule exI[of _ es], intro conjI es disjI2, rule exI[of _ typed]) (intro conjI x m t)
  qed
qed

lemma silent_unless_live:
  "\<not> (one_of (rq_action r) mutating_actions \<and> rq_dry_run r \<noteq> JBool True) \<Longrightarrow> silent (submit_command_v2 V A shown r)"
  unfolding submit_command_v2_def by (auto intro: silent_give)

lemma silent_payload:
  assumes "lawful V" and not_live: "\<nexists>r. parse_command_request (sv_text V) payload = (Some r, None) \<and> validate_request (sv_text V) r = None
    \<and> one_of (rq_action r) mutating_actions \<and> rq_dry_run r \<noteq> JBool True"
  shows "silent (submit_payload V A shown wording payload)"
proof -
  obtain parsed err where p: "parse_command_request (sv_text V) payload = (parsed, err)" by (cases "parse_command_request (sv_text V) payload")
  show ?thesis
  proof (cases "\<exists>r. parsed = Some r \<and> err = None")
    case False
    then show ?thesis unfolding submit_payload_def p by (cases err; cases parsed) (auto intro: silent_give)
  next
    case True
    then obtain r where r: "parsed = Some r" "err = None" by blast
    have "silent (case validate_request (sv_text V) r of Some e \<Rightarrow> give (rejection_envelope V (Some r) (wording e))
        | None \<Rightarrow> submit_command_v2 V A shown r)"
      using not_live p r by (cases "validate_request (sv_text V) r") (auto intro: silent_give silent_unless_live)
    then show ?thesis unfolding submit_payload_def p r prod.case option.case
      by (rule silent_and_then) (rule silent_negotiated[OF assms(1)])
  qed
qed

text \<open>
  C2: One call of \<open>submit_command\<close>, whatever its payload and whatever others do to the store
  between its transactions, types at most one thing.  It types only for a payload that
  parses and validates as a live mutation and whose own mark was granted: the text of an
  instruction, once; or, after the send of its claim began on the pending tables with the
  route stored for the prompt, a beginning of the keys that answer it, in the pane of that
  route.  When it does, nobody else is granted a mark of that request in the whole run,
  its receipt was absent or still reserved before, and is past that for good.
\<close>

theorem payload_is_typed_at_most_once:
  assumes "lawful V" "store_ok (w_store w)" "submit_payload V A shown wording payload w = (res, w')"
  shows "\<exists>es. command_run es (w_store w) (w_store w') \<and> RetentionPass \<notin> set es
    \<and> (w_prompts w' = w_prompts w
       \<or> (\<exists>r k typed. k = (sv_host_id V, request_id_of r)
         \<and> parse_command_request (sv_text V) payload = (Some r, None) \<and> validate_request (sv_text V) r = None
         \<and> one_of (rq_action r) mutating_actions \<and> rq_dry_run r \<noteq> JBool True
         \<and> w_prompts w' = w_prompts w @ typed \<and> typed_in_run V A r es (w_store w) (w_store w') typed
         \<and> sends_started k es = 1
         \<and> (\<forall>rc. receipt_map (w_store w) k = Some rc \<longrightarrow> rc_state rc = Reserved)
         \<and> (\<exists>rc. receipt_map (w_store w') k = Some rc \<and> rc_state rc \<noteq> Reserved)))"
proof (cases "\<exists>r. parse_command_request (sv_text V) payload = (Some r, None) \<and> validate_request (sv_text V) r = None
    \<and> one_of (rq_action r) mutating_actions \<and> rq_dry_run r \<noteq> JBool True")
  case False
  from silentD[OF silent_payload[OF assms(1) False] assms(3)] show ?thesis unfolding steps_to_def by blast
next
  case True
  then obtain r where r: "parse_command_request (sv_text V) payload = (Some r, None)" "validate_request (sv_text V) r = None"
    "one_of (rq_action r) mutating_actions" "rq_dry_run r \<noteq> JBool True" by blast
  have "keeps_to (typed_by V A r) (submit_payload V A shown wording payload)"
    unfolding submit_payload_def r(1,2) prod.case option.case
    by (rule typing.then_silent_kept[OF submit_v2_types[OF assms(1)] silent_negotiated[OF assms(1)]])
  then have "typed_by V A r w w'" unfolding keeps_to_def using assms(3) by (metis snd_conv)
  from typed_by_run[OF this] obtain es where es: "command_run es (w_store w) (w_store w')" "RetentionPass \<notin> set es"
    "w_prompts w' = w_prompts w \<or> (\<exists>typed. w_prompts w' = w_prompts w @ typed \<and> Marked (sv_host_id V, request_id_of r) (Done SendStarted) \<in> set es
         \<and> typed_in_run V A r es (w_store w) (w_store w') typed)" by blast
  show ?thesis
  proof (cases "w_prompts w' = w_prompts w")
    case True
    then show ?thesis using es(1,2) by blast
  next
    case False
    then obtain typed where t: "w_prompts w' = w_prompts w @ typed" "Marked (sv_host_id V, request_id_of r) (Done SendStarted) \<in> set es"
      "typed_in_run V A r es (w_store w) (w_store w') typed" using es(3) by blast
    note g = granted_once[OF es(1) assms(2) es(2) t(2)]
    show ?thesis
      by (rule exI[of _ es], intro conjI es disjI2, rule exI[of _ r], rule exI[of _ "(sv_host_id V, request_id_of r)"], rule exI[of _ typed])
        (intro conjI refl r t g[THEN conjunct1] g[THEN conjunct2, THEN conjunct1] g[THEN conjunct2, THEN conjunct2])
  qed
qed

text \<open>Reading a receipt back types nothing, and changes the store by other callers' steps only.\<close>

lemma replay_is_silent: "lawful V \<Longrightarrow> silent (replay_command_receipt V payload)"
proof -
  have p: "silent (case x of ProvenWorker y \<Rightarrow> f y | ProvenOther e \<Rightarrow> g e | Unproven \<Rightarrow> m)"
    if "\<And>y. silent (f y)" "\<And>e. silent (g e)" "silent m" for x :: proven and f g and m :: "('x, 'p) act"
    using that by (cases x) auto
  show "lawful V \<Longrightarrow> silent (replay_command_receipt V payload)"
    unfolding replay_command_receipt_def Let_def by (intro quiet p)
qed

section \<open>Examples\<close>

definition ex_answer_service :: "pending_tables service" where
  "ex_answer_service =
     \<lparr>sv_text = ex_text, sv_sanitizer = ex_sanitizer, sv_host_id = lit ''h'', sv_link_seconds = 120, sv_hard_seconds = 900,
      sv_at = (\<lambda>_. \<lparr>ta_env = ex_env, ta_refused = False, ta_others = (\<lambda>db. db)\<rparr>),
      sv_observed_turn = (\<lambda>_ _ _. None), sv_payload_fingerprint = (\<lambda>_. lit ''legacy'')\<rparr>"

definition ex_answer_store :: "pending_tables store" where
  "ex_answer_store =
     \<lparr>db_exists = True, receipts = [], receipt_seq = 0, commands = [], submissions = [], turns = [], revisions = [], events = [],
      link_backoff = (\<lambda>_. None), other_tables = ex_asked\<rparr>"

definition ex_answer_scene :: answer_scene where
  "ex_answer_scene =
     \<lparr>an_scene = \<lparr>sc_socket = True, sc_replay_snapshot = None, sc_snapshot = None, sc_clock = ex_env, sc_bindings = None,
        sc_connected = True, sc_pane = PaneFound, sc_reply = Failed []\<rparr>,
      an_env = ex_pending_env, an_inputs = (\<lambda>_. InputDone)\<rparr>"

definition ex_answer_payload :: ustr where
  "ex_answer_payload = json_dumps (JDict
     [(lit ''schema_version'', JInt 1), (lit ''action'', JStr (lit ''answer_pending'')), (lit ''request_id'', JStr (lit ''r'')),
      (lit ''dry_run'', JBool False),
      (lit ''params'', JDict [(lit ''pending_id'', JStr (lit ''p'')), (lit ''pending_fingerprint'', JStr (lit ''fp'')),
        (lit ''choice_id'', JStr (lit ''c''))])])"

lemma ex_answer_service: "lawful ex_answer_service"
  by (auto simp: lawful_def ex_answer_service_def intro!: exI[of _ "[]"] run_nil)

lemma ex_answer_store: "store_ok ex_answer_store"
  by (auto simp: store_ok_def ex_answer_store_def submissions_unique_def linked_turns_def unique_key_def)

theorem payload_is_typed_at_most_once_witness:
  "\<exists>res w' es. submit_payload ex_answer_service ex_answer_scene None (\<lambda>_. []) ex_answer_payload
       \<lparr>w_store = ex_answer_store, w_tick = 0, w_prompts = []\<rparr> = (res, w')
     \<and> command_run es ex_answer_store (w_store w') \<and> RetentionPass \<notin> set es"
proof -
  let ?w = "\<lparr>w_store = ex_answer_store, w_tick = 0, w_prompts = []\<rparr>"
  obtain res w' where s: "submit_payload ex_answer_service ex_answer_scene None (\<lambda>_. []) ex_answer_payload ?w = (res, w')" by fastforce
  have "store_ok (w_store ?w)" by (simp add: ex_answer_store)
  from payload_is_typed_at_most_once[OF ex_answer_service this s] s show ?thesis by auto
qed

end
