(* ===== verification/Spec2Isabelle.thy ===== *)
theory Spec2Isabelle
  imports CommandRuns Components OutboxHistory OutboxCalls OutboxPolls TurnListTokens TurnDeltaTokens ContentPages
    AnswerProtocol
begin

text \<open>
  A verification development for the core of tendwire.

  Tendwire keeps one SQLite store (\<open>src/src/tendwire/store/sqlite.py\<close>) between a host
  of agent terminals and the connectors that talk to people.  Four parts of it are
  modelled here.

  The command protocol.  A remote caller asks for an instruction to be sent to a worker or
  for a prompt of a worker to be answered.  \<open>core/commands.py\<close> parses, validates and
  fingerprints the request; the store reserves it; \<open>command_submission.py\<close> marks the send,
  types at most once and reports a verdict; and the outcome is established by the sender,
  by an observed turn that is linked to the submission, or by recovery.

  Pending interactions.  What agents wait for is observed into a row per worker; a request
  claims it with a lease, starts the send of its claim, and finishes it together with its
  receipt.

  The connector outbox.  Rows wait in a queue, are leased to connectors, and are settled by
  acknowledgement, failure, deferral or release; maintenance reclaims expired leases; a final
  answer enters as an anchor that supersedes the turn's other revisions, and a dead anchor can
  be retried.

  Turn content.  \<open>core/turns.py\<close> cuts canonical texts into pages and describes them, and
  hands out opaque cursors and watermarks that bind a client to a host, a position and a
  digest.

  How they interact: the submission of an answer runs the request protocol and the claims
  protocol against the same store (\<open>other_tables\<close> of the store is the pending tables
  there); settling a submission reads turns that observations wrote; the outbox and the
  content tokens stand on the shared JSON, SHA-256 and identifier functions.

  Foundations:

  \<^item> \<open>Base\<close>: code-point texts, Python's \<open>str.strip\<close>, exceptions as values
    (\<open>py_error + 'a\<close>), and SQL tables as lists of rows with guarded updates, row
    counts, deletes, upserts and constraint checks.
  \<^item> \<open>Json\<close>: JSON values, \<open>json.dumps\<close> with sorted keys and compact separators,
    \<open>json.loads\<close>, and the round trip between them.  \<open>PublicFields\<close>: the removal of
    forbidden fields from public and hashed texts.
  \<^item> \<open>Sha256\<close>: \<open>hashlib.sha256\<close> over 32-bit words, with UTF-8.  \<open>Transport\<close>: strict
    UTF-8 and URL-safe base64 in both directions.

  Requests and their receipts:

  \<^item> \<open>InstructionText\<close>: validation and normalisation of instruction texts, instruction
    fingerprints and submission ids (\<open>core/commands.py\<close>).
  \<^item> \<open>CommandRequests\<close>: \<open>CommandRequest\<close>, its parsing and validation, the canonical
    mutation and its fingerprint, the selector proof and target resolution.
    \<open>Envelopes\<close>: \<open>CommandEnvelope\<close>, what it may claim of a receipt, and its stored form.
  \<^item> \<open>StoreState\<close>: the tables (receipts, audit rows, submissions, turns, revisions,
    events), their constraints, the projection of a receipt to its audit row, and the
    store's invariant \<open>store_ok\<close>.  \<open>Submissions\<close>: the ledger's state machine, insertion,
    terminal moves, expiry and cancellation.
  \<^item> \<open>Receipts\<close>: the operations of the command-request protocol.
    \<open>ReceiptContract\<close>: what every operation promises, as the locale
    \<open>receipt_operation\<close>; \<open>ReceiptOps\<close>: each operation keeps the contract;
    \<open>ReceiptProps\<close>: its interpretations, and what callers rely on.
  \<^item> \<open>Settle\<close>, \<open>Components\<close>, \<open>SettleProps\<close>: linking submissions to observed turns by
    connected components, the work-list search against its specification, and why a link
    is never ambiguous.  \<open>Retention\<close>, \<open>RetentionProps\<close>: the bounded retention sweep.
  \<^item> \<open>CommandRuns\<close>: runs of all of these operations in any interleaving, and the
    properties of reachable stores.  \<open>ExampleStore\<close>: the stores of the witnesses.

  Prompts and answers:

  \<^item> \<open>Decisions\<close>: the connector-facing form of a decision, the selections a request may
    make of it, and the keys that answer it (\<open>backends/herdr_decision.py\<close>).
  \<^item> \<open>Pending\<close>: the pending rows and what an observation does to them.  \<open>PendingClaims\<close>:
    claims, their lease, start, release, completion and terminal effect.  Observations come by
    the writer of their own and inside a turn refresh, whose other effects are not modelled.
  \<^item> \<open>PendingProps\<close>: the invariant tying claims to prompts, and runs of the pending
    tables; \<open>PendingRuns\<close>: which operations unlock a worker; \<open>PendingAnswers\<close>: what the
    tables promise the request that answers.

  Submitting:

  \<^item> \<open>SendProtocol\<close>: one call that sends an instruction, as a program over a world of
    store, clock and typed prompts, in which other callers act between its transactions.
    The locale \<open>tolerant\<close> holds of every relation between worlds that standing still does
    not disturb, and carries such a relation through a program.
  \<^item> \<open>AnswerProtocol\<close>: one call that answers a prompt or a decision, the dispatch over
    all actions with dry runs and read-only ones, and the reading back of a receipt.

  The outbox:

  \<^item> \<open>Outbox\<close>, \<open>Deliveries\<close>: rows, attempts, plans and jobs, and the calls of connectors.
    \<open>OutboxContract\<close>: the contract of an operation; \<open>OutboxOps\<close>: every operation keeps it,
    and the locale \<open>outbox_operation\<close> with what follows.
  \<^item> \<open>OutboxRuns\<close>: runs, exclusive leases, and the refinement of an abstract lease table;
    \<open>OutboxCalls\<close>, \<open>OutboxPolls\<close>: each call branch by branch, polling, reclaiming and
    renewing.  \<open>ExampleOutbox\<close>: the queues of the witnesses.
  \<^item> \<open>FinalAnchors\<close>: the anchor rows of finals: enqueueing, superseding the work of other
    revisions, reactivating, and \<open>connector.retry\<close>.  \<open>OutboxHistory\<close>: histories that
    interleave these with the runs, and what they leave of leases and settled rows.

  Turn content:

  \<^item> \<open>Segments\<close>: pages of a text.  \<open>Tokens\<close>: the common form of the opaque tokens.
    \<open>TurnListTokens\<close>, \<open>TurnDeltaTokens\<close>, \<open>ContentTokens\<close>: their payloads and decoders.
    \<open>ContentPages\<close>: descriptors, projections and pages.

  What the groups of lemmas show.  The contracts give invariants of every reachable store;
  the runs turn them into statements about any interleaving; the call theorems
  characterise each operation on its branches, refusals included; the round trips say that
  stored, encoded and printed forms read back; and the submission theorems compose a
  caller's program with everybody else's steps.

  How the model reads the code.  A text is a list of code points.  A timestamp is a number
  of microseconds; the fixed-width texts the store writes compare as these numbers do, and
  the clocks inside tokens are rational.  Every transaction (\<open>BEGIN IMMEDIATE\<close> to
  \<open>COMMIT\<close>) is one function from a store to an exception (the transaction is rolled back
  and the caller keeps its store) or to a response with the store it leaves.  \<open>CHECK\<close>
  constraints and unique indexes are checks of the insert or update that could violate
  them.

  Arguments of the model, in place of what lies outside the code or is only called by it:
  the clock, the owner tokens and the sanitizer of event payloads (\<open>store_env\<close>,
  \<open>connector_env\<close>); the regular-expression sanitizers of public texts (\<open>sanitizer\<close>); the
  texts Python gives floats and containers and its digit table (\<open>python_text\<close>); the
  fingerprint of a public interaction and \<open>int\<close> of a stored text (\<open>pending_env\<close>); the
  digest of a final (\<open>ce_final_digest\<close>); what the outbox reads of turns, revisions and plan
  recoveries (\<open>anchor_env\<close>); the observed turn behind a submission, the legacy
  payload fingerprint and the other callers (\<open>service\<close>, whose \<open>sv_at\<close> gives for each
  transaction what others did before it and whether SQLite refuses it); the observed
  workers, the socket's replies and the panes (\<open>scene\<close>, \<open>answer_scene\<close>).  Others are only
  asked to be \<open>lawful\<close>: to run the protocol, and no retention sweep, between two
  transactions of one call.

  Bounds and termination.  Loops of the code are structural recursions or functions with a
  measure, so every operation returns.  Only the reader of JSON texts takes fuel, one unit
  more than the characters, and \<open>json_loads_dumps\<close> shows that this is enough for every
  text that was printed.

  Where the model is more generous than Python: \<open>utf8_encode\<close> is total, while Python raises on a
  lone surrogate (so instruction fingerprints, submission ids and owner-token hashes are
  defined for texts that make the code raise); and \<open>json_loads\<close> has no recursion limit.

  Not modelled: schema creation and migration, connection pragmas, file permissions, the
  interpreter's limits, the wording and details of validation errors; in the store also
  preparing, committing and recovering presentation plans and the retention of settled turns
  (neither a step of the outbox's runs nor an event of its histories), attention, merging backend observations into
  snapshots, and the queries that only list rows; the in-process send of
  \<open>core/actions.py\<close>; the command line, the local state, the daemon and its interface, the
  configuration, and the transports to the terminal program with their parsing of turns
  (\<open>backends/\<close>, except the calibration of decisions), which move data in and out of the
  operations above.
\<close>

end
